(* ===== verification/Prelude.thy ===== *)
theory Prelude
  imports Complex_Main "HOL-Library.Word" "HOL-Library.Multiset"
begin

text \<open>
  Shared vocabulary of the development: the collections of simplification rules the component
  theories extend, results that carry a Python exception, Python text (case folding, stripping,
  decimal numerals, canonical UUID text), sums over lists, and the row queries the services run
  against a table.

  The queries are the one place where the services depend on a third-party package: SQLAlchemy's
  \<open>Result.scalar_one_or_none\<close>. It is a parameter of every definition that uses it; its
  documented behaviour is the locale \<open>query_one\<close>.
\<close>

named_theorems value_simps \<open>unfolding rules for value objects and data transfer objects\<close>
named_theorems exact_simps \<open>rules that discharge decimal rounding on exactly representable values\<close>
named_theorems frame_simps \<open>what an operation leaves unchanged\<close>

section \<open>Results and exceptions\<close>

text \<open>The exceptions of the Python runtime and of the database driver that the modelled code can raise.\<close>

datatype py_exc =
    ValueError | TypeError | AssertionError
  | InvalidOperation | DivisionByZero | IndexError
  | MultipleResultsFound | IntegrityError

primrec rbind :: "'e + 'a \<Rightarrow> ('a \<Rightarrow> 'e + 'b) \<Rightarrow> 'e + 'b" where
  "rbind (Inl e) f = Inl e"
| "rbind (Inr x) f = f x"

definition ensure :: "bool \<Rightarrow> 'e \<Rightarrow> 'e + unit" where
  "ensure b e = (if b then Inr () else Inl e)"

primrec rmap :: "('a \<Rightarrow> 'b) \<Rightarrow> 'e + 'a \<Rightarrow> 'e + 'b" where
  "rmap f (Inl e) = Inl e"
| "rmap f (Inr x) = Inr (f x)"

primrec rtraverse :: "('a \<Rightarrow> 'e + 'b) \<Rightarrow> 'a list \<Rightarrow> 'e + 'b list" where
  "rtraverse f [] = Inr []"
| "rtraverse f (x # xs) = rbind (f x) (\<lambda>y. rmap ((#) y) (rtraverse f xs))"

text \<open>A loop over a list whose body may raise.\<close>

primrec rfold :: "('a \<Rightarrow> 's \<Rightarrow> 'e + 's) \<Rightarrow> 'a list \<Rightarrow> 's \<Rightarrow> 'e + 's" where
  "rfold f [] s = Inr s"
| "rfold f (x # xs) s = rbind (f x s) (rfold f xs)"

lemma rbind_eq_Inr: "rbind m f = Inr y \<longleftrightarrow> (\<exists>x. m = Inr x \<and> f x = Inr y)"
  by (cases m) auto

lemma rbind_eq_Inl: "rbind m f = Inl e \<longleftrightarrow> m = Inl e \<or> (\<exists>x. m = Inr x \<and> f x = Inl e)"
  by (cases m) auto

lemma rmap_eq_Inr: "rmap f m = Inr y \<longleftrightarrow> (\<exists>x. m = Inr x \<and> y = f x)"
  by (cases m) auto

lemma rmap_eq_Inl: "rmap f m = Inl e \<longleftrightarrow> m = Inl e"
  by (cases m) auto

lemma map_sum_Inr_iff: "map_sum f id m = Inr x \<longleftrightarrow> m = Inr x"
  by (cases m) auto

lemma map_sum_status: "map_sum id (f \<circ> fst) m = Inr y \<Longrightarrow> \<exists>r s. m = Inr (r, s) \<and> f r = y"
  by (cases m) auto

lemma ensure_simps [simp]:
  "ensure b e = Inr u \<longleftrightarrow> b"
  "ensure b e = Inl e' \<longleftrightarrow> \<not> b \<and> e' = e"
  "ensure True e = Inr ()"
  "ensure False e = Inl e"
  by (auto simp: ensure_def)

lemmas result_iffs = rbind_eq_Inr rbind_eq_Inl rmap_eq_Inr rmap_eq_Inl

lemma rtraverse_Inr: "rtraverse f xs = Inr ys \<longleftrightarrow> list_all2 (\<lambda>x y. f x = Inr y) xs ys"
  by (induction xs arbitrary: ys) (auto simp: result_iffs list_all2_Cons1)

lemma rtraverse_Inl: "rtraverse f xs = Inl e \<Longrightarrow> \<exists>x \<in> set xs. f x = Inl e"
  by (induction xs) (auto simp: result_iffs)

section \<open>Row queries\<close>

text \<open>
  \<open>scalar_one_or_none\<close> returns the only row of a result set, \<open>None\<close> for an empty one, and
  raises for more than one row. The definitions of the services take it as an argument.
\<close>

locale query_one =
  fixes one :: "'row list \<Rightarrow> py_exc + 'row option"
  assumes one_empty: "one [] = Inr None"
    and one_single: "one [r] = Inr (Some r)"
    and one_many: "one (r # r' # rs) = Inl MultipleResultsFound"
begin

lemma one_Inr_Some: "one rs = Inr (Some r) \<longleftrightarrow> rs = [r]"
proof (cases rs)
  case (Cons a as)
  then show ?thesis by (cases as) (auto simp: one_single one_many)
qed (simp add: one_empty)

lemma one_Inr_None: "one rs = Inr None \<longleftrightarrow> rs = []"
proof (cases rs)
  case (Cons a as)
  then show ?thesis by (cases as) (auto simp: one_single one_many)
qed (simp add: one_empty)

lemma one_Inl: "one rs = Inl e \<longleftrightarrow> e = MultipleResultsFound \<and> 2 \<le> length rs"
proof (cases rs)
  case (Cons a as)
  then show ?thesis by (cases as) (auto simp: one_single one_many)
qed (simp add: one_empty)

lemma one_cases:
  obtains (none) "rs = []" "one rs = Inr None"
  | (some) r where "rs = [r]" "one rs = Inr (Some r)"
  | (many) "2 \<le> length rs" "one rs = Inl MultipleResultsFound"
proof (cases rs)
  case Nil
  then show ?thesis using none one_empty by simp
next
  case (Cons a as)
  then show ?thesis using some many by (cases as) (auto simp: one_single one_many)
qed

end

fun scalar_one_or_none :: "'row list \<Rightarrow> py_exc + 'row option" where
  "scalar_one_or_none [] = Inr None"
| "scalar_one_or_none [r] = Inr (Some r)"
| "scalar_one_or_none (r # r' # rs) = Inl MultipleResultsFound"

interpretation soon: query_one scalar_one_or_none
  by unfold_locales simp_all

text \<open>
  A table with a UNIQUE column: inserting a row with a taken key fails, so the rows of a key are
  at most one and the queries by key never raise.
\<close>

lemma filter_key_cases:
  assumes "distinct (map key rows)"
  obtains "filter (\<lambda>r. key r = k) rows = []" "k \<notin> key ` set rows"
  | r where "filter (\<lambda>r. key r = k) rows = [r]" "r \<in> set rows" "key r = k"
proof (cases "k \<in> key ` set rows")
  case True
  then obtain r where r: "r \<in> set rows" "key r = k" by auto
  then obtain xs ys where rows: "rows = xs @ r # ys" by (meson split_list)
  have "key x \<noteq> k" if "x \<in> set xs \<union> set ys" for x
  proof -
    have "k \<notin> key ` (set xs \<union> set ys)" using assms r(2) by (simp add: rows image_Un)
    then show ?thesis using that by blast
  qed
  then have "filter (\<lambda>r. key r = k) xs = []" "filter (\<lambda>r. key r = k) ys = []"
    by (auto simp: filter_empty_conv)
  then have "filter (\<lambda>r. key r = k) rows = [r]" using r(2) by (simp add: rows)
  then show ?thesis using that(2) r by blast
next
  case False
  then have "filter (\<lambda>r. key r = k) rows = []" by (auto simp: filter_empty_conv)
  then show ?thesis using that(1) False by blast
qed

text \<open>The rows with a given value in a unique column: the first one found, or none.\<close>

lemma filter_unique_key:
  "distinct (map key xs) \<Longrightarrow>
     filter (\<lambda>x. key x = k) xs = (case find (\<lambda>x. key x = k) xs of None \<Rightarrow> [] | Some x \<Rightarrow> [x])"
proof (induction xs)
  case (Cons a xs)
  then have IH: "filter (\<lambda>x. key x = k) xs = (case find (\<lambda>x. key x = k) xs of None \<Rightarrow> [] | Some x \<Rightarrow> [x])"
    and "key a \<notin> key ` set xs" by simp_all
  then have "key a = k \<Longrightarrow> find (\<lambda>x. key x = k) xs = None" unfolding find_None_iff by (metis imageI)
  then show ?case using IH by simp
qed simp

lemma filter_key_single:
  assumes "distinct (map key rows)" "r \<in> set rows"
  shows "filter (\<lambda>x. key x = key r) rows = [r]"
proof (cases rule: filter_key_cases [OF assms(1), of "key r"])
  case 1
  then show ?thesis using assms(2) by simp
next
  case (2 r')
  have "r \<in> set (filter (\<lambda>x. key x = key r) rows)" using assms(2) by simp
  then have "r = r'" unfolding 2(1) by simp
  then show ?thesis using 2(1) by simp
qed

locale unique_table =
  fixes ins :: "'row \<Rightarrow> 'db \<Rightarrow> py_exc + 'db"
    and rows :: "'db \<Rightarrow> 'row list"
    and key :: "'row \<Rightarrow> 'k"
  assumes ins_rows: "ins r db = Inr db' \<Longrightarrow> rows db' = rows db @ [r]"
    and ins_fresh: "ins r db = Inr db' \<Longrightarrow> key r \<notin> key ` set (rows db)"
begin

lemma ins_distinct: "distinct (map key (rows db)) \<Longrightarrow> ins r db = Inr db' \<Longrightarrow> distinct (map key (rows db'))"
  using ins_rows ins_fresh by fastforce

lemma lookup_inserted:
  assumes "ins r db = Inr db'"
  shows "filter (\<lambda>x. key x = key r) (rows db') = [r]"
  using ins_rows [OF assms] ins_fresh [OF assms]
  by (auto simp: filter_empty_conv) (metis imageI)

lemma lookup_other:
  assumes "ins r db = Inr db'" "k \<noteq> key r"
  shows "filter (\<lambda>x. key x = k) (rows db') = filter (\<lambda>x. key x = k) (rows db)"
  using ins_rows [OF assms(1)] assms(2) by simp

end

section \<open>Python text\<close>

text \<open>
  Text is a list of characters. \<open>upper\<close> and \<open>strip\<close> are Python's on ASCII text: the
  currency and account codes the kernel handles.
\<close>

definition char_upper :: "char \<Rightarrow> char" where
  "char_upper c =
     (let n = of_char c :: nat in if 97 \<le> n \<and> n \<le> 122 then char_of (n - 32) else c)"

definition upper :: "string \<Rightarrow> string" where
  "upper s = map char_upper s"

definition char_lower :: "char \<Rightarrow> char" where
  "char_lower c = (let n = of_char c :: nat in if 65 \<le> n \<and> n \<le> 90 then char_of (n + 32) else c)"

definition lower :: "string \<Rightarrow> string" where
  "lower s = map char_lower s"

definition is_space :: "char \<Rightarrow> bool" where
  "is_space c \<longleftrightarrow> (let n = of_char c :: nat in (9 \<le> n \<and> n \<le> 13) \<or> (28 \<le> n \<and> n \<le> 32))"

definition strip :: "string \<Rightarrow> string" where
  "strip s = rev (dropWhile is_space (rev (dropWhile is_space s)))"

lemma char_upper_idem [simp]: "char_upper (char_upper c) = char_upper c"
  by (auto simp: char_upper_def Let_def)

lemma upper_idem [simp]: "upper (upper s) = upper s"
  by (simp add: upper_def)

lemma is_space_upper [simp]: "is_space (char_upper c) = is_space c"
  by (auto simp: char_upper_def is_space_def Let_def)

lemma dropWhile_space_upper: "dropWhile is_space (upper s) = upper (dropWhile is_space s)"
  by (simp add: upper_def dropWhile_map comp_def)

lemma strip_upper: "strip (upper s) = upper (strip s)"
  unfolding strip_def
  by (metis dropWhile_space_upper rev_map upper_def)

lemma dropWhile_idem: "dropWhile P (dropWhile P xs) = dropWhile P xs"
  by (induction xs) auto

lemma dropWhile_rev_keeps_front:
  assumes "dropWhile P xs = xs"
  shows "dropWhile P (rev (dropWhile P (rev xs))) = rev (dropWhile P (rev xs))"
proof (cases "rev (dropWhile P (rev xs))")
  case (Cons y ys)
  obtain zs where "rev xs = zs @ dropWhile P (rev xs)"
    by (metis takeWhile_dropWhile_id)
  then have "xs = rev (dropWhile P (rev xs)) @ rev zs"
    by (metis rev_append rev_rev_ident)
  then have "hd xs = y" and "xs \<noteq> []" using Cons by (metis append_Cons list.sel(1), metis append_Cons list.distinct(1))
  moreover have "\<not> P (hd xs)"
    using assms \<open>xs \<noteq> []\<close> by (metis hd_dropWhile)
  ultimately show ?thesis using Cons by simp
qed (simp only: dropWhile.simps(1))

lemma strip_idem [simp]: "strip (strip s) = strip s"
proof -
  have "dropWhile is_space (strip s) = strip s"
    unfolding strip_def by (rule dropWhile_rev_keeps_front) (rule dropWhile_idem)
  then show ?thesis
    by (simp add: strip_def dropWhile_idem)
qed

lemma upper_eq_Nil [simp]: "upper s = [] \<longleftrightarrow> s = []"
  by (simp add: upper_def)

lemma length_upper [simp]: "length (upper s) = length s"
  by (simp add: upper_def)

section \<open>Numerals and UUIDs as text\<close>

text \<open>\<open>str(n)\<close> for an \<open>int\<close>, and the 36 character form of a UUID, a 128 bit value.\<close>

type_synonym uuid = "128 word"

fun str_of_nat :: "nat \<Rightarrow> string" where
  "str_of_nat n =
     (if n < 10 then [''0123456789'' ! n] else str_of_nat (n div 10) @ [''0123456789'' ! (n mod 10)])"

declare str_of_nat.simps [simp del]

definition str_of_int :: "int \<Rightarrow> string" where
  "str_of_int i = (if i < 0 then CHR ''-'' # str_of_nat (nat (- i)) else str_of_nat (nat i))"

fun hex_digits :: "nat \<Rightarrow> nat \<Rightarrow> string" where
  "hex_digits 0 n = []"
| "hex_digits (Suc k) n = hex_digits k (n div 16) @ [''0123456789abcdef'' ! (n mod 16)]"

definition uuid_str :: "uuid \<Rightarrow> string" where
  "uuid_str u =
     (let h = hex_digits 32 (unat u)
      in take 8 h @ ''-'' @ take 4 (drop 8 h) @ ''-'' @ take 4 (drop 12 h) @ ''-''
         @ take 4 (drop 16 h) @ ''-'' @ drop 20 h)"

lemma digit_nth_inj:
  "a < 10 \<Longrightarrow> b < 10 \<Longrightarrow> ''0123456789'' ! a = ''0123456789'' ! b \<longleftrightarrow> a = b"
  by (rule nth_eq_iff_index_eq) simp_all

lemma hex_nth_inj:
  "a < 16 \<Longrightarrow> b < 16 \<Longrightarrow> ''0123456789abcdef'' ! a = ''0123456789abcdef'' ! b \<longleftrightarrow> a = b"
  by (rule nth_eq_iff_index_eq) simp_all

lemma set_str_of_nat: "set (str_of_nat n) \<subseteq> set ''0123456789''"
proof (induction n rule: str_of_nat.induct)
  case (1 n)
  have "''0123456789'' ! (n mod 10) \<in> set ''0123456789''"
    by (rule nth_mem) simp
  moreover have "n < 10 \<Longrightarrow> ''0123456789'' ! n \<in> set ''0123456789''"
    by (rule nth_mem) simp
  ultimately show ?case
    using 1 unfolding str_of_nat.simps [of n] by (cases "n < 10") auto
qed

lemma str_of_nat_nonempty [simp]: "str_of_nat n \<noteq> []"
  by (subst str_of_nat.simps) simp

lemma str_of_nat_snoc: "10 \<le> n \<Longrightarrow> str_of_nat n = str_of_nat (n div 10) @ [''0123456789'' ! (n mod 10)]"
  by (subst str_of_nat.simps) simp

lemma str_of_nat_inj: "str_of_nat m = str_of_nat n \<Longrightarrow> m = n"
proof (induction m arbitrary: n rule: less_induct)
  case (less m)
  show ?case
  proof (cases "m < 10"; cases "n < 10")
    assume "\<not> m < 10" "\<not> n < 10"
    then have "str_of_nat (m div 10) = str_of_nat (n div 10)"
      and "''0123456789'' ! (m mod 10) = ''0123456789'' ! (n mod 10)"
      using less.prems by (simp_all add: str_of_nat_snoc)
    moreover have "m div 10 < m" using \<open>\<not> m < 10\<close> by simp
    ultimately have "m div 10 = n div 10" and "m mod 10 = n mod 10"
      using less.IH by (blast, simp add: digit_nth_inj)
    then show ?thesis by (metis div_mult_mod_eq)
  next
    assume "m < 10" "n < 10"
    then show ?thesis using less.prems by (simp add: str_of_nat.simps digit_nth_inj)
  next
    assume "m < 10" "\<not> n < 10"
    then show ?thesis using less.prems by (simp add: str_of_nat_snoc str_of_nat.simps [of m] str_of_nat_nonempty [symmetric])
  next
    assume "\<not> m < 10" "n < 10"
    then show ?thesis using less.prems by (simp add: str_of_nat_snoc str_of_nat.simps [of n])
  qed
qed

lemma str_of_nat_no_minus: "str_of_nat n \<noteq> CHR ''-'' # s"
  using set_str_of_nat [of n] by auto

lemma str_of_int_inj: "str_of_int i = str_of_int j \<Longrightarrow> i = j"
  using str_of_nat_no_minus str_of_nat_no_minus [symmetric]
  by (auto simp: str_of_int_def split: if_splits dest!: str_of_nat_inj)

lemma set_str_of_int: "set (str_of_int i) \<subseteq> set ''-0123456789''"
proof -
  have "set (str_of_nat n) \<subseteq> set ''-0123456789''" for n
    by (rule subset_trans [OF set_str_of_nat]) (simp only: list.set, blast)
  then show ?thesis by (simp add: str_of_int_def)
qed

lemma length_hex_digits [simp]: "length (hex_digits k n) = k"
  by (induction k arbitrary: n) auto

lemma set_hex_digits: "set (hex_digits k n) \<subseteq> set ''0123456789abcdef''"
proof (induction k arbitrary: n)
  case (Suc k)
  have "''0123456789abcdef'' ! (n mod 16) \<in> set ''0123456789abcdef''"
    by (rule nth_mem) simp
  then show ?case using Suc [of "n div 16"] by simp
qed simp

lemma hex_digits_inj: "hex_digits k m = hex_digits k n \<Longrightarrow> m mod 16 ^ k = n mod 16 ^ k"
proof (induction k arbitrary: m n)
  case (Suc k)
  then have "hex_digits k (m div 16) = hex_digits k (n div 16)"
    and "''0123456789abcdef'' ! (m mod 16) = ''0123456789abcdef'' ! (n mod 16)"
    by (simp_all only: hex_digits.simps append1_eq_conv)
  then have "m div 16 mod 16 ^ k = n div 16 mod 16 ^ k" and "m mod 16 = n mod 16"
    using Suc.IH hex_nth_inj [of "m mod 16" "n mod 16"] by (blast, simp)
  then show ?case
    by (simp only: power_Suc mod_mult2_eq)
qed simp

lemma uuid_str_strip_dashes: "filter (\<lambda>c. c \<noteq> CHR ''-'') (uuid_str u) = hex_digits 32 (unat u)"
proof -
  let ?h = "hex_digits 32 (unat u)"
  have no_dash: "filter (\<lambda>c. c \<noteq> CHR ''-'') xs = xs" if "set xs \<subseteq> set ?h" for xs
    using that set_hex_digits [of 32 "unat u"] by (intro filter_True) auto
  have "filter (\<lambda>c. c \<noteq> CHR ''-'') (uuid_str u) =
      take 8 ?h @ take 4 (drop 8 ?h) @ take 4 (drop 12 ?h) @ take 4 (drop 16 ?h) @ drop 20 ?h"
    unfolding uuid_str_def Let_def
    by (simp add: no_dash set_take_subset set_drop_subset
        subset_trans [OF set_take_subset set_drop_subset])
  also have "\<dots> = take (8 + 4 + 4 + 4) ?h @ drop 20 ?h"
    by (simp only: take_add append_assoc) simp
  finally show ?thesis by simp
qed

lemma uuid_str_inj: "uuid_str u = uuid_str v \<longleftrightarrow> u = v"
proof
  assume "uuid_str u = uuid_str v"
  then have "hex_digits 32 (unat u) = hex_digits 32 (unat v)"
    by (metis uuid_str_strip_dashes)
  then have "unat u mod 16 ^ 32 = unat v mod 16 ^ 32" by (rule hex_digits_inj)
  moreover have "unat w mod 16 ^ 32 = unat w" for w :: uuid
    using unsigned_less [of w, where ?'a = nat] by simp
  ultimately have "unat u = unat v" by simp
  then show "u = v" by (rule unsigned_word_eqI)
qed simp

lemma length_uuid_str [simp]: "length (uuid_str u) = 36"
  by (simp add: uuid_str_def Let_def)

lemma set_uuid_str: "set (uuid_str u) \<subseteq> set ''-0123456789abcdef''"
proof -
  have "set (uuid_str u) \<subseteq> insert CHR ''-'' (set (filter (\<lambda>c. c \<noteq> CHR ''-'') (uuid_str u)))"
    by auto
  also have "\<dots> \<subseteq> set ''-0123456789abcdef''"
    unfolding uuid_str_strip_dashes list.set(2) [of "CHR ''-''"]
    by (rule insert_mono) (rule set_hex_digits)
  finally show ?thesis .
qed

text \<open>Splitting at the last separator: a tail that does not contain it is determined.\<close>

lemma append_sep_inj:
  assumes "xs @ c # ys = xs' @ c # ys'" "c \<notin> set ys" "c \<notin> set ys'"
  shows "xs = xs' \<and> ys = ys'"
proof -
  have "rev ys @ c # rev xs = rev ys' @ c # rev xs'"
    using arg_cong [OF assms(1), of rev] by simp
  moreover have "takeWhile (\<lambda>d. d \<noteq> c) (rev zs @ c # r) = rev zs" if "c \<notin> set zs" for zs r
    using that by (subst takeWhile_append2) auto
  ultimately have "rev ys = rev ys'" using assms(2,3) by metis
  then show ?thesis using assms(1) by simp
qed

section \<open>Python dates\<close>

text \<open>
  A date is its proleptic Gregorian ordinal (\<open>date.toordinal\<close>, day 1 is 0001-01-01).
  \<open>ymd_of_ordinal\<close> is the algorithm of \<open>datetime._ord2ymd\<close> with the month found by
  subtraction, and \<open>str_of_date\<close> is \<open>date.isoformat\<close>.
\<close>

definition is_leap :: "nat \<Rightarrow> bool" where
  "is_leap y \<longleftrightarrow> y mod 4 = 0 \<and> (y mod 100 \<noteq> 0 \<or> y mod 400 = 0)"

definition month_lengths :: "bool \<Rightarrow> nat list" where
  "month_lengths leap = [31, if leap then 29 else 28, 31, 30, 31, 30, 31, 31, 30, 31, 30, 31]"

fun month_day :: "nat list \<Rightarrow> nat \<Rightarrow> nat \<Rightarrow> nat \<times> nat" where
  "month_day [] m n = (m, n + 1)"
| "month_day (l # ls) m n = (if n < l then (m, n + 1) else month_day ls (m + 1) (n - l))"

definition ymd_of_ordinal :: "nat \<Rightarrow> nat \<times> nat \<times> nat" where
  "ymd_of_ordinal d =
     (let n = d - 1; n400 = n div 146097; n = n mod 146097;
          n100 = n div 36524; n = n mod 36524;
          n4 = n div 1461; n = n mod 1461;
          n1 = n div 365; n = n mod 365;
          year = n400 * 400 + 1 + n100 * 100 + n4 * 4 + n1
      in if n1 = 4 \<or> n100 = 4 then (year - 1, 12, 31) else (year, month_day (month_lengths (is_leap year)) 1 n))"

definition zero_pad :: "nat \<Rightarrow> string \<Rightarrow> string" where
  "zero_pad w s = replicate (w - length s) CHR ''0'' @ s"

definition str_of_date :: "int \<Rightarrow> string" where
  "str_of_date d =
     (let (y, m, dd) = ymd_of_ordinal (nat d)
      in zero_pad 4 (str_of_nat y) @ ''-'' @ zero_pad 2 (str_of_nat m) @ ''-'' @ zero_pad 2 (str_of_nat dd))"

end
