(* ===== verification/Period_Service.thy ===== *)
theory Period_Service
  imports Prelude
begin

text \<open>
  \<open>finance_kernel/services/period_service.py\<close> and \<open>models/fiscal_period.py\<close>: fiscal periods and
  their lifecycle OPEN, CLOSING, CLOSED, LOCKED. The table is a list of rows with unique codes;
  dates are day numbers. \<open>one\<close> is SQLAlchemy's \<open>scalar_one_or_none\<close>. An operation that raises
  leaves the table as it was, since its caller rolls back. The DTO conversion is not modelled: the
  operations return the row.

  The lemmas show that periods never overlap, so that every date has at most one period and the
  date queries never raise for several rows; that a closed period stays closed and rejects every
  posting; and what exactly the validation of a posting date accepts (R12, R13, R25).
\<close>

section \<open>Periods\<close>

datatype period_status = OPEN | CLOSING | CLOSED | LOCKED

fun status_rank :: "period_status \<Rightarrow> nat" where
  "status_rank OPEN = 0"
| "status_rank CLOSING = 1"
| "status_rank CLOSED = 2"
| "status_rank LOCKED = 3"

instantiation period_status :: linorder
begin

definition less_eq_period_status :: "period_status \<Rightarrow> period_status \<Rightarrow> bool" where
  "less_eq_period_status s t \<longleftrightarrow> status_rank s \<le> status_rank t"

definition less_period_status :: "period_status \<Rightarrow> period_status \<Rightarrow> bool" where
  "less_period_status s t \<longleftrightarrow> status_rank s < status_rank t"

instance
proof
  fix s t :: period_status
  show "s \<le> t \<Longrightarrow> t \<le> s \<Longrightarrow> s = t"
    by (cases s; cases t) (simp_all add: less_eq_period_status_def)
qed (auto simp: less_eq_period_status_def less_period_status_def)

end

record fiscal_period =
  fp_id :: uuid
  fp_period_code :: string
  fp_name :: string
  fp_start_date :: int
  fp_end_date :: int
  fp_status :: period_status
  fp_closing_run_id :: "string option"
  fp_closed_at :: "int option"
  fp_closed_by_id :: "uuid option"
  fp_allows_adjustments :: bool
  fp_created_by_id :: uuid

definition fp_is_open :: "fiscal_period \<Rightarrow> bool" where
  "fp_is_open p \<longleftrightarrow> fp_status p = OPEN"

definition fp_is_closed :: "fiscal_period \<Rightarrow> bool" where
  "fp_is_closed p \<longleftrightarrow> fp_status p = CLOSED \<or> fp_status p = LOCKED"

definition fp_contains_date :: "int \<Rightarrow> fiscal_period \<Rightarrow> bool" where
  "fp_contains_date d p \<longleftrightarrow> fp_start_date p \<le> d \<and> d \<le> fp_end_date p"

datatype period_exc =
    PeriodPy py_exc
  | PeriodOverlapError string string int int
  | PeriodNotFoundError
  | PeriodAlreadyClosedError string
  | PeriodClosingError string
  | ClosedPeriodError string
  | AdjustmentsNotAllowedError string
  | PeriodImmutableError string

definition pp :: "py_exc + 'a \<Rightarrow> period_exc + 'a" where
  "pp = map_sum PeriodPy id"

type_synonym periods = "fiscal_period list"
type_synonym one_period = "fiscal_period list \<Rightarrow> py_exc + fiscal_period option"

section \<open>Queries\<close>

definition get_period_orm :: "one_period \<Rightarrow> string \<Rightarrow> periods \<Rightarrow> period_exc + fiscal_period option" where
  "get_period_orm one code ps = pp (one (filter (\<lambda>p. fp_period_code p = code) ps))"

definition get_period_for_update :: "one_period \<Rightarrow> string \<Rightarrow> periods \<Rightarrow> period_exc + fiscal_period option" where
  "get_period_for_update one code ps = pp (one (filter (\<lambda>p. fp_period_code p = code) ps))"

definition get_period_for_date_orm :: "one_period \<Rightarrow> int \<Rightarrow> periods \<Rightarrow> period_exc + fiscal_period option" where
  "get_period_for_date_orm one d ps = pp (one (filter (\<lambda>p. fp_start_date p \<le> d \<and> fp_end_date p \<ge> d) ps))"

definition get_period_by_code :: "one_period \<Rightarrow> string \<Rightarrow> periods \<Rightarrow> period_exc + fiscal_period option" where
  "get_period_by_code one code ps = get_period_orm one code ps"

definition get_period_for_date :: "one_period \<Rightarrow> int \<Rightarrow> periods \<Rightarrow> period_exc + fiscal_period option" where
  "get_period_for_date one d ps = get_period_for_date_orm one d ps"

definition get_current_period ::
    "one_period \<Rightarrow> int \<Rightarrow> int option \<Rightarrow> periods \<Rightarrow> period_exc + fiscal_period option" where
  "get_current_period one today as_of ps =
     get_period_for_date one (case as_of of None \<Rightarrow> today | Some d \<Rightarrow> d) ps"

definition get_open_periods :: "periods \<Rightarrow> periods" where
  "get_open_periods ps = sort_key fp_start_date (filter (\<lambda>p. fp_status p = OPEN) ps)"

definition validate_effective_date :: "one_period \<Rightarrow> int \<Rightarrow> bool \<Rightarrow> periods \<Rightarrow> period_exc + unit" where
  "validate_effective_date one d is_close_posting ps =
     rbind (get_period_for_date_orm one d ps) (\<lambda>r.
       case r of
         None \<Rightarrow> Inl PeriodNotFoundError
       | Some p \<Rightarrow>
           if fp_is_closed p then Inl (ClosedPeriodError (fp_period_code p))
           else if fp_status p = CLOSING \<and> \<not> is_close_posting then Inl (PeriodClosingError (fp_period_code p))
           else Inr ())"

definition is_date_in_open_period :: "one_period \<Rightarrow> int \<Rightarrow> periods \<Rightarrow> period_exc + bool" where
  "is_date_in_open_period one d ps =
     (case validate_effective_date one d False ps of
        Inr _ \<Rightarrow> Inr True
      | Inl PeriodNotFoundError \<Rightarrow> Inr False
      | Inl (ClosedPeriodError _) \<Rightarrow> Inr False
      | Inl (PeriodClosingError _) \<Rightarrow> Inr False
      | Inl e \<Rightarrow> Inl e)"

definition validate_adjustment_allowed ::
    "one_period \<Rightarrow> int \<Rightarrow> bool \<Rightarrow> bool \<Rightarrow> periods \<Rightarrow> period_exc + unit" where
  "validate_adjustment_allowed one d is_adjustment is_close_posting ps =
     rbind (get_period_for_date_orm one d ps) (\<lambda>r.
       case r of
         None \<Rightarrow> Inl PeriodNotFoundError
       | Some p \<Rightarrow>
           if fp_is_closed p then Inl (ClosedPeriodError (fp_period_code p))
           else if fp_status p = CLOSING \<and> \<not> is_close_posting then Inl (PeriodClosingError (fp_period_code p))
           else if is_adjustment \<and> \<not> fp_allows_adjustments p then Inl (AdjustmentsNotAllowedError (fp_period_code p))
           else Inr ())"

definition allows_adjustments :: "one_period \<Rightarrow> int \<Rightarrow> periods \<Rightarrow> period_exc + bool" where
  "allows_adjustments one d ps =
     rmap (\<lambda>r. case r of None \<Rightarrow> False | Some p \<Rightarrow> fp_allows_adjustments p) (get_period_for_date_orm one d ps)"

section \<open>Lifecycle\<close>

definition insert_period :: "fiscal_period \<Rightarrow> periods \<Rightarrow> py_exc + periods" where
  "insert_period p ps =
     (if list_ex (\<lambda>q. fp_period_code q = fp_period_code p) ps then Inl IntegrityError else Inr (ps @ [p]))"

definition validate_no_overlap :: "one_period \<Rightarrow> string \<Rightarrow> int \<Rightarrow> int \<Rightarrow> periods \<Rightarrow> period_exc + unit" where
  "validate_no_overlap one code s e ps =
     rbind (pp (one (filter (\<lambda>p. fp_start_date p \<le> e \<and> fp_end_date p \<ge> s) ps))) (\<lambda>r.
       case r of
         None \<Rightarrow> Inr ()
       | Some p \<Rightarrow> Inl (PeriodOverlapError code (fp_period_code p) (max s (fp_start_date p)) (min e (fp_end_date p))))"

definition create_period ::
    "one_period \<Rightarrow> uuid \<Rightarrow> string \<Rightarrow> string \<Rightarrow> int \<Rightarrow> int \<Rightarrow> uuid \<Rightarrow> bool \<Rightarrow> periods
     \<Rightarrow> period_exc + fiscal_period \<times> periods" where
  "create_period one new_id code name s e actor adj ps =
     (if s > e then Inl (PeriodPy ValueError)
      else rbind (validate_no_overlap one code s e ps) (\<lambda>_.
        let p = \<lparr>fp_id = new_id, fp_period_code = code, fp_name = name, fp_start_date = s, fp_end_date = e,
                 fp_status = OPEN, fp_closing_run_id = None, fp_closed_at = None, fp_closed_by_id = None,
                 fp_allows_adjustments = adj, fp_created_by_id = actor\<rparr>
        in rmap (Pair p) (pp (insert_period p ps))))"

definition update_period :: "string \<Rightarrow> (fiscal_period \<Rightarrow> fiscal_period) \<Rightarrow> periods \<Rightarrow> periods" where
  "update_period code f ps = map (\<lambda>p. if fp_period_code p = code then f p else p) ps"

definition close_period ::
    "one_period \<Rightarrow> int \<Rightarrow> bool \<Rightarrow> string \<Rightarrow> uuid \<Rightarrow> periods \<Rightarrow> period_exc + fiscal_period \<times> periods" where
  "close_period one now trigger_fires code actor ps =
     rbind (get_period_for_update one code ps) (\<lambda>r.
       case r of
         None \<Rightarrow> Inl PeriodNotFoundError
       | Some p \<Rightarrow>
           if fp_is_closed p then Inl (PeriodAlreadyClosedError code)
           else if trigger_fires then Inl (PeriodAlreadyClosedError code)
           else let f = (\<lambda>p. p\<lparr>fp_status := CLOSED, fp_closed_at := Some now, fp_closed_by_id := Some actor,
                               fp_closing_run_id := None\<rparr>)
                in Inr (f p, update_period code f ps))"

definition begin_closing ::
    "one_period \<Rightarrow> string \<Rightarrow> string \<Rightarrow> periods \<Rightarrow> period_exc + fiscal_period \<times> periods" where
  "begin_closing one code run ps =
     rbind (get_period_for_update one code ps) (\<lambda>r.
       case r of
         None \<Rightarrow> Inl PeriodNotFoundError
       | Some p \<Rightarrow>
           if fp_is_closed p then Inl (PeriodAlreadyClosedError code)
           else if fp_status p = CLOSING then Inl (PeriodClosingError code)
           else let f = (\<lambda>p. p\<lparr>fp_status := CLOSING, fp_closing_run_id := Some run\<rparr>)
                in Inr (f p, update_period code f ps))"

definition cancel_closing :: "one_period \<Rightarrow> string \<Rightarrow> periods \<Rightarrow> period_exc + fiscal_period \<times> periods" where
  "cancel_closing one code ps =
     rbind (get_period_for_update one code ps) (\<lambda>r.
       case r of
         None \<Rightarrow> Inl PeriodNotFoundError
       | Some p \<Rightarrow>
           if fp_status p \<noteq> CLOSING then Inl (PeriodPy ValueError)
           else let f = (\<lambda>p. p\<lparr>fp_status := OPEN, fp_closing_run_id := None\<rparr>)
                in Inr (f p, update_period code f ps))"

definition lock_period :: "one_period \<Rightarrow> string \<Rightarrow> periods \<Rightarrow> period_exc + fiscal_period \<times> periods" where
  "lock_period one code ps =
     rbind (get_period_for_update one code ps) (\<lambda>r.
       case r of
         None \<Rightarrow> Inl PeriodNotFoundError
       | Some p \<Rightarrow>
           if fp_status p \<noteq> CLOSED then Inl (PeriodPy ValueError)
           else let f = (\<lambda>p. p\<lparr>fp_status := LOCKED\<rparr>) in Inr (f p, update_period code f ps))"

definition set_adjustments ::
    "bool \<Rightarrow> one_period \<Rightarrow> string \<Rightarrow> periods \<Rightarrow> period_exc + fiscal_period \<times> periods" where
  "set_adjustments b one code ps =
     rbind (get_period_orm one code ps) (\<lambda>r.
       case r of
         None \<Rightarrow> Inl PeriodNotFoundError
       | Some p \<Rightarrow>
           if fp_is_closed p then Inl (PeriodImmutableError code)
           else let f = (\<lambda>p. p\<lparr>fp_allows_adjustments := b\<rparr>) in Inr (f p, update_period code f ps))"

definition enable_adjustments :: "one_period \<Rightarrow> string \<Rightarrow> periods \<Rightarrow> period_exc + fiscal_period \<times> periods" where
  "enable_adjustments = set_adjustments True"

definition disable_adjustments :: "one_period \<Rightarrow> string \<Rightarrow> periods \<Rightarrow> period_exc + fiscal_period \<times> periods" where
  "disable_adjustments = set_adjustments False"

definition reopen_period :: "one_period \<Rightarrow> string \<Rightarrow> periods \<Rightarrow> period_exc + unit" where
  "reopen_period one code ps =
     rbind (get_period_orm one code ps) (\<lambda>r.
       case r of
         None \<Rightarrow> Inl PeriodNotFoundError
       | Some p \<Rightarrow> if fp_is_closed p then Inl (PeriodImmutableError code) else Inr ())"

section \<open>Well-formed tables\<close>

definition disjoint_periods :: "fiscal_period \<Rightarrow> fiscal_period \<Rightarrow> bool" where
  "disjoint_periods p q \<longleftrightarrow> fp_end_date p < fp_start_date q \<or> fp_end_date q < fp_start_date p"

definition wf_periods :: "periods \<Rightarrow> bool" where
  "wf_periods ps \<longleftrightarrow> distinct (map fp_period_code ps) \<and> list_all (\<lambda>p. fp_start_date p \<le> fp_end_date p) ps
     \<and> sorted_wrt disjoint_periods ps"

definition same_span :: "fiscal_period \<Rightarrow> fiscal_period \<Rightarrow> bool" where
  "same_span p q \<longleftrightarrow> fp_period_code p = fp_period_code q \<and> fp_start_date p = fp_start_date q
     \<and> fp_end_date p = fp_end_date q"

interpretation by_code: unique_table insert_period "\<lambda>ps. ps" fp_period_code
  by unfold_locales (auto simp: insert_period_def list_ex_iff split: if_splits)

lemma pp_simps [simp]:
  "pp r = Inr x \<longleftrightarrow> r = Inr x" "pp r = Inl e \<longleftrightarrow> (\<exists>x. e = PeriodPy x \<and> r = Inl x)"
  "pp (Inr x) = Inr x" "pp (Inl y) = Inl (PeriodPy y)"
  by (cases r; auto simp: pp_def)+

lemma date_rows:
  "sorted_wrt disjoint_periods ps \<Longrightarrow> length (filter (\<lambda>p. fp_start_date p \<le> d \<and> fp_end_date p \<ge> d) ps) \<le> 1"
proof (induction ps)
  case (Cons p ps)
  show ?case
  proof (cases "fp_start_date p \<le> d \<and> fp_end_date p \<ge> d")
    case True
    then have "filter (\<lambda>p. fp_start_date p \<le> d \<and> fp_end_date p \<ge> d) ps = []"
      using Cons.prems by (auto simp: filter_empty_conv disjoint_periods_def)
    then show ?thesis using True by simp
  next
    case False
    then show ?thesis using Cons by auto
  qed
qed simp

lemma update_period_wf:
  assumes "wf_periods ps" "\<And>p. same_span (f p) p"
  shows "wf_periods (update_period code f ps)"
proof -
  have "map fp_period_code (update_period code f ps) = map fp_period_code ps"
    using assms(2) by (simp add: update_period_def same_span_def)
  moreover have "sorted_wrt disjoint_periods (update_period code f ps) = sorted_wrt disjoint_periods ps"
  proof -
    have "disjoint_periods (if fp_period_code p = code then f p else p) (if fp_period_code q = code then f q else q)
        = disjoint_periods p q" for p q
      using assms(2) [of p] assms(2) [of q] by (simp add: disjoint_periods_def same_span_def)
    then show ?thesis by (simp add: update_period_def sorted_wrt_map)
  qed
  moreover have "list_all (\<lambda>p. fp_start_date p \<le> fp_end_date p) (update_period code f ps)"
    using assms by (auto simp: update_period_def wf_periods_def list_all_iff same_span_def)
  ultimately show ?thesis using assms(1) by (simp add: wf_periods_def)
qed

lemma insert_period_wf:
  assumes "wf_periods ps" "fp_start_date p \<le> fp_end_date p" "insert_period p ps = Inr ps'"
    "filter (\<lambda>q. fp_start_date q \<le> fp_end_date p \<and> fp_end_date q \<ge> fp_start_date p) ps = []"
  shows "wf_periods ps'"
proof -
  have "ps' = ps @ [p]" "distinct (map fp_period_code ps')"
    using by_code.ins_rows [OF assms(3)] by_code.ins_distinct [OF _ assms(3)] assms(1) by (auto simp: wf_periods_def)
  moreover have "\<forall>q \<in> set ps. disjoint_periods q p"
    using assms(4) by (auto simp: filter_empty_conv disjoint_periods_def)
  ultimately show ?thesis using assms(1,2) by (auto simp: wf_periods_def sorted_wrt_append)
qed

section \<open>Runs\<close>

inductive period_step :: "one_period \<Rightarrow> periods \<Rightarrow> periods \<Rightarrow> bool" for one where
  p_create: "create_period one i code name s e actor adj ps = Inr (p, ps') \<Longrightarrow> period_step one ps ps'"
| p_close: "close_period one now fires code actor ps = Inr (p, ps') \<Longrightarrow> period_step one ps ps'"
| p_begin: "begin_closing one code run ps = Inr (p, ps') \<Longrightarrow> period_step one ps ps'"
| p_cancel: "cancel_closing one code ps = Inr (p, ps') \<Longrightarrow> period_step one ps ps'"
| p_lock: "lock_period one code ps = Inr (p, ps') \<Longrightarrow> period_step one ps ps'"
| p_enable: "enable_adjustments one code ps = Inr (p, ps') \<Longrightarrow> period_step one ps ps'"
| p_disable: "disable_adjustments one code ps = Inr (p, ps') \<Longrightarrow> period_step one ps ps'"

text \<open>
  Every step creates a period or updates the one period of a code; an update keeps the dates, and
  on a closed period it only changes the status from CLOSED to LOCKED.
\<close>

definition frozen_update :: "fiscal_period \<Rightarrow> fiscal_period \<Rightarrow> bool" where
  "frozen_update p q \<longleftrightarrow> (if fp_is_closed p then q = p\<lparr>fp_status := LOCKED\<rparr> else same_span q p)"

lemma frozen_same_span: "frozen_update p q \<Longrightarrow> same_span q p"
  by (auto simp: frozen_update_def same_span_def split: if_splits)

locale period_queries = query_one one for one :: one_period
begin

lemma update_op:
  assumes "rbind (pp (one (filter (\<lambda>p. fp_period_code p = code) ps)))
      (\<lambda>r. case r of None \<Rightarrow> Inl e | Some p \<Rightarrow> G p) = Inr y"
  obtains p where "filter (\<lambda>p. fp_period_code p = code) ps = [p]" "G p = Inr y"
  using assms by (auto simp: result_iffs one_Inr_Some split: option.splits)

lemma step_cases:
  assumes "period_step one ps ps'"
  obtains (create) i code name s e actor adj p where "create_period one i code name s e actor adj ps = Inr (p, ps')"
  | (update) code p f where "filter (\<lambda>p. fp_period_code p = code) ps = [p]" "ps' = update_period code f ps"
      "frozen_update p (f p)" "\<And>q. same_span (f q) q"
  using assms
proof cases
  case (p_close now fires code actor p)
  from this [unfolded close_period_def get_period_for_update_def] show ?thesis
    by (elim update_op) (rule update [where f = "\<lambda>p. p\<lparr>fp_status := CLOSED, fp_closed_at := Some now, fp_closed_by_id := Some actor,
       fp_closing_run_id := None\<rparr>"],
      auto simp: Let_def frozen_update_def same_span_def fp_is_closed_def split: if_splits)
next
  case (p_begin code run p)
  from this [unfolded begin_closing_def get_period_for_update_def] show ?thesis
    by (elim update_op) (rule update [where f = "\<lambda>p. p\<lparr>fp_status := CLOSING, fp_closing_run_id := Some run\<rparr>"],
      auto simp: Let_def frozen_update_def same_span_def fp_is_closed_def split: if_splits)
next
  case (p_cancel code p)
  from this [unfolded cancel_closing_def get_period_for_update_def] show ?thesis
    by (elim update_op) (rule update [where f = "\<lambda>p. p\<lparr>fp_status := OPEN, fp_closing_run_id := None\<rparr>"],
      auto simp: Let_def frozen_update_def same_span_def fp_is_closed_def split: if_splits)
next
  case (p_lock code p)
  from this [unfolded lock_period_def get_period_for_update_def] show ?thesis
    by (elim update_op) (rule update [where f = "\<lambda>p. p\<lparr>fp_status := LOCKED\<rparr>"],
      auto simp: Let_def frozen_update_def same_span_def fp_is_closed_def split: if_splits)
next
  case (p_enable code p)
  from this [unfolded enable_adjustments_def set_adjustments_def get_period_orm_def] show ?thesis
    by (elim update_op) (rule update [where f = "\<lambda>p. p\<lparr>fp_allows_adjustments := True\<rparr>"],
      auto simp: Let_def frozen_update_def same_span_def fp_is_closed_def split: if_splits)
next
  case (p_disable code p)
  from this [unfolded disable_adjustments_def set_adjustments_def get_period_orm_def] show ?thesis
    by (elim update_op) (rule update [where f = "\<lambda>p. p\<lparr>fp_allows_adjustments := False\<rparr>"],
      auto simp: Let_def frozen_update_def same_span_def fp_is_closed_def split: if_splits)
qed (rule create)

end

section \<open>What clients rely on\<close>

text \<open>
  The contract of a calendar that the posting services use: a date that is closed stays closed
  and no posting is accepted for it.
\<close>

locale posting_calendar =
  fixes ok :: "'s \<Rightarrow> bool" and step :: "'s \<Rightarrow> 's \<Rightarrow> bool"
    and closed_on :: "'s \<Rightarrow> int \<Rightarrow> bool" and accepts :: "'s \<Rightarrow> int \<Rightarrow> bool"
  assumes ok_step: "ok s \<Longrightarrow> step s t \<Longrightarrow> ok t"
    and closed_step: "ok s \<Longrightarrow> step s t \<Longrightarrow> closed_on s d \<Longrightarrow> closed_on t d"
    and closed_rejects: "ok s \<Longrightarrow> closed_on s d \<Longrightarrow> \<not> accepts s d"
begin

lemma ok_steps: "step\<^sup>*\<^sup>* s t \<Longrightarrow> ok s \<Longrightarrow> ok t"
  by (induction rule: rtranclp_induct) (auto intro: ok_step)

lemma closed_forever: "step\<^sup>*\<^sup>* s t \<Longrightarrow> ok s \<Longrightarrow> closed_on s d \<Longrightarrow> closed_on t d"
  by (induction rule: rtranclp_induct) (auto intro: closed_step ok_steps)

lemma never_accepted: "step\<^sup>*\<^sup>* s t \<Longrightarrow> ok s \<Longrightarrow> closed_on s d \<Longrightarrow> \<not> accepts t d"
  using closed_forever closed_rejects ok_steps by blast

end

definition closed_on :: "periods \<Rightarrow> int \<Rightarrow> bool" where
  "closed_on ps d = list_ex (\<lambda>p. fp_contains_date d p \<and> fp_is_closed p) ps"

definition accepts_posting :: "one_period \<Rightarrow> periods \<Rightarrow> int \<Rightarrow> bool" where
  "accepts_posting one ps d \<longleftrightarrow> (\<exists>adj cl. validate_adjustment_allowed one d adj cl ps = Inr ())
     \<or> (\<exists>cl. validate_effective_date one d cl ps = Inr ())"

context period_queries
begin

lemma period_for_date:
  assumes "wf_periods ps"
  shows "get_period_for_date_orm one d ps = Inr (find (fp_contains_date d) ps)"
proof -
  let ?rows = "filter (\<lambda>p. fp_start_date p \<le> d \<and> fp_end_date p \<ge> d) ps"
  have "length ?rows \<le> 1" using assms date_rows by (simp add: wf_periods_def)
  then have "one ?rows = Inr (case ?rows of [] \<Rightarrow> None | p # _ \<Rightarrow> Some p)"
    by (cases ?rows; cases "tl ?rows") (simp_all add: one_empty one_single)
  moreover have "(case ?rows of [] \<Rightarrow> None | p # _ \<Rightarrow> Some p) = find (fp_contains_date d) ps"
    by (induction ps) (simp_all add: fp_contains_date_def)
  ultimately show ?thesis by (simp add: get_period_for_date_orm_def)
qed

lemma find_unique:
  assumes "wf_periods ps" "p \<in> set ps" "fp_contains_date d p"
  shows "find (fp_contains_date d) ps = Some p"
  using assms
proof (induction ps)
  case (Cons q ps)
  show ?case
  proof (cases "p = q")
    case False
    then have "\<not> fp_contains_date d q"
      using Cons.prems by (auto simp: wf_periods_def disjoint_periods_def fp_contains_date_def)
    then show ?thesis using Cons False by (simp add: wf_periods_def)
  qed (use Cons.prems in simp)
qed simp

lemma create_period_wf:
  assumes "wf_periods ps" "create_period one i code name s e actor adj ps = Inr (p, ps')"
  shows "wf_periods ps'" "ps' = ps @ [p]"
proof -
  have "insert_period p ps = Inr ps'" "fp_start_date p \<le> fp_end_date p"
    "filter (\<lambda>q. fp_start_date q \<le> fp_end_date p \<and> fp_end_date q \<ge> fp_start_date p) ps = []"
    using assms(2) by (auto simp: create_period_def validate_no_overlap_def result_iffs one_Inr_None Let_def
        split: if_splits option.splits)
  then show "wf_periods ps'" "ps' = ps @ [p]"
    using insert_period_wf [OF assms(1)] by_code.ins_rows by auto
qed

lemma step_wf:
  assumes "wf_periods ps" "period_step one ps ps'"
  shows "wf_periods ps'"
  using assms(2)
proof (cases rule: step_cases)
  case create
  then show ?thesis using create_period_wf(1) [OF assms(1)] by blast
next
  case (update code p f)
  then show ?thesis using update_period_wf [OF assms(1)] by simp
qed

lemma step_closed:
  assumes "wf_periods ps" "period_step one ps ps'" "p \<in> set ps" "fp_is_closed p"
  shows "p \<in> set ps' \<or> p\<lparr>fp_status := LOCKED\<rparr> \<in> set ps'"
  using assms(2)
proof (cases rule: step_cases)
  case (create i code name s e actor adj q)
  show ?thesis using create_period_wf(2) [OF assms(1) create] assms(3) by simp
next
  case (update code q f)
  have mem: "(if fp_period_code p = code then f p else p) \<in> set ps'"
    using assms(3) unfolding update(2) update_period_def set_map by (rule imageI)
  show ?thesis
  proof (cases "fp_period_code p = code")
    case True
    then have "p \<in> set (filter (\<lambda>p. fp_period_code p = code) ps)" using assms(3) by simp
    then have "p = q" using update(1) by simp
    then have "f p = p\<lparr>fp_status := LOCKED\<rparr>" using update(3) assms(4) by (simp add: frozen_update_def)
    then show ?thesis using mem True by simp
  next
    case False
    then show ?thesis using mem by simp
  qed
qed

end

sublocale period_queries \<subseteq> calendar: posting_calendar wf_periods "period_step one" closed_on "accepts_posting one"
proof
  fix s t d
  assume wf: "wf_periods s"
  show "period_step one s t \<Longrightarrow> wf_periods t" by (rule step_wf [OF wf])
  show "closed_on t d" if st: "period_step one s t" and cl: "closed_on s d"
  proof -
    obtain p where p: "p \<in> set s" "fp_contains_date d p" "fp_is_closed p"
      using cl by (auto simp: closed_on_def list_ex_iff)
    have "fp_contains_date d (p\<lparr>fp_status := LOCKED\<rparr>)" "fp_is_closed (p\<lparr>fp_status := LOCKED\<rparr>)"
      using p(2) by (simp_all add: fp_contains_date_def fp_is_closed_def)
    then show ?thesis using step_closed [OF wf st p(1,3)] p(2,3) unfolding closed_on_def list_ex_iff by blast
  qed
  assume "closed_on s d"
  then obtain p where p: "p \<in> set s" "fp_contains_date d p" "fp_is_closed p" by (auto simp: closed_on_def list_ex_iff)
  then show "\<not> accepts_posting one s d"
    using find_unique [OF wf p(1,2)] period_for_date [OF wf]
    by (simp add: accepts_posting_def validate_adjustment_allowed_def validate_effective_date_def)
qed

context period_queries
begin

lemma reachable_wf: "(period_step one)\<^sup>*\<^sup>* [] ps \<Longrightarrow> wf_periods ps"
  by (erule calendar.ok_steps) (simp add: wf_periods_def)

lemma steps_never_accept:
  "(period_step one)\<^sup>*\<^sup>* ps ps' \<Longrightarrow> wf_periods ps \<Longrightarrow> closed_on ps d \<Longrightarrow> \<not> accepts_posting one ps' d"
  by (rule calendar.never_accepted)

end

interpretation pq: period_queries scalar_one_or_none
  by unfold_locales

section \<open>Properties\<close>

lemma period_queriesI: "query_one one \<Longrightarrow> period_queries one"
  by (simp add: period_queries_def)

text \<open>
  Property C12. Periods never overlap (R12): in every table the service can produce, codes are
  unique, each period starts no later than it ends and any two periods are disjoint, so that the
  query for a date never raises and returns the one period that contains the date, if any.
\<close>

theorem periods_disjoint:
  assumes "query_one one" "(period_step one)\<^sup>*\<^sup>* [] ps"
  shows "distinct (map fp_period_code ps) \<and> sorted_wrt disjoint_periods ps
    \<and> (\<forall>p \<in> set ps. fp_start_date p \<le> fp_end_date p
         \<and> (\<forall>d. fp_start_date p \<le> d \<and> d \<le> fp_end_date p \<longrightarrow> get_period_for_date one d ps = Inr (Some p)))
    \<and> (\<forall>d. (\<forall>p \<in> set ps. \<not> fp_contains_date d p) \<longrightarrow> get_period_for_date one d ps = Inr None)"
proof -
  note pq = period_queriesI [OF assms(1)]
  note wf = period_queries.reachable_wf [OF pq assms(2)]
  have "get_period_for_date one d ps = Inr (Some p)"
    if "p \<in> set ps" "fp_start_date p \<le> d \<and> d \<le> fp_end_date p" for p d
    using period_queries.period_for_date [OF pq wf] period_queries.find_unique [OF pq wf that(1)] that(2)
    by (simp add: get_period_for_date_def fp_contains_date_def)
  moreover have "get_period_for_date one d ps = Inr None" if "\<forall>p \<in> set ps. \<not> fp_contains_date d p" for d
  proof -
    have "find (fp_contains_date d) ps = None" using that by (simp add: find_None_iff)
    then show ?thesis using period_queries.period_for_date [OF pq wf] by (simp add: get_period_for_date_def)
  qed
  ultimately show ?thesis using wf by (auto simp: wf_periods_def list_all_iff)
qed

definition january :: fiscal_period where
  "january = \<lparr>fp_id = 1, fp_period_code = ''2024-01'', fp_name = ''January'', fp_start_date = 1, fp_end_date = 31,
     fp_status = OPEN, fp_closing_run_id = None, fp_closed_at = None, fp_closed_by_id = None,
     fp_allows_adjustments = False, fp_created_by_id = 9\<rparr>"

definition closed_january :: fiscal_period where
  "closed_january = january\<lparr>fp_status := CLOSED, fp_closed_at := Some 40, fp_closed_by_id := Some 9\<rparr>"

lemma january_steps:
  "(period_step scalar_one_or_none)\<^sup>*\<^sup>* [] [january]" "(period_step scalar_one_or_none)\<^sup>*\<^sup>* [january] [closed_january]"
proof -
  have "create_period scalar_one_or_none 1 ''2024-01'' ''January'' 1 31 9 False [] = Inr (january, [january])"
    by (simp add: create_period_def validate_no_overlap_def insert_period_def january_def Let_def)
  then show "(period_step scalar_one_or_none)\<^sup>*\<^sup>* [] [january]" by (intro r_into_rtranclp p_create)
  have "close_period scalar_one_or_none 40 False ''2024-01'' 9 [january] = Inr (closed_january, [closed_january])"
    by (simp add: close_period_def get_period_for_update_def update_period_def fp_is_closed_def closed_january_def
        january_def)
  then show "(period_step scalar_one_or_none)\<^sup>*\<^sup>* [january] [closed_january]" by (intro r_into_rtranclp p_close)
qed

theorem periods_disjoint_witness:
  "get_period_for_date scalar_one_or_none 15 [january] = Inr (Some january)
   \<and> get_period_for_date scalar_one_or_none 32 [january] = Inr None"
  using periods_disjoint [OF soon.query_one_axioms january_steps(1)]
  by (simp add: january_def fp_contains_date_def)

text \<open>
  Property C11. A closed period stays closed and rejects postings (R12, R13): once a reachable
  table has a CLOSED or LOCKED period for a date, no later sequence of operations makes the service
  accept any posting on that date, adjustments and close postings included.
\<close>

theorem closed_period_forever:
  assumes "query_one one" "(period_step one)\<^sup>*\<^sup>* [] ps" "p \<in> set ps" "fp_is_closed p" "fp_contains_date d p"
    and "(period_step one)\<^sup>*\<^sup>* ps ps'"
  shows "validate_adjustment_allowed one d adj cl ps' \<noteq> Inr () \<and> validate_effective_date one d cl ps' \<noteq> Inr ()
    \<and> (\<exists>p' \<in> set ps'. fp_period_code p' = fp_period_code p \<and> fp_is_closed p' \<and> fp_contains_date d p')"
proof -
  note pq = period_queriesI [OF assms(1)]
  note wf = period_queries.reachable_wf [OF pq assms(2)]
  have "closed_on ps d" using assms(3-5) by (auto simp: closed_on_def list_ex_iff)
  then have "\<not> accepts_posting one ps' d" using period_queries.steps_never_accept [OF pq assms(6) wf] by blast
  moreover have "wf_periods ps' \<and> (\<exists>p' \<in> set ps'. fp_period_code p' = fp_period_code p \<and> fp_is_closed p' \<and> fp_contains_date d p')"
    using assms(6)
  proof (induction rule: rtranclp_induct)
    case base
    then show ?case using assms(3-5) wf by blast
  next
    case (step t u)
    then obtain q where q: "q \<in> set t" "fp_period_code q = fp_period_code p" "fp_is_closed q" "fp_contains_date d q" by blast
    have "q \<in> set u \<or> q\<lparr>fp_status := LOCKED\<rparr> \<in> set u"
      using period_queries.step_closed [OF pq _ step(2) q(1,3)] step.IH by blast
    moreover have "fp_period_code (q\<lparr>fp_status := LOCKED\<rparr>) = fp_period_code p" "fp_is_closed (q\<lparr>fp_status := LOCKED\<rparr>)"
      "fp_contains_date d (q\<lparr>fp_status := LOCKED\<rparr>)"
      using q(2,4) by (simp_all add: fp_is_closed_def fp_contains_date_def)
    moreover have "wf_periods u" using period_queries.step_wf [OF pq _ step(2)] step.IH by blast
    ultimately show ?case using q(2-4) by blast
  qed
  ultimately show ?thesis by (auto simp: accepts_posting_def)
qed

theorem closed_period_forever_witness:
  "validate_adjustment_allowed scalar_one_or_none 15 False True [closed_january] \<noteq> Inr ()"
  by (rule closed_period_forever [OF soon.query_one_axioms _ _ _ _ rtranclp.rtrancl_refl, THEN conjunct1,
        of "[closed_january]" closed_january])
    (use rtranclp_trans [OF january_steps] in \<open>simp_all add: closed_january_def january_def fp_is_closed_def fp_contains_date_def\<close>)

text \<open>
  What the date check accepts (R12, R13, R25): in a reachable table a posting is
  accepted exactly when some period contains its date, that period is OPEN, or CLOSING for a close
  posting, and it allows adjustments if the posting is one.
\<close>

theorem adjustment_allowed_iff:
  assumes "query_one one" "(period_step one)\<^sup>*\<^sup>* [] ps"
  shows "validate_adjustment_allowed one d adj cl ps = Inr () \<longleftrightarrow>
    (\<exists>p \<in> set ps. fp_contains_date d p \<and> (fp_status p = OPEN \<or> fp_status p = CLOSING \<and> cl)
       \<and> (adj \<longrightarrow> fp_allows_adjustments p))"
proof -
  note pq = period_queriesI [OF assms(1)]
  note wf = period_queries.reachable_wf [OF pq assms(2)]
  show ?thesis
  proof (cases "find (fp_contains_date d) ps")
    case None
    then have "\<forall>p \<in> set ps. \<not> fp_contains_date d p" by (simp add: find_None_iff)
    then show ?thesis using None period_queries.period_for_date [OF pq wf]
      by (auto simp: validate_adjustment_allowed_def)
  next
    case (Some p)
    then have p: "p \<in> set ps" "fp_contains_date d p" by (auto simp: find_Some_iff)
    have "q = p" if "q \<in> set ps" "fp_contains_date d q" for q
      using period_queries.find_unique [OF pq wf that] Some by simp
    moreover have "validate_adjustment_allowed one d adj cl ps = Inr () \<longleftrightarrow>
        (fp_status p = OPEN \<or> fp_status p = CLOSING \<and> cl) \<and> (adj \<longrightarrow> fp_allows_adjustments p)"
      using Some period_queries.period_for_date [OF pq wf]
      by (cases "fp_status p") (auto simp: validate_adjustment_allowed_def fp_is_closed_def)
    ultimately show ?thesis using p by blast
  qed
qed

theorem adjustment_allowed_iff_witness:
  "validate_adjustment_allowed scalar_one_or_none 15 False False [january] = Inr ()"
  using adjustment_allowed_iff [OF soon.query_one_axioms january_steps(1), of 15 False False]
  by (simp add: january_def fp_contains_date_def)

text \<open>
  An overlap with several periods is not reported as an overlap: when the dates of
  a new period meet two or more existing periods, \<open>create_period\<close> raises SQLAlchemy's
  MultipleResultsFound instead of PeriodOverlapError; with exactly one it raises PeriodOverlapError
  with the dates in common.
\<close>

theorem create_period_overlap:
  fixes ps :: periods
  assumes "query_one one" "s \<le> e"
  defines "rows \<equiv> filter (\<lambda>p. fp_start_date p \<le> e \<and> fp_end_date p \<ge> s) ps"
  shows "(2 \<le> length rows \<longrightarrow> create_period one i code name s e actor adj ps = Inl (PeriodPy MultipleResultsFound))
    \<and> (\<forall>p. rows = [p] \<longrightarrow> create_period one i code name s e actor adj ps =
         Inl (PeriodOverlapError code (fp_period_code p) (max s (fp_start_date p)) (min e (fp_end_date p))))"
proof (intro conjI impI allI)
  assume "2 \<le> length rows"
  then have "one rows = Inl MultipleResultsFound" using query_one.one_Inl [OF assms(1)] by blast
  then show "create_period one i code name s e actor adj ps = Inl (PeriodPy MultipleResultsFound)"
    using assms(2) by (simp add: create_period_def validate_no_overlap_def rows_def)
next
  fix p
  assume "rows = [p]"
  then have "one rows = Inr (Some p)" using query_one.one_single [OF assms(1)] by simp
  then show "create_period one i code name s e actor adj ps =
      Inl (PeriodOverlapError code (fp_period_code p) (max s (fp_start_date p)) (min e (fp_end_date p)))"
    using assms(2) by (simp add: create_period_def validate_no_overlap_def rows_def)
qed

theorem create_period_overlap_witness:
  "create_period scalar_one_or_none 5 ''Q1'' ''Q1'' 1 90 9 False
     [january, january\<lparr>fp_period_code := ''2024-02'', fp_start_date := 32, fp_end_date := 60\<rparr>] =
     Inl (PeriodPy MultipleResultsFound)"
  using create_period_overlap [OF soon.query_one_axioms, of 1 90
      "[january, january\<lparr>fp_period_code := ''2024-02'', fp_start_date := 32, fp_end_date := 60\<rparr>]" 5 "''Q1''" "''Q1''" 9 False]
  by (simp add: january_def)

end
