(* ===== verification/Decimal.thy ===== *)
theory Decimal
  imports Prelude "HOL-Library.Log_Nat"
begin

text \<open>
  Python's \<open>decimal.Decimal\<close> as the kernel uses it, under the default context: precision
  28, \<open>ROUND_HALF_EVEN\<close>. A finite decimal is represented by its value, a rational: equality,
  ordering and hashing of decimals are by value, and the kernel never looks at an exponent.
  Every arithmetic operation computes the exact result and rounds it to 28 significant digits
  (\<open>dfix\<close>); \<open>quantize\<close> rounds to a number of places and raises when the coefficient does
  not fit the precision. NaN, the infinities and the exponent limits of the context (six digits)
  are outside the model.

  The second half says when the rounding is invisible: values that are whole multiples of
  \<open>10 ^ -k\<close> and whose totals stay below \<open>10 ^ (28 - k)\<close> are added exactly.
\<close>

type_synonym decimal = rat

section \<open>Rounding modes\<close>

datatype rounding =
    ROUND_HALF_UP | ROUND_HALF_EVEN | ROUND_HALF_DOWN
  | ROUND_UP | ROUND_DOWN | ROUND_CEILING | ROUND_FLOOR | ROUND_05UP

definition toward_zero :: "rat \<Rightarrow> int" where
  "toward_zero x = (if 0 \<le> x then \<lfloor>x\<rfloor> else \<lceil>x\<rceil>)"

definition away_from_zero :: "rat \<Rightarrow> int" where
  "away_from_zero x = (if 0 \<le> x then \<lceil>x\<rceil> else \<lfloor>x\<rfloor>)"

definition nearest :: "rat \<Rightarrow> int \<Rightarrow> int" where
  "nearest x tie =
     (let r = x - of_int \<lfloor>x\<rfloor>
      in if r < 1/2 then \<lfloor>x\<rfloor> else if 1/2 < r then \<lfloor>x\<rfloor> + 1 else tie)"

fun round_int :: "rounding \<Rightarrow> rat \<Rightarrow> int" where
  "round_int ROUND_HALF_UP x = nearest x (away_from_zero x)"
| "round_int ROUND_HALF_DOWN x = nearest x (toward_zero x)"
| "round_int ROUND_HALF_EVEN x = nearest x (if even \<lfloor>x\<rfloor> then \<lfloor>x\<rfloor> else \<lfloor>x\<rfloor> + 1)"
| "round_int ROUND_UP x = away_from_zero x"
| "round_int ROUND_DOWN x = toward_zero x"
| "round_int ROUND_CEILING x = \<lceil>x\<rceil>"
| "round_int ROUND_FLOOR x = \<lfloor>x\<rfloor>"
| "round_int ROUND_05UP x =
     (if \<bar>toward_zero x\<bar> mod 5 = 0 then away_from_zero x else toward_zero x)"

lemma scaled_err: "\<bar>(y :: rat) / 10 ^ k - x\<bar> = \<bar>y - x * 10 ^ k\<bar> / 10 ^ k"
proof -
  have "y / 10 ^ k - x = (y - x * 10 ^ k) / 10 ^ k"
    by (simp add: diff_divide_distrib)
  then show ?thesis by (simp only: abs_divide power_abs abs_numeral)
qed

text \<open>What every mode promises, and what the three modes that round to nearest promise.\<close>

locale rounding_mode =
  fixes r :: "rat \<Rightarrow> int"
  assumes r_int: "r (of_int n) = n"
    and r_err: "\<bar>of_int (r x) - x\<bar> < 1"
begin

lemma r_nonneg: "0 \<le> x \<Longrightarrow> 0 \<le> r x"
  using r_err [of x] by linarith

lemma r_nonpos: "x \<le> 0 \<Longrightarrow> r x \<le> 0"
  using r_err [of x] by linarith

lemma r_scaled_idem: "r (of_int (r x)) = r x"
  by (rule r_int)

lemma r_grid_err:
  fixes k :: nat
  shows "\<bar>of_int (r (x * 10 ^ k)) / 10 ^ k - x\<bar> < 1 / 10 ^ k"
  unfolding scaled_err by (rule divide_strict_right_mono [OF r_err]) simp

end

locale nearest_rounding = rounding_mode +
  assumes r_half: "\<bar>of_int (r x) - x\<bar> \<le> 1/2"
begin

lemma r_grid_half:
  fixes k :: nat
  shows "\<bar>of_int (r (x * 10 ^ k)) / 10 ^ k - x\<bar> \<le> 1 / (2 * 10 ^ k)"
proof -
  have "\<bar>of_int (r (x * 10 ^ k)) - x * 10 ^ k\<bar> / 10 ^ k \<le> (1/2) / 10 ^ k"
    by (rule divide_right_mono [OF r_half]) simp
  then show ?thesis by (simp add: scaled_err)
qed

end

lemma toward_zero_err: "\<bar>of_int (toward_zero x) - x\<bar> < 1"
  unfolding toward_zero_def by (cases "0 \<le> x") (simp_all, linarith+)

lemma away_from_zero_err: "\<bar>of_int (away_from_zero x) - x\<bar> < 1"
  unfolding away_from_zero_def by (cases "0 \<le> x") (simp_all, linarith+)

lemma nearest_half:
  assumes "tie = \<lfloor>x\<rfloor> \<or> tie = \<lfloor>x\<rfloor> + 1"
  shows "\<bar>of_int (nearest x tie) - x\<bar> \<le> 1/2"
proof -
  have "0 \<le> x - of_int \<lfloor>x\<rfloor>" "x - of_int \<lfloor>x\<rfloor> < 1" by linarith+
  then show ?thesis using assms by (auto simp: nearest_def Let_def)
qed

lemma nearest_of_int [simp]: "nearest (of_int n) tie = n"
  by (simp add: nearest_def)

lemma directed_choices:
  "toward_zero x = \<lfloor>x\<rfloor> \<or> toward_zero x = \<lceil>x\<rceil>" "away_from_zero x = \<lfloor>x\<rfloor> \<or> away_from_zero x = \<lceil>x\<rceil>"
  by (auto simp: toward_zero_def away_from_zero_def)

lemma nearest_directed_half:
  assumes "t = \<lfloor>x\<rfloor> \<or> t = \<lceil>x\<rceil>"
  shows "\<bar>of_int (nearest x t) - x\<bar> \<le> 1/2"
proof (cases "x \<in> \<int>")
  case True
  then show ?thesis by (auto elim: Ints_cases)
next
  case False
  then have "x \<noteq> of_int \<lfloor>x\<rfloor>" by (metis Ints_of_int)
  then have "\<lceil>x\<rceil> = \<lfloor>x\<rfloor> + 1" by (simp add: ceiling_altdef)
  then show ?thesis using assms nearest_half by blast
qed

lemma round_half_err:
  "\<bar>of_int (round_int ROUND_HALF_UP x) - x\<bar> \<le> 1/2"
  "\<bar>of_int (round_int ROUND_HALF_DOWN x) - x\<bar> \<le> 1/2"
  "\<bar>of_int (round_int ROUND_HALF_EVEN x) - x\<bar> \<le> 1/2"
  using nearest_directed_half [OF directed_choices(2)] nearest_directed_half [OF directed_choices(1)]
    nearest_half [of "if even \<lfloor>x\<rfloor> then \<lfloor>x\<rfloor> else \<lfloor>x\<rfloor> + 1" x]
  by simp_all

lemma round_int_of_int: "round_int m (of_int n) = n"
  by (cases m) (simp_all add: toward_zero_def away_from_zero_def)

lemma round_half_even_uminus:
  "round_int ROUND_HALF_EVEN (- y) = - round_int ROUND_HALF_EVEN y"
proof (cases "y \<in> \<int>")
  case True
  then obtain n where "y = of_int n" by (auto elim: Ints_cases)
  then show ?thesis using nearest_of_int [of "- n"] by simp
next
  case False
  then have "y \<noteq> of_int \<lfloor>y\<rfloor>" by (metis Ints_of_int)
  then have "\<lfloor>- y\<rfloor> = - \<lfloor>y\<rfloor> - 1" by (simp add: floor_minus ceiling_altdef)
  then show ?thesis by (auto simp: nearest_def Let_def)
qed

lemma round_int_err: "\<bar>of_int (round_int m x) - x\<bar> < 1"
proof (cases m)
  case ROUND_HALF_UP
  then show ?thesis using order_le_less_trans [OF round_half_err(1) [of x]] by simp
next
  case ROUND_HALF_DOWN
  then show ?thesis using order_le_less_trans [OF round_half_err(2) [of x]] by simp
next
  case ROUND_HALF_EVEN
  then show ?thesis using order_le_less_trans [OF round_half_err(3) [of x]] by simp
next
  case ROUND_CEILING
  then show ?thesis by simp linarith
next
  case ROUND_FLOOR
  then show ?thesis by simp linarith
qed (simp_all add: toward_zero_err away_from_zero_err)

interpretation any_mode: rounding_mode "round_int m" for m
  by unfold_locales (rule round_int_of_int, rule round_int_err)

interpretation half_up: nearest_rounding "round_int ROUND_HALF_UP"
  by unfold_locales (rule round_half_err)

interpretation half_even: nearest_rounding "round_int ROUND_HALF_EVEN"
  by unfold_locales (rule round_half_err)

declare round_int.simps [simp del]

section \<open>Context arithmetic\<close>

definition prec :: nat where
  "prec = 28"

text \<open>\<open>Decimal.adjusted\<close>: the exponent of the leading digit.\<close>

definition adjusted :: "rat \<Rightarrow> int" where
  "adjusted x =
     (case quotient_of \<bar>x\<bar> of (p, q) \<Rightarrow>
        let d = int (floorlog 10 (nat p)) - int (floorlog 10 (nat q))
        in if 10 powi d \<le> \<bar>x\<bar> then d else d - 1)"

text \<open>\<open>Decimal._fix\<close>: round a result to the precision of the context.\<close>

definition dfix :: "rat \<Rightarrow> decimal" where
  "dfix x =
     (if x = 0 then 0
      else let e = adjusted x - 27
           in of_int (round_int ROUND_HALF_EVEN (x * 10 powi (- e))) * 10 powi e)"

definition dadd :: "decimal \<Rightarrow> decimal \<Rightarrow> decimal" where
  "dadd a b = dfix (a + b)"

definition dsub :: "decimal \<Rightarrow> decimal \<Rightarrow> decimal" where
  "dsub a b = dfix (a - b)"

definition dmul :: "decimal \<Rightarrow> decimal \<Rightarrow> decimal" where
  "dmul a b = dfix (a * b)"

definition dneg :: "decimal \<Rightarrow> decimal" where
  "dneg a = dfix (- a)"

definition dabs :: "decimal \<Rightarrow> decimal" where
  "dabs a = dfix \<bar>a\<bar>"

definition ddiv :: "decimal \<Rightarrow> decimal \<Rightarrow> py_exc + decimal" where
  "ddiv a b =
     (if b = 0 then Inl (if a = 0 then InvalidOperation else DivisionByZero) else Inr (dfix (a / b)))"

definition dsum :: "decimal list \<Rightarrow> decimal" where
  "dsum xs = foldl dadd 0 xs"

text \<open>\<open>x.quantize(Decimal(10) ** -k, rounding=m)\<close>.\<close>

definition dquantize :: "rounding \<Rightarrow> nat \<Rightarrow> decimal \<Rightarrow> py_exc + decimal" where
  "dquantize m k x =
     (let q = round_int m (x * 10 ^ k)
      in if \<bar>q\<bar> < 10 ^ prec then Inr (of_int q / 10 ^ k) else Inl InvalidOperation)"

lemma floorlog10_bounds:
  assumes "0 < n"
  shows "(10 :: rat) powi (int (floorlog 10 n) - 1) \<le> of_nat n" "(of_nat n :: rat) < 10 powi int (floorlog 10 n)"
proof -
  have b: "10 ^ (floorlog 10 n - 1) \<le> n \<and> n < 10 ^ floorlog 10 n"
    using assms floorlog_bounds [of n 10] by simp
  have "0 < floorlog 10 n" using assms by (simp add: floorlog_def)
  then have "(10 :: rat) powi (int (floorlog 10 n) - 1) = of_nat (10 ^ (floorlog 10 n - 1))"
    by (simp add: power_int_def nat_diff_distrib)
  also have "\<dots> \<le> of_nat n" using b by (simp only: of_nat_le_iff)
  finally show "(10 :: rat) powi (int (floorlog 10 n) - 1) \<le> of_nat n" .
  have "(of_nat n :: rat) < of_nat (10 ^ floorlog 10 n)" using b by (simp only: of_nat_less_iff)
  then show "(of_nat n :: rat) < 10 powi int (floorlog 10 n)" by simp
qed

lemma adjusted_bounds:
  assumes "x \<noteq> 0"
  shows "10 powi adjusted x \<le> \<bar>x\<bar>" "\<bar>x\<bar> < 10 powi (adjusted x + 1)"
proof -
  obtain p q where pq: "quotient_of \<bar>x\<bar> = (p, q)" by force
  have q0: "0 < q" using quotient_of_denom_pos [OF pq] .
  have x: "\<bar>x\<bar> = of_int p / of_int q" using quotient_of_div [OF pq] .
  then have "0 < p" using assms q0 by (metis abs_eq_0 abs_ge_zero divide_eq_0_iff less_le of_int_0
        of_int_0_le_iff of_int_pos zero_le_divide_iff not_less order_less_asym)
  define dp where "dp = int (floorlog 10 (nat p))"
  define dq where "dq = int (floorlog 10 (nat q))"
  have P: "10 powi (dp - 1) \<le> (of_int p :: rat)" "of_int p < (10 :: rat) powi dp"
    using floorlog10_bounds [of "nat p"] \<open>0 < p\<close> by (simp_all add: dp_def)
  have Q: "10 powi (dq - 1) \<le> (of_int q :: rat)" "of_int q < (10 :: rat) powi dq"
    using floorlog10_bounds [of "nat q"] q0 by (simp_all add: dq_def)
  have lo: "(10 :: rat) powi (dp - dq - 1) \<le> \<bar>x\<bar>"
  proof -
    have "(10 :: rat) powi (dp - dq - 1) = 10 powi (dp - 1) / 10 powi dq"
      by (simp add: power_int_diff)
    also have "\<dots> \<le> of_int p / of_int q"
      using P Q q0 \<open>0 < p\<close> by (intro frac_le) auto
    finally show ?thesis using x by simp
  qed
  have hi: "\<bar>x\<bar> < (10 :: rat) powi (dp - dq + 1)"
  proof -
    have "\<bar>x\<bar> < 10 powi dp / 10 powi (dq - 1)"
      unfolding x using P Q q0 \<open>0 < p\<close> by (intro frac_less) auto
    also have "\<dots> = (10 :: rat) powi (dp - dq + 1)"
      by (simp add: power_int_diff power_int_add)
    finally show ?thesis .
  qed
  have a: "adjusted x = (if 10 powi (dp - dq) \<le> \<bar>x\<bar> then dp - dq else dp - dq - 1)"
    by (simp add: adjusted_def pq dp_def dq_def Let_def)
  show "10 powi adjusted x \<le> \<bar>x\<bar>" using lo by (simp add: a)
  show "\<bar>x\<bar> < 10 powi (adjusted x + 1)" using hi by (simp add: a)
qed

lemma powi10_less_iff: "(10 :: rat) powi a < 10 powi b \<longleftrightarrow> a < b"
proof
  assume "(10 :: rat) powi a < 10 powi b"
  then show "a < b" using power_int_increasing [of b a "10 :: rat"] by fastforce
qed (simp add: power_int_strict_increasing)

lemma powi10_pos [simp]: "0 < (10 :: rat) powi a"
  by (rule zero_less_power_int) simp

lemma powi10_not_neg [simp]: "\<not> (10 :: rat) powi a < 0"
  by (simp add: not_less less_imp_le)

lemma powi10_cancel [simp]:
  "(x :: rat) * 10 powi (- e) * 10 powi e = x" "(x :: rat) * 10 powi e * 10 powi (- e) = x"
  by (simp_all add: power_int_minus field_simps)

lemma dfix_0 [simp]: "dfix 0 = 0"
  by (simp add: dfix_def)

text \<open>A value with at most 28 digits is not changed.\<close>

lemma dfix_exact:
  assumes x: "x = of_int c * 10 powi k" and c: "\<bar>c\<bar> < 10 ^ 28"
  shows "dfix x = x"
proof (cases "x = 0")
  case False
  define e where "e = adjusted x - 27"
  have "(10 :: rat) powi (e + 27) \<le> \<bar>x\<bar>"
    using adjusted_bounds(1) [OF False] by (simp add: e_def)
  also have "\<bar>x\<bar> = of_int \<bar>c\<bar> * 10 powi k"
    by (simp add: x abs_mult)
  also have "\<dots> < of_int (10 ^ 28) * 10 powi k"
    using c by (intro mult_strict_right_mono) (simp_all only: of_int_less_iff powi10_pos)
  also have "\<dots> = 10 powi (28 + k)"
    by (simp add: power_int_add)
  finally have "e \<le> k" by (simp only: powi10_less_iff)
  then have "x * 10 powi (- e) = of_int (c * 10 ^ nat (k - e))"
    using power_int_diff [of "10 :: rat" k e]
    by (simp add: x power_int_minus divide_inverse power_int_def [of _ "k - e"])
  then have "round_int ROUND_HALF_EVEN (x * 10 powi (- e)) = c * 10 ^ nat (k - e)"
    by (simp only: round_int_of_int)
  then have "dfix x = of_int (c * 10 ^ nat (k - e)) * 10 powi e"
    using False by (simp add: dfix_def e_def Let_def)
  also have "\<dots> = x"
    by (metis \<open>x * 10 powi (- e) = of_int (c * 10 ^ nat (k - e))\<close> powi10_cancel(1))
  finally show ?thesis .
qed simp

lemma dfix_shape:
  assumes "x \<noteq> 0"
  obtains c e where "dfix x = of_int c * 10 powi e" "10 ^ 27 \<le> \<bar>c\<bar>" "\<bar>c\<bar> \<le> 10 ^ 28"
    "0 < x \<longleftrightarrow> 0 < c" "\<bar>of_int c * 10 powi e - x\<bar> \<le> 10 powi e / 2" "10 powi (e + 27) \<le> \<bar>x\<bar>"
proof -
  define e where "e = adjusted x - 27"
  define m where "m = x * 10 powi (- e)"
  define c where "c = round_int ROUND_HALF_EVEN m"
  have xm: "x = m * 10 powi e" by (simp add: m_def)
  have "(10 :: rat) powi (e + 27) \<le> \<bar>x\<bar>" "\<bar>x\<bar> < 10 powi (e + 28)"
    using adjusted_bounds [OF assms] by (simp_all add: e_def add.commute)
  moreover have "\<bar>x\<bar> = \<bar>m\<bar> * 10 powi e" by (simp add: xm abs_mult)
  ultimately have m: "10 ^ 27 \<le> \<bar>m\<bar>" "\<bar>m\<bar> < 10 ^ 28" and lo: "(10 :: rat) powi (e + 27) \<le> \<bar>x\<bar>"
    by (simp_all add: power_int_add)
  have err: "\<bar>of_int c - m\<bar> \<le> 1/2" unfolding c_def by (rule half_even.r_half)
  have c: "10 ^ 27 \<le> \<bar>c\<bar>" "\<bar>c\<bar> \<le> 10 ^ 28" "0 < x \<longleftrightarrow> 0 < c"
  proof -
    have tri: "\<bar>m\<bar> - of_int \<bar>c\<bar> \<le> 1/2" "of_int \<bar>c\<bar> - \<bar>m\<bar> \<le> 1/2"
      using err abs_triangle_ineq2 [of m "of_int c"] abs_triangle_ineq2 [of "of_int c" m]
      by (simp_all add: abs_minus_commute)
    have "(of_int (10 ^ 27) :: rat) - 1/2 \<le> of_int \<bar>c\<bar>" using tri m(1) by simp
    then show "10 ^ 27 \<le> \<bar>c\<bar>" by linarith
    have "(of_int \<bar>c\<bar> :: rat) < of_int (10 ^ 28) + 1" using tri m(2) by simp
    then show "\<bar>c\<bar> \<le> 10 ^ 28" by linarith
    have "0 < x \<longleftrightarrow> 0 < m" by (simp add: xm zero_less_mult_iff)
    also have "\<dots> \<longleftrightarrow> 0 < (of_int c :: rat)"
      using err order_trans [OF _ m(1), of 1] by (simp add: abs_if split: if_splits)
    finally show "0 < x \<longleftrightarrow> 0 < c" by simp
  qed
  have "\<bar>of_int c * 10 powi e - x\<bar> = \<bar>of_int c - m\<bar> * 10 powi e"
    by (simp add: xm abs_mult flip: left_diff_distrib)
  also have "\<dots> \<le> (1/2) * 10 powi e"
    by (rule mult_right_mono [OF err]) (simp add: less_imp_le)
  finally have "\<bar>of_int c * 10 powi e - x\<bar> \<le> 10 powi e / 2" by simp
  moreover have "dfix x = of_int c * 10 powi e"
    using assms by (simp add: dfix_def c_def m_def e_def Let_def)
  ultimately show ?thesis using that c lo by blast
qed

lemma dfix_0_iff [simp]: "dfix x = 0 \<longleftrightarrow> x = 0"
proof (cases "x = 0")
  case False
  then show ?thesis by (rule dfix_shape [of x]) auto
qed simp

lemma dfix_pos_iff [simp]: "0 < dfix x \<longleftrightarrow> 0 < x"
proof (cases "x = 0")
  case False
  then obtain c e where "dfix x = of_int c * 10 powi e" "0 < x \<longleftrightarrow> 0 < c"
    by (rule dfix_shape) blast
  then show ?thesis by (simp add: zero_less_mult_iff)
qed simp

lemma dfix_nonneg_iff [simp]: "0 \<le> dfix x \<longleftrightarrow> 0 \<le> x"
  using dfix_pos_iff [of x] dfix_0_iff [of x] by linarith

lemma dfix_neg_iff [simp]: "dfix x < 0 \<longleftrightarrow> x < 0"
  using dfix_nonneg_iff [of x] by linarith

lemma dfix_idem [simp]: "dfix (dfix x) = dfix x"
proof (cases "x = 0")
  case False
  then obtain c e where d: "dfix x = of_int c * 10 powi e" and c: "\<bar>c\<bar> \<le> 10 ^ 28"
    by (rule dfix_shape) blast
  show ?thesis
  proof (cases "\<bar>c\<bar> = 10 ^ 28")
    case True
    then have "c = sgn c * 10 ^ 27 * 10" using abs_mult_sgn [of c] by (simp add: mult.commute)
    then have "dfix x = of_int (sgn c * 10 ^ 27) * 10 powi (e + 1)"
      using d by (subst (asm) \<open>c = sgn c * 10 ^ 27 * 10\<close>) (simp add: power_int_add)
    then show ?thesis by (rule dfix_exact) (simp add: abs_mult sgn_if)
  next
    case False
    with c have "\<bar>c\<bar> < 10 ^ 28" by simp
    with d show ?thesis by (rule dfix_exact)
  qed
qed simp

text \<open>The relative error of one operation is at most half a unit in the 28th digit.\<close>

lemma dfix_rel_err: "\<bar>dfix x - x\<bar> \<le> \<bar>x\<bar> / (2 * 10 ^ 27)"
proof (cases "x = 0")
  case False
  then obtain c e where d: "dfix x = of_int c * 10 powi e"
    and err: "\<bar>of_int c * 10 powi e - x\<bar> \<le> 10 powi e / 2" and lo: "10 powi (e + 27) \<le> \<bar>x\<bar>"
    by (rule dfix_shape) blast
  have "(10 :: rat) powi e * 10 ^ 27 \<le> \<bar>x\<bar>" using lo by (simp add: power_int_add)
  then show ?thesis using err d by (simp add: field_simps)
qed simp

section \<open>Exact arithmetic on a grid\<close>

definition on_grid :: "nat \<Rightarrow> rat \<Rightarrow> bool" where
  "on_grid k x \<longleftrightarrow> of_int \<lfloor>x * 10 ^ k\<rfloor> = x * 10 ^ k"

lemma on_grid_iff: "on_grid k x \<longleftrightarrow> (\<exists>n. x * 10 ^ k = of_int n)"
  unfolding on_grid_def by (metis floor_of_int)

lemma on_gridE:
  assumes "on_grid k x" obtains n where "x = of_int n / 10 ^ k"
  using assms unfolding on_grid_iff by (metis nonzero_eq_divide_eq power_not_zero zero_neq_numeral)

lemma on_grid_ops [simp, intro]:
  "on_grid k 0"
  "on_grid k x \<Longrightarrow> on_grid k y \<Longrightarrow> on_grid k (x + y)"
  "on_grid k x \<Longrightarrow> on_grid k y \<Longrightarrow> on_grid k (x - y)"
  "on_grid k x \<Longrightarrow> on_grid k (- x)"
  "on_grid k x \<Longrightarrow> on_grid k \<bar>x\<bar>"
  "on_grid k (of_int n / 10 ^ k)"
proof -
  show "on_grid k x \<Longrightarrow> on_grid k y \<Longrightarrow> on_grid k (x + y)"
    unfolding on_grid_iff by (metis distrib_right of_int_add)
  show "on_grid k x \<Longrightarrow> on_grid k y \<Longrightarrow> on_grid k (x - y)"
    unfolding on_grid_iff by (metis left_diff_distrib of_int_diff)
  show minus: "on_grid k x \<Longrightarrow> on_grid k (- x)"
    unfolding on_grid_iff by (metis minus_mult_left of_int_minus)
  show "on_grid k x \<Longrightarrow> on_grid k \<bar>x\<bar>"
    using minus by (simp add: abs_if)
qed (auto simp: on_grid_def)

lemma on_grid_sum_list [intro]: "(\<forall>x \<in> set xs. on_grid k x) \<Longrightarrow> on_grid k (sum_list xs)"
  by (induction xs) auto

lemma on_grid_mono:
  assumes "on_grid j x" "j \<le> k"
  shows "on_grid k x"
proof -
  obtain n where "x * 10 ^ j = of_int n" using assms(1) unfolding on_grid_iff by blast
  then have "x * 10 ^ k = of_int (n * 10 ^ (k - j))"
    using \<open>j \<le> k\<close> power_add [of "10 :: rat" j "k - j"] by (simp add: mult.assoc [symmetric])
  then show ?thesis unfolding on_grid_iff by blast
qed

lemma dfix_grid:
  assumes "on_grid k x" "\<bar>x\<bar> * 10 ^ k < 10 ^ 28"
  shows "dfix x = x"
proof -
  obtain n where n: "x = of_int n / 10 ^ k" using assms(1) by (rule on_gridE)
  then have "\<bar>x\<bar> * 10 ^ k = of_int \<bar>n\<bar>" by simp
  then have "(of_int \<bar>n\<bar> :: rat) < of_int (10 ^ 28)" using assms(2) by simp
  then have "\<bar>n\<bar> < 10 ^ 28" by (simp only: of_int_less_iff)
  moreover have "x = of_int n * 10 powi (- int k)"
    by (simp add: n power_int_minus divide_inverse)
  ultimately show ?thesis using dfix_exact by blast
qed

text \<open>
  The two hypotheses of the theorems about totals: every amount lies on a grid, and the absolute
  amounts together stay within the precision. The kernel stores amounts as \<open>Numeric(38, 9)\<close>,
  which is the grid with \<open>k = 9\<close>: there the bound is \<open>10 ^ 19\<close>.
\<close>

definition exact_terms :: "nat \<Rightarrow> decimal list \<Rightarrow> bool" where
  "exact_terms k xs \<longleftrightarrow> list_all (on_grid k) xs \<and> sum_list (map abs xs) * 10 ^ k < 10 ^ 28"

lemma sum_list_abs_nonneg [simp]: "0 \<le> sum_list (map abs (xs :: rat list))"
  by (rule sum_list_nonneg) auto

lemma exact_terms_le:
  assumes "exact_terms k xs" "list_all (on_grid k) ys" "sum_list (map abs ys) \<le> sum_list (map abs xs)"
  shows "exact_terms k ys"
proof -
  have "sum_list (map abs ys) * 10 ^ k \<le> sum_list (map abs xs) * 10 ^ k"
    by (rule mult_right_mono [OF assms(3)]) simp
  also have "\<dots> < 10 ^ 28" using assms(1) by (simp only: exact_terms_def)
  finally show ?thesis using assms(2) by (simp only: exact_terms_def)
qed

lemma exact_terms_filter:
  assumes "exact_terms k xs"
  shows "exact_terms k (filter P xs)"
  using assms
proof (rule exact_terms_le)
  show "sum_list (map abs (filter P xs)) \<le> sum_list (map abs xs)"
    by (induction xs) (auto intro: order_trans)
qed (use assms in \<open>auto simp: exact_terms_def list_all_iff\<close>)

lemma abs_sum_list_le: "\<bar>sum_list xs\<bar> \<le> (sum_list (map abs xs) :: rat)"
  by (induction xs) (auto intro: order_trans [OF abs_triangle_ineq])

lemma exact_terms_sum:
  assumes "exact_terms k xs"
  shows "on_grid k (sum_list xs)" "\<bar>sum_list xs\<bar> * 10 ^ k < 10 ^ 28"
proof -
  show "on_grid k (sum_list xs)" using assms by (auto simp: exact_terms_def list_all_iff)
  have "\<bar>sum_list xs\<bar> * 10 ^ k \<le> sum_list (map abs xs) * 10 ^ k"
    by (rule mult_right_mono [OF abs_sum_list_le]) simp
  also have "\<dots> < 10 ^ 28" using assms by (simp only: exact_terms_def)
  finally show "\<bar>sum_list xs\<bar> * 10 ^ k < 10 ^ 28" .
qed

lemma exact_terms_append:
  assumes "exact_terms k (xs @ ys)"
  shows "exact_terms k xs" "exact_terms k ys"
proof -
  have grid: "list_all (on_grid k) xs" "list_all (on_grid k) ys"
    using assms by (simp_all add: exact_terms_def)
  show "exact_terms k xs" by (rule exact_terms_le [OF assms grid(1)]) simp
  show "exact_terms k ys" by (rule exact_terms_le [OF assms grid(2)]) simp
qed

lemma dsum_snoc [simp]: "dsum (xs @ [x]) = dadd (dsum xs) x"
  by (simp add: dsum_def)

lemma dsum_Nil [simp]: "dsum [] = 0"
  by (simp add: dsum_def)

lemma dsum_exact [exact_simps]:
  assumes "exact_terms k xs"
  shows "dsum xs = sum_list xs"
  using assms
proof (induction xs rule: rev_induct)
  case (snoc x xs)
  then have "dsum xs = sum_list xs" using exact_terms_append(1) by blast
  moreover have "dfix (sum_list (xs @ [x])) = sum_list (xs @ [x])"
    using exact_terms_sum [OF snoc.prems] by (rule dfix_grid)
  ultimately show ?case by (simp add: dadd_def)
qed simp

lemma dsum_fixed [simp]: "dfix (dsum xs) = dsum xs"
  by (cases xs rule: rev_cases) (simp_all add: dadd_def)

lemma dsub_eq_0 [simp]: "dsub a b = 0 \<longleftrightarrow> a = b"
  by (simp add: dsub_def)

text \<open>Literals: numerals and quotients of numerals on the storage grid.\<close>

lemma dfix_numeral_grid:
  assumes "of_int (n div d) = x * 10 ^ 9" "\<bar>n div d\<bar> < 10 ^ 28"
  shows "dfix x = x"
proof (rule dfix_grid)
  show "on_grid 9 x" unfolding on_grid_iff using assms(1) [symmetric] by blast
  have "\<bar>x\<bar> * 10 ^ 9 = of_int \<bar>n div d\<bar>" using assms(1) by (simp add: abs_mult)
  also have "\<dots> < of_int (10 ^ 28)" using assms(2) by (simp only: of_int_less_iff)
  finally show "\<bar>x\<bar> * 10 ^ 9 < 10 ^ 28" by simp
qed

lemma dfix_literal [simp]:
  "dfix 1 = 1"
  "(numeral a :: int) < 10 ^ 19 \<Longrightarrow> dfix (numeral a) = numeral a"
  "(numeral b :: int) dvd numeral a * 10 ^ 9 \<Longrightarrow> (numeral a :: int) < 10 ^ 19 \<Longrightarrow>
     dfix (numeral a / numeral b) = numeral a / numeral b"
  "(numeral b :: int) dvd 10 ^ 9 \<Longrightarrow> dfix (1 / numeral b) = 1 / numeral b"
proof -
  show "dfix 1 = 1" by (rule dfix_numeral_grid [of "10 ^ 9" 1]) simp_all
  have lit: "dfix (of_int n / numeral b) = of_int n / numeral b"
    if "(numeral b :: int) dvd n * 10 ^ 9" "0 < n" "n < 10 ^ 19" for n and b :: num
  proof (rule dfix_numeral_grid)
    have "of_int (n * 10 ^ 9 div numeral b) = (of_int (n * 10 ^ 9) / of_int (numeral b) :: rat)"
      using that(1) by (simp add: of_int_div)
    then show "of_int (n * 10 ^ 9 div numeral b) = of_int n / numeral b * (10 ^ 9 :: rat)" by simp
    have "n * 10 ^ 9 div numeral b \<le> n * 10 ^ 9"
      using that(2) zdiv_mono2 [of "n * 10 ^ 9" 1 "numeral b"] by simp
    moreover have "0 \<le> n * 10 ^ 9 div numeral b"
      using that(2) by (simp add: pos_imp_zdiv_nonneg_iff)
    ultimately show "\<bar>n * 10 ^ 9 div numeral b\<bar> < 10 ^ 28" using that(3) by simp
  qed
  show "(numeral a :: int) < 10 ^ 19 \<Longrightarrow> dfix (numeral a) = numeral a"
    using lit [of num.One "numeral a"] by simp
  show "(numeral b :: int) dvd numeral a * 10 ^ 9 \<Longrightarrow> (numeral a :: int) < 10 ^ 19 \<Longrightarrow>
     dfix (numeral a / numeral b) = numeral a / numeral b"
    using lit [of b "numeral a"] by simp
  show "(numeral b :: int) dvd 10 ^ 9 \<Longrightarrow> dfix (1 / numeral b) = 1 / numeral b"
    using lit [of b 1] by simp
qed

lemma dfix_uminus [simp]: "dfix (- x) = - dfix x"
proof (cases "x = 0")
  case False
  have "adjusted (- x) = adjusted x" by (simp add: adjusted_def)
  moreover have "round_int ROUND_HALF_EVEN (- y) = - round_int ROUND_HALF_EVEN y" for y :: rat
    by (rule round_half_even_uminus)
  ultimately show ?thesis using False by (simp add: dfix_def Let_def)
qed simp

lemma dfix_abs: "dfix \<bar>x\<bar> = \<bar>dfix x\<bar>"
  using dfix_neg_iff [of x] by (simp add: abs_if)

lemmas dec_defs = dadd_def dsub_def dmul_def dneg_def dabs_def ddiv_def

end
