(* ===== verification/Currency.thy ===== *)
theory Currency
  imports Decimal
begin

text \<open>
  \<open>finance_kernel/domain/currency.py\<close>: the ISO 4217 registry, with the number of decimal
  places of each currency (R16), and the rounding tolerance derived from it (R17). The registry
  is the class attribute \<open>_CURRENCIES\<close>, row for row.
\<close>

section \<open>CurrencyInfo\<close>

record currency_info =
  ci_code :: string
  ci_decimal_places :: nat
  ci_name :: string

text \<open>The literal \<open>"0." + "0" * (p - 1) + "1"\<close> denotes \<open>10 ^ -p\<close>.\<close>

definition ci_rounding_tolerance :: "currency_info \<Rightarrow> decimal" where
  "ci_rounding_tolerance i =
     (if ci_decimal_places i = 0 then 1 else 1 / 10 ^ ci_decimal_places i)"

definition ci_quantize_string :: "currency_info \<Rightarrow> string" where
  "ci_quantize_string i =
     (if ci_decimal_places i = 0 then ''1'' else ''0.'' @ replicate (ci_decimal_places i) (CHR ''0''))"

section \<open>The registry\<close>

definition currencies_major :: "(string \<times> currency_info) list" where
  "currencies_major = [
   (''USD'', \<lparr>ci_code = ''USD'', ci_decimal_places = 2, ci_name = ''US Dollar''\<rparr>),
   (''EUR'', \<lparr>ci_code = ''EUR'', ci_decimal_places = 2, ci_name = ''Euro''\<rparr>),
   (''GBP'', \<lparr>ci_code = ''GBP'', ci_decimal_places = 2, ci_name = ''Pound Sterling''\<rparr>),
   (''JPY'', \<lparr>ci_code = ''JPY'', ci_decimal_places = 0, ci_name = ''Japanese Yen''\<rparr>),
   (''CHF'', \<lparr>ci_code = ''CHF'', ci_decimal_places = 2, ci_name = ''Swiss Franc''\<rparr>),
   (''CAD'', \<lparr>ci_code = ''CAD'', ci_decimal_places = 2, ci_name = ''Canadian Dollar''\<rparr>),
   (''AUD'', \<lparr>ci_code = ''AUD'', ci_decimal_places = 2, ci_name = ''Australian Dollar''\<rparr>),
   (''NZD'', \<lparr>ci_code = ''NZD'', ci_decimal_places = 2, ci_name = ''New Zealand Dollar''\<rparr>),
   (''BIF'', \<lparr>ci_code = ''BIF'', ci_decimal_places = 0, ci_name = ''Burundian Franc''\<rparr>),
   (''CLP'', \<lparr>ci_code = ''CLP'', ci_decimal_places = 0, ci_name = ''Chilean Peso''\<rparr>),
   (''DJF'', \<lparr>ci_code = ''DJF'', ci_decimal_places = 0, ci_name = ''Djiboutian Franc''\<rparr>),
   (''GNF'', \<lparr>ci_code = ''GNF'', ci_decimal_places = 0, ci_name = ''Guinean Franc''\<rparr>),
   (''ISK'', \<lparr>ci_code = ''ISK'', ci_decimal_places = 0, ci_name = ''Icelandic Krona''\<rparr>),
   (''KMF'', \<lparr>ci_code = ''KMF'', ci_decimal_places = 0, ci_name = ''Comorian Franc''\<rparr>),
   (''KRW'', \<lparr>ci_code = ''KRW'', ci_decimal_places = 0, ci_name = ''South Korean Won''\<rparr>),
   (''PYG'', \<lparr>ci_code = ''PYG'', ci_decimal_places = 0, ci_name = ''Paraguayan Guarani''\<rparr>),
   (''RWF'', \<lparr>ci_code = ''RWF'', ci_decimal_places = 0, ci_name = ''Rwandan Franc''\<rparr>),
   (''UGX'', \<lparr>ci_code = ''UGX'', ci_decimal_places = 0, ci_name = ''Ugandan Shilling''\<rparr>),
   (''VND'', \<lparr>ci_code = ''VND'', ci_decimal_places = 0, ci_name = ''Vietnamese Dong''\<rparr>),
   (''VUV'', \<lparr>ci_code = ''VUV'', ci_decimal_places = 0, ci_name = ''Vanuatu Vatu''\<rparr>),
   (''XAF'', \<lparr>ci_code = ''XAF'', ci_decimal_places = 0, ci_name = ''Central African CFA Franc''\<rparr>),
   (''XOF'', \<lparr>ci_code = ''XOF'', ci_decimal_places = 0, ci_name = ''West African CFA Franc''\<rparr>),
   (''XPF'', \<lparr>ci_code = ''XPF'', ci_decimal_places = 0, ci_name = ''CFP Franc''\<rparr>),
   (''BHD'', \<lparr>ci_code = ''BHD'', ci_decimal_places = 3, ci_name = ''Bahraini Dinar''\<rparr>),
   (''IQD'', \<lparr>ci_code = ''IQD'', ci_decimal_places = 3, ci_name = ''Iraqi Dinar''\<rparr>),
   (''JOD'', \<lparr>ci_code = ''JOD'', ci_decimal_places = 3, ci_name = ''Jordanian Dinar''\<rparr>),
   (''KWD'', \<lparr>ci_code = ''KWD'', ci_decimal_places = 3, ci_name = ''Kuwaiti Dinar''\<rparr>),
   (''LYD'', \<lparr>ci_code = ''LYD'', ci_decimal_places = 3, ci_name = ''Libyan Dinar''\<rparr>),
   (''OMR'', \<lparr>ci_code = ''OMR'', ci_decimal_places = 3, ci_name = ''Omani Rial''\<rparr>),
   (''TND'', \<lparr>ci_code = ''TND'', ci_decimal_places = 3, ci_name = ''Tunisian Dinar''\<rparr>),
   (''CLF'', \<lparr>ci_code = ''CLF'', ci_decimal_places = 4, ci_name = ''Chilean Unidad de Fomento''\<rparr>)]"

definition currencies_standard_a :: "(string \<times> currency_info) list" where
  "currencies_standard_a = [
   (''AED'', \<lparr>ci_code = ''AED'', ci_decimal_places = 2, ci_name = ''UAE Dirham''\<rparr>),
   (''AFN'', \<lparr>ci_code = ''AFN'', ci_decimal_places = 2, ci_name = ''Afghan Afghani''\<rparr>),
   (''ALL'', \<lparr>ci_code = ''ALL'', ci_decimal_places = 2, ci_name = ''Albanian Lek''\<rparr>),
   (''AMD'', \<lparr>ci_code = ''AMD'', ci_decimal_places = 2, ci_name = ''Armenian Dram''\<rparr>),
   (''ANG'', \<lparr>ci_code = ''ANG'', ci_decimal_places = 2, ci_name = ''Netherlands Antillean Guilder''\<rparr>),
   (''AOA'', \<lparr>ci_code = ''AOA'', ci_decimal_places = 2, ci_name = ''Angolan Kwanza''\<rparr>),
   (''ARS'', \<lparr>ci_code = ''ARS'', ci_decimal_places = 2, ci_name = ''Argentine Peso''\<rparr>),
   (''AWG'', \<lparr>ci_code = ''AWG'', ci_decimal_places = 2, ci_name = ''Aruban Florin''\<rparr>),
   (''AZN'', \<lparr>ci_code = ''AZN'', ci_decimal_places = 2, ci_name = ''Azerbaijan Manat''\<rparr>),
   (''BAM'', \<lparr>ci_code = ''BAM'', ci_decimal_places = 2, ci_name = ''Bosnia and Herzegovina Convertible Mark''\<rparr>),
   (''BBD'', \<lparr>ci_code = ''BBD'', ci_decimal_places = 2, ci_name = ''Barbadian Dollar''\<rparr>),
   (''BDT'', \<lparr>ci_code = ''BDT'', ci_decimal_places = 2, ci_name = ''Bangladeshi Taka''\<rparr>),
   (''BGN'', \<lparr>ci_code = ''BGN'', ci_decimal_places = 2, ci_name = ''Bulgarian Lev''\<rparr>),
   (''BMD'', \<lparr>ci_code = ''BMD'', ci_decimal_places = 2, ci_name = ''Bermudian Dollar''\<rparr>),
   (''BND'', \<lparr>ci_code = ''BND'', ci_decimal_places = 2, ci_name = ''Brunei Dollar''\<rparr>),
   (''BOB'', \<lparr>ci_code = ''BOB'', ci_decimal_places = 2, ci_name = ''Bolivian Boliviano''\<rparr>),
   (''BOV'', \<lparr>ci_code = ''BOV'', ci_decimal_places = 2, ci_name = ''Bolivian Mvdol''\<rparr>),
   (''BRL'', \<lparr>ci_code = ''BRL'', ci_decimal_places = 2, ci_name = ''Brazilian Real''\<rparr>),
   (''BSD'', \<lparr>ci_code = ''BSD'', ci_decimal_places = 2, ci_name = ''Bahamian Dollar''\<rparr>),
   (''BTN'', \<lparr>ci_code = ''BTN'', ci_decimal_places = 2, ci_name = ''Bhutanese Ngultrum''\<rparr>),
   (''BWP'', \<lparr>ci_code = ''BWP'', ci_decimal_places = 2, ci_name = ''Botswana Pula''\<rparr>),
   (''BYN'', \<lparr>ci_code = ''BYN'', ci_decimal_places = 2, ci_name = ''Belarusian Ruble''\<rparr>),
   (''BZD'', \<lparr>ci_code = ''BZD'', ci_decimal_places = 2, ci_name = ''Belize Dollar''\<rparr>),
   (''CDF'', \<lparr>ci_code = ''CDF'', ci_decimal_places = 2, ci_name = ''Congolese Franc''\<rparr>),
   (''CHE'', \<lparr>ci_code = ''CHE'', ci_decimal_places = 2, ci_name = ''WIR Euro''\<rparr>),
   (''CHW'', \<lparr>ci_code = ''CHW'', ci_decimal_places = 2, ci_name = ''WIR Franc''\<rparr>),
   (''CNY'', \<lparr>ci_code = ''CNY'', ci_decimal_places = 2, ci_name = ''Chinese Yuan''\<rparr>),
   (''COP'', \<lparr>ci_code = ''COP'', ci_decimal_places = 2, ci_name = ''Colombian Peso''\<rparr>),
   (''COU'', \<lparr>ci_code = ''COU'', ci_decimal_places = 2, ci_name = ''Colombian Unidad de Valor Real''\<rparr>),
   (''CRC'', \<lparr>ci_code = ''CRC'', ci_decimal_places = 2, ci_name = ''Costa Rican Colon''\<rparr>),
   (''CUC'', \<lparr>ci_code = ''CUC'', ci_decimal_places = 2, ci_name = ''Cuban Convertible Peso''\<rparr>),
   (''CUP'', \<lparr>ci_code = ''CUP'', ci_decimal_places = 2, ci_name = ''Cuban Peso''\<rparr>),
   (''CVE'', \<lparr>ci_code = ''CVE'', ci_decimal_places = 2, ci_name = ''Cape Verdean Escudo''\<rparr>),
   (''CZK'', \<lparr>ci_code = ''CZK'', ci_decimal_places = 2, ci_name = ''Czech Koruna''\<rparr>),
   (''DKK'', \<lparr>ci_code = ''DKK'', ci_decimal_places = 2, ci_name = ''Danish Krone''\<rparr>),
   (''DOP'', \<lparr>ci_code = ''DOP'', ci_decimal_places = 2, ci_name = ''Dominican Peso''\<rparr>),
   (''DZD'', \<lparr>ci_code = ''DZD'', ci_decimal_places = 2, ci_name = ''Algerian Dinar''\<rparr>),
   (''EGP'', \<lparr>ci_code = ''EGP'', ci_decimal_places = 2, ci_name = ''Egyptian Pound''\<rparr>),
   (''ERN'', \<lparr>ci_code = ''ERN'', ci_decimal_places = 2, ci_name = ''Eritrean Nakfa''\<rparr>),
   (''ETB'', \<lparr>ci_code = ''ETB'', ci_decimal_places = 2, ci_name = ''Ethiopian Birr''\<rparr>),
   (''FJD'', \<lparr>ci_code = ''FJD'', ci_decimal_places = 2, ci_name = ''Fijian Dollar''\<rparr>),
   (''FKP'', \<lparr>ci_code = ''FKP'', ci_decimal_places = 2, ci_name = ''Falkland Islands Pound''\<rparr>),
   (''GEL'', \<lparr>ci_code = ''GEL'', ci_decimal_places = 2, ci_name = ''Georgian Lari''\<rparr>),
   (''GHS'', \<lparr>ci_code = ''GHS'', ci_decimal_places = 2, ci_name = ''Ghanaian Cedi''\<rparr>),
   (''GIP'', \<lparr>ci_code = ''GIP'', ci_decimal_places = 2, ci_name = ''Gibraltar Pound''\<rparr>),
   (''GMD'', \<lparr>ci_code = ''GMD'', ci_decimal_places = 2, ci_name = ''Gambian Dalasi''\<rparr>),
   (''GTQ'', \<lparr>ci_code = ''GTQ'', ci_decimal_places = 2, ci_name = ''Guatemalan Quetzal''\<rparr>),
   (''GYD'', \<lparr>ci_code = ''GYD'', ci_decimal_places = 2, ci_name = ''Guyanese Dollar''\<rparr>),
   (''HKD'', \<lparr>ci_code = ''HKD'', ci_decimal_places = 2, ci_name = ''Hong Kong Dollar''\<rparr>),
   (''HNL'', \<lparr>ci_code = ''HNL'', ci_decimal_places = 2, ci_name = ''Honduran Lempira''\<rparr>),
   (''HRK'', \<lparr>ci_code = ''HRK'', ci_decimal_places = 2, ci_name = ''Croatian Kuna''\<rparr>),
   (''HTG'', \<lparr>ci_code = ''HTG'', ci_decimal_places = 2, ci_name = ''Haitian Gourde''\<rparr>),
   (''HUF'', \<lparr>ci_code = ''HUF'', ci_decimal_places = 2, ci_name = ''Hungarian Forint''\<rparr>),
   (''IDR'', \<lparr>ci_code = ''IDR'', ci_decimal_places = 2, ci_name = ''Indonesian Rupiah''\<rparr>),
   (''ILS'', \<lparr>ci_code = ''ILS'', ci_decimal_places = 2, ci_name = ''Israeli New Shekel''\<rparr>),
   (''INR'', \<lparr>ci_code = ''INR'', ci_decimal_places = 2, ci_name = ''Indian Rupee''\<rparr>),
   (''IRR'', \<lparr>ci_code = ''IRR'', ci_decimal_places = 2, ci_name = ''Iranian Rial''\<rparr>),
   (''JMD'', \<lparr>ci_code = ''JMD'', ci_decimal_places = 2, ci_name = ''Jamaican Dollar''\<rparr>),
   (''KES'', \<lparr>ci_code = ''KES'', ci_decimal_places = 2, ci_name = ''Kenyan Shilling''\<rparr>),
   (''KGS'', \<lparr>ci_code = ''KGS'', ci_decimal_places = 2, ci_name = ''Kyrgyzstani Som''\<rparr>),
   (''KHR'', \<lparr>ci_code = ''KHR'', ci_decimal_places = 2, ci_name = ''Cambodian Riel''\<rparr>),
   (''KPW'', \<lparr>ci_code = ''KPW'', ci_decimal_places = 2, ci_name = ''North Korean Won''\<rparr>),
   (''KYD'', \<lparr>ci_code = ''KYD'', ci_decimal_places = 2, ci_name = ''Cayman Islands Dollar''\<rparr>),
   (''KZT'', \<lparr>ci_code = ''KZT'', ci_decimal_places = 2, ci_name = ''Kazakhstani Tenge''\<rparr>),
   (''LAK'', \<lparr>ci_code = ''LAK'', ci_decimal_places = 2, ci_name = ''Lao Kip''\<rparr>),
   (''LBP'', \<lparr>ci_code = ''LBP'', ci_decimal_places = 2, ci_name = ''Lebanese Pound''\<rparr>),
   (''LKR'', \<lparr>ci_code = ''LKR'', ci_decimal_places = 2, ci_name = ''Sri Lankan Rupee''\<rparr>),
   (''LRD'', \<lparr>ci_code = ''LRD'', ci_decimal_places = 2, ci_name = ''Liberian Dollar''\<rparr>),
   (''LSL'', \<lparr>ci_code = ''LSL'', ci_decimal_places = 2, ci_name = ''Lesotho Loti''\<rparr>)]"

definition currencies_standard_b :: "(string \<times> currency_info) list" where
  "currencies_standard_b = [
   (''MAD'', \<lparr>ci_code = ''MAD'', ci_decimal_places = 2, ci_name = ''Moroccan Dirham''\<rparr>),
   (''MDL'', \<lparr>ci_code = ''MDL'', ci_decimal_places = 2, ci_name = ''Moldovan Leu''\<rparr>),
   (''MGA'', \<lparr>ci_code = ''MGA'', ci_decimal_places = 2, ci_name = ''Malagasy Ariary''\<rparr>),
   (''MKD'', \<lparr>ci_code = ''MKD'', ci_decimal_places = 2, ci_name = ''Macedonian Denar''\<rparr>),
   (''MMK'', \<lparr>ci_code = ''MMK'', ci_decimal_places = 2, ci_name = ''Myanmar Kyat''\<rparr>),
   (''MNT'', \<lparr>ci_code = ''MNT'', ci_decimal_places = 2, ci_name = ''Mongolian Tugrik''\<rparr>),
   (''MOP'', \<lparr>ci_code = ''MOP'', ci_decimal_places = 2, ci_name = ''Macanese Pataca''\<rparr>),
   (''MRU'', \<lparr>ci_code = ''MRU'', ci_decimal_places = 2, ci_name = ''Mauritanian Ouguiya''\<rparr>),
   (''MUR'', \<lparr>ci_code = ''MUR'', ci_decimal_places = 2, ci_name = ''Mauritian Rupee''\<rparr>),
   (''MVR'', \<lparr>ci_code = ''MVR'', ci_decimal_places = 2, ci_name = ''Maldivian Rufiyaa''\<rparr>),
   (''MWK'', \<lparr>ci_code = ''MWK'', ci_decimal_places = 2, ci_name = ''Malawian Kwacha''\<rparr>),
   (''MXN'', \<lparr>ci_code = ''MXN'', ci_decimal_places = 2, ci_name = ''Mexican Peso''\<rparr>),
   (''MXV'', \<lparr>ci_code = ''MXV'', ci_decimal_places = 2, ci_name = ''Mexican Unidad de Inversion''\<rparr>),
   (''MYR'', \<lparr>ci_code = ''MYR'', ci_decimal_places = 2, ci_name = ''Malaysian Ringgit''\<rparr>),
   (''MZN'', \<lparr>ci_code = ''MZN'', ci_decimal_places = 2, ci_name = ''Mozambican Metical''\<rparr>),
   (''NAD'', \<lparr>ci_code = ''NAD'', ci_decimal_places = 2, ci_name = ''Namibian Dollar''\<rparr>),
   (''NGN'', \<lparr>ci_code = ''NGN'', ci_decimal_places = 2, ci_name = ''Nigerian Naira''\<rparr>),
   (''NIO'', \<lparr>ci_code = ''NIO'', ci_decimal_places = 2, ci_name = ''Nicaraguan Cordoba''\<rparr>),
   (''NOK'', \<lparr>ci_code = ''NOK'', ci_decimal_places = 2, ci_name = ''Norwegian Krone''\<rparr>),
   (''NPR'', \<lparr>ci_code = ''NPR'', ci_decimal_places = 2, ci_name = ''Nepalese Rupee''\<rparr>),
   (''PAB'', \<lparr>ci_code = ''PAB'', ci_decimal_places = 2, ci_name = ''Panamanian Balboa''\<rparr>),
   (''PEN'', \<lparr>ci_code = ''PEN'', ci_decimal_places = 2, ci_name = ''Peruvian Sol''\<rparr>),
   (''PGK'', \<lparr>ci_code = ''PGK'', ci_decimal_places = 2, ci_name = ''Papua New Guinean Kina''\<rparr>),
   (''PHP'', \<lparr>ci_code = ''PHP'', ci_decimal_places = 2, ci_name = ''Philippine Peso''\<rparr>),
   (''PKR'', \<lparr>ci_code = ''PKR'', ci_decimal_places = 2, ci_name = ''Pakistani Rupee''\<rparr>),
   (''PLN'', \<lparr>ci_code = ''PLN'', ci_decimal_places = 2, ci_name = ''Polish Zloty''\<rparr>),
   (''QAR'', \<lparr>ci_code = ''QAR'', ci_decimal_places = 2, ci_name = ''Qatari Riyal''\<rparr>),
   (''RON'', \<lparr>ci_code = ''RON'', ci_decimal_places = 2, ci_name = ''Romanian Leu''\<rparr>),
   (''RSD'', \<lparr>ci_code = ''RSD'', ci_decimal_places = 2, ci_name = ''Serbian Dinar''\<rparr>),
   (''RUB'', \<lparr>ci_code = ''RUB'', ci_decimal_places = 2, ci_name = ''Russian Ruble''\<rparr>),
   (''SAR'', \<lparr>ci_code = ''SAR'', ci_decimal_places = 2, ci_name = ''Saudi Riyal''\<rparr>),
   (''SBD'', \<lparr>ci_code = ''SBD'', ci_decimal_places = 2, ci_name = ''Solomon Islands Dollar''\<rparr>),
   (''SCR'', \<lparr>ci_code = ''SCR'', ci_decimal_places = 2, ci_name = ''Seychellois Rupee''\<rparr>),
   (''SDG'', \<lparr>ci_code = ''SDG'', ci_decimal_places = 2, ci_name = ''Sudanese Pound''\<rparr>),
   (''SEK'', \<lparr>ci_code = ''SEK'', ci_decimal_places = 2, ci_name = ''Swedish Krona''\<rparr>),
   (''SGD'', \<lparr>ci_code = ''SGD'', ci_decimal_places = 2, ci_name = ''Singapore Dollar''\<rparr>),
   (''SHP'', \<lparr>ci_code = ''SHP'', ci_decimal_places = 2, ci_name = ''Saint Helena Pound''\<rparr>),
   (''SLE'', \<lparr>ci_code = ''SLE'', ci_decimal_places = 2, ci_name = ''Sierra Leonean Leone''\<rparr>),
   (''SLL'', \<lparr>ci_code = ''SLL'', ci_decimal_places = 2, ci_name = ''Sierra Leonean Leone (old)''\<rparr>),
   (''SOS'', \<lparr>ci_code = ''SOS'', ci_decimal_places = 2, ci_name = ''Somali Shilling''\<rparr>),
   (''SRD'', \<lparr>ci_code = ''SRD'', ci_decimal_places = 2, ci_name = ''Surinamese Dollar''\<rparr>),
   (''SSP'', \<lparr>ci_code = ''SSP'', ci_decimal_places = 2, ci_name = ''South Sudanese Pound''\<rparr>),
   (''STN'', \<lparr>ci_code = ''STN'', ci_decimal_places = 2, ci_name = ''Sao Tome and Principe Dobra''\<rparr>),
   (''SVC'', \<lparr>ci_code = ''SVC'', ci_decimal_places = 2, ci_name = ''Salvadoran Colon''\<rparr>),
   (''SYP'', \<lparr>ci_code = ''SYP'', ci_decimal_places = 2, ci_name = ''Syrian Pound''\<rparr>),
   (''SZL'', \<lparr>ci_code = ''SZL'', ci_decimal_places = 2, ci_name = ''Swazi Lilangeni''\<rparr>),
   (''THB'', \<lparr>ci_code = ''THB'', ci_decimal_places = 2, ci_name = ''Thai Baht''\<rparr>),
   (''TJS'', \<lparr>ci_code = ''TJS'', ci_decimal_places = 2, ci_name = ''Tajikistani Somoni''\<rparr>),
   (''TMT'', \<lparr>ci_code = ''TMT'', ci_decimal_places = 2, ci_name = ''Turkmenistan Manat''\<rparr>),
   (''TOP'', \<lparr>ci_code = ''TOP'', ci_decimal_places = 2, ci_name = ''Tongan Paanga''\<rparr>),
   (''TRY'', \<lparr>ci_code = ''TRY'', ci_decimal_places = 2, ci_name = ''Turkish Lira''\<rparr>),
   (''TTD'', \<lparr>ci_code = ''TTD'', ci_decimal_places = 2, ci_name = ''Trinidad and Tobago Dollar''\<rparr>),
   (''TWD'', \<lparr>ci_code = ''TWD'', ci_decimal_places = 2, ci_name = ''New Taiwan Dollar''\<rparr>),
   (''TZS'', \<lparr>ci_code = ''TZS'', ci_decimal_places = 2, ci_name = ''Tanzanian Shilling''\<rparr>),
   (''UAH'', \<lparr>ci_code = ''UAH'', ci_decimal_places = 2, ci_name = ''Ukrainian Hryvnia''\<rparr>),
   (''USN'', \<lparr>ci_code = ''USN'', ci_decimal_places = 2, ci_name = ''US Dollar (Next day)''\<rparr>),
   (''UYI'', \<lparr>ci_code = ''UYI'', ci_decimal_places = 0, ci_name = ''Uruguay Peso en Unidades Indexadas''\<rparr>),
   (''UYU'', \<lparr>ci_code = ''UYU'', ci_decimal_places = 2, ci_name = ''Uruguayan Peso''\<rparr>),
   (''UYW'', \<lparr>ci_code = ''UYW'', ci_decimal_places = 4, ci_name = ''Unidad Previsional''\<rparr>),
   (''UZS'', \<lparr>ci_code = ''UZS'', ci_decimal_places = 2, ci_name = ''Uzbekistani Som''\<rparr>),
   (''VED'', \<lparr>ci_code = ''VED'', ci_decimal_places = 2, ci_name = ''Venezuelan Bolivar Digital''\<rparr>),
   (''VES'', \<lparr>ci_code = ''VES'', ci_decimal_places = 2, ci_name = ''Venezuelan Bolivar Soberano''\<rparr>),
   (''WST'', \<lparr>ci_code = ''WST'', ci_decimal_places = 2, ci_name = ''Samoan Tala''\<rparr>),
   (''XCD'', \<lparr>ci_code = ''XCD'', ci_decimal_places = 2, ci_name = ''East Caribbean Dollar''\<rparr>),
   (''XDR'', \<lparr>ci_code = ''XDR'', ci_decimal_places = 0, ci_name = ''Special Drawing Rights''\<rparr>),
   (''YER'', \<lparr>ci_code = ''YER'', ci_decimal_places = 2, ci_name = ''Yemeni Rial''\<rparr>),
   (''ZAR'', \<lparr>ci_code = ''ZAR'', ci_decimal_places = 2, ci_name = ''South African Rand''\<rparr>),
   (''ZMW'', \<lparr>ci_code = ''ZMW'', ci_decimal_places = 2, ci_name = ''Zambian Kwacha''\<rparr>),
   (''ZWL'', \<lparr>ci_code = ''ZWL'', ci_decimal_places = 2, ci_name = ''Zimbabwean Dollar''\<rparr>),
   (''XAG'', \<lparr>ci_code = ''XAG'', ci_decimal_places = 0, ci_name = ''Silver (troy ounce)''\<rparr>),
   (''XAU'', \<lparr>ci_code = ''XAU'', ci_decimal_places = 0, ci_name = ''Gold (troy ounce)''\<rparr>),
   (''XBA'', \<lparr>ci_code = ''XBA'', ci_decimal_places = 0, ci_name = ''European Composite Unit''\<rparr>),
   (''XBB'', \<lparr>ci_code = ''XBB'', ci_decimal_places = 0, ci_name = ''European Monetary Unit''\<rparr>),
   (''XBC'', \<lparr>ci_code = ''XBC'', ci_decimal_places = 0, ci_name = ''European Unit of Account 9''\<rparr>),
   (''XBD'', \<lparr>ci_code = ''XBD'', ci_decimal_places = 0, ci_name = ''European Unit of Account 17''\<rparr>),
   (''XPD'', \<lparr>ci_code = ''XPD'', ci_decimal_places = 0, ci_name = ''Palladium (troy ounce)''\<rparr>),
   (''XPT'', \<lparr>ci_code = ''XPT'', ci_decimal_places = 0, ci_name = ''Platinum (troy ounce)''\<rparr>),
   (''XSU'', \<lparr>ci_code = ''XSU'', ci_decimal_places = 0, ci_name = ''Sucre''\<rparr>),
   (''XTS'', \<lparr>ci_code = ''XTS'', ci_decimal_places = 0, ci_name = ''Testing Code''\<rparr>),
   (''XUA'', \<lparr>ci_code = ''XUA'', ci_decimal_places = 0, ci_name = ''ADB Unit of Account''\<rparr>),
   (''XXX'', \<lparr>ci_code = ''XXX'', ci_decimal_places = 0, ci_name = ''No currency''\<rparr>)]"

definition currencies :: "(string \<times> currency_info) list" where
  "currencies = currencies_major @ currencies_standard_a @ currencies_standard_b"

definition is_valid :: "string \<Rightarrow> bool" where
  "is_valid code \<longleftrightarrow> code \<noteq> [] \<and> map_of currencies (strip (upper code)) \<noteq> None"

definition get_info :: "string \<Rightarrow> currency_info option" where
  "get_info code = (if code = [] then None else map_of currencies (strip (upper code)))"

definition default_decimal_places :: nat where
  "default_decimal_places = 2"

definition get_decimal_places :: "string \<Rightarrow> nat" where
  "get_decimal_places code =
     (case get_info code of Some i \<Rightarrow> ci_decimal_places i | None \<Rightarrow> default_decimal_places)"

definition tolerance_from_decimal_places :: "nat \<Rightarrow> decimal" where
  "tolerance_from_decimal_places p = (if p = 0 then 1 else 1 / 10 ^ p)"

definition get_rounding_tolerance :: "string \<Rightarrow> decimal" where
  "get_rounding_tolerance code =
     (case get_info code of
        Some i \<Rightarrow> ci_rounding_tolerance i
      | None \<Rightarrow> tolerance_from_decimal_places default_decimal_places)"

definition validate :: "string \<Rightarrow> py_exc + string" where
  "validate code =
     (if code = [] then Inl ValueError
      else let normalized = strip (upper code)
           in if length normalized \<noteq> 3 then Inl ValueError
              else if map_of currencies normalized = None then Inl ValueError
              else Inr normalized)"

definition all_codes :: "string set" where
  "all_codes = fst ` set currencies"

definition all_currencies :: "(string \<times> currency_info) list" where
  "all_currencies = currencies"

lemmas registry_defs = currencies_def currencies_major_def currencies_standard_a_def
  currencies_standard_b_def

lemmas currency_defs [value_simps] = is_valid_def get_info_def get_decimal_places_def
  get_rounding_tolerance_def validate_def

section \<open>The rows of the registry\<close>

lemma registry_wf:
  "list_all (\<lambda>(k, i). length k = 3 \<and> strip (upper k) = k \<and> ci_code i = k \<and> ci_decimal_places i \<le> 4)
     currencies"
  by code_simp

lemma registry_row:
  assumes "map_of currencies k = Some i"
  shows "length k = 3" "strip (upper k) = k" "ci_code i = k" "ci_decimal_places i \<le> 4"
  using registry_wf map_of_SomeD [OF assms] by (auto simp: list_all_iff)

lemma registry_key_nonempty: "map_of currencies k = Some i \<Longrightarrow> k \<noteq> []"
  using registry_row(1) by fastforce

lemma is_valid_iff: "is_valid code \<longleftrightarrow> (\<exists>i. map_of currencies (strip (upper code)) = Some i)"
proof -
  have "map_of currencies (strip (upper [])) = None"
    using registry_key_nonempty [of "[]"] by (cases "map_of currencies []") (auto simp: strip_def upper_def)
  then show ?thesis by (cases "code = []") (auto simp: is_valid_def)
qed

lemma get_info_valid: "is_valid code \<longleftrightarrow> (\<exists>i. get_info code = Some i)"
  by (auto simp: is_valid_def get_info_def)

text \<open>
  The only entry points disagree in form: \<open>is_valid\<close> tests membership, \<open>validate\<close> also
  tests for three characters and returns the normalized code. They accept the same codes, and
  what \<open>validate\<close> returns is a fixed point of both.
\<close>

lemma validate_eq: "validate code = (if is_valid code then Inr (strip (upper code)) else Inl ValueError)"
proof (cases "is_valid code")
  case True
  then obtain i where "map_of currencies (strip (upper code)) = Some i" "code \<noteq> []"
    by (auto simp: is_valid_def)
  then show ?thesis using True registry_row(1) by (simp add: validate_def Let_def)
next
  case False
  then show ?thesis by (auto simp: validate_def is_valid_def Let_def)
qed

lemma normalize_idem:
  "is_valid code \<Longrightarrow> strip (upper (strip (upper code))) = strip (upper code)"
  using registry_row(2) by (auto simp: is_valid_iff)

lemma is_valid_normalized: "is_valid code \<Longrightarrow> is_valid (strip (upper code))"
  by (simp add: is_valid_iff normalize_idem)

lemma get_decimal_places_le: "get_decimal_places code \<le> 4"
proof (cases "get_info code")
  case (Some i)
  then show ?thesis
    using registry_row(4) by (auto simp: get_decimal_places_def get_info_def split: if_splits)
qed (simp add: get_decimal_places_def default_decimal_places_def)

lemma rounding_tolerance_eq: "get_rounding_tolerance code = 1 / 10 ^ get_decimal_places code"
  by (auto simp: get_rounding_tolerance_def get_decimal_places_def ci_rounding_tolerance_def
      tolerance_from_decimal_places_def split: option.split)

lemma rounding_tolerance_pos: "0 < get_rounding_tolerance code"
  by (simp add: rounding_tolerance_eq)

lemma rounding_tolerance_le_1: "get_rounding_tolerance code \<le> 1"
  by (simp add: rounding_tolerance_eq)

end
