(* ===== verification/Values.thy ===== *)
theory Values
  imports Currency
begin

text \<open>
  \<open>finance_kernel/domain/values.py\<close>: the value objects \<open>Currency\<close>, \<open>Money\<close>,
  \<open>Quantity\<close> and \<open>ExchangeRate\<close>. A constructor that validates (\<open>__post_init__\<close>) is a
  function into a result; a frozen dataclass is a record with structural equality. \<open>Money\<close>
  and \<open>Quantity\<close> share one contract, an amount that carries a tag and refuses arithmetic
  across tags: the locale \<open>tagged_value\<close>.
\<close>

section \<open>Currency\<close>

datatype currency = Currency (cur_code: string)

definition mk_currency :: "string \<Rightarrow> py_exc + currency" where
  "mk_currency s =
     (let normalized = (if s \<noteq> [] then strip (upper s) else [])
      in if is_valid normalized then Inr (Currency normalized) else Inl ValueError)"

definition decimal_places :: "currency \<Rightarrow> nat" where
  "decimal_places c = get_decimal_places (cur_code c)"

definition rounding_tolerance :: "currency \<Rightarrow> decimal" where
  "rounding_tolerance c = get_rounding_tolerance (cur_code c)"

definition currency_name :: "currency \<Rightarrow> string" where
  "currency_name c = (case get_info (cur_code c) of Some i \<Rightarrow> ci_name i | None \<Rightarrow> cur_code c)"

definition wf_currency :: "currency \<Rightarrow> bool" where
  "wf_currency c \<longleftrightarrow> map_of currencies (cur_code c) \<noteq> None"

section \<open>Money\<close>

record money =
  amount :: decimal
  currency :: currency

definition money_of :: "decimal \<Rightarrow> string \<Rightarrow> py_exc + money" where
  "money_of a s = rmap (\<lambda>c. \<lparr>amount = a, currency = c\<rparr>) (mk_currency s)"

definition money_zero :: "currency \<Rightarrow> money" where
  "money_zero c = \<lparr>amount = 0, currency = c\<rparr>"

definition money_is_zero :: "money \<Rightarrow> bool" where
  "money_is_zero m \<longleftrightarrow> amount m = 0"

definition money_is_positive :: "money \<Rightarrow> bool" where
  "money_is_positive m \<longleftrightarrow> 0 < amount m"

definition money_is_negative :: "money \<Rightarrow> bool" where
  "money_is_negative m \<longleftrightarrow> amount m < 0"

definition money_round :: "rounding \<Rightarrow> money \<Rightarrow> py_exc + money" where
  "money_round mode m =
     rmap (\<lambda>a. m\<lparr>amount := a\<rparr>) (dquantize mode (decimal_places (currency m)) (amount m))"

definition money_add :: "money \<Rightarrow> money \<Rightarrow> py_exc + money" where
  "money_add m n =
     (if currency m \<noteq> currency n then Inl ValueError
      else Inr \<lparr>amount = dadd (amount m) (amount n), currency = currency m\<rparr>)"

definition money_sub :: "money \<Rightarrow> money \<Rightarrow> py_exc + money" where
  "money_sub m n =
     (if currency m \<noteq> currency n then Inl ValueError
      else Inr \<lparr>amount = dsub (amount m) (amount n), currency = currency m\<rparr>)"

definition money_neg :: "money \<Rightarrow> money" where
  "money_neg m = m\<lparr>amount := dneg (amount m)\<rparr>"

definition money_abs :: "money \<Rightarrow> money" where
  "money_abs m = m\<lparr>amount := dabs (amount m)\<rparr>"

definition money_mul :: "money \<Rightarrow> decimal \<Rightarrow> money" where
  "money_mul m f = m\<lparr>amount := dmul (amount m) f\<rparr>"

definition money_truediv :: "money \<Rightarrow> decimal \<Rightarrow> py_exc + money" where
  "money_truediv m d = rmap (\<lambda>a. m\<lparr>amount := a\<rparr>) (ddiv (amount m) d)"

definition money_lt :: "money \<Rightarrow> money \<Rightarrow> py_exc + bool" where
  "money_lt m n = (if currency m \<noteq> currency n then Inl ValueError else Inr (amount m < amount n))"

definition money_le :: "money \<Rightarrow> money \<Rightarrow> py_exc + bool" where
  "money_le m n = (if currency m \<noteq> currency n then Inl ValueError else Inr (amount m \<le> amount n))"

definition money_gt :: "money \<Rightarrow> money \<Rightarrow> py_exc + bool" where
  "money_gt m n = (if currency m \<noteq> currency n then Inl ValueError else Inr (amount m > amount n))"

definition money_ge :: "money \<Rightarrow> money \<Rightarrow> py_exc + bool" where
  "money_ge m n = (if currency m \<noteq> currency n then Inl ValueError else Inr (amount m \<ge> amount n))"

section \<open>Quantity\<close>

record quantity =
  q_value :: decimal
  q_unit :: string

definition mk_quantity :: "decimal \<Rightarrow> string \<Rightarrow> py_exc + quantity" where
  "mk_quantity v u =
     (if u = [] \<or> strip u = [] then Inl ValueError else Inr \<lparr>q_value = v, q_unit = strip u\<rparr>)"

definition quantity_zero :: "string \<Rightarrow> py_exc + quantity" where
  "quantity_zero u = mk_quantity 0 u"

definition quantity_is_zero :: "quantity \<Rightarrow> bool" where
  "quantity_is_zero q \<longleftrightarrow> q_value q = 0"

definition quantity_is_positive :: "quantity \<Rightarrow> bool" where
  "quantity_is_positive q \<longleftrightarrow> 0 < q_value q"

definition quantity_is_negative :: "quantity \<Rightarrow> bool" where
  "quantity_is_negative q \<longleftrightarrow> q_value q < 0"

definition quantity_add :: "quantity \<Rightarrow> quantity \<Rightarrow> py_exc + quantity" where
  "quantity_add p q =
     (if q_unit p \<noteq> q_unit q then Inl ValueError else mk_quantity (dadd (q_value p) (q_value q)) (q_unit p))"

definition quantity_sub :: "quantity \<Rightarrow> quantity \<Rightarrow> py_exc + quantity" where
  "quantity_sub p q =
     (if q_unit p \<noteq> q_unit q then Inl ValueError else mk_quantity (dsub (q_value p) (q_value q)) (q_unit p))"

definition quantity_neg :: "quantity \<Rightarrow> py_exc + quantity" where
  "quantity_neg q = mk_quantity (dneg (q_value q)) (q_unit q)"

definition quantity_abs :: "quantity \<Rightarrow> py_exc + quantity" where
  "quantity_abs q = mk_quantity (dabs (q_value q)) (q_unit q)"

definition quantity_mul :: "quantity \<Rightarrow> decimal \<Rightarrow> py_exc + quantity" where
  "quantity_mul q f = mk_quantity (dmul (q_value q) f) (q_unit q)"

definition quantity_truediv :: "quantity \<Rightarrow> decimal \<Rightarrow> py_exc + quantity" where
  "quantity_truediv q d = rbind (ddiv (q_value q) d) (\<lambda>v. mk_quantity v (q_unit q))"

definition quantity_lt :: "quantity \<Rightarrow> quantity \<Rightarrow> py_exc + bool" where
  "quantity_lt p q = (if q_unit p \<noteq> q_unit q then Inl ValueError else Inr (q_value p < q_value q))"

definition quantity_le :: "quantity \<Rightarrow> quantity \<Rightarrow> py_exc + bool" where
  "quantity_le p q = (if q_unit p \<noteq> q_unit q then Inl ValueError else Inr (q_value p \<le> q_value q))"

definition quantity_gt :: "quantity \<Rightarrow> quantity \<Rightarrow> py_exc + bool" where
  "quantity_gt p q = (if q_unit p \<noteq> q_unit q then Inl ValueError else Inr (q_value p > q_value q))"

definition quantity_ge :: "quantity \<Rightarrow> quantity \<Rightarrow> py_exc + bool" where
  "quantity_ge p q = (if q_unit p \<noteq> q_unit q then Inl ValueError else Inr (q_value p \<ge> q_value q))"

definition wf_quantity :: "quantity \<Rightarrow> bool" where
  "wf_quantity q \<longleftrightarrow> q_unit q \<noteq> [] \<and> strip (q_unit q) = q_unit q"

section \<open>ExchangeRate\<close>

record exchange_rate =
  from_currency :: currency
  to_currency :: currency
  rate :: decimal

definition mk_exchange_rate :: "currency \<Rightarrow> currency \<Rightarrow> decimal \<Rightarrow> py_exc + exchange_rate" where
  "mk_exchange_rate f t r =
     (if r \<le> 0 then Inl ValueError else Inr \<lparr>from_currency = f, to_currency = t, rate = r\<rparr>)"

definition exchange_rate_of :: "string \<Rightarrow> string \<Rightarrow> decimal \<Rightarrow> py_exc + exchange_rate" where
  "exchange_rate_of f t r =
     rbind (mk_currency f) (\<lambda>cf. rbind (mk_currency t) (\<lambda>ct. mk_exchange_rate cf ct r))"

definition convert :: "exchange_rate \<Rightarrow> money \<Rightarrow> py_exc + money" where
  "convert x m =
     (if currency m \<noteq> from_currency x then Inl ValueError
      else Inr \<lparr>amount = dmul (amount m) (rate x), currency = to_currency x\<rparr>)"

definition inverse_rate :: "exchange_rate \<Rightarrow> py_exc + exchange_rate" where
  "inverse_rate x =
     rbind (ddiv 1 (rate x)) (mk_exchange_rate (to_currency x) (from_currency x))"

definition rate_pair :: "exchange_rate \<Rightarrow> string \<times> string" where
  "rate_pair x = (cur_code (from_currency x), cur_code (to_currency x))"

definition wf_rate :: "exchange_rate \<Rightarrow> bool" where
  "wf_rate x \<longleftrightarrow> wf_currency (from_currency x) \<and> wf_currency (to_currency x) \<and> 0 < rate x"

lemmas money_defs [value_simps] = money_of_def money_zero_def money_is_zero_def money_is_positive_def
  money_is_negative_def money_add_def money_sub_def money_lt_def money_le_def money_gt_def money_ge_def

section \<open>Amounts that carry a tag\<close>

text \<open>
  The contract of \<open>Money\<close> (tag: the currency) and \<open>Quantity\<close> (tag: the unit): adding,
  subtracting and comparing are defined exactly on equal tags and keep the tag.
\<close>

locale tagged_value =
  fixes wf :: "'m \<Rightarrow> bool"
    and val :: "'m \<Rightarrow> decimal"
    and tag :: "'m \<Rightarrow> 't"
    and plus :: "'m \<Rightarrow> 'm \<Rightarrow> py_exc + 'm"
    and minus :: "'m \<Rightarrow> 'm \<Rightarrow> py_exc + 'm"
    and less :: "'m \<Rightarrow> 'm \<Rightarrow> py_exc + bool"
  assumes ext: "val a = val b \<Longrightarrow> tag a = tag b \<Longrightarrow> a = b"
    and plus_same: "wf a \<Longrightarrow> tag a = tag b \<Longrightarrow>
      \<exists>c. plus a b = Inr c \<and> wf c \<and> val c = dadd (val a) (val b) \<and> tag c = tag a"
    and plus_other: "tag a \<noteq> tag b \<Longrightarrow> plus a b = Inl ValueError"
    and minus_same: "wf a \<Longrightarrow> tag a = tag b \<Longrightarrow>
      \<exists>c. minus a b = Inr c \<and> wf c \<and> val c = dsub (val a) (val b) \<and> tag c = tag a"
    and minus_other: "tag a \<noteq> tag b \<Longrightarrow> minus a b = Inl ValueError"
    and less_same: "tag a = tag b \<Longrightarrow> less a b = Inr (val a < val b)"
    and less_other: "tag a \<noteq> tag b \<Longrightarrow> less a b = Inl ValueError"
begin

lemma plus_commute:
  assumes "wf a" "wf b"
  shows "plus a b = plus b a"
proof (cases "tag a = tag b")
  case True
  obtain c where c: "plus a b = Inr c" "val c = dadd (val a) (val b)" "tag c = tag a"
    using plus_same [OF assms(1) True] by blast
  obtain d where d: "plus b a = Inr d" "val d = dadd (val b) (val a)" "tag d = tag b"
    using plus_same [OF assms(2) True [symmetric]] by blast
  have "c = d" by (rule ext) (simp_all add: c d True dadd_def add.commute)
  then show ?thesis using c d by simp
qed (metis plus_other)

lemma plus_Inr_iff:
  assumes "wf a"
  shows "plus a b = Inr c \<longleftrightarrow> tag a = tag b \<and> val c = dadd (val a) (val b) \<and> tag c = tag a"
proof (cases "tag a = tag b")
  case True
  then show ?thesis using plus_same [OF assms True] ext by force
qed (simp add: plus_other)

lemma minus_plus_exact:
  assumes "wf a" "tag a = tag b" "exact_terms k [val a, val b]"
  shows "rbind (minus a b) (\<lambda>d. plus d b) = Inr a"
proof -
  obtain d where d: "minus a b = Inr d" "wf d" "val d = dsub (val a) (val b)" "tag d = tag a"
    using minus_same [OF assms(1,2)] by blast
  have ga: "on_grid k (val a)" and gb: "on_grid k (val b)"
    and bound: "(\<bar>val a\<bar> + \<bar>val b\<bar>) * 10 ^ k < 10 ^ 28"
    using assms(3) by (simp_all add: exact_terms_def)
  have diff: "dfix (val a - val b) = val a - val b"
  proof (rule dfix_grid)
    show "\<bar>val a - val b\<bar> * 10 ^ k < 10 ^ 28"
      by (rule le_less_trans [OF mult_right_mono [OF abs_triangle_ineq4] bound]) simp
  qed (simp add: ga gb)
  have "dfix (val a) = val a"
    by (rule dfix_grid [OF ga], rule le_less_trans [OF mult_right_mono bound]) simp_all
  then have "plus d b = Inr a"
    using d diff assms(2) by (simp add: plus_Inr_iff dsub_def dadd_def)
  then show ?thesis by (simp add: d)
qed

lemma less_trichotomy:
  assumes "tag a = tag b"
  shows "less a b = Inr True \<or> a = b \<or> less b a = Inr True"
  using assms ext [of a b] less_same [of a b] less_same [of b a] by fastforce

end

lemma mk_quantity_unit: "wf_quantity q \<Longrightarrow> mk_quantity v (q_unit q) = Inr \<lparr>q_value = v, q_unit = q_unit q\<rparr>"
  by (simp add: mk_quantity_def wf_quantity_def)

interpretation money_tag: tagged_value "\<lambda>_. True" amount currency money_add money_sub money_lt
  by unfold_locales (auto simp: value_simps)

interpretation quantity_tag: tagged_value wf_quantity q_value q_unit quantity_add quantity_sub quantity_lt
  by unfold_locales
    (auto simp: quantity_add_def quantity_sub_def quantity_lt_def mk_quantity_unit wf_quantity_def
      mk_quantity_def)

section \<open>Well-formed values\<close>

lemma mk_currency_eq:
  "mk_currency s = (if is_valid s then Inr (Currency (strip (upper s))) else Inl ValueError)"
proof (cases "s = []")
  case True
  then show ?thesis by (simp add: mk_currency_def is_valid_def)
next
  case False
  have "is_valid (strip (upper s)) \<longleftrightarrow> is_valid s"
    using is_valid_normalized by (auto simp: is_valid_iff strip_upper)
  then show ?thesis using False by (simp add: mk_currency_def)
qed

lemma wf_mk_currency: "mk_currency s = Inr c \<Longrightarrow> wf_currency c"
  by (auto simp: mk_currency_eq wf_currency_def is_valid_iff split: if_splits)

lemma mk_currency_wf_code:
  assumes "wf_currency c"
  shows "mk_currency (cur_code c) = Inr c"
proof -
  obtain i where i: "map_of currencies (cur_code c) = Some i"
    using assms by (auto simp: wf_currency_def)
  then have "strip (upper (cur_code c)) = cur_code c" by (rule registry_row)
  then show ?thesis using i by (simp add: mk_currency_eq is_valid_iff)
qed

lemma money_of_wf_code: "wf_currency c \<Longrightarrow> money_of a (cur_code c) = Inr \<lparr>amount = a, currency = c\<rparr>"
  by (simp add: money_of_def mk_currency_wf_code)

lemma wf_money_ops:
  "wf_currency (currency m) \<Longrightarrow> money_add m n = Inr s \<Longrightarrow> wf_currency (currency s)"
  "wf_currency (currency m) \<Longrightarrow> money_sub m n = Inr s \<Longrightarrow> wf_currency (currency s)"
  "wf_rate x \<Longrightarrow> convert x m = Inr s \<Longrightarrow> wf_currency (currency s)"
  by (auto simp: value_simps convert_def wf_rate_def split: if_splits)

lemma wf_exchange_rate_of: "exchange_rate_of f t r = Inr x \<Longrightarrow> wf_rate x"
  by (auto simp: exchange_rate_of_def mk_exchange_rate_def wf_rate_def result_iffs
      dest: wf_mk_currency split: if_splits)

lemma inverse_rate_ok:
  assumes "wf_rate x"
  shows "inverse_rate x = Inr \<lparr>from_currency = to_currency x, to_currency = from_currency x,
    rate = dfix (1 / rate x)\<rparr>"
proof -
  have "0 < rate x" using assms by (simp add: wf_rate_def)
  then have "0 < dfix (1 / rate x)" by simp
  then show ?thesis using \<open>0 < rate x\<close> by (simp add: inverse_rate_def ddiv_def mk_exchange_rate_def not_le)
qed

end
