(* ===== verification/Dtos.thy ===== *)
theory Dtos
  imports Values
begin

text \<open>
  \<open>finance_kernel/domain/dtos.py\<close>: the immutable objects of the posting pipeline. A
  \<open>dict\<close> is an association list, a \<open>frozenset\<close> a list in its iteration order, which
  Python leaves open: every theorem holds for every such order. Dates and timestamps are integers
  (ordinals), payloads are JSON values. Human-readable messages and the \<open>details\<close> dictionary
  of a validation error are not modelled, its code and field path are.
\<close>

datatype json =
    JNull | JBool bool | JInt int | JStr string
  | JList "json list" | JDict "(string \<times> json) list"

type_synonym dimension_map = "(string \<times> string) list option"

section \<open>Lines\<close>

datatype line_side = DEBIT | CREDIT

datatype entry_status = DRAFT | POSTED | REVERSED

record line_spec =
  ls_account_code :: string
  ls_side :: line_side
  ls_money :: money
  ls_dimensions :: dimension_map
  ls_memo :: "string option"
  ls_is_rounding :: bool

definition ls_amount :: "line_spec \<Rightarrow> decimal" where
  "ls_amount l = amount (ls_money l)"

definition ls_currency :: "line_spec \<Rightarrow> string" where
  "ls_currency l = cur_code (currency (ls_money l))"

definition mk_line_spec :: "line_spec \<Rightarrow> py_exc + line_spec" where
  "mk_line_spec l = (if amount (ls_money l) < 0 then Inl ValueError else Inr l)"

definition line_spec_create ::
    "string \<Rightarrow> line_side \<Rightarrow> decimal \<Rightarrow> string \<Rightarrow> dimension_map \<Rightarrow> string option \<Rightarrow> bool
     \<Rightarrow> py_exc + line_spec" where
  "line_spec_create acc side amt cur dims memo rounding =
     rbind (money_of amt cur) (\<lambda>m. mk_line_spec
       \<lparr>ls_account_code = acc, ls_side = side, ls_money = m, ls_dimensions = dims,
        ls_memo = memo, ls_is_rounding = rounding\<rparr>)"

record proposed_line =
  pl_account_id :: uuid
  pl_account_code :: string
  pl_side :: line_side
  pl_money :: money
  pl_dimensions :: dimension_map
  pl_memo :: "string option"
  pl_is_rounding :: bool
  pl_exchange_rate_id :: "uuid option"
  pl_line_seq :: nat

definition pl_amount :: "proposed_line \<Rightarrow> decimal" where
  "pl_amount l = amount (pl_money l)"

definition pl_currency :: "proposed_line \<Rightarrow> string" where
  "pl_currency l = cur_code (currency (pl_money l))"

section \<open>Events and validation results\<close>

record event_envelope =
  event_id :: uuid
  event_type :: string
  occurred_at :: int
  effective_date :: int
  actor_id :: uuid
  producer :: string
  payload :: "(string \<times> json) list"
  payload_hash :: string
  schema_version :: int

definition envelope_idempotency_key :: "event_envelope \<Rightarrow> string" where
  "envelope_idempotency_key e = producer e @ '':'' @ event_type e @ '':'' @ uuid_str (event_id e)"

record validation_error =
  ve_code :: string
  ve_field :: "string option"

record validation_result =
  vr_is_valid :: bool
  vr_errors :: "validation_error list"

definition vr_success :: validation_result where
  "vr_success = \<lparr>vr_is_valid = True, vr_errors = []\<rparr>"

definition vr_failure :: "validation_error list \<Rightarrow> validation_result" where
  "vr_failure es = \<lparr>vr_is_valid = False, vr_errors = es\<rparr>"

section \<open>Proposed journal entries\<close>

record proposed_entry =
  pe_event_envelope :: event_envelope
  pe_lines :: "proposed_line list"
  pe_description :: "json option"
  pe_metadata :: "json option"
  pe_posting_rule_version :: int
  pe_rounding_rule_version :: int
  pe_coa_version :: int
  pe_dimension_schema_version :: int
  pe_rounding_policy_version :: int
  pe_currency_registry_version :: int

definition mk_proposed_entry :: "proposed_entry \<Rightarrow> py_exc + proposed_entry" where
  "mk_proposed_entry e = (if pe_lines e = [] then Inl ValueError else Inr e)"

definition pe_idempotency_key :: "proposed_entry \<Rightarrow> string" where
  "pe_idempotency_key e = envelope_idempotency_key (pe_event_envelope e)"

definition pe_currencies :: "proposed_entry \<Rightarrow> string set" where
  "pe_currencies e = pl_currency ` set (pe_lines e)"

definition side_amounts :: "line_side \<Rightarrow> string option \<Rightarrow> proposed_line list \<Rightarrow> decimal list" where
  "side_amounts s cur ls =
     map pl_amount (filter (\<lambda>l. pl_side l = s \<and> (cur = None \<or> cur = Some (pl_currency l))) ls)"

definition pe_total_debits :: "proposed_entry \<Rightarrow> string option \<Rightarrow> decimal" where
  "pe_total_debits e cur = dsum (side_amounts DEBIT cur (pe_lines e))"

definition pe_total_credits :: "proposed_entry \<Rightarrow> string option \<Rightarrow> decimal" where
  "pe_total_credits e cur = dsum (side_amounts CREDIT cur (pe_lines e))"

text \<open>\<open>if currency:\<close> is false for \<open>None\<close> and for the empty string.\<close>

definition pe_is_balanced :: "proposed_entry \<Rightarrow> string option \<Rightarrow> bool" where
  "pe_is_balanced e cur =
     (case cur of
        Some (c # cs) \<Rightarrow> pe_total_debits e cur = pe_total_credits e cur
      | _ \<Rightarrow> \<forall>c \<in> pe_currencies e. pe_total_debits e (Some c) = pe_total_credits e (Some c))"

definition pe_imbalance :: "proposed_entry \<Rightarrow> string \<Rightarrow> decimal" where
  "pe_imbalance e cur = dsub (pe_total_debits e (Some cur)) (pe_total_credits e (Some cur))"

section \<open>Reference data\<close>

record reference_data =
  rd_account_ids_by_code :: "(string \<times> uuid) list"
  rd_active_account_codes :: "string list"
  rd_valid_currencies :: "currency list"
  rd_rounding_account_ids :: "(string \<times> uuid) list"
  rd_exchange_rates :: "exchange_rate list option"
  rd_required_dimensions :: "string list"
  rd_active_dimensions :: "string list"
  rd_active_dimension_values :: "(string \<times> string list) list"
  rd_coa_version :: int
  rd_dimension_schema_version :: int
  rd_rounding_policy_version :: int
  rd_currency_registry_version :: int

definition get_account_id :: "reference_data \<Rightarrow> string \<Rightarrow> uuid option" where
  "get_account_id rd code = map_of (rd_account_ids_by_code rd) code"

definition is_account_active :: "reference_data \<Rightarrow> string \<Rightarrow> bool" where
  "is_account_active rd code \<longleftrightarrow> code \<in> set (rd_active_account_codes rd)"

definition rd_is_valid_currency :: "reference_data \<Rightarrow> string \<Rightarrow> bool" where
  "rd_is_valid_currency rd cur \<longleftrightarrow> (\<exists>c \<in> set (rd_valid_currencies rd). cur_code c = upper cur)"

definition get_currency :: "reference_data \<Rightarrow> string \<Rightarrow> currency option" where
  "get_currency rd code = find (\<lambda>c. cur_code c = upper code) (rd_valid_currencies rd)"

definition rd_get_decimal_places :: "reference_data \<Rightarrow> string \<Rightarrow> nat" where
  "rd_get_decimal_places rd cur =
     (case get_currency rd cur of Some c \<Rightarrow> decimal_places c | None \<Rightarrow> 2)"

definition get_rounding_account_id :: "reference_data \<Rightarrow> string \<Rightarrow> uuid option" where
  "get_rounding_account_id rd cur = map_of (rd_rounding_account_ids rd) (upper cur)"

definition get_exchange_rate :: "reference_data \<Rightarrow> string \<Rightarrow> string \<Rightarrow> exchange_rate option" where
  "get_exchange_rate rd f t =
     (case rd_exchange_rates rd of
        None \<Rightarrow> None
      | Some rs \<Rightarrow> find (\<lambda>r. cur_code (from_currency r) = upper f \<and> cur_code (to_currency r) = upper t) rs)"

definition is_dimension_active :: "reference_data \<Rightarrow> string \<Rightarrow> bool" where
  "is_dimension_active rd d \<longleftrightarrow> d \<in> set (rd_active_dimensions rd)"

definition is_dimension_value_active :: "reference_data \<Rightarrow> string \<Rightarrow> string \<Rightarrow> bool" where
  "is_dimension_value_active rd d v \<longleftrightarrow>
     (case map_of (rd_active_dimension_values rd) d of None \<Rightarrow> False | Some vs \<Rightarrow> v \<in> set vs)"

datatype dimension_error = DimensionInactive string | DimensionValueInvalid string string

definition rd_validate_dimensions :: "reference_data \<Rightarrow> dimension_map \<Rightarrow> dimension_error list" where
  "rd_validate_dimensions rd dims =
     (case dims of
        None \<Rightarrow> []
      | Some ds \<Rightarrow> concat (map (\<lambda>(d, v).
          if \<not> is_dimension_active rd d then [DimensionInactive d]
          else if \<not> is_dimension_value_active rd d v then [DimensionValueInvalid v d]
          else []) ds))"

lemmas dto_defs [value_simps] = ls_amount_def ls_currency_def pl_amount_def pl_currency_def
  vr_success_def vr_failure_def

section \<open>Totals by side\<close>

lemma side_amounts_append [simp]:
  "side_amounts s cur (xs @ ys) = side_amounts s cur xs @ side_amounts s cur ys"
  by (simp add: side_amounts_def)

lemma side_amounts_Nil [simp]: "side_amounts s cur [] = []"
  by (simp add: side_amounts_def)

lemma side_amounts_single:
  "side_amounts s (Some c) [l] = (if pl_side l = s \<and> pl_currency l = c then [pl_amount l] else [])"
  by (simp add: side_amounts_def)

lemma exact_side_amounts:
  assumes "exact_terms k (map pl_amount ls)"
  shows "exact_terms k (side_amounts s cur ls)"
proof (rule exact_terms_le [OF assms])
  show "list_all (on_grid k) (side_amounts s cur ls)"
    using assms by (auto simp: exact_terms_def side_amounts_def list_all_iff)
  show "sum_list (map abs (side_amounts s cur ls)) \<le> sum_list (map abs (map pl_amount ls))"
    unfolding side_amounts_def by (induction ls) (auto intro: order_trans)
qed

text \<open>The two sides of one currency together are part of the whole entry.\<close>

lemma exact_both_sides:
  assumes "exact_terms k (map pl_amount ls)"
  shows "exact_terms k (side_amounts DEBIT (Some c) ls @ side_amounts CREDIT (Some c) ls)"
proof (rule exact_terms_le [OF assms])
  show "list_all (on_grid k) (side_amounts DEBIT (Some c) ls @ side_amounts CREDIT (Some c) ls)"
    using assms by (auto simp: exact_terms_def side_amounts_def list_all_iff)
  show "sum_list (map abs (side_amounts DEBIT (Some c) ls @ side_amounts CREDIT (Some c) ls))
      \<le> sum_list (map abs (map pl_amount ls))"
    unfolding side_amounts_def by (induction ls) (auto intro: order_trans)
qed

lemma pe_is_balanced_None:
  "pe_is_balanced e None \<longleftrightarrow> (\<forall>c \<in> pe_currencies e. pe_total_debits e (Some c) = pe_total_credits e (Some c))"
  by (simp add: pe_is_balanced_def)

end
