(* ===== verification/Outcome_Recorder.thy ===== *)
theory Outcome_Recorder
  imports Dtos
begin

text \<open>
  \<open>finance_kernel/services/outcome_recorder.py\<close> and \<open>models/interpretation_outcome.py\<close>: the one
  outcome each business event gets (P15) and its lifecycle, a state machine over eight statuses. The
  table is a list of rows with a unique source event; \<open>one\<close> is SQLAlchemy's
  \<open>scalar_one_or_none\<close> and \<open>now\<close> the clock's reading. An operation that raises leaves the table
  as it was. The five transitions share one contract, the locale \<open>outcome_transition\<close>; its lemmas
  say what a transition can and cannot change, and are used for all of them.
\<close>

section \<open>Outcomes\<close>

datatype failure_type = GUARD | ENGINE | RECONCILIATION | SNAPSHOT | AUTHORITY | CONTRACT | SYSTEM

fun failure_value :: "failure_type \<Rightarrow> string" where
  "failure_value GUARD = ''guard''"
| "failure_value ENGINE = ''engine''"
| "failure_value RECONCILIATION = ''reconciliation''"
| "failure_value SNAPSHOT = ''snapshot''"
| "failure_value AUTHORITY = ''authority''"
| "failure_value CONTRACT = ''contract''"
| "failure_value SYSTEM = ''system''"

text \<open>The failure type argument is an enum member or a plain text.\<close>

datatype failure_arg = FailureEnum failure_type | FailureText string

fun ft_value :: "failure_arg \<Rightarrow> string" where
  "ft_value (FailureEnum t) = failure_value t"
| "ft_value (FailureText s) = s"

datatype outcome_status =
    OUT_POSTED | OUT_BLOCKED | OUT_REJECTED | OUT_PROVISIONAL
  | OUT_NON_POSTING | OUT_FAILED | OUT_RETRYING | OUT_ABANDONED

fun status_value :: "outcome_status \<Rightarrow> string" where
  "status_value OUT_POSTED = ''posted''"
| "status_value OUT_BLOCKED = ''blocked''"
| "status_value OUT_REJECTED = ''rejected''"
| "status_value OUT_PROVISIONAL = ''provisional''"
| "status_value OUT_NON_POSTING = ''non_posting''"
| "status_value OUT_FAILED = ''failed''"
| "status_value OUT_RETRYING = ''retrying''"
| "status_value OUT_ABANDONED = ''abandoned''"

fun valid_transitions :: "outcome_status \<Rightarrow> outcome_status list" where
  "valid_transitions OUT_BLOCKED = [OUT_POSTED, OUT_REJECTED, OUT_FAILED]"
| "valid_transitions OUT_PROVISIONAL = [OUT_POSTED, OUT_REJECTED]"
| "valid_transitions OUT_FAILED = [OUT_RETRYING, OUT_ABANDONED]"
| "valid_transitions OUT_RETRYING = [OUT_POSTED, OUT_FAILED]"
| "valid_transitions OUT_POSTED = []"
| "valid_transitions OUT_REJECTED = []"
| "valid_transitions OUT_NON_POSTING = []"
| "valid_transitions OUT_ABANDONED = []"

type_synonym dict = "(string \<times> json) list"

record interpretation_outcome =
  io_source_event_id :: uuid
  io_status :: outcome_status
  io_econ_event_id :: "uuid option"
  io_journal_entry_ids :: "string list option"
  io_reason_code :: "string option"
  io_reason_detail :: "dict option"
  io_profile_id :: string
  io_profile_version :: int
  io_profile_hash :: "string option"
  io_trace_id :: "uuid option"
  io_decision_log :: "dict list option"
  io_failure_type :: "string option"
  io_failure_message :: "string option"
  io_engine_traces_ref :: "uuid option"
  io_payload_fingerprint :: "string option"
  io_actor_id :: "uuid option"
  io_retry_count :: nat
  io_created_at :: int
  io_updated_at :: "int option"

definition is_terminal :: "interpretation_outcome \<Rightarrow> bool" where
  "is_terminal r \<longleftrightarrow> io_status r \<in> {OUT_POSTED, OUT_REJECTED, OUT_NON_POSTING, OUT_ABANDONED}"

definition can_transition :: "interpretation_outcome \<Rightarrow> bool" where
  "can_transition r \<longleftrightarrow> length (valid_transitions (io_status r)) > 0"

definition is_retriable :: "interpretation_outcome \<Rightarrow> bool" where
  "is_retriable r \<longleftrightarrow> io_status r = OUT_FAILED"

definition validate_transition :: "interpretation_outcome \<Rightarrow> outcome_status \<Rightarrow> py_exc + unit" where
  "validate_transition r target =
     (if target \<notin> set (valid_transitions (io_status r)) then Inl ValueError else Inr ())"

datatype outcome_exc =
    OutcomePy py_exc
  | OutcomeAlreadyExistsError uuid outcome_status
  | InvalidOutcomeTransitionError uuid outcome_status outcome_status

type_synonym outcomes = "interpretation_outcome list"
type_synonym one_outcome = "outcomes \<Rightarrow> py_exc + interpretation_outcome option"
type_synonym outcome_result = "outcome_exc + interpretation_outcome \<times> outcomes"

section \<open>Queries\<close>

definition get_outcome :: "one_outcome \<Rightarrow> uuid \<Rightarrow> outcomes \<Rightarrow> outcome_exc + interpretation_outcome option" where
  "get_outcome one ev db = map_sum OutcomePy id (one (filter (\<lambda>r. io_source_event_id r = ev) db))"

definition query_failed ::
    "failure_arg option \<Rightarrow> string option \<Rightarrow> uuid option \<Rightarrow> nat \<Rightarrow> outcomes \<Rightarrow> outcomes" where
  "query_failed failure_type profile_id actor limit db =
     take limit (sort_key io_created_at (filter (\<lambda>r.
       io_status r = OUT_FAILED
       \<and> (case failure_type of None \<Rightarrow> True | Some t \<Rightarrow> io_failure_type r = Some (ft_value t))
       \<and> (case profile_id of None \<Rightarrow> True | Some p \<Rightarrow> io_profile_id r = p)
       \<and> (case actor of None \<Rightarrow> True | Some a \<Rightarrow> io_actor_id r = Some a)) db))"

definition query_actionable :: "nat \<Rightarrow> outcomes \<Rightarrow> outcomes" where
  "query_actionable limit db =
     take limit (sort_key io_created_at (filter (\<lambda>r. io_status r \<in> {OUT_FAILED, OUT_BLOCKED}) db))"

definition check_not_exists :: "one_outcome \<Rightarrow> uuid \<Rightarrow> outcomes \<Rightarrow> outcome_exc + unit" where
  "check_not_exists one ev db =
     rbind (get_outcome one ev db) (\<lambda>r.
       case r of None \<Rightarrow> Inr () | Some r \<Rightarrow> Inl (OutcomeAlreadyExistsError ev (io_status r)))"

definition get_existing :: "one_outcome \<Rightarrow> uuid \<Rightarrow> outcomes \<Rightarrow> outcome_exc + interpretation_outcome" where
  "get_existing one ev db =
     rbind (get_outcome one ev db) (\<lambda>r.
       case r of None \<Rightarrow> Inl (OutcomePy ValueError) | Some r \<Rightarrow> Inr r)"

section \<open>Recording\<close>

text \<open>The UNIQUE constraint on the source event.\<close>

definition insert_outcome :: "interpretation_outcome \<Rightarrow> outcomes \<Rightarrow> py_exc + outcomes" where
  "insert_outcome r db =
     (if list_ex (\<lambda>q. io_source_event_id q = io_source_event_id r) db then Inl IntegrityError else Inr (db @ [r]))"

definition add_outcome :: "interpretation_outcome \<Rightarrow> outcomes \<Rightarrow> outcome_result" where
  "add_outcome r db = rmap (Pair r) (map_sum OutcomePy id (insert_outcome r db))"

text \<open>The columns every recording sets from the same arguments; the others start empty.\<close>

record outcome_context =
  oc_profile_id :: string
  oc_profile_version :: int
  oc_profile_hash :: "string option"
  oc_trace_id :: "uuid option"
  oc_decision_log :: "dict list option"

definition new_outcome :: "int \<Rightarrow> uuid \<Rightarrow> outcome_status \<Rightarrow> outcome_context \<Rightarrow> interpretation_outcome" where
  "new_outcome now ev st c =
     \<lparr>io_source_event_id = ev, io_status = st, io_econ_event_id = None, io_journal_entry_ids = None,
      io_reason_code = None, io_reason_detail = None, io_profile_id = oc_profile_id c,
      io_profile_version = oc_profile_version c, io_profile_hash = oc_profile_hash c, io_trace_id = oc_trace_id c,
      io_decision_log = oc_decision_log c, io_failure_type = None, io_failure_message = None,
      io_engine_traces_ref = None, io_payload_fingerprint = None, io_actor_id = None, io_retry_count = 0,
      io_created_at = now, io_updated_at = None\<rparr>"

definition record_posted ::
    "one_outcome \<Rightarrow> int \<Rightarrow> uuid \<Rightarrow> outcome_context \<Rightarrow> uuid \<Rightarrow> uuid list \<Rightarrow> outcomes \<Rightarrow> outcome_result" where
  "record_posted one now ev c econ_event_id journal_entry_ids db =
     rbind (check_not_exists one ev db) (\<lambda>_.
       if \<not> length journal_entry_ids > 0 then Inl (OutcomePy AssertionError)
       else add_outcome ((new_outcome now ev OUT_POSTED c)
              \<lparr>io_econ_event_id := Some econ_event_id,
               io_journal_entry_ids := Some (map uuid_str journal_entry_ids)\<rparr>) db)"

definition record_rejected ::
    "one_outcome \<Rightarrow> int \<Rightarrow> uuid \<Rightarrow> outcome_context \<Rightarrow> string \<Rightarrow> dict option \<Rightarrow> outcomes \<Rightarrow> outcome_result" where
  "record_rejected one now ev c reason_code reason_detail db =
     rbind (check_not_exists one ev db) (\<lambda>_.
       add_outcome ((new_outcome now ev OUT_REJECTED c)
         \<lparr>io_reason_code := Some reason_code, io_reason_detail := reason_detail\<rparr>) db)"

definition record_blocked ::
    "one_outcome \<Rightarrow> int \<Rightarrow> uuid \<Rightarrow> outcome_context \<Rightarrow> string \<Rightarrow> dict option \<Rightarrow> outcomes \<Rightarrow> outcome_result" where
  "record_blocked one now ev c reason_code reason_detail db =
     rbind (check_not_exists one ev db) (\<lambda>_.
       add_outcome ((new_outcome now ev OUT_BLOCKED c)
         \<lparr>io_reason_code := Some reason_code, io_reason_detail := reason_detail\<rparr>) db)"

definition record_provisional ::
    "one_outcome \<Rightarrow> int \<Rightarrow> uuid \<Rightarrow> outcome_context \<Rightarrow> uuid option \<Rightarrow> string option \<Rightarrow> dict option \<Rightarrow> outcomes
     \<Rightarrow> outcome_result" where
  "record_provisional one now ev c econ_event_id reason_code reason_detail db =
     rbind (check_not_exists one ev db) (\<lambda>_.
       add_outcome ((new_outcome now ev OUT_PROVISIONAL c)
         \<lparr>io_econ_event_id := econ_event_id, io_reason_code := reason_code, io_reason_detail := reason_detail\<rparr>) db)"

definition record_non_posting ::
    "one_outcome \<Rightarrow> int \<Rightarrow> uuid \<Rightarrow> outcome_context \<Rightarrow> string option \<Rightarrow> dict option \<Rightarrow> outcomes
     \<Rightarrow> outcome_result" where
  "record_non_posting one now ev c reason_code reason_detail db =
     rbind (check_not_exists one ev db) (\<lambda>_.
       add_outcome ((new_outcome now ev OUT_NON_POSTING c)
         \<lparr>io_reason_code := reason_code, io_reason_detail := reason_detail\<rparr>) db)"

record failure_report =
  fr_failure_type :: failure_arg
  fr_failure_message :: string
  fr_reason_code :: "string option"
  fr_reason_detail :: "dict option"
  fr_engine_traces_ref :: "uuid option"

definition record_failed ::
    "one_outcome \<Rightarrow> int \<Rightarrow> uuid \<Rightarrow> outcome_context \<Rightarrow> failure_report \<Rightarrow> string option \<Rightarrow> uuid option \<Rightarrow> outcomes
     \<Rightarrow> outcome_result" where
  "record_failed one now ev c fr payload_fingerprint actor db =
     rbind (check_not_exists one ev db) (\<lambda>_.
       add_outcome ((new_outcome now ev OUT_FAILED c)
         \<lparr>io_reason_code := fr_reason_code fr, io_reason_detail := fr_reason_detail fr,
          io_failure_type := Some (ft_value (fr_failure_type fr)),
          io_failure_message := Some (fr_failure_message fr), io_engine_traces_ref := fr_engine_traces_ref fr,
          io_payload_fingerprint := payload_fingerprint, io_actor_id := actor, io_retry_count := 0\<rparr>) db)"

section \<open>Transitions\<close>

definition update_outcome ::
    "uuid \<Rightarrow> (interpretation_outcome \<Rightarrow> interpretation_outcome) \<Rightarrow> outcomes \<Rightarrow> outcomes" where
  "update_outcome ev f db = map (\<lambda>r. if io_source_event_id r = ev then f r else r) db"

definition validate_and_transition ::
    "one_outcome \<Rightarrow> uuid \<Rightarrow> outcome_status \<Rightarrow> outcomes \<Rightarrow> outcome_exc + interpretation_outcome" where
  "validate_and_transition one ev target db =
     rbind (get_existing one ev db) (\<lambda>r.
       if target \<notin> set (valid_transitions (io_status r))
       then Inl (InvalidOutcomeTransitionError ev (io_status r) target) else Inr r)"

definition change_outcome ::
    "uuid \<Rightarrow> (interpretation_outcome \<Rightarrow> interpretation_outcome) \<Rightarrow> outcomes \<Rightarrow> interpretation_outcome
     \<Rightarrow> interpretation_outcome \<times> outcomes" where
  "change_outcome ev f db r = (f r, update_outcome ev f db)"

definition transition_to_posted ::
    "one_outcome \<Rightarrow> int \<Rightarrow> uuid \<Rightarrow> uuid \<Rightarrow> uuid list \<Rightarrow> outcomes \<Rightarrow> outcome_result" where
  "transition_to_posted one now ev econ_event_id journal_entry_ids db =
     rmap (change_outcome ev (\<lambda>r. r\<lparr>io_status := OUT_POSTED, io_econ_event_id := Some econ_event_id,
         io_journal_entry_ids := Some (map uuid_str journal_entry_ids), io_updated_at := Some now\<rparr>) db)
       (validate_and_transition one ev OUT_POSTED db)"

definition transition_to_rejected ::
    "one_outcome \<Rightarrow> int \<Rightarrow> uuid \<Rightarrow> string \<Rightarrow> dict option \<Rightarrow> outcomes \<Rightarrow> outcome_result" where
  "transition_to_rejected one now ev reason_code reason_detail db =
     rmap (change_outcome ev (\<lambda>r. r\<lparr>io_status := OUT_REJECTED, io_reason_code := Some reason_code,
         io_reason_detail := reason_detail, io_updated_at := Some now\<rparr>) db)
       (validate_and_transition one ev OUT_REJECTED db)"

definition transition_to_failed ::
    "one_outcome \<Rightarrow> int \<Rightarrow> uuid \<Rightarrow> failure_report \<Rightarrow> outcomes \<Rightarrow> outcome_result" where
  "transition_to_failed one now ev fr db =
     rmap (change_outcome ev (\<lambda>r. r\<lparr>io_status := OUT_FAILED,
         io_failure_type := Some (ft_value (fr_failure_type fr)),
         io_failure_message := Some (fr_failure_message fr), io_reason_code := fr_reason_code fr,
         io_reason_detail := fr_reason_detail fr, io_engine_traces_ref := fr_engine_traces_ref fr,
         io_updated_at := Some now\<rparr>) db)
       (validate_and_transition one ev OUT_FAILED db)"

definition transition_to_retrying :: "one_outcome \<Rightarrow> int \<Rightarrow> uuid \<Rightarrow> outcomes \<Rightarrow> outcome_result" where
  "transition_to_retrying one now ev db =
     rmap (change_outcome ev (\<lambda>r. r\<lparr>io_status := OUT_RETRYING, io_retry_count := io_retry_count r + 1,
         io_updated_at := Some now\<rparr>) db)
       (validate_and_transition one ev OUT_RETRYING db)"

text \<open>A reason that is empty leaves the stored one (\<open>if reason_code:\<close> tests for truth).\<close>

definition transition_to_abandoned ::
    "one_outcome \<Rightarrow> int \<Rightarrow> uuid \<Rightarrow> string option \<Rightarrow> dict option \<Rightarrow> outcomes \<Rightarrow> outcome_result" where
  "transition_to_abandoned one now ev reason_code reason_detail db =
     rmap (change_outcome ev (\<lambda>r. r\<lparr>io_status := OUT_ABANDONED,
         io_reason_code := (if reason_code \<in> {None, Some []} then io_reason_code r else reason_code),
         io_reason_detail := (if reason_detail \<in> {None, Some []} then io_reason_detail r else reason_detail),
         io_updated_at := Some now\<rparr>) db)
       (validate_and_transition one ev OUT_ABANDONED db)"

section \<open>Tables with one outcome per event\<close>

interpretation by_event: unique_table insert_outcome "\<lambda>db. db" io_source_event_id
  by unfold_locales (auto simp: insert_outcome_def list_ex_iff split: if_splits)

definition wf_outcomes :: "outcomes \<Rightarrow> bool" where
  "wf_outcomes db \<longleftrightarrow> distinct (map io_source_event_id db)"

definition find_outcome :: "uuid \<Rightarrow> outcomes \<Rightarrow> interpretation_outcome option" where
  "find_outcome ev db = find (\<lambda>r. io_source_event_id r = ev) db"

lemma find_outcome_Nil [simp]: "find_outcome ev [] = None"
  by (simp add: find_outcome_def)

lemma find_outcome_append [simp]:
  "find_outcome ev (db @ [r]) =
     (case find_outcome ev db of Some q \<Rightarrow> Some q | None \<Rightarrow> if io_source_event_id r = ev then Some r else None)"
  by (induction db) (auto simp: find_outcome_def)

lemma find_outcome_Some: "find_outcome ev db = Some r \<Longrightarrow> r \<in> set db \<and> io_source_event_id r = ev"
  by (auto simp: find_outcome_def find_Some_iff)

lemma find_outcome_None: "find_outcome ev db = None \<longleftrightarrow> ev \<notin> io_source_event_id ` set db"
  by (auto simp: find_outcome_def find_None_iff)

lemma filter_event:
  "wf_outcomes db \<Longrightarrow>
     filter (\<lambda>r. io_source_event_id r = ev) db = (case find_outcome ev db of None \<Rightarrow> [] | Some r \<Rightarrow> [r])"
  unfolding find_outcome_def wf_outcomes_def by (rule filter_unique_key)

lemma find_outcome_update:
  assumes "\<And>r. io_source_event_id (f r) = io_source_event_id r"
  shows "find_outcome e (update_outcome ev f db) = (if e = ev then map_option f (find_outcome e db) else find_outcome e db)"
  by (induction db) (auto simp: find_outcome_def update_outcome_def assms)

lemma wf_update:
  assumes "\<And>r. io_source_event_id (f r) = io_source_event_id r"
  shows "wf_outcomes (update_outcome ev f db) = wf_outcomes db"
proof -
  have "map io_source_event_id (update_outcome ev f db) = map io_source_event_id db"
    by (simp add: update_outcome_def assms comp_def)
  then show ?thesis by (simp only: wf_outcomes_def)
qed

text \<open>The services query by the source event, so on a well-formed table no query raises.\<close>

locale outcome_table = query_one one for one :: one_outcome
begin

lemma get_outcome_find: "wf_outcomes db \<Longrightarrow> get_outcome one ev db = Inr (find_outcome ev db)"
  by (simp add: get_outcome_def filter_event one_empty one_single split: option.split)

lemma validate_cases:
  assumes "wf_outcomes db"
  shows "validate_and_transition one ev target db =
     (case find_outcome ev db of
        None \<Rightarrow> Inl (OutcomePy ValueError)
      | Some r \<Rightarrow> if target \<in> set (valid_transitions (io_status r)) then Inr r
                  else Inl (InvalidOutcomeTransitionError ev (io_status r) target))"
  using assms by (simp add: validate_and_transition_def get_existing_def get_outcome_find split: option.split)

lemma check_not_exists_Inr: "wf_outcomes db \<Longrightarrow> check_not_exists one ev db = Inr () \<longleftrightarrow> find_outcome ev db = None"
  by (simp add: check_not_exists_def get_outcome_find split: option.split)

end

interpretation outcome_rows: outcome_table scalar_one_or_none
  by unfold_locales

text \<open>What recording fixes for good: the columns no transition touches.\<close>

definition fixed_columns where
  "fixed_columns r = (io_source_event_id r, io_profile_id r, io_profile_version r, io_profile_hash r, io_trace_id r,
     io_decision_log r, io_payload_fingerprint r, io_actor_id r, io_created_at r)"

text \<open>
  The contract of a transition: validation against the table of transitions, then one update of
  the row that sets the target status, keeps the fixed columns and counts the retries.
\<close>

locale outcome_transition =
  fixes op :: "outcomes \<Rightarrow> outcome_result"
    and one :: one_outcome and ev :: uuid and target :: outcome_status
    and f :: "interpretation_outcome \<Rightarrow> interpretation_outcome"
  assumes op_eq: "op db = rmap (change_outcome ev f db) (validate_and_transition one ev target db)"
    and status_f: "io_status (f r) = target"
    and fixed_f: "fixed_columns (f r) = fixed_columns r"
    and count_f: "io_retry_count (f r) = io_retry_count r + (if target = OUT_RETRYING then 1 else 0)"
begin

lemma key_f [simp]: "io_source_event_id (f r) = io_source_event_id r"
  using fixed_f [of r] by (simp add: fixed_columns_def)

lemma op_Inr:
  assumes "query_one one" "wf_outcomes db"
  shows "op db = Inr (r', db') \<longleftrightarrow>
     (\<exists>r. find_outcome ev db = Some r \<and> target \<in> set (valid_transitions (io_status r))
        \<and> r' = f r \<and> db' = update_outcome ev f db)"
proof -
  from assms(1) have "outcome_table one" by (simp add: outcome_table_def)
  from outcome_table.validate_cases [OF this assms(2)] show ?thesis
    by (auto simp: op_eq result_iffs change_outcome_def split: option.splits)
qed

lemma op_wf: "query_one one \<Longrightarrow> wf_outcomes db \<Longrightarrow> op db = Inr (r', db') \<Longrightarrow> wf_outcomes db'"
  using op_Inr wf_update by auto

lemma op_find:
  "query_one one \<Longrightarrow> wf_outcomes db \<Longrightarrow> op db = Inr (r', db') \<Longrightarrow>
     find_outcome e db' = (if e = ev then Some r' else find_outcome e db)"
  using op_Inr find_outcome_update [of f] by auto

lemma op_succeeds_iff:
  "query_one one \<Longrightarrow> wf_outcomes db \<Longrightarrow>
     (\<exists>y. op db = Inr y) \<longleftrightarrow> (\<exists>r. find_outcome ev db = Some r \<and> target \<in> set (valid_transitions (io_status r)))"
  using op_Inr by fastforce

end

lemmas transition_defs = transition_to_posted_def transition_to_rejected_def transition_to_failed_def
  transition_to_retrying_def transition_to_abandoned_def

interpretation to_posted: outcome_transition "transition_to_posted one now ev econ ids" one ev OUT_POSTED
  "\<lambda>r. r\<lparr>io_status := OUT_POSTED, io_econ_event_id := Some econ,
     io_journal_entry_ids := Some (map uuid_str ids), io_updated_at := Some now\<rparr>" for one now ev econ ids
  by unfold_locales (simp_all add: transition_defs fixed_columns_def)

interpretation to_rejected: outcome_transition "transition_to_rejected one now ev code detail" one ev OUT_REJECTED
  "\<lambda>r. r\<lparr>io_status := OUT_REJECTED, io_reason_code := Some code, io_reason_detail := detail,
     io_updated_at := Some now\<rparr>" for one now ev code detail
  by unfold_locales (simp_all add: transition_defs fixed_columns_def)

interpretation to_failed: outcome_transition "transition_to_failed one now ev fr" one ev OUT_FAILED
  "\<lambda>r. r\<lparr>io_status := OUT_FAILED, io_failure_type := Some (ft_value (fr_failure_type fr)),
     io_failure_message := Some (fr_failure_message fr), io_reason_code := fr_reason_code fr,
     io_reason_detail := fr_reason_detail fr, io_engine_traces_ref := fr_engine_traces_ref fr,
     io_updated_at := Some now\<rparr>" for one now ev fr
  by unfold_locales (simp_all add: transition_defs fixed_columns_def)

interpretation to_retrying: outcome_transition "transition_to_retrying one now ev" one ev OUT_RETRYING
  "\<lambda>r. r\<lparr>io_status := OUT_RETRYING, io_retry_count := io_retry_count r + 1, io_updated_at := Some now\<rparr>" for one now ev
  by unfold_locales (simp_all add: transition_defs fixed_columns_def)

interpretation to_abandoned: outcome_transition "transition_to_abandoned one now ev code detail" one ev OUT_ABANDONED
  "\<lambda>r. r\<lparr>io_status := OUT_ABANDONED,
     io_reason_code := (if code \<in> {None, Some []} then io_reason_code r else code),
     io_reason_detail := (if detail \<in> {None, Some []} then io_reason_detail r else detail),
     io_updated_at := Some now\<rparr>" for one now ev code detail
  by unfold_locales (simp_all add: transition_defs fixed_columns_def)

section \<open>The lifecycle as steps\<close>

text \<open>
  One successful call of the recorder on one event: a recording or a transition, with any arguments.
\<close>

inductive outcome_step :: "one_outcome \<Rightarrow> outcomes \<Rightarrow> outcomes \<Rightarrow> bool" for one where
  posted: "record_posted one now ev c econ ids db = Inr (r, db') \<Longrightarrow> outcome_step one db db'"
| rejected: "record_rejected one now ev c code detail db = Inr (r, db') \<Longrightarrow> outcome_step one db db'"
| blocked: "record_blocked one now ev c code detail db = Inr (r, db') \<Longrightarrow> outcome_step one db db'"
| provisional: "record_provisional one now ev c eid code_opt detail db = Inr (r, db') \<Longrightarrow> outcome_step one db db'"
| non_posting: "record_non_posting one now ev c code_opt detail db = Inr (r, db') \<Longrightarrow> outcome_step one db db'"
| failed: "record_failed one now ev c fr fp actor db = Inr (r, db') \<Longrightarrow> outcome_step one db db'"
| to_posted: "transition_to_posted one now ev econ ids db = Inr (r, db') \<Longrightarrow> outcome_step one db db'"
| to_rejected: "transition_to_rejected one now ev code detail db = Inr (r, db') \<Longrightarrow> outcome_step one db db'"
| to_failed: "transition_to_failed one now ev fr db = Inr (r, db') \<Longrightarrow> outcome_step one db db'"
| to_retrying: "transition_to_retrying one now ev db = Inr (r, db') \<Longrightarrow> outcome_step one db db'"
| to_abandoned: "transition_to_abandoned one now ev code_opt detail db = Inr (r, db') \<Longrightarrow> outcome_step one db db'"

lemmas record_defs = record_posted_def record_rejected_def record_blocked_def record_provisional_def
  record_non_posting_def record_failed_def

text \<open>How a row may develop: it keeps its fixed columns, follows a valid transition or stays as it is.\<close>

definition develops :: "interpretation_outcome \<Rightarrow> interpretation_outcome \<Rightarrow> bool" where
  "develops r r' \<longleftrightarrow> r' = r \<or>
     (fixed_columns r' = fixed_columns r \<and> io_status r' \<in> set (valid_transitions (io_status r))
      \<and> io_retry_count r' = io_retry_count r + (if io_status r' = OUT_RETRYING then 1 else 0))"

definition evolves :: "outcomes \<Rightarrow> outcomes \<Rightarrow> bool" where
  "evolves db db' \<longleftrightarrow> wf_outcomes db' \<and>
     (\<forall>ev r. find_outcome ev db = Some r \<longrightarrow> (\<exists>r'. find_outcome ev db' = Some r' \<and> develops r r'))"

lemma add_outcome_evolves:
  assumes "wf_outcomes db" "add_outcome r db = Inr (r', db')"
  shows "evolves db db'"
proof -
  have i: "insert_outcome r db = Inr db'"
    using assms(2) by (cases "insert_outcome r db") (auto simp: add_outcome_def)
  then have "wf_outcomes db'" using by_event.ins_distinct assms(1) by (simp add: wf_outcomes_def)
  moreover have "find_outcome ev db' = Some q" if "find_outcome ev db = Some q" for ev q
    using by_event.ins_rows [OF i] that by simp
  ultimately show ?thesis by (simp add: evolves_def develops_def)
qed

context outcome_transition
begin

lemma op_evolves:
  assumes "query_one one" "wf_outcomes db" "op db = Inr (r', db')"
  shows "evolves db db'"
proof -
  from op_Inr [OF assms(1,2)] assms(3) obtain r where r: "find_outcome ev db = Some r"
    "target \<in> set (valid_transitions (io_status r))" "r' = f r" by blast
  then have "develops r r'" by (simp add: develops_def status_f fixed_f count_f)
  then show ?thesis unfolding evolves_def using op_wf [OF assms] op_find [OF assms] r(1)
    by (auto simp: develops_def)
qed

end

lemma outcome_step_evolves:
  assumes "query_one one" "outcome_step one db db'" "wf_outcomes db"
  shows "evolves db db'"
  using assms(2,3)
proof (cases rule: outcome_step.cases)
  case (to_posted now ev econ ids r)
  then show ?thesis using to_posted.op_evolves assms by blast
next
  case (to_rejected now ev code detail r)
  then show ?thesis using to_rejected.op_evolves assms by blast
next
  case (to_failed now ev fr r)
  then show ?thesis using to_failed.op_evolves assms by blast
next
  case (to_retrying now ev r)
  then show ?thesis using to_retrying.op_evolves assms by blast
next
  case (to_abandoned now ev code detail r)
  then show ?thesis using to_abandoned.op_evolves assms by blast
qed (auto simp: record_defs result_iffs assms(3) split: if_splits intro: add_outcome_evolves)

end
