(* ===== verification/Retry_Service.thy ===== *)
theory Retry_Service
  imports Outcome_Recorder
begin

text \<open>
  \<open>finance_kernel/services/retry_service.py\<close>: retrying failed outcomes, at most \<open>MAX_RETRIES\<close>
  times, on top of the outcome recorder. The lemmas give each operation's exact effect through the
  recorder's transition contract, a budget of remaining transitions that every call on an event
  uses up, and from it termination of the lifecycle and that every run which goes on as long as
  it can ends in a terminal status.
\<close>

section \<open>Operations\<close>

datatype retry_exc =
    RecorderError outcome_exc
  | RetryNotAllowedError uuid string

definition MAX_RETRIES :: nat where
  "MAX_RETRIES = 10"

type_synonym retry_result = "retry_exc + interpretation_outcome \<times> outcomes"

definition initiate_retry :: "one_outcome \<Rightarrow> int \<Rightarrow> uuid \<Rightarrow> outcomes \<Rightarrow> retry_result" where
  "initiate_retry one now ev db =
     rbind (map_sum RecorderError id (get_outcome one ev db)) (\<lambda>found.
       case found of
         None \<Rightarrow> Inl (RetryNotAllowedError ev ''No outcome found for this event'')
       | Some r \<Rightarrow>
           if io_status r \<noteq> OUT_FAILED
           then Inl (RetryNotAllowedError ev (''Outcome status is '' @ status_value (io_status r) @ '', not '' @ [CHR 0x27] @ ''failed'' @ [CHR 0x27]))
           else if io_retry_count r \<ge> MAX_RETRIES
           then Inl (RetryNotAllowedError ev (''Maximum retry count ('' @ str_of_nat MAX_RETRIES @ '') exceeded''))
           else map_sum RecorderError id (transition_to_retrying one now ev db))"

definition complete_retry_success ::
    "one_outcome \<Rightarrow> int \<Rightarrow> uuid \<Rightarrow> uuid \<Rightarrow> uuid list \<Rightarrow> uuid option \<Rightarrow> outcomes \<Rightarrow> retry_result" where
  "complete_retry_success one now ev econ_event_id journal_entry_ids engine_traces_ref db =
     rbind (map_sum RecorderError id (transition_to_posted one now ev econ_event_id journal_entry_ids db)) (\<lambda>(r, db').
       case engine_traces_ref of
         None \<Rightarrow> Inr (r, db')
       | Some t \<Rightarrow> Inr (change_outcome ev (\<lambda>r. r\<lparr>io_engine_traces_ref := Some t\<rparr>) db' r))"

definition complete_retry_failure :: "one_outcome \<Rightarrow> int \<Rightarrow> uuid \<Rightarrow> failure_report \<Rightarrow> outcomes \<Rightarrow> retry_result" where
  "complete_retry_failure one now ev fr db = map_sum RecorderError id (transition_to_failed one now ev fr db)"

definition abandon :: "one_outcome \<Rightarrow> int \<Rightarrow> uuid \<Rightarrow> string option \<Rightarrow> dict option \<Rightarrow> outcomes \<Rightarrow> retry_result" where
  "abandon one now ev reason_code reason_detail db =
     map_sum RecorderError id (transition_to_abandoned one now ev reason_code reason_detail db)"

section \<open>Calls on one event\<close>

text \<open>
  The calls that move the outcome of an existing event on: those of the retry service, and the
  recorder's transitions other than \<open>transition_to_retrying\<close>, which only \<open>initiate_retry\<close> calls.
\<close>

inductive life_step :: "one_outcome \<Rightarrow> uuid \<Rightarrow> outcomes \<Rightarrow> outcomes \<Rightarrow> bool" for one ev where
  retry: "initiate_retry one now ev db = Inr (r, db') \<Longrightarrow> life_step one ev db db'"
| success: "complete_retry_success one now ev econ ids tr db = Inr (r, db') \<Longrightarrow> life_step one ev db db'"
| failure: "complete_retry_failure one now ev fr db = Inr (r, db') \<Longrightarrow> life_step one ev db db'"
| abandoned: "abandon one now ev code detail db = Inr (r, db') \<Longrightarrow> life_step one ev db db'"
| posted: "transition_to_posted one now ev econ ids db = Inr (r, db') \<Longrightarrow> life_step one ev db db'"
| rejected: "transition_to_rejected one now ev reason detail db = Inr (r, db') \<Longrightarrow> life_step one ev db db'"

declare map_sum_Inr_iff [simp]

lemma initiate_retry_Inr:
  assumes "query_one one" "wf_outcomes db"
  shows "initiate_retry one now ev db = Inr y \<longleftrightarrow>
     (\<exists>r. find_outcome ev db = Some r \<and> io_status r = OUT_FAILED \<and> io_retry_count r < MAX_RETRIES
        \<and> transition_to_retrying one now ev db = Inr y)"
proof -
  from assms(1) have "outcome_table one" by (simp add: outcome_table_def)
  from outcome_table.get_outcome_find [OF this assms(2)] show ?thesis
    by (auto simp: initiate_retry_def split: option.splits)
qed

definition outcome_rank :: "outcome_status \<Rightarrow> nat" where
  "outcome_rank s = (if s \<in> {OUT_BLOCKED, OUT_RETRYING} then 2 else if s \<in> {OUT_FAILED, OUT_PROVISIONAL} then 1 else 0)"

definition budget :: "interpretation_outcome \<Rightarrow> nat" where
  "budget r = 2 * (MAX_RETRIES - io_retry_count r) + outcome_rank (io_status r)"

lemma rank_transition:
  "t \<in> set (valid_transitions s) \<Longrightarrow> t \<noteq> OUT_RETRYING \<Longrightarrow> outcome_rank t < outcome_rank s"
  by (cases s) (auto simp: outcome_rank_def)

text \<open>Every call uses up budget: a transition lowers the rank, a retry the number of retries left.\<close>

definition moves :: "uuid \<Rightarrow> outcomes \<Rightarrow> outcomes \<Rightarrow> bool" where
  "moves ev db db' \<longleftrightarrow> wf_outcomes db' \<and> (\<exists>r r'. find_outcome ev db = Some r \<and> find_outcome ev db' = Some r'
     \<and> budget r' < budget r \<and> fixed_columns r' = fixed_columns r
     \<and> io_status r' \<in> set (valid_transitions (io_status r)))
     \<and> (\<forall>e. e \<noteq> ev \<longrightarrow> find_outcome e db' = find_outcome e db)"

context outcome_transition
begin

lemma op_moves:
  assumes "query_one one" "wf_outcomes db" "op db = Inr (r', db')"
    and "target = OUT_RETRYING \<Longrightarrow> \<exists>r. find_outcome ev db = Some r \<and> io_retry_count r < MAX_RETRIES"
  shows "moves ev db db'"
proof -
  from op_Inr [OF assms(1,2)] assms(3) obtain r where r: "find_outcome ev db = Some r"
    "target \<in> set (valid_transitions (io_status r))" "r' = f r" by blast
  have "budget (f r) < budget r"
  proof (cases "target = OUT_RETRYING")
    case True
    then have "io_status r = OUT_FAILED" using r(2) by (cases "io_status r") auto
    then show ?thesis using True assms(4) r(1) by (auto simp: budget_def status_f count_f outcome_rank_def)
  next
    case False
    then show ?thesis using rank_transition [OF r(2)] by (simp add: budget_def status_f count_f)
  qed
  then show ?thesis unfolding moves_def using op_wf [OF assms(1-3)] op_find [OF assms(1-3)] r
    by (auto simp: status_f fixed_f)
qed

end

lemma moves_update:
  assumes "moves ev db db'"
    and "\<And>r. io_status (g r) = io_status r \<and> io_retry_count (g r) = io_retry_count r \<and> fixed_columns (g r) = fixed_columns r"
  shows "moves ev db (update_outcome ev g db')"
proof -
  have k: "io_source_event_id (g r) = io_source_event_id r" for r
    using assms(2) [of r] by (simp add: fixed_columns_def)
  have "budget (g r) = budget r" for r using assms(2) by (simp add: budget_def)
  then show ?thesis using assms unfolding moves_def
    by (auto simp: wf_update [of g, OF k] find_outcome_update [of g, OF k])
qed

lemma success_moves:
  assumes "query_one one" "wf_outcomes db" "complete_retry_success one now ev econ ids tr db = Inr (r, db')"
  shows "moves ev db db'"
proof -
  from assms(3) obtain q d where "transition_to_posted one now ev econ ids db = Inr (q, d)"
    and d: "(case tr of None \<Rightarrow> db' = d | Some t \<Rightarrow> db' = update_outcome ev (\<lambda>r. r\<lparr>io_engine_traces_ref := Some t\<rparr>) d)"
    by (auto simp: complete_retry_success_def result_iffs change_outcome_def split: option.splits)
  with to_posted.op_moves [OF assms(1,2)] have "moves ev db d" by blast
  then show ?thesis using d moves_update by (auto split: option.splits simp: fixed_columns_def)
qed

lemma life_step_moves:
  assumes "query_one one" "wf_outcomes db" "life_step one ev db db'"
  shows "moves ev db db'"
  using assms(3)
proof cases
  case (retry now r)
  then show ?thesis using initiate_retry_Inr [OF assms(1,2)] to_retrying.op_moves [OF assms(1,2)] by blast
next
  case (success now econ ids tr r)
  then show ?thesis by (rule success_moves [OF assms(1,2)])
next
  case (failure now fr r)
  then show ?thesis using to_failed.op_moves [OF assms(1,2)] by (auto simp: complete_retry_failure_def)
next
  case (abandoned now code detail r)
  then show ?thesis using to_abandoned.op_moves [OF assms(1,2)] by (auto simp: abandon_def)
next
  case (posted now econ ids r)
  then show ?thesis using to_posted.op_moves [OF assms(1,2)] by blast
next
  case (rejected now reason detail r)
  then show ?thesis using to_rejected.op_moves [OF assms(1,2)] by blast
qed

text \<open>An outcome is stuck exactly when it is terminal.\<close>

lemma stuck_terminal:
  assumes "query_one one" "wf_outcomes db" "find_outcome ev db = Some r"
  shows "(\<exists>db'. life_step one ev db db') \<longleftrightarrow> \<not> is_terminal r"
proof
  assume "\<exists>db'. life_step one ev db db'"
  then obtain db' where "life_step one ev db db'" ..
  from life_step_moves [OF assms(1,2) this] show "\<not> is_terminal r" using assms(3)
    by (cases "io_status r") (auto simp: moves_def is_terminal_def)
next
  assume "\<not> is_terminal r"
  then consider "OUT_REJECTED \<in> set (valid_transitions (io_status r))" | "OUT_ABANDONED \<in> set (valid_transitions (io_status r))"
    | "OUT_POSTED \<in> set (valid_transitions (io_status r))"
    by (cases "io_status r") (auto simp: is_terminal_def)
  then show "\<exists>db'. life_step one ev db db'"
  proof cases
    case 1
    then show ?thesis using to_rejected.op_succeeds_iff [OF assms(1,2)] assms(3) by (fastforce intro: life_step.rejected)
  next
    case 2
    then obtain y where "transition_to_abandoned one 0 ev None None db = Inr y"
      using to_abandoned.op_succeeds_iff [OF assms(1,2)] assms(3) by blast
    then show ?thesis by (cases y) (auto simp: abandon_def intro!: life_step.abandoned)
  next
    case 3
    then show ?thesis using to_posted.op_succeeds_iff [OF assms(1,2)] assms(3) by (fastforce intro: life_step.posted)
  qed
qed

lemma life_steps_budget:
  assumes "query_one one" "wf_outcomes db" "(life_step one ev ^^ n) db db'" "find_outcome ev db = Some r"
  shows "\<exists>r'. find_outcome ev db' = Some r' \<and> wf_outcomes db' \<and> n + budget r' \<le> budget r"
  using assms(3)
proof (induction n arbitrary: db')
  case 0
  then show ?case using assms by simp
next
  case (Suc n)
  from Suc.prems obtain d where d: "(life_step one ev ^^ n) db d" "life_step one ev d db'" by (rule relpowp_Suc_E)
  from Suc.IH [OF d(1)] obtain q where q: "find_outcome ev d = Some q" "wf_outcomes d" "n + budget q \<le> budget r" by blast
  from life_step_moves [OF assms(1) q(2) d(2)] q(1) show ?case using q(3) by (auto simp: moves_def)
qed

lemma budget_bound: "budget r \<le> 2 * (MAX_RETRIES - io_retry_count r) + 2"
  by (simp add: budget_def outcome_rank_def)

text \<open>What the recorder's steps keep, over any number of them.\<close>

lemma develops_fixed: "develops r r' \<Longrightarrow> fixed_columns r' = fixed_columns r \<and> io_retry_count r \<le> io_retry_count r'"
  by (auto simp: develops_def)

lemma develops_terminal: "develops r r' \<Longrightarrow> is_terminal r \<Longrightarrow> r' = r"
  by (cases "io_status r") (auto simp: develops_def is_terminal_def)

lemma outcome_steps_keep:
  assumes "query_one one" "(outcome_step one)\<^sup>*\<^sup>* db db'" "wf_outcomes db"
  shows "wf_outcomes db' \<and> (\<forall>ev r. find_outcome ev db = Some r \<longrightarrow> (\<exists>r'. find_outcome ev db' = Some r'
     \<and> fixed_columns r' = fixed_columns r \<and> io_retry_count r \<le> io_retry_count r' \<and> (is_terminal r \<longrightarrow> r' = r)))"
  using assms(2)
proof (induction rule: rtranclp_induct)
  case base
  then show ?case using assms(3) by simp
next
  case (step d d')
  then have e: "evolves d d'" using outcome_step_evolves [OF assms(1)] by blast
  show ?case
  proof (intro conjI allI impI)
    show "wf_outcomes d'" using e by (simp add: evolves_def)
    fix ev r
    assume "find_outcome ev db = Some r"
    with step.IH obtain q where q: "find_outcome ev d = Some q" "fixed_columns q = fixed_columns r"
      "io_retry_count r \<le> io_retry_count q" "is_terminal r \<longrightarrow> q = r" by blast
    with e obtain r' where "find_outcome ev d' = Some r'" "develops q r'" by (auto simp: evolves_def)
    then show "\<exists>r'. find_outcome ev d' = Some r' \<and> fixed_columns r' = fixed_columns r
        \<and> io_retry_count r \<le> io_retry_count r' \<and> (is_terminal r \<longrightarrow> r' = r)"
      using q develops_fixed [of q r'] develops_terminal [of q r'] by auto
  qed
qed

section \<open>Properties\<close>

definition demo_context :: outcome_context where
  "demo_context = \<lparr>oc_profile_id = ''sale'', oc_profile_version = 1, oc_profile_hash = None, oc_trace_id = None,
     oc_decision_log = None\<rparr>"

definition demo_failed :: interpretation_outcome where
  "demo_failed = (new_outcome 5 1 OUT_FAILED demo_context)\<lparr>io_failure_type := Some ''engine'', io_failure_message := Some ''x''\<rparr>"

definition demo_abandoned :: interpretation_outcome where
  "demo_abandoned = demo_failed\<lparr>io_status := OUT_ABANDONED, io_updated_at := Some 9\<rparr>"

lemma demo_record:
  "record_failed scalar_one_or_none 5 1 demo_context
     \<lparr>fr_failure_type = FailureEnum ENGINE, fr_failure_message = ''x'', fr_reason_code = None, fr_reason_detail = None,
      fr_engine_traces_ref = None\<rparr> None None [] = Inr (demo_failed, [demo_failed])"
  by (simp add: record_failed_def check_not_exists_def get_outcome_def add_outcome_def insert_outcome_def demo_failed_def
      new_outcome_def)

lemma demo_find [simp]:
  "find_outcome 1 [demo_failed] = Some demo_failed" "find_outcome 1 [demo_abandoned] = Some demo_abandoned"
  "wf_outcomes [r]"
  by (simp_all add: find_outcome_def demo_abandoned_def demo_failed_def new_outcome_def wf_outcomes_def)

lemma demo_abandon: "transition_to_abandoned scalar_one_or_none 9 1 None None [demo_failed] = Inr (demo_abandoned, [demo_abandoned])"
  by (simp add: transition_to_abandoned_def outcome_rows.validate_cases change_outcome_def update_outcome_def)
    (simp add: demo_failed_def new_outcome_def demo_abandoned_def)

text \<open>
  Property C24. One outcome per event, and terminal outcomes are final (P15): after any sequence of
  recordings and transitions the table holds at most one outcome per event; an outcome never
  disappears, its identifying columns (event, profile, trace, decision log, payload fingerprint,
  actor, creation time) never change, its retry count never falls, and once it is terminal no
  column of it changes any more.
\<close>

theorem outcome_lifecycle:
  assumes "query_one one" "(outcome_step one)\<^sup>*\<^sup>* [] db" "(outcome_step one)\<^sup>*\<^sup>* db db'" "find_outcome ev db = Some r"
  shows "distinct (map io_source_event_id db') \<and> (\<exists>r'. find_outcome ev db' = Some r' \<and> fixed_columns r' = fixed_columns r
    \<and> io_retry_count r \<le> io_retry_count r' \<and> (is_terminal r \<longrightarrow> r' = r))"
proof -
  have "wf_outcomes db" using outcome_steps_keep [OF assms(1,2)] by (simp add: wf_outcomes_def)
  from outcome_steps_keep [OF assms(1,3) this] show ?thesis using assms(4) by (simp add: wf_outcomes_def)
qed

theorem outcome_lifecycle_witness:
  "\<exists>r'. find_outcome 1 [demo_abandoned] = Some r' \<and> fixed_columns r' = fixed_columns demo_failed"
proof -
  have "outcome_step scalar_one_or_none [] [demo_failed]" by (rule outcome_step.failed [OF demo_record])
  moreover have "outcome_step scalar_one_or_none [demo_failed] [demo_abandoned]"
    by (rule outcome_step.to_abandoned [OF demo_abandon])
  ultimately show ?thesis
    using outcome_lifecycle [OF soon.query_one_axioms r_into_rtranclp r_into_rtranclp demo_find(1)] by blast
qed

text \<open>
  Property C26. The lifecycle of an outcome terminates: at most two transitions per retry still
  allowed, plus two, can ever succeed on one event, whatever the callers do; for a freshly
  recorded outcome that is 22 calls (the safety limit \<open>MAX_RETRIES\<close>).
\<close>

theorem retries_terminate:
  assumes "query_one one" "wf_outcomes db" "find_outcome ev db = Some r" "(life_step one ev ^^ n) db db'"
  shows "n \<le> 2 * (MAX_RETRIES - io_retry_count r) + 2"
  using life_steps_budget [OF assms(1,2,4,3)] budget_bound [of r] by auto

theorem retries_terminate_witness: "(1::nat) \<le> 2 * (MAX_RETRIES - io_retry_count demo_failed) + 2"
proof -
  have "life_step scalar_one_or_none 1 [demo_failed] [demo_abandoned]"
    by (rule life_step.abandoned [where now = 9 and code = None and detail = None]) (simp add: abandon_def demo_abandon)
  then have "(life_step scalar_one_or_none 1 ^^ 1) [demo_failed] [demo_abandoned]" by (simp only: relpowp_1)
  from retries_terminate [OF soon.query_one_axioms demo_find(3) demo_find(1) this] show ?thesis .
qed

text \<open>
  Property C25. No outcome stays in the work queue for ever: on every run of calls on an event that
  goes on as long as any call on it can succeed, the outcome is terminal after the number of calls
  C23 allows, wherever it started.
\<close>

theorem outcome_settles:
  assumes "query_one one" "wf_outcomes (\<sigma> 0)" "find_outcome ev (\<sigma> 0) = Some r"
    and "\<And>i. life_step one ev (\<sigma> i) (\<sigma> (Suc i)) \<or> (\<nexists>d. life_step one ev (\<sigma> i) d) \<and> \<sigma> (Suc i) = \<sigma> i"
  shows "\<exists>r'. find_outcome ev (\<sigma> (2 * (MAX_RETRIES - io_retry_count r) + 2)) = Some r' \<and> is_terminal r'"
proof -
  have "\<exists>r'. find_outcome ev (\<sigma> n) = Some r' \<and> wf_outcomes (\<sigma> n) \<and> (is_terminal r' \<or> n + budget r' \<le> budget r)" for n
  proof (induction n)
    case 0
    then show ?case using assms(2,3) by simp
  next
    case (Suc n)
    then obtain q where q: "find_outcome ev (\<sigma> n) = Some q" "wf_outcomes (\<sigma> n)"
      "is_terminal q \<or> n + budget q \<le> budget r" by blast
    show ?case
    proof (cases "is_terminal q")
      case True
      then have "\<sigma> (Suc n) = \<sigma> n" using stuck_terminal [OF assms(1) q(2,1)] assms(4) [of n] by blast
      then show ?thesis using True q by simp
    next
      case False
      then have "life_step one ev (\<sigma> n) (\<sigma> (Suc n))" using stuck_terminal [OF assms(1) q(2,1)] assms(4) [of n] by blast
      from life_step_moves [OF assms(1) q(2) this] show ?thesis using q False by (auto simp: moves_def)
    qed
  qed
  from this [of "2 * (MAX_RETRIES - io_retry_count r) + 2"] obtain r' where
    r': "find_outcome ev (\<sigma> (2 * (MAX_RETRIES - io_retry_count r) + 2)) = Some r'"
    "is_terminal r' \<or> 2 * (MAX_RETRIES - io_retry_count r) + 2 + budget r' \<le> budget r" by blast
  then have "is_terminal r'" using budget_bound [of r]
    by (cases "io_status r'") (auto simp: is_terminal_def budget_def outcome_rank_def)
  then show ?thesis using r'(1) by blast
qed

theorem outcome_settles_witness:
  "\<exists>r'. find_outcome 1 [demo_abandoned] = Some r' \<and> is_terminal r'"
proof -
  let ?s = "\<lambda>i::nat. if i = 0 then [demo_failed] else [demo_abandoned]"
  have "life_step scalar_one_or_none 1 [demo_failed] [demo_abandoned]"
    by (rule life_step.abandoned [where now = 9 and code = None and detail = None]) (simp add: abandon_def demo_abandon)
  moreover have "\<nexists>d. life_step scalar_one_or_none 1 [demo_abandoned] d"
    using stuck_terminal [OF soon.query_one_axioms demo_find(3) demo_find(2)] by (simp add: is_terminal_def demo_abandoned_def)
  ultimately have "life_step scalar_one_or_none 1 (?s i) (?s (Suc i))
      \<or> (\<nexists>d. life_step scalar_one_or_none 1 (?s i) d) \<and> ?s (Suc i) = ?s i" for i by simp
  from outcome_settles [of scalar_one_or_none ?s 1 demo_failed, OF soon.query_one_axioms _ _ this]
  show ?thesis by simp
qed

text \<open>
  A posted outcome may have no journal entries (L5): for a blocked, provisional or
  retrying outcome \<open>complete_retry_success\<close> with an empty list of entries succeeds and leaves
  a POSTED outcome that references none, although \<open>record_posted\<close> refuses the same list.
\<close>

theorem posted_without_entries:
  assumes "query_one one" "wf_outcomes db" "find_outcome ev db = Some r"
    and "io_status r \<in> {OUT_BLOCKED, OUT_PROVISIONAL, OUT_RETRYING}"
  shows "(\<exists>r' db'. complete_retry_success one now ev econ [] None db = Inr (r', db') \<and> find_outcome ev db' = Some r'
      \<and> io_status r' = OUT_POSTED \<and> io_journal_entry_ids r' = Some [])
    \<and> (\<forall>e. find_outcome e db = None \<longrightarrow> record_posted one now e c econ [] db = Inl (OutcomePy AssertionError))"
proof (intro conjI allI impI)
  have "\<exists>y. transition_to_posted one now ev econ [] db = Inr y"
    using to_posted.op_succeeds_iff [OF assms(1,2)] assms(3,4) by fastforce
  then obtain r' db' where op: "transition_to_posted one now ev econ [] db = Inr (r', db')" by (cases rule: exE) (auto split: prod.splits)
  then have "complete_retry_success one now ev econ [] None db = Inr (r', db')" by (simp add: complete_retry_success_def)
  then show "\<exists>r' db'. complete_retry_success one now ev econ [] None db = Inr (r', db') \<and> find_outcome ev db' = Some r'
      \<and> io_status r' = OUT_POSTED \<and> io_journal_entry_ids r' = Some []"
    using to_posted.op_find [OF assms(1,2) op, of ev] to_posted.op_Inr [OF assms(1,2)] op by fastforce
next
  fix e
  assume "find_outcome e db = None"
  then have "check_not_exists one e db = Inr ()"
    using outcome_table.check_not_exists_Inr [of one] assms(1,2) by (simp add: outcome_table_def)
  then show "record_posted one now e c econ [] db = Inl (OutcomePy AssertionError)" by (simp add: record_posted_def)
qed

theorem posted_without_entries_witness:
  "\<exists>r' db'. complete_retry_success scalar_one_or_none 7 1 3 [] None [demo_failed\<lparr>io_status := OUT_BLOCKED\<rparr>] = Inr (r', db')
     \<and> io_status r' = OUT_POSTED \<and> io_journal_entry_ids r' = Some []"
proof -
  have "find_outcome 1 [demo_failed\<lparr>io_status := OUT_BLOCKED\<rparr>] = Some (demo_failed\<lparr>io_status := OUT_BLOCKED\<rparr>)"
    by (simp add: find_outcome_def demo_failed_def new_outcome_def)
  from posted_without_entries [OF soon.query_one_axioms demo_find(3) this, of 7 3 demo_context] show ?thesis by fastforce
qed

end
