(* ===== verification/Posting_Strategy.thy ===== *)
theory Posting_Strategy
  imports Dtos
begin

text \<open>
  \<open>finance_kernel/domain/strategy.py\<close>: \<open>BasePostingStrategy.propose\<close> and the checks it
  runs in order. The abstract method \<open>_compute_line_specs\<close> is a field of the strategy. The
  set of currencies is iterated in an order Python leaves open (string hashing is randomized per
  process): it is the parameter \<open>iter\<close>, any function that permutes a list.

  The lemmas show that a proposed entry balances per currency (R4), that it has at most one
  rounding line and a bounded one (R5, R22), that its other lines are the strategy's lines, and
  that the outcome does not depend on the iteration order.
\<close>

section \<open>Strategies and their results\<close>

datatype replay_policy = STRICT | PERMISSIVE

record strategy_result =
  sr_proposed_entry :: "proposed_entry option"
  sr_validation :: validation_result

definition sr_success :: "proposed_entry \<Rightarrow> strategy_result" where
  "sr_success e = \<lparr>sr_proposed_entry = Some e, sr_validation = vr_success\<rparr>"

definition sr_failure :: "validation_error list \<Rightarrow> strategy_result" where
  "sr_failure es = \<lparr>sr_proposed_entry = None, sr_validation = vr_failure es\<rparr>"

definition sr_is_valid :: "strategy_result \<Rightarrow> bool" where
  "sr_is_valid r \<longleftrightarrow> vr_is_valid (sr_validation r) \<and> sr_proposed_entry r \<noteq> None"

record posting_strategy =
  st_event_type :: string
  st_version :: int
  st_supported_from_version :: int
  st_supported_to_version :: "int option"
  st_replay_policy :: replay_policy
  st_compute_line_specs :: "event_envelope \<Rightarrow> reference_data \<Rightarrow> py_exc + line_spec list"

definition is_compatible_with_system_version :: "posting_strategy \<Rightarrow> int \<Rightarrow> bool" where
  "is_compatible_with_system_version st v =
     (if v < st_supported_from_version st then False
      else case st_supported_to_version st of
             Some to \<Rightarrow> if v > to then False else True
           | None \<Rightarrow> True)"

section \<open>The checks\<close>

definition line_field :: "nat \<Rightarrow> string \<Rightarrow> string" where
  "line_field i attr = ''lines['' @ str_of_nat i @ '']'' @ attr"

definition verr :: "string \<Rightarrow> string option \<Rightarrow> validation_error" where
  "verr code fld = \<lparr>ve_code = code, ve_field = fld\<rparr>"

definition validate_no_rounding_lines :: "line_spec list \<Rightarrow> validation_error option" where
  "validate_no_rounding_lines ls =
     map_option (\<lambda>(i, l). verr ''STRATEGY_ROUNDING_VIOLATION'' (Some (line_field i ''.is_rounding'')))
       (find (\<lambda>(i, l). ls_is_rounding l) (enumerate 0 ls))"

definition validate_currencies :: "line_spec list \<Rightarrow> validation_error list" where
  "validate_currencies ls =
     map (\<lambda>(i, l). verr ''INVALID_CURRENCY'' (Some (line_field i ''.currency'')))
       (filter (\<lambda>(i, l). \<not> is_valid (ls_currency l)) (enumerate 0 ls))"

definition resolve_line :: "uuid \<Rightarrow> nat \<Rightarrow> line_spec \<Rightarrow> proposed_line" where
  "resolve_line acc i l =
     \<lparr>pl_account_id = acc, pl_account_code = ls_account_code l, pl_side = ls_side l,
      pl_money = ls_money l, pl_dimensions = ls_dimensions l, pl_memo = ls_memo l,
      pl_is_rounding = ls_is_rounding l, pl_exchange_rate_id = None, pl_line_seq = i\<rparr>"

fun resolve_accounts_from ::
    "nat \<Rightarrow> reference_data \<Rightarrow> line_spec list \<Rightarrow> proposed_line list \<times> validation_error list" where
  "resolve_accounts_from i rd [] = ([], [])"
| "resolve_accounts_from i rd (l # ls) =
     (let (pls, es) = resolve_accounts_from (Suc i) rd ls;
          fld = Some (line_field i ''.account_code'')
      in case get_account_id rd (ls_account_code l) of
           None \<Rightarrow> (pls, verr ''ACCOUNT_NOT_FOUND'' fld # es)
         | Some acc \<Rightarrow>
             if \<not> is_account_active rd (ls_account_code l)
             then (pls, verr ''ACCOUNT_INACTIVE'' fld # es)
             else (resolve_line acc i l # pls, es))"

definition resolve_accounts ::
    "line_spec list \<Rightarrow> reference_data \<Rightarrow> proposed_line list \<times> validation_error list" where
  "resolve_accounts ls rd = resolve_accounts_from 0 rd ls"

definition validate_dimensions :: "proposed_line list \<Rightarrow> reference_data \<Rightarrow> validation_error list" where
  "validate_dimensions ls rd =
     (if rd_required_dimensions rd = [] then []
      else concat (map (\<lambda>(i, l).
        let dims = (case pl_dimensions l of None \<Rightarrow> [] | Some ds \<Rightarrow> ds)
        in map (\<lambda>d. verr ''MISSING_DIMENSION'' (Some (line_field i (''.dimensions.'' @ d))))
             (filter (\<lambda>d. map_of dims d = None) (rd_required_dimensions rd)))
        (enumerate 0 ls)))"

section \<open>Balancing and rounding\<close>

definition rounding_line :: "uuid \<Rightarrow> decimal \<Rightarrow> money \<Rightarrow> nat \<Rightarrow> proposed_line" where
  "rounding_line acc imbalance m sq =
     \<lparr>pl_account_id = acc, pl_account_code = ''ROUNDING'',
      pl_side = (if imbalance > 0 then CREDIT else DEBIT), pl_money = m, pl_dimensions = None,
      pl_memo = None, pl_is_rounding = True, pl_exchange_rate_id = None, pl_line_seq = sq\<rparr>"

definition currency_imbalance :: "proposed_line list \<Rightarrow> string \<Rightarrow> decimal" where
  "currency_imbalance lines cur =
     dsub (dsum (side_amounts DEBIT (Some cur) lines)) (dsum (side_amounts CREDIT (Some cur) lines))"

fun balance_loop ::
    "reference_data \<Rightarrow> proposed_line list \<Rightarrow> string list \<Rightarrow> proposed_line list \<Rightarrow> validation_error list
     \<Rightarrow> py_exc + proposed_line list \<times> validation_error list" where
  "balance_loop rd lines [] result_lines errors = Inr (result_lines, errors)"
| "balance_loop rd lines (cur # curs) result_lines errors =
     (let imbalance = currency_imbalance lines cur
      in if imbalance = 0 then balance_loop rd lines curs result_lines errors
         else if dabs imbalance > get_rounding_tolerance cur
         then balance_loop rd lines curs result_lines (errors @ [verr ''UNBALANCED_ENTRY'' None])
         else case get_rounding_account_id rd cur of
                None \<Rightarrow> balance_loop rd lines curs result_lines
                          (errors @ [verr ''NO_ROUNDING_ACCOUNT'' None])
              | Some acc \<Rightarrow>
                  rbind (money_of (dabs imbalance) cur)
                    (\<lambda>m. balance_loop rd lines curs
                       (result_lines @ [rounding_line acc imbalance m (length result_lines)]) errors))"

definition balance_and_round ::
    "(string list \<Rightarrow> string list) \<Rightarrow> proposed_line list \<Rightarrow> reference_data
     \<Rightarrow> py_exc + proposed_line list \<times> validation_error list" where
  "balance_and_round iter lines rd =
     balance_loop rd lines (iter (remdups (map pl_currency lines))) lines []"

definition max_rounding_allowed :: "nat \<Rightarrow> decimal" where
  "max_rounding_allowed n = max (1/100) (dmul (1/100) (of_nat n))"

definition validate_rounding_invariants :: "proposed_line list \<Rightarrow> validation_error list" where
  "validate_rounding_invariants lines =
     (let rounding_lines = filter pl_is_rounding lines;
          non_rounding_lines = filter (\<lambda>l. \<not> pl_is_rounding l) lines
      in (if length rounding_lines > 1 then [verr ''MULTIPLE_ROUNDING_LINES'' None] else [])
         @ map (\<lambda>l. verr ''ROUNDING_AMOUNT_EXCEEDED'' None)
             (filter (\<lambda>l. pl_amount l > max_rounding_allowed (length non_rounding_lines)) rounding_lines))"

definition get_description :: "event_envelope \<Rightarrow> json option" where
  "get_description ev = map_of (payload ev) ''description''"

definition get_metadata :: "event_envelope \<Rightarrow> json option" where
  "get_metadata ev = map_of (payload ev) ''metadata''"

section \<open>propose\<close>

definition build_entry ::
    "posting_strategy \<Rightarrow> event_envelope \<Rightarrow> reference_data \<Rightarrow> proposed_line list \<Rightarrow> proposed_entry" where
  "build_entry st ev rd ls =
     \<lparr>pe_event_envelope = ev, pe_lines = ls, pe_description = get_description ev,
      pe_metadata = get_metadata ev, pe_posting_rule_version = st_version st,
      pe_rounding_rule_version = 1, pe_coa_version = rd_coa_version rd,
      pe_dimension_schema_version = rd_dimension_schema_version rd,
      pe_rounding_policy_version = rd_rounding_policy_version rd,
      pe_currency_registry_version = rd_currency_registry_version rd\<rparr>"

definition finish_entry ::
    "posting_strategy \<Rightarrow> event_envelope \<Rightarrow> reference_data \<Rightarrow> proposed_line list \<Rightarrow> strategy_result" where
  "finish_entry st ev rd ls =
     (case mk_proposed_entry (build_entry st ev rd ls) of
        Inr e \<Rightarrow> sr_success e
      | Inl _ \<Rightarrow> sr_failure [verr ''INVALID_ENTRY'' None])"

definition propose ::
    "(string list \<Rightarrow> string list) \<Rightarrow> posting_strategy \<Rightarrow> event_envelope \<Rightarrow> reference_data
     \<Rightarrow> py_exc + strategy_result" where
  "propose iter st ev rd =
     (case st_compute_line_specs st ev rd of
        Inl _ \<Rightarrow> Inr (sr_failure [verr ''COMPUTATION_ERROR'' None])
      | Inr specs \<Rightarrow>
          if specs = [] then Inr (sr_failure [verr ''NO_LINES'' None])
          else case validate_no_rounding_lines specs of
            Some e \<Rightarrow> Inr (sr_failure [e])
          | None \<Rightarrow>
              if validate_currencies specs \<noteq> [] then Inr (sr_failure (validate_currencies specs))
              else let (proposed, account_errors) = resolve_accounts specs rd
                   in if account_errors \<noteq> [] then Inr (sr_failure account_errors)
                      else if validate_dimensions proposed rd \<noteq> []
                      then Inr (sr_failure (validate_dimensions proposed rd))
                      else rbind (balance_and_round iter proposed rd) (\<lambda>(balanced, balance_errors).
                        if balance_errors \<noteq> [] then Inr (sr_failure balance_errors)
                        else if validate_rounding_invariants balanced \<noteq> []
                        then Inr (sr_failure (validate_rounding_invariants balanced))
                        else Inr (finish_entry st ev rd balanced)))"

section \<open>What the constructors guarantee of a strategy's lines\<close>

definition wf_line_spec :: "line_spec \<Rightarrow> bool" where
  "wf_line_spec l \<longleftrightarrow> wf_currency (currency (ls_money l)) \<and> 0 \<le> ls_amount l"

definition wf_strategy :: "posting_strategy \<Rightarrow> bool" where
  "wf_strategy st \<longleftrightarrow>
     (\<forall>ev rd specs. st_compute_line_specs st ev rd = Inr specs \<longrightarrow> list_all wf_line_spec specs)"

lemma wf_line_spec_create: "line_spec_create acc sd amt cur dims memo rnd = Inr l \<Longrightarrow> wf_line_spec l"
  by (auto simp: line_spec_create_def mk_line_spec_def money_of_def wf_line_spec_def ls_amount_def
      result_iffs dest: wf_mk_currency split: if_splits)

lemma wf_currency_normal: "wf_currency c \<Longrightarrow> is_valid (cur_code c) \<and> strip (upper (cur_code c)) = cur_code c"
  using registry_row(2) by (auto simp: wf_currency_def is_valid_iff)

section \<open>The checks in closed form\<close>

lemma find_enumerate_None: "find (\<lambda>(i, l). P l) (enumerate n ls) = None \<longleftrightarrow> (\<forall>l \<in> set ls. \<not> P l)"
  by (induction ls arbitrary: n) auto

lemma filter_enumerate_Nil: "filter (\<lambda>(i, l). P l) (enumerate n ls) = [] \<longleftrightarrow> (\<forall>l \<in> set ls. \<not> P l)"
  by (induction ls arbitrary: n) auto

lemma validate_no_rounding_lines_None:
  "validate_no_rounding_lines ls = None \<longleftrightarrow> (\<forall>l \<in> set ls. \<not> ls_is_rounding l)"
  by (simp add: validate_no_rounding_lines_def find_enumerate_None)

lemma validate_currencies_Nil: "validate_currencies ls = [] \<longleftrightarrow> (\<forall>l \<in> set ls. is_valid (ls_currency l))"
  by (simp add: validate_currencies_def filter_enumerate_Nil)

definition resolves :: "reference_data \<Rightarrow> nat \<Rightarrow> line_spec \<Rightarrow> proposed_line \<Rightarrow> bool" where
  "resolves rd i l p \<longleftrightarrow>
     (\<exists>acc. get_account_id rd (ls_account_code l) = Some acc
        \<and> is_account_active rd (ls_account_code l) \<and> p = resolve_line acc i l)"

lemma resolve_accounts_from_ok:
  "resolve_accounts_from n rd ls = (ps, []) \<Longrightarrow>
     list_all2 (\<lambda>(i, l) p. resolves rd i l p) (enumerate n ls) ps"
  by (induction ls arbitrary: n ps)
    (auto simp: Let_def resolves_def split: option.splits prod.splits if_splits)

lemma resolve_accounts_ok:
  "resolve_accounts ls rd = (ps, []) \<Longrightarrow> list_all2 (\<lambda>(i, l) p. resolves rd i l p) (enumerate 0 ls) ps"
  by (simp add: resolve_accounts_def resolve_accounts_from_ok)

lemma resolved_amounts:
  "list_all2 (\<lambda>(i, l) p. resolves rd i l p) (enumerate n ls) ps \<Longrightarrow>
     map pl_money ps = map ls_money ls \<and> map pl_is_rounding ps = map ls_is_rounding ls"
  by (induction ls arbitrary: n ps)
    (auto simp: list_all2_Cons1 resolves_def resolve_line_def)

section \<open>The balancing loop in closed form\<close>

definition currency_error :: "reference_data \<Rightarrow> proposed_line list \<Rightarrow> string \<Rightarrow> validation_error list" where
  "currency_error rd lines cur =
     (let imb = currency_imbalance lines cur
      in if imb = 0 then []
         else if dabs imb > get_rounding_tolerance cur then [verr ''UNBALANCED_ENTRY'' None]
         else case get_rounding_account_id rd cur of
                None \<Rightarrow> [verr ''NO_ROUNDING_ACCOUNT'' None] | Some acc \<Rightarrow> [])"

definition rounding_for :: "reference_data \<Rightarrow> proposed_line list \<Rightarrow> nat \<Rightarrow> string \<Rightarrow> proposed_line" where
  "rounding_for rd lines sq cur =
     rounding_line (the (get_rounding_account_id rd cur)) (currency_imbalance lines cur)
       \<lparr>amount = dabs (currency_imbalance lines cur), currency = Currency (strip (upper cur))\<rparr> sq"

definition rounded_currencies :: "reference_data \<Rightarrow> proposed_line list \<Rightarrow> string list \<Rightarrow> string list" where
  "rounded_currencies rd lines curs =
     filter (\<lambda>c. currency_imbalance lines c \<noteq> 0 \<and> currency_error rd lines c = []) curs"

definition appended_lines ::
    "reference_data \<Rightarrow> proposed_line list \<Rightarrow> nat \<Rightarrow> string list \<Rightarrow> proposed_line list" where
  "appended_lines rd lines n curs = map (\<lambda>(i, c). rounding_for rd lines i c) (enumerate n (rounded_currencies rd lines curs))"

lemma balance_loop_closed:
  assumes "\<forall>c \<in> set curs. is_valid c"
  shows "balance_loop rd lines curs res es =
    Inr (res @ appended_lines rd lines (length res) curs, es @ concat (map (currency_error rd lines) curs))"
  using assms
proof (induction curs arbitrary: res es)
  case (Cons c curs)
  show ?case
  proof (cases "currency_imbalance lines c = 0 \<or> currency_error rd lines c \<noteq> []")
    case True
    then show ?thesis using Cons
      by (auto simp: Let_def currency_error_def appended_lines_def rounded_currencies_def
          split: option.split if_splits)
  next
    case False
    then obtain acc where acc: "get_rounding_account_id rd c = Some acc"
      and small: "\<not> dabs (currency_imbalance lines c) > get_rounding_tolerance c"
      by (auto simp: currency_error_def Let_def split: if_splits option.splits)
    have money: "money_of (dabs (currency_imbalance lines c)) c =
        Inr \<lparr>amount = dabs (currency_imbalance lines c), currency = Currency (strip (upper c))\<rparr>"
      using Cons.prems by (simp add: money_of_def mk_currency_eq)
    let ?l = "rounding_for rd lines (length res) c"
    have "balance_loop rd lines (c # curs) res es = balance_loop rd lines curs (res @ [?l]) es"
      using False acc small money by (simp add: Let_def rounding_for_def)
    then show ?thesis using Cons False
      by (simp add: appended_lines_def rounded_currencies_def)
  qed
qed (simp add: appended_lines_def rounded_currencies_def)

definition permutes_lists :: "(string list \<Rightarrow> string list) \<Rightarrow> bool" where
  "permutes_lists iter \<longleftrightarrow> (\<forall>xs. mset (iter xs) = mset xs)"

lemma permutes_set: "permutes_lists iter \<Longrightarrow> set (iter xs) = set xs"
  unfolding permutes_lists_def by (metis set_mset_mset)

lemma balance_and_round_closed:
  assumes "permutes_lists iter" "\<forall>l \<in> set ps. is_valid (pl_currency l)"
  defines "curs \<equiv> iter (remdups (map pl_currency ps))"
  shows "balance_and_round iter ps rd =
    Inr (ps @ appended_lines rd ps (length ps) curs, concat (map (currency_error rd ps) curs))"
  unfolding balance_and_round_def curs_def
  using assms(2) by (subst balance_loop_closed) (auto simp: permutes_set [OF assms(1)])

lemma rounding_for_simps [simp]:
  "pl_is_rounding (rounding_for rd lines sq c)"
  "pl_amount (rounding_for rd lines sq c) = dabs (currency_imbalance lines c)"
  "pl_side (rounding_for rd lines sq c) = (if currency_imbalance lines c > 0 then CREDIT else DEBIT)"
  "pl_currency (rounding_for rd lines sq c) = strip (upper c)"
  by (simp_all add: rounding_for_def rounding_line_def pl_amount_def pl_currency_def)

section \<open>Inverting propose\<close>

lemma resolved_valid:
  assumes "list_all2 (\<lambda>(i, l) p. resolves rd i l p) (enumerate n ls) ps"
    "\<forall>l \<in> set ls. is_valid (ls_currency l)"
  shows "\<forall>p \<in> set ps. is_valid (pl_currency p)"
proof -
  have "map pl_currency ps = map ls_currency ls"
    using resolved_amounts [OF assms(1)] unfolding pl_currency_def ls_currency_def
    by (metis (no_types, lifting) comp_apply list.map_comp map_cong)
  then have "pl_currency ` set ps = ls_currency ` set ls" by (metis list.set_map)
  then show ?thesis using assms(2) by (metis imageE imageI)
qed

definition passes :: "(string list \<Rightarrow> string list) \<Rightarrow> posting_strategy \<Rightarrow> event_envelope \<Rightarrow> reference_data
    \<Rightarrow> line_spec list \<Rightarrow> proposed_line list \<Rightarrow> proposed_line list \<Rightarrow> bool" where
  "passes iter st ev rd specs ps ls \<longleftrightarrow>
     st_compute_line_specs st ev rd = Inr specs \<and> specs \<noteq> []
     \<and> (\<forall>l \<in> set specs. \<not> ls_is_rounding l \<and> is_valid (ls_currency l))
     \<and> resolve_accounts specs rd = (ps, []) \<and> validate_dimensions ps rd = []
     \<and> (\<forall>p \<in> set ps. currency_error rd ps (pl_currency p) = [])
     \<and> ls = ps @ appended_lines rd ps (length ps) (iter (remdups (map pl_currency ps)))
     \<and> validate_rounding_invariants ls = []"

lemma passes_resolved:
  assumes "passes iter st ev rd specs ps ls"
  shows "list_all2 (\<lambda>(i, l) p. resolves rd i l p) (enumerate 0 specs) ps"
    "\<forall>p \<in> set ps. is_valid (pl_currency p) \<and> \<not> pl_is_rounding p" "ps \<noteq> []"
proof -
  show r: "list_all2 (\<lambda>(i, l) p. resolves rd i l p) (enumerate 0 specs) ps"
    using assms by (simp add: passes_def resolve_accounts_ok)
  have "\<forall>b \<in> set (map pl_is_rounding ps). \<not> b"
    using resolved_amounts [OF r] assms by (auto simp: passes_def)
  then show "\<forall>p \<in> set ps. is_valid (pl_currency p) \<and> \<not> pl_is_rounding p"
    using resolved_valid [OF r] assms by (auto simp: passes_def)
  show "ps \<noteq> []" using list_all2_lengthD [OF r] assms by (auto simp: passes_def)
qed

lemma propose_cases:
  assumes iter: "permutes_lists iter"
  obtains (ok) specs ps ls where "passes iter st ev rd specs ps ls"
      "propose iter st ev rd = Inr (sr_success (build_entry st ev rd ls))"
  | (fail) es where "propose iter st ev rd = Inr (sr_failure es)"
      "\<nexists>specs ps ls. passes iter st ev rd specs ps ls"
proof (cases "\<exists>specs ps. st_compute_line_specs st ev rd = Inr specs \<and> specs \<noteq> []
    \<and> validate_no_rounding_lines specs = None \<and> validate_currencies specs = []
    \<and> resolve_accounts specs rd = (ps, []) \<and> validate_dimensions ps rd = []")
  case False
  then have "\<exists>es. propose iter st ev rd = Inr (sr_failure es)"
    unfolding propose_def
    by (cases "st_compute_line_specs st ev rd")
      (auto split: option.split prod.split)
  moreover have "\<nexists>specs ps ls. passes iter st ev rd specs ps ls"
    using False by (auto simp: passes_def validate_no_rounding_lines_None validate_currencies_Nil)
  ultimately show ?thesis using fail by blast
next
  case True
  then obtain specs ps where c: "st_compute_line_specs st ev rd = Inr specs" "specs \<noteq> []"
    "validate_no_rounding_lines specs = None" "validate_currencies specs = []"
    "resolve_accounts specs rd = (ps, [])" "validate_dimensions ps rd = []" by blast
  have r: "list_all2 (\<lambda>(i, l) p. resolves rd i l p) (enumerate 0 specs) ps"
    using c by (simp add: resolve_accounts_ok)
  have valid: "\<forall>p \<in> set ps. is_valid (pl_currency p)"
    using resolved_valid [OF r] c by (simp add: validate_currencies_Nil)
  define ls where "ls = ps @ appended_lines rd ps (length ps) (iter (remdups (map pl_currency ps)))"
  define es where "es = concat (map (currency_error rd ps) (iter (remdups (map pl_currency ps))))"
  have b: "balance_and_round iter ps rd = Inr (ls, es)"
    unfolding ls_def es_def by (rule balance_and_round_closed [OF iter valid])
  have es: "es = [] \<longleftrightarrow> (\<forall>p \<in> set ps. currency_error rd ps (pl_currency p) = [])"
    unfolding es_def by (auto simp: permutes_set [OF iter])
  have "ls \<noteq> []" using c(2) list_all2_lengthD [OF r] by (auto simp: ls_def)
  then have fin: "finish_entry st ev rd ls = sr_success (build_entry st ev rd ls)"
    by (simp add: finish_entry_def mk_proposed_entry_def build_entry_def)
  have p: "propose iter st ev rd =
      (if es \<noteq> [] then Inr (sr_failure es)
       else if validate_rounding_invariants ls \<noteq> [] then Inr (sr_failure (validate_rounding_invariants ls))
       else Inr (sr_success (build_entry st ev rd ls)))"
    unfolding propose_def using c b fin by simp
  have iff: "passes iter st ev rd specs' ps' ls' \<longleftrightarrow> specs' = specs \<and> ps' = ps \<and> ls' = ls
      \<and> es = [] \<and> validate_rounding_invariants ls = []" for specs' ps' ls'
    using c es by (auto simp: passes_def validate_no_rounding_lines_None validate_currencies_Nil ls_def)
  show ?thesis
  proof (cases "es = [] \<and> validate_rounding_invariants ls = []")
    case True
    then show ?thesis using ok [of specs ps ls] iff p by simp
  next
    case False
    then have "\<exists>es'. propose iter st ev rd = Inr (sr_failure es')" using p by auto
    then show ?thesis using fail iff False by blast
  qed
qed

lemma propose_success:
  assumes "permutes_lists iter" "propose iter st ev rd = Inr r" "sr_proposed_entry r = Some e"
  obtains specs ps ls where "passes iter st ev rd specs ps ls" "e = build_entry st ev rd ls"
  by (rule propose_cases [OF assms(1), of st ev rd])
    (use that assms(2,3) in \<open>auto simp: sr_success_def sr_failure_def\<close>)

section \<open>Rounding restores the balance\<close>

lemma exact_imbalance:
  assumes "exact_terms k (map pl_amount ps)"
  shows "currency_imbalance ps c =
    sum_list (side_amounts DEBIT (Some c) ps) - sum_list (side_amounts CREDIT (Some c) ps)"
proof -
  let ?D = "side_amounts DEBIT (Some c) ps" and ?C = "side_amounts CREDIT (Some c) ps"
  have "sum_list (map abs (?D @ map uminus ?C)) = sum_list (map abs (?D @ ?C))"
    by (simp add: comp_def)
  moreover have "list_all (on_grid k) (?D @ map uminus ?C)"
    using exact_both_sides [OF assms, of c] by (auto simp: exact_terms_def list_all_iff)
  ultimately have "exact_terms k (?D @ map uminus ?C)"
    using exact_both_sides [OF assms, of c] by (metis exact_terms_le order_refl)
  then have "dfix (sum_list (?D @ map uminus ?C)) = sum_list (?D @ map uminus ?C)"
    using exact_terms_sum dfix_grid by blast
  moreover have "sum_list (map uminus xs) = - sum_list xs" for xs :: "rat list"
    by (induction xs) auto
  ultimately show ?thesis
    using dsum_exact [OF exact_side_amounts [OF assms]]
    by (simp add: currency_imbalance_def dsub_def)
qed

lemma rounding_balances:
  assumes ex: "exact_terms k (map pl_amount ps)" and imb: "currency_imbalance ps c \<noteq> 0"
    and l: "pl_currency l = c" "pl_amount l = dabs (currency_imbalance ps c)"
      "pl_side l = (if currency_imbalance ps c > 0 then CREDIT else DEBIT)"
  shows "dsum (side_amounts DEBIT (Some c) (ps @ [l])) = dsum (side_amounts CREDIT (Some c) (ps @ [l]))"
proof -
  let ?d = "dsum (side_amounts DEBIT (Some c) ps)" and ?c = "dsum (side_amounts CREDIT (Some c) ps)"
  have i: "currency_imbalance ps c = ?d - ?c"
    using exact_imbalance [OF ex, of c] dsum_exact [OF exact_side_amounts [OF ex]] by simp
  have "dfix (currency_imbalance ps c) = currency_imbalance ps c"
    by (simp add: currency_imbalance_def dsub_def)
  then have amt: "pl_amount l = \<bar>?d - ?c\<bar>"
    using l(2) i by (simp only: dabs_def dfix_abs)
  show ?thesis
  proof (cases "currency_imbalance ps c > 0")
    case True
    then have "dadd ?c (pl_amount l) = ?d" using amt i by (simp add: dadd_def)
    then show ?thesis using True l by (simp add: side_amounts_single)
  next
    case False
    then have "dadd ?d (pl_amount l) = ?c" using amt i imb by (simp add: dadd_def)
    then show ?thesis using False l by (simp add: side_amounts_single)
  qed
qed

lemma appendedE:
  assumes "p \<in> set (appended_lines rd ps n curs)"
  obtains i c where "c \<in> set curs" "p = rounding_for rd ps i c" "currency_imbalance ps c \<noteq> 0"
    "currency_error rd ps c = []"
proof -
  obtain i c where "(i, c) \<in> set (enumerate n (rounded_currencies rd ps curs))" "p = rounding_for rd ps i c"
    using assms by (auto simp: appended_lines_def)
  moreover from this have "c \<in> set (rounded_currencies rd ps curs)"
    by (auto simp: enumerate_eq_zip dest: set_zip_rightD)
  ultimately show ?thesis using that by (auto simp: rounded_currencies_def)
qed

lemma appended_all_rounding: "p \<in> set (appended_lines rd ps n curs) \<Longrightarrow> pl_is_rounding p"
  by (elim appendedE) simp

lemma passes_split:
  assumes "passes iter st ev rd specs ps ls"
  defines "app \<equiv> appended_lines rd ps (length ps) (iter (remdups (map pl_currency ps)))"
  shows "filter pl_is_rounding ls = app" "filter (\<lambda>l. \<not> pl_is_rounding l) ls = ps" "ls = ps @ app"
    "length app \<le> 1" "\<forall>p \<in> set app. pl_amount p \<le> max_rounding_allowed (length ps)"
proof -
  show ls: "ls = ps @ app" using assms by (simp add: passes_def app_def)
  have "\<forall>p \<in> set app. pl_is_rounding p" unfolding app_def using appended_all_rounding by blast
  then show f: "filter pl_is_rounding ls = app" and g: "filter (\<lambda>l. \<not> pl_is_rounding l) ls = ps"
    using passes_resolved(2) [OF assms(1)] by (auto simp: ls filter_empty_conv)
  have "validate_rounding_invariants ls = []" using assms(1) unfolding passes_def by blast
  then show "length app \<le> 1" "\<forall>p \<in> set app. pl_amount p \<le> max_rounding_allowed (length ps)"
    by (auto simp: validate_rounding_invariants_def f g Let_def filter_empty_conv not_less split: if_splits)
qed

lemma length_appended: "length (appended_lines rd ps n curs) = length (rounded_currencies rd ps curs)"
  by (simp add: appended_lines_def)

lemma appended_cases:
  assumes "passes iter st ev rd specs ps ls" "permutes_lists iter"
  obtains (none) "ls = ps" "\<forall>p \<in> set ps. currency_imbalance ps (pl_currency p) = 0"
  | (one) c where "ls = ps @ [rounding_for rd ps (length ps) c]" "c \<in> pl_currency ` set ps"
      "currency_imbalance ps c \<noteq> 0" "currency_error rd ps c = []"
      "\<forall>p \<in> set ps. pl_currency p \<noteq> c \<longrightarrow> currency_imbalance ps (pl_currency p) = 0"
proof -
  define curs where "curs = iter (remdups (map pl_currency ps))"
  have curs: "set curs = pl_currency ` set ps" by (simp add: curs_def permutes_set [OF assms(2)])
  have err: "\<forall>p \<in> set ps. currency_error rd ps (pl_currency p) = []"
    using assms(1) by (simp add: passes_def)
  then have rc: "set (rounded_currencies rd ps curs) = {c \<in> pl_currency ` set ps. currency_imbalance ps c \<noteq> 0}"
    using curs by (auto simp: rounded_currencies_def)
  have "length (rounded_currencies rd ps curs) \<le> 1"
    using passes_split(4) [OF assms(1)] by (simp add: length_appended curs_def)
  then consider "rounded_currencies rd ps curs = []" | c where "rounded_currencies rd ps curs = [c]"
    by (cases "rounded_currencies rd ps curs") auto
  then show ?thesis
  proof cases
    case 1
    then have "ls = ps" using passes_split(3) [OF assms(1)] by (simp add: appended_lines_def curs_def)
    moreover have "\<forall>p \<in> set ps. currency_imbalance ps (pl_currency p) = 0" using 1 rc by auto
    ultimately show ?thesis by (rule none)
  next
    case 2
    then have "ls = ps @ [rounding_for rd ps (length ps) c]"
      using passes_split(3) [OF assms(1)] by (simp add: appended_lines_def curs_def)
    moreover have c: "c \<in> pl_currency ` set ps" "currency_imbalance ps c \<noteq> 0"
      "\<And>d. d \<in> pl_currency ` set ps \<Longrightarrow> d \<noteq> c \<Longrightarrow> currency_imbalance ps d = 0"
      using rc 2 by auto
    moreover have "currency_error rd ps c = []" using c(1) err by auto
    ultimately show ?thesis using one [of c] by auto
  qed
qed

lemma wf_strategy_normal:
  assumes "wf_strategy st" "passes iter st ev rd specs ps ls" "p \<in> set ps"
  shows "strip (upper (pl_currency p)) = pl_currency p"
proof -
  have "map pl_money ps = map ls_money specs"
    using resolved_amounts [OF passes_resolved(1) [OF assms(2)]] by simp
  then have "pl_money p \<in> ls_money ` set specs" using assms(3) by (metis imageI list.set_map)
  then have "wf_currency (currency (pl_money p))"
    using assms(1,2) by (auto simp: wf_strategy_def passes_def list_all_iff wf_line_spec_def)
  then show ?thesis using wf_currency_normal by (simp add: pl_currency_def)
qed

section \<open>The iteration order does not matter\<close>

lemma passes_iter:
  assumes "passes iter st ev rd specs ps ls" "permutes_lists iter" "permutes_lists iter'"
  shows "passes iter' st ev rd specs ps ls"
proof -
  let ?f = "\<lambda>it. rounded_currencies rd ps (it (remdups (map pl_currency ps)))"
  have "mset (?f iter') = mset (?f iter)"
    using assms(2,3) by (simp add: rounded_currencies_def permutes_lists_def)
  moreover have "length (?f iter) \<le> 1"
    using passes_split(4) [OF assms(1)] by (simp add: length_appended)
  ultimately have "?f iter' = ?f iter"
    by (cases "?f iter"; cases "tl (?f iter)") auto
  then have "appended_lines rd ps (length ps) (iter' (remdups (map pl_currency ps))) =
      appended_lines rd ps (length ps) (iter (remdups (map pl_currency ps)))"
    by (simp add: appended_lines_def)
  then show ?thesis using assms(1) unfolding passes_def by metis
qed

section \<open>Properties\<close>

text \<open>
  Property C5. A strategy's proposal balances (R4): whatever lines the strategy computes, if
  \<open>propose\<close> yields an entry, then for every currency of the entry the debit total equals the
  credit total, as \<open>ProposedJournalEntry.is_balanced\<close> computes them. Amounts are assumed to
  lie on a decimal grid and to sum to less than the 28 digits of the context.
\<close>

theorem propose_balanced:
  assumes iter: "permutes_lists iter" and wf: "wf_strategy st"
    and p: "propose iter st ev rd = Inr r" "sr_proposed_entry r = Some e"
    and ex: "exact_terms k (map pl_amount (filter (\<lambda>l. \<not> pl_is_rounding l) (pe_lines e)))"
  shows "pe_is_balanced e None"
proof -
  obtain specs ps ls where pass: "passes iter st ev rd specs ps ls" and e: "e = build_entry st ev rd ls"
    using propose_success [OF iter p] by blast
  have ex: "exact_terms k (map pl_amount ps)"
    using ex passes_split(2) [OF pass] by (simp add: e build_entry_def)
  have bal: "dsum (side_amounts DEBIT (Some c) ls) = dsum (side_amounts CREDIT (Some c) ls)"
    if "c \<in> pl_currency ` set ls" for c
    using pass iter
  proof (cases rule: appended_cases)
    case none
    then show ?thesis using that by (auto simp: currency_imbalance_def)
  next
    case (one d)
    have d: "pl_currency (rounding_for rd ps (length ps) d) = d"
      using one(2) wf_strategy_normal [OF wf pass] by auto
    show ?thesis
    proof (cases "c = d")
      case True
      then show ?thesis using rounding_balances [OF ex one(3) d] one(1) by simp
    next
      case False
      then have "side_amounts s (Some c) ls = side_amounts s (Some c) ps" for s
        using one(1) d by (simp add: side_amounts_single)
      moreover have "c \<in> pl_currency ` set ps" using that one(1) d False by auto
      ultimately show ?thesis using one(5) False by (auto simp: currency_imbalance_def)
    qed
  qed
  then show ?thesis
    by (simp add: pe_is_balanced_None pe_total_debits_def pe_total_credits_def pe_currencies_def
        e build_entry_def)
qed

text \<open>
  A strategy with three computed lines whose debits exceed the credits by one cent, and the
  entry that the proposal completes with a rounding line.
\<close>

definition demo_line :: "string \<Rightarrow> line_side \<Rightarrow> decimal \<Rightarrow> line_spec" where
  "demo_line acc sd amt =
     \<lparr>ls_account_code = acc, ls_side = sd, ls_money = \<lparr>amount = amt, currency = Currency ''USD''\<rparr>,
      ls_dimensions = None, ls_memo = None, ls_is_rounding = False\<rparr>"

definition demo_specs :: "line_spec list" where
  "demo_specs = [demo_line ''1000'' DEBIT (10001/100), demo_line ''4000'' CREDIT 80,
     demo_line ''4100'' CREDIT 20]"

definition demo_strategy :: posting_strategy where
  "demo_strategy =
     \<lparr>st_event_type = ''demo'', st_version = 1, st_supported_from_version = 1,
      st_supported_to_version = None, st_replay_policy = STRICT,
      st_compute_line_specs = (\<lambda>_ _. Inr demo_specs)\<rparr>"

definition demo_event :: event_envelope where
  "demo_event =
     \<lparr>event_id = 1, event_type = ''demo'', occurred_at = 0, effective_date = 0, actor_id = 2,
      producer = ''test'', payload = [], payload_hash = [], schema_version = 1\<rparr>"

definition demo_reference :: reference_data where
  "demo_reference =
     \<lparr>rd_account_ids_by_code = [(''1000'', 10), (''4000'', 40), (''4100'', 41)],
      rd_active_account_codes = [''1000'', ''4000'', ''4100''], rd_valid_currencies = [Currency ''USD''],
      rd_rounding_account_ids = [(''USD'', 99)], rd_exchange_rates = None,
      rd_required_dimensions = [], rd_active_dimensions = [], rd_active_dimension_values = [],
      rd_coa_version = 1, rd_dimension_schema_version = 1, rd_rounding_policy_version = 1,
      rd_currency_registry_version = 1\<rparr>"

definition demo_lines :: "proposed_line list" where
  "demo_lines =
     [resolve_line 10 0 (demo_line ''1000'' DEBIT (10001/100)), resolve_line 40 1 (demo_line ''4000'' CREDIT 80),
      resolve_line 41 2 (demo_line ''4100'' CREDIT 20),
      rounding_line 99 (1/100) \<lparr>amount = 1/100, currency = Currency ''USD''\<rparr> 3]"

lemmas demo_defs = demo_line_def demo_specs_def demo_strategy_def demo_event_def demo_reference_def

lemma usd [simp]: "is_valid ''USD''" "get_rounding_tolerance ''USD'' = 1/100" "strip (upper ''USD'') = ''USD''"
  "strip ''USD'' = ''USD''" "upper ''USD'' = ''USD''" "map_of currencies ''USD'' \<noteq> None"
  by code_simp+

lemma demo_balance:
  "dsum [10001/100] = 10001/100" "dsum [80, 20] = 100" "dsub (10001/100) 100 = 1/100" "dabs (1/100) = 1/100"
  "max_rounding_allowed (Suc (Suc (Suc 0))) = 3/100"
  by (simp_all add: dsum_def dec_defs max_rounding_allowed_def)

lemma demo_resolved:
  "resolve_accounts demo_specs demo_reference = (butlast demo_lines, [])"
  by (simp add: resolve_accounts_def demo_defs demo_lines_def get_account_id_def is_account_active_def
      eval_nat_numeral)

lemma demo_balanced:
  "balance_and_round id (butlast demo_lines) demo_reference = Inr (demo_lines, [])"
  by (simp add: balance_and_round_def demo_lines_def demo_line_def resolve_line_def pl_currency_def
      currency_imbalance_def side_amounts_def pl_amount_def demo_balance get_rounding_account_id_def
      demo_reference_def money_of_def mk_currency_eq Let_def eval_nat_numeral)

lemma demo_propose:
  "propose id demo_strategy demo_event demo_reference =
     Inr (sr_success (build_entry demo_strategy demo_event demo_reference demo_lines))"
proof -
  have "validate_rounding_invariants demo_lines = []"
    by (simp add: validate_rounding_invariants_def demo_lines_def demo_line_def resolve_line_def
        rounding_line_def demo_balance pl_amount_def)
  moreover have "validate_currencies demo_specs = []" "validate_no_rounding_lines demo_specs = None"
    by (simp_all add: validate_currencies_Nil validate_no_rounding_lines_None demo_specs_def
        demo_line_def ls_currency_def)
  moreover have "finish_entry st ev rd demo_lines = sr_success (build_entry st ev rd demo_lines)" for st ev rd
    by (simp add: finish_entry_def mk_proposed_entry_def build_entry_def demo_lines_def)
  moreover have "demo_specs \<noteq> []" "validate_dimensions ls demo_reference = []" for ls
    by (simp_all add: demo_specs_def validate_dimensions_def demo_reference_def)
  ultimately show ?thesis
    by (simp add: propose_def demo_resolved demo_balanced demo_strategy_def)
qed

lemma demo_wf: "wf_strategy demo_strategy" "permutes_lists id"
proof -
  have "wf_currency (Currency ''USD'')" unfolding wf_currency_def by simp
  then show "wf_strategy demo_strategy"
    by (auto simp: wf_strategy_def demo_defs wf_line_spec_def ls_amount_def)
qed (simp add: permutes_lists_def)

lemma demo_exact: "exact_terms 2 (map pl_amount (filter (\<lambda>l. \<not> pl_is_rounding l) demo_lines))"
  by (simp add: demo_lines_def resolve_line_def demo_line_def rounding_line_def exact_terms_def on_grid_def
      pl_amount_def)

theorem propose_balanced_witness:
  "pe_is_balanced (build_entry demo_strategy demo_event demo_reference demo_lines) None"
proof (rule propose_balanced [OF demo_wf(2,1) demo_propose, where k = 2])
  show "sr_proposed_entry (sr_success (build_entry demo_strategy demo_event demo_reference demo_lines)) =
      Some (build_entry demo_strategy demo_event demo_reference demo_lines)"
    by (simp add: sr_success_def)
qed (simp add: build_entry_def demo_exact)

text \<open>
  Property C32. \<open>propose\<close> always returns (no exception escapes, the strategy's own included), its
  result is valid exactly when it carries an entry, and the entry's lines are the strategy's
  lines in their order, each on the account its code names, which exists and is active, numbered
  from 0, followed by at most one rounding line (R5). The rounding line is not larger than one
  cent per computed line (R5) nor than one unit of the currency's last place (R22), and it is
  posted to the rounding account of its currency.
\<close>

theorem propose_lines:
  assumes iter: "permutes_lists iter" and wf: "wf_strategy st"
  shows "\<exists>r. propose iter st ev rd = Inr r \<and> (sr_is_valid r \<longleftrightarrow> sr_proposed_entry r \<noteq> None)
    \<and> (\<forall>e. sr_proposed_entry r = Some e \<longrightarrow>
        (\<exists>specs ps rnd. st_compute_line_specs st ev rd = Inr specs \<and> pe_lines e = ps @ rnd
           \<and> list_all2 (\<lambda>(i, l) p. resolves rd i l p) (enumerate 0 specs) ps
           \<and> length rnd \<le> 1
           \<and> (\<forall>l \<in> set rnd. pl_is_rounding l \<and> pl_amount l \<le> max_rounding_allowed (length specs)
                \<and> pl_amount l \<le> get_rounding_tolerance (pl_currency l)
                \<and> get_rounding_account_id rd (pl_currency l) = Some (pl_account_id l))))"
  (is "\<exists>r. _ \<and> _ \<and> ?ok r")
proof (cases rule: propose_cases [OF iter, of st ev rd])
  case (1 specs ps ls)
  define app where "app = appended_lines rd ps (length ps) (iter (remdups (map pl_currency ps)))"
  have len: "length ps = length specs"
    using list_all2_lengthD [OF passes_resolved(1) [OF 1(1)]] by simp
  have bounds: "pl_amount l \<le> get_rounding_tolerance (pl_currency l)
      \<and> get_rounding_account_id rd (pl_currency l) = Some (pl_account_id l)" if app: "l \<in> set app" for l
  proof -
    obtain c i where c: "c \<in> pl_currency ` set ps" and l: "l = rounding_for rd ps i c"
      and err: "currency_error rd ps c = []" "currency_imbalance ps c \<noteq> 0"
      using app unfolding app_def by (elim appendedE) (auto simp: permutes_set [OF iter])
    have "strip (upper c) = c" using c wf_strategy_normal [OF wf 1(1)] by auto
    then show ?thesis using err
      by (auto simp: l currency_error_def Let_def not_less rounding_for_def rounding_line_def pl_currency_def
          pl_amount_def split: if_splits option.splits)
  qed
  let ?e = "build_entry st ev rd ls"
  have e: "sr_is_valid (sr_success ?e)" "sr_proposed_entry (sr_success ?e) = Some ?e" "pe_lines ?e = ls"
    by (simp_all add: sr_is_valid_def sr_success_def vr_success_def build_entry_def)
  have app: "ls = ps @ app" "length app \<le> 1" "\<forall>l \<in> set app. pl_amount l \<le> max_rounding_allowed (length specs)"
    using passes_split [OF 1(1)] by (simp_all add: app_def len)
  have rnd: "\<forall>l \<in> set app. pl_is_rounding l" unfolding app_def using appended_all_rounding by blast
  have specs: "st_compute_line_specs st ev rd = Inr specs" using 1(1) by (simp add: passes_def)
  have "?ok (sr_success ?e)"
    using e(2,3) app rnd specs bounds passes_resolved(1) [OF 1(1)]
    by (intro allI impI exI [of _ specs] exI [of _ ps] exI [of _ app]) simp
  then show ?thesis using 1(2) e(1,2) by blast
next
  case (2 es)
  then show ?thesis by (auto simp: sr_is_valid_def sr_failure_def vr_failure_def)
qed

theorem propose_lines_witness:
  "\<exists>r e specs. propose id demo_strategy demo_event demo_reference = Inr r \<and> sr_proposed_entry r = Some e
     \<and> st_compute_line_specs demo_strategy demo_event demo_reference = Inr specs
     \<and> length (pe_lines e) \<le> Suc (length specs)"
proof -
  have "\<exists>r. propose id demo_strategy demo_event demo_reference = Inr r \<and> sr_proposed_entry r \<noteq> None"
    by (simp add: demo_propose sr_success_def)
  then show ?thesis
    using propose_lines [OF demo_wf(2,1), of demo_event demo_reference]
    by (fastforce dest: list_all2_lengthD)
qed

text \<open>
  The proposal is deterministic although Python iterates a set of currencies in an
  unspecified order: any two orders yield the same validity and the same entry.
\<close>

theorem propose_deterministic:
  assumes "permutes_lists iter" "permutes_lists iter'"
  shows "\<exists>r r'. propose iter st ev rd = Inr r \<and> propose iter' st ev rd = Inr r'
    \<and> sr_proposed_entry r = sr_proposed_entry r' \<and> sr_is_valid r = sr_is_valid r'"
proof (cases rule: propose_cases [OF assms(1), of st ev rd])
  case (1 specs ps ls)
  then have p: "passes iter' st ev rd specs ps ls" using passes_iter assms by blast
  then show ?thesis
  proof (cases rule: propose_cases [OF assms(2), of st ev rd])
    case ok: (1 specs' ps' ls')
    then have "ls' = ls" using p by (auto simp: passes_def)
    then show ?thesis using 1 ok by simp
  next
    case (2 es)
    then show ?thesis using p by blast
  qed
next
  case fail: (2 es)
  then show ?thesis
  proof (cases rule: propose_cases [OF assms(2), of st ev rd])
    case (1 specs ps ls)
    then show ?thesis using fail(2) passes_iter assms by blast
  next
    case (2 es')
    then show ?thesis using fail(1) by (simp add: sr_failure_def sr_is_valid_def vr_failure_def)
  qed
qed

theorem propose_deterministic_witness:
  "\<exists>r'. propose rev demo_strategy demo_event demo_reference = Inr r'
     \<and> sr_proposed_entry r' = Some (build_entry demo_strategy demo_event demo_reference demo_lines)"
proof -
  have "permutes_lists rev" by (simp add: permutes_lists_def)
  from propose_deterministic [OF demo_wf(2) this, of demo_strategy demo_event demo_reference]
  show ?thesis by (auto simp: demo_propose sr_success_def)
qed

text \<open>
  The fixed one-cent bound of R5 and the per-currency tolerance of R22 disagree for
  currencies without minor units: when all computed amounts are whole units, a rounding line is
  only ever accepted in an entry of at least a hundred computed lines, although the tolerance of
  such a currency is a whole unit.
\<close>

theorem whole_unit_rounding:
  assumes iter: "permutes_lists iter"
    and p: "propose iter st ev rd = Inr r" "sr_proposed_entry r = Some e"
    and ex: "exact_terms 0 (map pl_amount (filter (\<lambda>l. \<not> pl_is_rounding l) (pe_lines e)))"
    and rnd: "\<exists>l \<in> set (pe_lines e). pl_is_rounding l"
  shows "100 \<le> length (filter (\<lambda>l. \<not> pl_is_rounding l) (pe_lines e))"
proof -
  obtain specs ps ls where pass: "passes iter st ev rd specs ps ls" and e: "e = build_entry st ev rd ls"
    using propose_success [OF iter p] by blast
  have ls: "pe_lines e = ls" by (simp add: e build_entry_def)
  note sp = passes_split [OF pass]
  have ex: "exact_terms 0 (map pl_amount ps)" using ex sp(2) by (simp add: ls)
  obtain l where "l \<in> set (appended_lines rd ps (length ps) (iter (remdups (map pl_currency ps))))"
    and small: "pl_amount l \<le> max_rounding_allowed (length ps)"
    using rnd sp(1,5) by (metis (mono_tags, lifting) filter_set ls mem_Collect_eq set_filter)
  then obtain i c where l: "l = rounding_for rd ps i c" and imb: "currency_imbalance ps c \<noteq> 0"
    by (elim appendedE)
  have "on_grid 0 (currency_imbalance ps c)"
    using exact_terms_sum(1) [OF exact_side_amounts [OF ex]] by (simp add: exact_imbalance [OF ex])
  then obtain z :: int where z: "currency_imbalance ps c = of_int z" by (auto elim: on_gridE)
  have "dfix (currency_imbalance ps c) = currency_imbalance ps c" by (simp add: currency_imbalance_def dsub_def)
  then have "pl_amount l = \<bar>of_int z\<bar>" using l z by (simp add: dabs_def dfix_abs)
  then have one: "1 \<le> pl_amount l" using imb z by (simp flip: of_int_abs)
  show ?thesis
  proof (rule ccontr)
    assume "\<not> ?thesis"
    then have n: "length ps \<le> 99" using sp(2) by (simp add: ls)
    have "dfix (of_nat (length ps) / 100) = of_nat (length ps) / (100 :: rat)"
      by (rule dfix_grid [where k = 2]) (use n in \<open>simp_all add: on_grid_def\<close>)
    then have "max_rounding_allowed (length ps) \<le> 99/100"
      using n by (simp add: max_rounding_allowed_def dmul_def)
    then show False using one small by simp
  qed
qed

text \<open>An entry in yen: one debit of 100 and 99 credits of 1, hence a hundred computed lines.\<close>

definition yen_line :: "string \<Rightarrow> line_side \<Rightarrow> decimal \<Rightarrow> line_spec" where
  "yen_line acc sd amt = (demo_line acc sd amt)\<lparr>ls_money := \<lparr>amount = amt, currency = Currency ''JPY''\<rparr>\<rparr>"

definition yen_strategy :: posting_strategy where
  "yen_strategy = demo_strategy\<lparr>st_compute_line_specs :=
     (\<lambda>_ _. Inr (yen_line ''1000'' DEBIT 100 # replicate 99 (yen_line ''4000'' CREDIT 1)))\<rparr>"

definition yen_reference :: reference_data where
  "yen_reference = demo_reference\<lparr>rd_rounding_account_ids := [(''JPY'', 99)]\<rparr>"

definition yen_lines :: "proposed_line list" where
  "yen_lines = resolve_line 10 0 (yen_line ''1000'' DEBIT 100)
     # map (\<lambda>i. resolve_line 40 i (yen_line ''4000'' CREDIT 1)) [1..<100]"

lemma jpy [simp]: "is_valid ''JPY''" "get_rounding_tolerance ''JPY'' = 1" "strip ''JPY'' = ''JPY''"
  "upper ''JPY'' = ''JPY''"
  by code_simp+

lemma yen_resolve:
  "resolve_accounts_from i yen_reference (replicate n (yen_line ''4000'' CREDIT 1)) =
     (map (\<lambda>i. resolve_line 40 i (yen_line ''4000'' CREDIT 1)) [i..<i + n], [])"
proof (induction n arbitrary: i)
  case (Suc n)
  have "get_account_id yen_reference ''4000'' = Some 40" "is_account_active yen_reference ''4000''"
    by (simp_all add: yen_reference_def demo_reference_def get_account_id_def is_account_active_def)
  then show ?case using Suc [of "Suc i"]
    by (simp add: yen_line_def demo_line_def upt_rec [of i])
qed simp

lemma yen_resolved:
  "resolve_accounts (yen_line ''1000'' DEBIT 100 # replicate 99 (yen_line ''4000'' CREDIT 1)) yen_reference =
     (yen_lines, [])"
proof -
  have "get_account_id yen_reference ''1000'' = Some 10" "is_account_active yen_reference ''1000''"
    by (simp_all add: yen_reference_def demo_reference_def get_account_id_def is_account_active_def)
  then show ?thesis using yen_resolve [of "Suc 0" 99]
    by (simp add: resolve_accounts_def yen_lines_def) (simp add: yen_line_def demo_line_def)
qed

lemma yen_side_amounts:
  "side_amounts DEBIT (Some ''JPY'') yen_lines = [100]"
  "side_amounts CREDIT (Some ''JPY'') yen_lines = replicate 99 1"
  by (simp_all add: yen_lines_def side_amounts_def resolve_line_def yen_line_def demo_line_def pl_currency_def
      pl_amount_def comp_def map_replicate_const del: upt_conv_Cons)

lemma yen_exact: "exact_terms 0 (map pl_amount yen_lines)"
proof -
  have "map pl_amount yen_lines = 100 # replicate 99 1"
    by (simp add: yen_lines_def resolve_line_def yen_line_def demo_line_def pl_amount_def comp_def
        map_replicate_const)
  then show ?thesis by (simp add: exact_terms_def list_all_iff on_grid_def sum_list_replicate)
qed

lemma yen_imbalance: "currency_imbalance yen_lines ''JPY'' = 1"
  by (simp add: exact_imbalance [OF yen_exact] yen_side_amounts sum_list_replicate)

lemma yen_currencies: "remdups (map pl_currency yen_lines) = [''JPY'']"
proof -
  have once: "remdups (replicate (Suc n) x) = [x]" for n and x :: string by (induction n) simp_all
  have "map pl_currency yen_lines = ''JPY'' # replicate 99 ''JPY''"
    by (simp add: yen_lines_def resolve_line_def yen_line_def demo_line_def pl_currency_def comp_def
        map_replicate_const)
  then show ?thesis by (simp only: once flip: replicate_Suc)
qed

lemma yen_passes:
  "passes id yen_strategy demo_event yen_reference
     (yen_line ''1000'' DEBIT 100 # replicate 99 (yen_line ''4000'' CREDIT 1)) yen_lines
     (yen_lines @ [rounding_for yen_reference yen_lines 100 ''JPY''])"
proof -
  have acc: "get_rounding_account_id yen_reference ''JPY'' = Some 99"
    by (simp add: yen_reference_def get_rounding_account_id_def)
  have len: "length yen_lines = 100" by (simp add: yen_lines_def)
  have plain: "\<forall>p \<in> set yen_lines. \<not> pl_is_rounding p \<and> pl_currency p = ''JPY''"
    by (auto simp: yen_lines_def resolve_line_def yen_line_def demo_line_def pl_currency_def)
  have err: "currency_error yen_reference yen_lines ''JPY'' = []"
    by (simp add: currency_error_def yen_imbalance acc dabs_def)
  have app: "appended_lines yen_reference yen_lines (length yen_lines) [''JPY''] =
      [rounding_for yen_reference yen_lines 100 ''JPY'']"
    by (simp add: appended_lines_def rounded_currencies_def yen_imbalance err len)
  have "filter (\<lambda>l. \<not> pl_is_rounding l) yen_lines = yen_lines" "filter pl_is_rounding yen_lines = []"
    using plain by (simp_all add: filter_id_conv filter_empty_conv)
  moreover have "max_rounding_allowed 100 = 1" by (simp add: max_rounding_allowed_def dmul_def)
  ultimately have "validate_rounding_invariants
      (yen_lines @ [rounding_for yen_reference yen_lines 100 ''JPY'']) = []"
    by (simp add: validate_rounding_invariants_def len yen_imbalance dabs_def)
  moreover have "\<forall>p \<in> set yen_lines. currency_error yen_reference yen_lines (pl_currency p) = []"
    using plain err by auto
  moreover have "validate_dimensions yen_lines yen_reference = []"
    by (simp add: validate_dimensions_def yen_reference_def demo_reference_def)
  ultimately show ?thesis
    by (simp add: passes_def yen_resolved yen_currencies app yen_strategy_def)
      (simp add: yen_line_def demo_line_def ls_currency_def)
qed

theorem whole_unit_rounding_witness:
  "\<exists>r e. propose id yen_strategy demo_event yen_reference = Inr r \<and> sr_proposed_entry r = Some e
     \<and> 100 \<le> length (filter (\<lambda>l. \<not> pl_is_rounding l) (pe_lines e))"
proof (cases rule: propose_cases [OF demo_wf(2), of yen_strategy demo_event yen_reference])
  case (1 specs ps ls)
  have ls: "ls = yen_lines @ [rounding_for yen_reference yen_lines 100 ''JPY'']"
    using 1(1) yen_passes by (auto simp: passes_def)
  let ?e = "build_entry yen_strategy demo_event yen_reference ls"
  have "filter (\<lambda>l. \<not> pl_is_rounding l) ls = yen_lines"
    using passes_split(2) [OF 1(1)] passes_split(2) [OF yen_passes] ls by simp
  then have "100 \<le> length (filter (\<lambda>l. \<not> pl_is_rounding l) (pe_lines ?e))"
    using whole_unit_rounding [OF demo_wf(2) 1(2), of ?e] yen_exact
    by (simp add: sr_success_def build_entry_def ls)
  then show ?thesis using 1(2) by (auto simp: sr_success_def)
next
  case (2 es)
  then show ?thesis using yen_passes by blast
qed

end
