(* ===== verification/Strategy_Registry.thy ===== *)
theory Strategy_Registry
  imports Posting_Strategy "HOL-Library.AList" "HOL-Library.List_Lexorder" "HOL-Library.Char_ord"
begin

text \<open>
  \<open>finance_kernel/domain/strategy_registry.py\<close> and \<open>domain/bookkeeper.py\<close>: the registry of posting
  strategies by event type and version, and the bookkeeper, the pure core that looks a strategy up
  and runs it. The class-level dict of dicts is an association list of association lists, in
  insertion order; \<open>del\<close> and assignment are \<open>AList.delete\<close> and \<open>AList.update\<close>. The check that
  the replay policy is an enum member holds by typing. The decorator \<open>strategy_for\<close> overrides
  attributes of a Python instance and is not modelled.

  The specification of the registry is a partial map from (event type, version); the operations
  refine it. The bookkeeper's lemmas are proved from the interface \<open>strategy_source\<close> only.
\<close>

section \<open>Registry\<close>

datatype registry_exc =
    RegistryPy py_exc
  | StrategyNotFoundError string
  | StrategyVersionNotFoundError string int "int list"
  | StrategyLifecycleError string int
  | StrategyIncompatibleError string int int int "int option"

type_synonym versions = "(int \<times> posting_strategy) list"
type_synonym registry = "(string \<times> versions) list"

definition validate_lifecycle :: "posting_strategy \<Rightarrow> registry_exc + unit" where
  "validate_lifecycle st =
     (if st_version st < 1 then Inl (StrategyLifecycleError (st_event_type st) (st_version st))
      else if st_supported_from_version st < 1 then Inl (StrategyLifecycleError (st_event_type st) (st_version st))
      else if (case st_supported_to_version st of None \<Rightarrow> False | Some t \<Rightarrow> t < st_supported_from_version st)
      then Inl (StrategyLifecycleError (st_event_type st) (st_version st))
      else Inr ())"

definition versions_of :: "string \<Rightarrow> registry \<Rightarrow> versions" where
  "versions_of et reg = (case map_of reg et of None \<Rightarrow> [] | Some vs \<Rightarrow> vs)"

definition register :: "posting_strategy \<Rightarrow> registry \<Rightarrow> registry_exc + registry" where
  "register st reg =
     rbind (validate_lifecycle st) (\<lambda>_.
       let vs = versions_of (st_event_type st) reg
       in if map_of vs (st_version st) \<noteq> None then Inl (RegistryPy ValueError)
          else Inr (AList.update (st_event_type st) (AList.update (st_version st) st vs) reg))"

definition get_latest_version :: "string \<Rightarrow> registry \<Rightarrow> registry_exc + int" where
  "get_latest_version et reg =
     (case map_of reg et of
        None \<Rightarrow> Inl (StrategyNotFoundError et)
      | Some vs \<Rightarrow> if vs = [] then Inl (StrategyNotFoundError et) else Inr (Max (set (map fst vs))))"

definition get_strategy :: "string \<Rightarrow> int option \<Rightarrow> registry \<Rightarrow> registry_exc + posting_strategy" where
  "get_strategy et version reg =
     (case map_of reg et of
        None \<Rightarrow> Inl (StrategyNotFoundError et)
      | Some vs \<Rightarrow>
          if vs = [] then Inl (StrategyNotFoundError et)
          else case version of
            None \<Rightarrow> Inr (the (map_of vs (Max (set (map fst vs)))))
          | Some v \<Rightarrow>
              (case map_of vs v of
                 None \<Rightarrow> Inl (StrategyVersionNotFoundError et v (sort (map fst vs)))
               | Some st \<Rightarrow> Inr st))"

definition get_all_versions :: "string \<Rightarrow> registry \<Rightarrow> registry_exc + int list" where
  "get_all_versions et reg =
     (case map_of reg et of
        None \<Rightarrow> Inl (StrategyNotFoundError et)
      | Some vs \<Rightarrow> Inr (sort (map fst vs)))"

definition list_event_types :: "registry \<Rightarrow> string list" where
  "list_event_types reg = sort (map fst reg)"

definition has_strategy :: "string \<Rightarrow> registry \<Rightarrow> bool" where
  "has_strategy et reg \<longleftrightarrow> (case map_of reg et of None \<Rightarrow> False | Some vs \<Rightarrow> vs \<noteq> [])"

definition get_for_replay :: "string \<Rightarrow> int \<Rightarrow> int \<Rightarrow> registry \<Rightarrow> registry_exc + posting_strategy" where
  "get_for_replay et original_version system_version reg =
     rbind (get_strategy et (Some original_version) reg) (\<lambda>st.
       if \<not> is_compatible_with_system_version st system_version
       then Inl (StrategyIncompatibleError et original_version system_version
              (st_supported_from_version st) (st_supported_to_version st))
       else if st_replay_policy st = STRICT then Inr st
       else Inr st)"

definition get_compatible_strategies :: "string \<Rightarrow> int \<Rightarrow> registry \<Rightarrow> registry_exc + posting_strategy list" where
  "get_compatible_strategies et system_version reg =
     (case map_of reg et of
        None \<Rightarrow> Inl (StrategyNotFoundError et)
      | Some vs \<Rightarrow>
          Inr (sort_key st_version
            (filter (\<lambda>st. is_compatible_with_system_version st system_version) (map snd vs))))"

definition clear_registry :: "registry \<Rightarrow> registry" where
  "clear_registry reg = []"

definition unregister :: "string \<Rightarrow> int option \<Rightarrow> registry \<Rightarrow> registry" where
  "unregister et version reg =
     (case map_of reg et of
        None \<Rightarrow> reg
      | Some vs \<Rightarrow>
          (case version of
             None \<Rightarrow> AList.delete et reg
           | Some v \<Rightarrow>
               if map_of vs v = None then reg
               else let vs' = AList.delete v vs
                    in if vs' = [] then AList.delete et (AList.update et vs' reg)
                       else AList.update et vs' reg))"

definition register_strategy :: "posting_strategy \<Rightarrow> registry \<Rightarrow> registry_exc + posting_strategy \<times> registry" where
  "register_strategy st reg = rmap (Pair st) (register st reg)"

section \<open>Bookkeeper\<close>

record bookkeeper_result =
  br_proposed_entry :: "proposed_entry option"
  br_validation :: validation_result
  br_strategy_version :: "int option"

definition br_success :: "proposed_entry \<Rightarrow> int \<Rightarrow> py_exc + bookkeeper_result" where
  "br_success e v =
     (if \<not> v \<ge> 1 then Inl AssertionError
      else Inr \<lparr>br_proposed_entry = Some e, br_validation = vr_success, br_strategy_version = Some v\<rparr>)"

definition br_failure :: "validation_error list \<Rightarrow> bookkeeper_result" where
  "br_failure es = \<lparr>br_proposed_entry = None, br_validation = vr_failure es, br_strategy_version = None\<rparr>"

definition br_is_valid :: "bookkeeper_result \<Rightarrow> bool" where
  "br_is_valid r \<longleftrightarrow> vr_is_valid (br_validation r) \<and> br_proposed_entry r \<noteq> None"

text \<open>
  The lookup is a parameter, so that the bookkeeper runs on any registry; \<open>get_strategy\<close> is the one it
  is given by default.
\<close>

definition bookkeeper_propose ::
    "(string list \<Rightarrow> string list) \<Rightarrow> (string \<Rightarrow> int option \<Rightarrow> registry_exc + posting_strategy) \<Rightarrow> event_envelope
     \<Rightarrow> reference_data \<Rightarrow> int option \<Rightarrow> registry_exc + bookkeeper_result" where
  "bookkeeper_propose iter get ev rd strategy_version =
     (case get (event_type ev) strategy_version of
        Inl (StrategyNotFoundError t) \<Rightarrow> Inr (br_failure [verr ''STRATEGY_NOT_FOUND'' None])
      | Inl (StrategyVersionNotFoundError t v vs) \<Rightarrow> Inr (br_failure [verr ''STRATEGY_VERSION_NOT_FOUND'' None])
      | Inl e \<Rightarrow> Inl e
      | Inr st \<Rightarrow>
          (case propose iter st ev rd of
             Inl e \<Rightarrow> Inr (br_failure [verr ''STRATEGY_ERROR'' None])
           | Inr r \<Rightarrow>
               if sr_is_valid r \<and> sr_proposed_entry r \<noteq> None
               then map_sum RegistryPy id (br_success (the (sr_proposed_entry r)) (st_version st))
               else Inr (br_failure (vr_errors (sr_validation r)))))"

definition bookkeeper_validate_event ::
    "(string list \<Rightarrow> string list) \<Rightarrow> registry \<Rightarrow> event_envelope \<Rightarrow> reference_data \<Rightarrow> registry_exc + validation_result" where
  "bookkeeper_validate_event iter reg ev rd =
     rmap br_validation (bookkeeper_propose iter (\<lambda>t v. get_strategy t v reg) ev rd None)"

definition can_handle :: "string \<Rightarrow> registry \<Rightarrow> bool" where
  "can_handle et reg = has_strategy et reg"

definition get_strategy_version :: "string \<Rightarrow> registry \<Rightarrow> registry_exc + int option" where
  "get_strategy_version et reg =
     (case get_latest_version et reg of
        Inr v \<Rightarrow> Inr (Some v)
      | Inl (StrategyNotFoundError t) \<Rightarrow> Inr None
      | Inl e \<Rightarrow> Inl e)"

section \<open>The specification: a partial map\<close>

text \<open>
  Well-formed registries: keys are distinct, no inner dict is empty, and every strategy sits under
  its own type and version. \<open>abs_registry\<close> reads a registry as a map.
\<close>

definition wf_versions :: "string \<Rightarrow> versions \<Rightarrow> bool" where
  "wf_versions et vs \<longleftrightarrow> vs \<noteq> [] \<and> distinct (map fst vs)
     \<and> list_all (\<lambda>(v, st). st_event_type st = et \<and> st_version st = v \<and> 1 \<le> v) vs"

definition wf_registry :: "registry \<Rightarrow> bool" where
  "wf_registry reg \<longleftrightarrow> distinct (map fst reg) \<and> list_all (\<lambda>(et, vs). wf_versions et vs) reg"

type_synonym registry_spec = "string \<times> int \<rightharpoonup> posting_strategy"

definition abs_registry :: "registry \<Rightarrow> registry_spec" where
  "abs_registry reg = (\<lambda>(et, v). map_of (versions_of et reg) v)"

definition spec_register :: "posting_strategy \<Rightarrow> registry_spec \<Rightarrow> registry_exc + registry_spec" where
  "spec_register st m =
     rbind (validate_lifecycle st) (\<lambda>_.
       if m (st_event_type st, st_version st) \<noteq> None then Inl (RegistryPy ValueError)
       else Inr (m((st_event_type st, st_version st) \<mapsto> st)))"

definition spec_versions :: "string \<Rightarrow> registry_spec \<Rightarrow> int set" where
  "spec_versions et m = {v. m (et, v) \<noteq> None}"

definition spec_get :: "string \<Rightarrow> int option \<Rightarrow> registry_spec \<Rightarrow> registry_exc + posting_strategy" where
  "spec_get et version m =
     (if spec_versions et m = {} then Inl (StrategyNotFoundError et)
      else case version of
        None \<Rightarrow> Inr (the (m (et, Max (spec_versions et m))))
      | Some v \<Rightarrow>
          (case m (et, v) of
             None \<Rightarrow> Inl (StrategyVersionNotFoundError et v (sorted_list_of_set (spec_versions et m)))
           | Some st \<Rightarrow> Inr st))"

definition spec_unregister :: "string \<Rightarrow> int option \<Rightarrow> registry_spec \<Rightarrow> registry_spec" where
  "spec_unregister et version m =
     (\<lambda>k. if fst k = et \<and> (version = None \<or> version = Some (snd k)) then None else m k)"

lemma map_of_update [simp]: "map_of (AList.update k v al) = (map_of al)(k \<mapsto> v)"
  by (simp add: update_conv')

lemma map_of_delete [simp]: "map_of (AList.delete k al) = (map_of al)(k := None)"
  by (simp add: delete_conv')

lemma set_delete_subset: "x \<in> set (AList.delete k al) \<Longrightarrow> x \<in> set al"
  by (simp add: AList.delete_eq)

lemma versions_of_update [simp]: "versions_of e (AList.update et vs reg) = (if e = et then vs else versions_of e reg)"
  by (simp add: versions_of_def)

lemma versions_of_delete [simp]: "versions_of e (AList.delete et reg) = (if e = et then [] else versions_of e reg)"
  by (simp add: versions_of_def)

lemma wf_versions_of: "wf_registry reg \<Longrightarrow> map_of reg et = Some vs \<Longrightarrow> wf_versions et vs"
  by (drule map_of_SomeD) (auto simp: wf_registry_def list_all_iff)

lemma wf_strategy_key:
  assumes "wf_registry reg" "abs_registry reg (et, v) = Some st"
  shows "st_event_type st = et \<and> st_version st = v \<and> 1 \<le> v"
proof -
  from assms(2) obtain vs where "map_of reg et = Some vs" "map_of vs v = Some st"
    by (auto simp: abs_registry_def versions_of_def split: option.splits)
  then have "wf_versions et vs" "(v, st) \<in> set vs" by (simp_all add: wf_versions_of [OF assms(1)] map_of_SomeD)
  then show ?thesis by (auto simp: wf_versions_def list_all_iff)
qed

lemma spec_versions_abs: "spec_versions et (abs_registry reg) = set (map fst (versions_of et reg))"
  by (auto simp: spec_versions_def abs_registry_def map_of_eq_None_iff image_iff)

lemma set_update: "set (AList.update k v al) \<subseteq> insert (k, v) (set al)"
  by (induction al) auto

lemma wf_register:
  assumes "wf_registry reg" "register st reg = Inr reg'"
  shows "wf_registry reg'"
proof -
  from assms(2) have l: "validate_lifecycle st = Inr ()"
    and r: "reg' = AList.update (st_event_type st) (AList.update (st_version st) st (versions_of (st_event_type st) reg)) reg"
    by (auto simp: register_def result_iffs Let_def split: if_splits)
  let ?vs = "versions_of (st_event_type st) reg"
  have "distinct (map fst ?vs) \<and> list_all (\<lambda>(v, s). st_event_type s = st_event_type st \<and> st_version s = v \<and> 1 \<le> v) ?vs"
    using wf_versions_of [OF assms(1)] by (auto simp: versions_of_def wf_versions_def split: option.split)
  moreover have "1 \<le> st_version st" using l by (auto simp: validate_lifecycle_def split: if_splits)
  moreover have "AList.update (st_version st) st ?vs \<noteq> []" by (cases ?vs) auto
  ultimately have "wf_versions (st_event_type st) (AList.update (st_version st) st ?vs)"
    using set_update [of "st_version st" st ?vs] by (auto simp: wf_versions_def distinct_update list_all_iff)
  then show ?thesis using assms(1) set_update [of "st_event_type st" _ reg]
    by (auto simp: r wf_registry_def distinct_update list_all_iff dest!: subsetD)
qed

lemma wf_unregister:
  assumes "wf_registry reg"
  shows "wf_registry (unregister et version reg)"
proof (cases "map_of reg et")
  case (Some vs)
  note w = wf_versions_of [OF assms Some]
  have del: "wf_registry (AList.delete k r)" if "wf_registry r" for k r
    using that by (auto simp: wf_registry_def distinct_delete list_all_iff dest: set_delete_subset)
  have "wf_registry (AList.update et (AList.delete v vs) reg)" if "AList.delete v vs \<noteq> []" for v
  proof -
    have "wf_versions et (AList.delete v vs)"
      using w that by (auto simp: wf_versions_def distinct_delete list_all_iff dest: set_delete_subset)
    then show ?thesis using assms set_update [of et "AList.delete v vs" reg]
      by (auto simp: wf_registry_def distinct_update list_all_iff dest!: subsetD)
  qed
  moreover have "AList.delete et (AList.update et x reg) = AList.delete et reg" for x by (induction reg) auto
  ultimately show ?thesis using del [OF assms] assms
    by (auto simp: unregister_def Some Let_def split: option.split)
qed (simp add: unregister_def assms)

lemma register_refines: "rmap abs_registry (register st reg) = spec_register st (abs_registry reg)"
proof (cases "validate_lifecycle st")
  case (Inr u)
  have "abs_registry (AList.update (st_event_type st) (AList.update (st_version st) st (versions_of (st_event_type st) reg)) reg)
      = (abs_registry reg)((st_event_type st, st_version st) \<mapsto> st)"
    by (rule ext) (auto simp: abs_registry_def split: if_splits)
  then show ?thesis by (simp add: register_def spec_register_def Inr Let_def abs_registry_def)
qed (simp add: register_def spec_register_def)

lemma get_refines: "wf_registry reg \<Longrightarrow> get_strategy et version reg = spec_get et version (abs_registry reg)"
proof (cases "map_of reg et")
  case None
  then have "spec_versions et (abs_registry reg) = {}" by (simp add: spec_versions_abs versions_of_def)
  then show ?thesis using None by (simp add: get_strategy_def spec_get_def)
next
  case (Some vs)
  assume "wf_registry reg"
  then have w: "vs \<noteq> []" "distinct (map fst vs)" using wf_versions_of Some by (simp_all add: wf_versions_def)
  have "sorted_list_of_set (set (map fst vs)) = sort (map fst vs)"
    using w(2) by (simp only: sorted_list_of_set_sort_remdups distinct_remdups_id)
  moreover have v: "versions_of et reg = vs" using Some by (simp add: versions_of_def)
  moreover have "spec_versions et (abs_registry reg) = set (map fst vs)" by (simp only: spec_versions_abs v)
  moreover have "abs_registry reg (et, x) = map_of vs x" for x by (simp add: abs_registry_def v)
  ultimately show ?thesis using Some w(1)
    by (auto simp: get_strategy_def spec_get_def split: option.split)
qed

lemma unregister_refines: "abs_registry (unregister et version reg) = spec_unregister et version (abs_registry reg)"
proof (cases "map_of reg et")
  case None
  then have "versions_of et reg = []" by (simp add: versions_of_def)
  then show ?thesis using None by (auto simp: unregister_def spec_unregister_def abs_registry_def fun_eq_iff)
next
  case (Some vs)
  then have v: "versions_of et reg = vs" by (simp add: versions_of_def)
  have e: "AList.delete x vs = [] \<Longrightarrow> None = map_of vs w" if "x \<noteq> w" for x w
    using that map_of_delete [of x vs] by (metis fun_upd_other map_of.simps(1))
  show ?thesis
  proof (cases version)
    case None
    then show ?thesis using Some v by (auto simp: unregister_def spec_unregister_def abs_registry_def fun_eq_iff)
  next
    case (Some x)
    then show ?thesis using \<open>map_of reg et = Some vs\<close> v e
      by (auto simp: unregister_def spec_unregister_def abs_registry_def fun_eq_iff Let_def)
  qed
qed

section \<open>The bookkeeper over any strategy source\<close>

text \<open>
  What the bookkeeper relies on: a lookup either finds a strategy, under the version it was asked
  for, or raises one of the two not-found errors; the version of a strategy is positive and finds it
  again.
\<close>

locale strategy_source =
  fixes lookup :: "string \<Rightarrow> int option \<Rightarrow> registry_exc + posting_strategy"
  assumes found: "lookup et version = Inr st \<Longrightarrow> 1 \<le> st_version st \<and> lookup et (Some (st_version st)) = Inr st"
    and missing: "lookup et version = Inl e \<Longrightarrow>
      e = StrategyNotFoundError et \<or> (\<exists>v vs. e = StrategyVersionNotFoundError et v vs)"
begin

lemma bookkeeper_total: "\<exists>r. bookkeeper_propose iter lookup ev rd version = Inr r"
proof (cases "lookup (event_type ev) version")
  case (Inl e)
  then show ?thesis using missing [OF Inl] by (auto simp: bookkeeper_propose_def)
next
  case (Inr st)
  then show ?thesis using found [OF Inr]
    by (auto simp: bookkeeper_propose_def br_success_def split: sum.split)
qed

lemma bookkeeper_valid_iff:
  "bookkeeper_propose iter lookup ev rd version = Inr r \<and> br_is_valid r \<longleftrightarrow>
     (\<exists>st sr e. lookup (event_type ev) version = Inr st \<and> propose iter st ev rd = Inr sr \<and> sr_is_valid sr
        \<and> sr_proposed_entry sr = Some e
        \<and> r = \<lparr>br_proposed_entry = Some e, br_validation = vr_success, br_strategy_version = Some (st_version st)\<rparr>)"
proof (cases "lookup (event_type ev) version")
  case (Inl e)
  then show ?thesis using missing [OF Inl]
    by (auto simp: bookkeeper_propose_def br_failure_def br_is_valid_def vr_failure_def)
next
  case (Inr st)
  then show ?thesis using found [OF Inr]
    by (auto simp: bookkeeper_propose_def br_success_def br_failure_def br_is_valid_def vr_failure_def vr_success_def
        split: sum.splits if_splits)
qed

lemma replay_recorded_version:
  assumes "bookkeeper_propose iter lookup ev rd version = Inr r" "br_is_valid r"
  shows "\<exists>v. br_strategy_version r = Some v \<and> 1 \<le> v \<and> bookkeeper_propose iter lookup ev rd (Some v) = Inr r"
proof -
  from bookkeeper_valid_iff assms obtain st sr e where st: "lookup (event_type ev) version = Inr st"
    "propose iter st ev rd = Inr sr" "sr_is_valid sr" "sr_proposed_entry sr = Some e"
    "r = \<lparr>br_proposed_entry = Some e, br_validation = vr_success, br_strategy_version = Some (st_version st)\<rparr>" by blast
  with found [OF st(1)] have "bookkeeper_propose iter lookup ev rd (Some (st_version st)) = Inr r"
    using bookkeeper_valid_iff [of iter ev rd "Some (st_version st)" r] by blast
  then show ?thesis using found [OF st(1)] st(5) by auto
qed

end

lemma spec_get_key:
  assumes "wf_registry reg" "spec_get et version (abs_registry reg) = Inr st"
  shows "abs_registry reg (et, st_version st) = Some st"
proof (cases version)
  case None
  let ?V = "spec_versions et (abs_registry reg)"
  have "?V \<noteq> {}" and st: "st = the (abs_registry reg (et, Max ?V))"
    using assms(2) None by (auto simp: spec_get_def split: if_splits)
  then have "Max ?V \<in> ?V" by (intro Max_in) (simp_all add: spec_versions_abs)
  then have "abs_registry reg (et, Max ?V) = Some st" using st by (auto simp: spec_versions_def)
  with wf_strategy_key [OF assms(1) this] show ?thesis by simp
next
  case (Some v)
  then have "abs_registry reg (et, v) = Some st" using assms(2) by (auto simp: spec_get_def split: if_splits option.splits)
  with wf_strategy_key [OF assms(1) this] show ?thesis by simp
qed

text \<open>Every well-formed registry is a strategy source.\<close>

lemma registry_source:
  assumes "wf_registry reg"
  shows "strategy_source (\<lambda>et v. get_strategy et v reg)"
proof
  fix et version st
  assume "get_strategy et version reg = Inr st"
  then have a: "abs_registry reg (et, st_version st) = Some st"
    using spec_get_key [OF assms] by (simp add: get_refines [OF assms])
  then have "spec_versions et (abs_registry reg) \<noteq> {}" by (auto simp: spec_versions_def)
  then show "1 \<le> st_version st \<and> get_strategy et (Some (st_version st)) reg = Inr st"
    using a wf_strategy_key [OF assms a] by (simp add: get_refines [OF assms] spec_get_def)
next
  fix et version e
  assume "get_strategy et version reg = Inl e"
  then show "e = StrategyNotFoundError et \<or> (\<exists>v vs. e = StrategyVersionNotFoundError et v vs)"
    by (auto simp: get_strategy_def split: option.splits if_splits)
qed

typedef strategy_registry = "{reg. wf_registry reg}"
  by (rule exI [of _ "[]"]) (simp add: wf_registry_def)

interpretation registered: strategy_source "\<lambda>et v. get_strategy et v (Rep_strategy_registry reg)" for reg
  by (rule registry_source) (use Rep_strategy_registry in blast)

text \<open>Registrations only: what a process does while it loads its strategies.\<close>

inductive registers :: "registry \<Rightarrow> registry \<Rightarrow> bool" where
  none: "registers reg reg"
| more: "registers reg reg' \<Longrightarrow> register st reg' = Inr reg'' \<Longrightarrow> registers reg reg''"

lemma registers_keep:
  assumes "registers reg reg'"
  shows "(wf_registry reg \<longrightarrow> wf_registry reg') \<and> abs_registry reg \<subseteq>\<^sub>m abs_registry reg'"
  using assms
proof induction
  case (more reg reg' st reg'')
  have "spec_register st (abs_registry reg') = Inr (abs_registry reg'')"
    using register_refines [of st reg'] more.hyps(2) by simp
  then have "abs_registry reg' \<subseteq>\<^sub>m abs_registry reg''"
    by (auto simp: spec_register_def result_iffs map_le_def split: if_splits dest!: sym [of _ "abs_registry reg''"])
  then show ?case using more.IH wf_register more.hyps(2) map_le_trans by blast
qed simp

section \<open>Properties\<close>

definition demo_registry :: registry where
  "demo_registry = (case register demo_strategy [] of Inr r \<Rightarrow> r | Inl _ \<Rightarrow> [])"

definition demo_strategy_2 :: posting_strategy where
  "demo_strategy_2 = demo_strategy\<lparr>st_version := 2\<rparr>"

definition demo_registry_2 :: registry where
  "demo_registry_2 = (case register demo_strategy_2 demo_registry of Inr r \<Rightarrow> r | Inl _ \<Rightarrow> [])"

lemma demo_registered:
  "register demo_strategy [] = Inr demo_registry" "register demo_strategy_2 demo_registry = Inr demo_registry_2"
  "wf_registry demo_registry" "demo_registry = [(st_event_type demo_strategy, [(1, demo_strategy)])]"
proof -
  show a: "register demo_strategy [] = Inr demo_registry"
    and b: "demo_registry = [(st_event_type demo_strategy, [(1, demo_strategy)])]"
    by (simp_all add: demo_registry_def register_def validate_lifecycle_def demo_strategy_def versions_of_def)
  show "register demo_strategy_2 demo_registry = Inr demo_registry_2"
    unfolding demo_registry_2_def b
    by (simp add: register_def validate_lifecycle_def demo_strategy_2_def demo_strategy_def versions_of_def)
  show "wf_registry demo_registry" by (rule wf_register [OF _ a]) (simp add: wf_registry_def)
qed

text \<open>
  Property C34. The registry refines a partial map from event type and version to strategies:
  \<open>register\<close>, \<open>get\<close> and \<open>unregister\<close> on a well-formed registry are the map operations, errors
  included, and they keep it well formed.
\<close>

theorem registry_refines:
  assumes "wf_registry reg"
  shows "rmap abs_registry (register st reg) = spec_register st (abs_registry reg)
    \<and> get_strategy et version reg = spec_get et version (abs_registry reg)
    \<and> abs_registry (unregister et version reg) = spec_unregister et version (abs_registry reg)
    \<and> (\<forall>reg'. register st reg = Inr reg' \<longrightarrow> wf_registry reg') \<and> wf_registry (unregister et version reg)"
  using register_refines get_refines [OF assms] unregister_refines wf_register [OF assms] wf_unregister [OF assms] by blast

theorem registry_refines_witness:
  "get_strategy (st_event_type demo_strategy) None demo_registry =
     spec_get (st_event_type demo_strategy) None (abs_registry demo_registry)"
  using registry_refines [OF demo_registered(3)] by blast

text \<open>
  Property C33. Replay (R23): a valid proposal records the version of the strategy that made it, and
  proposing the same event again with that version gives the same result on every registry that
  later registrations produce, however many newer versions they add; neither call raises.
\<close>

theorem bookkeeper_replay:
  assumes "wf_registry reg" "registers reg reg'"
    and "bookkeeper_propose iter (\<lambda>t v. get_strategy t v reg) ev rd version = Inr r" "br_is_valid r"
  shows "\<exists>v. br_strategy_version r = Some v \<and> 1 \<le> v
    \<and> bookkeeper_propose iter (\<lambda>t v. get_strategy t v reg') ev rd (Some v) = Inr r"
proof -
  note k = registers_keep [OF assms(2)]
  obtain v where v: "br_strategy_version r = Some v" "1 \<le> v"
    "bookkeeper_propose iter (\<lambda>t v. get_strategy t v reg) ev rd (Some v) = Inr r"
    using strategy_source.replay_recorded_version [OF registry_source [OF assms(1)] assms(3,4)] by blast
  then obtain st where st: "get_strategy (event_type ev) (Some v) reg = Inr st"
    using strategy_source.bookkeeper_valid_iff [OF registry_source [OF assms(1)]] assms(4) by blast
  then have "abs_registry reg (event_type ev, v) = Some st"
    using assms(1) by (auto simp: get_refines spec_get_def split: if_splits option.splits)
  then have "abs_registry reg' (event_type ev, v) = Some st" using k by (auto simp: map_le_def dom_def)
  then have "get_strategy (event_type ev) (Some v) reg' = Inr st"
    using k assms(1) by (auto simp: get_refines spec_get_def spec_versions_def)
  then have "bookkeeper_propose iter (\<lambda>t v. get_strategy t v reg') ev rd (Some v) = Inr r"
    using v(3) st by (simp add: bookkeeper_propose_def)
  then show ?thesis using v by blast
qed

lemma demo_bookkeeper:
  "bookkeeper_propose id (\<lambda>t v. get_strategy t v demo_registry) demo_event demo_reference None =
     Inr \<lparr>br_proposed_entry = Some (build_entry demo_strategy demo_event demo_reference demo_lines),
          br_validation = vr_success, br_strategy_version = Some 1\<rparr>"
  using demo_propose
  by (simp add: bookkeeper_propose_def get_strategy_def demo_registered(4) sr_is_valid_def sr_success_def vr_success_def br_success_def)
    (simp add: demo_strategy_def demo_event_def)

theorem bookkeeper_replay_witness:
  "\<exists>v. bookkeeper_propose id (\<lambda>t v. get_strategy t v demo_registry_2) demo_event demo_reference (Some v) =
     Inr \<lparr>br_proposed_entry = Some (build_entry demo_strategy demo_event demo_reference demo_lines),
          br_validation = vr_success, br_strategy_version = Some 1\<rparr>"
proof -
  have "registers demo_registry demo_registry_2" by (rule registers.more [OF registers.none demo_registered(2)])
  from bookkeeper_replay [OF demo_registered(3) this demo_bookkeeper] show ?thesis
    by (auto simp: br_is_valid_def vr_success_def)
qed

end
