(* ===== verification/Accounting_Intent.thy ===== *)
theory Accounting_Intent
  imports Dtos
begin

text \<open>
  \<open>finance_kernel/domain/accounting_intent.py\<close>: the contract between the economic and the
  finance layer. A side is one of two strings, checked by the constructor. The version fields of a
  snapshot are optional here because the dataclass does not check its annotations and the journal
  writer tests them for \<open>None\<close>. Currencies of a ledger intent form a frozenset; its listing here
  has no duplicates and every use of it is independent of the order.

  The lemmas show that the idempotency keys of two postings are equal only for the same event,
  ledger and profile version, and that they never collide with the keys of reversals.
\<close>

section \<open>Lines\<close>

definition INTENT_DEBIT :: string where "INTENT_DEBIT = ''debit''"
definition INTENT_CREDIT :: string where "INTENT_CREDIT = ''credit''"

record intent_line =
  il_account_role :: string
  il_side :: string
  il_money :: money
  il_dimensions :: dimension_map
  il_memo :: "string option"
  il_is_rounding :: bool

definition il_amount :: "intent_line \<Rightarrow> decimal" where
  "il_amount l = amount (il_money l)"

definition il_currency :: "intent_line \<Rightarrow> string" where
  "il_currency l = cur_code (currency (il_money l))"

definition mk_intent_line :: "intent_line \<Rightarrow> py_exc + intent_line" where
  "mk_intent_line l =
     (if il_side l \<noteq> INTENT_DEBIT \<and> il_side l \<noteq> INTENT_CREDIT then Inl ValueError
      else if amount (il_money l) < 0 then Inl ValueError
      else Inr l)"

definition intent_line_debit ::
    "string \<Rightarrow> decimal \<Rightarrow> string \<Rightarrow> dimension_map \<Rightarrow> string option \<Rightarrow> py_exc + intent_line" where
  "intent_line_debit role amt cur dims memo =
     rbind (money_of amt cur) (\<lambda>m. mk_intent_line
       \<lparr>il_account_role = role, il_side = INTENT_DEBIT, il_money = m, il_dimensions = dims,
        il_memo = memo, il_is_rounding = False\<rparr>)"

definition intent_line_credit ::
    "string \<Rightarrow> decimal \<Rightarrow> string \<Rightarrow> dimension_map \<Rightarrow> string option \<Rightarrow> py_exc + intent_line" where
  "intent_line_credit role amt cur dims memo =
     rbind (money_of amt cur) (\<lambda>m. mk_intent_line
       \<lparr>il_account_role = role, il_side = INTENT_CREDIT, il_money = m, il_dimensions = dims,
        il_memo = memo, il_is_rounding = False\<rparr>)"

section \<open>Ledger intents\<close>

record ledger_intent =
  li_ledger_id :: string
  li_lines :: "intent_line list"

definition mk_ledger_intent :: "ledger_intent \<Rightarrow> py_exc + ledger_intent" where
  "mk_ledger_intent li = (if li_lines li = [] then Inl ValueError else Inr li)"

definition li_currencies :: "ledger_intent \<Rightarrow> string list" where
  "li_currencies li = remdups (map il_currency (li_lines li))"

definition il_side_amounts :: "string \<Rightarrow> string option \<Rightarrow> intent_line list \<Rightarrow> decimal list" where
  "il_side_amounts side cur ls =
     map il_amount (filter (\<lambda>l. il_side l = side \<and> (cur = None \<or> cur = Some (il_currency l))) ls)"

definition li_total_debits :: "ledger_intent \<Rightarrow> string option \<Rightarrow> decimal" where
  "li_total_debits li cur = dsum (il_side_amounts INTENT_DEBIT cur (li_lines li))"

definition li_total_credits :: "ledger_intent \<Rightarrow> string option \<Rightarrow> decimal" where
  "li_total_credits li cur = dsum (il_side_amounts INTENT_CREDIT cur (li_lines li))"

definition li_is_balanced :: "ledger_intent \<Rightarrow> string option \<Rightarrow> bool" where
  "li_is_balanced li cur =
     (case cur of
        Some c \<Rightarrow>
          if c \<noteq> [] then li_total_debits li (Some c) = li_total_credits li (Some c)
          else list_all (\<lambda>c. li_total_debits li (Some c) = li_total_credits li (Some c)) (li_currencies li)
      | None \<Rightarrow> list_all (\<lambda>c. li_total_debits li (Some c) = li_total_credits li (Some c)) (li_currencies li))"

section \<open>Accounting intents\<close>

record intent_snapshot =
  is_coa_version :: "int option"
  is_dimension_schema_version :: "int option"
  is_rounding_policy_version :: "int option"
  is_currency_registry_version :: "int option"
  is_fx_policy_version :: "int option"
  is_full_snapshot_id :: "uuid option"

record accounting_intent =
  ai_econ_event_id :: uuid
  ai_source_event_id :: uuid
  ai_profile_id :: string
  ai_profile_version :: int
  ai_effective_date :: int
  ai_ledger_intents :: "ledger_intent list"
  ai_snapshot :: intent_snapshot
  ai_description :: "string option"
  ai_trace_id :: "uuid option"
  ai_created_at :: "int option"

definition mk_accounting_intent :: "accounting_intent \<Rightarrow> py_exc + accounting_intent" where
  "mk_accounting_intent i = (if ai_ledger_intents i = [] then Inl ValueError else Inr i)"

definition ai_ledger_ids :: "accounting_intent \<Rightarrow> string list" where
  "ai_ledger_ids i = remdups (map li_ledger_id (ai_ledger_intents i))"

definition all_roles :: "accounting_intent \<Rightarrow> string list" where
  "all_roles i = remdups (concat (map (\<lambda>li. map il_account_role (li_lines li)) (ai_ledger_intents i)))"

definition get_ledger_intent :: "accounting_intent \<Rightarrow> string \<Rightarrow> ledger_intent option" where
  "get_ledger_intent i lid = find (\<lambda>li. li_ledger_id li = lid) (ai_ledger_intents i)"

definition idempotency_key :: "accounting_intent \<Rightarrow> string \<Rightarrow> string" where
  "idempotency_key i lid = uuid_str (ai_econ_event_id i) @ '':'' @ lid @ '':'' @ str_of_int (ai_profile_version i)"

definition all_balanced :: "accounting_intent \<Rightarrow> bool" where
  "all_balanced i = list_all (\<lambda>li. li_is_balanced li None) (ai_ledger_intents i)"

record resolved_intent_line =
  rl_account_id :: uuid
  rl_account_code :: string
  rl_account_role :: string
  rl_side :: string
  rl_money :: money
  rl_dimensions :: dimension_map
  rl_memo :: "string option"
  rl_is_rounding :: bool
  rl_line_seq :: nat

definition rl_amount :: "resolved_intent_line \<Rightarrow> decimal" where
  "rl_amount l = amount (rl_money l)"

definition rl_currency :: "resolved_intent_line \<Rightarrow> string" where
  "rl_currency l = cur_code (currency (rl_money l))"

section \<open>Keys\<close>

definition reversal_key :: "uuid \<Rightarrow> string \<Rightarrow> string" where
  "reversal_key entry lid = ''reversal:'' @ uuid_str entry @ '':'' @ lid"

lemma idempotency_key_iff:
  "idempotency_key i lid = idempotency_key j mid \<longleftrightarrow>
     ai_econ_event_id i = ai_econ_event_id j \<and> lid = mid \<and> ai_profile_version i = ai_profile_version j"
proof
  assume eq: "idempotency_key i lid = idempotency_key j mid"
  then have u: "uuid_str (ai_econ_event_id i) = uuid_str (ai_econ_event_id j)"
    and rest: "lid @ '':'' @ str_of_int (ai_profile_version i) = mid @ '':'' @ str_of_int (ai_profile_version j)"
    by (simp_all add: idempotency_key_def)
  have colon: "CHR '':'' \<notin> set (str_of_int v)" for v using set_str_of_int [of v] by auto
  show "ai_econ_event_id i = ai_econ_event_id j \<and> lid = mid \<and> ai_profile_version i = ai_profile_version j"
    using uuid_str_inj u append_sep_inj colon rest str_of_int_inj by (metis append_Cons append_Nil)
qed (simp add: idempotency_key_def)

lemma reversal_key_iff: "reversal_key e lid = reversal_key f mid \<longleftrightarrow> e = f \<and> lid = mid"
  using uuid_str_inj by (auto simp: reversal_key_def)

lemma reversal_key_neq: "reversal_key e lid \<noteq> idempotency_key i mid"
proof
  assume "reversal_key e lid = idempotency_key i mid"
  moreover have "uuid_str (ai_econ_event_id i) \<noteq> []"
    using length_uuid_str [of "ai_econ_event_id i"] by fastforce
  ultimately have "CHR ''r'' \<in> set (uuid_str (ai_econ_event_id i))"
    by (cases "uuid_str (ai_econ_event_id i)") (auto simp: reversal_key_def idempotency_key_def)
  then show False using set_uuid_str [of "ai_econ_event_id i"] by auto
qed

section \<open>Constructors and balance\<close>

definition wf_intent_line :: "intent_line \<Rightarrow> bool" where
  "wf_intent_line l \<longleftrightarrow> il_side l \<in> {INTENT_DEBIT, INTENT_CREDIT} \<and> 0 \<le> il_amount l
     \<and> wf_currency (currency (il_money l))"

definition wf_ledger_intent :: "ledger_intent \<Rightarrow> bool" where
  "wf_ledger_intent li \<longleftrightarrow> li_lines li \<noteq> [] \<and> list_all wf_intent_line (li_lines li)"

definition wf_intent :: "accounting_intent \<Rightarrow> bool" where
  "wf_intent i \<longleftrightarrow> ai_ledger_intents i \<noteq> [] \<and> list_all wf_ledger_intent (ai_ledger_intents i)"

lemma wf_intent_lines:
  "intent_line_debit role amt cur dims memo = Inr l \<Longrightarrow> wf_intent_line l \<and> il_side l = INTENT_DEBIT"
  "intent_line_credit role amt cur dims memo = Inr l \<Longrightarrow> wf_intent_line l \<and> il_side l = INTENT_CREDIT"
  by (auto simp: intent_line_debit_def intent_line_credit_def mk_intent_line_def money_of_def wf_intent_line_def
      il_amount_def result_iffs dest: wf_mk_currency split: if_splits)

lemma wf_code_nonempty: "wf_currency c \<Longrightarrow> cur_code c \<noteq> []"
  using registry_key_nonempty by (auto simp: wf_currency_def)

lemma li_is_balanced_currency:
  "c \<noteq> [] \<Longrightarrow> li_is_balanced li (Some c) \<longleftrightarrow> li_total_debits li (Some c) = li_total_credits li (Some c)"
  by (simp add: li_is_balanced_def)

lemma all_balanced_iff:
  "all_balanced i \<longleftrightarrow> (\<forall>li \<in> set (ai_ledger_intents i). \<forall>l \<in> set (li_lines li).
     li_total_debits li (Some (il_currency l)) = li_total_credits li (Some (il_currency l)))"
  by (auto simp: all_balanced_def li_is_balanced_def li_currencies_def list_all_iff)

section \<open>Properties\<close>

text \<open>
  Idempotency keys identify postings (R3): the key of a ledger posting determines
  the economic event, the ledger and the profile version, whatever characters the ledger id has,
  and no such key is the key of a reversal.
\<close>

theorem idempotency_keys:
  "(idempotency_key i lid = idempotency_key j mid \<longleftrightarrow>
      ai_econ_event_id i = ai_econ_event_id j \<and> lid = mid \<and> ai_profile_version i = ai_profile_version j)
   \<and> reversal_key e kid \<noteq> idempotency_key i lid
   \<and> (reversal_key e lid = reversal_key f mid \<longleftrightarrow> e = f \<and> lid = mid)"
  by (intro conjI idempotency_key_iff reversal_key_iff reversal_key_neq)

end
