(* ===== verification/Sequence_Service.thy ===== *)
theory Sequence_Service
  imports Prelude
begin

text \<open>
  \<open>finance_kernel/services/sequence_service.py\<close>: named counters that hand out journal and audit
  sequence numbers (R9).

  The table has one row per name (a UNIQUE column), so it is a map from names to values. The
  environment of a call is what a concurrent transaction commits between the locking SELECT that
  finds no row and the INSERT: nothing, or a row with a value, in which case the INSERT raises
  IntegrityError, the savepoint is rolled back and the row is read again. A session is the pair of
  the committed table and the table as the open transaction sees it.

  The locale \<^verbatim>\<open>sequence_source\<close> is the interface the journal writer and the auditor use: a drawn
  value exceeds every earlier value of its name, and other names are left alone. Its lemmas are
  about arbitrary interleavings of draws.
\<close>

section \<open>The counter table\<close>

type_synonym counters = "string \<rightharpoonup> int"

definition JOURNAL_ENTRY :: string where "JOURNAL_ENTRY = ''journal_entry''"
definition AUDIT_EVENT :: string where "AUDIT_EVENT = ''audit_event''"

definition increment :: "string \<Rightarrow> int \<Rightarrow> counters \<Rightarrow> py_exc + int \<times> counters" where
  "increment name v cs =
     (if v + 1 > 0 then Inr (v + 1, cs(name \<mapsto> v + 1)) else Inl AssertionError)"

definition next_value :: "int option \<Rightarrow> string \<Rightarrow> counters \<Rightarrow> py_exc + int \<times> counters" where
  "next_value race name cs =
     (case cs name of
        Some v \<Rightarrow> increment name v cs
      | None \<Rightarrow>
          (case race of
             None \<Rightarrow> Inr (1, cs(name \<mapsto> 1))
           | Some w \<Rightarrow> increment name w (cs(name \<mapsto> w))))"

definition current_value :: "string \<Rightarrow> counters \<Rightarrow> int option" where
  "current_value name cs = cs name"

definition reset :: "string \<Rightarrow> int \<Rightarrow> counters \<Rightarrow> counters" where
  "reset name v cs = (case cs name of None \<Rightarrow> cs(name \<mapsto> v) | Some _ \<Rightarrow> cs(name \<mapsto> v))"

definition initialize_sequences :: "counters \<Rightarrow> counters" where
  "initialize_sequences cs =
     foldl (\<lambda>cs name. if cs name = None then cs(name \<mapsto> 0) else cs) cs [JOURNAL_ENTRY, AUDIT_EVENT]"

definition counter_value :: "counters \<Rightarrow> string \<Rightarrow> int" where
  "counter_value cs name = (case current_value name cs of None \<Rightarrow> 0 | Some v \<Rightarrow> v)"

section \<open>The interface\<close>

fun draws :: "('a \<Rightarrow> 'k \<Rightarrow> 's \<Rightarrow> 'e + int \<times> 's) \<Rightarrow> ('a \<times> 'k) list \<Rightarrow> 's \<Rightarrow> 'e + ('k \<times> int) list \<times> 's" where
  "draws nxt [] s = Inr ([], s)"
| "draws nxt ((a, k) # cs) s =
     rbind (nxt a k s) (\<lambda>(v, s'). rbind (draws nxt cs s') (\<lambda>(vs, s''). Inr ((k, v) # vs, s'')))"

locale sequence_source =
  fixes nxt :: "'a \<Rightarrow> 'k \<Rightarrow> 's \<Rightarrow> 'e + int \<times> 's"
    and val :: "'s \<Rightarrow> 'k \<Rightarrow> int"
  assumes nxt_greater: "nxt a k s = Inr (v, s') \<Longrightarrow> val s k < v"
    and nxt_val: "nxt a k s = Inr (v, s') \<Longrightarrow> val s' k = v"
    and nxt_frame: "nxt a k s = Inr (v, s') \<Longrightarrow> j \<noteq> k \<Longrightarrow> val s' j = val s j"
begin

lemma nxt_mono: "nxt a k s = Inr (v, s') \<Longrightarrow> val s j \<le> val s' j"
  using nxt_greater nxt_val nxt_frame by (cases "j = k") fastforce+

lemma draws_mono: "draws nxt cs s = Inr (vs, s') \<Longrightarrow> val s j \<le> val s' j"
proof (induction cs arbitrary: s vs)
  case (Cons c cs)
  obtain a i where "c = (a, i)" by (cases c)
  then obtain u r us where "nxt a i s = Inr (u, r)" "draws nxt cs r = Inr (us, s')"
    using Cons.prems by (auto simp: result_iffs)
  then show ?case using Cons.IH nxt_mono order_trans by blast
qed simp

lemma draws_above:
  "draws nxt cs s = Inr (vs, s') \<Longrightarrow> (k, v) \<in> set vs \<Longrightarrow> val s k < v \<and> v \<le> val s' k"
proof (induction cs arbitrary: s vs)
  case (Cons c cs)
  obtain a j where c: "c = (a, j)" by (cases c)
  obtain w t ws where w: "nxt a j s = Inr (w, t)" "draws nxt cs t = Inr (ws, s')" "vs = (j, w) # ws"
    using Cons.prems(1) by (auto simp: c result_iffs)
  note mono = draws_mono [OF w(2)]
  show ?case
  proof (cases "(k, v) = (j, w)")
    case True
    then show ?thesis using w(1) nxt_greater nxt_val mono by fastforce
  next
    case False
    then have "val t k < v \<and> v \<le> val s' k" using Cons.IH [OF w(2)] Cons.prems(2) w(3) by auto
    then show ?thesis using nxt_mono [OF w(1), of k] by simp
  qed
qed simp

lemma draws_increasing:
  "draws nxt cs s = Inr (vs, s') \<Longrightarrow> sorted_wrt (\<lambda>(j, v) (k, w). j = k \<longrightarrow> v < w) vs"
proof (induction cs arbitrary: s vs)
  case (Cons c cs)
  obtain a j where c: "c = (a, j)" by (cases c)
  obtain w t ws where w: "nxt a j s = Inr (w, t)" "draws nxt cs t = Inr (ws, s')" "vs = (j, w) # ws"
    using Cons.prems(1) by (auto simp: c result_iffs)
  then show ?case using Cons.IH [OF w(2)] draws_above [OF w(2), of j] nxt_val [OF w(1)] by auto
qed simp

end

lemma increment_Inr:
  "increment name w cs = Inr (v, cs') \<longleftrightarrow> 0 \<le> w \<and> v = w + 1 \<and> cs' = cs(name \<mapsto> w + 1)"
  by (auto simp: increment_def)

lemmas counter_defs = next_value_def current_value_def counter_value_def increment_Inr

interpretation seqs: sequence_source next_value counter_value
proof
  fix race name cs v cs'
  assume n: "next_value race name cs = Inr (v, cs')"
  show "counter_value cs name < v" using n by (auto simp: counter_defs split: option.splits)
  show "counter_value cs' name = v" using n by (auto simp: counter_defs split: option.splits)
  fix j
  assume "j \<noteq> name"
  then show "counter_value cs' j = counter_value cs j" using n by (auto simp: counter_defs split: option.splits)
qed

section \<open>Sessions\<close>

record seq_session =
  committed :: counters
  working :: counters

definition begin_session :: "counters \<Rightarrow> seq_session" where
  "begin_session cs = \<lparr>committed = cs, working = cs\<rparr>"

definition draw_in :: "int option \<Rightarrow> string \<Rightarrow> seq_session \<Rightarrow> py_exc + int \<times> seq_session" where
  "draw_in race name s = rmap (\<lambda>(v, cs). (v, s\<lparr>working := cs\<rparr>)) (next_value race name (working s))"

definition commit_session :: "seq_session \<Rightarrow> seq_session" where
  "commit_session s = s\<lparr>committed := working s\<rparr>"

definition rollback_session :: "seq_session \<Rightarrow> seq_session" where
  "rollback_session s = s\<lparr>working := committed s\<rparr>"

definition wf_counters :: "counters \<Rightarrow> bool" where
  "wf_counters cs \<longleftrightarrow> (\<forall>name v. cs name = Some v \<longrightarrow> 0 \<le> v)"

lemma wf_counters_initialize: "wf_counters cs \<Longrightarrow> wf_counters (initialize_sequences cs)"
  by (auto simp: wf_counters_def initialize_sequences_def)

lemma next_value_uncontended:
  assumes "wf_counters cs"
  shows "next_value None name cs = Inr (counter_value cs name + 1, cs(name \<mapsto> counter_value cs name + 1))"
    "wf_counters (cs(name \<mapsto> counter_value cs name + 1))"
  using assms by (auto simp: next_value_def counter_value_def current_value_def increment_def wf_counters_def
      split: option.split)

lemma next_value_wf:
  "wf_counters cs \<Longrightarrow> next_value race name cs = Inr (v, cs') \<Longrightarrow> wf_counters cs' \<and> 0 < v"
  by (auto simp: next_value_def increment_Inr wf_counters_def split: option.splits if_splits)

section \<open>Properties\<close>

text \<open>
  Property C27. Sequence numbers are strictly monotonic (R9): in any interleaving of draws on any
  number of sequences, also when first uses of a sequence race with other transactions, each value
  exceeds the counter it started from and all values drawn earlier for the same sequence.
\<close>

theorem sequence_monotonic:
  assumes "draws next_value calls cs = Inr (vs, cs')"
  shows "sorted_wrt (\<lambda>(m, v) (n, w). m = n \<longrightarrow> v < w) vs
    \<and> (\<forall>(n, v) \<in> set vs. counter_value cs n < v \<and> v \<le> counter_value cs' n)"
  using seqs.draws_increasing [OF assms] seqs.draws_above [OF assms] by auto

theorem sequence_monotonic_witness:
  "sorted_wrt (\<lambda>(m, v) (n, w). m = n \<longrightarrow> v < w)
     [(''journal_entry'', 1), (''audit_event'', 8), (''journal_entry'', 2), (''journal_entry'', 3 :: int)]"
proof (rule sequence_monotonic [THEN conjunct1])
  show "draws next_value [(None, ''journal_entry''), (Some 7, ''audit_event''), (None, ''journal_entry''),
      (Some 9, ''journal_entry'')] Map.empty =
    Inr ([(''journal_entry'', 1), (''audit_event'', 8), (''journal_entry'', 2), (''journal_entry'', 3)],
      [''journal_entry'' \<mapsto> 3, ''audit_event'' \<mapsto> 8])"
    by (simp add: next_value_def increment_def fun_eq_iff)
qed

text \<open>
  Without concurrent creation of a counter the numbers have no gaps: n draws on a
  sequence return the n values after its current one, in order, and they all succeed.
\<close>

theorem sequence_gap_free:
  assumes "wf_counters cs"
  shows "\<exists>cs'. draws next_value (replicate n (None, name)) cs =
      Inr (map (\<lambda>v. (name, v)) [counter_value cs name + 1..counter_value cs name + int n], cs')
    \<and> counter_value cs' name = counter_value cs name + int n"
  using assms
proof (induction n arbitrary: cs)
  case (Suc n)
  let ?v = "counter_value cs name"
  let ?cs = "cs(name \<mapsto> ?v + 1)"
  have v: "counter_value ?cs name = ?v + 1" by (simp add: counter_value_def current_value_def)
  obtain cs' where "draws next_value (replicate n (None, name)) ?cs =
      Inr (map (\<lambda>v. (name, v)) [?v + 1 + 1..?v + 1 + int n], cs')" "counter_value cs' name = ?v + 1 + int n"
    using Suc.IH [of ?cs] next_value_uncontended(2) [OF Suc.prems] unfolding v by blast
  moreover have "[?v + 1..?v + int (Suc n)] = (?v + 1) # [?v + 1 + 1..?v + 1 + int n]"
    by (subst upto_rec1) (simp_all add: algebra_simps)
  ultimately show ?case using next_value_uncontended(1) [OF Suc.prems] by simp
qed simp

theorem sequence_gap_free_witness:
  "\<exists>cs'. draws next_value (replicate 3 (None, ''journal_entry'')) (initialize_sequences Map.empty) =
     Inr ([(''journal_entry'', 1), (''journal_entry'', 2), (''journal_entry'', 3)], cs')"
proof -
  let ?cs = "initialize_sequences Map.empty"
  have "wf_counters ?cs" by (rule wf_counters_initialize) (simp add: wf_counters_def)
  moreover have "counter_value ?cs ''journal_entry'' = 0"
    by (simp add: initialize_sequences_def counter_value_def current_value_def JOURNAL_ENTRY_def AUDIT_EVENT_def)
  ultimately show ?thesis using sequence_gap_free [of ?cs 3 "''journal_entry''"] by (auto simp: upto.simps)
qed

text \<open>
  A rollback returns the numbers: the value drawn by a transaction that rolls back
  is drawn again by the next one, for any draws the aborted transaction made on other sequences.
\<close>

lemma rollback_returns_value:
  assumes "wf_counters cs" "draw_in None name (begin_session cs) = Inr (v, s)"
    and "draw_in race other s = Inr (w, s')"
  shows "\<exists>s''. draw_in None name (rollback_session s') = Inr (v, s'')"
proof -
  have "committed s = cs" "committed s' = committed s"
    using assms(2,3) by (auto simp: draw_in_def begin_session_def result_iffs)
  then have "working (rollback_session s') = cs" by (simp add: rollback_session_def)
  then show ?thesis using assms(2) by (auto simp: draw_in_def begin_session_def result_iffs)
qed

end
