(* ===== verification/Journal_Store.thy ===== *)
theory Journal_Store
  imports Accounting_Intent Sequence_Service
begin

text \<open>
  \<open>finance_kernel/models/journal.py\<close>: journal entries and lines, and the tables they live in with
  the constraints the models declare. Lines are kept in their entry, in insertion order. Inserting
  or updating a row that breaks a UNIQUE, CHECK or FOREIGN KEY constraint raises IntegrityError,
  which is what a flush of the session does. The rows a foreign key points to (events, accounts)
  are only present as their ids. Text columns are unbounded and amounts are stored as given.

  A session is the committed database and the database as its transaction sees it.
\<close>

section \<open>Rows\<close>

record journal_line =
  jl_account_id :: uuid
  jl_side :: line_side
  jl_amount :: decimal
  jl_currency :: string
  jl_dimensions :: dimension_map
  jl_is_rounding :: bool
  jl_line_memo :: "string option"
  jl_exchange_rate_id :: "uuid option"
  jl_line_seq :: nat
  jl_created_by_id :: uuid

definition jl_is_debit :: "journal_line \<Rightarrow> bool" where
  "jl_is_debit l \<longleftrightarrow> jl_side l = DEBIT"

definition jl_is_credit :: "journal_line \<Rightarrow> bool" where
  "jl_is_credit l \<longleftrightarrow> jl_side l = CREDIT"

definition signed_amount :: "journal_line \<Rightarrow> decimal" where
  "signed_amount l = (if jl_is_debit l then jl_amount l else dneg (jl_amount l))"

record journal_entry =
  je_id :: uuid
  je_source_event_id :: uuid
  je_source_event_type :: string
  je_occurred_at :: int
  je_effective_date :: int
  je_posted_at :: "int option"
  je_actor_id :: uuid
  je_status :: entry_status
  je_reversal_of_id :: "uuid option"
  je_idempotency_key :: string
  je_posting_rule_version :: int
  je_coa_version :: "int option"
  je_dimension_schema_version :: "int option"
  je_rounding_policy_version :: "int option"
  je_currency_registry_version :: "int option"
  je_seq :: "int option"
  je_entry_metadata :: "(string \<times> string) list option"
  je_description :: "string option"
  je_created_by_id :: uuid
  je_lines :: "journal_line list"

definition je_is_posted :: "journal_entry \<Rightarrow> bool" where
  "je_is_posted e \<longleftrightarrow> je_status e = POSTED"

definition je_is_draft :: "journal_entry \<Rightarrow> bool" where
  "je_is_draft e \<longleftrightarrow> je_status e = DRAFT"

definition je_is_reversal :: "journal_entry \<Rightarrow> bool" where
  "je_is_reversal e \<longleftrightarrow> je_reversal_of_id e \<noteq> None"

definition jl_side_amounts :: "line_side \<Rightarrow> string \<Rightarrow> journal_line list \<Rightarrow> decimal list" where
  "jl_side_amounts s cur ls = map jl_amount (filter (\<lambda>l. jl_side l = s \<and> jl_currency l = cur) ls)"

definition je_total_debits :: "journal_entry \<Rightarrow> decimal" where
  "je_total_debits e = dsum (map jl_amount (filter (\<lambda>l. jl_side l = DEBIT) (je_lines e)))"

definition je_total_credits :: "journal_entry \<Rightarrow> decimal" where
  "je_total_credits e = dsum (map jl_amount (filter (\<lambda>l. jl_side l = CREDIT) (je_lines e)))"

definition je_is_balanced :: "journal_entry \<Rightarrow> bool" where
  "je_is_balanced e \<longleftrightarrow> je_total_debits e = je_total_credits e"

section \<open>Tables\<close>

record journal_db =
  jd_entries :: "journal_entry list"
  jd_counters :: counters
  jd_event_ids :: "uuid list"
  jd_account_ids :: "uuid list"

definition je_is_reversed :: "journal_db \<Rightarrow> journal_entry \<Rightarrow> bool" where
  "je_is_reversed db e = list_ex (\<lambda>r. je_reversal_of_id r = Some (je_id e)) (jd_entries db)"

definition reversal_prefix :: "string \<Rightarrow> bool" where
  "reversal_prefix k \<longleftrightarrow> take 9 k = ''reversal:''"

definition entry_constraints :: "journal_entry \<Rightarrow> journal_db \<Rightarrow> bool" where
  "entry_constraints e db \<longleftrightarrow>
     list_all (\<lambda>r. je_id r \<noteq> je_id e \<and> je_idempotency_key r \<noteq> je_idempotency_key e
        \<and> (je_seq e = None \<or> je_seq r \<noteq> je_seq e)
        \<and> (je_reversal_of_id e = None \<or> je_reversal_of_id r \<noteq> je_reversal_of_id e)) (jd_entries db)
     \<and> je_source_event_id e \<in> set (jd_event_ids db)
     \<and> (case je_reversal_of_id e of
          None \<Rightarrow> True
        | Some i \<Rightarrow> reversal_prefix (je_idempotency_key e) \<and> list_ex (\<lambda>r. je_id r = i) (jd_entries db))"

definition insert_entry :: "journal_entry \<Rightarrow> journal_db \<Rightarrow> py_exc + journal_db" where
  "insert_entry e db =
     (if entry_constraints e db then Inr (db\<lparr>jd_entries := jd_entries db @ [e]\<rparr>) else Inl IntegrityError)"

definition update_entry :: "uuid \<Rightarrow> (journal_entry \<Rightarrow> journal_entry) \<Rightarrow> journal_db \<Rightarrow> journal_db" where
  "update_entry i f db = db\<lparr>jd_entries := map (\<lambda>r. if je_id r = i then f r else r) (jd_entries db)\<rparr>"

definition insert_lines :: "uuid \<Rightarrow> journal_line list \<Rightarrow> journal_db \<Rightarrow> py_exc + journal_db" where
  "insert_lines i ls db =
     (if list_all (\<lambda>l. jl_account_id l \<in> set (jd_account_ids db)) ls
      then Inr (update_entry i (\<lambda>r. r\<lparr>je_lines := je_lines r @ ls\<rparr>) db)
      else Inl IntegrityError)"

definition post_row :: "uuid \<Rightarrow> int \<Rightarrow> int \<Rightarrow> journal_db \<Rightarrow> py_exc + journal_db" where
  "post_row i sq now db =
     (if list_all (\<lambda>r. je_seq r \<noteq> Some sq) (jd_entries db)
      then Inr (update_entry i (\<lambda>r. r\<lparr>je_seq := Some sq, je_posted_at := Some now, je_status := POSTED\<rparr>) db)
      else Inl IntegrityError)"

record journal_session =
  js_committed :: journal_db
  js_working :: journal_db

definition js_commit :: "journal_session \<Rightarrow> journal_session" where
  "js_commit s = s\<lparr>js_committed := js_working s\<rparr>"

definition js_rollback :: "journal_session \<Rightarrow> journal_session" where
  "js_rollback s = s\<lparr>js_working := js_committed s\<rparr>"

section \<open>Laws of the tables\<close>

lemma insert_entry_Inr:
  "insert_entry e db = Inr db' \<longleftrightarrow> entry_constraints e db \<and> db' = db\<lparr>jd_entries := jd_entries db @ [e]\<rparr>"
  by (auto simp: insert_entry_def)

interpretation by_key: unique_table insert_entry jd_entries je_idempotency_key
  by unfold_locales (auto simp: insert_entry_Inr entry_constraints_def list_all_iff)

interpretation by_id: unique_table insert_entry jd_entries je_id
  by unfold_locales (auto simp: insert_entry_Inr entry_constraints_def list_all_iff)

lemma update_entry_frame [simp]:
  "jd_counters (update_entry i f db) = jd_counters db"
  "jd_event_ids (update_entry i f db) = jd_event_ids db"
  "jd_account_ids (update_entry i f db) = jd_account_ids db"
  "length (jd_entries (update_entry i f db)) = length (jd_entries db)"
  by (simp_all add: update_entry_def)

lemma update_entry_map:
  assumes "\<And>r. g (f r) = g r"
  shows "map g (jd_entries (update_entry i f db)) = map g (jd_entries db)"
  using assms by (simp add: update_entry_def)

lemma update_entry_last:
  assumes "i \<notin> je_id ` set es" "je_id e = i"
  shows "update_entry i f (db\<lparr>jd_entries := es @ [e]\<rparr>) = db\<lparr>jd_entries := es @ [f e]\<rparr>"
proof -
  have "map (\<lambda>r. if je_id r = i then f r else r) es = es" using assms(1) by (intro map_idI) auto
  then show ?thesis using assms(2) by (simp add: update_entry_def)
qed

end
