(* ===== verification/Journal_Writer.thy ===== *)
theory Journal_Writer
  imports Journal_Store Posting_Strategy
begin

text \<open>
  \<open>finance_kernel/services/journal_writer.py\<close>: role resolution, the multi-ledger \<open>write\<close> and the
  mechanical \<open>write_reversal\<close>.

  Inputs that are not in the code are arguments: \<open>one\<close> is SQLAlchemy's \<open>scalar_one_or_none\<close>, and
  the environment of each created entry holds the fresh UUID, the two clock readings, a concurrent
  creation of the sequence counter, and the database another transaction has committed by the time
  of the insert, if any. An exception that leaves an operation has no state: its caller rolls the
  transaction back. The optional subledger and snapshot checks run after the entries are written
  and change nothing; they are fields of the writer. Log records are not modelled.
\<close>

section \<open>Exceptions and results\<close>

datatype journal_exc =
    Py py_exc
  | RoleResolutionError string
  | MultipleRoundingLinesError nat
  | RoundingAmountExceededError
  | MissingReferenceSnapshotError "string list"
  | CrossLedgerReversalError string string
  | SubledgerReconciliationError
  | StaleReferenceSnapshotError

definition py :: "py_exc + 'a \<Rightarrow> journal_exc + 'a" where
  "py = map_sum Py id"

datatype write_status = WRITTEN | ALREADY_EXISTS | ROLE_RESOLUTION_FAILED | VALIDATION_FAILED | FAILED

record written_entry =
  we_entry_id :: uuid
  we_ledger_id :: string
  we_seq :: int
  we_idempotency_key :: string

record write_result =
  wr_status :: write_status
  wr_entries :: "written_entry list"
  wr_error_code :: "string option"
  wr_unresolved_roles :: "string list option"

definition wr_success :: "written_entry list \<Rightarrow> write_result" where
  "wr_success es = \<lparr>wr_status = WRITTEN, wr_entries = es, wr_error_code = None, wr_unresolved_roles = None\<rparr>"

definition wr_already_exists :: "written_entry list \<Rightarrow> write_result" where
  "wr_already_exists es =
     \<lparr>wr_status = ALREADY_EXISTS, wr_entries = es, wr_error_code = None, wr_unresolved_roles = None\<rparr>"

definition wr_role_resolution_failed :: "string list \<Rightarrow> write_result" where
  "wr_role_resolution_failed roles =
     \<lparr>wr_status = ROLE_RESOLUTION_FAILED, wr_entries = [], wr_error_code = Some ''ROLE_RESOLUTION_FAILED'',
      wr_unresolved_roles = Some roles\<rparr>"

definition wr_validation_failed :: "string \<Rightarrow> write_result" where
  "wr_validation_failed code =
     \<lparr>wr_status = VALIDATION_FAILED, wr_entries = [], wr_error_code = Some code, wr_unresolved_roles = None\<rparr>"

definition wr_failure :: "string \<Rightarrow> write_result" where
  "wr_failure code =
     \<lparr>wr_status = FAILED, wr_entries = [], wr_error_code = Some code, wr_unresolved_roles = None\<rparr>"

definition wr_is_success :: "write_result \<Rightarrow> bool" where
  "wr_is_success r \<longleftrightarrow> wr_status r \<in> {WRITTEN, ALREADY_EXISTS}"

definition wr_entry_ids :: "write_result \<Rightarrow> uuid list" where
  "wr_entry_ids r = map we_entry_id (wr_entries r)"

section \<open>Role resolution\<close>

record binding_record =
  br_account_id :: uuid
  br_account_code :: string
  br_account_name :: string
  br_account_type :: string
  br_normal_balance :: string
  br_effective_from :: string
  br_effective_to :: string
  br_config_id :: string
  br_config_version :: int

type_synonym role_bindings = "string \<rightharpoonup> binding_record"

definition register_binding :: "string \<Rightarrow> binding_record \<Rightarrow> role_bindings \<Rightarrow> role_bindings" where
  "register_binding role b rb = rb(role \<mapsto> b)"

definition resolve_full :: "role_bindings \<Rightarrow> string \<Rightarrow> journal_exc + binding_record" where
  "resolve_full rb role = (case rb role of None \<Rightarrow> Inl (RoleResolutionError role) | Some b \<Rightarrow> Inr b)"

definition resolve_role :: "role_bindings \<Rightarrow> string \<Rightarrow> journal_exc + uuid \<times> string" where
  "resolve_role rb role =
     (case rb role of
        None \<Rightarrow> Inl (RoleResolutionError role)
      | Some b \<Rightarrow> Inr (br_account_id b, br_account_code b))"

definition clear_bindings :: "role_bindings \<Rightarrow> role_bindings" where
  "clear_bindings rb = Map.empty"

definition resolve_intent_line :: "role_bindings \<Rightarrow> nat \<times> intent_line \<Rightarrow> journal_exc + resolved_intent_line" where
  "resolve_intent_line rb = (\<lambda>(i, l).
     rbind (resolve_full rb (il_account_role l)) (\<lambda>b. Inr
       \<lparr>rl_account_id = br_account_id b, rl_account_code = br_account_code b,
        rl_account_role = il_account_role l, rl_side = il_side l, rl_money = il_money l,
        rl_dimensions = il_dimensions l, rl_memo = il_memo l, rl_is_rounding = il_is_rounding l,
        rl_line_seq = i\<rparr>))"

definition resolve_ledger_intent ::
    "role_bindings \<Rightarrow> ledger_intent \<Rightarrow> journal_exc + ledger_intent \<times> resolved_intent_line list" where
  "resolve_ledger_intent rb li =
     rmap (\<lambda>ls. (li, ls)) (rtraverse (resolve_intent_line rb) (enumerate 0 (li_lines li)))"

definition resolve_all_roles ::
    "role_bindings \<Rightarrow> accounting_intent \<Rightarrow> journal_exc + (ledger_intent \<times> resolved_intent_line list) list" where
  "resolve_all_roles rb intent = rtraverse (resolve_ledger_intent rb) (ai_ledger_intents intent)"

section \<open>Creating one entry\<close>

record create_env =
  ce_id :: uuid
  ce_now :: int
  ce_posted_at :: int
  ce_race :: "int option"
  ce_other :: "journal_db option"

definition get_entry ::
    "(journal_entry list \<Rightarrow> py_exc + journal_entry option) \<Rightarrow> uuid \<Rightarrow> journal_db \<Rightarrow> py_exc + journal_entry option" where
  "get_entry one i db = one (filter (\<lambda>e. je_id e = i) (jd_entries db))"

definition get_existing_entry ::
    "(journal_entry list \<Rightarrow> py_exc + journal_entry option) \<Rightarrow> string \<Rightarrow> journal_db
     \<Rightarrow> py_exc + journal_entry option" where
  "get_existing_entry one key db = one (filter (\<lambda>e. je_idempotency_key e = key) (jd_entries db))"

definition draft_entry ::
    "create_env \<Rightarrow> accounting_intent \<Rightarrow> ledger_intent \<Rightarrow> uuid \<Rightarrow> string \<Rightarrow> journal_entry" where
  "draft_entry env intent li actor et =
     \<lparr>je_id = ce_id env, je_source_event_id = ai_source_event_id intent, je_source_event_type = et,
      je_occurred_at = (case ai_created_at intent of None \<Rightarrow> ce_now env | Some t \<Rightarrow> t),
      je_effective_date = ai_effective_date intent, je_posted_at = None, je_actor_id = actor,
      je_status = DRAFT, je_reversal_of_id = None,
      je_idempotency_key = idempotency_key intent (li_ledger_id li),
      je_posting_rule_version = ai_profile_version intent,
      je_coa_version = is_coa_version (ai_snapshot intent),
      je_dimension_schema_version = is_dimension_schema_version (ai_snapshot intent),
      je_rounding_policy_version = is_rounding_policy_version (ai_snapshot intent),
      je_currency_registry_version = is_currency_registry_version (ai_snapshot intent),
      je_seq = None,
      je_entry_metadata = Some [(''ledger_id'', li_ledger_id li), (''profile_id'', ai_profile_id intent),
        (''econ_event_id'', uuid_str (ai_econ_event_id intent))],
      je_description = ai_description intent, je_created_by_id = actor, je_lines = []\<rparr>"

definition flush_insert :: "journal_db option \<Rightarrow> journal_entry \<Rightarrow> journal_db \<Rightarrow> py_exc + journal_db" where
  "flush_insert other e db =
     (case other of
        None \<Rightarrow> insert_entry e db
      | Some d \<Rightarrow>
          if list_ex (\<lambda>r. je_idempotency_key r = je_idempotency_key e) (jd_entries d)
          then Inl IntegrityError else insert_entry e db)"

definition check_rounding_lines :: "resolved_intent_line list \<Rightarrow> journal_exc + unit" where
  "check_rounding_lines ls =
     (let rounding_lines = filter rl_is_rounding ls;
          non_rounding_lines = filter (\<lambda>l. \<not> rl_is_rounding l) ls
      in if length rounding_lines > 1 then Inl (MultipleRoundingLinesError (length rounding_lines))
         else case rounding_lines of
                [] \<Rightarrow> Inr ()
              | l # _ \<Rightarrow>
                  if rl_amount l > max (1/100) (dmul (1/100) (of_nat (length non_rounding_lines)))
                  then Inl RoundingAmountExceededError else Inr ())"

definition line_side_of :: "string \<Rightarrow> py_exc + line_side" where
  "line_side_of s = (if s = ''debit'' then Inr DEBIT else if s = ''credit'' then Inr CREDIT else Inl ValueError)"

definition mk_journal_line :: "uuid \<Rightarrow> resolved_intent_line \<Rightarrow> py_exc + journal_line" where
  "mk_journal_line actor l =
     rbind (line_side_of (rl_side l)) (\<lambda>s. Inr
       \<lparr>jl_account_id = rl_account_id l, jl_side = s, jl_amount = rl_amount l, jl_currency = rl_currency l,
        jl_dimensions = rl_dimensions l, jl_is_rounding = rl_is_rounding l, jl_line_memo = rl_memo l,
        jl_exchange_rate_id = None, jl_line_seq = rl_line_seq l, jl_created_by_id = actor\<rparr>)"

definition create_lines ::
    "uuid \<Rightarrow> resolved_intent_line list \<Rightarrow> uuid \<Rightarrow> journal_db \<Rightarrow> journal_exc + journal_db" where
  "create_lines i rls actor db =
     rbind (check_rounding_lines rls) (\<lambda>_.
     rbind (py (rtraverse (mk_journal_line actor) rls)) (\<lambda>ls.
     py (insert_lines i ls db)))"

definition missing_snapshot_fields :: "journal_entry \<Rightarrow> string list" where
  "missing_snapshot_fields e =
     (if je_coa_version e = None then [''coa_version''] else [])
     @ (if je_dimension_schema_version e = None then [''dimension_schema_version''] else [])
     @ (if je_rounding_policy_version e = None then [''rounding_policy_version''] else [])
     @ (if je_currency_registry_version e = None then [''currency_registry_version''] else [])"

definition finalize_posting ::
    "create_env \<Rightarrow> journal_entry \<Rightarrow> journal_db \<Rightarrow> journal_exc + int \<times> journal_db" where
  "finalize_posting env e db =
     (if missing_snapshot_fields e \<noteq> [] then Inl (MissingReferenceSnapshotError (missing_snapshot_fields e))
      else rbind (py (next_value (ce_race env) JOURNAL_ENTRY (jd_counters db))) (\<lambda>(sq, cs).
        if sq > 0
        then rmap (Pair sq) (py (post_row (je_id e) sq (ce_posted_at env) (db\<lparr>jd_counters := cs\<rparr>)))
        else Inl (Py AssertionError)))"

definition create_entry ::
    "create_env \<Rightarrow> accounting_intent \<Rightarrow> ledger_intent \<Rightarrow> resolved_intent_line list \<Rightarrow> uuid \<Rightarrow> string
     \<Rightarrow> journal_db \<Rightarrow> journal_exc + written_entry \<times> journal_db" where
  "create_entry env intent li rls actor et db =
     (let e = draft_entry env intent li actor et
      in rbind (py (flush_insert (ce_other env) e db)) (\<lambda>db1.
         rbind (create_lines (je_id e) rls actor db1) (\<lambda>db2.
         rbind (finalize_posting env e db2) (\<lambda>(sq, db3). Inr
           (\<lparr>we_entry_id = je_id e, we_ledger_id = li_ledger_id li, we_seq = sq,
             we_idempotency_key = je_idempotency_key e\<rparr>, db3)))))"

section \<open>write\<close>

record journal_writer =
  jw_bindings :: role_bindings
  jw_subledger_check :: "(accounting_intent \<Rightarrow> journal_db \<Rightarrow> journal_exc option) option"
  jw_snapshot_check :: "(accounting_intent \<Rightarrow> journal_exc option) option"

definition seq_or_zero :: "int option \<Rightarrow> int" where
  "seq_or_zero s = (case s of None \<Rightarrow> 0 | Some v \<Rightarrow> v)"

definition existing_written :: "string \<Rightarrow> string \<Rightarrow> journal_entry \<Rightarrow> written_entry" where
  "existing_written lid key e =
     \<lparr>we_entry_id = je_id e, we_ledger_id = lid, we_seq = seq_or_zero (je_seq e), we_idempotency_key = key\<rparr>"

fun partition_intents ::
    "(journal_entry list \<Rightarrow> py_exc + journal_entry option) \<Rightarrow> accounting_intent \<Rightarrow> journal_db
     \<Rightarrow> (ledger_intent \<times> resolved_intent_line list) list
     \<Rightarrow> py_exc + written_entry list \<times> (ledger_intent \<times> resolved_intent_line list) list" where
  "partition_intents one intent db [] = Inr ([], [])"
| "partition_intents one intent db ((li, rls) # rest) =
     (let key = idempotency_key intent (li_ledger_id li)
      in rbind (get_existing_entry one key db) (\<lambda>existing.
         rbind (partition_intents one intent db rest) (\<lambda>(ex, new). Inr
           (case existing of
              None \<Rightarrow> (ex, (li, rls) # new)
            | Some e \<Rightarrow>
                if je_status e \<in> {POSTED, REVERSED} then (existing_written (li_ledger_id li) key e # ex, new)
                else (ex, (li, rls) # new)))))"

definition conflict_rollback :: "create_env \<Rightarrow> journal_session \<Rightarrow> journal_session" where
  "conflict_rollback env s =
     (case ce_other env of None \<Rightarrow> js_rollback s | Some d \<Rightarrow> \<lparr>js_committed = d, js_working = d\<rparr>)"

fun write_loop ::
    "(journal_entry list \<Rightarrow> py_exc + journal_entry option) \<Rightarrow> (nat \<Rightarrow> create_env) \<Rightarrow> accounting_intent
     \<Rightarrow> uuid \<Rightarrow> string \<Rightarrow> nat \<Rightarrow> (ledger_intent \<times> resolved_intent_line list) list \<Rightarrow> written_entry list
     \<Rightarrow> journal_session \<Rightarrow> journal_exc + (write_result + written_entry list) \<times> journal_session" where
  "write_loop one env intent actor et n [] written s = Inr (Inr written, s)"
| "write_loop one env intent actor et n ((li, rls) # rest) written s =
     (case create_entry (env n) intent li rls actor et (js_working s) of
        Inr (we, db) \<Rightarrow>
          write_loop one env intent actor et (Suc n) rest (written @ [we]) (s\<lparr>js_working := db\<rparr>)
      | Inl e \<Rightarrow>
          if e = Py IntegrityError
          then let s' = conflict_rollback (env n) s; key = idempotency_key intent (li_ledger_id li)
               in rbind (py (get_existing_entry one key (js_working s'))) (\<lambda>existing.
                  case existing of
                    Some r \<Rightarrow>
                      write_loop one env intent actor et (Suc n) rest
                        (written @ [existing_written (li_ledger_id li) key r]) s'
                  | None \<Rightarrow> Inr (Inl (wr_failure ''CONCURRENT_INSERT''), s'))
          else Inl e)"

definition unbalanced_intent :: "accounting_intent \<Rightarrow> bool" where
  "unbalanced_intent intent =
     list_ex (\<lambda>li. list_ex (\<lambda>c. \<not> li_is_balanced li (Some c)) (li_currencies li)) (ai_ledger_intents intent)"

definition post_checks ::
    "journal_writer \<Rightarrow> accounting_intent \<Rightarrow> journal_db \<Rightarrow> journal_exc option" where
  "post_checks jw intent db =
     (let g9 = (case jw_subledger_check jw of None \<Rightarrow> None | Some f \<Rightarrow> f intent db)
      in case g9 of
           Some e \<Rightarrow> Some e
         | None \<Rightarrow>
             (case jw_snapshot_check jw of
                None \<Rightarrow> None
              | Some f \<Rightarrow> if is_full_snapshot_id (ai_snapshot intent) \<noteq> None then f intent else None))"

definition journal_write ::
    "(journal_entry list \<Rightarrow> py_exc + journal_entry option) \<Rightarrow> journal_writer \<Rightarrow> (nat \<Rightarrow> create_env)
     \<Rightarrow> accounting_intent \<Rightarrow> uuid \<Rightarrow> string \<Rightarrow> journal_session
     \<Rightarrow> journal_exc + write_result \<times> journal_session" where
  "journal_write one jw env intent actor et s =
     (if unbalanced_intent intent then Inr (wr_validation_failed ''UNBALANCED_INTENT'', s)
      else case resolve_all_roles (jw_bindings jw) intent of
        Inl (RoleResolutionError role) \<Rightarrow> Inr (wr_role_resolution_failed [role], s)
      | Inl e \<Rightarrow> Inl e
      | Inr resolved \<Rightarrow>
          rbind (py (partition_intents one intent (js_working s) resolved)) (\<lambda>(existing, new).
            if new = [] then Inr (wr_already_exists existing, s)
            else rbind (write_loop one env intent actor et 0 new existing s) (\<lambda>(out, s').
              case out of
                Inl r \<Rightarrow> Inr (r, s')
              | Inr written \<Rightarrow>
                  (case post_checks jw intent (js_working s') of
                     Some e \<Rightarrow> Inl e
                   | None \<Rightarrow> Inr (wr_success written, s')))))"

fun get_entries_for_intent_from ::
    "(journal_entry list \<Rightarrow> py_exc + journal_entry option) \<Rightarrow> accounting_intent \<Rightarrow> journal_db
     \<Rightarrow> ledger_intent list \<Rightarrow> py_exc + journal_entry list" where
  "get_entries_for_intent_from one intent db [] = Inr []"
| "get_entries_for_intent_from one intent db (li # lis) =
     rbind (one (filter (\<lambda>e. je_idempotency_key e = idempotency_key intent (li_ledger_id li)) (jd_entries db)))
       (\<lambda>r. rmap (\<lambda>es. case r of None \<Rightarrow> es | Some e \<Rightarrow> e # es)
              (get_entries_for_intent_from one intent db lis))"

definition get_entries_for_intent ::
    "(journal_entry list \<Rightarrow> py_exc + journal_entry option) \<Rightarrow> accounting_intent \<Rightarrow> journal_db
     \<Rightarrow> py_exc + journal_entry list" where
  "get_entries_for_intent one intent db = get_entries_for_intent_from one intent db (ai_ledger_intents intent)"

section \<open>write\_reversal\<close>

definition entry_ledger_id :: "journal_entry \<Rightarrow> string" where
  "entry_ledger_id e =
     (case je_entry_metadata e of
        None \<Rightarrow> ''GL''
      | Some m \<Rightarrow> (case map_of m ''ledger_id'' of None \<Rightarrow> ''GL'' | Some lid \<Rightarrow> lid))"

definition flip_side :: "line_side \<Rightarrow> line_side" where
  "flip_side s = (if s = DEBIT then CREDIT else DEBIT)"

definition reversal_line :: "uuid \<Rightarrow> journal_line \<Rightarrow> journal_line" where
  "reversal_line actor l =
     \<lparr>jl_account_id = jl_account_id l, jl_side = flip_side (jl_side l), jl_amount = jl_amount l,
      jl_currency = jl_currency l, jl_dimensions = jl_dimensions l, jl_is_rounding = False,
      jl_line_memo = Some (''Reversal of line '' @ str_of_nat (jl_line_seq l)),
      jl_exchange_rate_id = jl_exchange_rate_id l, jl_line_seq = jl_line_seq l, jl_created_by_id = actor\<rparr>"

definition str_of_seq :: "int option \<Rightarrow> string" where
  "str_of_seq s = (case s of None \<Rightarrow> ''None'' | Some v \<Rightarrow> str_of_int v)"

definition reversal_draft ::
    "create_env \<Rightarrow> journal_entry \<Rightarrow> uuid \<Rightarrow> uuid \<Rightarrow> int \<Rightarrow> string \<Rightarrow> string \<Rightarrow> journal_entry" where
  "reversal_draft env orig source actor eff reason et =
     \<lparr>je_id = ce_id env, je_source_event_id = source, je_source_event_type = et,
      je_occurred_at = ce_now env, je_effective_date = eff, je_posted_at = None, je_actor_id = actor,
      je_status = DRAFT, je_reversal_of_id = Some (je_id orig),
      je_idempotency_key = reversal_key (je_id orig) (entry_ledger_id orig),
      je_posting_rule_version = je_posting_rule_version orig,
      je_coa_version = je_coa_version orig,
      je_dimension_schema_version = je_dimension_schema_version orig,
      je_rounding_policy_version = je_rounding_policy_version orig,
      je_currency_registry_version = je_currency_registry_version orig,
      je_seq = None,
      je_entry_metadata = Some [(''ledger_id'', entry_ledger_id orig), (''reversal_reason'', reason),
        (''original_entry_id'', uuid_str (je_id orig))],
      je_description = Some (''Reversal of entry seq '' @ str_of_seq (je_seq orig) @ '': '' @ reason),
      je_created_by_id = actor, je_lines = []\<rparr>"

definition bump :: "(string \<rightharpoonup> decimal) \<Rightarrow> string \<Rightarrow> decimal \<Rightarrow> (string \<rightharpoonup> decimal)" where
  "bump m ccy amt = m(ccy \<mapsto> dadd (case m ccy of None \<Rightarrow> 0 | Some x \<Rightarrow> x) amt)"

definition reversal_totals :: "journal_line list \<Rightarrow> (string \<rightharpoonup> decimal) \<times> (string \<rightharpoonup> decimal)" where
  "reversal_totals ls =
     foldl (\<lambda>(d, c) l. if jl_side l = DEBIT then (d, bump c (jl_currency l) (jl_amount l))
                       else (bump d (jl_currency l) (jl_amount l), c))
       (Map.empty, Map.empty) ls"

definition reversal_balanced :: "journal_line list \<Rightarrow> bool" where
  "reversal_balanced ls =
     (let (d, c) = reversal_totals ls;
          total = (\<lambda>m ccy. case m ccy of None \<Rightarrow> 0 | Some x \<Rightarrow> x)
      in list_all (\<lambda>ccy. total d ccy = total c ccy) (remdups (map jl_currency ls)))"

definition write_reversal ::
    "(journal_entry list \<Rightarrow> py_exc + journal_entry option) \<Rightarrow> create_env \<Rightarrow> journal_entry \<Rightarrow> uuid \<Rightarrow> uuid
     \<Rightarrow> int \<Rightarrow> string \<Rightarrow> string \<Rightarrow> string option \<Rightarrow> journal_db \<Rightarrow> journal_exc + journal_entry \<times> journal_db" where
  "write_reversal one env orig source actor eff reason et expected db =
     (let lines = sort_key jl_line_seq (je_lines orig); lid = entry_ledger_id orig
      in if lines = [] then Inl (Py ValueError)
         else if expected \<noteq> None \<and> expected \<noteq> Some lid then Inl (CrossLedgerReversalError lid (the expected))
         else rbind (py (get_existing_entry one (reversal_key (je_id orig) lid) db)) (\<lambda>existing.
           if (case existing of None \<Rightarrow> False | Some r \<Rightarrow> je_status r \<in> {POSTED, REVERSED})
           then Inr (the existing, db)
           else
               let e = reversal_draft env orig source actor eff reason et;
                   ls = map (reversal_line actor) lines
               in rbind (py (flush_insert (ce_other env) e db)) (\<lambda>db1.
                  rbind (py (insert_lines (je_id e) ls db1)) (\<lambda>db2.
                  if \<not> reversal_balanced lines then Inl (Py ValueError)
                  else rbind (finalize_posting env e db2) (\<lambda>(sq, db3). Inr
                    (e\<lparr>je_lines := ls, je_seq := Some sq, je_posted_at := Some (ce_posted_at env),
                       je_status := POSTED\<rparr>, db3))))))"

section \<open>Resolving roles\<close>

text \<open>
  The interface of the resolver: a registered role resolves to its last binding, an unregistered
  one raises.
\<close>

locale role_source =
  fixes reg :: "string \<Rightarrow> 'b \<Rightarrow> 's \<Rightarrow> 's"
    and res :: "'s \<Rightarrow> string \<Rightarrow> journal_exc + 'b"
    and fresh :: 's
  assumes res_fresh: "res fresh role = Inl (RoleResolutionError role)"
    and res_reg: "res (reg role b s) role' = (if role' = role then Inr b else res s role')"
begin

lemma res_all: "res (foldl (\<lambda>s (r, b). reg r b s) fresh bs) role =
    (case map_of (rev bs) role of None \<Rightarrow> Inl (RoleResolutionError role) | Some b \<Rightarrow> Inr b)"
  by (induction bs rule: rev_induct) (auto simp: res_fresh res_reg)

end

interpretation roles: role_source register_binding resolve_full Map.empty
  by unfold_locales (auto simp: register_binding_def resolve_full_def)

lemma py_simps [simp]:
  "py (Inr x) = Inr x" "py (Inl e) = Inl (Py e)"
  "py r = Inr x \<longleftrightarrow> r = Inr x"
  "py r = Inl (Py e) \<longleftrightarrow> r = Inl e"
  by (cases r; auto simp: py_def)+

lemma resolve_intent_line_Inr:
  "resolve_intent_line rb (i, l) = Inr r \<Longrightarrow>
     (\<exists>b. rb (il_account_role l) = Some b \<and> rl_account_id r = br_account_id b \<and> rl_account_code r = br_account_code b)
     \<and> rl_side r = il_side l \<and> rl_money r = il_money l \<and> rl_is_rounding r = il_is_rounding l \<and> rl_line_seq r = i"
  by (auto simp: resolve_intent_line_def resolve_full_def result_iffs split: option.splits)

definition resolved_from :: "role_bindings \<Rightarrow> ledger_intent \<Rightarrow> resolved_intent_line list \<Rightarrow> bool" where
  "resolved_from rb li rls \<longleftrightarrow>
     list_all2 (\<lambda>x r. resolve_intent_line rb x = Inr r) (enumerate 0 (li_lines li)) rls"

lemma resolve_all_roles_Inr:
  "resolve_all_roles rb intent = Inr resolved \<longleftrightarrow>
     list_all2 (\<lambda>li (li', rls). li' = li \<and> resolved_from rb li rls) (ai_ledger_intents intent) resolved"
proof -
  have "resolve_ledger_intent rb li = Inr p \<longleftrightarrow> (case p of (li', rls) \<Rightarrow> li' = li \<and> resolved_from rb li rls)" for li p
    by (cases p) (auto simp: resolve_ledger_intent_def result_iffs rtraverse_Inr resolved_from_def)
  then show ?thesis by (simp add: resolve_all_roles_def rtraverse_Inr)
qed

section \<open>What posting an entry does\<close>

definition posted_version :: "journal_entry \<Rightarrow> int \<Rightarrow> int \<Rightarrow> journal_line list \<Rightarrow> journal_entry" where
  "posted_version e sq t ls = e\<lparr>je_lines := ls, je_seq := Some sq, je_posted_at := Some t, je_status := POSTED\<rparr>"

lemma posted_version_simps [simp]:
  "je_id (posted_version e sq t ls) = je_id e"
  "je_idempotency_key (posted_version e sq t ls) = je_idempotency_key e"
  "je_seq (posted_version e sq t ls) = Some sq"
  "je_status (posted_version e sq t ls) = POSTED"
  "je_lines (posted_version e sq t ls) = ls"
  "je_reversal_of_id (posted_version e sq t ls) = je_reversal_of_id e"
  "missing_snapshot_fields (posted_version e sq t ls) = missing_snapshot_fields e"
  by (simp_all add: posted_version_def missing_snapshot_fields_def)

lemma post_pipeline:
  assumes ins: "flush_insert other e db = Inr db1" and lines: "insert_lines (je_id e) ls db1 = Inr db2"
    and fin: "finalize_posting env e db2 = Inr (sq, db3)" and e: "je_lines e = []"
  shows "entry_constraints e db" "missing_snapshot_fields e = []" "0 < sq"
    "\<exists>cs. next_value (ce_race env) JOURNAL_ENTRY (jd_counters db) = Inr (sq, cs)
       \<and> db3 = db\<lparr>jd_entries := jd_entries db @ [posted_version e sq (ce_posted_at env) ls], jd_counters := cs\<rparr>"
proof -
  have c: "entry_constraints e db" and db1: "db1 = db\<lparr>jd_entries := jd_entries db @ [e]\<rparr>"
    using ins by (auto simp: flush_insert_def insert_entry_Inr split: option.splits if_splits)
  then have fresh: "je_id e \<notin> je_id ` set (jd_entries db)" by (auto simp: entry_constraints_def list_all_iff)
  have db2: "db2 = db\<lparr>jd_entries := jd_entries db @ [e\<lparr>je_lines := ls\<rparr>]\<rparr>"
    using lines e by (auto simp: insert_lines_def db1 update_entry_last [OF fresh] split: if_splits)
  obtain cs where cs: "next_value (ce_race env) JOURNAL_ENTRY (jd_counters db) = Inr (sq, cs)" "0 < sq"
    and p: "post_row (je_id e) sq (ce_posted_at env) (db2\<lparr>jd_counters := cs\<rparr>) = Inr db3"
    using fin by (auto simp: finalize_posting_def result_iffs db2 split: if_splits)
  have "db2\<lparr>jd_counters := cs\<rparr> =
      (db\<lparr>jd_counters := cs\<rparr>)\<lparr>jd_entries := jd_entries db @ [e\<lparr>je_lines := ls\<rparr>]\<rparr>"
    by (simp add: db2)
  then have "db3 = (db\<lparr>jd_counters := cs\<rparr>)
      \<lparr>jd_entries := jd_entries db @ [posted_version e sq (ce_posted_at env) ls]\<rparr>"
    using p update_entry_last [OF fresh, of "e\<lparr>je_lines := ls\<rparr>"]
    by (auto simp: post_row_def posted_version_def split: if_splits)
  then show "\<exists>cs. next_value (ce_race env) JOURNAL_ENTRY (jd_counters db) = Inr (sq, cs)
      \<and> db3 = db\<lparr>jd_entries := jd_entries db @ [posted_version e sq (ce_posted_at env) ls], jd_counters := cs\<rparr>"
    using cs by auto
  show "entry_constraints e db" "0 < sq" by (fact c cs)+
  show "missing_snapshot_fields e = []" using fin by (auto simp: finalize_posting_def split: if_splits)
qed

lemma draft_entry_simps [simp]:
  "je_id (draft_entry env intent li actor et) = ce_id env"
  "je_idempotency_key (draft_entry env intent li actor et) = idempotency_key intent (li_ledger_id li)"
  "je_lines (draft_entry env intent li actor et) = []"
  "je_reversal_of_id (draft_entry env intent li actor et) = None"
  by (simp_all add: draft_entry_def)

lemma create_entry_Inr:
  assumes "create_entry env intent li rls actor et db = Inr (we, db')"
  obtains ls sq cs where
    "rtraverse (mk_journal_line actor) rls = Inr ls" "check_rounding_lines rls = Inr ()"
    "entry_constraints (draft_entry env intent li actor et) db"
    "missing_snapshot_fields (draft_entry env intent li actor et) = []" "0 < sq"
    "next_value (ce_race env) JOURNAL_ENTRY (jd_counters db) = Inr (sq, cs)"
    "db' = db\<lparr>jd_entries := jd_entries db @ [posted_version (draft_entry env intent li actor et) sq (ce_posted_at env) ls],
       jd_counters := cs\<rparr>"
    "we = \<lparr>we_entry_id = ce_id env, we_ledger_id = li_ledger_id li, we_seq = sq,
       we_idempotency_key = idempotency_key intent (li_ledger_id li)\<rparr>"
proof -
  let ?e = "draft_entry env intent li actor et"
  obtain db1 ls db2 sq where s: "flush_insert (ce_other env) ?e db = Inr db1" "check_rounding_lines rls = Inr ()"
    "rtraverse (mk_journal_line actor) rls = Inr ls" "insert_lines (je_id ?e) ls db1 = Inr db2"
    "finalize_posting env ?e db2 = Inr (sq, db')"
    and we: "we = \<lparr>we_entry_id = ce_id env, we_ledger_id = li_ledger_id li, we_seq = sq,
       we_idempotency_key = idempotency_key intent (li_ledger_id li)\<rparr>"
    using assms by (auto simp: create_entry_def create_lines_def result_iffs Let_def)
  note p = post_pipeline [OF s(1,4,5)]
  from p(4) obtain cs where "next_value (ce_race env) JOURNAL_ENTRY (jd_counters db) = Inr (sq, cs)"
    "db' = db\<lparr>jd_entries := jd_entries db @ [posted_version ?e sq (ce_posted_at env) ls], jd_counters := cs\<rparr>"
    by auto
  then show ?thesis using that [OF s(3,2)] p(1,2,3) we by simp
qed

end
