(* ===== verification/Journal_Safety.thy ===== *)
theory Journal_Safety
  imports Journal_Writer
begin

text \<open>
  The invariant of the journal tables, its preservation by \<open>JournalWriter.write\<close> and
  \<open>write_reversal\<close>, and the properties that follow: every stored entry is posted and balances per
  currency, sequence numbers grow along the table, keys are unique, stored entries never change.
\<close>

section \<open>The invariant\<close>

definition lines_balanced :: "journal_line list \<Rightarrow> bool" where
  "lines_balanced ls \<longleftrightarrow>
     list_all (\<lambda>l. dsum (jl_side_amounts DEBIT (jl_currency l) ls) = dsum (jl_side_amounts CREDIT (jl_currency l) ls)) ls"

definition entry_ok :: "journal_entry \<Rightarrow> bool" where
  "entry_ok e \<longleftrightarrow> je_status e = POSTED \<and> (case je_seq e of None \<Rightarrow> False | Some v \<Rightarrow> 0 < v)
     \<and> lines_balanced (je_lines e) \<and> length (filter jl_is_rounding (je_lines e)) \<le> 1
     \<and> missing_snapshot_fields e = []"

definition seq_of :: "journal_entry \<Rightarrow> int" where
  "seq_of e = seq_or_zero (je_seq e)"

definition origin_ok :: "journal_entry list \<Rightarrow> journal_entry \<Rightarrow> bool" where
  "origin_ok es r \<longleftrightarrow>
     (case je_reversal_of_id r of
        None \<Rightarrow> (\<exists>intent lid. je_idempotency_key r = idempotency_key intent lid)
      | Some i \<Rightarrow> (\<exists>e \<in> set es. \<exists>actor. je_id e = i \<and> je_idempotency_key r = reversal_key i (entry_ledger_id e)
          \<and> je_lines r = map (reversal_line actor) (sort_key jl_line_seq (je_lines e))))"

definition inv_db :: "journal_db \<Rightarrow> bool" where
  "inv_db db \<longleftrightarrow> distinct (map je_id (jd_entries db)) \<and> distinct (map je_idempotency_key (jd_entries db))
     \<and> distinct (map the (filter (\<lambda>x. x \<noteq> None) (map je_reversal_of_id (jd_entries db))))
     \<and> list_all entry_ok (jd_entries db) \<and> list_all (origin_ok (jd_entries db)) (jd_entries db)
     \<and> sorted_wrt (<) (map seq_of (jd_entries db))
     \<and> list_all (\<lambda>e. seq_of e \<le> counter_value (jd_counters db) JOURNAL_ENTRY) (jd_entries db)"

lemma entry_ok_seq: "entry_ok e \<Longrightarrow> je_seq e = Some (seq_of e) \<and> 0 < seq_of e"
  by (auto simp: entry_ok_def seq_of_def seq_or_zero_def split: option.splits)

lemma seq_of_posted [simp]: "seq_of (posted_version e sq t ls) = sq"
  by (simp add: seq_of_def seq_or_zero_def)

lemma origin_ok_mono: "origin_ok es r \<Longrightarrow> set es \<subseteq> set es' \<Longrightarrow> origin_ok es' r"
  unfolding origin_ok_def by (cases "je_reversal_of_id r") auto

lemma inv_db_append:
  assumes inv: "inv_db db" and con: "entry_constraints e db" and miss: "missing_snapshot_fields e = []"
    and origin: "origin_ok (jd_entries db) (posted_version e sq t ls)"
    and ls: "lines_balanced ls" "length (filter jl_is_rounding ls) \<le> 1"
    and sq: "next_value race JOURNAL_ENTRY (jd_counters db) = Inr (sq, cs)" "0 < sq"
  shows "inv_db (db\<lparr>jd_entries := jd_entries db @ [posted_version e sq t ls], jd_counters := cs\<rparr>)"
proof -
  have val: "counter_value (jd_counters db) JOURNAL_ENTRY < sq" "counter_value cs JOURNAL_ENTRY = sq"
    using seqs.nxt_greater [OF sq(1)] seqs.nxt_val [OF sq(1)] by auto
  have ok: "entry_ok (posted_version e sq t ls)" using ls sq(2) miss by (simp add: entry_ok_def)
  have below: "\<forall>r \<in> set (jd_entries db). seq_of r < sq"
    using inv val by (fastforce simp: inv_db_def list_all_iff)
  have new: "je_id e \<notin> je_id ` set (jd_entries db)" "je_idempotency_key e \<notin> je_idempotency_key ` set (jd_entries db)"
    "je_reversal_of_id e = None \<or> je_reversal_of_id e \<notin> je_reversal_of_id ` set (jd_entries db)"
    using con by (auto simp: entry_constraints_def list_all_iff)
  have "distinct (map the (filter (\<lambda>x. x \<noteq> None) (map je_reversal_of_id (jd_entries db @ [posted_version e sq t ls]))))"
    using inv new(3) by (auto simp: inv_db_def) (metis imageI)
  moreover have "list_all (origin_ok (jd_entries db @ [posted_version e sq t ls])) (jd_entries db @ [posted_version e sq t ls])"
    using inv origin origin_ok_mono [of "jd_entries db" _ "jd_entries db @ [posted_version e sq t ls]"]
    by (auto simp: inv_db_def list_all_iff)
  ultimately show ?thesis using inv new(1,2) ok below val
    by (auto simp: inv_db_def list_all_iff sorted_wrt_append less_imp_le)
qed

section \<open>The lines of an entry balance\<close>

lemma not_unbalanced:
  assumes "\<not> unbalanced_intent intent" "li \<in> set (ai_ledger_intents intent)" "l \<in> set (li_lines li)"
  shows "li_total_debits li (Some (il_currency l)) = li_total_credits li (Some (il_currency l))"
proof -
  have c: "il_currency l \<in> set (li_currencies li)" using assms(3) by (simp add: li_currencies_def)
  then have "li_is_balanced li (Some (il_currency l))"
    using assms(1,2) by (auto simp: unbalanced_intent_def list_ex_iff)
  then show ?thesis using c by (auto simp: li_is_balanced_def list_all_iff split: if_splits)
qed

lemma mk_journal_line_Inr:
  "mk_journal_line actor r = Inr j \<Longrightarrow> line_side_of (rl_side r) = Inr (jl_side j) \<and> jl_amount j = rl_amount r
     \<and> jl_currency j = rl_currency r \<and> jl_is_rounding j = rl_is_rounding r \<and> jl_account_id j = rl_account_id r"
  by (auto simp: mk_journal_line_def result_iffs)

lemma written_line:
  assumes "resolve_intent_line rb (i, l) = Inr r" "mk_journal_line actor r = Inr j"
  shows "jl_currency j = il_currency l" "jl_amount j = il_amount l" "jl_side j = DEBIT \<longleftrightarrow> il_side l = INTENT_DEBIT"
    "jl_side j = CREDIT \<longleftrightarrow> il_side l = INTENT_CREDIT"
  using resolve_intent_line_Inr [OF assms(1)] mk_journal_line_Inr [OF assms(2)]
  by (auto simp: rl_currency_def il_currency_def rl_amount_def il_amount_def line_side_of_def INTENT_DEBIT_def
      INTENT_CREDIT_def split: if_splits)

lemma written_amounts:
  assumes "list_all2 (\<lambda>x r. resolve_intent_line rb x = Inr r) (enumerate n ils) rls"
    "list_all2 (\<lambda>r j. mk_journal_line actor r = Inr j) rls ls"
  shows "jl_side_amounts DEBIT c ls = il_side_amounts INTENT_DEBIT (Some c) ils \<and>
    jl_side_amounts CREDIT c ls = il_side_amounts INTENT_CREDIT (Some c) ils \<and> map jl_currency ls = map il_currency ils"
  using assms
proof (induction ils arbitrary: n rls ls)
  case (Cons l ils)
  then obtain r rls' j ls' where "rls = r # rls'" "ls = j # ls'" and lj: "resolve_intent_line rb (n, l) = Inr r"
    "mk_journal_line actor r = Inr j" and rest: "list_all2 (\<lambda>x r. resolve_intent_line rb x = Inr r) (enumerate (Suc n) ils) rls'"
    "list_all2 (\<lambda>r j. mk_journal_line actor r = Inr j) rls' ls'"
    by (auto simp: list_all2_Cons1)
  then show ?case using Cons.IH [OF rest] written_line [OF lj]
    by (auto simp: jl_side_amounts_def il_side_amounts_def)
qed (simp add: jl_side_amounts_def il_side_amounts_def)

lemma written_balanced:
  assumes "\<not> unbalanced_intent intent" "li \<in> set (ai_ledger_intents intent)" "resolved_from rb li rls"
    "rtraverse (mk_journal_line actor) rls = Inr ls"
  shows "lines_balanced ls"
proof -
  note w = written_amounts [OF assms(3) [unfolded resolved_from_def] assms(4) [unfolded rtraverse_Inr]]
  have "dsum (jl_side_amounts DEBIT c ls) = dsum (jl_side_amounts CREDIT c ls)" if c: "c \<in> set (map jl_currency ls)" for c
  proof -
    obtain l where "l \<in> set (li_lines li)" "c = il_currency l" using c w by auto
    then show ?thesis using not_unbalanced [OF assms(1,2)] w by (simp add: li_total_debits_def li_total_credits_def)
  qed
  then show ?thesis by (auto simp: lines_balanced_def list_all_iff)
qed

lemma written_rounding:
  assumes "check_rounding_lines rls = Inr ()" "rtraverse (mk_journal_line actor) rls = Inr ls"
  shows "length (filter jl_is_rounding ls) \<le> 1"
proof -
  have "map jl_is_rounding ls = map rl_is_rounding rls"
    using assms(2) unfolding rtraverse_Inr by (induction rule: list_all2_induct) (auto dest: mk_journal_line_Inr)
  then have "length (filter jl_is_rounding ls) = length (filter rl_is_rounding rls)"
  proof (induction ls arbitrary: rls)
    case (Cons l ls)
    then show ?case by (cases rls) auto
  qed simp
  then show ?thesis using assms(1) by (auto simp: check_rounding_lines_def Let_def split: if_splits)
qed

section \<open>Sessions\<close>

definition extends :: "journal_db \<Rightarrow> journal_db \<Rightarrow> bool" where
  "extends d d' \<longleftrightarrow> take (length (jd_entries d)) (jd_entries d') = jd_entries d"

definition inv_session :: "journal_session \<Rightarrow> bool" where
  "inv_session s \<longleftrightarrow> inv_db (js_committed s) \<and> inv_db (js_working s) \<and> extends (js_committed s) (js_working s)"

definition env_ok :: "journal_db \<Rightarrow> (nat \<Rightarrow> create_env) \<Rightarrow> bool" where
  "env_ok d env \<longleftrightarrow> (\<forall>n d'. ce_other (env n) = Some d' \<longrightarrow> inv_db d' \<and> extends d d')"

lemma extends_refl [simp]: "extends d d"
  by (simp add: extends_def)

lemma extends_append: "extends d (d'\<lparr>jd_entries := jd_entries d @ es, jd_counters := cs\<rparr>)"
  by (simp add: extends_def)

lemma extends_iff: "extends d d' \<longleftrightarrow> (\<exists>es. jd_entries d' = jd_entries d @ es)"
  unfolding extends_def by (metis append_eq_conv_conj append_take_drop_id)

lemma extends_trans: "extends a b \<Longrightarrow> extends b c \<Longrightarrow> extends a c"
  by (auto simp: extends_iff)

definition postable :: "role_bindings \<Rightarrow> accounting_intent \<Rightarrow> (ledger_intent \<times> resolved_intent_line list) list \<Rightarrow> bool" where
  "postable rb intent new \<longleftrightarrow> \<not> unbalanced_intent intent
     \<and> (\<forall>(li, rls) \<in> set new. li \<in> set (ai_ledger_intents intent) \<and> resolved_from rb li rls)"

lemma postable_simps [simp]:
  "postable rb intent ((li, rls) # new) \<longleftrightarrow> li \<in> set (ai_ledger_intents intent) \<and> resolved_from rb li rls
     \<and> postable rb intent new"
  by (auto simp: postable_def)

lemma create_entry_inv:
  assumes "create_entry env intent li rls actor et db = Inr (we, db')" "inv_db db"
    "\<not> unbalanced_intent intent" "li \<in> set (ai_ledger_intents intent)" "resolved_from rb li rls"
  shows "inv_db db' \<and> extends db db'"
  using assms(1)
proof (rule create_entry_Inr)
  fix ls sq cs
  assume ls: "rtraverse (mk_journal_line actor) rls = Inr ls" "check_rounding_lines rls = Inr ()"
    and e: "entry_constraints (draft_entry env intent li actor et) db"
      "missing_snapshot_fields (draft_entry env intent li actor et) = []"
    and sq: "0 < sq" "next_value (ce_race env) JOURNAL_ENTRY (jd_counters db) = Inr (sq, cs)"
    and db': "db' = db\<lparr>jd_entries := jd_entries db @ [posted_version (draft_entry env intent li actor et) sq
        (ce_posted_at env) ls], jd_counters := cs\<rparr>"
  have "lines_balanced ls" by (rule written_balanced [OF assms(3,4,5) ls(1)])
  moreover have "origin_ok es (posted_version (draft_entry env intent li actor et) sq (ce_posted_at env) ls)" for es
    by (auto simp: origin_ok_def)
  ultimately show ?thesis using inv_db_append [OF assms(2) e _ _ written_rounding [OF ls(2,1)] sq(2,1)]
    by (simp add: db' extends_append)
qed

lemma conflict_rollback_inv:
  assumes "inv_session s" "env_ok d env" "extends d (js_committed s)"
  shows "inv_session (conflict_rollback (env n) s) \<and> extends d (js_committed (conflict_rollback (env n) s))"
  using assms by (auto simp: conflict_rollback_def inv_session_def js_rollback_def env_ok_def split: option.split)

lemma write_loop_inv:
  assumes "write_loop one env intent actor et n new written s = Inr (out, s')" "inv_session s"
    "postable rb intent new" "env_ok d env" "extends d (js_committed s)"
  shows "inv_session s' \<and> extends d (js_committed s')"
  using assms
proof (induction one env intent actor et n new written s rule: write_loop.induct)
  case (2 one env intent actor et n li rls rest written s)
  note IH = 2(1,2) and hyps = 2(3-7)
  show ?case
  proof (cases "create_entry (env n) intent li rls actor et (js_working s)")
    case (Inr p)
    obtain we db where p: "p = (we, db)" by (cases p)
    have "inv_db db \<and> extends (js_working s) db"
      using create_entry_inv [OF Inr [unfolded p], of rb] hyps(2,3) by (simp add: inv_session_def postable_def)
    then have "inv_session (s\<lparr>js_working := db\<rparr>)"
      using hyps(2) extends_trans by (auto simp: inv_session_def)
    then show ?thesis using IH(2) [OF Inr p [symmetric]] hyps Inr p by simp
  next
    case (Inl e)
    have e: "e = Py IntegrityError" using hyps(1) Inl by (auto split: if_splits)
    let ?s = "conflict_rollback (env n) s"
    have s: "inv_session ?s \<and> extends d (js_committed ?s)" using conflict_rollback_inv hyps(2,4,5) by blast
    show ?thesis using IH(1) [OF Inl e refl refl] hyps s Inl e
      by (auto simp: result_iffs Let_def split: option.splits)
  qed
qed auto

lemma partition_new:
  "partition_intents one intent db resolved = Inr (ex, new) \<Longrightarrow> set new \<subseteq> set resolved"
  by (induction one intent db resolved arbitrary: ex new rule: partition_intents.induct)
    (fastforce simp: result_iffs Let_def split: option.splits if_splits)+

lemma list_all2_in2: "list_all2 P xs ys \<Longrightarrow> y \<in> set ys \<Longrightarrow> \<exists>x \<in> set xs. P x y"
  by (induction rule: list_all2_induct) auto

lemma resolved_postable:
  assumes "\<not> unbalanced_intent intent" "resolve_all_roles rb intent = Inr resolved" "set new \<subseteq> set resolved"
  shows "postable rb intent new"
proof -
  have "li \<in> set (ai_ledger_intents intent) \<and> resolved_from rb li rls" if "(li, rls) \<in> set new" for li rls
    using list_all2_in2 [OF assms(2) [unfolded resolve_all_roles_Inr]] that assms(3) by fastforce
  then show ?thesis using assms(1) by (auto simp: postable_def)
qed

lemma journal_write_cases:
  assumes "journal_write one jw env intent actor et s = Inr (r, s')"
  obtains (unbalanced) "unbalanced_intent intent" "r = wr_validation_failed ''UNBALANCED_INTENT''" "s' = s"
  | (roles) role where "\<not> unbalanced_intent intent" "r = wr_role_resolution_failed [role]" "s' = s"
      "resolve_all_roles (jw_bindings jw) intent = Inl (RoleResolutionError role)"
  | (exists) resolved ex where "\<not> unbalanced_intent intent" "r = wr_already_exists ex" "s' = s"
      "resolve_all_roles (jw_bindings jw) intent = Inr resolved"
      "partition_intents one intent (js_working s) resolved = Inr (ex, [])"
  | (loop) resolved ex new out where "\<not> unbalanced_intent intent"
      "resolve_all_roles (jw_bindings jw) intent = Inr resolved"
      "partition_intents one intent (js_working s) resolved = Inr (ex, new)" "new \<noteq> []"
      "write_loop one env intent actor et 0 new ex s = Inr (out, s')"
      "(\<exists>f. out = Inl f \<and> r = f) \<or>
       (\<exists>w. out = Inr w \<and> r = wr_success w \<and> post_checks jw intent (js_working s') = None)"
proof (cases "unbalanced_intent intent")
  case True
  then show ?thesis using assms unbalanced by (simp add: journal_write_def)
next
  case nb: False
  show ?thesis
  proof (cases "resolve_all_roles (jw_bindings jw) intent")
    case (Inl e)
    then show ?thesis using assms nb roles by (auto simp: journal_write_def split: journal_exc.splits)
  next
    case (Inr resolved)
    then obtain ex new where p: "partition_intents one intent (js_working s) resolved = Inr (ex, new)"
      using assms nb by (auto simp: journal_write_def result_iffs)
    show ?thesis
    proof (cases "new = []")
      case True
      then show ?thesis using assms nb Inr p exists [of ex resolved] by (auto simp: journal_write_def)
    next
      case False
      then obtain out t where l: "write_loop one env intent actor et 0 new ex s = Inr (out, t)"
        using assms nb Inr p by (auto simp: journal_write_def result_iffs)
      then have "(case out of Inl f \<Rightarrow> Inr (f, t) | Inr w \<Rightarrow> (case post_checks jw intent (js_working t) of
          Some e \<Rightarrow> Inl e | None \<Rightarrow> Inr (wr_success w, t))) = Inr (r, s')"
        using assms nb Inr p False by (simp add: journal_write_def)
      then show ?thesis using loop [OF nb Inr p False] l by (auto split: sum.splits option.splits)
    qed
  qed
qed

lemma journal_write_inv:
  assumes "journal_write one jw env intent actor et s = Inr (r, s')" "inv_session s" "env_ok (js_committed s) env"
  shows "inv_session s' \<and> extends (js_committed s) (js_committed s')"
  using assms(1)
proof (cases rule: journal_write_cases)
  case (loop resolved ex new out)
  then show ?thesis
    using write_loop_inv [OF loop(5) assms(2) resolved_postable [OF loop(1,2) partition_new [OF loop(3)]] assms(3)]
    by simp
qed (use assms(2) in simp_all)

section \<open>Reversals\<close>

abbreviation total_of :: "(string \<rightharpoonup> decimal) \<Rightarrow> string \<Rightarrow> decimal" where
  "total_of m c \<equiv> (case m c of None \<Rightarrow> 0 | Some x \<Rightarrow> x)"

lemma reversal_totals_sums:
  "total_of (fst (reversal_totals ls)) c = dsum (jl_side_amounts CREDIT c ls) \<and>
   total_of (snd (reversal_totals ls)) c = dsum (jl_side_amounts DEBIT c ls)"
proof (induction ls rule: rev_induct)
  case (snoc l ls)
  obtain d k where dk: "reversal_totals ls = (d, k)" by fastforce
  then have "reversal_totals (ls @ [l]) = (if jl_side l = DEBIT then (d, bump k (jl_currency l) (jl_amount l))
      else (bump d (jl_currency l) (jl_amount l), k))"
    by (simp add: reversal_totals_def)
  moreover have "jl_side l \<noteq> DEBIT \<Longrightarrow> jl_side l = CREDIT" by (cases "jl_side l") auto
  ultimately show ?case using snoc dk by (auto simp: bump_def jl_side_amounts_def)
qed (simp add: reversal_totals_def jl_side_amounts_def)

lemma reversal_line_simps [simp]:
  "jl_side (reversal_line a l) = flip_side (jl_side l)" "jl_amount (reversal_line a l) = jl_amount l"
  "jl_currency (reversal_line a l) = jl_currency l" "jl_account_id (reversal_line a l) = jl_account_id l"
  "jl_line_seq (reversal_line a l) = jl_line_seq l" "\<not> jl_is_rounding (reversal_line a l)"
  by (simp_all add: reversal_line_def)

lemma flip_side_simps [simp]: "flip_side s = DEBIT \<longleftrightarrow> s = CREDIT" "flip_side s = CREDIT \<longleftrightarrow> s = DEBIT"
  by (cases s; simp add: flip_side_def)+

lemma reversal_amounts:
  "jl_side_amounts DEBIT c (map (reversal_line a) ls) = jl_side_amounts CREDIT c ls"
  "jl_side_amounts CREDIT c (map (reversal_line a) ls) = jl_side_amounts DEBIT c ls"
  by (induction ls) (auto simp: jl_side_amounts_def)

lemma reversal_balanced_iff:
  "reversal_balanced ls \<longleftrightarrow> lines_balanced (map (reversal_line a) ls)"
  "reversal_balanced ls \<longleftrightarrow> lines_balanced ls"
  using reversal_totals_sums [of ls]
  by (auto simp: reversal_balanced_def lines_balanced_def list_all_iff reversal_amounts split: prod.split)

lemma write_reversal_cases:
  assumes "write_reversal one env orig source actor eff reason et expected db = Inr (e, db')"
  obtains (existing) "get_existing_entry one (reversal_key (je_id orig) (entry_ledger_id orig)) db = Inr (Some e)"
      "je_status e \<in> {POSTED, REVERSED}" "db' = db"
  | (new) sq cs where
      "e = posted_version (reversal_draft env orig source actor eff reason et) sq (ce_posted_at env)
         (map (reversal_line actor) (sort_key jl_line_seq (je_lines orig)))"
      "entry_constraints (reversal_draft env orig source actor eff reason et) db"
      "missing_snapshot_fields (reversal_draft env orig source actor eff reason et) = []"
      "reversal_balanced (sort_key jl_line_seq (je_lines orig))" "je_lines orig \<noteq> []" "0 < sq"
      "next_value (ce_race env) JOURNAL_ENTRY (jd_counters db) = Inr (sq, cs)"
      "db' = db\<lparr>jd_entries := jd_entries db @ [e], jd_counters := cs\<rparr>"
proof -
  let ?k = "reversal_key (je_id orig) (entry_ledger_id orig)"
  let ?e = "reversal_draft env orig source actor eff reason et"
  let ?os = "sort_key jl_line_seq (je_lines orig)"
  let ?ls = "map (reversal_line actor) ?os"
  obtain ex where ex: "get_existing_entry one ?k db = Inr ex" and ne: "?os \<noteq> []"
    using assms by (auto simp: write_reversal_def Let_def result_iffs split: if_splits)
  show ?thesis
  proof (cases "case ex of None \<Rightarrow> False | Some r \<Rightarrow> je_status r \<in> {POSTED, REVERSED}")
    case True
    then show ?thesis using assms ex existing
      by (auto simp: write_reversal_def Let_def split: if_splits option.splits)
  next
    case False
    then obtain db1 db2 sq where s: "flush_insert (ce_other env) ?e db = Inr db1"
      "insert_lines (je_id ?e) ?ls db1 = Inr db2" "finalize_posting env ?e db2 = Inr (sq, db')"
      and b: "reversal_balanced ?os" and e: "e = posted_version ?e sq (ce_posted_at env) ?ls"
      using assms ex ne by (auto simp: write_reversal_def Let_def result_iffs posted_version_def split: if_splits)
    have "je_lines ?e = []" by (simp add: reversal_draft_def)
    note p = post_pipeline [OF s this]
    from p(4) obtain cs where "next_value (ce_race env) JOURNAL_ENTRY (jd_counters db) = Inr (sq, cs)"
      "db' = db\<lparr>jd_entries := jd_entries db @ [e], jd_counters := cs\<rparr>" by (auto simp: e)
    moreover have "je_lines orig \<noteq> []" using ne by auto
    ultimately show ?thesis using new [OF e p(1,2) b _ p(3), of cs] ne by (auto simp: e)
  qed
qed

lemma reversal_draft_simps [simp]:
  "je_id (reversal_draft env orig source actor eff reason et) = ce_id env"
  "je_idempotency_key (reversal_draft env orig source actor eff reason et) = reversal_key (je_id orig) (entry_ledger_id orig)"
  "je_reversal_of_id (reversal_draft env orig source actor eff reason et) = Some (je_id orig)"
  "je_lines (reversal_draft env orig source actor eff reason et) = []"
  by (simp_all add: reversal_draft_def)

lemma write_reversal_inv:
  assumes "write_reversal one env orig source actor eff reason et expected db = Inr (e, db')" "inv_db db"
    and orig: "orig \<in> set (jd_entries db)"
  shows "inv_db db' \<and> extends db db'"
  using assms(1)
proof (cases rule: write_reversal_cases)
  case existing
  then show ?thesis using assms(2) by simp
next
  case (new sq cs)
  have "filter jl_is_rounding (map (reversal_line actor) (sort_key jl_line_seq (je_lines orig))) = []"
    by (auto simp: filter_empty_conv)
  moreover have "origin_ok (jd_entries db) e" using orig by (auto simp: origin_ok_def new(1))
  ultimately show ?thesis
    using inv_db_append [OF assms(2) new(2,3) _ _ _ new(7,6)] new(4) reversal_balanced_iff(1)
    by (auto simp: new(1,8) extends_append)
qed

section \<open>Runs of the journal\<close>

text \<open>
  One step of a session: a call of \<open>write\<close> or \<open>write_reversal\<close> that returns, a call that raises
  and is rolled back by its caller, a commit, a rollback, or a change of the tables the foreign
  keys refer to.
\<close>

inductive journal_step ::
    "(journal_entry list \<Rightarrow> py_exc + journal_entry option) \<Rightarrow> journal_writer \<Rightarrow> journal_session
     \<Rightarrow> journal_session \<Rightarrow> bool" for one jw where
  step_write: "journal_write one jw env intent actor et s = Inr (r, s') \<Longrightarrow> env_ok (js_committed s) env \<Longrightarrow>
     journal_step one jw s s'"
| step_write_raises: "journal_write one jw env intent actor et s = Inl e \<Longrightarrow> journal_step one jw s (js_rollback s)"
| step_reversal: "orig \<in> set (jd_entries (js_working s)) \<Longrightarrow>
     write_reversal one env orig source actor eff reason et expected (js_working s) = Inr (e, db) \<Longrightarrow>
     journal_step one jw s (s\<lparr>js_working := db\<rparr>)"
| step_reversal_raises: "write_reversal one env orig source actor eff reason et expected (js_working s) = Inl x \<Longrightarrow>
     journal_step one jw s (js_rollback s)"
| step_commit: "journal_step one jw s (js_commit s)"
| step_rollback: "journal_step one jw s (js_rollback s)"
| step_tables: "journal_step one jw s
     (s\<lparr>js_working := js_working s\<lparr>jd_event_ids := evs, jd_account_ids := accs\<rparr>\<rparr>)"

inductive_cases journal_stepE: "journal_step one jw s s'"

definition empty_db :: journal_db where
  "empty_db = \<lparr>jd_entries = [], jd_counters = Map.empty, jd_event_ids = [], jd_account_ids = []\<rparr>"

definition empty_session :: journal_session where
  "empty_session = \<lparr>js_committed = empty_db, js_working = empty_db\<rparr>"

inductive reachable ::
    "(journal_entry list \<Rightarrow> py_exc + journal_entry option) \<Rightarrow> journal_writer \<Rightarrow> journal_session \<Rightarrow> bool"
  for one jw where
  reach_init: "reachable one jw empty_session"
| reach_step: "reachable one jw s \<Longrightarrow> journal_step one jw s s' \<Longrightarrow> reachable one jw s'"

lemma inv_db_tables [simp]:
  "inv_db (db\<lparr>jd_event_ids := evs, jd_account_ids := accs\<rparr>) = inv_db db" "inv_db (db\<lparr>jd_event_ids := evs\<rparr>) = inv_db db"
  by (simp_all add: inv_db_def)

lemma journal_step_inv:
  assumes "journal_step one jw s s'" "inv_session s"
  shows "inv_session s' \<and> extends (js_committed s) (js_committed s')"
  using assms
proof cases
  case (step_write env intent actor et r)
  then show ?thesis using journal_write_inv assms(2) by blast
next
  case (step_reversal orig env source actor eff reason et expected e db)
  then have "inv_db db \<and> extends (js_working s) db"
    using write_reversal_inv [OF step_reversal(3)] step_reversal(2) assms(2) by (simp add: inv_session_def)
  then show ?thesis using step_reversal(1) assms(2) extends_trans by (auto simp: inv_session_def)
qed (auto simp: inv_session_def js_commit_def js_rollback_def, auto simp: extends_def)

lemma reachable_inv: "reachable one jw s \<Longrightarrow> inv_session s"
proof (induction rule: reachable.induct)
  case reach_init
  then show ?case by (simp add: inv_session_def empty_session_def empty_db_def inv_db_def)
next
  case (reach_step s s')
  then show ?case using journal_step_inv by blast
qed

section \<open>Sums over the ledger\<close>

definition ledger_amounts :: "line_side \<Rightarrow> string \<Rightarrow> journal_db \<Rightarrow> decimal list" where
  "ledger_amounts sd c db = concat (map (\<lambda>e. jl_side_amounts sd c (je_lines e)) (jd_entries db))"

lemma side_amounts_exact:
  assumes "exact_terms k (map jl_amount ls)"
  shows "exact_terms k (jl_side_amounts sd c ls)"
proof (rule exact_terms_le [OF assms])
  show "list_all (on_grid k) (jl_side_amounts sd c ls)"
    using assms by (auto simp: exact_terms_def list_all_iff jl_side_amounts_def)
  show "sum_list (map abs (jl_side_amounts sd c ls)) \<le> sum_list (map abs (map jl_amount ls))"
    by (induction ls) (auto simp: jl_side_amounts_def)
qed

lemma balanced_sum:
  assumes "lines_balanced ls" "exact_terms k (map jl_amount ls)"
  shows "sum_list (jl_side_amounts DEBIT c ls) = sum_list (jl_side_amounts CREDIT c ls)"
proof (cases "c \<in> jl_currency ` set ls")
  case True
  then have "dsum (jl_side_amounts DEBIT c ls) = dsum (jl_side_amounts CREDIT c ls)"
    using assms(1) by (auto simp: lines_balanced_def list_all_iff)
  then show ?thesis using dsum_exact side_amounts_exact [OF assms(2)] by metis
next
  case False
  then have "jl_side_amounts sd c ls = []" for sd by (auto simp: jl_side_amounts_def filter_empty_conv)
  then show ?thesis by simp
qed

lemma ledger_sum:
  assumes "list_all entry_ok es" "\<forall>e \<in> set es. exact_terms k (map jl_amount (je_lines e))"
  shows "sum_list (concat (map (\<lambda>e. jl_side_amounts DEBIT c (je_lines e)) es)) =
    sum_list (concat (map (\<lambda>e. jl_side_amounts CREDIT c (je_lines e)) es))"
  using assms balanced_sum by (induction es) (auto simp: entry_ok_def)

section \<open>Writing again\<close>

definition has_key :: "journal_db \<Rightarrow> string \<Rightarrow> bool" where
  "has_key db k \<longleftrightarrow> k \<in> je_idempotency_key ` set (jd_entries db)"

definition written_for :: "journal_db \<Rightarrow> accounting_intent \<Rightarrow> ledger_intent \<Rightarrow> written_entry" where
  "written_for db intent li =
     (let key = idempotency_key intent (li_ledger_id li)
      in existing_written (li_ledger_id li) key (hd (filter (\<lambda>e. je_idempotency_key e = key) (jd_entries db))))"

abbreviation pending :: "journal_db \<Rightarrow> accounting_intent \<Rightarrow> ledger_intent \<times> 'a \<Rightarrow> bool" where
  "pending db intent p \<equiv> \<not> has_key db (idempotency_key intent (li_ledger_id (fst p)))"

lemma key_row:
  assumes "inv_db db" "e \<in> set (jd_entries db)"
  shows "filter (\<lambda>r. je_idempotency_key r = je_idempotency_key e) (jd_entries db) = [e]"
proof -
  have d: "distinct (map je_idempotency_key (jd_entries db))" using assms(1) by (simp add: inv_db_def)
  then show ?thesis
  proof (cases rule: filter_key_cases [where k = "je_idempotency_key e"])
    case 1
    then show ?thesis using assms(2) by auto
  next
    case (2 r)
    then have "r = e" using d assms(2) by (simp add: distinct_map inj_on_def)
    then show ?thesis using 2 by simp
  qed
qed

lemma has_key_extends: "extends d d' \<Longrightarrow> has_key d k \<Longrightarrow> has_key d' k"
  by (auto simp: extends_iff has_key_def)

lemma written_for_extends:
  assumes "extends d d'" "inv_db d" "inv_db d'" "has_key d (idempotency_key intent (li_ledger_id li))"
  shows "written_for d' intent li = written_for d intent li"
proof -
  obtain e where e: "e \<in> set (jd_entries d)" "je_idempotency_key e = idempotency_key intent (li_ledger_id li)"
    using assms(4) by (auto simp: has_key_def)
  then have "e \<in> set (jd_entries d')" using assms(1) by (auto simp: extends_iff)
  then show ?thesis using key_row [OF assms(2) e(1)] key_row [OF assms(3), of e] e(2) by (simp add: written_for_def)
qed

lemma get_existing_inv:
  assumes "query_one one" "inv_db db"
  shows "get_existing_entry one k db =
    Inr (if has_key db k then Some (hd (filter (\<lambda>e. je_idempotency_key e = k) (jd_entries db))) else None)"
proof (cases "has_key db k")
  case True
  then obtain e where "e \<in> set (jd_entries db)" "je_idempotency_key e = k" by (auto simp: has_key_def)
  then show ?thesis using key_row [OF assms(2), of e] True query_one.one_single [OF assms(1)]
    by (simp add: get_existing_entry_def)
next
  case False
  then have "filter (\<lambda>e. je_idempotency_key e = k) (jd_entries db) = []"
    by (auto simp: has_key_def filter_empty_conv)
  then show ?thesis using False query_one.one_empty [OF assms(1)] by (simp add: get_existing_entry_def)
qed

lemma partition_inv:
  assumes "query_one one" "inv_db db"
  shows "partition_intents one intent db resolved =
    Inr (map (written_for db intent \<circ> fst) (filter (\<lambda>p. \<not> pending db intent p) resolved),
         filter (pending db intent) resolved)"
proof (induction resolved)
  case (Cons p resolved)
  obtain li rls where p: "p = (li, rls)" by (cases p)
  let ?k = "idempotency_key intent (li_ledger_id li)"
  have "je_status (hd (filter (\<lambda>e. je_idempotency_key e = ?k) (jd_entries db))) = POSTED" if k: "has_key db ?k"
  proof -
    obtain e where "e \<in> set (jd_entries db)" "je_idempotency_key e = ?k" using k by (auto simp: has_key_def)
    then show ?thesis using key_row [OF assms(2), of e] assms(2) by (simp add: inv_db_def list_all_iff entry_ok_def)
  qed
  then show ?case using Cons get_existing_inv [OF assms, of ?k]
    by (simp add: p Let_def written_for_def)
qed simp

lemma create_entry_written:
  assumes c: "create_entry env intent li rls actor et db = Inr (we, db')"
    and d: "extends db' d" "inv_db d"
  shows "has_key db' (idempotency_key intent (li_ledger_id li)) \<and> written_for d intent li = we"
  using c
proof (rule create_entry_Inr)
  fix ls sq cs
  let ?e = "posted_version (draft_entry env intent li actor et) sq (ce_posted_at env) ls"
  assume db': "db' = db\<lparr>jd_entries := jd_entries db @ [?e], jd_counters := cs\<rparr>"
    and we: "we = \<lparr>we_entry_id = ce_id env, we_ledger_id = li_ledger_id li, we_seq = sq,
       we_idempotency_key = idempotency_key intent (li_ledger_id li)\<rparr>"
  have "?e \<in> set (jd_entries d)" using d(1) by (auto simp: extends_iff db')
  then show ?thesis using key_row [OF d(2), of ?e]
    by (simp add: written_for_def existing_written_def we db' has_key_def seq_or_zero_def)
qed

lemma write_loop_failure:
  "write_loop one env intent actor et n new written s = Inr (Inl f, s') \<Longrightarrow> f = wr_failure ''CONCURRENT_INSERT''"
  by (induction one env intent actor et n new written s rule: write_loop.induct)
    (auto simp: result_iffs Let_def split: sum.splits if_splits option.splits)

text \<open>Whether a write meets an integrity error, upon which the writer rolls back the session.\<close>

fun loop_conflict ::
    "(nat \<Rightarrow> create_env) \<Rightarrow> accounting_intent \<Rightarrow> uuid \<Rightarrow> string \<Rightarrow> nat \<Rightarrow> (ledger_intent \<times> resolved_intent_line list) list
     \<Rightarrow> journal_session \<Rightarrow> bool" where
  "loop_conflict env intent actor et n [] s = False"
| "loop_conflict env intent actor et n ((li, rls) # rest) s =
     (case create_entry (env n) intent li rls actor et (js_working s) of
        Inr (we, db) \<Rightarrow> loop_conflict env intent actor et (Suc n) rest (s\<lparr>js_working := db\<rparr>)
      | Inl e \<Rightarrow> e = Py IntegrityError)"

definition write_conflict ::
    "(journal_entry list \<Rightarrow> py_exc + journal_entry option) \<Rightarrow> journal_writer \<Rightarrow> (nat \<Rightarrow> create_env)
     \<Rightarrow> accounting_intent \<Rightarrow> uuid \<Rightarrow> string \<Rightarrow> journal_session \<Rightarrow> bool" where
  "write_conflict one jw env intent actor et s \<longleftrightarrow>
     \<not> unbalanced_intent intent
     \<and> (case resolve_all_roles (jw_bindings jw) intent of
          Inl _ \<Rightarrow> False
        | Inr resolved \<Rightarrow>
            (case partition_intents one intent (js_working s) resolved of
               Inl _ \<Rightarrow> False
             | Inr (existing, new) \<Rightarrow> loop_conflict env intent actor et 0 new s))"

text \<open>
  What the writer relies on: no other transaction committed in between, or what they committed did not collide with
  an insert of the write, by the idempotency key or the identifier of an entry.
\<close>

definition no_collision ::
    "(journal_entry list \<Rightarrow> py_exc + journal_entry option) \<Rightarrow> journal_writer \<Rightarrow> (nat \<Rightarrow> create_env)
     \<Rightarrow> accounting_intent \<Rightarrow> uuid \<Rightarrow> string \<Rightarrow> journal_session \<Rightarrow> bool" where
  "no_collision one jw env intent actor et s \<longleftrightarrow>
     (\<forall>n. ce_other (env n) = None) \<or> \<not> write_conflict one jw env intent actor et s"

lemma loop_no_conflict:
  assumes "no_collision one jw env intent actor et s" "\<not> unbalanced_intent intent"
    and "resolve_all_roles (jw_bindings jw) intent = Inr resolved" "partition_intents one intent (js_working s) resolved = Inr (ex, new)"
  shows "(\<forall>n. ce_other (env n) = None) \<or> \<not> loop_conflict env intent actor et 0 new s"
  using assms by (simp add: no_collision_def write_conflict_def)

lemma write_loop_new:
  assumes "write_loop one env intent actor et n new written s = Inr (Inr w, s')" "query_one one"
    "(\<forall>n. ce_other (env n) = None) \<or> \<not> loop_conflict env intent actor et n new s" "inv_session s" "postable rb intent new"
    "\<forall>p \<in> set new. pending (js_committed s) intent p"
  shows "w = written @ map (written_for (js_working s') intent \<circ> fst) new
    \<and> (\<forall>p \<in> set new. \<not> pending (js_working s') intent p)
    \<and> extends (js_working s) (js_working s') \<and> inv_session s'"
  using assms
proof (induction one env intent actor et n new written s rule: write_loop.induct)
  case (2 one env intent actor et n li rls rest written s)
  note IH = 2(2) and hyps = 2(3-8)
  show ?case
  proof (cases "create_entry (env n) intent li rls actor et (js_working s)")
    case (Inr p)
    obtain we db where p: "p = (we, db)" by (cases p)
    have inv: "inv_db db \<and> extends (js_working s) db"
      using create_entry_inv [OF Inr [unfolded p], of rb] hyps(4,5) by (simp add: inv_session_def postable_def)
    then have s: "inv_session (s\<lparr>js_working := db\<rparr>)"
      using hyps(4) extends_trans by (auto simp: inv_session_def)
    have rest: "w = (written @ [we]) @ map (written_for (js_working s') intent \<circ> fst) rest
      \<and> (\<forall>p \<in> set rest. \<not> pending (js_working s') intent p) \<and> extends db (js_working s') \<and> inv_session s'"
      using IH [OF Inr p [symmetric]] hyps Inr p s by simp
    then have "has_key db (idempotency_key intent (li_ledger_id li)) \<and> written_for (js_working s') intent li = we"
      using create_entry_written [OF Inr [unfolded p], of "js_working s'"] by (simp add: inv_session_def)
    then show ?thesis using rest inv has_key_extends extends_trans by auto
  next
    case (Inl e)
    have "e = Py IntegrityError" using hyps(1) Inl by (auto split: if_splits)
    then have "conflict_rollback (env n) s = js_rollback s" using hyps(3) Inl by (auto simp: conflict_rollback_def)
    moreover have "get_existing_entry one (idempotency_key intent (li_ledger_id li)) (js_committed s) = Inr None"
      using get_existing_inv [OF hyps(2)] hyps(4,6) by (simp add: inv_session_def)
    ultimately show ?thesis using hyps(1) Inl by (auto simp: js_rollback_def Let_def split: if_splits)
  qed
qed auto

lemma resolved_intents:
  assumes "resolve_all_roles rb intent = Inr resolved"
  shows "map fst resolved = ai_ledger_intents intent"
proof -
  have "list_all2 (\<lambda>li p. fst p = li) (ai_ledger_intents intent) resolved"
    using assms unfolding resolve_all_roles_Inr by (rule list_all2_mono) auto
  then show ?thesis by (simp add: list_all2_conv_all_nth list_eq_iff_nth_eq)
qed

text \<open>
  A write that succeeds without a collision reports one stored entry for every ledger of the
  intent, new or found.
\<close>

lemma write_success_rows:
  assumes one: "query_one one" and inv: "inv_session s" and env: "no_collision one jw env intent actor et s"
    and w: "journal_write one jw env intent actor et s = Inr (r, s')" "wr_is_success r"
  obtains resolved where "\<not> unbalanced_intent intent" "resolve_all_roles (jw_bindings jw) intent = Inr resolved"
    "set (wr_entries r) = (written_for (js_working s') intent \<circ> fst) ` set resolved"
    "\<forall>p \<in> set resolved. \<not> pending (js_working s') intent p" "extends (js_working s) (js_working s')" "inv_session s'"
  using w(1)
proof (cases rule: journal_write_cases)
  case (exists resolved ex)
  then have e: "ex = map (written_for (js_working s) intent \<circ> fst) (filter (\<lambda>p. \<not> pending (js_working s) intent p) resolved)"
    "filter (pending (js_working s) intent) resolved = []"
    using partition_inv [OF one, of "js_working s" intent resolved] inv by (simp_all add: inv_session_def)
  then have n: "\<forall>p \<in> set resolved. \<not> pending (js_working s) intent p" by (metis filter_empty_conv)
  then have "ex = map (written_for (js_working s) intent \<circ> fst) resolved" using e(1) by (metis filter_True)
  then show ?thesis using n using exists inv by (intro that [of resolved]) (simp_all add: wr_already_exists_def)
next
  case (loop resolved ex new out)
  have part: "ex = map (written_for (js_working s) intent \<circ> fst) (filter (\<lambda>p. \<not> pending (js_working s) intent p) resolved)"
    "new = filter (pending (js_working s) intent) resolved"
    using partition_inv [OF one, of "js_working s" intent resolved] inv loop(3) by (simp_all add: inv_session_def)
  have pend: "\<forall>p \<in> set new. pending (js_committed s) intent p"
    using part(2) inv has_key_extends by (auto simp: inv_session_def)
  obtain v where v: "out = Inr v" "r = wr_success v"
    using loop(5,6) w(2) by (auto simp: wr_failure_def wr_is_success_def dest!: write_loop_failure)
  have l: "v = ex @ map (written_for (js_working s') intent \<circ> fst) new"
    "\<forall>p \<in> set new. \<not> pending (js_working s') intent p" "extends (js_working s) (js_working s')" "inv_session s'"
    using write_loop_new [OF loop(5) [unfolded v] one loop_no_conflict [OF env loop(1-3)] inv resolved_postable [OF loop(1,2) partition_new [OF loop(3)]] pend]
    by blast+
  have "written_for (js_working s) intent (fst p) = written_for (js_working s') intent (fst p)"
    if "p \<in> set resolved" "\<not> pending (js_working s) intent p" for p
    using written_for_extends [OF l(3)] inv l(4) that(2) by (simp add: inv_session_def)
  then have set: "set v = (written_for (js_working s') intent \<circ> fst) ` set resolved"
    by (auto simp: l(1) part image_iff)
  have "\<not> pending (js_working s') intent p" if p: "p \<in> set resolved" for p
  proof (cases "pending (js_working s) intent p")
    case True
    then have "p \<in> set new" using p by (simp add: part(2))
    then show ?thesis using l(2) by blast
  next
    case False
    then show ?thesis using has_key_extends [OF l(3)] by blast
  qed
  then show ?thesis using loop(1,2) set l(3,4) v(2) by (intro that [of resolved]) (simp_all add: wr_success_def)
qed (use w(2) in \<open>simp_all add: wr_is_success_def wr_validation_failed_def wr_role_resolution_failed_def\<close>)

section \<open>The effect of a reversal\<close>

definition net :: "uuid \<Rightarrow> string \<Rightarrow> journal_line list \<Rightarrow> rat" where
  "net acc c ls = sum_list (map (\<lambda>l. if jl_side l = DEBIT then jl_amount l else - jl_amount l)
     (filter (\<lambda>l. jl_account_id l = acc \<and> jl_currency l = c) ls))"

lemma net_mset: "mset ls = mset ls' \<Longrightarrow> net acc c ls = net acc c ls'"
  unfolding net_def by (simp flip: sum_mset_sum_list)

lemma net_reversal: "net acc c (map (reversal_line actor) ls) = - net acc c ls"
proof (induction ls)
  case (Cons l ls)
  then show ?case by (cases "jl_side l") (simp_all add: net_def)
qed (simp add: net_def)

lemma reversal_entry_of:
  assumes "query_one one" "inv_db db" "orig \<in> set (jd_entries db)"
    and "write_reversal one env orig source actor eff reason et expected db = Inr (e, db')"
  shows "\<exists>actor. je_lines e = map (reversal_line actor) (sort_key jl_line_seq (je_lines orig))"
    and "je_reversal_of_id e = Some (je_id orig)" "e \<in> set (jd_entries db')" "je_status e = POSTED"
proof -
  let ?k = "reversal_key (je_id orig) (entry_ledger_id orig)"
  have "(\<exists>actor. je_lines e = map (reversal_line actor) (sort_key jl_line_seq (je_lines orig)))
    \<and> je_reversal_of_id e = Some (je_id orig) \<and> e \<in> set (jd_entries db') \<and> je_status e = POSTED"
    using assms(4)
  proof (cases rule: write_reversal_cases)
    case existing
    then have "filter (\<lambda>r. je_idempotency_key r = ?k) (jd_entries db) = [e]"
      using query_one.one_Inr_Some [OF assms(1)] by (simp add: get_existing_entry_def)
    then have "e \<in> set (filter (\<lambda>r. je_idempotency_key r = ?k) (jd_entries db))" by simp
    then have e: "e \<in> set (jd_entries db)" "je_idempotency_key e = ?k" by auto
    then have o: "origin_ok (jd_entries db) e" "entry_ok e" using assms(2) by (auto simp: inv_db_def list_all_iff)
    obtain i where i: "je_reversal_of_id e = Some i"
      using o(1) e(2) reversal_key_neq by (auto simp: origin_ok_def split: option.splits)
    then obtain r a where r: "r \<in> set (jd_entries db)" "je_id r = i" "?k = reversal_key i (entry_ledger_id r)"
      "je_lines e = map (reversal_line a) (sort_key jl_line_seq (je_lines r))"
      using o(1) e(2) by (auto simp: origin_ok_def)
    then have "je_id r = je_id orig" using reversal_key_iff by metis
    then have "r = orig" using assms(2,3) r(1) by (simp add: inv_db_def distinct_map inj_on_def)
    then show ?thesis using r i e(1) o(2) existing(3) by (auto simp: entry_ok_def)
  next
    case (new sq cs)
    then show ?thesis by auto
  qed
  then show "\<exists>actor. je_lines e = map (reversal_line actor) (sort_key jl_line_seq (je_lines orig))"
    "je_reversal_of_id e = Some (je_id orig)" "e \<in> set (jd_entries db')" "je_status e = POSTED" by blast+
qed

end
