(* ===== verification/Journal_Properties.thy ===== *)
theory Journal_Properties
  imports Journal_Safety
begin

text \<open>
  The properties of the journal writer over all runs of a session: the ledger stays balanced and
  ordered, committed entries are immutable, writing is idempotent, a reversal cancels its original,
  and what a conflicting insert does to the entries written before it.
\<close>

section \<open>A concrete ledger\<close>

text \<open>
  Two accounts bound to roles, an intent that debits cash and credits revenue by 100 USD, and the
  session after it was written.
\<close>

definition mk_binding :: "uuid \<Rightarrow> string \<Rightarrow> binding_record" where
  "mk_binding i code = \<lparr>br_account_id = i, br_account_code = code, br_account_name = [], br_account_type = [],
     br_normal_balance = [], br_effective_from = [], br_effective_to = [], br_config_id = [], br_config_version = 0\<rparr>"

definition dw :: journal_writer where
  "dw = \<lparr>jw_bindings = register_binding ''REVENUE'' (mk_binding 40 ''4000'')
     (register_binding ''CASH'' (mk_binding 10 ''1000'') Map.empty),
     jw_subledger_check = None, jw_snapshot_check = None\<rparr>"

definition usd_line :: "string \<Rightarrow> string \<Rightarrow> decimal \<Rightarrow> intent_line" where
  "usd_line role side amt = \<lparr>il_account_role = role, il_side = side,
     il_money = \<lparr>amount = amt, currency = Currency ''USD''\<rparr>, il_dimensions = None, il_memo = None,
     il_is_rounding = False\<rparr>"

definition usd_intent :: "string \<Rightarrow> ledger_intent" where
  "usd_intent lid = \<lparr>li_ledger_id = lid, li_lines = [usd_line ''CASH'' ''debit'' 100, usd_line ''REVENUE'' ''credit'' 100]\<rparr>"

definition di :: "ledger_intent list \<Rightarrow> accounting_intent" where
  "di lis = \<lparr>ai_econ_event_id = 7, ai_source_event_id = 1, ai_profile_id = ''sale'', ai_profile_version = 1,
     ai_effective_date = 100, ai_ledger_intents = lis,
     ai_snapshot = \<lparr>is_coa_version = Some 1, is_dimension_schema_version = Some 1,
       is_rounding_policy_version = Some 1, is_currency_registry_version = Some 1,
       is_fx_policy_version = None, is_full_snapshot_id = None\<rparr>,
     ai_description = None, ai_trace_id = None, ai_created_at = None\<rparr>"

definition denv :: "uuid \<Rightarrow> create_env" where
  "denv i = \<lparr>ce_id = i, ce_now = 5, ce_posted_at = 6, ce_race = None, ce_other = None\<rparr>"

definition usd_posted :: "uuid \<Rightarrow> line_side \<Rightarrow> nat \<Rightarrow> journal_line" where
  "usd_posted acc sd n = \<lparr>jl_account_id = acc, jl_side = sd, jl_amount = 100, jl_currency = ''USD'',
     jl_dimensions = None, jl_is_rounding = False, jl_line_memo = None, jl_exchange_rate_id = None,
     jl_line_seq = n, jl_created_by_id = 3\<rparr>"

definition usd_entry :: "ledger_intent list \<Rightarrow> string \<Rightarrow> uuid \<Rightarrow> journal_entry" where
  "usd_entry lis lid i = posted_version (draft_entry (denv i) (di lis) (usd_intent lid) 3 ''economic.posting'') 1 6
     [usd_posted 10 DEBIT 0, usd_posted 40 CREDIT 1]"

definition usd_db :: "ledger_intent list \<Rightarrow> string \<Rightarrow> uuid \<Rightarrow> journal_db" where
  "usd_db lis lid i = \<lparr>jd_entries = [usd_entry lis lid i], jd_counters = [''journal_entry'' \<mapsto> 1], jd_event_ids = [1, 2],
     jd_account_ids = [10, 40]\<rparr>"

definition gl_start :: journal_session where
  "gl_start = \<lparr>js_committed = empty_db, js_working = empty_db\<lparr>jd_event_ids := [1, 2], jd_account_ids := [10, 40]\<rparr>\<rparr>"

definition usd_session :: "string \<Rightarrow> uuid \<Rightarrow> journal_session" where
  "usd_session lid i = gl_start\<lparr>js_working := usd_db [usd_intent lid] lid i\<rparr>"

abbreviation gl_intent :: ledger_intent where "gl_intent \<equiv> usd_intent ''GL''"
abbreviation gl_entry :: journal_entry where "gl_entry \<equiv> usd_entry [gl_intent] ''GL'' 77"
abbreviation gl_db :: journal_db where "gl_db \<equiv> usd_db [gl_intent] ''GL'' 77"
abbreviation gl_session :: journal_session where "gl_session \<equiv> usd_session ''GL'' 77"

lemmas demo_simps = mk_binding_def dw_def usd_line_def usd_intent_def di_def denv_def usd_posted_def
  gl_start_def empty_db_def INTENT_DEBIT_def INTENT_CREDIT_def JOURNAL_ENTRY_def

lemma usd_balanced: "set lis \<subseteq> range usd_intent \<Longrightarrow> \<not> unbalanced_intent (di lis)"
  by (auto simp: unbalanced_intent_def list_ex_iff demo_simps li_currencies_def li_is_balanced_def il_currency_def
      li_total_debits_def li_total_credits_def il_side_amounts_def il_amount_def dsum_def dadd_def dest!: subsetD)

definition gl_resolved :: "resolved_intent_line list" where
  "gl_resolved =
     [\<lparr>rl_account_id = 10, rl_account_code = ''1000'', rl_account_role = ''CASH'', rl_side = ''debit'',
       rl_money = \<lparr>amount = 100, currency = Currency ''USD''\<rparr>, rl_dimensions = None, rl_memo = None,
       rl_is_rounding = False, rl_line_seq = 0\<rparr>,
      \<lparr>rl_account_id = 40, rl_account_code = ''4000'', rl_account_role = ''REVENUE'', rl_side = ''credit'',
       rl_money = \<lparr>amount = 100, currency = Currency ''USD''\<rparr>, rl_dimensions = None, rl_memo = None,
       rl_is_rounding = False, rl_line_seq = 1\<rparr>]"

lemma usd_resolve:
  "resolve_all_roles (jw_bindings dw) (di (map usd_intent lids)) = Inr (map (\<lambda>lid. (usd_intent lid, gl_resolved)) lids)"
proof -
  have "resolve_ledger_intent (jw_bindings dw) (usd_intent lid) = Inr (usd_intent lid, gl_resolved)" for lid
    by (simp add: resolve_ledger_intent_def resolve_intent_line_def resolve_full_def register_binding_def
        demo_simps gl_resolved_def)
  then show ?thesis by (simp add: resolve_all_roles_def rtraverse_Inr list_all2_conv_all_nth di_def)
qed

definition usd_written :: "string \<Rightarrow> uuid \<Rightarrow> written_entry" where
  "usd_written lid i = \<lparr>we_entry_id = i, we_ledger_id = lid, we_seq = 1,
     we_idempotency_key = idempotency_key (di []) lid\<rparr>"

lemma di_key: "idempotency_key (di lis) lid = idempotency_key (di []) lid"
  by (simp add: idempotency_key_def di_def)

lemma usd_create:
  "create_entry (denv i) (di lis) (usd_intent lid) gl_resolved 3 ''economic.posting'' (js_working gl_start) =
     Inr (usd_written lid i, usd_db lis lid i)"
proof -
  have "li_ledger_id (usd_intent lid) = lid" by (simp add: usd_intent_def)
  then show ?thesis
    by (simp add: create_entry_def create_lines_def check_rounding_lines_def gl_resolved_def mk_journal_line_def
        line_side_of_def flush_insert_def insert_entry_def entry_constraints_def insert_lines_def update_entry_def
        finalize_posting_def missing_snapshot_fields_def next_value_def post_row_def usd_db_def usd_entry_def
        posted_version_def draft_entry_def demo_simps rl_amount_def rl_currency_def usd_written_def
        idempotency_key_def)
qed

lemma usd_write:
  "journal_write scalar_one_or_none dw (\<lambda>_. denv i) (di [usd_intent lid]) 3 ''economic.posting'' gl_start =
     Inr (wr_success [usd_written lid i], usd_session lid i)"
proof -
  have "partition_intents scalar_one_or_none (di [usd_intent lid]) (js_working gl_start) [(usd_intent lid, gl_resolved)] =
      Inr ([], [(usd_intent lid, gl_resolved)])"
    by (simp add: get_existing_entry_def demo_simps)
  moreover have "\<not> unbalanced_intent (di [usd_intent lid])" by (rule usd_balanced) simp
  ultimately show ?thesis using usd_resolve [of "[lid]"]
    by (simp add: journal_write_def usd_create post_checks_def usd_session_def) (simp add: dw_def)
qed

lemma usd_reachable:
  "reachable scalar_one_or_none dw gl_start" "reachable scalar_one_or_none dw (usd_session lid i)"
  "reachable scalar_one_or_none dw (js_commit (usd_session lid i))"
proof -
  have "journal_step scalar_one_or_none dw empty_session gl_start"
    using step_tables [of scalar_one_or_none dw empty_session "[10, 40]" "[1, 2]"]
    by (simp add: empty_session_def gl_start_def)
  then show start: "reachable scalar_one_or_none dw gl_start" using reach_init reach_step by blast
  have "journal_step scalar_one_or_none dw gl_start (usd_session lid i)"
    by (rule step_write [OF usd_write]) (simp add: env_ok_def denv_def)
  then show written: "reachable scalar_one_or_none dw (usd_session lid i)" using start reach_step by blast
  show "reachable scalar_one_or_none dw (js_commit (usd_session lid i))" by (rule reach_step [OF written step_commit])
qed

section \<open>Properties\<close>

text \<open>
  Property C2. The ledger is always in balance and in order: in every reachable session, for the
  committed and the uncommitted tables alike, every entry is posted, its debits equal its credits
  in each currency (R4), it has at most one rounding line (R5) and all reference versions (R21);
  ids and idempotency keys are unique (R3), no entry has two reversals, and the sequence numbers
  are positive and strictly increasing in the order of writing (R9).
\<close>

theorem ledger_consistent:
  assumes "reachable one jw s" "db \<in> {js_committed s, js_working s}"
  shows "(\<forall>e \<in> set (jd_entries db). je_status e = POSTED \<and> missing_snapshot_fields e = []
       \<and> length (filter jl_is_rounding (je_lines e)) \<le> 1
       \<and> (\<forall>l \<in> set (je_lines e). dsum (jl_side_amounts DEBIT (jl_currency l) (je_lines e)) =
            dsum (jl_side_amounts CREDIT (jl_currency l) (je_lines e))))
     \<and> distinct (map je_id (jd_entries db)) \<and> distinct (map je_idempotency_key (jd_entries db))
     \<and> distinct (map the (filter (\<lambda>x. x \<noteq> None) (map je_reversal_of_id (jd_entries db))))
     \<and> (\<exists>sqs. map je_seq (jd_entries db) = map Some sqs \<and> sorted_wrt (<) sqs \<and> (\<forall>v \<in> set sqs. 0 < v))"
proof -
  have inv: "inv_db db" using reachable_inv [OF assms(1)] assms(2) by (auto simp: inv_session_def)
  then have ok: "\<forall>e \<in> set (jd_entries db). entry_ok e" by (simp add: inv_db_def list_all_iff)
  have "map je_seq (jd_entries db) = map Some (map seq_of (jd_entries db))"
    "\<forall>v \<in> set (map seq_of (jd_entries db)). 0 < v"
    using ok entry_ok_seq by auto
  moreover have "sorted_wrt (<) (map seq_of (jd_entries db))" using inv by (simp add: inv_db_def)
  ultimately have "\<exists>sqs. map je_seq (jd_entries db) = map Some sqs \<and> sorted_wrt (<) sqs \<and> (\<forall>v \<in> set sqs. 0 < v)"
    by blast
  moreover have "\<forall>e \<in> set (jd_entries db). lines_balanced (je_lines e) \<and> je_status e = POSTED
      \<and> missing_snapshot_fields e = [] \<and> length (filter jl_is_rounding (je_lines e)) \<le> 1"
    using ok by (simp add: entry_ok_def)
  ultimately show ?thesis using inv by (simp add: inv_db_def lines_balanced_def list_all_iff)
qed

theorem ledger_consistent_witness:
  "jd_entries (js_committed (js_commit gl_session)) = [gl_entry] \<and> je_status gl_entry = POSTED
   \<and> dsum (jl_side_amounts DEBIT ''USD'' (je_lines gl_entry)) = dsum (jl_side_amounts CREDIT ''USD'' (je_lines gl_entry))"
proof -
  have e: "jd_entries (js_committed (js_commit gl_session)) = [gl_entry]"
    by (simp add: js_commit_def usd_session_def usd_db_def)
  have "usd_posted 10 DEBIT 0 \<in> set (je_lines gl_entry)" "jl_currency (usd_posted 10 DEBIT 0) = ''USD''"
    by (simp_all add: usd_entry_def usd_posted_def)
  then show ?thesis using ledger_consistent [OF usd_reachable(3) [of "''GL''" 77], of "js_committed (js_commit gl_session)"] e
    by auto
qed

text \<open>
  Property C3. The trial balance of any reachable ledger is zero: when the amounts of each entry
  lie on a decimal grid and stay below the 28 digits of the context, the sum of all debits of all
  entries equals the sum of all credits, currency by currency.
\<close>

theorem trial_balance:
  assumes "reachable one jw s"
    and "\<forall>e \<in> set (jd_entries (js_committed s)). exact_terms k (map jl_amount (je_lines e))"
  shows "sum_list (ledger_amounts DEBIT c (js_committed s)) = sum_list (ledger_amounts CREDIT c (js_committed s))"
  using ledger_sum [OF _ assms(2)] reachable_inv [OF assms(1)]
  by (simp add: ledger_amounts_def inv_session_def inv_db_def)

theorem trial_balance_witness:
  "sum_list (ledger_amounts DEBIT ''USD'' (js_committed (js_commit gl_session))) =
     sum_list (ledger_amounts CREDIT ''USD'' (js_committed (js_commit gl_session)))"
proof (rule trial_balance [OF usd_reachable(3), where k = 2])
  show "\<forall>e \<in> set (jd_entries (js_committed (js_commit gl_session))). exact_terms 2 (map jl_amount (je_lines e))"
    by (simp add: js_commit_def usd_session_def usd_db_def usd_entry_def usd_posted_def exact_terms_def on_grid_def)
qed

text \<open>
  Property C6. Committed entries are immutable (R10): whatever a session does after a reachable
  point, the committed entries of that point remain the first entries of the journal, unchanged.
\<close>

theorem committed_immutable:
  assumes "reachable one jw s" "(journal_step one jw)\<^sup>*\<^sup>* s s'"
  shows "\<exists>es. jd_entries (js_committed s') = jd_entries (js_committed s) @ es"
proof -
  have "inv_session s' \<and> extends (js_committed s) (js_committed s')"
    using assms(2)
  proof (induction rule: rtranclp_induct)
    case base
    then show ?case using reachable_inv [OF assms(1)] by simp
  next
    case (step t u)
    then show ?case using journal_step_inv extends_trans by blast
  qed
  then show ?thesis by (simp add: extends_iff)
qed

theorem committed_immutable_witness:
  "\<exists>es. jd_entries (js_committed (js_rollback (js_commit gl_session))) =
     jd_entries (js_committed (js_commit gl_session)) @ es"
  by (rule committed_immutable [OF usd_reachable(3)]) (intro r_into_rtranclp step_rollback)

text \<open>
  Property C7. Writing is idempotent (R3): after a write that reports WRITTEN, and none of whose inserts
  collided with an entry that another transaction committed meanwhile, writing the same intent again, by whoever
  and whenever, reports ALREADY\_EXISTS with the same entries and leaves the session as it is. After a collision
  it is false: \<open>conflict_loses_entries\<close>.
\<close>

theorem write_idempotent:
  assumes one: "query_one one" and s: "reachable one jw s" and env: "no_collision one jw env intent actor et s"
    and w: "journal_write one jw env intent actor et s = Inr (r, s')" "wr_status r = WRITTEN"
  shows "\<exists>ws. journal_write one jw env' intent actor' et' s' = Inr (wr_already_exists ws, s')
    \<and> set ws = set (wr_entries r)"
proof -
  have "wr_is_success r" using w(2) by (simp add: wr_is_success_def)
  then obtain resolved where
    r: "\<not> unbalanced_intent intent" "resolve_all_roles (jw_bindings jw) intent = Inr resolved"
    "set (wr_entries r) = (written_for (js_working s') intent \<circ> fst) ` set resolved"
    "\<forall>p \<in> set resolved. \<not> pending (js_working s') intent p" "extends (js_working s) (js_working s')" "inv_session s'"
    by (rule write_success_rows [OF one reachable_inv [OF s] env w(1)])
  then have "partition_intents one intent (js_working s') resolved =
      Inr (map (written_for (js_working s') intent \<circ> fst) resolved, [])"
    using partition_inv [OF one, of "js_working s'" intent resolved]
    by (simp add: inv_session_def filter_empty_conv filter_id_conv)
  then show ?thesis using r(1-3)
    by (intro exI [of _ "map (written_for (js_working s') intent \<circ> fst) resolved"]) (simp add: journal_write_def)
qed

theorem write_idempotent_witness:
  "\<exists>ws. journal_write scalar_one_or_none dw (\<lambda>_. denv 78) (di [gl_intent]) 4 ''again'' gl_session =
     Inr (wr_already_exists ws, gl_session) \<and> set ws = {usd_written ''GL'' 77}"
  using write_idempotent [OF soon.query_one_axioms usd_reachable(1) _ usd_write [of 77 "''GL''"]]
  by (simp add: denv_def wr_success_def no_collision_def)

text \<open>
  Property C8. A reversal cancels its original: for an entry of a reachable ledger,
  \<open>write_reversal\<close> returns a posted entry that references it and that, on every account and in
  every currency, nets the original to exactly zero. The original stays in the journal as it was.
  This also holds when the call finds a reversal written earlier.
\<close>

theorem reversal_cancels:
  assumes one: "query_one one" and s: "reachable one jw s" and orig: "orig \<in> set (jd_entries (js_working s))"
    and w: "write_reversal one env orig source actor eff reason et expected (js_working s) = Inr (e, db)"
  shows "net acc c (je_lines orig) + net acc c (je_lines e) = 0 \<and> je_reversal_of_id e = Some (je_id orig)
    \<and> je_status e = POSTED \<and> {orig, e} \<subseteq> set (jd_entries db)"
proof -
  have inv: "inv_db (js_working s)" using reachable_inv [OF s] by (simp add: inv_session_def)
  note r = reversal_entry_of [OF one inv orig w]
  obtain a where "je_lines e = map (reversal_line a) (sort_key jl_line_seq (je_lines orig))" using r(1) by blast
  then have "net acc c (je_lines e) = - net acc c (je_lines orig)"
    by (simp add: net_reversal net_mset [of "sort_key jl_line_seq (je_lines orig)" "je_lines orig"])
  moreover have "orig \<in> set (jd_entries db)"
    using write_reversal_inv [OF w inv orig] orig by (auto simp: extends_iff)
  ultimately show ?thesis using r(2,3,4) by simp
qed

definition gl_reversal :: journal_entry where
  "gl_reversal = posted_version (reversal_draft (denv 88) gl_entry 2 3 101 ''void'' ''system.reversal'') 2 6
     [reversal_line 3 (usd_posted 10 DEBIT 0), reversal_line 3 (usd_posted 40 CREDIT 1)]"

lemma gl_reverse:
  "write_reversal scalar_one_or_none (denv 88) gl_entry 2 3 101 ''void'' ''system.reversal'' (Some ''GL'') gl_db =
     Inr (gl_reversal, gl_db\<lparr>jd_entries := [gl_entry, gl_reversal], jd_counters := [''journal_entry'' \<mapsto> 2]\<rparr>)"
proof -
  let ?e = "reversal_draft (denv 88) gl_entry 2 3 101 ''void'' ''system.reversal''"
  let ?ls = "[reversal_line 3 (usd_posted 10 DEBIT 0), reversal_line 3 (usd_posted 40 CREDIT 1)]"
  have g: "je_id gl_entry = 77" "je_lines gl_entry = [usd_posted 10 DEBIT 0, usd_posted 40 CREDIT 1]"
    "je_seq gl_entry = Some 1" "je_reversal_of_id gl_entry = None" "entry_ledger_id gl_entry = ''GL''"
    by (simp_all add: usd_entry_def denv_def) (simp add: entry_ledger_id_def posted_version_def draft_entry_def usd_intent_def)
  have key: "je_idempotency_key gl_entry \<noteq> reversal_key e lid" for e lid
    using reversal_key_neq by (metis usd_entry_def posted_version_simps(2) draft_entry_simps(2))
  have srt: "sort_key jl_line_seq (je_lines gl_entry) = je_lines gl_entry" by (simp add: g usd_posted_def)
  have bal: "reversal_balanced (je_lines gl_entry)"
    by (simp add: reversal_balanced_iff(2) g lines_balanced_def jl_side_amounts_def usd_posted_def)
  have ins: "flush_insert None ?e gl_db = Inr (gl_db\<lparr>jd_entries := [gl_entry, ?e]\<rparr>)"
    using key by (simp add: flush_insert_def insert_entry_def entry_constraints_def usd_db_def g denv_def
        reversal_draft_def reversal_key_def reversal_prefix_def)
  have lin: "insert_lines (je_id ?e) ?ls (gl_db\<lparr>jd_entries := [gl_entry, ?e]\<rparr>) =
      Inr (gl_db\<lparr>jd_entries := [gl_entry, ?e\<lparr>je_lines := ?ls\<rparr>]\<rparr>)"
    by (simp add: insert_lines_def update_entry_def g denv_def usd_db_def usd_posted_def)
  have fin: "finalize_posting (denv 88) ?e (gl_db\<lparr>jd_entries := [gl_entry, ?e\<lparr>je_lines := ?ls\<rparr>]\<rparr>) =
      Inr (2, gl_db\<lparr>jd_entries := [gl_entry, gl_reversal], jd_counters := [''journal_entry'' \<mapsto> 2]\<rparr>)"
    by (simp add: finalize_posting_def missing_snapshot_fields_def reversal_draft_def usd_entry_def draft_entry_def
        posted_version_def next_value_def increment_def post_row_def update_entry_def usd_db_def gl_reversal_def
        demo_simps)
  have env: "ce_other (denv 88) = None" "ce_posted_at (denv 88) = 6" by (simp_all add: denv_def)
  have ex: "get_existing_entry scalar_one_or_none (reversal_key (je_id gl_entry) ''GL'') gl_db = Inr None"
    using key by (simp add: get_existing_entry_def usd_db_def)
  have mp: "map (reversal_line 3) (je_lines gl_entry) = ?ls" "je_lines gl_entry \<noteq> []" by (simp_all add: g)
  show ?thesis
    unfolding write_reversal_def Let_def srt g(5) ex mp
    using env bal ins lin fin mp(2) by (simp add: gl_reversal_def posted_version_def del: One_nat_def reversal_draft_simps)
qed

theorem reversal_cancels_witness:
  "net 10 ''USD'' (je_lines gl_entry) + net 10 ''USD'' (je_lines gl_reversal) = 0 \<and> net 10 ''USD'' (je_lines gl_entry) = 100"
proof -
  have "net 10 ''USD'' (je_lines gl_entry) = 100" by (simp add: usd_entry_def net_def usd_posted_def)
  moreover have "gl_entry \<in> set (jd_entries (js_working gl_session))" "js_working gl_session = gl_db"
    by (simp_all add: usd_session_def usd_db_def)
  ultimately show ?thesis
    using reversal_cancels [OF soon.query_one_axioms usd_reachable(2) [of "''GL''" 77], where e = gl_reversal
        and acc = 10 and c = "''USD''"] gl_reverse by metis
qed

text \<open>
  A conflicting insert breaks the atomicity of a multi-ledger write (P11). When the
  first ledger's entry has been created in the open transaction and the insert for the second
  ledger meets an entry that another transaction has committed under its key, the session is
  rolled back as a whole, yet \<open>write\<close> reports WRITTEN and lists the first entry, which is no
  longer in the journal.
\<close>

theorem conflict_loses_entries:
  assumes one: "query_one one"
    and ok: "\<not> unbalanced_intent intent" "ai_ledger_intents intent = [li1, li2]"
      "resolve_all_roles (jw_bindings jw) intent = Inr [(li1, rls1), (li2, rls2)]"
    and none: "pending (js_working s) intent (li1, rls1)" "pending (js_working s) intent (li2, rls2)"
    and first: "create_entry (env 0) intent li1 rls1 actor et (js_working s) = Inr (we, db)"
    and other: "ce_other (env (Suc 0)) = Some d" "\<not> has_key d (we_idempotency_key we)"
      "has_key d (idempotency_key intent (li_ledger_id li2))" "inv_db d" "inv_session s"
    and post: "post_checks jw intent d = None"
  shows "\<exists>r. journal_write one jw env intent actor et s = Inr (r, \<lparr>js_committed = d, js_working = d\<rparr>)
    \<and> wr_status r = WRITTEN \<and> we \<in> set (wr_entries r)
    \<and> \<not> has_key (js_working \<lparr>js_committed = d, js_working = d\<rparr>) (we_idempotency_key we)"
proof -
  let ?k2 = "idempotency_key intent (li_ledger_id li2)"
  have p: "partition_intents one intent (js_working s) [(li1, rls1), (li2, rls2)] =
      Inr ([], [(li1, rls1), (li2, rls2)])"
    using partition_inv [OF one, of "js_working s" intent "[(li1, rls1), (li2, rls2)]"] none other(5)
    by (simp add: inv_session_def)
  have "list_ex (\<lambda>r. je_idempotency_key r = ?k2) (jd_entries d)"
    using other(3) by (auto simp: has_key_def list_ex_iff)
  then have "create_entry (env (Suc 0)) intent li2 rls2 actor et db = Inl (Py IntegrityError)"
    by (simp add: create_entry_def flush_insert_def other(1) Let_def)
  moreover have "conflict_rollback (env (Suc 0)) (s\<lparr>js_working := db\<rparr>) = \<lparr>js_committed = d, js_working = d\<rparr>"
    by (simp add: conflict_rollback_def other(1))
  ultimately show ?thesis
    using ok p first other(2,3) post get_existing_inv [OF one other(4), of ?k2]
    by (simp add: journal_write_def wr_success_def Let_def)
qed

theorem conflict_loses_entries_witness:
  "\<exists>r s'. journal_write scalar_one_or_none dw
       (\<lambda>n. if n = 0 then denv 77 else (denv 78)\<lparr>ce_other := Some (usd_db [usd_intent ''AP''] ''AP'' 99)\<rparr>)
       (di [usd_intent ''GL'', usd_intent ''AP'']) 3 ''economic.posting'' gl_start = Inr (r, s')
     \<and> wr_status r = WRITTEN \<and> usd_written ''GL'' 77 \<in> set (wr_entries r)
     \<and> \<not> has_key (js_working s') (we_idempotency_key (usd_written ''GL'' 77))"
proof -
  let ?d = "usd_db [usd_intent ''AP''] ''AP'' 99" and ?lis = "[usd_intent ''GL'', usd_intent ''AP'']"
  have lid: "li_ledger_id (usd_intent lid) = lid" for lid by (simp add: usd_intent_def)
  have keys: "has_key ?d (idempotency_key (di ?lis) ''AP'')" "\<not> has_key ?d (we_idempotency_key (usd_written ''GL'' 77))"
    by (simp_all add: has_key_def usd_db_def usd_entry_def lid usd_written_def idempotency_key_def di_def)
  have inv: "inv_db ?d" "inv_session gl_start"
    using reachable_inv [OF usd_reachable(2), of "''AP''" 99] reachable_inv [OF usd_reachable(1)]
    by (simp_all add: inv_session_def usd_session_def)
  have no: "\<not> has_key (js_working gl_start) k" for k by (simp add: has_key_def gl_start_def empty_db_def)
  let ?env = "\<lambda>n :: nat. if n = 0 then denv 77 else (denv 78)\<lparr>ce_other := Some ?d\<rparr>"
  have "\<exists>r. journal_write scalar_one_or_none dw ?env (di ?lis) 3 ''economic.posting'' gl_start =
      Inr (r, \<lparr>js_committed = ?d, js_working = ?d\<rparr>) \<and> wr_status r = WRITTEN
    \<and> usd_written ''GL'' 77 \<in> set (wr_entries r)
    \<and> \<not> has_key (js_working \<lparr>js_committed = ?d, js_working = ?d\<rparr>) (we_idempotency_key (usd_written ''GL'' 77))"
  proof (rule conflict_loses_entries [OF soon.query_one_axioms])
    show "\<not> unbalanced_intent (di ?lis)" by (rule usd_balanced) simp
    show "ai_ledger_intents (di ?lis) = [usd_intent ''GL'', usd_intent ''AP'']" by (simp add: di_def)
    show "resolve_all_roles (jw_bindings dw) (di ?lis) =
        Inr [(usd_intent ''GL'', gl_resolved), (usd_intent ''AP'', gl_resolved)]"
      using usd_resolve [of "[''GL'', ''AP'']"] by simp
    show "create_entry (?env 0) (di ?lis) (usd_intent ''GL'') gl_resolved 3 ''economic.posting'' (js_working gl_start) =
        Inr (usd_written ''GL'' 77, usd_db ?lis ''GL'' 77)" using usd_create by simp
    show "post_checks dw (di ?lis) ?d = None" by (simp add: post_checks_def dw_def)
  qed (use inv no keys in \<open>simp_all add: lid\<close>)
  then show ?thesis by blast
qed

end
