(* ===== verification/Economic_Link.thy ===== *)
theory Economic_Link
  imports Dtos
begin

text \<open>
  \<open>finance_kernel/domain/economic_link.py\<close>: artifacts, typed links between them and the table of
  link types. An enum member and its text stand for each other, so a stored row
  (\<open>models/economic_link.py\<close>) is represented by the link it denotes; \<open>to_domain\<close> builds the link
  again and so repeats the checks of the constructor.
\<close>

section \<open>Artifacts and link types\<close>

datatype artifact_type =
    A_EVENT | A_JOURNAL_ENTRY | A_JOURNAL_LINE
  | A_PURCHASE_ORDER | A_RECEIPT | A_INVOICE | A_PAYMENT | A_CREDIT_MEMO | A_DEBIT_MEMO
  | A_COST_LOT | A_SHIPMENT | A_INVENTORY_ADJUSTMENT
  | A_ASSET | A_DEPRECIATION | A_DISPOSAL
  | A_BANK_STATEMENT | A_BANK_TRANSACTION | A_INTERCOMPANY_TRANSACTION

definition all_artifact_types :: "artifact_type list" where
  "all_artifact_types =
     [A_EVENT, A_JOURNAL_ENTRY, A_JOURNAL_LINE, A_PURCHASE_ORDER, A_RECEIPT, A_INVOICE, A_PAYMENT, A_CREDIT_MEMO,
      A_DEBIT_MEMO, A_COST_LOT, A_SHIPMENT, A_INVENTORY_ADJUSTMENT, A_ASSET, A_DEPRECIATION, A_DISPOSAL,
      A_BANK_STATEMENT, A_BANK_TRANSACTION, A_INTERCOMPANY_TRANSACTION]"

fun artifact_value :: "artifact_type \<Rightarrow> string" where
  "artifact_value A_EVENT = ''event''"
| "artifact_value A_JOURNAL_ENTRY = ''journal_entry''"
| "artifact_value A_JOURNAL_LINE = ''journal_line''"
| "artifact_value A_PURCHASE_ORDER = ''purchase_order''"
| "artifact_value A_RECEIPT = ''receipt''"
| "artifact_value A_INVOICE = ''invoice''"
| "artifact_value A_PAYMENT = ''payment''"
| "artifact_value A_CREDIT_MEMO = ''credit_memo''"
| "artifact_value A_DEBIT_MEMO = ''debit_memo''"
| "artifact_value A_COST_LOT = ''cost_lot''"
| "artifact_value A_SHIPMENT = ''shipment''"
| "artifact_value A_INVENTORY_ADJUSTMENT = ''inventory_adjustment''"
| "artifact_value A_ASSET = ''asset''"
| "artifact_value A_DEPRECIATION = ''depreciation''"
| "artifact_value A_DISPOSAL = ''disposal''"
| "artifact_value A_BANK_STATEMENT = ''bank_statement''"
| "artifact_value A_BANK_TRANSACTION = ''bank_transaction''"
| "artifact_value A_INTERCOMPANY_TRANSACTION = ''intercompany_transaction''"

datatype link_type =
    FULFILLED_BY | PAID_BY | APPLIED_TO | REVERSED_BY | CORRECTED_BY | CONSUMED_BY | SOURCED_FROM
  | ALLOCATED_TO | ALLOCATED_FROM | DERIVED_FROM | MATCHED_WITH | ADJUSTED_BY

record artifact_ref =
  ar_type :: artifact_type
  ar_id :: uuid

definition ref_str :: "artifact_ref \<Rightarrow> string" where
  "ref_str r = artifact_value (ar_type r) @ '':'' @ uuid_str (ar_id r)"

text \<open>
  \<open>ArtifactRef.parse\<close>: split at the first colon, look the type up, read the identifier.
  \<open>UUID(text)\<close> drops hyphens and reads 32 hexadecimal digits of either case; the URN prefix and
  the braces it also accepts are not modelled.
\<close>

definition hex_value :: "char \<Rightarrow> nat option" where
  "hex_value c = map_option fst (find (\<lambda>(i, d). d = c) (zip ([0..<16] @ [10..<16]) ''0123456789abcdefABCDEF''))"

definition uuid_of_str :: "string \<Rightarrow> uuid option" where
  "uuid_of_str s =
     (let ds = filter (\<lambda>c. c \<noteq> CHR ''-'') s
      in if length ds \<noteq> 32 \<or> list_ex (\<lambda>c. hex_value c = None) ds then None
         else Some (of_nat (foldl (\<lambda>n c. 16 * n + the (hex_value c)) 0 ds)))"

definition parse_ref :: "string \<Rightarrow> py_exc + artifact_ref" where
  "parse_ref s =
     (let type_str = takeWhile (\<lambda>c. c \<noteq> CHR '':'') s; rest = dropWhile (\<lambda>c. c \<noteq> CHR '':'') s
      in case (find (\<lambda>t. artifact_value t = type_str) all_artifact_types, rest) of
           (Some t, c # id_str) \<Rightarrow>
             (case uuid_of_str id_str of Some u \<Rightarrow> Inr \<lparr>ar_type = t, ar_id = u\<rparr> | None \<Rightarrow> Inl ValueError)
         | _ \<Rightarrow> Inl ValueError)"

record link_type_spec =
  sp_valid_parent_types :: "artifact_type list"
  sp_valid_child_types :: "artifact_type list"
  sp_is_symmetric :: bool
  sp_max_children :: "nat option"

definition mk_spec :: "artifact_type list \<Rightarrow> artifact_type list \<Rightarrow> bool \<Rightarrow> nat option \<Rightarrow> link_type_spec option" where
  "mk_spec ps cs symm mx = Some \<lparr>sp_valid_parent_types = ps, sp_valid_child_types = cs, sp_is_symmetric = symm, sp_max_children = mx\<rparr>"

fun link_type_specs :: "link_type \<Rightarrow> link_type_spec option" where
  "link_type_specs FULFILLED_BY = mk_spec [A_PURCHASE_ORDER, A_RECEIPT] [A_RECEIPT, A_INVOICE] False None"
| "link_type_specs PAID_BY = mk_spec [A_INVOICE, A_CREDIT_MEMO, A_DEBIT_MEMO] [A_PAYMENT] False None"
| "link_type_specs REVERSED_BY = mk_spec [A_JOURNAL_ENTRY, A_EVENT] [A_JOURNAL_ENTRY, A_EVENT] False (Some 1)"
| "link_type_specs CORRECTED_BY =
     mk_spec [A_INVOICE, A_RECEIPT, A_PAYMENT, A_PURCHASE_ORDER, A_JOURNAL_ENTRY]
       [A_INVOICE, A_RECEIPT, A_PAYMENT, A_CREDIT_MEMO, A_JOURNAL_ENTRY] False (Some 1)"
| "link_type_specs CONSUMED_BY = mk_spec [A_COST_LOT] [A_EVENT, A_SHIPMENT, A_INVENTORY_ADJUSTMENT] False None"
| "link_type_specs SOURCED_FROM = mk_spec [A_EVENT, A_RECEIPT] [A_COST_LOT] False None"
| "link_type_specs ALLOCATED_TO =
     mk_spec [A_PAYMENT, A_JOURNAL_ENTRY, A_COST_LOT] [A_INVOICE, A_JOURNAL_LINE, A_EVENT] False None"
| "link_type_specs DERIVED_FROM = mk_spec all_artifact_types all_artifact_types False None"
| "link_type_specs MATCHED_WITH =
     mk_spec [A_PURCHASE_ORDER, A_RECEIPT, A_INVOICE, A_BANK_STATEMENT, A_BANK_TRANSACTION, A_JOURNAL_ENTRY]
       [A_PURCHASE_ORDER, A_RECEIPT, A_INVOICE, A_BANK_STATEMENT, A_BANK_TRANSACTION, A_JOURNAL_ENTRY] True None"
| "link_type_specs ADJUSTED_BY =
     mk_spec [A_JOURNAL_ENTRY, A_COST_LOT, A_ASSET] [A_JOURNAL_ENTRY, A_INVENTORY_ADJUSTMENT] False None"
| "link_type_specs APPLIED_TO = None"
| "link_type_specs ALLOCATED_FROM = None"

datatype spec_error = InvalidParentType artifact_type | InvalidChildType artifact_type

definition spec_validate :: "link_type_spec \<Rightarrow> artifact_ref \<Rightarrow> artifact_ref \<Rightarrow> spec_error list" where
  "spec_validate sp parent child =
     (if ar_type parent \<notin> set (sp_valid_parent_types sp) then [InvalidParentType (ar_type parent)] else []) @
     (if ar_type child \<notin> set (sp_valid_child_types sp) then [InvalidChildType (ar_type child)] else [])"

section \<open>Links\<close>

record economic_link =
  el_link_id :: uuid
  el_link_type :: link_type
  el_parent_ref :: artifact_ref
  el_child_ref :: artifact_ref
  el_creating_event_id :: uuid
  el_created_at :: int
  el_metadata :: "(string \<times> json) list option"

definition mk_economic_link :: "economic_link \<Rightarrow> py_exc + economic_link" where
  "mk_economic_link l =
     (if el_parent_ref l = el_child_ref l then Inl ValueError
      else case link_type_specs (el_link_type l) of
        None \<Rightarrow> Inr l
      | Some sp \<Rightarrow> if spec_validate sp (el_parent_ref l) (el_child_ref l) \<noteq> [] then Inl ValueError else Inr l)"

definition is_reversal :: "economic_link \<Rightarrow> bool" where
  "is_reversal l \<longleftrightarrow> el_link_type l = REVERSED_BY"

definition is_payment :: "economic_link \<Rightarrow> bool" where
  "is_payment l \<longleftrightarrow> el_link_type l = PAID_BY"

definition is_fulfillment :: "economic_link \<Rightarrow> bool" where
  "is_fulfillment l \<longleftrightarrow> el_link_type l = FULFILLED_BY"

definition is_consumption :: "economic_link \<Rightarrow> bool" where
  "is_consumption l \<longleftrightarrow> el_link_type l = CONSUMED_BY"

definition link_from_domain :: "economic_link \<Rightarrow> economic_link" where
  "link_from_domain l = l\<lparr>el_metadata := (if el_metadata l = Some [] then None else el_metadata l)\<rparr>"

definition link_to_domain :: "economic_link \<Rightarrow> py_exc + economic_link" where
  "link_to_domain row = mk_economic_link row"

datatype direction = Children | Parents | Both

record link_query =
  lq_starting_ref :: artifact_ref
  lq_link_types :: "link_type list option"
  lq_direction :: direction
  lq_max_depth :: int

record link_path =
  lp_artifacts :: "artifact_ref list"
  lp_links :: "economic_link list"

definition mk_link_path :: "artifact_ref list \<Rightarrow> economic_link list \<Rightarrow> py_exc + link_path" where
  "mk_link_path as ls =
     (if length as \<noteq> length ls + 1 then Inl ValueError else Inr \<lparr>lp_artifacts = as, lp_links = ls\<rparr>)"

definition lp_depth :: "link_path \<Rightarrow> nat" where
  "lp_depth p = length (lp_links p)"

definition lp_start :: "link_path \<Rightarrow> artifact_ref" where
  "lp_start p = hd (lp_artifacts p)"

definition lp_end :: "link_path \<Rightarrow> artifact_ref" where
  "lp_end p = last (lp_artifacts p)"

section \<open>References print and parse\<close>

lemma hex_value_nth:
  assumes "i < 16"
  shows "hex_value (''0123456789abcdef'' ! i) = Some i"
proof -
  have "\<forall>i \<in> {..<16}. hex_value (''0123456789abcdef'' ! i) = Some i" by code_simp
  then show ?thesis using assms by simp
qed

lemma hex_digits_value: "foldl (\<lambda>n c. 16 * n + the (hex_value c)) 0 (hex_digits k n) = n mod 16 ^ k"
proof (induction k arbitrary: n)
  case (Suc k)
  have "n mod 16 ^ Suc k = 16 * (n div 16 mod 16 ^ k) + n mod 16"
    by (simp add: mod_mult2_eq mult.commute)
  then show ?case using Suc by (simp add: hex_value_nth)
qed simp

lemma hex_digits_all: "c \<in> set (hex_digits k n) \<Longrightarrow> hex_value c \<noteq> None"
proof -
  assume "c \<in> set (hex_digits k n)"
  then have "c \<in> set ''0123456789abcdef''" using set_hex_digits by blast
  then obtain i where "i < length ''0123456789abcdef''" "c = ''0123456789abcdef'' ! i" unfolding in_set_conv_nth by blast
  then have "i < 16" "c = ''0123456789abcdef'' ! i" by simp_all
  then show ?thesis by (simp add: hex_value_nth)
qed

lemma uuid_of_str_str [simp]: "uuid_of_str (uuid_str u) = Some u"
proof -
  have "unat u mod 16 ^ 32 = unat u" using unsigned_less [of u, where ?'a = nat] by simp
  then show ?thesis using hex_digits_all [of _ 32 "unat u"]
    by (auto simp: uuid_of_str_def uuid_str_strip_dashes hex_digits_value list_ex_iff Let_def)
qed

lemma artifact_value_no_colon: "CHR '':'' \<notin> set (artifact_value t)"
  by (cases t) auto

lemma find_artifact_type: "find (\<lambda>x. artifact_value x = artifact_value t) all_artifact_types = Some t"
  by (cases t) (simp_all add: all_artifact_types_def)

lemma parse_ref_str: "parse_ref (ref_str r) = Inr r"
proof -
  have "takeWhile (\<lambda>c. c \<noteq> CHR '':'') (ref_str r) = artifact_value (ar_type r)"
    "dropWhile (\<lambda>c. c \<noteq> CHR '':'') (ref_str r) = CHR '':'' # uuid_str (ar_id r)"
    using artifact_value_no_colon [of "ar_type r"] unfolding ref_str_def
    by (simp_all add: takeWhile_append1 takeWhile_append dropWhile_append)
  then show ?thesis by (simp add: parse_ref_def find_artifact_type)
qed

lemma ref_str_inj: "ref_str r = ref_str q \<longleftrightarrow> r = q"
  by (metis parse_ref_str sum.inject(2))

lemma mk_economic_link_Inr: "mk_economic_link l = Inr l' \<Longrightarrow> l' = l"
  by (auto simp: mk_economic_link_def split: if_splits option.splits)

end
