(* ===== verification/Link_Graph.thy ===== *)
theory Link_Graph
  imports Economic_Link
begin

text \<open>
  \<open>finance_kernel/services/link_graph_service.py\<close>: persisting links and keeping the graph of each
  acyclic link type free of cycles (L3). A session holds the committed rows and the rows it sees;
  \<open>race\<close> is what another transaction commits just before a flush. The recursion of the cycle search
  is bounded by \<open>limit\<close>, the number of frames Python allows: a deeper search is a RecursionError.
  Rows come in insertion order, which SQL leaves open. The sums over link metadata
  (\<open>get_unconsumed_value\<close>, \<open>get_total_allocated\<close>) are in \<open>Cost_Lot\<close>.
\<close>

section \<open>State and queries\<close>

datatype link_exc =
    LinkPy py_exc
  | RecursionError
  | DuplicateLinkError link_type artifact_ref artifact_ref
  | LinkCycleError link_type "artifact_ref list"
  | MaxChildrenExceededError link_type artifact_ref nat nat

type_synonym links = "economic_link list"

record link_session =
  lk_committed :: links
  lk_rows :: links

record link_service =
  lv_one :: "links \<Rightarrow> py_exc + economic_link option"
  lv_limit :: nat

record link_result =
  lr_link :: economic_link
  lr_was_duplicate :: bool

definition lr_success :: "economic_link \<Rightarrow> link_result" where
  "lr_success l = \<lparr>lr_link = l, lr_was_duplicate = False\<rparr>"

definition lr_already_exists :: "economic_link \<Rightarrow> link_result" where
  "lr_already_exists l = \<lparr>lr_link = l, lr_was_duplicate = True\<rparr>"

definition lpy :: "py_exc + 'a \<Rightarrow> link_exc + 'a" where
  "lpy = map_sum LinkPy id"

definition acyclic_link_types :: "link_type list" where
  "acyclic_link_types = [FULFILLED_BY, SOURCED_FROM, DERIVED_FROM, CONSUMED_BY, CORRECTED_BY]"

definition of_types :: "link_type list option \<Rightarrow> economic_link \<Rightarrow> bool" where
  "of_types types l \<longleftrightarrow> types \<in> {None, Some []} \<or> el_link_type l \<in> set (the types)"

definition get_children :: "artifact_ref \<Rightarrow> link_type list option \<Rightarrow> links \<Rightarrow> link_exc + links" where
  "get_children parent types rows =
     rtraverse (\<lambda>r. lpy (link_to_domain r)) (filter (\<lambda>l. el_parent_ref l = parent \<and> of_types types l) rows)"

definition get_parents :: "artifact_ref \<Rightarrow> link_type list option \<Rightarrow> links \<Rightarrow> link_exc + links" where
  "get_parents child types rows =
     rtraverse (\<lambda>r. lpy (link_to_domain r)) (filter (\<lambda>l. el_child_ref l = child \<and> of_types types l) rows)"

definition find_existing_link_by_refs ::
    "link_service \<Rightarrow> artifact_ref \<Rightarrow> artifact_ref \<Rightarrow> link_type \<Rightarrow> links \<Rightarrow> link_exc + economic_link option" where
  "find_existing_link_by_refs sv parent child t rows =
     lpy (lv_one sv (filter (\<lambda>l. el_link_type l = t \<and> el_parent_ref l = parent \<and> el_child_ref l = child) rows))"

definition find_existing_link :: "link_service \<Rightarrow> economic_link \<Rightarrow> links \<Rightarrow> link_exc + economic_link option" where
  "find_existing_link sv l rows = find_existing_link_by_refs sv (el_parent_ref l) (el_child_ref l) (el_link_type l) rows"

definition get_link ::
    "link_service \<Rightarrow> artifact_ref \<Rightarrow> artifact_ref \<Rightarrow> link_type \<Rightarrow> links \<Rightarrow> link_exc + economic_link option" where
  "get_link sv parent child t rows =
     rbind (find_existing_link_by_refs sv parent child t rows) (\<lambda>r.
       case r of None \<Rightarrow> Inr None | Some row \<Rightarrow> rmap Some (lpy (link_to_domain row)))"

definition count_children :: "artifact_ref \<Rightarrow> link_type \<Rightarrow> links \<Rightarrow> nat" where
  "count_children parent t rows = length (filter (\<lambda>l. el_link_type l = t \<and> el_parent_ref l = parent) rows)"

definition find_reversal :: "artifact_ref \<Rightarrow> links \<Rightarrow> link_exc + economic_link option" where
  "find_reversal r rows =
     rmap (\<lambda>cs. if cs = [] then None else Some (hd cs)) (get_children r (Some [REVERSED_BY]) rows)"

definition is_reversed :: "artifact_ref \<Rightarrow> links \<Rightarrow> link_exc + bool" where
  "is_reversed r rows = rmap (\<lambda>x. x \<noteq> None) (find_reversal r rows)"

definition find_correction :: "artifact_ref \<Rightarrow> links \<Rightarrow> link_exc + economic_link option" where
  "find_correction r rows =
     rmap (\<lambda>cs. if cs = [] then None else Some (hd cs)) (get_children r (Some [CORRECTED_BY]) rows)"

section \<open>Cycle search\<close>

text \<open>
  \<open>can_reach\<close> is the nested function of \<open>_detect_cycle\<close>, with the set \<open>visited\<close> and the list
  \<open>path\<close> it mutates passed along; \<open>reach_any\<close> is its loop over the children.
\<close>

function (sequential) can_reach ::
    "nat \<Rightarrow> (artifact_ref \<Rightarrow> link_exc + artifact_ref list) \<Rightarrow> artifact_ref \<Rightarrow> artifact_ref
     \<Rightarrow> string list \<times> artifact_ref list \<Rightarrow> link_exc + bool \<times> string list \<times> artifact_ref list"
  and reach_any ::
    "nat \<Rightarrow> (artifact_ref \<Rightarrow> link_exc + artifact_ref list) \<Rightarrow> artifact_ref \<Rightarrow> artifact_ref list
     \<Rightarrow> string list \<times> artifact_ref list \<Rightarrow> link_exc + bool \<times> string list \<times> artifact_ref list" where
  "can_reach 0 children target current st = Inl RecursionError"
| "can_reach (Suc n) children target current (visited, path) =
     (if ref_str current \<in> set visited then Inr (False, visited, path)
      else if current = target then Inr (True, ref_str current # visited, path @ [current])
      else rbind (children current) (\<lambda>cs.
             rbind (reach_any n children target cs (ref_str current # visited, path @ [current])) (\<lambda>(found, v, p).
               Inr (found, v, if found then p else butlast p))))"
| "reach_any n children target [] (visited, path) = Inr (False, visited, path)"
| "reach_any n children target (c # cs) st =
     rbind (can_reach n children target c st) (\<lambda>(found, v, p).
       if found then Inr (True, v, p) else reach_any n children target cs (v, p))"
  by pat_completeness auto
termination
  by (relation "measures [\<lambda>x. case x of Inl (n, _) \<Rightarrow> n | Inr (n, _) \<Rightarrow> n,
                          \<lambda>x. case x of Inl _ \<Rightarrow> 0 | Inr (n, _, _, cs, _) \<Rightarrow> Suc (length cs)]") auto

definition detect_cycle :: "link_service \<Rightarrow> economic_link \<Rightarrow> links \<Rightarrow> link_exc + artifact_ref list option" where
  "detect_cycle sv l rows =
     rmap (\<lambda>(found, v, p). if found then Some (p @ [el_parent_ref l]) else None)
       (can_reach (lv_limit sv) (\<lambda>r. rmap (map el_child_ref) (get_children r (Some [el_link_type l]) rows))
          (el_parent_ref l) (el_child_ref l) ([], []))"

section \<open>Establishing links\<close>

definition link_key :: "economic_link \<Rightarrow> link_type \<times> artifact_ref \<times> artifact_ref" where
  "link_key l = (el_link_type l, el_parent_ref l, el_child_ref l)"

text \<open>The primary key and the UNIQUE constraint on the relationship.\<close>

definition insert_link :: "economic_link \<Rightarrow> links \<Rightarrow> py_exc + links" where
  "insert_link l rows =
     (if list_ex (\<lambda>r. el_link_id r = el_link_id l \<or> link_key r = link_key l) rows then Inl IntegrityError
      else Inr (rows @ [l]))"

definition duplicate_error :: "economic_link \<Rightarrow> link_exc" where
  "duplicate_error l = DuplicateLinkError (el_link_type l) (el_parent_ref l) (el_child_ref l)"

definition max_children_error :: "economic_link \<Rightarrow> links \<Rightarrow> link_exc option" where
  "max_children_error l rows =
     (case link_type_specs (el_link_type l) of
        None \<Rightarrow> None
      | Some sp \<Rightarrow>
          (case sp_max_children sp of
             None \<Rightarrow> None
           | Some mx \<Rightarrow>
               let n = count_children (el_parent_ref l) (el_link_type l) rows
               in if n \<ge> mx then Some (MaxChildrenExceededError (el_link_type l) (el_parent_ref l) mx n) else None))"

definition persist_link ::
    "link_service \<Rightarrow> links \<Rightarrow> economic_link \<Rightarrow> bool \<Rightarrow> link_session \<Rightarrow> (link_exc + link_result) \<times> link_session" where
  "persist_link sv race l allow_duplicate s =
     (case insert_link (link_from_domain l) (lk_rows s @ race) of
        Inr rows \<Rightarrow> (Inr (lr_success l), s\<lparr>lk_committed := lk_committed s @ race, lk_rows := rows\<rparr>)
      | Inl _ \<Rightarrow>
          let s' = s\<lparr>lk_committed := lk_committed s @ race, lk_rows := lk_committed s @ race\<rparr>
          in (rbind (find_existing_link sv l (lk_rows s')) (\<lambda>found.
                case found of
                  Some row \<Rightarrow> if allow_duplicate then rmap lr_already_exists (lpy (link_to_domain row)) else Inl (duplicate_error l)
                | None \<Rightarrow> Inl (duplicate_error l)), s'))"

definition establish_link ::
    "link_service \<Rightarrow> links \<Rightarrow> economic_link \<Rightarrow> bool \<Rightarrow> link_session \<Rightarrow> (link_exc + link_result) \<times> link_session" where
  "establish_link sv race l allow_duplicate s =
     (case find_existing_link sv l (lk_rows s) of
        Inl e \<Rightarrow> (Inl e, s)
      | Inr (Some row) \<Rightarrow>
          (if allow_duplicate then rmap lr_already_exists (lpy (link_to_domain row)) else Inl (duplicate_error l), s)
      | Inr None \<Rightarrow>
          (case (if el_link_type l \<in> set acyclic_link_types then detect_cycle sv l (lk_rows s) else Inr None) of
             Inl e \<Rightarrow> (Inl e, s)
           | Inr (Some path) \<Rightarrow> (Inl (LinkCycleError (el_link_type l) path), s)
           | Inr None \<Rightarrow>
               (case max_children_error l (lk_rows s) of
                  Some e \<Rightarrow> (Inl e, s)
                | None \<Rightarrow> persist_link sv race l allow_duplicate s)))"

fun establish_links ::
    "link_service \<Rightarrow> links list \<Rightarrow> economic_link list \<Rightarrow> bool \<Rightarrow> link_session
     \<Rightarrow> (link_exc + link_result list) \<times> link_session" where
  "establish_links sv races [] allow_duplicates s = (Inr [], s)"
| "establish_links sv races (l # ls) allow_duplicates s =
     (case establish_link sv (if races = [] then [] else hd races) l allow_duplicates s of
        (Inl e, s') \<Rightarrow> (Inl e, s')
      | (Inr r, s') \<Rightarrow>
          (case establish_links sv (tl races) ls allow_duplicates s' of (rs, s'') \<Rightarrow> (rmap ((#) r) rs, s'')))"

section \<open>Traversal\<close>

definition touches :: "direction \<Rightarrow> artifact_ref \<Rightarrow> economic_link \<Rightarrow> bool" where
  "touches d r l \<longleftrightarrow> d \<in> {Children, Both} \<and> el_parent_ref l = r \<or> d \<in> {Parents, Both} \<and> el_child_ref l = r"

text \<open>
  One level of the breadth-first traversal: the links of every current reference that were not
  visited, children before parents. The code keeps the printed references in a set and parses them
  again; printing and parsing is the identity, and the order of the set is left open by Python.
\<close>

definition level_links :: "link_query \<Rightarrow> links \<Rightarrow> uuid list \<Rightarrow> artifact_ref list \<Rightarrow> links" where
  "level_links q rows visited refs =
     concat (map (\<lambda>r.
       (if lq_direction q \<in> {Children, Both}
        then filter (\<lambda>l. el_parent_ref l = r \<and> el_link_id l \<notin> set visited \<and> of_types (lq_link_types q) l) rows else []) @
       (if lq_direction q \<in> {Parents, Both}
        then filter (\<lambda>l. el_child_ref l = r \<and> el_link_id l \<notin> set visited \<and> of_types (lq_link_types q) l) rows else []))
     refs)"

fun add_unvisited :: "links \<Rightarrow> uuid list \<times> links \<Rightarrow> uuid list \<times> links" where
  "add_unvisited [] st = st"
| "add_unvisited (l # ls) (visited, found) =
     (if el_link_id l \<in> set visited then add_unvisited ls (visited, found)
      else add_unvisited ls (el_link_id l # visited, found @ [l]))"

definition next_refs :: "link_query \<Rightarrow> links \<Rightarrow> artifact_ref list" where
  "next_refs q ls =
     remdups (concat (map (\<lambda>l.
       (if lq_direction q \<in> {Children, Both} then [el_child_ref l] else []) @
       (if lq_direction q \<in> {Parents, Both} then [el_parent_ref l] else [])) ls))"

fun iterative_traversal :: "nat \<Rightarrow> link_query \<Rightarrow> links \<Rightarrow> uuid list \<times> links \<Rightarrow> artifact_ref list \<Rightarrow> links" where
  "iterative_traversal 0 q rows (visited, found) refs = found"
| "iterative_traversal (Suc n) q rows (visited, found) refs =
     (let ls = level_links q rows visited refs
      in if ls = [] then found
         else iterative_traversal n q rows (add_unvisited ls (visited, found)) (next_refs q ls))"

definition fetch_reachable_links :: "link_query \<Rightarrow> links \<Rightarrow> links" where
  "fetch_reachable_links q rows =
     (if lq_max_depth q = 1
      then filter (\<lambda>l. touches (lq_direction q) (lq_starting_ref q) l \<and> of_types (lq_link_types q) l) rows
      else iterative_traversal (nat (lq_max_depth q)) q rows ([], []) [lq_starting_ref q])"

definition adjacent :: "direction \<Rightarrow> artifact_ref \<Rightarrow> links \<Rightarrow> links" where
  "adjacent d current ls =
     (if d = Parents then filter (\<lambda>l. el_child_ref l = current) ls else filter (\<lambda>l. el_parent_ref l = current) ls)"

definition next_ref :: "direction \<Rightarrow> economic_link \<Rightarrow> artifact_ref" where
  "next_ref d l = (if d = Parents then el_parent_ref l else el_child_ref l)"

text \<open>The first argument is \<open>max_depth - depth\<close>. The recursive call is on the child of the link, in every direction.\<close>

fun build_path ::
    "nat \<Rightarrow> direction \<Rightarrow> links \<Rightarrow> artifact_ref \<Rightarrow> artifact_ref list \<Rightarrow> links \<Rightarrow> link_exc + link_path list" where
  "build_path 0 d ls current path_artifacts path_links =
     rmap (\<lambda>p. [p]) (lpy (mk_link_path path_artifacts path_links))"
| "build_path (Suc n) d ls current path_artifacts path_links =
     (if adjacent d current ls = [] then rmap (\<lambda>p. [p]) (lpy (mk_link_path path_artifacts path_links))
      else rmap concat (rtraverse (\<lambda>row.
             rbind (lpy (link_to_domain row)) (\<lambda>l.
               build_path n d ls (el_child_ref l) (path_artifacts @ [next_ref d l]) (path_links @ [l])))
           (adjacent d current ls)))"

definition build_paths :: "artifact_ref \<Rightarrow> links \<Rightarrow> int \<Rightarrow> direction \<Rightarrow> link_exc + link_path list" where
  "build_paths start ls max_depth d =
     (if ls = [] then rmap (\<lambda>p. [p]) (lpy (mk_link_path [start] []))
      else rbind (build_path (nat max_depth) d ls start [start] []) (\<lambda>ps.
             if ps = [] then rmap (\<lambda>p. [p]) (lpy (mk_link_path [start] [])) else Inr ps))"

definition walk_path :: "link_query \<Rightarrow> links \<Rightarrow> link_exc + link_path list" where
  "walk_path q rows =
     (if lq_max_depth q < 1 then rmap (\<lambda>p. [p]) (lpy (mk_link_path [lq_starting_ref q] []))
      else build_paths (lq_starting_ref q) (fetch_reachable_links q rows) (lq_max_depth q) (lq_direction q))"

section \<open>Correctness of the cycle search\<close>

lemma lpy_simps [simp]: "lpy (Inr x) = Inr x" "lpy (Inl e) = Inl (LinkPy e)" "lpy m = Inr y \<longleftrightarrow> m = Inr y"
  by (cases m; simp add: lpy_def)+

definition seen :: "string list \<Rightarrow> artifact_ref set" where
  "seen v = {r. ref_str r \<in> set v}"

lemma seen_simps [simp]: "seen [] = {}" "seen (ref_str r # v) = insert r (seen v)" "ref_str r \<in> set v \<longleftrightarrow> r \<in> seen v"
  by (auto simp: seen_def ref_str_inj)

text \<open>The search only relies on the successors of each artifact; \<open>next\<close> gives them when no query raises.\<close>

locale search_graph =
  fixes children :: "artifact_ref \<Rightarrow> link_exc + artifact_ref list"
    and nxt :: "artifact_ref \<Rightarrow> artifact_ref list"
  assumes children_nxt: "children r = Inr (nxt r)"
begin

definition edge :: "(artifact_ref \<times> artifact_ref) set" where
  "edge = {(x, y). y \<in> set (nxt x)}"

abbreviation walk :: "artifact_ref list \<Rightarrow> bool" where
  "walk w \<equiv> successively (\<lambda>x y. y \<in> set (nxt x)) w"

end

context search_graph
begin

lemma search_step:
  "can_reach (Suc n) children target c (v, p) =
     (if c \<in> seen v then Inr (False, v, p)
      else if c = target then Inr (True, ref_str c # v, p @ [c])
      else rbind (reach_any n children target (nxt c) (ref_str c # v, p @ [c])) (\<lambda>(found, v, p).
             Inr (found, v, if found then p else butlast p)))"
  by (simp add: children_nxt [of c])

declare can_reach.simps(2) [simp del]

text \<open>A search that succeeds has appended a walk to the target to the path.\<close>

lemma any_found:
  assumes "\<And>c st v' p'. can_reach n children target c st = Inr (True, v', p') \<Longrightarrow>
     \<exists>w. p' = snd st @ c # w \<and> walk (c # w) \<and> last (c # w) = target"
    and "\<And>c v p v' p'. can_reach n children target c (v, p) = Inr (False, v', p') \<Longrightarrow> p' = p"
    and "reach_any n children target cs (v, p) = Inr (True, v', p')"
  shows "\<exists>c \<in> set cs. \<exists>w. p' = p @ c # w \<and> walk (c # w) \<and> last (c # w) = target"
  using assms(3)
proof (induction cs arbitrary: v p)
  case (Cons c cs)
  from Cons.prems obtain b v1 p1 where r: "can_reach n children target c (v, p) = Inr (b, v1, p1)"
    and k: "if b then v' = v1 \<and> p' = p1 else reach_any n children target cs (v1, p1) = Inr (True, v', p')"
    by (auto simp: result_iffs split: if_splits)
  show ?case
  proof (cases b)
    case True
    then show ?thesis using assms(1) r k by fastforce
  next
    case False
    then have "p1 = p" using assms(2) r by simp
    then show ?thesis using Cons.IH k False by auto
  qed
qed simp

lemma any_path:
  assumes "\<And>c v p v' p'. can_reach n children target c (v, p) = Inr (False, v', p') \<Longrightarrow> p' = p"
    and "reach_any n children target cs (v, p) = Inr (False, v', p')"
  shows "p' = p"
  using assms(2)
proof (induction cs arbitrary: v p)
  case (Cons c cs)
  then obtain v1 p1 where "can_reach n children target c (v, p) = Inr (False, v1, p1)"
    "reach_any n children target cs (v1, p1) = Inr (False, v', p')"
    by (auto simp: result_iffs split: if_splits)
  then show ?case using Cons.IH assms(1) by blast
qed simp

lemma path_restored: "can_reach n children target c (v, p) = Inr (False, v', p') \<Longrightarrow> p' = p"
proof (induction n arbitrary: c v p v' p')
  case (Suc n)
  show ?case
  proof (cases "c \<in> seen v \<or> c = target")
    case False
    then obtain q where "reach_any n children target (nxt c) (ref_str c # v, p @ [c]) = Inr (False, v', q)" "p' = butlast q"
      using Suc.prems by (auto simp: search_step result_iffs split: if_splits)
    moreover from this(1) have "q = p @ [c]" by (rule any_path [rotated]) (erule Suc.IH)
    ultimately show ?thesis by simp
  qed (use Suc.prems in \<open>auto simp: search_step split: if_splits\<close>)
qed simp

lemma found_walk:
  "can_reach n children target c st = Inr (True, v', p') \<Longrightarrow>
     \<exists>w. p' = snd st @ c # w \<and> walk (c # w) \<and> last (c # w) = target"
proof (induction n arbitrary: c st v' p')
  case (Suc n)
  obtain v p where st: "st = (v, p)" by force
  show ?case
  proof (cases "c = target")
    case False
    with Suc.prems have "reach_any n children target (nxt c) (ref_str c # v, p @ [c]) = Inr (True, v', p')"
      by (auto simp: st search_step result_iffs split: if_splits)
    then have "\<exists>d \<in> set (nxt c). \<exists>w. p' = (p @ [c]) @ d # w \<and> walk (d # w) \<and> last (d # w) = target"
      by (rule any_found [rotated 2]) (erule Suc.IH, erule path_restored)
    then obtain d w where d: "d \<in> set (nxt c)" "p' = (p @ [c]) @ d # w"
      "walk (d # w)" "last (d # w) = target" by blast
    then show ?thesis by (intro exI [of _ "d # w"]) (simp add: st successively_Cons)
  qed (use Suc.prems in \<open>auto simp: st search_step split: if_splits\<close>)
qed simp

text \<open>
  A search that fails has seen every artifact it was called on, and whatever it saw for the first
  time is not the target and has all its successors among the seen.
\<close>

definition explored :: "artifact_ref \<Rightarrow> artifact_ref set \<Rightarrow> artifact_ref set \<Rightarrow> bool" where
  "explored target V V' \<longleftrightarrow> V \<subseteq> V' \<and> (\<forall>x \<in> V' - V. x \<noteq> target \<and> set (nxt x) \<subseteq> V')"

lemma explored_trans: "explored t V V' \<Longrightarrow> explored t V' V'' \<Longrightarrow> explored t V V''"
  unfolding explored_def by blast

lemma any_explored:
  assumes "\<And>c v p v' p'. can_reach n children target c (v, p) = Inr (False, v', p') \<Longrightarrow>
      c \<in> seen v' \<and> explored target (seen v) (seen v')"
    and "reach_any n children target cs (v, p) = Inr (False, v', p')"
  shows "set cs \<subseteq> seen v' \<and> explored target (seen v) (seen v')"
  using assms(2)
proof (induction cs arbitrary: v p)
  case Nil
  then show ?case by (simp add: explored_def)
next
  case (Cons c cs)
  then obtain v1 p1 where "can_reach n children target c (v, p) = Inr (False, v1, p1)"
    and k: "reach_any n children target cs (v1, p1) = Inr (False, v', p')"
    by (auto simp: result_iffs split: if_splits)
  then have "c \<in> seen v1" "explored target (seen v) (seen v1)" using assms(1) by blast+
  moreover have "set cs \<subseteq> seen v'" "explored target (seen v1) (seen v')" using Cons.IH [OF k] by blast+
  moreover have "explored target (seen v) (seen v')" using calculation(2,4) by (rule explored_trans)
  ultimately show ?case by (auto simp: explored_def)
qed

lemma failed_explored:
  "can_reach n children target c (v, p) = Inr (False, v', p') \<Longrightarrow> c \<in> seen v' \<and> explored target (seen v) (seen v')"
proof (induction n arbitrary: c v p v' p')
  case (Suc n)
  show ?case
  proof (cases "c \<in> seen v \<or> c = target")
    case True
    then show ?thesis using Suc.prems by (auto simp: explored_def search_step split: if_splits)
  next
    case False
    then obtain q where "reach_any n children target (nxt c) (ref_str c # v, p @ [c]) = Inr (False, v', q)"
      using Suc.prems by (auto simp: search_step result_iffs split: if_splits)
    then have "set (nxt c) \<subseteq> seen v' \<and> explored target (seen (ref_str c # v)) (seen v')"
      by (rule any_explored [rotated]) (erule Suc.IH)
    then show ?thesis using False by (auto simp: explored_def)
  qed
qed simp

lemma not_found_unreachable:
  assumes "can_reach n children target c ([], []) = Inr (False, v', p')"
  shows "(c, target) \<notin> edge\<^sup>*"
proof
  assume "(c, target) \<in> edge\<^sup>*"
  moreover have "c \<in> seen v'" "explored target {} (seen v')" using failed_explored [OF assms] by simp_all
  ultimately have "target \<in> seen v'"
  proof (induction rule: rtrancl_induct)
    case (step y z)
    then show ?case by (auto simp: explored_def edge_def)
  qed
  then show False using \<open>explored target {} (seen v')\<close> by (auto simp: explored_def)
qed

lemma found_reachable:
  assumes "can_reach n children target c ([], []) = Inr (True, v', p')"
  shows "\<exists>w. p' = c # w \<and> walk (c # w) \<and> last (c # w) = target \<and> (c, target) \<in> edge\<^sup>*"
proof -
  have "walk (c # w) \<Longrightarrow> (c, last (c # w)) \<in> edge\<^sup>*" for w
  proof (induction w arbitrary: c)
    case (Cons d w)
    then have "(c, d) \<in> edge" "walk (d # w)" by (simp_all add: edge_def)
    then show ?case using Cons.IH [of d] by (auto intro: converse_rtrancl_into_rtrancl)
  qed simp
  moreover from found_walk [OF assms] obtain w where "p' = c # w" "walk (c # w)" "last (c # w) = target" by auto
  ultimately show ?thesis by metis
qed

text \<open>As many frames as there are artifacts to see, and one more, are enough.\<close>

lemma any_returns:
  assumes "\<And>c v p. c \<in> N \<Longrightarrow> card (N - seen v) < n \<Longrightarrow> \<exists>r. can_reach n children target c (v, p) = Inr r"
    and "finite N" "set cs \<subseteq> N" "card (N - seen v) < n"
  shows "\<exists>r. reach_any n children target cs (v, p) = Inr r"
  using assms(3,4)
proof (induction cs arbitrary: v p)
  case (Cons c cs)
  then obtain b v1 p1 where r: "can_reach n children target c (v, p) = Inr (b, v1, p1)"
    using assms(1) [of c v p] by auto
  show ?case
  proof (cases b)
    case False
    then have "explored target (seen v) (seen v1)" using failed_explored r by simp
    then have "seen v \<subseteq> seen v1" by (simp add: explored_def)
    then have "card (N - seen v1) \<le> card (N - seen v)" using assms(2) by (intro card_mono) auto
    then show ?thesis using Cons.IH [of v1 p1] Cons.prems r False by simp
  qed (use r in auto)
qed (simp, blast)

lemma search_returns:
  "finite N \<Longrightarrow> (\<And>x. x \<in> N \<Longrightarrow> set (nxt x) \<subseteq> N) \<Longrightarrow> c \<in> N \<Longrightarrow> card (N - seen v) < n \<Longrightarrow>
     \<exists>r. can_reach n children target c (v, p) = Inr r"
proof (induction n arbitrary: c v p)
  case (Suc n)
  show ?case
  proof (cases "c \<in> seen v \<or> c = target")
    case False
    have "N - seen (ref_str c # v) \<subset> N - seen v" using False Suc.prems(3) by auto
    then have "card (N - seen (ref_str c # v)) < n"
      using psubset_card_mono [of "N - seen v"] Suc.prems(1,4) by fastforce
    moreover have "set (nxt c) \<subseteq> N" by (rule Suc.prems(2) [OF Suc.prems(3)])
    ultimately have "\<exists>r. reach_any n children target (nxt c) (ref_str c # v, p @ [c]) = Inr r"
      using Suc.prems(1) by (intro any_returns [where N = N]) (rule Suc.IH [OF Suc.prems(1,2)])
    then obtain r where "reach_any n children target (nxt c) (ref_str c # v, p @ [c]) = Inr r" ..
    then show ?thesis using False by (cases r) (simp add: search_step)
  qed (auto simp: search_step)
qed simp

end

section \<open>The graph of the stored links\<close>

definition child_refs :: "link_type \<Rightarrow> links \<Rightarrow> artifact_ref \<Rightarrow> artifact_ref list" where
  "child_refs t rows r = map el_child_ref (filter (\<lambda>l. el_parent_ref l = r \<and> of_types (Some [t]) l) rows)"

interpretation stored: search_graph "\<lambda>r. Inr (child_refs t rows r)" "child_refs t rows" for t rows
  by unfold_locales simp

definition link_edges :: "link_type \<Rightarrow> links \<Rightarrow> (artifact_ref \<times> artifact_ref) set" where
  "link_edges t rows = {(el_parent_ref l, el_child_ref l) | l. l \<in> set rows \<and> el_link_type l = t}"

definition valid_rows :: "links \<Rightarrow> bool" where
  "valid_rows rows \<longleftrightarrow> list_all (\<lambda>l. mk_economic_link l = Inr l) rows"

lemma stored_edge: "stored.edge t rows = link_edges t rows"
  by (auto simp: stored.edge_def link_edges_def child_refs_def of_types_def)

lemma traverse_valid: "valid_rows rows \<Longrightarrow> rtraverse (\<lambda>r. lpy (link_to_domain r)) (filter P rows) = Inr (filter P rows)"
  by (auto simp: rtraverse_Inr list_all2_same valid_rows_def list_all_iff link_to_domain_def)

lemma queries_valid:
  assumes "valid_rows rows"
  shows "get_children r types rows = Inr (filter (\<lambda>l. el_parent_ref l = r \<and> of_types types l) rows)"
    "get_parents r types rows = Inr (filter (\<lambda>l. el_child_ref l = r \<and> of_types types l) rows)"
  using traverse_valid [OF assms] by (simp_all add: get_children_def get_parents_def)

lemma detect_cycle_search:
  "valid_rows rows \<Longrightarrow> detect_cycle sv l rows =
     rmap (\<lambda>(found, v, p). if found then Some (p @ [el_parent_ref l]) else None)
       (can_reach (lv_limit sv) (\<lambda>r. Inr (child_refs (el_link_type l) rows r)) (el_parent_ref l) (el_child_ref l) ([], []))"
  by (simp add: detect_cycle_def queries_valid child_refs_def)

lemma detect_cycle_None:
  assumes "valid_rows rows" "detect_cycle sv l rows = Inr None"
  shows "(el_child_ref l, el_parent_ref l) \<notin> (link_edges (el_link_type l) rows)\<^sup>*"
proof -
  from assms(2) obtain v p where "can_reach (lv_limit sv) (\<lambda>r. Inr (child_refs (el_link_type l) rows r))
      (el_parent_ref l) (el_child_ref l) ([], []) = Inr (False, v, p)"
    by (auto simp: detect_cycle_search [OF assms(1)] result_iffs split: if_splits)
  from stored.not_found_unreachable [OF this] show ?thesis by (simp add: stored_edge)
qed

lemma detect_cycle_Some:
  assumes "valid_rows rows" "detect_cycle sv l rows = Inr (Some path)"
  shows "\<exists>w. path = w @ [el_parent_ref l] \<and> w \<noteq> [] \<and> hd w = el_child_ref l \<and> last w = el_parent_ref l
    \<and> successively (\<lambda>x y. (x, y) \<in> link_edges (el_link_type l) rows) w
    \<and> (el_child_ref l, el_parent_ref l) \<in> (link_edges (el_link_type l) rows)\<^sup>*"
proof -
  from assms(2) obtain v p where p: "can_reach (lv_limit sv) (\<lambda>r. Inr (child_refs (el_link_type l) rows r))
      (el_parent_ref l) (el_child_ref l) ([], []) = Inr (True, v, p)" "path = p @ [el_parent_ref l]"
    by (auto simp: detect_cycle_search [OF assms(1)] result_iffs split: if_splits)
  have "y \<in> set (child_refs t rows x) \<longleftrightarrow> (x, y) \<in> link_edges t rows" for t x y
    using stored_edge [of t rows] by (auto simp: stored.edge_def)
  then show ?thesis using stored.found_reachable [OF p(1)] p(2) by (auto simp: stored_edge)
qed

lemma detect_cycle_returns:
  assumes "valid_rows rows" "length rows + 1 < lv_limit sv"
  shows "\<exists>r. detect_cycle sv l rows = Inr r"
proof -
  let ?N = "insert (el_child_ref l) (el_child_ref ` set rows)"
  have "card ?N \<le> Suc (card (el_child_ref ` set rows))" by (rule card_insert_le_m1) simp_all
  also have "card (el_child_ref ` set rows) \<le> length rows" using card_image_le card_length le_trans by blast
  finally have "card (?N - seen []) < lv_limit sv" using assms(2) by simp
  moreover have "set (child_refs t rows x) \<subseteq> ?N" for t x by (auto simp: child_refs_def)
  ultimately have "\<exists>r. can_reach (lv_limit sv) (\<lambda>r. Inr (child_refs (el_link_type l) rows r))
      (el_parent_ref l) (el_child_ref l) ([], []) = Inr r"
    by (intro stored.search_returns [where N = ?N]) auto
  then show ?thesis by (auto simp: detect_cycle_search [OF assms(1)])
qed

section \<open>The invariant of the link table\<close>

text \<open>
  Several sessions share the table. \<open>T\<close> holds the link types that only this session writes, as under a lock; links of
  all other types may be committed by others at any time, between the operations (\<open>others\<close>) and between the checks
  and the flush of one (\<open>race\<close>), as far as the unique constraints of the table let them. With \<open>T = UNIV\<close> the
  session is alone, with \<open>T = {}\<close> others write whatever they like.
\<close>

definition links_inv :: "link_type set \<Rightarrow> links \<Rightarrow> bool" where
  "links_inv T rows \<longleftrightarrow> valid_rows rows \<and> distinct (map el_link_id rows) \<and> distinct (map link_key rows)
     \<and> (\<forall>t \<in> T. t \<in> set acyclic_link_types \<longrightarrow> acyclic (link_edges t rows))
     \<and> (\<forall>t \<in> T. \<forall>p sp mx. link_type_specs t = Some sp \<longrightarrow> sp_max_children sp = Some mx \<longrightarrow> count_children p t rows \<le> mx)"

definition foreign_rows :: "link_type set \<Rightarrow> links \<Rightarrow> links \<Rightarrow> bool" where
  "foreign_rows T rows race \<longleftrightarrow> valid_rows race \<and> distinct (map el_link_id (rows @ race)) \<and> distinct (map link_key (rows @ race))
     \<and> (\<forall>l \<in> set race. el_link_type l \<notin> T)"

inductive link_step :: "link_service \<Rightarrow> link_type set \<Rightarrow> link_session \<Rightarrow> link_session \<Rightarrow> bool" for sv T where
  establish: "mk_economic_link l = Inr l \<Longrightarrow> foreign_rows T (lk_rows s) race \<Longrightarrow> establish_link sv race l dup s = (r, s') \<Longrightarrow>
    link_step sv T s s'"
| others: "foreign_rows T (lk_rows s) race \<Longrightarrow>
    link_step sv T s (s\<lparr>lk_committed := lk_committed s @ race, lk_rows := lk_rows s @ race\<rparr>)"
| commit: "link_step sv T s (s\<lparr>lk_committed := lk_rows s\<rparr>)"
| rollback: "link_step sv T s (s\<lparr>lk_rows := lk_committed s\<rparr>)"

definition links_session_inv :: "link_type set \<Rightarrow> link_session \<Rightarrow> bool" where
  "links_session_inv T s \<longleftrightarrow> links_inv T (lk_rows s) \<and> links_inv T (lk_committed s) \<and> set (lk_committed s) \<subseteq> set (lk_rows s)"

definition empty_links :: link_session where
  "empty_links = \<lparr>lk_committed = [], lk_rows = []\<rparr>"

lemma row_simps [simp]:
  "el_link_id (link_from_domain l) = el_link_id l" "link_key (link_from_domain l) = link_key l"
  "el_link_type (link_from_domain l) = el_link_type l" "el_parent_ref (link_from_domain l) = el_parent_ref l"
  "el_child_ref (link_from_domain l) = el_child_ref l"
  by (simp_all add: link_from_domain_def link_key_def)

lemma mk_link_from_domain: "mk_economic_link l = Inr l \<Longrightarrow> mk_economic_link (link_from_domain l) = Inr (link_from_domain l)"
  by (auto simp: mk_economic_link_def split: if_splits option.splits)

lemma link_edges_snoc: "link_edges t (rows @ [l]) =
    (if el_link_type l = t then insert (el_parent_ref l, el_child_ref l) (link_edges t rows) else link_edges t rows)"
  by (auto simp: link_edges_def)

lemma links_inv_snoc:
  assumes "links_inv T rows" "mk_economic_link l = Inr l" "el_link_id l \<notin> el_link_id ` set rows" "link_key l \<notin> link_key ` set rows"
    and "el_link_type l \<in> T \<Longrightarrow> max_children_error l rows = None"
    and "el_link_type l \<in> T \<Longrightarrow> el_link_type l \<in> set acyclic_link_types \<Longrightarrow>
      (el_child_ref l, el_parent_ref l) \<notin> (link_edges (el_link_type l) rows)\<^sup>*"
  shows "links_inv T (rows @ [l])"
proof -
  have "count_children p t (rows @ [l]) \<le> mx" if "t \<in> T" "link_type_specs t = Some sp" "sp_max_children sp = Some mx" for p t sp mx
  proof (cases "el_link_type l = t \<and> el_parent_ref l = p")
    case True
    then show ?thesis using that assms(5) by (auto simp: max_children_error_def count_children_def Let_def split: if_splits)
  next
    case False
    then have "count_children p t (rows @ [l]) = count_children p t rows" by (auto simp: count_children_def)
    then show ?thesis using assms(1) that by (simp add: links_inv_def)
  qed
  then show ?thesis using assms(1-4,6)
    by (auto simp: links_inv_def valid_rows_def link_edges_snoc acyclic_insert)
qed

lemma distinct_map_extend:
  assumes "distinct (map f xs)" "distinct (map f (ys @ zs))" "set xs \<subseteq> set ys"
  shows "distinct (map f (xs @ zs))"
proof -
  have "f ` set xs \<subseteq> f ` set ys" using assms(3) by blast
  then show ?thesis using assms(1,2) by (simp only: map_append distinct_append set_map) blast
qed

text \<open>Rows of other types change neither the graph nor the counts of a type.\<close>

lemma foreign_rows_same:
  assumes "foreign_rows T rows' race" "t \<in> T"
  shows "link_edges t (rows @ race) = link_edges t rows" "count_children p t (rows @ race) = count_children p t rows"
  using assms by (auto simp: foreign_rows_def link_edges_def count_children_def filter_empty_conv)

lemma links_inv_foreign:
  assumes "links_inv T rows" "foreign_rows T rows' race" "set rows \<subseteq> set rows'"
  shows "links_inv T (rows @ race)"
proof -
  have "distinct (map el_link_id (rows @ race))" "distinct (map link_key (rows @ race))"
    using assms(1,2) unfolding links_inv_def foreign_rows_def by (blast intro: distinct_map_extend [OF _ _ assms(3)])+
  moreover have "valid_rows (rows @ race)" using assms(1,2) by (simp add: links_inv_def foreign_rows_def valid_rows_def)
  ultimately show ?thesis using assms(1) foreign_rows_same [OF assms(2)] by (simp add: links_inv_def)
qed

lemma max_children_from_domain: "max_children_error (link_from_domain l) rows = max_children_error l rows"
  by (simp add: max_children_error_def Let_def split: option.split)

text \<open>How a flush ends: with the new row behind what others committed, or rolled back to what is committed.\<close>

lemma establish_link_rows:
  assumes "establish_link sv race l dup s = (r, s')"
  obtains (same) "s' = s"
  | (added) "s' = s\<lparr>lk_committed := lk_committed s @ race, lk_rows := (lk_rows s @ race) @ [link_from_domain l]\<rparr>"
      "el_link_id l \<notin> el_link_id ` set (lk_rows s @ race)" "link_key l \<notin> link_key ` set (lk_rows s @ race)"
      "max_children_error l (lk_rows s) = None"
      "el_link_type l \<in> set acyclic_link_types \<Longrightarrow> detect_cycle sv l (lk_rows s) = Inr None"
  | (rolled_back) "s' = s\<lparr>lk_committed := lk_committed s @ race, lk_rows := lk_committed s @ race\<rparr>"
proof (cases "s' = s")
  case False
  then have c: "max_children_error l (lk_rows s) = None" "el_link_type l \<in> set acyclic_link_types \<longrightarrow> detect_cycle sv l (lk_rows s) = Inr None"
    and p: "persist_link sv race l dup s = (r, s')"
    using assms by (auto simp: establish_link_def split: sum.splits option.splits if_splits)
  show ?thesis
  proof (cases "insert_link (link_from_domain l) (lk_rows s @ race)")
    case (Inl e)
    then have "s' = s\<lparr>lk_committed := lk_committed s @ race, lk_rows := lk_committed s @ race\<rparr>"
      using p by (simp add: persist_link_def Let_def)
    then show ?thesis by (rule rolled_back)
  next
    case (Inr rows)
    then have r: "rows = (lk_rows s @ race) @ [link_from_domain l]" and f: "el_link_id l \<notin> el_link_id ` set (lk_rows s @ race)"
      "link_key l \<notin> link_key ` set (lk_rows s @ race)"
      by (auto simp: insert_link_def list_ex_iff split: if_splits)
    have "s' = s\<lparr>lk_committed := lk_committed s @ race, lk_rows := (lk_rows s @ race) @ [link_from_domain l]\<rparr>"
      using p Inr r by (simp add: persist_link_def)
    then show ?thesis by (rule added) (use f c in simp_all)
  qed
qed (rule same)

lemma establish_link_inv:
  assumes "links_session_inv T s" "mk_economic_link l = Inr l" "foreign_rows T (lk_rows s) race"
    and "establish_link sv race l dup s = (r, s')"
  shows "links_session_inv T s'"
  using assms(4)
proof (cases rule: establish_link_rows)
  case same
  then show ?thesis using assms(1) by simp
next
  case rolled_back
  then show ?thesis using assms(1) links_inv_foreign [OF _ assms(3)] by (simp add: links_session_inv_def)
next
  case added
  have inv: "links_inv T (lk_rows s @ race)" "links_inv T (lk_committed s @ race)"
    using assms(1) links_inv_foreign [OF _ assms(3)] by (simp_all add: links_session_inv_def)
  have "links_inv T ((lk_rows s @ race) @ [link_from_domain l])"
  proof (rule links_inv_snoc [OF inv(1) mk_link_from_domain [OF assms(2)]])
    assume t: "el_link_type (link_from_domain l) \<in> T"
    then have "max_children_error l (lk_rows s @ race) = max_children_error l (lk_rows s)"
      using foreign_rows_same(2) [OF assms(3)] by (simp add: max_children_error_def split: option.split)
    then show "max_children_error (link_from_domain l) (lk_rows s @ race) = None" using added(4) by (simp add: max_children_from_domain)
    assume "el_link_type (link_from_domain l) \<in> set acyclic_link_types"
    moreover have "valid_rows (lk_rows s)" using assms(1) by (simp add: links_session_inv_def links_inv_def)
    ultimately show "(el_child_ref (link_from_domain l), el_parent_ref (link_from_domain l))
        \<notin> (link_edges (el_link_type (link_from_domain l)) (lk_rows s @ race))\<^sup>*"
      using t detect_cycle_None added(5) by (simp add: foreign_rows_same(1) [OF assms(3)])
  qed (use added(2,3) in simp_all)
  then show ?thesis using inv(2) added(1) assms(1) by (auto simp: links_session_inv_def)
qed

lemma persist_errors: "fst (persist_link sv race l dup s) = Inl e \<Longrightarrow> e = duplicate_error l \<or> (\<exists>x. e = LinkPy x)"
proof -
  assume a: "fst (persist_link sv race l dup s) = Inl e"
  have "x = duplicate_error l \<or> (\<exists>y. x = LinkPy y)" if "find_existing_link sv l rows = Inl x" for x rows
    using that by (auto simp: find_existing_link_def find_existing_link_by_refs_def lpy_def map_sum_def split: sum.splits)
  moreover have "\<exists>y. x = LinkPy y" if "lpy m = Inl x" for x and m :: "py_exc + economic_link"
    using that by (cases m) auto
  ultimately show ?thesis using a
    by (auto simp: persist_link_def Let_def result_iffs split: sum.splits option.splits if_splits)
qed

lemma link_steps_inv:
  assumes "(link_step sv T)\<^sup>*\<^sup>* empty_links s"
  shows "links_session_inv T s"
  using assms
proof (induction rule: rtranclp_induct)
  case base
  then show ?case
    by (auto simp: links_session_inv_def empty_links_def links_inv_def valid_rows_def link_edges_def count_children_def acyclic_def)
next
  case (step s s')
  from step.hyps(2) show ?case
  proof cases
    case (establish l race dup r)
    then show ?thesis using establish_link_inv [OF step.IH] by blast
  next
    case (others race)
    then show ?thesis using step.IH links_inv_foreign [OF _ others(2)] by (auto simp: links_session_inv_def)
  qed (use step.IH in \<open>simp_all add: links_session_inv_def\<close>)
qed

section \<open>Properties\<close>

definition demo_ref :: "artifact_type \<Rightarrow> nat \<Rightarrow> artifact_ref" where
  "demo_ref t n = \<lparr>ar_type = t, ar_id = of_nat n\<rparr>"

definition demo_link :: economic_link where
  "demo_link = \<lparr>el_link_id = 7, el_link_type = FULFILLED_BY, el_parent_ref = demo_ref A_PURCHASE_ORDER 1,
     el_child_ref = demo_ref A_RECEIPT 2, el_creating_event_id = 9, el_created_at = 0, el_metadata = None\<rparr>"

definition demo_service :: link_service where
  "demo_service = \<lparr>lv_one = scalar_one_or_none, lv_limit = 1000\<rparr>"

lemma demo_link_ok: "mk_economic_link demo_link = Inr demo_link" "link_from_domain demo_link = demo_link"
  by (simp_all add: demo_link_def demo_ref_def mk_economic_link_def mk_spec_def spec_validate_def link_from_domain_def)

lemma demo_establish:
  "establish_link demo_service [] demo_link False empty_links = (Inr (lr_success demo_link), empty_links\<lparr>lk_rows := [demo_link]\<rparr>)"
proof -
  have "detect_cycle demo_service demo_link [] = Inr None"
    by (simp add: detect_cycle_search valid_rows_def child_refs_def demo_service_def numeral_eq_Suc can_reach.simps(2))
      (simp add: demo_link_def demo_ref_def)
  moreover have "max_children_error demo_link [] = None" by (simp add: max_children_error_def demo_link_def mk_spec_def)
  moreover have "find_existing_link demo_service demo_link [] = Inr None"
    by (simp add: find_existing_link_def find_existing_link_by_refs_def demo_service_def)
  moreover have "persist_link demo_service [] demo_link False empty_links =
      (Inr (lr_success demo_link), empty_links\<lparr>lk_rows := [demo_link]\<rparr>)"
    by (simp add: persist_link_def insert_link_def demo_link_ok empty_links_def)
  ultimately show ?thesis by (simp add: establish_link_def empty_links_def)
qed

lemma demo_reached: "(link_step demo_service T)\<^sup>*\<^sup>* empty_links (empty_links\<lparr>lk_rows := [demo_link]\<rparr>)"
  by (rule r_into_rtranclp, rule link_step.establish [OF demo_link_ok(1) _ demo_establish])
    (simp add: foreign_rows_def empty_links_def valid_rows_def)

text \<open>
  Property C10. The link graph stays acyclic (L3) for the link types that no other transaction writes meanwhile: after any
  sequence of established links, commits and rollbacks of one session, with other transactions committing links of other
  types at any moment, no artifact reaches itself along an acyclic type of \<open>T\<close>, and no parent has more children
  of a type of \<open>T\<close> than the type allows. Whatever others write, no relationship is stored twice: that
  is a constraint of the table, while cycles and children are only looked for before the flush.
\<close>

theorem links_acyclic:
  assumes "(link_step sv T)\<^sup>*\<^sup>* empty_links s"
  shows "(\<forall>t \<in> T. t \<in> set acyclic_link_types \<longrightarrow> acyclic (link_edges t (lk_rows s))) \<and> distinct (map link_key (lk_rows s))
    \<and> (\<forall>u \<in> T. \<forall>p sp mx. link_type_specs u = Some sp \<longrightarrow> sp_max_children sp = Some mx \<longrightarrow> count_children p u (lk_rows s) \<le> mx)"
  using link_steps_inv [OF assms] by (auto simp: links_session_inv_def links_inv_def)

theorem links_acyclic_witness: "acyclic (link_edges FULFILLED_BY [demo_link])"
  using links_acyclic [OF demo_reached [of UNIV]] by (simp add: acyclic_link_types_def)

text \<open>
  Stored links are well typed (L2, L5): a link in the table never joins an artifact to
  itself, its artifact types are those its link type allows, and so every query that rebuilds links
  from rows returns them without raising.
\<close>

theorem links_well_typed:
  assumes "(link_step sv T)\<^sup>*\<^sup>* empty_links s"
  shows "(\<forall>l \<in> set (lk_rows s). el_parent_ref l \<noteq> el_child_ref l
      \<and> (\<forall>sp. link_type_specs (el_link_type l) = Some sp \<longrightarrow>
           ar_type (el_parent_ref l) \<in> set (sp_valid_parent_types sp) \<and> ar_type (el_child_ref l) \<in> set (sp_valid_child_types sp)))
    \<and> get_children r types (lk_rows s) = Inr (filter (\<lambda>l. el_parent_ref l = r \<and> of_types types l) (lk_rows s))
    \<and> get_parents r types (lk_rows s) = Inr (filter (\<lambda>l. el_child_ref l = r \<and> of_types types l) (lk_rows s))"
proof -
  have v: "valid_rows (lk_rows s)" using link_steps_inv [OF assms] by (simp add: links_session_inv_def links_inv_def)
  then have "mk_economic_link l = Inr l" if "l \<in> set (lk_rows s)" for l using that by (simp add: valid_rows_def list_all_iff)
  then have "el_parent_ref l \<noteq> el_child_ref l \<and> (\<forall>sp. link_type_specs (el_link_type l) = Some sp \<longrightarrow>
      ar_type (el_parent_ref l) \<in> set (sp_valid_parent_types sp) \<and> ar_type (el_child_ref l) \<in> set (sp_valid_child_types sp))"
    if "l \<in> set (lk_rows s)" for l
    using that by (fastforce simp: mk_economic_link_def spec_validate_def split: if_splits)
  then show ?thesis using queries_valid [OF v] by blast
qed

theorem links_well_typed_witness: "get_children (demo_ref A_PURCHASE_ORDER 1) None [demo_link] = Inr [demo_link]"
  using links_well_typed [OF demo_reached, of "demo_ref A_PURCHASE_ORDER 1" None]
  by (simp add: of_types_def) (simp add: demo_link_def)

text \<open>
  Property C36. The cycle check is exact: for a new relationship of an acyclic type, with more stack
  frames than rows and one, establishing the link raises LinkCycleError if and only if the child
  already reaches the parent; the path it reports is a real chain of stored links from the child to
  the parent, with the parent repeated at its end.
\<close>

theorem cycle_check_exact:
  assumes "query_one (lv_one sv)" "(link_step sv T)\<^sup>*\<^sup>* empty_links s" "el_link_type l \<in> set acyclic_link_types"
    and "link_key l \<notin> link_key ` set (lk_rows s)" "length (lk_rows s) + 1 < lv_limit sv"
  shows "fst (establish_link sv [] l dup s) \<noteq> Inl RecursionError
    \<and> ((\<exists>path. fst (establish_link sv [] l dup s) = Inl (LinkCycleError (el_link_type l) path))
        \<longleftrightarrow> (el_child_ref l, el_parent_ref l) \<in> (link_edges (el_link_type l) (lk_rows s))\<^sup>*)
    \<and> (\<forall>path. fst (establish_link sv [] l dup s) = Inl (LinkCycleError (el_link_type l) path) \<longrightarrow>
        (\<exists>w. path = w @ [el_parent_ref l] \<and> hd w = el_child_ref l \<and> last w = el_parent_ref l
          \<and> successively (\<lambda>x y. (x, y) \<in> link_edges (el_link_type l) (lk_rows s)) w))"
proof -
  let ?rows = "lk_rows s"
  have v: "valid_rows ?rows" using link_steps_inv [OF assms(2)] by (simp add: links_session_inv_def links_inv_def)
  have "filter (\<lambda>r. el_link_type r = el_link_type l \<and> el_parent_ref r = el_parent_ref l \<and> el_child_ref r = el_child_ref l) ?rows = []"
    using assms(4) by (auto simp: filter_empty_conv link_key_def image_iff)
  then have none: "find_existing_link sv l ?rows = Inr None"
    by (simp add: find_existing_link_def find_existing_link_by_refs_def query_one.one_empty [OF assms(1)])
  obtain r where r: "detect_cycle sv l ?rows = Inr r" using detect_cycle_returns [OF v assms(5)] by blast
  show ?thesis
  proof (cases r)
    case None
    have "fst (establish_link sv [] l dup s) \<noteq> Inl e" if "e = RecursionError \<or> (\<exists>p. e = LinkCycleError (el_link_type l) p)" for e
      using that persist_errors [of sv "[]" l dup s] r None
      by (auto simp: establish_link_def none duplicate_error_def max_children_error_def Let_def split: option.splits if_splits)
    then show ?thesis using detect_cycle_None [OF v, of sv l] r None by blast
  next
    case (Some path)
    then have "fst (establish_link sv [] l dup s) = Inl (LinkCycleError (el_link_type l) path)"
      using r assms(3) by (simp add: establish_link_def none)
    then show ?thesis using detect_cycle_Some [OF v, of sv l path] r Some by auto
  qed
qed

text \<open>A second link, back from the receipt to the order, would close a cycle of derivations.\<close>

definition back_link :: economic_link where
  "back_link = demo_link\<lparr>el_link_id := 8, el_parent_ref := demo_ref A_RECEIPT 2, el_child_ref := demo_ref A_PURCHASE_ORDER 1\<rparr>"

theorem cycle_check_exact_witness:
  "\<exists>path. fst (establish_link demo_service [] back_link False (empty_links\<lparr>lk_rows := [demo_link]\<rparr>)) =
     Inl (LinkCycleError FULFILLED_BY path)"
proof -
  have "(demo_ref A_PURCHASE_ORDER 1, demo_ref A_RECEIPT 2) \<in> link_edges FULFILLED_BY [demo_link]"
    by (simp add: link_edges_def demo_link_def)
  moreover have "el_link_type back_link = FULFILLED_BY" "el_child_ref back_link = demo_ref A_PURCHASE_ORDER 1"
    "el_parent_ref back_link = demo_ref A_RECEIPT 2" by (simp_all add: back_link_def demo_link_def)
  moreover have "link_key back_link \<notin> link_key ` set (lk_rows (empty_links\<lparr>lk_rows := [demo_link]\<rparr>))"
    by (simp add: back_link_def link_key_def) (simp add: demo_link_def demo_ref_def)
  moreover have "query_one (lv_one demo_service)" by (simp add: demo_service_def soon.query_one_axioms)
  ultimately show ?thesis
    using cycle_check_exact [OF _ demo_reached [of UNIV], of back_link False]
    by (simp add: acyclic_link_types_def demo_service_def r_into_rtrancl)
qed

text \<open>
  Between the cycle check and the flush another transaction can commit the link back: both are stored, and the type has a cycle.
\<close>

definition derived :: "economic_link \<Rightarrow> economic_link" where
  "derived l = l\<lparr>el_link_type := DERIVED_FROM\<rparr>"

lemma concurrent_cycle:
  "lk_rows (snd (establish_link demo_service [derived back_link] (derived demo_link) False empty_links)) = [derived back_link, derived demo_link]"
  "foreign_rows {} [] [derived back_link]" "mk_economic_link (derived demo_link) = Inr (derived demo_link)"
  "\<not> acyclic (link_edges DERIVED_FROM [derived back_link, derived demo_link])"
proof -
  let ?p = "demo_ref A_PURCHASE_ORDER 1" and ?r = "demo_ref A_RECEIPT 2"
  have l: "el_link_type (derived demo_link) = DERIVED_FROM" "el_parent_ref (derived demo_link) = ?p" "el_child_ref (derived demo_link) = ?r"
    "el_link_type (derived back_link) = DERIVED_FROM" "el_parent_ref (derived back_link) = ?r" "el_child_ref (derived back_link) = ?p"
    "el_link_id (derived demo_link) = 7" "el_link_id (derived back_link) = 8"
    by (simp_all add: derived_def back_link_def demo_link_def)
  have ne: "?p \<noteq> ?r" by (simp add: demo_ref_def)
  have ok: "mk_economic_link (derived demo_link) = Inr (derived demo_link)" "mk_economic_link (derived back_link) = Inr (derived back_link)"
    using ne by (simp_all add: mk_economic_link_def l mk_spec_def spec_validate_def demo_ref_def all_artifact_types_def)
  have "link_from_domain (derived demo_link) = derived demo_link" by (simp add: link_from_domain_def derived_def demo_link_def)
  then have ins: "insert_link (link_from_domain (derived demo_link)) [derived back_link] = Inr [derived back_link, derived demo_link]"
    using ne by (simp add: insert_link_def l link_key_def)
  have "detect_cycle demo_service (derived demo_link) [] = Inr None"
    using ne by (simp add: detect_cycle_search valid_rows_def child_refs_def demo_service_def numeral_eq_Suc can_reach.simps(2) l)
  moreover have "max_children_error (derived demo_link) [] = None" by (simp add: max_children_error_def l mk_spec_def)
  moreover have "find_existing_link demo_service (derived demo_link) [] = Inr None"
    by (simp add: find_existing_link_def find_existing_link_by_refs_def demo_service_def)
  ultimately show "lk_rows (snd (establish_link demo_service [derived back_link] (derived demo_link) False empty_links))
      = [derived back_link, derived demo_link]"
    using ins by (simp add: establish_link_def persist_link_def empty_links_def)
  show "foreign_rows {} [] [derived back_link]" using ok(2) by (simp add: foreign_rows_def valid_rows_def)
  show "mk_economic_link (derived demo_link) = Inr (derived demo_link)" by (rule ok(1))
  have "(?p, ?r) \<in> link_edges DERIVED_FROM [derived back_link, derived demo_link]"
    "(?r, ?p) \<in> link_edges DERIVED_FROM [derived back_link, derived demo_link]" using l unfolding link_edges_def by (metis (mono_tags, lifting) list.set_intros mem_Collect_eq)+
  then show "\<not> acyclic (link_edges DERIVED_FROM [derived back_link, derived demo_link])"
    unfolding acyclic_def by (meson trancl.trancl_into_trancl r_into_trancl)
qed

text \<open>
  Walking towards the parents goes wrong below the first level: for one stored link the
  walk with depth two from the child follows the same link twice and reports a path that visits the
  parent, then the parent again, because the recursion continues at the link's child.
\<close>

theorem parents_walk_repeats:
  assumes "mk_economic_link l = Inr l"
  shows "walk_path \<lparr>lq_starting_ref = el_child_ref l, lq_link_types = None, lq_direction = Parents, lq_max_depth = 2\<rparr> [l] =
    Inr [\<lparr>lp_artifacts = [el_child_ref l, el_parent_ref l, el_parent_ref l], lp_links = [l, l]\<rparr>]"
proof -
  let ?q = "\<lparr>lq_starting_ref = el_child_ref l, lq_link_types = None, lq_direction = Parents, lq_max_depth = 2\<rparr>"
  have ne: "el_parent_ref l \<noteq> el_child_ref l" using assms by (auto simp: mk_economic_link_def split: if_splits)
  have "fetch_reachable_links ?q [l] = [l]"
    using ne by (simp add: fetch_reachable_links_def level_links_def of_types_def next_refs_def numeral_eq_Suc)
  then show ?thesis using ne assms
    by (simp add: walk_path_def build_paths_def numeral_eq_Suc adjacent_def next_ref_def link_to_domain_def mk_link_path_def)
qed

theorem parents_walk_repeats_witness:
  "walk_path \<lparr>lq_starting_ref = el_child_ref demo_link, lq_link_types = None, lq_direction = Parents, lq_max_depth = 2\<rparr> [demo_link] =
    Inr [\<lparr>lp_artifacts = [el_child_ref demo_link, el_parent_ref demo_link, el_parent_ref demo_link],
          lp_links = [demo_link, demo_link]\<rparr>]"
  by (rule parents_walk_repeats [OF demo_link_ok(1)])

end
