(* ===== verification/Hashing.thy ===== *)
theory Hashing
  imports Dtos "HOL-Library.List_Lexorder" "HOL-Library.Char_ord"
begin

text \<open>
  \<open>finance_kernel/utils/hashing.py\<close>: canonical JSON and the hashes built on it.
  \<open>json.dumps\<close> with sorted keys, no spaces and ASCII escapes is a function on JSON values;
  characters are code points below 256. SHA-256 is the parameter \<open>sha\<close>, from text to hex digits.
  Values that only \<open>_json_serializer\<close> can print (Decimal, datetime, bytes) do not occur in a JSON
  value: callers pass their text.
\<close>

section \<open>json.dumps\<close>

definition hex4 :: "nat \<Rightarrow> string" where
  "hex4 n = hex_digits 4 n"

definition escape_char :: "char \<Rightarrow> string" where
  "escape_char c =
     (if c = CHR 0x22 then [CHR 0x5C, CHR 0x22]
      else if c = CHR 0x5C then [CHR 0x5C, CHR 0x5C]
      else if c = CHR 0x0A then [CHR 0x5C, CHR ''n'']
      else if c = CHR 0x0D then [CHR 0x5C, CHR ''r'']
      else if c = CHR 0x09 then [CHR 0x5C, CHR ''t'']
      else if c = CHR 0x0C then [CHR 0x5C, CHR ''f'']
      else if c = CHR 0x08 then [CHR 0x5C, CHR ''b'']
      else if 32 \<le> (of_char c :: nat) \<and> (of_char c :: nat) \<le> 126 then [c]
      else [CHR 0x5C, CHR ''u''] @ hex4 (of_char c))"

definition quote :: "string \<Rightarrow> string" where
  "quote s = CHR 0x22 # concat (map escape_char s) @ [CHR 0x22]"

fun join :: "string \<Rightarrow> string list \<Rightarrow> string" where
  "join sep [] = []"
| "join sep [s] = s"
| "join sep (s # t # ss) = s @ sep @ join sep (t # ss)"

primrec canonicalize_json :: "json \<Rightarrow> string" where
  "canonicalize_json JNull = ''null''"
| "canonicalize_json (JBool b) = (if b then ''true'' else ''false'')"
| "canonicalize_json (JInt i) = str_of_int i"
| "canonicalize_json (JStr s) = quote s"
| "canonicalize_json (JList js) = ''['' @ join '','' (map canonicalize_json js) @ '']''"
| "canonicalize_json (JDict kvs) =
     ''{'' @ join '','' (map (\<lambda>(k, s). quote k @ '':'' @ s)
       (sort_key fst (map (map_prod id canonicalize_json) kvs))) @ ''}''"

section \<open>Hashes\<close>

definition hash_payload :: "(string \<Rightarrow> string) \<Rightarrow> (string \<times> json) list \<Rightarrow> string" where
  "hash_payload sha p = sha (canonicalize_json (JDict p))"

definition hash_audit_event ::
    "(string \<Rightarrow> string) \<Rightarrow> string \<Rightarrow> string \<Rightarrow> string \<Rightarrow> string \<Rightarrow> string option \<Rightarrow> string" where
  "hash_audit_event sha entity_type entity_id action p_hash prev_hash =
     sha (join ''|'' [entity_type, entity_id, action, p_hash,
       (case prev_hash of None \<Rightarrow> ''GENESIS'' | Some h \<Rightarrow> if h = [] then ''GENESIS'' else h)])"

definition hash_trace_bundle :: "(string \<Rightarrow> string) \<Rightarrow> (string \<times> json) list \<Rightarrow> string" where
  "hash_trace_bundle sha bundle =
     hash_payload sha (map (\<lambda>(k, v).
       if k = ''integrity''
       then (k, case v of JDict d \<Rightarrow> JDict (filter (\<lambda>(k, v). k \<noteq> ''bundle_hash'') d) | _ \<Rightarrow> v)
       else (k, v))
       (filter (\<lambda>(k, v). k \<noteq> ''generated_at'' \<and> k \<noteq> ''trace_id'') bundle))"

section \<open>The text does not depend on the order of keys\<close>

inductive same_json :: "json \<Rightarrow> json \<Rightarrow> bool" where
  same_refl: "same_json j j"
| same_list: "list_all2 same_json js js' \<Longrightarrow> same_json (JList js) (JList js')"
| same_dict: "list_all2 (\<lambda>x y. fst x = fst y \<and> same_json (snd x) (snd y)) kvs kvs' \<Longrightarrow> mset kvs' = mset kvs'' \<Longrightarrow>
     distinct (map fst kvs') \<Longrightarrow> same_json (JDict kvs) (JDict kvs'')"

lemma sort_items:
  assumes "mset kvs = mset kvs'" "distinct (map fst kvs)"
  shows "sort_key fst kvs = sort_key fst (kvs' :: (string \<times> 'a) list)"
proof (rule sort_key_inj_key_eq)
  show "mset kvs = mset (sort_key fst kvs')" using assms(1) by simp
  show "inj_on fst (set kvs)" using assms(2) by (simp add: distinct_map)
qed simp

lemma canonicalize_same: "same_json a b \<Longrightarrow> canonicalize_json a = canonicalize_json b"
proof (induction rule: same_json.induct)
  case (same_list js js')
  then have "map canonicalize_json js = map canonicalize_json js'"
    by (induction rule: list_all2_induct) auto
  then show ?case by simp
next
  case (same_dict kvs kvs' kvs'')
  let ?f = "map (map_prod id canonicalize_json)"
  have "?f kvs = ?f kvs'" using same_dict(1) by (induction rule: list_all2_induct) auto
  moreover have "sort_key fst (?f kvs') = sort_key fst (?f kvs'')"
  proof (rule sort_items)
    show "mset (?f kvs') = mset (?f kvs'')" using same_dict(2) by (metis mset_map)
    show "distinct (map fst (?f kvs'))" using same_dict(3) by (simp add: comp_def)
  qed
  ultimately show ?case by simp
qed simp

lemma hash_trace_bundle_volatile:
  assumes "k = ''generated_at'' \<or> k = ''trace_id''"
  shows "hash_trace_bundle sha ((k, v) # bundle) = hash_trace_bundle sha bundle"
  using assms by (auto simp: hash_trace_bundle_def)

section \<open>Properties\<close>

text \<open>
  A payload's hash is a function of its content: two payloads that differ only in
  the order of the keys of their dictionaries, at any depth, have the same canonical text and the
  same hash.
\<close>

theorem hash_payload_order:
  assumes "same_json (JDict p) (JDict q)"
  shows "hash_payload sha p = hash_payload sha q"
  using canonicalize_same [OF assms] by (simp add: hash_payload_def)

theorem hash_payload_order_witness:
  "hash_payload id [(''a'', JInt 1), (''b'', JDict [(''x'', JNull), (''y'', JBool True)])] =
   hash_payload id [(''b'', JDict [(''y'', JBool True), (''x'', JNull)]), (''a'', JInt 1)]"
proof (rule hash_payload_order, rule same_dict)
  have "same_json (JDict [(''x'', JNull), (''y'', JBool True)]) (JDict [(''y'', JBool True), (''x'', JNull)])"
    by (rule same_dict [where kvs' = "[(''x'', JNull), (''y'', JBool True)]"]) (auto simp: same_refl)
  then show "list_all2 (\<lambda>x y. fst x = fst y \<and> same_json (snd x) (snd y))
      [(''a'', JInt 1), (''b'', JDict [(''x'', JNull), (''y'', JBool True)])]
      [(''a'', JInt 1), (''b'', JDict [(''y'', JBool True), (''x'', JNull)])]" by (simp add: same_refl)
qed auto

end
