(* ===== verification/Audit_Chain.thy ===== *)
theory Audit_Chain
  imports Hashing Sequence_Service
begin

text \<open>
  \<open>finance_kernel/services/auditor_service.py\<close> and \<open>models/audit_event.py\<close>: the append-only
  audit log with its hash chain (R11).

  The auditor holds two things that are not in the code: SQLAlchemy's \<open>scalar_one_or_none\<close> and
  SHA-256. The environment of a call is the clock reading and a concurrent creation of the
  sequence counter. Audit rows have a unique \<open>seq\<close>; the row id is not modelled. An exception has
  no state, its caller rolls back.

  The lemmas show that every log the service writes validates, what a validating log determines up
  to collisions of the hash, and which fields validation does not look at.
\<close>

section \<open>Rows\<close>

datatype audit_action =
    EVENT_INGESTED
  | EVENT_REJECTED
  | JOURNAL_DRAFT_CREATED
  | JOURNAL_POSTED
  | JOURNAL_REVERSED
  | PERIOD_OPENED
  | PERIOD_CLOSED
  | PERIOD_VIOLATION
  | PROTOCOL_VIOLATION
  | PAYLOAD_MISMATCH
  | VALIDATION_FAILURE
  | CLOSE_BEGUN
  | SUBLEDGER_CLOSED
  | CLOSE_CERTIFIED
  | CLOSE_CANCELLED
  | ACCOUNT_CREATED
  | ACCOUNT_DEACTIVATED
  | APPROVAL_REQUESTED
  | APPROVAL_GRANTED
  | APPROVAL_REJECTED
  | APPROVAL_ESCALATED
  | APPROVAL_AUTO_APPROVED
  | APPROVAL_EXPIRED
  | APPROVAL_CANCELLED
  | APPROVAL_POLICY_DRIFT
  | APPROVAL_TAMPER_DETECTED
  | IMPORT_BATCH_CREATED
  | IMPORT_BATCH_VALIDATED
  | IMPORT_RECORD_PROMOTED
  | IMPORT_RECORD_REJECTED
  | IMPORT_BATCH_COMPLETED
  | BATCH_JOB_STARTED
  | BATCH_JOB_COMPLETED
  | BATCH_JOB_FAILED
  | BATCH_JOB_CANCELLED
  | BATCH_ITEM_FAILED
  | SCHEDULE_TRIGGERED
  | LIFECYCLE_CHECK_PASSED
  | LIFECYCLE_CHECK_FAILED
  | LIFECYCLE_CHECK_WARNING

fun action_value :: "audit_action \<Rightarrow> string" where
  "action_value EVENT_INGESTED = ''event_ingested''"
| "action_value EVENT_REJECTED = ''event_rejected''"
| "action_value JOURNAL_DRAFT_CREATED = ''journal_draft_created''"
| "action_value JOURNAL_POSTED = ''journal_posted''"
| "action_value JOURNAL_REVERSED = ''journal_reversed''"
| "action_value PERIOD_OPENED = ''period_opened''"
| "action_value PERIOD_CLOSED = ''period_closed''"
| "action_value PERIOD_VIOLATION = ''period_violation''"
| "action_value PROTOCOL_VIOLATION = ''protocol_violation''"
| "action_value PAYLOAD_MISMATCH = ''payload_mismatch''"
| "action_value VALIDATION_FAILURE = ''validation_failure''"
| "action_value CLOSE_BEGUN = ''close_begun''"
| "action_value SUBLEDGER_CLOSED = ''subledger_closed''"
| "action_value CLOSE_CERTIFIED = ''close_certified''"
| "action_value CLOSE_CANCELLED = ''close_cancelled''"
| "action_value ACCOUNT_CREATED = ''account_created''"
| "action_value ACCOUNT_DEACTIVATED = ''account_deactivated''"
| "action_value APPROVAL_REQUESTED = ''approval_requested''"
| "action_value APPROVAL_GRANTED = ''approval_granted''"
| "action_value APPROVAL_REJECTED = ''approval_rejected''"
| "action_value APPROVAL_ESCALATED = ''approval_escalated''"
| "action_value APPROVAL_AUTO_APPROVED = ''approval_auto_approved''"
| "action_value APPROVAL_EXPIRED = ''approval_expired''"
| "action_value APPROVAL_CANCELLED = ''approval_cancelled''"
| "action_value APPROVAL_POLICY_DRIFT = ''approval_policy_version_drift''"
| "action_value APPROVAL_TAMPER_DETECTED = ''approval_tamper_detected''"
| "action_value IMPORT_BATCH_CREATED = ''import_batch_created''"
| "action_value IMPORT_BATCH_VALIDATED = ''import_batch_validated''"
| "action_value IMPORT_RECORD_PROMOTED = ''import_record_promoted''"
| "action_value IMPORT_RECORD_REJECTED = ''import_record_rejected''"
| "action_value IMPORT_BATCH_COMPLETED = ''import_batch_completed''"
| "action_value BATCH_JOB_STARTED = ''batch_job_started''"
| "action_value BATCH_JOB_COMPLETED = ''batch_job_completed''"
| "action_value BATCH_JOB_FAILED = ''batch_job_failed''"
| "action_value BATCH_JOB_CANCELLED = ''batch_job_cancelled''"
| "action_value BATCH_ITEM_FAILED = ''batch_item_failed''"
| "action_value SCHEDULE_TRIGGERED = ''schedule_triggered''"
| "action_value LIFECYCLE_CHECK_PASSED = ''lifecycle_check_passed''"
| "action_value LIFECYCLE_CHECK_FAILED = ''lifecycle_check_failed''"
| "action_value LIFECYCLE_CHECK_WARNING = ''lifecycle_check_warning''"

record audit_event =
  ae_seq :: int
  ae_entity_type :: string
  ae_entity_id :: uuid
  ae_action :: audit_action
  ae_actor_id :: uuid
  ae_occurred_at :: int
  ae_payload :: "(string \<times> json) list"
  ae_payload_hash :: string
  ae_prev_hash :: "string option"
  ae_hash :: string

definition is_genesis :: "audit_event \<Rightarrow> bool" where
  "is_genesis e \<longleftrightarrow> ae_prev_hash e = None"

record audit_db =
  ad_events :: "audit_event list"
  ad_counters :: counters

record auditor =
  au_one :: "audit_event list \<Rightarrow> py_exc + audit_event option"
  au_sha :: "string \<Rightarrow> string"

record audit_env =
  av_now :: int
  av_race :: "int option"

datatype audit_exc = AuditPy py_exc | AuditChainBrokenError string string

definition ap :: "py_exc + 'a \<Rightarrow> audit_exc + 'a" where
  "ap = map_sum AuditPy id"

section \<open>Creating events\<close>

definition get_last_hash :: "auditor \<Rightarrow> audit_db \<Rightarrow> py_exc + string option" where
  "get_last_hash au db = rmap (map_option ae_hash) (au_one au (take 1 (rev (sort_key ae_seq (ad_events db)))))"

definition insert_audit_event :: "audit_event \<Rightarrow> audit_db \<Rightarrow> py_exc + audit_db" where
  "insert_audit_event e db =
     (if list_ex (\<lambda>r. ae_seq r = ae_seq e) (ad_events db) then Inl IntegrityError
      else Inr (db\<lparr>ad_events := ad_events db @ [e]\<rparr>))"

definition create_audit_event ::
    "auditor \<Rightarrow> audit_env \<Rightarrow> string \<Rightarrow> uuid \<Rightarrow> audit_action \<Rightarrow> uuid \<Rightarrow> (string \<times> json) list \<Rightarrow> audit_db
     \<Rightarrow> audit_exc + audit_event \<times> audit_db" where
  "create_audit_event au env etype eid action actor data db =
     rbind (ap (next_value (av_race env) AUDIT_EVENT (ad_counters db))) (\<lambda>(sq, cs).
       if \<not> sq > 0 then Inl (AuditPy AssertionError)
       else let db1 = db\<lparr>ad_counters := cs\<rparr>
            in rbind (ap (get_last_hash au db1)) (\<lambda>prev.
               let ph = hash_payload (au_sha au) data;
                   h = hash_audit_event (au_sha au) etype (uuid_str eid) (action_value action) ph prev
               in if h = [] then Inl (AuditPy AssertionError)
                  else let e = \<lparr>ae_seq = sq, ae_entity_type = etype, ae_entity_id = eid, ae_action = action,
                                ae_actor_id = actor, ae_occurred_at = av_now env, ae_payload = data,
                                ae_payload_hash = ph, ae_prev_hash = prev, ae_hash = h\<rparr>
                       in rmap (Pair e) (ap (insert_audit_event e db1))))"

type_synonym audit_op = "audit_db \<Rightarrow> audit_exc + audit_event \<times> audit_db"

definition record_event_ingested :: "auditor \<Rightarrow> audit_env \<Rightarrow> uuid \<Rightarrow> string \<Rightarrow> string \<Rightarrow> uuid \<Rightarrow> audit_op" where
  "record_event_ingested au env eid etype source actor =
     create_audit_event au env ''Event'' eid EVENT_INGESTED actor
       [(''event_type'', JStr etype), (''producer'', JStr source)]"

definition record_event_rejected :: "auditor \<Rightarrow> audit_env \<Rightarrow> uuid \<Rightarrow> string \<Rightarrow> uuid \<Rightarrow> audit_op" where
  "record_event_rejected au env eid reason actor =
     create_audit_event au env ''Event'' eid EVENT_REJECTED actor
       [(''reason'', JStr reason)]"

definition record_posting :: "auditor \<Rightarrow> audit_env \<Rightarrow> uuid \<Rightarrow> uuid \<Rightarrow> string \<Rightarrow> int \<Rightarrow> uuid \<Rightarrow> int \<Rightarrow> audit_op" where
  "record_posting au env entry eid etype eff actor n =
     create_audit_event au env ''JournalEntry'' entry JOURNAL_POSTED actor
       [(''event_id'', JStr (uuid_str eid)), (''event_type'', JStr etype), (''effective_date'',
        JStr (str_of_date eff)), (''line_count'', JInt n)]"

definition record_reversal :: "auditor \<Rightarrow> audit_env \<Rightarrow> uuid \<Rightarrow> uuid \<Rightarrow> string \<Rightarrow> uuid \<Rightarrow> audit_op" where
  "record_reversal au env entry orig reason actor =
     create_audit_event au env ''JournalEntry'' entry JOURNAL_REVERSED actor
       [(''original_entry_id'', JStr (uuid_str orig)), (''reason'', JStr reason)]"

definition record_period_closed :: "auditor \<Rightarrow> audit_env \<Rightarrow> uuid \<Rightarrow> string \<Rightarrow> uuid \<Rightarrow> audit_op" where
  "record_period_closed au env pid code actor =
     create_audit_event au env ''FiscalPeriod'' pid PERIOD_CLOSED actor
       [(''period_code'', JStr code)]"

definition record_period_violation :: "auditor \<Rightarrow> audit_env \<Rightarrow> uuid \<Rightarrow> string \<Rightarrow> int \<Rightarrow> uuid \<Rightarrow> audit_op" where
  "record_period_violation au env pid code eff actor =
     create_audit_event au env ''FiscalPeriod'' pid PERIOD_VIOLATION actor
       [(''period_code'', JStr code), (''effective_date'', JStr (str_of_date eff))]"

definition record_close_begun :: "auditor \<Rightarrow> audit_env \<Rightarrow> uuid \<Rightarrow> string \<Rightarrow> uuid \<Rightarrow> string \<Rightarrow> audit_op" where
  "record_close_begun au env pid code actor corr =
     create_audit_event au env ''FiscalPeriod'' pid CLOSE_BEGUN actor
       [(''period_code'', JStr code), (''correlation_id'', JStr corr)]"

definition record_subledger_closed :: "auditor \<Rightarrow> audit_env \<Rightarrow> uuid \<Rightarrow> string \<Rightarrow> string \<Rightarrow> uuid \<Rightarrow> audit_op" where
  "record_subledger_closed au env pid code sub actor =
     create_audit_event au env ''SubledgerClose'' pid SUBLEDGER_CLOSED actor
       [(''period_code'', JStr code), (''subledger_type'', JStr sub)]"

definition record_close_cancelled :: "auditor \<Rightarrow> audit_env \<Rightarrow> uuid \<Rightarrow> string \<Rightarrow> uuid \<Rightarrow> string \<Rightarrow> audit_op" where
  "record_close_cancelled au env pid code actor reason =
     create_audit_event au env ''FiscalPeriod'' pid CLOSE_CANCELLED actor
       [(''period_code'', JStr code), (''reason'', JStr reason)]"

definition record_import_batch_created :: "auditor \<Rightarrow> audit_env \<Rightarrow> uuid \<Rightarrow> uuid \<Rightarrow> string \<Rightarrow> int \<Rightarrow> string \<Rightarrow> string \<Rightarrow> int \<Rightarrow> audit_op" where
  "record_import_batch_created au env bid actor nm ver mh file cnt =
     create_audit_event au env ''ImportBatch'' bid IMPORT_BATCH_CREATED actor
       [(''mapping_name'', JStr nm), (''mapping_version'', JInt ver), (''mapping_hash'', JStr mh),
        (''source_filename'', JStr file), (''total_records'', JInt cnt)]"

definition record_import_batch_validated :: "auditor \<Rightarrow> audit_env \<Rightarrow> uuid \<Rightarrow> uuid \<Rightarrow> int \<Rightarrow> int \<Rightarrow> int \<Rightarrow> audit_op" where
  "record_import_batch_validated au env bid actor valid invalid ms =
     create_audit_event au env ''ImportBatch'' bid IMPORT_BATCH_VALIDATED actor
       [(''valid_records'', JInt valid), (''invalid_records'', JInt invalid),
        (''validation_duration_ms'', JInt ms)]"

definition record_import_record_promoted :: "auditor \<Rightarrow> audit_env \<Rightarrow> uuid \<Rightarrow> uuid \<Rightarrow> int \<Rightarrow> string \<Rightarrow> uuid \<Rightarrow> uuid \<Rightarrow> audit_op" where
  "record_import_record_promoted au env rid bid row etype pid actor =
     create_audit_event au env ''ImportRecord'' rid IMPORT_RECORD_PROMOTED actor
       [(''batch_id'', JStr (uuid_str bid)), (''source_row'', JInt row), (''entity_type'', JStr
        etype), (''promoted_entity_id'', JStr (uuid_str pid)), (''promoted_entity_type'', JStr
        etype)]"

definition record_import_batch_completed :: "auditor \<Rightarrow> audit_env \<Rightarrow> uuid \<Rightarrow> uuid \<Rightarrow> int \<Rightarrow> int \<Rightarrow> int \<Rightarrow> int \<Rightarrow> audit_op" where
  "record_import_batch_completed au env bid actor promoted failed skipped ms =
     create_audit_event au env ''ImportBatch'' bid IMPORT_BATCH_COMPLETED actor
       [(''promoted'', JInt promoted), (''failed'', JInt failed), (''skipped'', JInt skipped),
        (''total_duration_ms'', JInt ms)]"

definition record_batch_job_started :: "auditor \<Rightarrow> audit_env \<Rightarrow> uuid \<Rightarrow> string \<Rightarrow> string \<Rightarrow> int \<Rightarrow> uuid \<Rightarrow> string option \<Rightarrow> audit_op" where
  "record_batch_job_started au env jid nm task cnt actor corr =
     create_audit_event au env ''BatchJob'' jid BATCH_JOB_STARTED actor
       [(''job_name'', JStr nm), (''task_type'', JStr task), (''total_items'', JInt cnt),
        (''correlation_id'', (case corr of None \<Rightarrow> JNull | Some c \<Rightarrow> JStr
        c))]"

definition record_batch_job_completed :: "auditor \<Rightarrow> audit_env \<Rightarrow> uuid \<Rightarrow> string \<Rightarrow> int \<Rightarrow> int \<Rightarrow> int \<Rightarrow> int \<Rightarrow> uuid \<Rightarrow> audit_op" where
  "record_batch_job_completed au env jid nm ok failed skipped ms actor =
     create_audit_event au env ''BatchJob'' jid BATCH_JOB_COMPLETED actor
       [(''job_name'', JStr nm), (''succeeded'', JInt ok), (''failed'', JInt failed),
        (''skipped'', JInt skipped), (''duration_ms'', JInt ms)]"

definition record_batch_job_failed :: "auditor \<Rightarrow> audit_env \<Rightarrow> uuid \<Rightarrow> string \<Rightarrow> string \<Rightarrow> uuid \<Rightarrow> audit_op" where
  "record_batch_job_failed au env jid nm err actor =
     create_audit_event au env ''BatchJob'' jid BATCH_JOB_FAILED actor
       [(''job_name'', JStr nm), (''error_summary'', JStr err)]"

definition record_batch_job_cancelled :: "auditor \<Rightarrow> audit_env \<Rightarrow> uuid \<Rightarrow> string \<Rightarrow> string \<Rightarrow> uuid \<Rightarrow> audit_op" where
  "record_batch_job_cancelled au env jid nm reason actor =
     create_audit_event au env ''BatchJob'' jid BATCH_JOB_CANCELLED actor
       [(''job_name'', JStr nm), (''reason'', JStr reason)]"

definition record_batch_item_failed :: "auditor \<Rightarrow> audit_env \<Rightarrow> uuid \<Rightarrow> string \<Rightarrow> string \<Rightarrow> string \<Rightarrow> int \<Rightarrow> uuid \<Rightarrow> audit_op" where
  "record_batch_item_failed au env jid item code msg retries actor =
     create_audit_event au env ''BatchJob'' jid BATCH_ITEM_FAILED actor
       [(''item_key'', JStr item), (''error_code'', JStr code), (''error_message'', JStr msg),
        (''retry_count'', JInt retries)]"

text \<open>
  The certificate's entries follow the period code in the payload; an entry with that key replaces
  its value, as the dict display does.
\<close>

definition merge_dict :: "(string \<times> json) list \<Rightarrow> (string \<times> json) list \<Rightarrow> (string \<times> json) list" where
  "merge_dict d d' = foldl (\<lambda>d (k, v).
     if map_of d k = None then d @ [(k, v)] else map (\<lambda>(k', v'). (k', if k' = k then v else v')) d) d d'"

definition record_close_certified ::
    "auditor \<Rightarrow> audit_env \<Rightarrow> uuid \<Rightarrow> string \<Rightarrow> uuid \<Rightarrow> (string \<times> json) list \<Rightarrow> audit_op" where
  "record_close_certified au env pid code actor cert =
     create_audit_event au env ''FiscalPeriod'' pid CLOSE_CERTIFIED actor
       (merge_dict [(''period_code'', JStr code)] cert)"

definition record_lifecycle_check ::
    "auditor \<Rightarrow> audit_env \<Rightarrow> uuid \<Rightarrow> string \<Rightarrow> string \<Rightarrow> int \<Rightarrow> int \<Rightarrow> int \<Rightarrow> int \<Rightarrow> string list \<Rightarrow> uuid
     \<Rightarrow> json list option \<Rightarrow> audit_op" where
  "record_lifecycle_check au env rid rtype status nodes edges errors warnings checks actor findings =
     create_audit_event au env rtype rid
       (if status = ''passed'' then LIFECYCLE_CHECK_PASSED
        else if status = ''failed'' then LIFECYCLE_CHECK_FAILED
        else if status = ''warning'' then LIFECYCLE_CHECK_WARNING
        else LIFECYCLE_CHECK_FAILED) actor
       [(''status'', JStr status), (''nodes_checked'', JInt nodes), (''edges_checked'', JInt edges),
        (''error_count'', JInt errors), (''warning_count'', JInt warnings),
        (''checks_performed'', JList (map JStr checks)),
        (''findings_summary'', JList (case findings of None \<Rightarrow> [] | Some fs \<Rightarrow> fs))]"

section \<open>Validation and queries\<close>

definition expected_hash :: "auditor \<Rightarrow> audit_event \<Rightarrow> string" where
  "expected_hash au e =
     hash_audit_event (au_sha au) (ae_entity_type e) (uuid_str (ae_entity_id e)) (action_value (ae_action e))
       (ae_payload_hash e) (ae_prev_hash e)"

fun validate_links :: "auditor \<Rightarrow> audit_event option \<Rightarrow> audit_event list \<Rightarrow> audit_exc + bool" where
  "validate_links au prev [] = Inr True"
| "validate_links au prev (e # es) =
     (if ae_hash e \<noteq> expected_hash au e then Inl (AuditChainBrokenError (expected_hash au e) (ae_hash e))
      else if (case prev of None \<Rightarrow> False | Some p \<Rightarrow> ae_prev_hash e \<noteq> Some (ae_hash p))
      then Inl (AuditChainBrokenError (ae_hash (the prev))
             (case ae_prev_hash e of None \<Rightarrow> ''None'' | Some h \<Rightarrow> if h = [] then ''None'' else h))
      else validate_links au (Some e) es)"

definition validate_chain :: "auditor \<Rightarrow> audit_db \<Rightarrow> audit_exc + bool" where
  "validate_chain au db =
     (case sort_key ae_seq (ad_events db) of
        [] \<Rightarrow> Inr True
      | e # es \<Rightarrow>
          (case ae_prev_hash e of
             Some h \<Rightarrow> Inl (AuditChainBrokenError ''None'' h)
           | None \<Rightarrow> validate_links au None (e # es)))"

record audit_trace_entry =
  at_seq :: int
  at_action :: audit_action
  at_occurred_at :: int
  at_actor_id :: uuid
  at_payload :: "(string \<times> json) list"
  at_hash :: string

record audit_trace =
  tr_entity_type :: string
  tr_entity_id :: uuid
  tr_entries :: "audit_trace_entry list"

definition tr_is_empty :: "audit_trace \<Rightarrow> bool" where
  "tr_is_empty t \<longleftrightarrow> length (tr_entries t) = 0"

definition tr_first_action :: "audit_trace \<Rightarrow> audit_action option" where
  "tr_first_action t = (case tr_entries t of [] \<Rightarrow> None | e # _ \<Rightarrow> Some (at_action e))"

definition tr_last_action :: "audit_trace \<Rightarrow> audit_action option" where
  "tr_last_action t = (if tr_entries t = [] then None else Some (at_action (last (tr_entries t))))"

definition get_trace :: "string \<Rightarrow> uuid \<Rightarrow> audit_db \<Rightarrow> audit_trace" where
  "get_trace etype eid db =
     \<lparr>tr_entity_type = etype, tr_entity_id = eid,
      tr_entries = map (\<lambda>e. \<lparr>at_seq = ae_seq e, at_action = ae_action e, at_occurred_at = ae_occurred_at e,
          at_actor_id = ae_actor_id e, at_payload = ae_payload e, at_hash = ae_hash e\<rparr>)
        (sort_key ae_seq (filter (\<lambda>e. ae_entity_type e = etype \<and> ae_entity_id e = eid) (ad_events db)))\<rparr>"

definition get_recent_events :: "nat \<Rightarrow> audit_db \<Rightarrow> audit_event list" where
  "get_recent_events limit db = take limit (rev (sort_key ae_seq (ad_events db)))"

section \<open>Action names\<close>

definition all_actions :: "audit_action list" where
  "all_actions =
     [EVENT_INGESTED, EVENT_REJECTED, JOURNAL_DRAFT_CREATED, JOURNAL_POSTED, JOURNAL_REVERSED,
      PERIOD_OPENED, PERIOD_CLOSED, PERIOD_VIOLATION, PROTOCOL_VIOLATION, PAYLOAD_MISMATCH,
      VALIDATION_FAILURE, CLOSE_BEGUN, SUBLEDGER_CLOSED, CLOSE_CERTIFIED, CLOSE_CANCELLED,
      ACCOUNT_CREATED, ACCOUNT_DEACTIVATED, APPROVAL_REQUESTED, APPROVAL_GRANTED, APPROVAL_REJECTED,
      APPROVAL_ESCALATED, APPROVAL_AUTO_APPROVED, APPROVAL_EXPIRED, APPROVAL_CANCELLED,
      APPROVAL_POLICY_DRIFT, APPROVAL_TAMPER_DETECTED, IMPORT_BATCH_CREATED, IMPORT_BATCH_VALIDATED,
      IMPORT_RECORD_PROMOTED, IMPORT_RECORD_REJECTED, IMPORT_BATCH_COMPLETED, BATCH_JOB_STARTED,
      BATCH_JOB_COMPLETED, BATCH_JOB_FAILED, BATCH_JOB_CANCELLED, BATCH_ITEM_FAILED,
      SCHEDULE_TRIGGERED, LIFECYCLE_CHECK_PASSED, LIFECYCLE_CHECK_FAILED, LIFECYCLE_CHECK_WARNING]"

lemma all_actions_complete: "a \<in> set all_actions"
  by (cases a) (simp_all add: all_actions_def)

lemma action_value_facts:
  "distinct (map action_value all_actions)" "list_all (\<lambda>a. CHR ''|'' \<notin> set (action_value a)) all_actions"
  by code_simp+

lemma action_value_inj: "action_value a = action_value b \<Longrightarrow> a = b"
  using action_value_facts(1) all_actions_complete by (auto simp: distinct_map inj_on_def)

lemma action_value_clean: "CHR ''|'' \<notin> set (action_value a)"
  using action_value_facts(2) all_actions_complete by (auto simp: list_all_iff)

section \<open>Chains\<close>

lemma ap_simps [simp]:
  "ap r = Inr x \<longleftrightarrow> r = Inr x" "ap (Inr x) = Inr x" "ap (Inl e) = Inl (AuditPy e)"
  by (cases r; auto simp: ap_def)+

lemma validate_links_snoc:
  "validate_links au p (es @ [e]) = Inr True \<longleftrightarrow> validate_links au p es = Inr True \<and> ae_hash e = expected_hash au e
     \<and> (case (if es = [] then p else Some (last es)) of None \<Rightarrow> True | Some q \<Rightarrow> ae_prev_hash e = Some (ae_hash q))"
  by (induction es arbitrary: p) (auto split: option.splits)

definition chained :: "auditor \<Rightarrow> audit_event list \<Rightarrow> bool" where
  "chained au es \<longleftrightarrow> validate_links au None es = Inr True \<and> (case es of [] \<Rightarrow> True | e # _ \<Rightarrow> ae_prev_hash e = None)"

lemma chained_snoc:
  "chained au (es @ [e]) \<longleftrightarrow> chained au es \<and> ae_hash e = expected_hash au e
     \<and> ae_prev_hash e = (if es = [] then None else Some (ae_hash (last es)))"
  unfolding chained_def validate_links_snoc by (cases es) (auto split: option.splits)

lemma chained_Nil [simp]: "chained au []"
  by (simp add: chained_def)

lemma validate_chain_iff: "validate_chain au db = Inr True \<longleftrightarrow> chained au (sort_key ae_seq (ad_events db))"
  by (auto simp: validate_chain_def chained_def split: list.split option.split)

definition audit_inv :: "auditor \<Rightarrow> audit_db \<Rightarrow> bool" where
  "audit_inv au db \<longleftrightarrow> sorted_wrt (<) (map ae_seq (ad_events db)) \<and> chained au (ad_events db)
     \<and> (\<forall>e \<in> set (ad_events db). ae_seq e \<le> counter_value (ad_counters db) AUDIT_EVENT)"

lemma sorted_events: "audit_inv au db \<Longrightarrow> sort_key ae_seq (ad_events db) = ad_events db"
  by (rule sort_key_id_if_sorted) (simp add: audit_inv_def strict_sorted_imp_sorted)

interpretation by_seq: unique_table insert_audit_event ad_events ae_seq
  by unfold_locales (auto simp: insert_audit_event_def list_ex_iff split: if_splits)

lemma get_last_hash_inv:
  assumes "query_one (au_one au)" "audit_inv au db"
  shows "get_last_hash au db = Inr (if ad_events db = [] then None else Some (ae_hash (last (ad_events db))))"
  unfolding get_last_hash_def sorted_events [OF assms(2)]
  using query_one.one_empty [OF assms(1)] query_one.one_single [OF assms(1)]
  by (cases "ad_events db" rule: rev_cases) simp_all

lemma create_audit_event_inv:
  assumes q: "query_one (au_one au)" and inv: "audit_inv au db"
    and c: "create_audit_event au env etype eid action actor data db = Inr (e, db')"
  shows "audit_inv au db'" "ad_events db' = ad_events db @ [e]" "ae_entity_type e = etype" "ae_entity_id e = eid"
    "ae_action e = action" "ae_actor_id e = actor" "ae_payload e = data"
proof -
  obtain sq cs where n: "next_value (av_race env) AUDIT_EVENT (ad_counters db) = Inr (sq, cs)" "0 < sq"
    and rest: "rbind (ap (get_last_hash au (db\<lparr>ad_counters := cs\<rparr>))) (\<lambda>prev.
      let ph = hash_payload (au_sha au) data; h = hash_audit_event (au_sha au) etype (uuid_str eid) (action_value action) ph prev
      in if h = [] then Inl (AuditPy AssertionError)
         else let e = \<lparr>ae_seq = sq, ae_entity_type = etype, ae_entity_id = eid, ae_action = action,
                       ae_actor_id = actor, ae_occurred_at = av_now env, ae_payload = data,
                       ae_payload_hash = ph, ae_prev_hash = prev, ae_hash = h\<rparr>
              in rmap (Pair e) (ap (insert_audit_event e (db\<lparr>ad_counters := cs\<rparr>)))) = Inr (e, db')"
    using c by (auto simp: create_audit_event_def result_iffs Let_def split: if_splits)
  have v: "counter_value (ad_counters db) AUDIT_EVENT < sq" "counter_value cs AUDIT_EVENT = sq"
    using seqs.nxt_greater [OF n(1)] seqs.nxt_val [OF n(1)] by auto
  have inv': "audit_inv au (db\<lparr>ad_counters := cs\<rparr>)" using inv v by (auto simp: audit_inv_def)
  define prev where "prev = (if ad_events db = [] then None else Some (ae_hash (last (ad_events db))))"
  have last: "get_last_hash au (db\<lparr>ad_counters := cs\<rparr>) = Inr prev"
    using get_last_hash_inv [OF q inv'] by (simp add: prev_def)
  have e: "ae_seq e = sq" "ae_prev_hash e = prev" "ae_hash e = expected_hash au e" "ae_entity_type e = etype"
      "ae_entity_id e = eid" "ae_action e = action" "ae_actor_id e = actor" "ae_payload e = data"
    and ins: "insert_audit_event e (db\<lparr>ad_counters := cs\<rparr>) = Inr db'"
    using rest last by (auto simp: Let_def result_iffs expected_hash_def split: if_splits)
  have db': "ad_events db' = ad_events db @ [e]" using by_seq.ins_rows [OF ins] by simp
  moreover have "ad_counters db' = cs" using ins by (auto simp: insert_audit_event_def split: if_splits)
  moreover have "\<forall>r \<in> set (ad_events db). ae_seq r < sq" using inv v by (auto simp: audit_inv_def)
  moreover have "chained au (ad_events db @ [e])" using inv e by (simp add: chained_snoc audit_inv_def prev_def)
  ultimately show "audit_inv au db'"
    using inv e(1) v by (auto simp: audit_inv_def sorted_wrt_append)
  show "ad_events db' = ad_events db @ [e]" "ae_entity_type e = etype" "ae_entity_id e = eid"
    "ae_action e = action" "ae_actor_id e = actor" "ae_payload e = data" by (fact db' e)+
qed

section \<open>Runs\<close>

text \<open>Every recording method is a call of \<open>create_audit_event\<close>, so a run is a sequence of such calls.\<close>

inductive audit_step :: "auditor \<Rightarrow> audit_db \<Rightarrow> audit_db \<Rightarrow> bool" for au where
  audit_stepI: "create_audit_event au env etype eid action actor data db = Inr (e, db') \<Longrightarrow> audit_step au db db'"

definition empty_audit :: audit_db where
  "empty_audit = \<lparr>ad_events = [], ad_counters = Map.empty\<rparr>"

lemma audit_steps_inv:
  assumes "query_one (au_one au)" "(audit_step au)\<^sup>*\<^sup>* db db'" "audit_inv au db"
  shows "audit_inv au db' \<and> (\<exists>es. ad_events db' = ad_events db @ es)"
  using assms(2)
proof (induction rule: rtranclp_induct)
  case (step t u)
  from step(2) show ?case
  proof cases
    case (audit_stepI env etype eid action actor data e)
    then show ?thesis using create_audit_event_inv(1,2) [OF assms(1) _ audit_stepI] step.IH by auto
  qed
qed (use assms(3) in simp)

lemma audit_inv_empty: "audit_inv au empty_audit"
  by (simp add: audit_inv_def empty_audit_def)

section \<open>What a chain determines\<close>

definition audit_text :: "audit_event \<Rightarrow> string" where
  "audit_text e = join ''|'' [ae_entity_type e, uuid_str (ae_entity_id e), action_value (ae_action e), ae_payload_hash e,
     (case ae_prev_hash e of None \<Rightarrow> ''GENESIS'' | Some h \<Rightarrow> if h = [] then ''GENESIS'' else h)]"

definition covered :: "audit_event \<Rightarrow> string \<times> uuid \<times> audit_action \<times> string \<times> string option \<times> string" where
  "covered e = (ae_entity_type e, ae_entity_id e, ae_action e, ae_payload_hash e, ae_prev_hash e, ae_hash e)"

definition clean_event :: "audit_event \<Rightarrow> bool" where
  "clean_event e \<longleftrightarrow> CHR ''|'' \<notin> set (ae_entity_type e) \<and> CHR ''|'' \<notin> set (ae_payload_hash e)"

lemma expected_hash_text: "expected_hash au e = au_sha au (audit_text e)"
  by (simp add: expected_hash_def audit_text_def hash_audit_event_def)

lemma split_front: "xs @ c # ys = xs' @ c # ys' \<Longrightarrow> c \<notin> set xs \<Longrightarrow> c \<notin> set xs' \<Longrightarrow> xs = xs' \<and> ys = ys'"
proof (induction xs arbitrary: xs')
  case Nil
  then show ?case by (cases xs') auto
next
  case (Cons x xs)
  then show ?case by (cases xs') auto
qed

lemma audit_text_inj:
  assumes "audit_text e = audit_text f" "clean_event e" "clean_event f"
  shows "ae_entity_type e = ae_entity_type f \<and> ae_entity_id e = ae_entity_id f \<and> ae_action e = ae_action f
    \<and> ae_payload_hash e = ae_payload_hash f
    \<and> (case ae_prev_hash e of None \<Rightarrow> ''GENESIS'' | Some h \<Rightarrow> if h = [] then ''GENESIS'' else h) =
      (case ae_prev_hash f of None \<Rightarrow> ''GENESIS'' | Some h \<Rightarrow> if h = [] then ''GENESIS'' else h)"
proof -
  let ?p = "\<lambda>e. case ae_prev_hash e of None \<Rightarrow> ''GENESIS'' | Some h \<Rightarrow> if h = [] then ''GENESIS'' else h"
  have u: "CHR ''|'' \<notin> set (uuid_str i)" for i using set_uuid_str [of i] by auto
  have t: "audit_text e = ae_entity_type e @ CHR ''|'' # uuid_str (ae_entity_id e) @ CHR ''|'' #
      action_value (ae_action e) @ CHR ''|'' # ae_payload_hash e @ CHR ''|'' # ?p e" for e
    by (simp add: audit_text_def)
  have 1: "ae_entity_type e = ae_entity_type f" and r1: "uuid_str (ae_entity_id e) @ CHR ''|'' #
      action_value (ae_action e) @ CHR ''|'' # ae_payload_hash e @ CHR ''|'' # ?p e = uuid_str (ae_entity_id f) @ CHR ''|'' #
      action_value (ae_action f) @ CHR ''|'' # ae_payload_hash f @ CHR ''|'' # ?p f"
    using split_front [OF assms(1) [unfolded t]] assms(2,3) by (auto simp: clean_event_def)
  have 2: "uuid_str (ae_entity_id e) = uuid_str (ae_entity_id f)" and r2: "action_value (ae_action e) @ CHR ''|'' #
      ae_payload_hash e @ CHR ''|'' # ?p e = action_value (ae_action f) @ CHR ''|'' # ae_payload_hash f @ CHR ''|'' # ?p f"
    using split_front [OF r1 u u] by auto
  have 3: "action_value (ae_action e) = action_value (ae_action f)"
    and r3: "ae_payload_hash e @ CHR ''|'' # ?p e = ae_payload_hash f @ CHR ''|'' # ?p f"
    using split_front [OF r2 action_value_clean action_value_clean] by auto
  have 4: "ae_payload_hash e = ae_payload_hash f \<and> ?p e = ?p f"
    using split_front [OF r3] assms(2,3) by (auto simp: clean_event_def)
  show ?thesis using 1 2 3 4 uuid_str_inj action_value_inj by blast
qed

lemma chain_determines:
  assumes "chained au es" "chained au fs" "es \<noteq> []" "fs \<noteq> []" "ae_hash (last es) = ae_hash (last fs)"
    and inj: "inj_on (au_sha au) (audit_text ` (E))" "set es \<subseteq> E" "set fs \<subseteq> E"
    and clean: "\<forall>e \<in> E. clean_event e"
    and sha: "\<And>x. au_sha au x \<noteq> [] \<and> au_sha au x \<noteq> ''GENESIS''"
  shows "map covered es = map covered fs"
  using assms(1-5) inj(2,3)
proof (induction es arbitrary: fs rule: rev_induct)
  case (snoc e es)
  obtain gs f where fs: "fs = gs @ [f]" using snoc.prems(4) by (cases fs rule: rev_cases) auto
  have c: "chained au es" "ae_hash e = au_sha au (audit_text e)"
    "ae_prev_hash e = (if es = [] then None else Some (ae_hash (last es)))"
    "chained au gs" "ae_hash f = au_sha au (audit_text f)"
    "ae_prev_hash f = (if gs = [] then None else Some (ae_hash (last gs)))"
    using snoc.prems(1,2) by (simp_all add: fs chained_snoc expected_hash_text)
  have hashes: "ae_hash (last xs) \<noteq> [] \<and> ae_hash (last xs) \<noteq> ''GENESIS''" if "chained au xs" "xs \<noteq> []" for xs
    using that sha by (cases xs rule: rev_cases) (simp_all add: chained_snoc expected_hash_text)
  have "audit_text e = audit_text f"
    using inj(1) c(2,5) snoc.prems(5-7) by (auto simp: fs inj_on_def)
  then have t: "ae_entity_type e = ae_entity_type f" "ae_entity_id e = ae_entity_id f" "ae_action e = ae_action f"
      "ae_payload_hash e = ae_payload_hash f"
      "(case ae_prev_hash e of None \<Rightarrow> ''GENESIS'' | Some h \<Rightarrow> if h = [] then ''GENESIS'' else h) =
       (case ae_prev_hash f of None \<Rightarrow> ''GENESIS'' | Some h \<Rightarrow> if h = [] then ''GENESIS'' else h)"
    using audit_text_inj [of e f] clean snoc.prems(6,7) by (auto simp: fs)
  have empty: "es = [] \<longleftrightarrow> gs = []" and last: "es \<noteq> [] \<Longrightarrow> ae_hash (last es) = ae_hash (last gs)"
    using t(5) c(1,3,4,6) hashes [of es] hashes [of gs] by (auto split: if_splits)
  have "map covered es = map covered gs"
    using snoc.IH [of gs] c(1,4) empty last snoc.prems(6,7) by (cases "es = []") (auto simp: fs)
  moreover have "covered e = covered f"
    using t(1-4) c(2,3,5,6) empty last snoc.prems(5) by (auto simp: covered_def fs)
  ultimately show ?case by (simp add: fs)
qed simp

section \<open>Properties\<close>

definition demo_auditor :: auditor where
  "demo_auditor = \<lparr>au_one = scalar_one_or_none, au_sha = (\<lambda>s. CHR ''#'' # s)\<rparr>"

definition demo_audit :: "uuid \<Rightarrow> audit_db" where
  "demo_audit i =
     (case record_event_ingested demo_auditor \<lparr>av_now = 5, av_race = None\<rparr> i ''sale'' ''pos'' 3 empty_audit of
        Inr (e, db) \<Rightarrow> db | Inl _ \<Rightarrow> empty_audit)"

lemma demo_audit_create:
  "create_audit_event demo_auditor \<lparr>av_now = 5, av_race = None\<rparr> ''Event'' i EVENT_INGESTED 3
     [(''event_type'', JStr ''sale''), (''producer'', JStr ''pos'')] empty_audit =
     Inr (hd (ad_events (demo_audit i)), demo_audit i) \<and> length (ad_events (demo_audit i)) = 1"
  by (simp add: demo_audit_def record_event_ingested_def create_audit_event_def demo_auditor_def empty_audit_def
      next_value_def get_last_hash_def hash_audit_event_def insert_audit_event_def Let_def)

lemma demo_audit_run: "(audit_step demo_auditor)\<^sup>*\<^sup>* empty_audit (demo_audit i)"
  using demo_audit_create by (blast intro: r_into_rtranclp audit_stepI)

lemma demo_audit_query: "query_one (au_one demo_auditor)"
  by (simp add: demo_auditor_def soon.query_one_axioms)

text \<open>
  Property C9. Every log the auditor writes validates (R11): after any sequence of recorded
  events, whatever the hash function, \<open>validate_chain\<close> returns True, the sequence numbers are
  strictly increasing and earlier events are unchanged.
\<close>

theorem audit_log_valid:
  assumes "query_one (au_one au)" "(audit_step au)\<^sup>*\<^sup>* empty_audit db" "(audit_step au)\<^sup>*\<^sup>* db db'"
  shows "validate_chain au db' = Inr True \<and> sorted_wrt (<) (map ae_seq (ad_events db'))
    \<and> (\<exists>es. ad_events db' = ad_events db @ es)"
proof -
  have "audit_inv au db" using audit_steps_inv [OF assms(1,2) audit_inv_empty] by blast
  note i = audit_steps_inv [OF assms(1,3) this]
  have "sort_key ae_seq (ad_events db') = ad_events db'" using sorted_events i by blast
  then show ?thesis using i by (simp add: validate_chain_iff audit_inv_def)
qed

theorem audit_log_valid_witness:
  "validate_chain demo_auditor (demo_audit 1) = Inr True \<and> length (ad_events (demo_audit 1)) = 1"
  using audit_log_valid [OF demo_audit_query demo_audit_run [of 1] rtranclp.rtrancl_refl] demo_audit_create by blast

text \<open>
  Property C35. Tamper evidence: if two logs both validate and end in the same hash, they have the
  same length and agree, event by event, on entity, action, payload hash, previous hash and hash,
  provided the hash function does not collide on the texts of their events (and yields neither the
  empty text nor the genesis marker) and no entity type or payload hash contains the separator.
\<close>

theorem chain_tamper_evident:
  assumes "validate_chain au db = Inr True" "validate_chain au db' = Inr True"
    and "sort_key ae_seq (ad_events db) = es @ [e]" "sort_key ae_seq (ad_events db') = fs @ [f]" "ae_hash e = ae_hash f"
    and "inj_on (au_sha au) (audit_text ` (set (ad_events db) \<union> set (ad_events db')))"
    and "\<forall>x \<in> set (ad_events db) \<union> set (ad_events db'). clean_event x"
    and "\<And>x. au_sha au x \<noteq> [] \<and> au_sha au x \<noteq> ''GENESIS''"
  shows "map covered (sort_key ae_seq (ad_events db)) = map covered (sort_key ae_seq (ad_events db'))"
proof (rule chain_determines [where E = "set (ad_events db) \<union> set (ad_events db')"])
  show "chained au (sort_key ae_seq (ad_events db))" "chained au (sort_key ae_seq (ad_events db'))"
    using assms(1,2) by (simp_all add: validate_chain_iff)
  show "set (sort_key ae_seq (ad_events db)) \<subseteq> set (ad_events db) \<union> set (ad_events db')"
    "set (sort_key ae_seq (ad_events db')) \<subseteq> set (ad_events db) \<union> set (ad_events db')" by auto
qed (use assms(3-8) in auto)

lemma demo_audit_clean: "clean_event (hd (ad_events (demo_audit i)))"
proof -
  have "ae_payload_hash (hd (ad_events (demo_audit i))) = hash_payload (\<lambda>s. CHR ''#'' # s)
      [(''event_type'', JStr ''sale''), (''producer'', JStr ''pos'')]"
    by (simp add: demo_audit_def record_event_ingested_def create_audit_event_def demo_auditor_def empty_audit_def
        next_value_def get_last_hash_def hash_audit_event_def insert_audit_event_def Let_def)
  moreover have "CHR ''|'' \<notin> set (hash_payload (\<lambda>s. CHR ''#'' # s)
      [(''event_type'', JStr ''sale''), (''producer'', JStr ''pos'')])" by code_simp
  moreover have "ae_entity_type (hd (ad_events (demo_audit i))) = ''Event''"
    using create_audit_event_inv(3) [OF demo_audit_query audit_inv_empty] demo_audit_create by blast
  ultimately show ?thesis by (simp add: clean_event_def)
qed

lemma demo_audit_valid: "validate_chain demo_auditor (demo_audit i) = Inr True"
  using sorted_events create_audit_event_inv(1) [OF demo_audit_query audit_inv_empty] demo_audit_create
  by (metis audit_inv_def validate_chain_iff)

text \<open>A copy of the demonstration log in which the actor and the time of the event differ.\<close>

definition demo_copy :: "audit_db" where
  "demo_copy = (demo_audit 1)\<lparr>ad_events := map (\<lambda>e. e\<lparr>ae_actor_id := 9, ae_occurred_at := 77\<rparr>) (ad_events (demo_audit 1))\<rparr>"

theorem chain_tamper_evident_witness:
  "map covered (ad_events (demo_audit 1)) = map covered (ad_events demo_copy) \<and> ad_events (demo_audit 1) \<noteq> ad_events demo_copy"
proof -
  obtain e where e: "ad_events (demo_audit 1) = [e]" and hd: "e = hd (ad_events (demo_audit 1))"
    using demo_audit_create [of 1] by (cases "ad_events (demo_audit 1)") auto
  from e have c: "ad_events demo_copy = [e\<lparr>ae_actor_id := 9, ae_occurred_at := 77\<rparr>]" by (simp add: demo_copy_def)
  have v: "validate_chain demo_auditor demo_copy = Inr True"
    using demo_audit_valid [of 1] by (simp add: validate_chain_def e c expected_hash_def split: option.splits if_splits)
  have clean: "clean_event e" using demo_audit_clean [of 1] hd by simp
  have "map covered (sort_key ae_seq (ad_events (demo_audit 1))) = map covered (sort_key ae_seq (ad_events demo_copy))"
    by (rule chain_tamper_evident [OF demo_audit_valid v, where es = "[]" and fs = "[]" and e = e
          and f = "e\<lparr>ae_actor_id := 9, ae_occurred_at := 77\<rparr>"])
      (use clean in \<open>simp_all add: e c inj_on_def demo_auditor_def clean_event_def audit_text_def\<close>)
  moreover have "ae_occurred_at e = 5"
    unfolding hd by (simp add: demo_audit_def record_event_ingested_def create_audit_event_def demo_auditor_def empty_audit_def
        next_value_def get_last_hash_def hash_audit_event_def insert_audit_event_def Let_def)
  ultimately show ?thesis by (auto simp: e c dest: arg_cong [where f = ae_occurred_at])
qed

text \<open>
  Validation does not protect all fields: changing the actor, the time and the
  payload itself of any events of a log, in any way, leaves the result of \<open>validate_chain\<close> as it
  was, because the hash covers only the stored payload hash.
\<close>

theorem uncovered_fields:
  "validate_chain au (db\<lparr>ad_events := map (\<lambda>e. e\<lparr>ae_actor_id := f e, ae_occurred_at := g e, ae_payload := h e\<rparr>)
      (ad_events db)\<rparr>) = validate_chain au db"
proof -
  let ?t = "\<lambda>e. e\<lparr>ae_actor_id := f e, ae_occurred_at := g e, ae_payload := h e\<rparr>"
  have sorted: "sort_key ae_seq (map ?t es) = map ?t (sort_key ae_seq es)" for es
  proof (induction es)
    case (Cons e es)
    have "insort_key ae_seq (?t e) (map ?t xs) = map ?t (insort_key ae_seq e xs)" for xs
      by (induction xs) auto
    then show ?case using Cons by simp
  qed simp
  have "validate_links au (map_option ?t p) (map ?t es) = validate_links au p es" for p es
  proof (induction es arbitrary: p)
    case (Cons e es)
    then show ?case using Cons [of "Some e"] by (cases p) (simp_all add: expected_hash_def)
  qed simp
  from this [of None] have "validate_links au None (map ?t es) = validate_links au None es" for es by simp
  note links = this
  show ?thesis
  proof (cases "sort_key ae_seq (ad_events db)")
    case (Cons e es)
    with sorted [of "ad_events db"]
    have "sort_key ae_seq (map ?t (ad_events db)) = ?t e # map ?t es" by simp
    then show ?thesis using Cons links [of "e # es"] by (simp add: validate_chain_def split: option.split)
  qed (use sorted [of "ad_events db"] in \<open>simp add: validate_chain_def\<close>)
qed

end
