(* ===== verification/Ingestor.thy ===== *)
theory Ingestor
  imports Audit_Chain
begin

text \<open>
  \<open>finance_kernel/services/ingestor_service.py\<close> with the boundary validation it delegates to
  (\<open>validate_event\<close> of \<open>domain/event_validator.py\<close>) and the event table (\<open>models/event.py\<close>): how an
  event enters the kernel once and stays as it came. Events and audit log share one session, so a
  rollback takes both back. Another transaction that commits the same event just before the flush is the
  argument \<open>ie_other\<close>. Validation of payloads against event schemas is not modelled.

  The lemmas show that the event table only grows, holds one row per event and the hash of its payload,
  that the audit chain stays valid, and how each way of delivering an event again is answered (R1, R2, R3).
\<close>

section \<open>Boundary validation\<close>

type_synonym checked_error = "validation_error \<times> string"

definition mk_error :: "string \<Rightarrow> string \<Rightarrow> string option \<Rightarrow> checked_error" where
  "mk_error code msg fld = (\<lparr>ve_code = code, ve_field = fld\<rparr>, msg)"

definition supported_schema_versions :: "int list" where
  "supported_schema_versions = [1]"

definition validate_schema_version :: "int \<Rightarrow> int list \<Rightarrow> checked_error list" where
  "validate_schema_version v supported =
     (if v \<notin> set supported
      then [mk_error ''UNSUPPORTED_SCHEMA'' (''Schema version '' @ str_of_int v @ '' not supported'') None] else [])"

definition validate_event_type :: "string \<Rightarrow> checked_error list" where
  "validate_event_type et =
     (if et = [] then [mk_error ''INVALID_EVENT_TYPE'' ''Event type is required'' (Some ''event_type'')]
      else if CHR ''.'' \<notin> set et
      then [mk_error ''INVALID_EVENT_TYPE''
             (''Event type must be namespaced (e.g., '' @ [CHR 0x27] @ ''module.action'' @ [CHR 0x27] @ '')'')
             (Some ''event_type'')]
      else [])"

definition currency_keys :: "string list" where
  "currency_keys = [''currency'', ''from_currency'', ''to_currency'', ''currency_code'']"

text \<open>
  The recursion of \<open>validate_currencies_in_payload\<close>: into dicts, and into the dicts that are items of
  a list. Lists inside lists are not looked at.
\<close>

function (sequential) validate_currencies_in_payload :: "string \<Rightarrow> (string \<times> json) list \<Rightarrow> checked_error list"
  and validate_list_items :: "string \<Rightarrow> nat \<Rightarrow> json list \<Rightarrow> checked_error list" where
  "validate_currencies_in_payload path [] = []"
| "validate_currencies_in_payload path ((key, v) # rest) =
     (let current = (if path \<noteq> [] then path @ ''.'' @ key else key)
      in case v of
           JStr s \<Rightarrow>
             if lower key \<in> set currency_keys \<and> \<not> is_valid s
             then [mk_error ''INVALID_CURRENCY'' (''Invalid ISO 4217 currency code: '' @ s) (Some current)] else []
         | JDict d \<Rightarrow> validate_currencies_in_payload current d
         | JList items \<Rightarrow> validate_list_items current 0 items
         | _ \<Rightarrow> []) @ validate_currencies_in_payload path rest"
| "validate_list_items current i [] = []"
| "validate_list_items current i (item # items) =
     (case item of
        JDict d \<Rightarrow> validate_currencies_in_payload (current @ ''['' @ str_of_nat i @ '']'') d
      | _ \<Rightarrow> []) @ validate_list_items current (Suc i) items"
  by pat_completeness auto
termination
  by (relation "measure (\<lambda>x. case x of Inl (_, kvs) \<Rightarrow> size_list (size_prod (\<lambda>x. 0) size) kvs | Inr (_, _, js) \<Rightarrow> size_list size js)")
    auto

definition validate_event :: "string \<Rightarrow> (string \<times> json) list \<Rightarrow> int \<Rightarrow> int list option \<Rightarrow> checked_error list" where
  "validate_event et data v supported_versions =
     (let supported = (case supported_versions of Some (x # xs) \<Rightarrow> x # xs | _ \<Rightarrow> supported_schema_versions)
      in validate_schema_version v supported @ validate_event_type et @ validate_currencies_in_payload [] data)"

definition validate_payload_required_fields :: "(string \<times> json) list \<Rightarrow> string list \<Rightarrow> checked_error list" where
  "validate_payload_required_fields data required =
     map (\<lambda>f. mk_error ''MISSING_REQUIRED_FIELD'' (''Required field missing: '' @ f) (Some f))
       (filter (\<lambda>f. map_of data f = None) required)"

section \<open>The event table\<close>

record event_row = event_envelope +
  ev_ingested_at :: int

record ingest_db =
  ig_events :: "event_row list"
  ig_audit :: audit_db

record ingest_session =
  is_committed :: ingest_db
  is_working :: ingest_db

definition insert_event :: "event_row \<Rightarrow> event_row list \<Rightarrow> py_exc + event_row list" where
  "insert_event e es = (if list_ex (\<lambda>r. event_id r = event_id e) es then Inl IntegrityError else Inr (es @ [e]))"

definition to_envelope :: "event_row \<Rightarrow> event_envelope" where
  "to_envelope r = event_envelope.truncate r"

section \<open>Ingestion\<close>

datatype ingest_status = ACCEPTED | DUPLICATE | INGEST_REJECTED

record ingest_result =
  ir_status :: ingest_status
  ir_event_id :: uuid
  ir_envelope :: "event_envelope option"
  ir_errors :: "validation_error list"

definition ir_is_success :: "ingest_result \<Rightarrow> bool" where
  "ir_is_success r \<longleftrightarrow> ir_status r \<in> {ACCEPTED, DUPLICATE}"

record ingestor =
  in_one :: "event_row list \<Rightarrow> py_exc + event_row option"
  in_sha :: "string \<Rightarrow> string"
  in_auditor :: "auditor option"

record ingest_env =
  ie_now :: int
  ie_audit :: audit_env
  ie_other :: "ingest_db option"

definition get_existing_event :: "ingestor \<Rightarrow> uuid \<Rightarrow> event_row list \<Rightarrow> audit_exc + event_row option" where
  "get_existing_event ing ev es = ap (in_one ing (filter (\<lambda>r. event_id r = ev) es))"

definition get_event :: "ingestor \<Rightarrow> uuid \<Rightarrow> event_row list \<Rightarrow> audit_exc + event_envelope option" where
  "get_event ing ev es = rmap (map_option to_envelope) (get_existing_event ing ev es)"

definition get_events_by_type :: "string \<Rightarrow> nat \<Rightarrow> event_row list \<Rightarrow> event_envelope list" where
  "get_events_by_type et limit es =
     map to_envelope (take limit (rev (sort_key occurred_at (rev (filter (\<lambda>r. event_type r = et) es)))))"

text \<open>Call the auditor when there is one.\<close>

definition audited :: "ingestor \<Rightarrow> (auditor \<Rightarrow> audit_op) \<Rightarrow> ingest_session \<Rightarrow> audit_exc + ingest_session" where
  "audited ing op s =
     (case in_auditor ing of
        None \<Rightarrow> Inr s
      | Some au \<Rightarrow>
          rmap (\<lambda>(e, db). s\<lparr>is_working := is_working s\<lparr>ig_audit := db\<rparr>\<rparr>) (op au (ig_audit (is_working s))))"

definition rejected :: "uuid \<Rightarrow> validation_error list \<Rightarrow> ingest_result" where
  "rejected ev es = \<lparr>ir_status = INGEST_REJECTED, ir_event_id = ev, ir_envelope = None, ir_errors = es\<rparr>"

definition duplicate :: "event_row \<Rightarrow> ingest_result" where
  "duplicate r = \<lparr>ir_status = DUPLICATE, ir_event_id = event_id r, ir_envelope = Some (to_envelope r), ir_errors = []\<rparr>"

text \<open>The flush of the new row: it fails on a row of the same event, its own session's or another's.\<close>

definition event_conflict :: "ingest_env \<Rightarrow> event_row \<Rightarrow> ingest_session \<Rightarrow> bool" where
  "event_conflict env r s \<longleftrightarrow>
     insert_event r (ig_events (is_working s)) = Inl IntegrityError
     \<or> (case ie_other env of None \<Rightarrow> False | Some d \<Rightarrow> insert_event r (ig_events d) = Inl IntegrityError)"

definition ingest_conflict ::
    "ingestor \<Rightarrow> ingest_env \<Rightarrow> uuid \<Rightarrow> ingest_session \<Rightarrow> audit_exc + ingest_result \<times> ingest_session" where
  "ingest_conflict ing env ev s =
     (let d = (case ie_other env of None \<Rightarrow> is_committed s | Some d \<Rightarrow> d);
          s' = \<lparr>is_committed = d, is_working = d\<rparr>
      in rmap (\<lambda>found. (case found of Some r \<Rightarrow> duplicate r | None \<Rightarrow> rejected ev [], s'))
           (get_existing_event ing ev (ig_events d)))"

definition ingest :: "ingestor \<Rightarrow> ingest_env \<Rightarrow> event_envelope \<Rightarrow> ingest_session
     \<Rightarrow> audit_exc + ingest_result \<times> ingest_session" where
  "ingest ing env req s =
     (let ev = event_id req; errors = validate_event (event_type req) (payload req) (schema_version req) None
      in if errors \<noteq> []
         then rmap (Pair (rejected ev (map fst errors)))
                (audited ing (\<lambda>au. record_event_rejected au (ie_audit env) ev (join ''; '' (map snd errors)) (actor_id req)) s)
         else
           let h = hash_payload (in_sha ing) (payload req)
           in rbind (get_existing_event ing ev (ig_events (is_working s))) (\<lambda>found.
             case found of
               Some r \<Rightarrow>
                 if payload_hash r \<noteq> h
                 then rmap (Pair (rejected ev []))
                        (audited ing (\<lambda>au. record_event_rejected au (ie_audit env) ev
                           (''Payload mismatch: expected '' @ payload_hash r @ '', got '' @ h) (actor_id req)) s)
                 else Inr (duplicate r, s)
             | None \<Rightarrow>
                 let r = event_envelope.extend (req\<lparr>payload_hash := h\<rparr>) \<lparr>ev_ingested_at = ie_now env\<rparr>
                 in if event_conflict env r s then ingest_conflict ing env ev s
                    else rmap (Pair \<lparr>ir_status = ACCEPTED, ir_event_id = ev, ir_envelope = Some (to_envelope r), ir_errors = []\<rparr>)
                           (audited ing (\<lambda>au. record_event_ingested au (ie_audit env) ev (event_type req) (producer req) (actor_id req))
                              (s\<lparr>is_working := (is_working s)\<lparr>ig_events := ig_events (is_working s) @ [r]\<rparr>\<rparr>))))"

section \<open>The invariant\<close>

interpretation by_event_id: unique_table insert_event "\<lambda>es. es" event_id
  by unfold_locales (auto simp: insert_event_def list_ex_iff split: if_splits)

lemma row_fields [simp]:
  "event_id (event_envelope.extend q x) = event_id q" "payload (event_envelope.extend q x) = payload q"
  "payload_hash (event_envelope.extend q x) = payload_hash q"
  by (simp_all add: event_envelope.extend_def)

lemma to_envelope_extend [simp]: "to_envelope (event_envelope.extend q x) = q"
  by (simp add: to_envelope_def event_envelope.extend_def event_envelope.truncate_def)

definition ingest_inv :: "ingestor \<Rightarrow> ingest_db \<Rightarrow> bool" where
  "ingest_inv ing d \<longleftrightarrow> distinct (map event_id (ig_events d))
     \<and> list_all (\<lambda>r. payload_hash r = hash_payload (in_sha ing) (payload r)) (ig_events d)
     \<and> (\<forall>au. in_auditor ing = Some au \<longrightarrow> audit_inv au (ig_audit d))"

definition grows :: "ingest_db \<Rightarrow> ingest_db \<Rightarrow> bool" where
  "grows d d' \<longleftrightarrow> (\<exists>es. ig_events d' = ig_events d @ es)"

lemma grows_refl [simp]: "grows d d"
  by (simp add: grows_def)

lemma grows_trans: "grows d d' \<Longrightarrow> grows d' d'' \<Longrightarrow> grows d d''"
  by (auto simp: grows_def)

definition session_inv :: "ingestor \<Rightarrow> ingest_session \<Rightarrow> bool" where
  "session_inv ing s \<longleftrightarrow> ingest_inv ing (is_committed s) \<and> ingest_inv ing (is_working s) \<and> grows (is_committed s) (is_working s)"

definition queries_ok :: "ingestor \<Rightarrow> bool" where
  "queries_ok ing \<longleftrightarrow> query_one (in_one ing) \<and> (\<forall>au. in_auditor ing = Some au \<longrightarrow> query_one (au_one au))"

text \<open>
  A step of the ingesting session: a call that returns, where another transaction's commits, if any,
  extend the committed rows and satisfy the same invariant; a commit; a rollback.
\<close>

inductive ingest_step :: "ingestor \<Rightarrow> ingest_session \<Rightarrow> ingest_session \<Rightarrow> bool" for ing where
  call: "ingest ing env req s = Inr (r, s') \<Longrightarrow>
    (\<And>d. ie_other env = Some d \<Longrightarrow> ingest_inv ing d \<and> grows (is_committed s) d) \<Longrightarrow> ingest_step ing s s'"
| commit: "ingest_step ing s (s\<lparr>is_committed := is_working s\<rparr>)"
| rollback: "ingest_step ing s (s\<lparr>is_working := is_committed s\<rparr>)"

definition empty_ingest :: ingest_session where
  "empty_ingest = (let d = \<lparr>ig_events = [], ig_audit = empty_audit\<rparr> in \<lparr>is_committed = d, is_working = d\<rparr>)"

lemma audited_Inr:
  assumes "audited ing op s = Inr s'"
  shows "\<exists>db. s' = s\<lparr>is_working := is_working s\<lparr>ig_audit := db\<rparr>\<rparr>
    \<and> (\<forall>au. in_auditor ing = Some au \<longrightarrow> (\<exists>e. op au (ig_audit (is_working s)) = Inr (e, db)))"
  using assms by (cases "in_auditor ing") (auto simp: audited_def result_iffs intro: exI [of _ "ig_audit (is_working s)"])

lemma audited_inv:
  assumes "queries_ok ing" "session_inv ing s" "audited ing op s = Inr s'"
    and "\<And>au e db db'. op au db = Inr (e, db') \<Longrightarrow> \<exists>env etype eid action actor data.
        create_audit_event au env etype eid action actor data db = Inr (e, db')"
  shows "session_inv ing s' \<and> ig_events (is_working s') = ig_events (is_working s) \<and> is_committed s' = is_committed s"
proof -
  from audited_Inr [OF assms(3)] obtain db where s': "s' = s\<lparr>is_working := is_working s\<lparr>ig_audit := db\<rparr>\<rparr>"
    and op: "\<And>au. in_auditor ing = Some au \<Longrightarrow> \<exists>e. op au (ig_audit (is_working s)) = Inr (e, db)" by blast
  have "audit_inv au db" if "in_auditor ing = Some au" for au
  proof -
    have "query_one (au_one au)" "audit_inv au (ig_audit (is_working s))"
      using assms(1,2) that by (auto simp: queries_ok_def session_inv_def ingest_inv_def)
    then show ?thesis using op [OF that] assms(4) create_audit_event_inv(1) by blast
  qed
  then show ?thesis using assms(2) by (auto simp: s' session_inv_def ingest_inv_def grows_def)
qed

lemma audit_call_inv:
  assumes "queries_ok ing" "session_inv ing s"
    and "audited ing (\<lambda>au. record_event_rejected au env ev why actor) s = Inr s'
      \<or> audited ing (\<lambda>au. record_event_ingested au env ev etype source actor) s = Inr s'"
  shows "session_inv ing s' \<and> ig_events (is_working s') = ig_events (is_working s) \<and> is_committed s' = is_committed s"
  using assms(3)
proof
  assume "audited ing (\<lambda>au. record_event_rejected au env ev why actor) s = Inr s'"
  then show ?thesis by (rule audited_inv [OF assms(1,2)]) (unfold record_event_rejected_def, blast)
next
  assume "audited ing (\<lambda>au. record_event_ingested au env ev etype source actor) s = Inr s'"
  then show ?thesis by (rule audited_inv [OF assms(1,2)]) (unfold record_event_ingested_def, blast)
qed

lemma lookup_event:
  assumes "queries_ok ing" "distinct (map event_id es)"
  shows "get_existing_event ing ev es = Inr (find (\<lambda>r. event_id r = ev) es)"
proof -
  have "filter (\<lambda>r. event_id r = ev) es = (case find (\<lambda>r. event_id r = ev) es of None \<Rightarrow> [] | Some r \<Rightarrow> [r])"
    by (rule filter_unique_key [OF assms(2)])
  then show ?thesis using assms(1) unfolding queries_ok_def get_existing_event_def
    by (auto simp: query_one.one_empty query_one.one_single ap_def split: option.splits)
qed

lemma ingest_returns_inv:
  assumes "queries_ok ing" "session_inv ing s" "ingest ing env req s = Inr (res, s')"
    and other: "\<And>d. ie_other env = Some d \<Longrightarrow> ingest_inv ing d \<and> grows (is_committed s) d"
  shows "session_inv ing s' \<and> grows (is_committed s) (is_committed s')"
proof -
  let ?h = "hash_payload (in_sha ing) (payload req)"
  define r where "r = event_envelope.extend (req\<lparr>payload_hash := ?h\<rparr>) \<lparr>ev_ingested_at = ie_now env\<rparr>"
  define s1 where "s1 = s\<lparr>is_working := (is_working s)\<lparr>ig_events := ig_events (is_working s) @ [r]\<rparr>\<rparr>"
  note look = lookup_event [OF assms(1), of "ig_events (is_working s)" "event_id req"]
  have aud: "session_inv ing s' \<and> is_committed s' = is_committed s"
    if "audited ing (\<lambda>au. record_event_rejected au env' ev why actor) s = Inr s'" for env' ev why actor
    using audit_call_inv [OF assms(1,2)] that by blast
  consider (rejected) env' ev why actor where "audited ing (\<lambda>au. record_event_rejected au env' ev why actor) s = Inr s'"
    | (same) "s' = s"
    | (conflict) "ingest_conflict ing env (event_id req) s = Inr (res, s')"
    | (new) "\<not> event_conflict env r s"
        "audited ing (\<lambda>au. record_event_ingested au (ie_audit env) (event_id req) (event_type req) (producer req) (actor_id req)) s1 = Inr s'"
    using assms(2,3) look
    by (auto simp: ingest_def Let_def result_iffs session_inv_def ingest_inv_def r_def s1_def split: if_splits option.splits)
  then show ?thesis
  proof cases
    case rejected
    then show ?thesis using aud by auto
  next
    case conflict
    then show ?thesis using assms(2) other
      by (auto simp: ingest_conflict_def Let_def result_iffs session_inv_def split: option.splits)
  next
    case new
    have "insert_event r (ig_events (is_working s)) = Inr (ig_events (is_working s) @ [r])"
      using new(1) by (auto simp: event_conflict_def insert_event_def)
    moreover have "distinct (map event_id (ig_events (is_working s)))"
      using assms(2) by (simp add: session_inv_def ingest_inv_def)
    ultimately have "distinct (map event_id (ig_events (is_working s) @ [r]))" by (rule by_event_id.ins_distinct [rotated])
    then have "session_inv ing s1" using assms(2)
      by (auto simp: s1_def session_inv_def ingest_inv_def grows_def r_def)
    from audit_call_inv [OF assms(1) this] new(2) have "session_inv ing s' \<and> is_committed s' = is_committed s1" by blast
    then show ?thesis by (simp add: s1_def)
  qed (simp add: assms(2))
qed

lemma ingest_steps_inv:
  assumes "queries_ok ing" "(ingest_step ing)\<^sup>*\<^sup>* s s'" "session_inv ing s"
  shows "session_inv ing s' \<and> grows (is_committed s) (is_committed s')"
  using assms(2)
proof (induction rule: rtranclp_induct)
  case base
  then show ?case using assms(3) by simp
next
  case (step t u)
  from step.hyps(2) show ?case
  proof cases
    case (call env req r)
    then show ?thesis using ingest_returns_inv [OF assms(1)] step.IH grows_trans by blast
  next
    case commit
    then show ?thesis using step.IH by (auto simp: session_inv_def intro: grows_trans)
  next
    case rollback
    then show ?thesis using step.IH by (auto simp: session_inv_def)
  qed
qed

lemma empty_session_inv: "session_inv ing empty_ingest"
  by (simp add: session_inv_def ingest_inv_def empty_ingest_def audit_inv_empty Let_def)

lemma find_in_distinct:
  "distinct (map key xs) \<Longrightarrow> x \<in> set xs \<Longrightarrow> find (\<lambda>y. key y = key x) xs = Some x"
  by (induction xs) (auto simp: image_iff)

section \<open>Properties\<close>

definition demo_ingestor :: ingestor where
  "demo_ingestor = \<lparr>in_one = scalar_one_or_none, in_sha = id, in_auditor = None\<rparr>"

definition demo_request :: event_envelope where
  "demo_request = \<lparr>event_id = 1, event_type = ''inventory.receipt'', occurred_at = 0, effective_date = 0, actor_id = 2,
     producer = ''pos'', payload = [(''qty'', JInt 3)], payload_hash = [], schema_version = 1\<rparr>"

definition demo_env :: ingest_env where
  "demo_env = \<lparr>ie_now = 5, ie_audit = \<lparr>av_now = 5, av_race = None\<rparr>, ie_other = None\<rparr>"

definition demo_row :: event_row where
  "demo_row = event_envelope.extend (demo_request\<lparr>payload_hash := hash_payload id [(''qty'', JInt 3)]\<rparr>) \<lparr>ev_ingested_at = 5\<rparr>"

definition demo_ingested :: ingest_session where
  "demo_ingested = (let d = \<lparr>ig_events = [demo_row], ig_audit = empty_audit\<rparr> in \<lparr>is_committed = d, is_working = d\<rparr>)"

lemma demo_queries: "queries_ok demo_ingestor"
  by (simp add: queries_ok_def demo_ingestor_def soon.query_one_axioms)

lemma demo_valid: "validate_event (event_type demo_request) (payload demo_request) (schema_version demo_request) None = []"
  by (simp add: demo_request_def validate_event_def validate_schema_version_def supported_schema_versions_def validate_event_type_def)

lemma demo_ingest:
  "\<exists>r. ingest demo_ingestor demo_env demo_request empty_ingest =
     Inr (r, empty_ingest\<lparr>is_working := \<lparr>ig_events = [demo_row], ig_audit = empty_audit\<rparr>\<rparr>)"
proof -
  have "hash_payload (in_sha demo_ingestor) (payload demo_request) = hash_payload id [(''qty'', JInt 3)]"
    by (simp add: demo_ingestor_def demo_request_def)
  moreover have "get_existing_event demo_ingestor (event_id demo_request) [] = Inr None"
    by (simp add: get_existing_event_def demo_ingestor_def ap_def)
  ultimately show ?thesis
    by (simp add: ingest_def demo_valid empty_ingest_def Let_def event_conflict_def insert_event_def audited_def demo_env_def
        demo_row_def demo_ingestor_def)
qed

lemma demo_reached_ingest: "(ingest_step demo_ingestor)\<^sup>*\<^sup>* empty_ingest demo_ingested"
proof -
  from demo_ingest obtain r where "ingest demo_ingestor demo_env demo_request empty_ingest =
     Inr (r, empty_ingest\<lparr>is_working := \<lparr>ig_events = [demo_row], ig_audit = empty_audit\<rparr>\<rparr>)" ..
  then have "ingest_step demo_ingestor empty_ingest (empty_ingest\<lparr>is_working := \<lparr>ig_events = [demo_row], ig_audit = empty_audit\<rparr>\<rparr>)"
    by (rule ingest_step.call) (simp add: demo_env_def)
  moreover have "ingest_step demo_ingestor (empty_ingest\<lparr>is_working := \<lparr>ig_events = [demo_row], ig_audit = empty_audit\<rparr>\<rparr>) demo_ingested"
    using ingest_step.commit [of demo_ingestor "empty_ingest\<lparr>is_working := \<lparr>ig_events = [demo_row], ig_audit = empty_audit\<rparr>\<rparr>"]
    by (simp add: demo_ingested_def empty_ingest_def Let_def)
  ultimately show ?thesis by (rule converse_rtranclp_into_rtranclp [OF _ r_into_rtranclp])
qed

text \<open>
  Property C14. Events are ingested once and never change (R1, R2, R3): an event that was committed stays
  in the table with all its fields, whatever is ingested, committed or rolled back later; there is one
  row per event and its payload hash is the hash of its payload. Delivering it again with the same payload
  returns the stored envelope as a duplicate and changes nothing; with a payload of another hash it is
  rejected and the event table stays as it is.
\<close>

theorem ingest_once:
  assumes "queries_ok ing" "(ingest_step ing)\<^sup>*\<^sup>* empty_ingest s" "r \<in> set (ig_events (is_committed s))"
    and "(ingest_step ing)\<^sup>*\<^sup>* s s'"
  shows "r \<in> set (ig_events (is_committed s')) \<and> r \<in> set (ig_events (is_working s'))
    \<and> distinct (map event_id (ig_events (is_working s'))) \<and> payload_hash r = hash_payload (in_sha ing) (payload r)
    \<and> (\<forall>env req. event_id req = event_id r \<longrightarrow> validate_event (event_type req) (payload req) (schema_version req) None = [] \<longrightarrow>
        (if hash_payload (in_sha ing) (payload req) = payload_hash r then ingest ing env req s' = Inr (duplicate r, s')
         else \<forall>res t. ingest ing env req s' = Inr (res, t) \<longrightarrow>
           ir_status res = INGEST_REJECTED \<and> ig_events (is_working t) = ig_events (is_working s')))"
proof -
  have s: "session_inv ing s" using ingest_steps_inv [OF assms(1,2) empty_session_inv] by blast
  note i = ingest_steps_inv [OF assms(1,4) s]
  have r: "r \<in> set (ig_events (is_committed s'))" "r \<in> set (ig_events (is_working s'))"
    using assms(3) i by (auto simp: session_inv_def grows_def)
  have w: "distinct (map event_id (ig_events (is_working s')))" "payload_hash r = hash_payload (in_sha ing) (payload r)"
    using i r by (auto simp: session_inv_def ingest_inv_def list_all_iff)
  have look: "get_existing_event ing (event_id r) (ig_events (is_working s')) = Inr (Some r)"
    using lookup_event [OF assms(1) w(1)] find_in_distinct [OF w(1) r(2)] by simp
  have "if hash_payload (in_sha ing) (payload req) = payload_hash r then ingest ing env req s' = Inr (duplicate r, s')
      else \<forall>res t. ingest ing env req s' = Inr (res, t) \<longrightarrow>
        ir_status res = INGEST_REJECTED \<and> ig_events (is_working t) = ig_events (is_working s')"
    if "event_id req = event_id r" "validate_event (event_type req) (payload req) (schema_version req) None = []" for env req
    using that look
    by (auto simp: ingest_def Let_def result_iffs rejected_def dest!: audited_Inr)
  then show ?thesis using r w by blast
qed

theorem ingest_once_witness: "ingest demo_ingestor demo_env demo_request demo_ingested = Inr (duplicate demo_row, demo_ingested)"
proof -
  have "demo_row \<in> set (ig_events (is_committed demo_ingested))" by (simp add: demo_ingested_def Let_def)
  from ingest_once [OF demo_queries demo_reached_ingest this rtranclp.rtrancl_refl]
  have "\<forall>env req. event_id req = event_id demo_row \<longrightarrow> validate_event (event_type req) (payload req) (schema_version req) None = [] \<longrightarrow>
      (if hash_payload (in_sha demo_ingestor) (payload req) = payload_hash demo_row
       then ingest demo_ingestor env req demo_ingested = Inr (duplicate demo_row, demo_ingested)
       else \<forall>res t. ingest demo_ingestor env req demo_ingested = Inr (res, t) \<longrightarrow>
         ir_status res = INGEST_REJECTED \<and> ig_events (is_working t) = ig_events (is_working demo_ingested))" by blast
  moreover have "event_id demo_request = event_id demo_row"
    "hash_payload (in_sha demo_ingestor) (payload demo_request) = payload_hash demo_row"
    by (simp_all add: demo_row_def demo_ingestor_def demo_request_def)
  ultimately show ?thesis using demo_valid by auto
qed

text \<open>
  A race hides a payload conflict: when another transaction commits an event with the
  same identifier and a different payload between the lookup and the flush, the call reports an
  idempotent duplicate instead of the payload mismatch R2 demands, and takes back everything the session had
  not committed.
\<close>

theorem race_accepts_other_payload:
  assumes "queries_ok ing" "ie_other env = Some d" "distinct (map event_id (ig_events d))" "r \<in> set (ig_events d)"
    and "event_id r = event_id req" "payload_hash r \<noteq> hash_payload (in_sha ing) (payload req)"
    and "validate_event (event_type req) (payload req) (schema_version req) None = []"
    and "distinct (map event_id (ig_events (is_working s)))" "event_id req \<notin> event_id ` set (ig_events (is_working s))"
  shows "ingest ing env req s = Inr (duplicate r, \<lparr>is_committed = d, is_working = d\<rparr>) \<and> ir_is_success (duplicate r)"
proof -
  have none: "get_existing_event ing (event_id req) (ig_events (is_working s)) = Inr None"
    using lookup_event [OF assms(1,8)] assms(9) by (auto simp: find_None_iff image_iff)
  have some: "get_existing_event ing (event_id req) (ig_events d) = Inr (Some r)"
    using lookup_event [OF assms(1,3)] find_in_distinct [OF assms(3,4)] assms(5) by simp
  have "event_conflict env (event_envelope.extend q x) s" if "event_id q = event_id req" for q x
    using assms(2,4,5) that by (auto simp: event_conflict_def insert_event_def list_ex_iff)
  then show ?thesis using none some assms(2,7)
    by (simp add: ingest_def Let_def ingest_conflict_def duplicate_def ir_is_success_def)
qed

theorem race_accepts_other_payload_witness:
  "ir_status (fst (projr (ingest demo_ingestor (demo_env\<lparr>ie_other := Some (is_committed demo_ingested)\<rparr>)
     (demo_request\<lparr>payload := [(''qty'', JInt 4)]\<rparr>) empty_ingest))) = DUPLICATE"
proof -
  have "hash_payload id [(''qty'', JInt 3)] \<noteq> hash_payload id [(''qty'', JInt 4)]" by code_simp
  moreover have "validate_event (event_type demo_request) [(''qty'', JInt 4)] (schema_version demo_request) None = []"
    by (simp add: demo_request_def validate_event_def validate_schema_version_def supported_schema_versions_def validate_event_type_def)
  ultimately show ?thesis
    using race_accepts_other_payload [where ing = demo_ingestor and env = "demo_env\<lparr>ie_other := Some (is_committed demo_ingested)\<rparr>"
        and d = "is_committed demo_ingested" and r = demo_row and req = "demo_request\<lparr>payload := [(''qty'', JInt 4)]\<rparr>" and s = empty_ingest,
        OF demo_queries]
    by (simp add: demo_ingested_def empty_ingest_def Let_def demo_row_def demo_ingestor_def duplicate_def)
qed

end
