(* ===== verification/Reversal_Service.thy ===== *)
theory Reversal_Service
  imports Journal_Properties Period_Service Link_Graph Ingestor
begin

text \<open>
  \<open>finance_kernel/services/reversal_service.py\<close>: reversing a posted entry. The service composes
  the journal writer, the fiscal periods, the link graph, the event table and the audit log, which
  share one session: the state is the record of all their tables, committed and as the transaction sees
  them. The identifiers drawn, the clock readings and what other transactions commit in the meantime
  are the environment of a call. An exception carries no state, the caller rolls back.

  The lemmas show what a call that returns has checked and done in every table, and that an entry is
  reversed at most once.
\<close>

section \<open>State\<close>

record kernel_db =
  kd_events :: "event_row list"
  kd_journal :: journal_db
  kd_links :: links
  kd_audit :: audit_db
  kd_periods :: periods

record kernel_session =
  ks_committed :: kernel_db
  ks_working :: kernel_db

datatype reversal_exc =
    EntryNotPostedError uuid "entry_status option"
  | EntryAlreadyReversedError uuid
  | RevPy py_exc
  | RevPeriod period_exc
  | RevJournal journal_exc
  | RevLink link_exc
  | RevAudit audit_exc

record reversal_result =
  rr_original_entry_id :: uuid
  rr_reversal_entry_id :: uuid
  rr_reversal_seq :: "int option"
  rr_effective_date :: int
  rr_link_id :: uuid

record reversal_service =
  rs_one_entry :: "journal_entry list \<Rightarrow> py_exc + journal_entry option"
  rs_one_period :: one_period
  rs_link_graph :: link_service
  rs_auditor :: auditor

record reversal_env =
  re_now :: int
  re_event_id :: uuid
  re_link_id :: uuid
  re_other_events :: "event_row list"
  re_create :: create_env
  re_other_links :: links
  re_audit :: audit_env

section \<open>Operations\<close>

definition load_and_validate :: "reversal_service \<Rightarrow> uuid \<Rightarrow> journal_db \<Rightarrow> reversal_exc + journal_entry" where
  "load_and_validate rv i db =
     rbind (map_sum RevPy id (rs_one_entry rv (filter (\<lambda>e. je_id e = i) (jd_entries db)))) (\<lambda>found.
       case found of
         None \<Rightarrow> Inl (EntryNotPostedError i None)
       | Some orig \<Rightarrow>
           if je_status orig \<noteq> POSTED then Inl (EntryNotPostedError i (Some (je_status orig)))
           else rbind (map_sum RevPy id (rs_one_entry rv (filter (\<lambda>e. je_reversal_of_id e = Some i) (jd_entries db)))) (\<lambda>existing.
             if existing \<noteq> None then Inl (EntryAlreadyReversedError i) else Inr orig))"

definition reversal_payload :: "journal_entry \<Rightarrow> string \<Rightarrow> (string \<times> json) list" where
  "reversal_payload orig reason =
     [(''original_entry_id'', JStr (uuid_str (je_id orig))),
      (''original_seq'', case je_seq orig of None \<Rightarrow> JNull | Some n \<Rightarrow> JInt n), (''reason'', JStr reason)]"

definition reversal_event ::
    "reversal_service \<Rightarrow> int \<Rightarrow> uuid \<Rightarrow> journal_entry \<Rightarrow> int \<Rightarrow> string \<Rightarrow> uuid \<Rightarrow> event_row" where
  "reversal_event rv now ev orig eff reason actor =
     \<lparr>event_id = ev, event_type = ''system.reversal'', occurred_at = now, effective_date = eff, actor_id = actor,
      producer = ''kernel.reversal_service'', payload = reversal_payload orig reason,
      payload_hash = hash_payload (au_sha (rs_auditor rv)) (reversal_payload orig reason), schema_version = 1,
      ev_ingested_at = now\<rparr>"

definition journal_entry_ref :: "uuid \<Rightarrow> artifact_ref" where
  "journal_entry_ref i = \<lparr>ar_type = A_JOURNAL_ENTRY, ar_id = i\<rparr>"

definition reversal_link ::
    "uuid \<Rightarrow> int \<Rightarrow> uuid \<Rightarrow> journal_entry \<Rightarrow> journal_entry \<Rightarrow> string \<Rightarrow> economic_link" where
  "reversal_link lid now ev orig ren reason =
     \<lparr>el_link_id = lid, el_link_type = REVERSED_BY, el_parent_ref = journal_entry_ref (je_id orig),
      el_child_ref = journal_entry_ref (je_id ren), el_creating_event_id = ev, el_created_at = now,
      el_metadata = Some [(''reason'', JStr reason),
        (''original_seq'', case je_seq orig of None \<Rightarrow> JNull | Some n \<Rightarrow> JInt n),
        (''reversal_seq'', case je_seq ren of None \<Rightarrow> JNull | Some n \<Rightarrow> JInt n)]\<rparr>"

text \<open>
  The flush of the new event: it joins the event table, where journal entries can refer to it,
  unless its identifier is taken, by this transaction or another.
\<close>

definition add_event :: "event_row list \<Rightarrow> event_row \<Rightarrow> kernel_db \<Rightarrow> reversal_exc + kernel_db" where
  "add_event others r db =
     (case insert_event r (kd_events db @ others) of
        Inl x \<Rightarrow> Inl (RevPy x)
      | Inr _ \<Rightarrow> Inr (db\<lparr>kd_events := kd_events db @ [r],
                         kd_journal := (kd_journal db)\<lparr>jd_event_ids := jd_event_ids (kd_journal db) @ [event_id r]\<rparr>\<rparr>))"

text \<open>Steps 3 and 4: the economic link, the audit event, the result.\<close>

definition link_and_record ::
    "reversal_service \<Rightarrow> reversal_env \<Rightarrow> uuid \<Rightarrow> journal_entry \<Rightarrow> journal_entry \<Rightarrow> int \<Rightarrow> string \<Rightarrow> uuid \<Rightarrow> kernel_session
     \<Rightarrow> reversal_exc + reversal_result \<times> kernel_session" where
  "link_and_record rv env ev orig ren eff reason actor s =
     rbind (map_sum RevPy id (mk_economic_link (reversal_link (re_link_id env) (re_now env) ev orig ren reason))) (\<lambda>link.
       case establish_link (rs_link_graph rv) (re_other_links env) link False
           \<lparr>lk_committed = kd_links (ks_committed s), lk_rows = kd_links (ks_working s)\<rparr> of
         (Inl x, ls) \<Rightarrow> Inl (RevLink x)
       | (Inr _, ls) \<Rightarrow>
           rbind (map_sum RevAudit id (record_reversal (rs_auditor rv) (re_audit env) (je_id ren) (je_id orig) reason actor
               (kd_audit (ks_working s)))) (\<lambda>(_, ad).
           Inr (\<lparr>rr_original_entry_id = je_id orig, rr_reversal_entry_id = je_id ren, rr_reversal_seq = je_seq ren,
                  rr_effective_date = eff, rr_link_id = re_link_id env\<rparr>,
                \<lparr>ks_committed = (ks_committed s)\<lparr>kd_links := lk_committed ls\<rparr>,
                 ks_working = (ks_working s)\<lparr>kd_links := lk_rows ls, kd_audit := ad\<rparr>\<rparr>)))"

definition execute_reversal ::
    "reversal_service \<Rightarrow> reversal_env \<Rightarrow> journal_entry \<Rightarrow> int \<Rightarrow> string \<Rightarrow> uuid \<Rightarrow> uuid option \<Rightarrow> kernel_session
     \<Rightarrow> reversal_exc + reversal_result \<times> kernel_session" where
  "execute_reversal rv env orig eff reason actor reversal_event_id s =
     (let now = re_now env; ev = (case reversal_event_id of Some i \<Rightarrow> i | None \<Rightarrow> re_event_id env)
      in rbind (add_event (re_other_events env) (reversal_event rv now ev orig eff reason actor) (ks_working s)) (\<lambda>w1.
         rbind (map_sum RevJournal id (write_reversal (rs_one_entry rv) (re_create env) orig ev actor eff reason
             ''system.reversal'' (Some (entry_ledger_id orig)) (kd_journal w1))) (\<lambda>(ren, jd).
         link_and_record rv env ev orig ren eff reason actor (s\<lparr>ks_working := w1\<lparr>kd_journal := jd\<rparr>\<rparr>))))"

definition reverse_in_same_period ::
    "reversal_service \<Rightarrow> reversal_env \<Rightarrow> uuid \<Rightarrow> string \<Rightarrow> uuid \<Rightarrow> uuid option \<Rightarrow> kernel_session
     \<Rightarrow> reversal_exc + reversal_result \<times> kernel_session" where
  "reverse_in_same_period rv env i reason actor reversal_event_id s =
     rbind (load_and_validate rv i (kd_journal (ks_working s))) (\<lambda>orig.
     rbind (map_sum RevPeriod id (validate_effective_date (rs_one_period rv) (je_effective_date orig) False
         (kd_periods (ks_working s)))) (\<lambda>_.
     execute_reversal rv env orig (je_effective_date orig) reason actor reversal_event_id s))"

definition reverse_in_current_period ::
    "reversal_service \<Rightarrow> reversal_env \<Rightarrow> uuid \<Rightarrow> string \<Rightarrow> uuid \<Rightarrow> int \<Rightarrow> uuid option \<Rightarrow> kernel_session
     \<Rightarrow> reversal_exc + reversal_result \<times> kernel_session" where
  "reverse_in_current_period rv env i reason actor eff reversal_event_id s =
     rbind (load_and_validate rv i (kd_journal (ks_working s))) (\<lambda>orig.
     rbind (map_sum RevPeriod id (validate_effective_date (rs_one_period rv) eff False (kd_periods (ks_working s)))) (\<lambda>_.
     execute_reversal rv env orig eff reason actor reversal_event_id s))"

section \<open>The invariant\<close>

definition reversal_ok :: "reversal_service \<Rightarrow> bool" where
  "reversal_ok rv \<longleftrightarrow> query_one (rs_one_entry rv) \<and> query_one (rs_one_period rv) \<and> query_one (lv_one (rs_link_graph rv))
     \<and> query_one (au_one (rs_auditor rv))"

definition kernel_inv :: "reversal_service \<Rightarrow> kernel_db \<Rightarrow> bool" where
  "kernel_inv rv db \<longleftrightarrow> inv_db (kd_journal db) \<and> audit_inv (rs_auditor rv) (kd_audit db) \<and> wf_periods (kd_periods db)
     \<and> distinct (map event_id (kd_events db)) \<and> jd_event_ids (kd_journal db) = map event_id (kd_events db)"

declare map_sum_Inr_iff [simp]

lemma load_and_validate_Inr:
  assumes "reversal_ok rv" "load_and_validate rv i db = Inr orig"
  shows "orig \<in> set (jd_entries db)" "je_id orig = i" "je_status orig = POSTED"
    "\<forall>e \<in> set (jd_entries db). je_reversal_of_id e \<noteq> Some i"
proof -
  have q: "query_one (rs_one_entry rv)" using assms(1) by (simp add: reversal_ok_def)
  have "filter (\<lambda>e. je_id e = i) (jd_entries db) = [orig]" "je_status orig = POSTED"
    "filter (\<lambda>e. je_reversal_of_id e = Some i) (jd_entries db) = []"
    using assms(2) by (auto simp: load_and_validate_def result_iffs query_one.one_Inr_Some [OF q] query_one.one_Inr_None [OF q]
        split: option.splits if_splits)
  then show "orig \<in> set (jd_entries db)" "je_id orig = i" "je_status orig = POSTED"
    "\<forall>e \<in> set (jd_entries db). je_reversal_of_id e \<noteq> Some i"
    by (auto simp: filter_empty_conv filter_eq_Cons_iff)
qed

lemma reversal_row:
  assumes "distinct (map the (filter (\<lambda>x. x \<noteq> None) (map je_reversal_of_id es)))" "e \<in> set es" "je_reversal_of_id e = Some i"
  shows "filter (\<lambda>e. je_reversal_of_id e = Some i) es = [e]"
  using assms
proof (induction es)
  case (Cons r es)
  show ?case
  proof (cases "je_reversal_of_id r = Some i")
    case True
    then have "\<forall>x \<in> set es. je_reversal_of_id x \<noteq> Some i" using Cons.prems(1) by force
    then show ?thesis using True Cons.prems(2,3) by (auto simp: filter_empty_conv)
  next
    case False
    then show ?thesis using Cons by (auto split: if_splits)
  qed
qed simp

lemma load_reversed:
  assumes "reversal_ok rv" "inv_db db" "e \<in> set (jd_entries db)" "je_reversal_of_id e = Some i"
  shows "load_and_validate rv i db = Inl (EntryAlreadyReversedError i)"
proof -
  have q: "query_one (rs_one_entry rv)" using assms(1) by (simp add: reversal_ok_def)
  have "origin_ok (jd_entries db) e" using assms(2,3) by (simp add: inv_db_def list_all_iff)
  then obtain orig where o: "orig \<in> set (jd_entries db)" "je_id orig = i" using assms(4) by (auto simp: origin_ok_def)
  then have "filter (\<lambda>e. je_id e = i) (jd_entries db) = [orig]"
    using filter_unique_key [of je_id "jd_entries db" i] find_in_distinct [of je_id "jd_entries db" orig] assms(2)
    by (simp add: inv_db_def)
  moreover have "je_status orig = POSTED" using assms(2) o(1) by (simp add: inv_db_def list_all_iff entry_ok_def)
  moreover have "filter (\<lambda>e. je_reversal_of_id e = Some i) (jd_entries db) = [e]"
    using assms(2) by (intro reversal_row assms(3,4)) (simp add: inv_db_def)
  ultimately show ?thesis by (simp add: load_and_validate_def query_one.one_single [OF q])
qed

lemma establish_Inr:
  assumes "establish_link sv race l False ls = (Inr r, ls')"
  shows "lk_rows ls' = lk_rows ls @ race @ [link_from_domain l]" "lk_committed ls' = lk_committed ls @ race"
  using assms
  by (auto simp: establish_link_def persist_link_def insert_link_def Let_def result_iffs split: sum.splits option.splits if_splits)

lemma add_event_Inr:
  assumes "add_event others r db = Inr db'"
  shows "db' = db\<lparr>kd_events := kd_events db @ [r],
      kd_journal := (kd_journal db)\<lparr>jd_event_ids := jd_event_ids (kd_journal db) @ [event_id r]\<rparr>\<rparr>"
    "event_id r \<notin> event_id ` set (kd_events db)"
  using assms by (auto simp: add_event_def insert_event_def list_ex_iff split: sum.splits if_splits)

lemma open_period:
  assumes "query_one one" "wf_periods ps" "validate_effective_date one d False ps = Inr u"
  shows "\<exists>p \<in> set ps. fp_contains_date d p \<and> fp_status p = OPEN"
proof -
  obtain p where p: "find (fp_contains_date d) ps = Some p" "\<not> fp_is_closed p" "fp_status p \<noteq> CLOSING"
    using assms period_queries.period_for_date [OF period_queriesI [OF assms(1)] assms(2)]
    by (auto simp: validate_effective_date_def split: option.splits if_splits)
  then have "p \<in> set ps" "fp_contains_date d p" by (auto simp: find_Some_iff)
  then show ?thesis using p(2,3) by (cases "fp_status p") (auto simp: fp_is_closed_def)
qed

text \<open>What a call that returns has done, table by table.\<close>

definition reversed_by ::
    "reversal_service \<Rightarrow> journal_entry \<Rightarrow> journal_entry \<Rightarrow> kernel_db \<Rightarrow> kernel_db \<Rightarrow> reversal_result \<Rightarrow> bool" where
  "reversed_by rv orig ren db db' r \<longleftrightarrow>
     r = \<lparr>rr_original_entry_id = je_id orig, rr_reversal_entry_id = je_id ren, rr_reversal_seq = je_seq ren,
          rr_effective_date = je_effective_date ren, rr_link_id = rr_link_id r\<rparr>
     \<and> jd_entries (kd_journal db') = jd_entries (kd_journal db) @ [ren]
     \<and> je_status ren = POSTED \<and> je_reversal_of_id ren = Some (je_id orig)
     \<and> (\<forall>acc c. net acc c (je_lines orig) + net acc c (je_lines ren) = 0)
     \<and> (\<exists>row. kd_events db' = kd_events db @ [row] \<and> event_id row = je_source_event_id ren
          \<and> payload_hash row = hash_payload (au_sha (rs_auditor rv)) (payload row))
     \<and> (\<exists>l \<in> set (kd_links db'). el_link_id l = rr_link_id r \<and> el_link_type l = REVERSED_BY
          \<and> el_parent_ref l = journal_entry_ref (je_id orig) \<and> el_child_ref l = journal_entry_ref (je_id ren))
     \<and> (\<exists>e. ad_events (kd_audit db') = ad_events (kd_audit db) @ [e] \<and> ae_action e = JOURNAL_REVERSED
          \<and> ae_entity_id e = je_id ren)
     \<and> kd_periods db' = kd_periods db"

lemma link_and_record_Inr:
  assumes "link_and_record rv env ev orig ren eff reason actor s = Inr (r, s')"
  obtains ls lc e ad where "record_reversal (rs_auditor rv) (re_audit env) (je_id ren) (je_id orig) reason actor
      (kd_audit (ks_working s)) = Inr (e, ad)"
    "r = \<lparr>rr_original_entry_id = je_id orig, rr_reversal_entry_id = je_id ren, rr_reversal_seq = je_seq ren,
        rr_effective_date = eff, rr_link_id = re_link_id env\<rparr>"
    "s' = \<lparr>ks_committed = (ks_committed s)\<lparr>kd_links := lc\<rparr>, ks_working = (ks_working s)\<lparr>kd_links := ls, kd_audit := ad\<rparr>\<rparr>"
    "reversal_link (re_link_id env) (re_now env) ev orig ren reason \<in> set ls"
proof -
  let ?l = "reversal_link (re_link_id env) (re_now env) ev orig ren reason"
  let ?s = "\<lparr>lk_committed = kd_links (ks_committed s), lk_rows = kd_links (ks_working s)\<rparr>"
  have "mk_economic_link ?l = Inr ?l"
    using assms by (auto simp: link_and_record_def result_iffs dest: mk_economic_link_Inr)
  then obtain x ls where l: "establish_link (rs_link_graph rv) (re_other_links env) ?l False ?s = (Inr x, ls)"
    using assms by (auto simp: link_and_record_def split: prod.splits sum.splits)
  have "link_from_domain ?l = ?l" by (simp add: link_from_domain_def reversal_link_def)
  then have "?l \<in> set (lk_rows ls)" using establish_Inr(1) [OF l] by simp
  then show ?thesis using that assms \<open>mk_economic_link ?l = Inr ?l\<close> l by (auto simp: link_and_record_def result_iffs)
qed

lemma execute_reversal_Inr:
  assumes ok: "reversal_ok rv" "kernel_inv rv (ks_working s)" and orig: "orig \<in> set (jd_entries (kd_journal (ks_working s)))"
    and no: "\<forall>e \<in> set (jd_entries (kd_journal (ks_working s))). je_reversal_of_id e \<noteq> Some (je_id orig)"
    and ex: "execute_reversal rv env orig eff reason actor rid s = Inr (r, s')"
  shows "\<exists>ren. reversed_by rv orig ren (ks_working s) (ks_working s') r \<and> je_effective_date ren = eff"
    "kernel_inv rv (ks_working s')" "\<exists>ls. ks_committed s' = (ks_committed s)\<lparr>kd_links := ls\<rparr>"
proof -
  define ev where "ev = (case rid of Some i \<Rightarrow> i | None \<Rightarrow> re_event_id env)"
  define row where "row = reversal_event rv (re_now env) ev orig eff reason actor"
  define w1 where "w1 = (ks_working s)\<lparr>kd_events := kd_events (ks_working s) @ [row],
      kd_journal := (kd_journal (ks_working s))\<lparr>jd_event_ids := jd_event_ids (kd_journal (ks_working s)) @ [ev]\<rparr>\<rparr>"
  have id: "event_id row = ev" by (simp add: row_def reversal_event_def)
  obtain w where "add_event (re_other_events env) row (ks_working s) = Inr w"
    using ex by (auto simp: execute_reversal_def Let_def result_iffs row_def ev_def)
  from this add_event_Inr [OF this] have add: "add_event (re_other_events env) row (ks_working s) = Inr w1"
    and fresh: "ev \<notin> event_id ` set (kd_events (ks_working s))" by (simp_all add: w1_def id)
  obtain ren jd where w: "write_reversal (rs_one_entry rv) (re_create env) orig ev actor eff reason ''system.reversal''
        (Some (entry_ledger_id orig)) (kd_journal w1) = Inr (ren, jd)"
    and lr: "link_and_record rv env ev orig ren eff reason actor (s\<lparr>ks_working := w1\<lparr>kd_journal := jd\<rparr>\<rparr>) = Inr (r, s')"
    using ex unfolding execute_reversal_def Let_def ev_def [symmetric] row_def [symmetric] add by (auto simp: result_iffs)
  from lr obtain ls lc e ad
    where a: "record_reversal (rs_auditor rv) (re_audit env) (je_id ren) (je_id orig) reason actor (kd_audit w1) = Inr (e, ad)"
    and r: "r = \<lparr>rr_original_entry_id = je_id orig, rr_reversal_entry_id = je_id ren, rr_reversal_seq = je_seq ren,
        rr_effective_date = eff, rr_link_id = re_link_id env\<rparr>"
    and s': "s' = \<lparr>ks_committed = (ks_committed s)\<lparr>kd_links := lc\<rparr>,
        ks_working = w1\<lparr>kd_journal := jd, kd_links := ls, kd_audit := ad\<rparr>\<rparr>"
    and l: "reversal_link (re_link_id env) (re_now env) ev orig ren reason \<in> set ls"
    by (elim link_and_record_Inr) simp
  have q: "query_one (rs_one_entry rv)" "query_one (au_one (rs_auditor rv))" using ok(1) by (simp_all add: reversal_ok_def)
  have inv: "inv_db (kd_journal w1)" "orig \<in> set (jd_entries (kd_journal w1))"
    using ok(2) orig by (simp_all add: kernel_inv_def w1_def)
  note ren = reversal_entry_of [OF q(1) inv w]
  have "jd_entries jd = jd_entries (kd_journal w1) @ [ren] \<and> je_source_event_id ren = ev \<and> je_effective_date ren = eff
      \<and> jd_event_ids jd = jd_event_ids (kd_journal w1)"
    using w
  proof (cases rule: write_reversal_cases)
    case existing
    then have "ren \<in> set (jd_entries (kd_journal (ks_working s)))" using ren(3) by (simp add: w1_def)
    then show ?thesis using no ren(2) by auto
  next
    case (new sq cs)
    then show ?thesis by (simp add: posted_version_def reversal_draft_def)
  qed
  then have new: "jd_entries jd = jd_entries (kd_journal w1) @ [ren]" "je_source_event_id ren = ev" "je_effective_date ren = eff"
    "jd_event_ids jd = jd_event_ids (kd_journal w1)" by blast+
  obtain b where "je_lines ren = map (reversal_line b) (sort_key jl_line_seq (je_lines orig))" using ren(1) by blast
  then have net: "net acc c (je_lines orig) + net acc c (je_lines ren) = 0" for acc c
    by (simp add: net_reversal net_mset [of "sort_key jl_line_seq (je_lines orig)" "je_lines orig"])
  have aud: "audit_inv (rs_auditor rv) (kd_audit w1)" using ok(2) by (simp add: kernel_inv_def w1_def)
  note au = create_audit_event_inv [OF q(2) aud a [unfolded record_reversal_def]]
  have "reversed_by rv orig ren (ks_working s) (ks_working s') r"
    unfolding reversed_by_def
    using ren(2,4) new(1-3) net au(2,4,5) id
    by (auto simp: r s' w1_def row_def reversal_event_def reversal_link_def intro!: bexI [OF _ l])
  then show "\<exists>ren. reversed_by rv orig ren (ks_working s) (ks_working s') r \<and> je_effective_date ren = eff" using new(3) by blast
  show "kernel_inv rv (ks_working s')"
    using ok(2) write_reversal_inv [OF w inv] au(1) fresh new(4) by (auto simp: kernel_inv_def s' w1_def id)
  show "\<exists>ls. ks_committed s' = (ks_committed s)\<lparr>kd_links := ls\<rparr>" by (auto simp: s')
qed

lemma reverse_Inr:
  assumes "reversal_ok rv" "kernel_inv rv (ks_working s)"
    and "case target of None \<Rightarrow> reverse_in_same_period rv env i reason actor rid s = Inr (r, s')
       | Some d \<Rightarrow> reverse_in_current_period rv env i reason actor d rid s = Inr (r, s')"
  obtains orig where "orig \<in> set (jd_entries (kd_journal (ks_working s)))" "je_id orig = i" "je_status orig = POSTED"
    "\<forall>e \<in> set (jd_entries (kd_journal (ks_working s))). je_reversal_of_id e \<noteq> Some (je_id orig)"
    "\<exists>p \<in> set (kd_periods (ks_working s)). fp_contains_date (case_option (je_effective_date orig) id target) p \<and> fp_status p = OPEN"
    "execute_reversal rv env orig (case_option (je_effective_date orig) id target) reason actor rid s = Inr (r, s')"
proof -
  obtain orig u where o: "load_and_validate rv i (kd_journal (ks_working s)) = Inr orig"
    "validate_effective_date (rs_one_period rv) (case_option (je_effective_date orig) id target) False (kd_periods (ks_working s)) = Inr u"
    and ex: "execute_reversal rv env orig (case_option (je_effective_date orig) id target) reason actor rid s = Inr (r, s')"
    using assms(3) by (cases target) (auto simp: reverse_in_same_period_def reverse_in_current_period_def result_iffs)
  have "query_one (rs_one_period rv)" "wf_periods (kd_periods (ks_working s))"
    using assms(1,2) by (simp_all add: reversal_ok_def kernel_inv_def)
  from open_period [OF this o(2)] load_and_validate_Inr [OF assms(1) o(1)] ex show ?thesis using that by blast
qed

section \<open>Properties\<close>

text \<open>
  Property C13. A reversal that returns is complete and lawful (R4, R9, R11, R12): the original is a posted
  entry without an earlier reversal, the effective date (the original's, or the caller's) lies in an open
  period, and all tables moved together. The journal grew by one posted entry that refers to the original and
  nets it to zero on every account and in every currency; the event table by the event that entry is sourced from, with the
  hash of its payload; the link graph holds the REVERSED\_BY link between the two; the audit log grew by one record of the
  reversal. Nothing that was there changed, nothing of this session was committed, and the invariants of all
  components hold again.
\<close>

theorem reversal_complete:
  assumes "reversal_ok rv" "kernel_inv rv (ks_working s)"
    and "case target of None \<Rightarrow> reverse_in_same_period rv env i reason actor rid s = Inr (r, s')
       | Some d \<Rightarrow> reverse_in_current_period rv env i reason actor d rid s = Inr (r, s')"
  shows "\<exists>orig ren. orig \<in> set (jd_entries (kd_journal (ks_working s))) \<and> je_id orig = i \<and> je_status orig = POSTED
    \<and> (\<forall>e \<in> set (jd_entries (kd_journal (ks_working s))). je_reversal_of_id e \<noteq> Some i)
    \<and> je_effective_date ren = (case target of None \<Rightarrow> je_effective_date orig | Some d \<Rightarrow> d)
    \<and> (\<exists>p \<in> set (kd_periods (ks_working s)). fp_contains_date (je_effective_date ren) p \<and> fp_status p = OPEN)
    \<and> reversed_by rv orig ren (ks_working s) (ks_working s') r
    \<and> kernel_inv rv (ks_working s') \<and> (\<exists>ls. ks_committed s' = (ks_committed s)\<lparr>kd_links := ls\<rparr>)"
proof -
  from reverse_Inr [OF assms] obtain orig where o: "orig \<in> set (jd_entries (kd_journal (ks_working s)))" "je_id orig = i"
    "je_status orig = POSTED" "\<forall>e \<in> set (jd_entries (kd_journal (ks_working s))). je_reversal_of_id e \<noteq> Some (je_id orig)"
    and p: "\<exists>p \<in> set (kd_periods (ks_working s)). fp_contains_date (case_option (je_effective_date orig) id target) p \<and> fp_status p = OPEN"
    and ex: "execute_reversal rv env orig (case_option (je_effective_date orig) id target) reason actor rid s = Inr (r, s')" .
  note e = execute_reversal_Inr [OF assms(1,2) o(1,4) ex]
  obtain ren where "reversed_by rv orig ren (ks_working s) (ks_working s') r"
    "je_effective_date ren = (case target of None \<Rightarrow> je_effective_date orig | Some d \<Rightarrow> d)"
    using e(1) by (cases target) auto
  then show ?thesis using o p e(2,3) by (intro exI [of _ orig] exI [of _ ren]) (cases target; auto)
qed

text \<open>
  Property C15. An entry is reversed at most once: after a reversal returned, in that session and in every later
  state of the journal, both operations refuse to reverse the entry again and say so, whatever else was written in between.
\<close>

theorem reversed_once:
  assumes "reversal_ok rv" "kernel_inv rv (ks_working s)"
    and "case target of None \<Rightarrow> reverse_in_same_period rv env i reason actor rid s = Inr (r, s')
       | Some d \<Rightarrow> reverse_in_current_period rv env i reason actor d rid s = Inr (r, s')"
    and "inv_db (kd_journal (ks_working t))" "extends (kd_journal (ks_working s')) (kd_journal (ks_working t))"
  shows "reverse_in_same_period rv env' i reason' actor' rid' t = Inl (EntryAlreadyReversedError i)
    \<and> reverse_in_current_period rv env' i reason' actor' d rid' t = Inl (EntryAlreadyReversedError i)"
proof -
  from reverse_Inr [OF assms(1-3)] obtain orig where o: "orig \<in> set (jd_entries (kd_journal (ks_working s)))" "je_id orig = i"
    "\<forall>e \<in> set (jd_entries (kd_journal (ks_working s))). je_reversal_of_id e \<noteq> Some (je_id orig)"
    "execute_reversal rv env orig (case_option (je_effective_date orig) id target) reason actor rid s = Inr (r, s')" by metis
  from execute_reversal_Inr(1) [OF assms(1,2) o(1,3,4)] obtain ren
    where "reversed_by rv orig ren (ks_working s) (ks_working s') r" by blast
  then have "ren \<in> set (jd_entries (kd_journal (ks_working s')))" "je_reversal_of_id ren = Some i"
    using o(2) by (simp_all add: reversed_by_def)
  moreover from this have "ren \<in> set (jd_entries (kd_journal (ks_working t)))" using assms(5) by (auto simp: extends_iff)
  ultimately show ?thesis using load_reversed [OF assms(1,4)]
    by (simp add: reverse_in_same_period_def reverse_in_current_period_def)
qed

section \<open>A reversal\<close>

definition demo_reversals :: reversal_service where
  "demo_reversals = \<lparr>rs_one_entry = scalar_one_or_none, rs_one_period = scalar_one_or_none,
     rs_link_graph = \<lparr>lv_one = scalar_one_or_none, lv_limit = 10\<rparr>, rs_auditor = demo_auditor\<rparr>"

definition demo_reversal_env :: reversal_env where
  "demo_reversal_env = \<lparr>re_now = 5, re_event_id = 8, re_link_id = 60, re_other_events = [], re_create = denv 88,
     re_other_links = [], re_audit = \<lparr>av_now = 5, av_race = None\<rparr>\<rparr>"

definition demo_kernel :: kernel_session where
  "demo_kernel = (let db = \<lparr>kd_events = [demo_row], kd_journal = gl_db\<lparr>jd_event_ids := [1]\<rparr>, kd_links = [],
       kd_audit = empty_audit, kd_periods = [january\<lparr>fp_end_date := 131\<rparr>]\<rparr>
     in \<lparr>ks_committed = db, ks_working = db\<rparr>)"

definition demo_reverse :: "reversal_exc + reversal_result \<times> kernel_session" where
  "demo_reverse = reverse_in_current_period demo_reversals demo_reversal_env 77 ''void'' 3 101 (Some 2) demo_kernel"

lemma demo_reversals_ok: "reversal_ok demo_reversals"
  by (simp add: reversal_ok_def demo_reversals_def soon.query_one_axioms demo_audit_query)

lemma demo_kernel_inv: "kernel_inv demo_reversals (ks_working demo_kernel)"
proof -
  have "inv_db gl_db"
    using reachable_inv [OF usd_reachable(2), of "''GL''" 77] by (simp add: inv_session_def usd_session_def)
  then show ?thesis
    by (simp add: kernel_inv_def demo_kernel_def Let_def audit_inv_empty wf_periods_def january_def demo_row_def demo_request_def
        event_envelope.defs)
qed

lemma demo_reverse_Inr: "\<exists>r s'. demo_reverse = Inr (r, s')"
proof -
  have j: "(gl_db\<lparr>jd_event_ids := [1]\<rparr>)\<lparr>jd_event_ids := [1, 2]\<rparr> = gl_db" by (simp add: usd_db_def)
  have g: "je_id gl_entry = 77" "je_status gl_entry = POSTED" "je_reversal_of_id gl_entry = None" "entry_ledger_id gl_entry = ''GL''"
    by (simp_all add: usd_entry_def denv_def) (simp add: entry_ledger_id_def posted_version_def draft_entry_def usd_intent_def)
  have r: "je_id gl_reversal = 88" "je_seq gl_reversal = Some 2" by (simp_all add: gl_reversal_def denv_def)
  have load: "load_and_validate demo_reversals 77 (gl_db\<lparr>jd_event_ids := [1]\<rparr>) = Inr gl_entry"
    by (simp add: load_and_validate_def demo_reversals_def usd_db_def g)
  have period: "validate_effective_date scalar_one_or_none 101 False [january\<lparr>fp_end_date := 131\<rparr>] = Inr ()"
    by (simp add: validate_effective_date_def get_period_for_date_orm_def january_def fp_is_closed_def)
  have add: "add_event [] (reversal_event demo_reversals 5 2 gl_entry 101 ''void'' 3) (ks_working demo_kernel) =
      Inr ((ks_working demo_kernel)\<lparr>kd_events := [demo_row, reversal_event demo_reversals 5 2 gl_entry 101 ''void'' 3], kd_journal := gl_db\<rparr>)"
    using j by (simp add: add_event_def insert_event_def demo_kernel_def Let_def demo_row_def demo_request_def
        reversal_event_def event_envelope.defs)
  have rec: "\<exists>p. record_reversal demo_auditor \<lparr>av_now = 5, av_race = None\<rparr> 88 77 ''void'' 3 empty_audit = Inr p"
    by (simp add: record_reversal_def create_audit_event_def demo_auditor_def empty_audit_def next_value_def get_last_hash_def
        hash_audit_event_def insert_audit_event_def Let_def)
  have link: "\<exists>x. link_and_record demo_reversals demo_reversal_env 2 gl_entry gl_reversal 101 ''void'' 3 s = Inr x"
    if "kd_links (ks_working s) = []" "kd_audit (ks_working s) = empty_audit" for s
    using rec that by (auto simp: link_and_record_def demo_reversals_def demo_reversal_env_def reversal_link_def mk_economic_link_def
        journal_entry_ref_def g r mk_spec_def spec_validate_def establish_link_def find_existing_link_def
        find_existing_link_by_refs_def acyclic_link_types_def max_children_error_def count_children_def persist_link_def insert_link_def)
  have "\<exists>x. execute_reversal demo_reversals demo_reversal_env gl_entry 101 ''void'' 3 (Some 2) demo_kernel = Inr x"
    using gl_reverse link add
    by (simp add: execute_reversal_def demo_reversal_env_def demo_reversals_def g demo_kernel_def Let_def)
  then show ?thesis using load period
    by (simp add: demo_reverse_def reverse_in_current_period_def demo_kernel_def Let_def) (simp add: demo_reversals_def)
qed

theorem reversal_complete_witness:
  "\<exists>r s' ren. demo_reverse = Inr (r, s') \<and> jd_entries (kd_journal (ks_working s')) = [gl_entry, ren]
     \<and> je_reversal_of_id ren = Some 77 \<and> je_effective_date ren = 101"
proof -
  obtain r s' where d: "demo_reverse = Inr (r, s')" using demo_reverse_Inr by blast
  have e: "jd_entries (kd_journal (ks_working demo_kernel)) = [gl_entry]" by (simp add: demo_kernel_def Let_def usd_db_def)
  have "case Some 101 of None \<Rightarrow> reverse_in_same_period demo_reversals demo_reversal_env 77 ''void'' 3 (Some 2) demo_kernel = Inr (r, s')
     | Some dt \<Rightarrow> reverse_in_current_period demo_reversals demo_reversal_env 77 ''void'' 3 dt (Some 2) demo_kernel = Inr (r, s')"
    using d by (simp add: demo_reverse_def)
  from reversal_complete [OF demo_reversals_ok demo_kernel_inv this] obtain orig ren where
    "reversed_by demo_reversals orig ren (ks_working demo_kernel) (ks_working s') r" "je_id orig = 77" "je_effective_date ren = 101" by auto
  then show ?thesis using d e by (auto simp: reversed_by_def)
qed

theorem reversed_once_witness:
  "\<exists>r s'. demo_reverse = Inr (r, s')
     \<and> reverse_in_same_period demo_reversals demo_reversal_env 77 ''again'' 3 None s' = Inl (EntryAlreadyReversedError 77)"
proof -
  obtain r s' where d: "demo_reverse = Inr (r, s')" using demo_reverse_Inr by blast
  have c: "case Some 101 of None \<Rightarrow> reverse_in_same_period demo_reversals demo_reversal_env 77 ''void'' 3 (Some 2) demo_kernel = Inr (r, s')
     | Some dt \<Rightarrow> reverse_in_current_period demo_reversals demo_reversal_env 77 ''void'' 3 dt (Some 2) demo_kernel = Inr (r, s')"
    using d by (simp add: demo_reverse_def)
  obtain orig where o: "orig \<in> set (jd_entries (kd_journal (ks_working demo_kernel)))"
    "\<forall>e \<in> set (jd_entries (kd_journal (ks_working demo_kernel))). je_reversal_of_id e \<noteq> Some (je_id orig)"
    "execute_reversal demo_reversals demo_reversal_env orig (case_option (je_effective_date orig) id (Some 101)) ''void'' 3 (Some 2)
       demo_kernel = Inr (r, s')"
    using reverse_Inr [OF demo_reversals_ok demo_kernel_inv c] by metis
  have "inv_db (kd_journal (ks_working s'))"
    using execute_reversal_Inr(2) [OF demo_reversals_ok demo_kernel_inv o] by (simp add: kernel_inv_def)
  from reversed_once [OF demo_reversals_ok demo_kernel_inv c this extends_refl]
  have "reverse_in_same_period demo_reversals demo_reversal_env 77 ''again'' 3 None s' = Inl (EntryAlreadyReversedError 77)" by blast
  then show ?thesis using d by blast
qed

end
