(* ===== verification/Party_Service.thy ===== *)
theory Party_Service
  imports Decimal
begin

text \<open>
  \<open>finance_kernel/models/party.py\<close> and \<open>finance_kernel/services/party_service.py\<close>: the external entities and actors
  of the system and whether they may transact (G14). The table is a list of rows; identifiers of new rows are
  arguments. An actor is looked up by primary key, a party by its unique code. Failed calls carry no
  table, the caller rolls back.

  The lemmas show that codes stay unique and identify a party for ever, which operations change
  what a party may do, and that closing a party is not final.
\<close>

section \<open>Parties\<close>

datatype party_type = CUSTOMER | SUPPLIER | EMPLOYEE | INTERCOMPANY | SYSTEM | MIGRATION_SERVICE

datatype party_status = PARTY_ACTIVE | PARTY_FROZEN | PARTY_CLOSED

record party_info =
  pa_id :: uuid
  pa_party_code :: string
  pa_party_type :: party_type
  pa_name :: string
  pa_status :: party_status
  pa_is_active :: bool
  pa_credit_limit :: "decimal option"
  pa_credit_currency :: "string option"
  pa_payment_terms_days :: "int option"
  pa_default_currency :: "string option"
  pa_tax_id :: "string option"
  pa_external_ref :: "string option"

record party = party_info +
  pa_created_by_id :: uuid

type_synonym parties = "party list"
type_synonym one_party = "party list \<Rightarrow> py_exc + party option"

datatype party_exc =
    PartyPy py_exc
  | PartyNotFoundError string
  | PartyFrozenError string
  | PartyInactiveError string

definition party_is_frozen :: "'a party_info_scheme \<Rightarrow> bool" where
  "party_is_frozen p \<longleftrightarrow> pa_status p = PARTY_FROZEN"

definition can_transact :: "'a party_info_scheme \<Rightarrow> bool" where
  "can_transact p \<longleftrightarrow> pa_is_active p \<and> pa_status p = PARTY_ACTIVE"

definition party_to_dto :: "party \<Rightarrow> party_info" where
  "party_to_dto p = party_info.truncate p"

section \<open>Queries\<close>

text \<open>\<open>session.get\<close> finds at most the one row with the primary key.\<close>

definition party_row_by_id :: "uuid \<Rightarrow> parties \<Rightarrow> party_exc + party" where
  "party_row_by_id pid ps =
     (case find (\<lambda>p. pa_id p = pid) ps of None \<Rightarrow> Inl (PartyNotFoundError (uuid_str pid)) | Some p \<Rightarrow> Inr p)"

definition party_row_by_code :: "one_party \<Rightarrow> string \<Rightarrow> parties \<Rightarrow> party_exc + party" where
  "party_row_by_code one code ps =
     rbind (map_sum PartyPy id (one (filter (\<lambda>p. pa_party_code p = code) ps))) (\<lambda>r.
       case r of None \<Rightarrow> Inl (PartyNotFoundError code) | Some p \<Rightarrow> Inr p)"

definition get_party_by_id :: "uuid \<Rightarrow> parties \<Rightarrow> party_exc + party_info" where
  "get_party_by_id pid ps = rmap party_to_dto (party_row_by_id pid ps)"

definition get_party_by_code :: "one_party \<Rightarrow> string \<Rightarrow> parties \<Rightarrow> party_exc + party_info" where
  "get_party_by_code one code ps = rmap party_to_dto (party_row_by_code one code ps)"

definition find_party_by_code :: "one_party \<Rightarrow> string \<Rightarrow> parties \<Rightarrow> party_exc + party_info option" where
  "find_party_by_code one code ps =
     rmap (map_option party_to_dto) (map_sum PartyPy id (one (filter (\<lambda>p. pa_party_code p = code) ps)))"

text \<open>The order of codes is the database's collation, here the argument \<open>rank\<close>.\<close>

definition list_parties_by_type :: "(string \<Rightarrow> nat) \<Rightarrow> party_type \<Rightarrow> bool \<Rightarrow> parties \<Rightarrow> party_info list" where
  "list_parties_by_type rank pt active_only ps =
     map party_to_dto (sort_key (\<lambda>p. rank (pa_party_code p))
       (filter (\<lambda>p. pa_party_type p = pt \<and> (active_only \<longrightarrow> pa_is_active p)) ps))"

section \<open>Changes\<close>

definition insert_party :: "party \<Rightarrow> parties \<Rightarrow> py_exc + parties" where
  "insert_party p ps =
     (if list_ex (\<lambda>q. pa_party_code q = pa_party_code p \<or> pa_id q = pa_id p) ps then Inl IntegrityError else Inr (ps @ [p]))"

definition create_party ::
    "uuid \<Rightarrow> string \<Rightarrow> party_type \<Rightarrow> string \<Rightarrow> uuid \<Rightarrow> decimal option \<Rightarrow> string option \<Rightarrow> int option \<Rightarrow> string option
     \<Rightarrow> string option \<Rightarrow> string option \<Rightarrow> parties \<Rightarrow> party_exc + party_info \<times> parties" where
  "create_party new_id code pt name actor limit limit_cur terms cur tax ext ps =
     (let p = \<lparr>pa_id = new_id, pa_party_code = code, pa_party_type = pt, pa_name = name, pa_status = PARTY_ACTIVE,
            pa_is_active = True, pa_credit_limit = limit, pa_credit_currency = limit_cur, pa_payment_terms_days = terms,
            pa_default_currency = cur, pa_tax_id = tax, pa_external_ref = ext, pa_created_by_id = actor\<rparr>
      in rmap (Pair (party_to_dto p)) (map_sum PartyPy id (insert_party p ps)))"

definition update_party_row :: "uuid \<Rightarrow> (party \<Rightarrow> party) \<Rightarrow> parties \<Rightarrow> party_exc + party_info \<times> parties" where
  "update_party_row pid f ps =
     rmap (\<lambda>p. (party_to_dto (f p), map (\<lambda>q. if pa_id q = pid then f q else q) ps)) (party_row_by_id pid ps)"

definition update_party ::
    "uuid \<Rightarrow> string option \<Rightarrow> decimal option \<Rightarrow> string option \<Rightarrow> int option \<Rightarrow> string option \<Rightarrow> string option \<Rightarrow> string option
     \<Rightarrow> parties \<Rightarrow> party_exc + party_info \<times> parties" where
  "update_party pid name limit limit_cur terms cur tax ext =
     update_party_row pid (\<lambda>p. p\<lparr>
       pa_name := (case name of Some n \<Rightarrow> n | None \<Rightarrow> pa_name p),
       pa_credit_limit := (case limit of Some l \<Rightarrow> Some l | None \<Rightarrow> pa_credit_limit p),
       pa_credit_currency := (case limit_cur of Some c \<Rightarrow> Some c | None \<Rightarrow> pa_credit_currency p),
       pa_payment_terms_days := (case terms of Some t \<Rightarrow> Some t | None \<Rightarrow> pa_payment_terms_days p),
       pa_default_currency := (case cur of Some c \<Rightarrow> Some c | None \<Rightarrow> pa_default_currency p),
       pa_tax_id := (case tax of Some t \<Rightarrow> Some t | None \<Rightarrow> pa_tax_id p),
       pa_external_ref := (case ext of Some t \<Rightarrow> Some t | None \<Rightarrow> pa_external_ref p)\<rparr>)"

definition freeze_party :: "uuid \<Rightarrow> parties \<Rightarrow> party_exc + party_info \<times> parties" where
  "freeze_party pid = update_party_row pid (\<lambda>p. p\<lparr>pa_status := PARTY_FROZEN\<rparr>)"

definition unfreeze_party :: "uuid \<Rightarrow> parties \<Rightarrow> party_exc + party_info \<times> parties" where
  "unfreeze_party pid = update_party_row pid (\<lambda>p. p\<lparr>pa_status := PARTY_ACTIVE\<rparr>)"

definition deactivate_party :: "uuid \<Rightarrow> parties \<Rightarrow> party_exc + party_info \<times> parties" where
  "deactivate_party pid = update_party_row pid (\<lambda>p. p\<lparr>pa_is_active := False\<rparr>)"

definition reactivate_party :: "uuid \<Rightarrow> parties \<Rightarrow> party_exc + party_info \<times> parties" where
  "reactivate_party pid = update_party_row pid (\<lambda>p. p\<lparr>pa_is_active := True\<rparr>)"

definition close_party :: "uuid \<Rightarrow> parties \<Rightarrow> party_exc + party_info \<times> parties" where
  "close_party pid = update_party_row pid (\<lambda>p. p\<lparr>pa_status := PARTY_CLOSED, pa_is_active := False\<rparr>)"

section \<open>Checks\<close>

definition validate_can_transact :: "one_party \<Rightarrow> string \<Rightarrow> parties \<Rightarrow> party_exc + party_info" where
  "validate_can_transact one code ps =
     rbind (party_row_by_code one code ps) (\<lambda>p.
       if pa_status p = PARTY_FROZEN then Inl (PartyFrozenError code)
       else if \<not> pa_is_active p \<or> pa_status p = PARTY_CLOSED then Inl (PartyInactiveError code)
       else Inr (party_to_dto p))"

definition check_credit_limit :: "one_party \<Rightarrow> string \<Rightarrow> decimal \<Rightarrow> string \<Rightarrow> decimal option \<Rightarrow> parties \<Rightarrow> party_exc + bool" where
  "check_credit_limit one code amt cur current_balance ps =
     rmap (\<lambda>p. case pa_credit_limit p of
         None \<Rightarrow> True
       | Some limit \<Rightarrow>
           if (case pa_credit_currency p of None \<Rightarrow> False | Some c \<Rightarrow> c \<noteq> [] \<and> c \<noteq> cur) then True
           else dadd (case current_balance of None \<Rightarrow> 0 | Some b \<Rightarrow> b) amt \<le> limit)
       (party_row_by_code one code ps)"

section \<open>Lemmas\<close>

definition wf_parties :: "parties \<Rightarrow> bool" where
  "wf_parties ps \<longleftrightarrow> distinct (map pa_id ps) \<and> distinct (map pa_party_code ps)"

lemma party_row_by_id_Inr: "party_row_by_id pid ps = Inr p \<Longrightarrow> p \<in> set ps \<and> pa_id p = pid"
  by (auto simp: party_row_by_id_def find_Some_iff split: option.splits)

lemma dto_simps [simp]:
  "can_transact (party_to_dto p) = can_transact p" "pa_party_type (party_to_dto p) = pa_party_type p"
  "pa_id (party_to_dto p) = pa_id p" "pa_party_code (party_to_dto p) = pa_party_code p"
  "pa_status (party_to_dto p) = pa_status p" "pa_is_active (party_to_dto p) = pa_is_active p"
  by (simp_all add: party_to_dto_def party_info.truncate_def can_transact_def)

text \<open>The services change a party only through the operations above; none changes its identity or type.\<close>

inductive party_step :: "parties \<Rightarrow> parties \<Rightarrow> bool" where
  create: "create_party i c pt n a l lc t cu tx e ps = Inr (d, ps') \<Longrightarrow> party_step ps ps'"
| update: "update_party i n l lc t cu tx e ps = Inr (d, ps') \<Longrightarrow> party_step ps ps'"
| freeze: "freeze_party i ps = Inr (d, ps') \<Longrightarrow> party_step ps ps'"
| unfreeze: "unfreeze_party i ps = Inr (d, ps') \<Longrightarrow> party_step ps ps'"
| deactivate: "deactivate_party i ps = Inr (d, ps') \<Longrightarrow> party_step ps ps'"
| reactivate: "reactivate_party i ps = Inr (d, ps') \<Longrightarrow> party_step ps ps'"
| close: "close_party i ps = Inr (d, ps') \<Longrightarrow> party_step ps ps'"

definition identity :: "party \<Rightarrow> uuid \<times> string \<times> party_type \<times> uuid" where
  "identity p = (pa_id p, pa_party_code p, pa_party_type p, pa_created_by_id p)"

lemma update_row_identity:
  assumes "update_party_row pid f ps = Inr (d, ps')" "\<And>p. identity (f p) = identity p"
  shows "map identity ps' = map identity ps"
  using assms by (auto simp: update_party_row_def result_iffs)

lemma party_step_identity:
  assumes "party_step ps ps'"
  shows "\<exists>new. map identity ps' = map identity ps @ new \<and> (wf_parties ps \<longrightarrow> wf_parties ps')"
proof -
  have keep: ?thesis if "map identity ps' = map identity ps"
  proof -
    have "map pa_id ps' = map (fst \<circ> identity) ps'" "map pa_party_code ps' = map (fst \<circ> snd \<circ> identity) ps'"
      "map pa_id ps = map (fst \<circ> identity) ps" "map pa_party_code ps = map (fst \<circ> snd \<circ> identity) ps"
      by (simp_all add: identity_def)
    then show ?thesis using that by (simp add: wf_parties_def flip: map_map)
  qed
  have "(\<exists>i f d. update_party_row i f ps = Inr (d, ps') \<and> (\<forall>p. identity (f p) = identity p))
      \<or> (\<exists>i c pt n a l lc t cu tx e d. create_party i c pt n a l lc t cu tx e ps = Inr (d, ps'))"
    using assms
    by cases (simp_all only: update_party_def freeze_party_def unfreeze_party_def deactivate_party_def
        reactivate_party_def close_party_def, (fastforce simp: identity_def)+)
  then show ?thesis
  proof (elim disjE exE conjE)
    fix i f d assume "update_party_row i f ps = Inr (d, ps')" "\<forall>p. identity (f p) = identity p"
    then have "map identity ps' = map identity ps" using update_row_identity [of i f ps d ps'] by blast
    then show ?thesis by (rule keep)
  qed (auto simp: create_party_def Let_def result_iffs map_sum_Inr_iff insert_party_def wf_parties_def list_ex_iff
      split: if_splits)
qed

lemma party_steps_identity:
  assumes "party_step\<^sup>*\<^sup>* ps ps'" "wf_parties ps"
  shows "wf_parties ps' \<and> (\<exists>new. map identity ps' = map identity ps @ new)"
  using assms by (induction rule: rtranclp_induct) (fastforce dest: party_step_identity)+

text \<open>G14: who may transact is decided by both flags, in either way of asking.\<close>

lemma validate_can_transact_iff:
  assumes "query_one one" "wf_parties ps" "p \<in> set ps"
  shows "validate_can_transact one (pa_party_code p) ps = Inr (party_to_dto p) \<longleftrightarrow> can_transact p"
    "\<not> can_transact p \<Longrightarrow> \<exists>e. validate_can_transact one (pa_party_code p) ps = Inl e"
proof -
  have "filter (\<lambda>q. pa_party_code q = pa_party_code p) ps = [p]"
    using assms(2,3) by (intro filter_key_single) (simp_all add: wf_parties_def)
  then have "party_row_by_code one (pa_party_code p) ps = Inr p"
    using assms(1) by (simp add: party_row_by_code_def query_one.one_Inr_Some [THEN iffD2])
  then show "validate_can_transact one (pa_party_code p) ps = Inr (party_to_dto p) \<longleftrightarrow> can_transact p"
    "\<not> can_transact p \<Longrightarrow> \<exists>e. validate_can_transact one (pa_party_code p) ps = Inl e"
    by (cases "pa_status p"; simp add: validate_can_transact_def can_transact_def)+
qed

section \<open>Closing a party is not final\<close>

lemma party_row_by_id_updated:
  assumes "party_row_by_id pid ps = Inr p" "\<And>p. pa_id (f p) = pa_id p"
  shows "party_row_by_id pid (map (\<lambda>q. if pa_id q = pid then f q else q) ps) = Inr (f p)"
proof -
  have "find (\<lambda>p. pa_id p = pid) (map (\<lambda>q. if pa_id q = pid then f q else q) ps) = map_option f (find (\<lambda>p. pa_id p = pid) ps)"
    using assms(2) by (induction ps) auto
  then show ?thesis using assms(1) by (simp add: party_row_by_id_def split: option.splits)
qed

text \<open>
  Closing says that a party "cannot be reopened" (and \<open>PartyStatus\<close> that transitions seal one way). Yet unfreezing and
  reactivating, in either order, let every closed party transact again.
\<close>

theorem closed_party_reopens:
  assumes "close_party pid ps = Inr (d, ps1)"
  shows "\<not> can_transact d
    \<and> (\<exists>d1 ps2 d2 ps3. unfreeze_party pid ps1 = Inr (d1, ps2) \<and> reactivate_party pid ps2 = Inr (d2, ps3) \<and> can_transact d2)"
proof -
  obtain p where p: "party_row_by_id pid ps = Inr p" "d = party_to_dto (p\<lparr>pa_status := PARTY_CLOSED, pa_is_active := False\<rparr>)"
    and ps1: "ps1 = map (\<lambda>q. if pa_id q = pid then q\<lparr>pa_status := PARTY_CLOSED, pa_is_active := False\<rparr> else q) ps"
    using assms by (auto simp: close_party_def update_party_row_def result_iffs)
  have r1: "party_row_by_id pid ps1 = Inr (p\<lparr>pa_status := PARTY_CLOSED, pa_is_active := False\<rparr>)"
    unfolding ps1 by (rule party_row_by_id_updated [OF p(1)]) simp
  define ps2 where "ps2 = map (\<lambda>q. if pa_id q = pid then q\<lparr>pa_status := PARTY_ACTIVE\<rparr> else q) ps1"
  have r2: "party_row_by_id pid ps2 = Inr (p\<lparr>pa_is_active := False, pa_status := PARTY_ACTIVE\<rparr>)"
    unfolding ps2_def by (subst party_row_by_id_updated [OF r1]) simp_all
  have u: "unfreeze_party pid ps1 = Inr (party_to_dto (p\<lparr>pa_is_active := False, pa_status := PARTY_ACTIVE\<rparr>), ps2)"
    by (simp add: unfreeze_party_def update_party_row_def r1 ps2_def)
  have a: "reactivate_party pid ps2 = Inr (party_to_dto (p\<lparr>pa_status := PARTY_ACTIVE, pa_is_active := True\<rparr>),
      map (\<lambda>q. if pa_id q = pid then q\<lparr>pa_is_active := True\<rparr> else q) ps2)"
    by (simp add: reactivate_party_def update_party_row_def r2)
  have "can_transact (party_to_dto (p\<lparr>pa_status := PARTY_ACTIVE, pa_is_active := True\<rparr>))" "\<not> can_transact d"
    using p(2) by (simp_all add: can_transact_def)
  then show ?thesis using u a by blast
qed

definition demo_party :: party where
  "demo_party = \<lparr>pa_id = 7, pa_party_code = ''CUST-001'', pa_party_type = CUSTOMER, pa_name = ''Ann'', pa_status = PARTY_ACTIVE,
     pa_is_active = True, pa_credit_limit = Some 100, pa_credit_currency = Some ''USD'', pa_payment_terms_days = Some 30,
     pa_default_currency = Some ''USD'', pa_tax_id = None, pa_external_ref = None, pa_created_by_id = 1\<rparr>"

theorem closed_party_reopens_witness:
  "\<not> can_transact (fst (projr (close_party 7 [demo_party])))"
proof -
  have "close_party 7 [demo_party] = Inr (projr (close_party 7 [demo_party]))"
    by (simp add: close_party_def update_party_row_def party_row_by_id_def demo_party_def)
  then show ?thesis using closed_party_reopens [of 7 "[demo_party]"] by (metis prod.collapse)
qed

end
