(* ===== verification/Guard_Expression.thy ===== *)
theory Guard_Expression
  imports Hashing Decimal
begin

text \<open>
  The expression language of guards and controls: \<open>_evaluate_expression\<close>, \<open>_get_field_value\<close> and
  \<open>_compare\<close> of \<open>finance_kernel/domain/meaning_builder.py\<close>, and \<open>finance_kernel/domain/control.py\<close>,
  which has its own copy of them. Python's \<open>str\<close> and \<open>Decimal(text)\<close> are modelled for JSON values
  and texts of code points below 256; exponents beyond the limits of the decimal module are not.
  \<open>None\<close> is the JSON null.

  The lemmas show that the two copies agree, what a numeric guard decides, and which expressions of the
  shipped policies can never trigger.
\<close>

section \<open>Python values and texts\<close>

fun truthy :: "json \<Rightarrow> bool" where
  "truthy JNull = False"
| "truthy (JBool b) = b"
| "truthy (JInt i) = (i \<noteq> 0)"
| "truthy (JStr s) = (s \<noteq> [])"
| "truthy (JList js) = (js \<noteq> [])"
| "truthy (JDict kvs) = (kvs \<noteq> [])"

definition repr_char :: "char \<Rightarrow> char \<Rightarrow> string" where
  "repr_char q c =
     (let n = of_char c :: nat
      in if c = q \<or> c = CHR 0x5C then [CHR 0x5C, c]
         else if c = CHR 0x0A then [CHR 0x5C, CHR ''n'']
         else if c = CHR 0x0D then [CHR 0x5C, CHR ''r'']
         else if c = CHR 0x09 then [CHR 0x5C, CHR ''t'']
         else if n < 32 \<or> 127 \<le> n \<and> n \<le> 160 \<or> n = 173 then [CHR 0x5C, CHR ''x''] @ hex_digits 2 n
         else [c])"

definition repr_str :: "string \<Rightarrow> string" where
  "repr_str s =
     (let q = (if CHR 0x27 \<in> set s \<and> CHR 0x22 \<notin> set s then CHR 0x22 else CHR 0x27)
      in q # concat (map (repr_char q) s) @ [q])"

primrec py_repr :: "json \<Rightarrow> string" where
  "py_repr JNull = ''None''"
| "py_repr (JBool b) = (if b then ''True'' else ''False'')"
| "py_repr (JInt i) = str_of_int i"
| "py_repr (JStr s) = repr_str s"
| "py_repr (JList js) = ''['' @ join '', '' (map py_repr js) @ '']''"
| "py_repr (JDict kvs) =
     ''{'' @ join '', '' (map (\<lambda>(k, s). repr_str k @ '': '' @ s) (map (map_prod id py_repr) kvs)) @ ''}''"

definition py_str :: "json \<Rightarrow> string" where
  "py_str j = (case j of JStr s \<Rightarrow> s | _ \<Rightarrow> py_repr j)"

text \<open>\<open>text.split(sep, 1)\<close> when \<open>sep\<close> occurs, and \<open>text.split(c)\<close>.\<close>

fun split_once :: "string \<Rightarrow> string \<Rightarrow> (string \<times> string) option" where
  "split_once sep [] = None"
| "split_once sep (c # cs) =
     (if take (length sep) (c # cs) = sep then Some ([], drop (length sep) (c # cs))
      else map_option (apfst ((#) c)) (split_once sep cs))"

fun split_char :: "char \<Rightarrow> string \<Rightarrow> string list" where
  "split_char d [] = [[]]"
| "split_char d (c # cs) =
     (case split_char d cs of
        [] \<Rightarrow> [[c]]
      | w # ws \<Rightarrow> if c = d then [] # w # ws else (c # w) # ws)"

section \<open>Decimal(text)\<close>

datatype py_decimal = Finite decimal | Infinite bool | QuietNaN | SignalingNaN

definition is_digit :: "char \<Rightarrow> bool" where
  "is_digit c \<longleftrightarrow> c \<in> set ''0123456789''"

definition digit_value :: "char \<Rightarrow> nat" where
  "digit_value c = (of_char c :: nat) - 48"

definition nat_of_digits :: "string \<Rightarrow> nat" where
  "nat_of_digits ds = foldl (\<lambda>n c. 10 * n + digit_value c) 0 ds"

definition split_sign :: "string \<Rightarrow> bool \<times> string" where
  "split_sign s = (case s of [] \<Rightarrow> (False, []) | c # cs \<Rightarrow> if c = CHR ''-'' then (True, cs) else if c = CHR ''+'' then (False, cs) else (False, s))"

definition parse_exponent :: "string \<Rightarrow> int option" where
  "parse_exponent s =
     (case s of
        [] \<Rightarrow> Some 0
      | c # cs \<Rightarrow>
          (case split_sign cs of (neg, ds) \<Rightarrow>
             if char_lower c = CHR ''e'' \<and> ds \<noteq> [] \<and> list_all is_digit ds
             then Some (if neg then - int (nat_of_digits ds) else int (nat_of_digits ds)) else None))"

definition parse_finite :: "string \<Rightarrow> rat option" where
  "parse_finite s =
     (let ip = takeWhile is_digit s; r = dropWhile is_digit s;
          (fp, r') = (case r of c # cs \<Rightarrow> if c = CHR ''.'' then (takeWhile is_digit cs, dropWhile is_digit cs) else ([], r) | [] \<Rightarrow> ([], []))
      in if ip = [] \<and> fp = [] then None
         else map_option (\<lambda>e. of_nat (nat_of_digits (ip @ fp)) * 10 powi (e - int (length fp))) (parse_exponent r'))"

definition decimal_of_str :: "string \<Rightarrow> py_decimal option" where
  "decimal_of_str text =
     (let s = filter (\<lambda>c. c \<noteq> CHR ''_'') (strip text); (neg, body) = split_sign s; b = lower body
      in if b \<in> {''inf'', ''infinity''} then Some (Infinite neg)
         else if take 3 b = ''nan'' \<and> list_all is_digit (drop 3 b) then Some QuietNaN
         else if take 4 b = ''snan'' \<and> list_all is_digit (drop 4 b) then Some SignalingNaN
         else map_option (\<lambda>r. Finite (if neg then - r else r)) (parse_finite body))"

text \<open>Comparison of decimals; None is the InvalidOperation that comparing a NaN signals.\<close>

definition decimal_le :: "py_decimal \<Rightarrow> py_decimal \<Rightarrow> bool option" where
  "decimal_le x y =
     (case (x, y) of
        (Finite a, Finite b) \<Rightarrow> Some (a \<le> b)
      | (Finite a, Infinite neg) \<Rightarrow> Some (\<not> neg)
      | (Infinite neg, Finite b) \<Rightarrow> Some neg
      | (Infinite n, Infinite m) \<Rightarrow> Some (n \<or> \<not> m)
      | _ \<Rightarrow> None)"

definition decimal_eq :: "py_decimal \<Rightarrow> py_decimal \<Rightarrow> bool option" where
  "decimal_eq x y =
     (if x = SignalingNaN \<or> y = SignalingNaN then None
      else if x = QuietNaN \<or> y = QuietNaN then Some False
      else Some (x = y))"

definition compare_decimals :: "py_decimal \<Rightarrow> string \<Rightarrow> py_decimal \<Rightarrow> bool option" where
  "compare_decimals x cmp y =
     (if cmp = ''<='' then decimal_le x y
      else if cmp = ''>='' then decimal_le y x
      else if cmp = ''<'' then map_option Not (decimal_le y x)
      else if cmp = ''>'' then map_option Not (decimal_le x y)
      else if cmp \<in> {''='', ''==''} then decimal_eq x y
      else map_option Not (decimal_eq x y))"

section \<open>Evaluating expressions\<close>

fun follow_path :: "json \<Rightarrow> string list \<Rightarrow> json" where
  "follow_path current [] = current"
| "follow_path current (p # ps) =
     (case current of
        JDict kvs \<Rightarrow> (case map_of kvs p of Some v \<Rightarrow> follow_path v ps | None \<Rightarrow> JNull)
      | _ \<Rightarrow> JNull)"

definition drop_payload :: "string \<Rightarrow> string" where
  "drop_payload path = (if take 8 path = ''payload.'' then drop 8 path else path)"

definition get_field_value :: "(string \<times> json) list \<Rightarrow> string \<Rightarrow> json" where
  "get_field_value data path = follow_path (JDict data) (split_char CHR ''.'' (drop_payload path))"

definition compare :: "json \<Rightarrow> string \<Rightarrow> string \<Rightarrow> bool" where
  "compare actual cmp expected =
     (if actual = JNull then False
      else if lower expected \<in> {''true'', ''false''} then
        let expected_bool = (lower expected = ''true'')
        in if cmp \<in> {''='', ''==''} then truthy actual = expected_bool
           else if cmp = ''!='' then truthy actual \<noteq> expected_bool
           else False
      else case (case (decimal_of_str (py_str actual), decimal_of_str expected) of
                   (Some x, Some y) \<Rightarrow> compare_decimals x cmp y
                 | _ \<Rightarrow> None) of
        Some b \<Rightarrow> b
      | None \<Rightarrow>
          if cmp \<in> {''='', ''==''} then py_str actual = expected
          else if cmp = ''!='' then py_str actual \<noteq> expected
          else False)"

definition operators :: "string list" where
  "operators = [''<='', ''>='', ''!='', ''=='', ''='', ''<'', ''>'']"

fun first_operator :: "string list \<Rightarrow> string \<Rightarrow> (string \<times> string \<times> string) option" where
  "first_operator [] e = None"
| "first_operator (cmp # cmps) e =
     (case split_once cmp e of Some (l, r) \<Rightarrow> Some (cmp, l, r) | None \<Rightarrow> first_operator cmps e)"

definition evaluate_expression :: "(string \<times> json) list \<Rightarrow> string \<Rightarrow> bool" where
  "evaluate_expression data expression =
     (let e = strip expression
      in case first_operator operators e of
           Some (cmp, l, r) \<Rightarrow> compare (get_field_value data (strip l)) cmp (strip r)
         | None \<Rightarrow> truthy (get_field_value data e))"

section \<open>Controls\<close>

record control_rule =
  cr_name :: string
  cr_applies_to :: string
  cr_action :: string
  cr_expression :: string
  cr_reason_code :: string
  cr_message :: string

record control_result =
  ct_passed :: bool
  ct_rejected :: bool
  ct_blocked :: bool
  ct_triggered_rule :: "control_rule option"
  ct_reason_code :: "string option"
  ct_message :: "string option"

definition control_success :: control_result where
  "control_success = \<lparr>ct_passed = True, ct_rejected = False, ct_blocked = False, ct_triggered_rule = None,
     ct_reason_code = None, ct_message = None\<rparr>"

definition control_reject :: "control_rule \<Rightarrow> control_result" where
  "control_reject r = \<lparr>ct_passed = False, ct_rejected = True, ct_blocked = False, ct_triggered_rule = Some r,
     ct_reason_code = Some (cr_reason_code r), ct_message = Some (if cr_message r \<noteq> [] then cr_message r else cr_reason_code r)\<rparr>"

definition control_block :: "control_rule \<Rightarrow> control_result" where
  "control_block r = \<lparr>ct_passed = False, ct_rejected = False, ct_blocked = True, ct_triggered_rule = Some r,
     ct_reason_code = Some (cr_reason_code r), ct_message = Some (if cr_message r \<noteq> [] then cr_message r else cr_reason_code r)\<rparr>"

definition control_get_field_value :: "(string \<times> json) list \<Rightarrow> string \<Rightarrow> json" where
  "control_get_field_value data path = follow_path (JDict data) (split_char CHR ''.'' (drop_payload (strip path)))"

definition control_evaluate_expression :: "(string \<times> json) list \<Rightarrow> string \<Rightarrow> bool" where
  "control_evaluate_expression data expression =
     (let e = strip expression
      in case first_operator operators e of
           Some (cmp, l, r) \<Rightarrow> compare (control_get_field_value data (strip l)) cmp (strip r)
         | None \<Rightarrow> truthy (control_get_field_value data e))"

fun evaluate_controls :: "(string \<times> json) list \<Rightarrow> string \<Rightarrow> control_rule list \<Rightarrow> control_result" where
  "evaluate_controls data et [] = control_success"
| "evaluate_controls data et (r # rs) =
     (if cr_applies_to r \<noteq> ''*'' \<and> cr_applies_to r \<noteq> et then evaluate_controls data et rs
      else if \<not> control_evaluate_expression data (cr_expression r) then evaluate_controls data et rs
      else if lower (cr_action r) = ''reject'' then control_reject r
      else control_block r)"

section \<open>Texts\<close>

lemma split_once_none: "sep \<noteq> [] \<Longrightarrow> hd sep \<notin> set s \<Longrightarrow> split_once sep s = None"
proof (induction s)
  case (Cons c s)
  then have "take (length sep) (c # s) \<noteq> sep" by (cases sep) auto
  then show ?case using Cons by auto
qed simp

lemma split_once_skip:
  "sep \<noteq> [] \<Longrightarrow> hd sep \<notin> set l \<Longrightarrow> split_once sep (l @ s) = map_option (apfst ((@) l)) (split_once sep s)"
proof (induction l)
  case Nil
  then show ?case by (cases "split_once sep s") auto
next
  case (Cons c l)
  then have "take (length sep) ((c # l) @ s) \<noteq> sep" by (cases sep) auto
  then show ?case using Cons by (cases "split_once sep s") auto
qed

lemma first_operator_skip:
  assumes "\<And>sep. sep \<in> set seps \<Longrightarrow> sep \<noteq> [] \<and> hd sep \<notin> set l"
  shows "first_operator seps (l @ s) = map_option (apsnd (apfst ((@) l))) (first_operator seps s)"
  using assms
proof (induction seps)
  case (Cons sep seps)
  then have "split_once sep (l @ s) = map_option (apfst ((@) l)) (split_once sep s)" by (intro split_once_skip) auto
  then show ?case using Cons by (cases "split_once sep s") auto
qed simp

lemma first_operator_none:
  "(\<And>sep. sep \<in> set seps \<Longrightarrow> sep \<noteq> [] \<and> hd sep \<notin> set s) \<Longrightarrow> first_operator seps s = None"
  by (induction seps) (auto simp: split_once_none)

lemma operator_heads: "sep \<in> set operators \<Longrightarrow> sep \<noteq> [] \<and> hd sep \<in> {CHR ''<'', CHR ''>'', CHR ''!'', CHR ''=''}"
  by (auto simp: operators_def)

lemma strip_space_left: "is_space c \<Longrightarrow> strip (c # s) = strip s"
  by (simp add: strip_def)

lemma strip_space_right: "is_space c \<Longrightarrow> strip (s @ [c]) = strip s"
proof (cases "\<exists>x \<in> set s. \<not> is_space x")
  case False
  assume "is_space c"
  then have "dropWhile is_space (s @ [c]) = []" "dropWhile is_space s = []" using False by (simp_all add: dropWhile_eq_Nil_conv)
  then show ?thesis by (simp only: strip_def)
next
  case True
  assume "is_space c"
  moreover have "dropWhile is_space (s @ [c]) = dropWhile is_space s @ [c]" using True by (metis dropWhile_append1)
  ultimately show ?thesis by (simp add: strip_def)
qed

lemma strip_tight: "s = [] \<or> \<not> is_space (hd s) \<and> \<not> is_space (last s) \<Longrightarrow> strip s = s"
proof (cases s rule: rev_cases)
  case (snoc t c)
  assume "s = [] \<or> \<not> is_space (hd s) \<and> \<not> is_space (last s)"
  then show ?thesis using snoc by (cases t) (auto simp: strip_def)
qed (simp add: strip_def)

section \<open>Reading numbers\<close>

definition number_char :: "char \<Rightarrow> bool" where
  "number_char c \<longleftrightarrow> \<not> is_space c \<and> c \<notin> set ''_+.<>=!'' \<and> char_lower c = c \<and> c \<notin> set ''instf''"

lemma number_chars: "list_all number_char ''-0123456789''"
  by code_simp

lemma digit_facts:
  assumes "is_digit c"
  shows "number_char c" "c \<noteq> CHR ''-''"
proof -
  show "number_char c" using assms number_chars by (auto simp: is_digit_def list_all_iff)
  have "list_all (\<lambda>c. c \<noteq> CHR ''-'') ''0123456789''" by code_simp
  then show "c \<noteq> CHR ''-''" using assms by (auto simp: is_digit_def list_all_iff)
qed

lemma str_of_nat_digits: "list_all is_digit (str_of_nat n)"
  using set_str_of_nat [of n] unfolding list_all_iff is_digit_def by blast

lemma digit_value_nth: "n < 10 \<Longrightarrow> digit_value (''0123456789'' ! n) = n"
proof -
  assume "n < 10"
  moreover have "\<forall>n \<in> {..<10}. digit_value (''0123456789'' ! n) = n" by code_simp
  ultimately show ?thesis by simp
qed

lemma nat_of_digits_str: "nat_of_digits (str_of_nat n) = n"
proof (induction n rule: str_of_nat.induct)
  case (1 n)
  show ?case
  proof (cases "n < 10")
    case True
    then show ?thesis by (simp add: str_of_nat.simps [of n] nat_of_digits_def digit_value_nth)
  next
    case False
    then show ?thesis using 1 by (simp add: str_of_nat.simps [of n] nat_of_digits_def digit_value_nth)
  qed
qed

lemma str_of_int_chars: "c \<in> set (str_of_int i) \<Longrightarrow> number_char c"
  using set_str_of_int [of i] number_chars unfolding list_all_iff by blast

lemma str_of_int_tight: "strip (str_of_int i) = str_of_int i"
proof (rule strip_tight)
  have "str_of_int i \<noteq> []" by (simp add: str_of_int_def)
  then have "hd (str_of_int i) \<in> set (str_of_int i)" "last (str_of_int i) \<in> set (str_of_int i)" by simp_all
  then show "str_of_int i = [] \<or> \<not> is_space (hd (str_of_int i)) \<and> \<not> is_space (last (str_of_int i))"
    using str_of_int_chars unfolding number_char_def by blast
qed

lemma parse_finite_nat: "parse_finite (str_of_nat n) = Some (of_nat n)"
proof -
  have t: "takeWhile is_digit (str_of_nat n) = str_of_nat n" "dropWhile is_digit (str_of_nat n) = []"
    using str_of_nat_digits [of n] by (simp_all add: list_all_iff)
  show ?thesis unfolding parse_finite_def Let_def t by (simp add: parse_exponent_def nat_of_digits_str)
qed

lemma lower_digits: "list_all is_digit s \<Longrightarrow> lower s = s"
  using digit_facts(1) unfolding lower_def number_char_def list_all_iff by (intro map_idI) blast

lemma digits_word:
  assumes "list_all is_digit s" "s \<noteq> []" "t \<noteq> []" "hd t \<in> set ''instf''"
  shows "take (length t) s \<noteq> t"
proof
  assume "take (length t) s = t"
  then have "hd t = hd s" using assms(2,3) by (metis hd_take length_greater_0_conv)
  moreover have "is_digit (hd s)" using assms(1,2) by (cases s) simp_all
  ultimately show False using assms(4) digit_facts(1) [of "hd s"] unfolding number_char_def by simp
qed

lemma decimal_of_int [simp]: "decimal_of_str (str_of_int i) = Some (Finite (of_int i))"
proof -
  define n where "n = nat \<bar>i\<bar>"
  have s: "filter (\<lambda>c. c \<noteq> CHR ''_'') (strip (str_of_int i)) = str_of_int i"
    using str_of_int_chars [of _ i] unfolding str_of_int_tight number_char_def by (intro filter_True) auto
  have d: "list_all is_digit (str_of_nat n)" "str_of_nat n \<noteq> []" "lower (str_of_nat n) = str_of_nat n"
    using str_of_nat_digits lower_digits by simp_all
  have "hd (str_of_nat n) \<noteq> CHR ''-''" "hd (str_of_nat n) \<noteq> CHR ''+''"
    using d(1,2) digit_facts [of "hd (str_of_nat n)"] unfolding number_char_def by (cases "str_of_nat n"; simp)+
  then have sg: "split_sign (str_of_int i) = (i < 0, str_of_nat n)"
    using d(2) by (cases "str_of_nat n") (auto simp: split_sign_def str_of_int_def n_def)
  have "take 3 (str_of_nat n) \<noteq> ''nan''" "take 4 (str_of_nat n) \<noteq> ''snan''" "str_of_nat n \<noteq> ''inf''" "str_of_nat n \<noteq> ''infinity''"
    using digits_word [OF d(1,2), of "''nan''"] digits_word [OF d(1,2), of "''snan''"]
      digits_word [OF d(1,2), of "''inf''"] digits_word [OF d(1,2), of "''infinity''"]
    by (auto simp: numeral_eq_Suc)
  then show ?thesis unfolding decimal_of_str_def Let_def s sg prod.case d(3)
    by (auto simp: parse_finite_nat n_def)
qed

section \<open>Properties\<close>

lemma control_field: "control_get_field_value data (strip path) = get_field_value data (strip path)"
  by (simp add: control_get_field_value_def get_field_value_def strip_idem)

lemma control_expression: "control_evaluate_expression data e = evaluate_expression data e"
  by (simp add: control_evaluate_expression_def evaluate_expression_def control_field split: option.split prod.split)

text \<open>What the seven operators mean on numbers.\<close>

fun holds :: "decimal \<Rightarrow> string \<Rightarrow> decimal \<Rightarrow> bool" where
  "holds x cmp y =
     (if cmp = ''<='' then x \<le> y else if cmp = ''>='' then x \<ge> y else if cmp = ''<'' then x < y
      else if cmp = ''>'' then x > y else if cmp = ''!='' then x \<noteq> y else x = y)"

lemma compare_holds:
  assumes "cmp \<in> set operators"
  shows "compare_decimals (Finite x) cmp (Finite y) = Some (holds x cmp y)"
  using assms by (auto simp: operators_def compare_decimals_def decimal_le_def decimal_eq_def)

text \<open>A field name of the payload: no operator, dot or space.\<close>

definition plain_field :: "string \<Rightarrow> bool" where
  "plain_field f \<longleftrightarrow> f \<noteq> [] \<and> list_all (\<lambda>c. c \<notin> set ''<>!=.'' \<and> \<not> is_space c) f"

definition comparison :: "string \<Rightarrow> string \<Rightarrow> string \<Rightarrow> string" where
  "comparison f cmp rhs = ''payload.'' @ f @ '' '' @ cmp @ '' '' @ rhs"

lemma split_char_plain: "d \<notin> set s \<Longrightarrow> split_char d s = [s]"
  by (induction s) auto

lemma field_of_payload:
  assumes "plain_field f"
  shows "get_field_value data (''payload.'' @ f) = (case map_of data f of Some v \<Rightarrow> v | None \<Rightarrow> JNull)"
proof -
  have "CHR ''.'' \<notin> set f" using assms by (auto simp: plain_field_def list_all_iff)
  then show ?thesis by (simp add: get_field_value_def drop_payload_def split_char_plain split: option.split)
qed

lemma operator_found:
  assumes "cmp \<in> set operators" "list_all (\<lambda>c. c \<notin> set ''<>!='') rhs"
  shows "first_operator operators (cmp @ '' '' @ rhs) = Some (cmp, [], '' '' @ rhs)"
proof -
  have h: "CHR ''<'' \<notin> set rhs" "CHR ''>'' \<notin> set rhs" "CHR ''!'' \<notin> set rhs" "CHR ''='' \<notin> set rhs"
    using assms(2) by (auto simp: list_all_iff)
  have none: "split_once ''<='' rhs = None" "split_once ''>='' rhs = None" "split_once ''!='' rhs = None" "split_once ''=='' rhs = None"
    "split_once ''='' rhs = None" "split_once ''<'' rhs = None" "split_once ''>'' rhs = None"
    using h by (simp_all add: split_once_none)
  from assms(1) consider "cmp = ''<=''" | "cmp = ''>=''" | "cmp = ''!=''" | "cmp = ''==''" | "cmp = ''=''" | "cmp = ''<''" | "cmp = ''>''"
    by (auto simp: operators_def)
  then show ?thesis by cases (simp_all add: operators_def none)
qed

lemma evaluate_comparison:
  assumes "plain_field f" "cmp \<in> set operators" "list_all (\<lambda>c. c \<notin> set ''<>!='') rhs" "strip rhs = rhs" "rhs \<noteq> []"
  shows "evaluate_expression data (comparison f cmp rhs) =
    compare (case map_of data f of Some v \<Rightarrow> v | None \<Rightarrow> JNull) cmp rhs"
proof -
  let ?l = "''payload.'' @ f @ '' ''"
  have f: "f \<noteq> []" "\<forall>c \<in> set f. c \<notin> set ''<>!=.'' \<and> \<not> is_space c"
    using assms(1) by (auto simp: plain_field_def list_all_iff)
  have sp: "is_space CHR '' ''" "\<not> is_space CHR ''p''" by (simp_all add: is_space_def)
  have "\<not> is_space (last rhs)"
  proof
    assume "is_space (last rhs)"
    then have "strip (butlast rhs @ [last rhs]) = strip (butlast rhs)" by (rule strip_space_right)
    then have "rhs = strip (butlast rhs)" using assms(4,5) by simp
    then have "length rhs \<le> length (butlast rhs)" unfolding strip_def
      by (metis length_dropWhile_le length_rev order_trans)
    moreover have "length (butlast rhs) < length rhs" using assms(5) by simp
    ultimately show False using leD by blast
  qed
  then have tight: "strip (comparison f cmp rhs) = comparison f cmp rhs"
    using assms(5) sp(2) by (intro strip_tight) (simp add: comparison_def)
  have "CHR ''<'' \<notin> set f" "CHR ''>'' \<notin> set f" "CHR ''!'' \<notin> set f" "CHR ''='' \<notin> set f" using f(2) by auto
  then have "CHR ''<'' \<notin> set ?l" "CHR ''>'' \<notin> set ?l" "CHR ''!'' \<notin> set ?l" "CHR ''='' \<notin> set ?l" by simp_all
  then have "hd sep \<notin> set ?l" if "sep \<in> set operators" for sep
    using operator_heads [OF that] by (metis insert_iff singletonD)
  then have "first_operator operators (?l @ cmp @ '' '' @ rhs) = Some (cmp, ?l, '' '' @ rhs)"
    using first_operator_skip [of operators ?l "cmp @ '' '' @ rhs"] operator_heads operator_found [OF assms(2,3)] by auto
  then have found: "first_operator operators (strip (comparison f cmp rhs)) = Some (cmp, ?l, '' '' @ rhs)"
    unfolding tight by (simp add: comparison_def)
  have "strip ?l = strip (''payload.'' @ f)" using strip_space_right [OF sp(1), of "''payload.'' @ f"] by simp
  also have "\<dots> = ''payload.'' @ f" using f sp(2) by (intro strip_tight) simp
  finally have l: "strip ?l = ''payload.'' @ f" .
  have r: "strip ('' '' @ rhs) = rhs" using strip_space_left [OF sp(1), of rhs] assms(4) by simp
  show ?thesis unfolding evaluate_expression_def Let_def found option.case prod.case l r field_of_payload [OF assms(1)] ..
qed

text \<open>
  What a numeric guard or control decides. On \<open>payload.<field> <op> <integer>\<close> both evaluators agree; a
  payload that has the field with a finite number, as an integer or as text, triggers it exactly when the comparison holds.
  Without the field, or when it is null, nothing is triggered; a value that is no number triggers only \<open>!=\<close>.
\<close>

theorem numeric_guard:
  assumes "plain_field f" "cmp \<in> set operators"
  shows "control_evaluate_expression data (comparison f cmp (str_of_int n)) = evaluate_expression data (comparison f cmp (str_of_int n))
    \<and> (case map_of data f of
         None \<Rightarrow> \<not> evaluate_expression data (comparison f cmp (str_of_int n))
       | Some v \<Rightarrow>
           (case decimal_of_str (py_str v) of
              Some (Finite x) \<Rightarrow> evaluate_expression data (comparison f cmp (str_of_int n)) = holds x cmp (of_int n)
            | None \<Rightarrow> evaluate_expression data (comparison f cmp (str_of_int n)) = (cmp = ''!='' \<and> v \<noteq> JNull)
            | _ \<Rightarrow> True))"
proof -
  have n: "list_all (\<lambda>c. c \<notin> set ''<>!='') (str_of_int n)" "str_of_int n \<noteq> []" "lower (str_of_int n) = str_of_int n"
    using str_of_int_chars [of _ n] unfolding number_char_def list_all_iff lower_def
    by (auto simp: str_of_int_def intro!: map_idI)
  have word: "str_of_int n \<noteq> ''true''" "str_of_int n \<noteq> ''false''"
    using str_of_int_chars [of "CHR ''t''" n] str_of_int_chars [of "CHR ''f''" n] unfolding number_char_def by auto
  have null: "decimal_of_str (py_str JNull) = None" by code_simp
  have "compare v cmp (str_of_int n) =
      (case decimal_of_str (py_str v) of Some (Finite x) \<Rightarrow> holds x cmp (of_int n) | None \<Rightarrow> cmp = ''!='' \<and> v \<noteq> JNull
       | _ \<Rightarrow> compare v cmp (str_of_int n))" for v
  proof (cases "decimal_of_str (py_str v)")
    case None
    then have "py_str v \<noteq> str_of_int n" using decimal_of_int [of n] by auto
    then show ?thesis using None assms(2) n(3) word by (auto simp: compare_def operators_def)
  next
    case (Some d)
    then have "v \<noteq> JNull" using null by auto
    then show ?thesis using Some n(3) word compare_holds [OF assms(2)] by (auto simp: compare_def split: py_decimal.split)
  qed
  then show ?thesis
    unfolding control_expression evaluate_comparison [OF assms n(1) str_of_int_tight n(2)]
    by (auto simp: compare_def split: option.split py_decimal.split)
qed

theorem numeric_guard_witness:
  "evaluate_expression [(''amount'', JStr ''-0.50'')] ''payload.amount <= 0'' \<and> \<not> evaluate_expression [] ''payload.amount <= 0''"
proof -
  have "plain_field ''amount''" "''<='' \<in> set operators" by code_simp+
  note g = numeric_guard [OF this, where n = 0, unfolded comparison_def]
  have d: "decimal_of_str (py_str (JStr ''-0.50'')) = Some (Finite (- (1 / 2)))" by code_simp
  have z: "str_of_int 0 = ''0''" by code_simp
  show ?thesis using g [of "[(''amount'', JStr ''-0.50'')]"] g [of "[]"] d z by simp
qed

text \<open>A right-hand side that is neither a truth value nor a number is compared as text, whatever it looks like.\<close>

lemma evaluate_text_comparison:
  assumes "plain_field f \<and> cmp \<in> set operators \<and> list_all (\<lambda>c. c \<notin> set ''<>!='') rhs \<and> strip rhs = rhs \<and> rhs \<noteq> []
    \<and> decimal_of_str rhs = None \<and> lower rhs \<notin> {''true'', ''false''}"
  shows "evaluate_expression data (comparison f cmp rhs) =
    (case map_of data f of
       None \<Rightarrow> False
     | Some v \<Rightarrow> v \<noteq> JNull \<and> (if cmp \<in> {''='', ''==''} then py_str v = rhs else cmp = ''!='' \<and> py_str v \<noteq> rhs))"
proof -
  have "compare v cmp rhs = (v \<noteq> JNull \<and> (if cmp \<in> {''='', ''==''} then py_str v = rhs else cmp = ''!='' \<and> py_str v \<noteq> rhs))" for v
    using assms unfolding compare_def by (simp split: option.split)
  then show ?thesis using assms evaluate_comparison by (simp split: option.split)
qed

lemma text_value:
  assumes "py_str v = ''payload.to_bank_account_code''"
  shows "v = JStr ''payload.to_bank_account_code''"
proof (cases v)
  case (JInt i)
  then have "CHR ''t'' \<in> set (str_of_int i)" using assms by (simp add: py_str_def)
  then show ?thesis using str_of_int_chars [of "CHR ''t''" i] by (simp add: number_char_def)
qed (use assms in \<open>auto simp: py_str_def split: if_splits\<close>)

text \<open>
  Guards of the shipped policies that cannot trigger. The configuration admits a richer language than the
  evaluator reads, so that five expressions it ships are never true on a payload whose keys hold no spaces: the two
  null tests, the ceiling on cumulative fees, the credit limit, and the test that a transfer's two bank accounts
  are the same, which compares the first account with the text of the second field's name.
\<close>

theorem dead_guards:
  assumes "\<forall>k \<in> set (map fst data). CHR '' '' \<notin> set k"
    and "map_of data ''from_bank_account_code'' \<noteq> Some (JStr ''payload.to_bank_account_code'')"
  shows "\<not> evaluate_expression data ''payload.contract_id is not None''
    \<and> \<not> evaluate_expression data ''payload.unallowable_reason is None''
    \<and> \<not> evaluate_expression data ''not check_credit_limit(party, payload.gross_amount)''
    \<and> \<not> evaluate_expression data ''payload.cumulative_fee > payload.ceiling_fee if payload.ceiling_fee else False''
    \<and> \<not> evaluate_expression data ''payload.from_bank_account_code == payload.to_bank_account_code''"
proof -
  have no: "map_of data k = None" if "CHR '' '' \<in> set k" for k
    using assms(1) that by (auto simp: map_of_eq_None_iff)
  have dead: "\<not> evaluate_expression data e"
    if "\<not> is_space (hd e) \<and> \<not> is_space (last e)" "CHR ''<'' \<notin> set e" "CHR ''>'' \<notin> set e" "CHR ''!'' \<notin> set e" "CHR ''='' \<notin> set e"
      "split_char CHR ''.'' (drop_payload e) = k # ks" "CHR '' '' \<in> set k" for e k ks
  proof -
    have "first_operator operators e = None"
      by (rule first_operator_none) (use operator_heads that(2-5) in \<open>metis insert_iff singletonD\<close>)
    moreover have "strip e = e" using that(1) by (intro strip_tight) simp
    ultimately show ?thesis using that(6,7) no by (simp add: evaluate_expression_def get_field_value_def)
  qed
  have "\<not> evaluate_expression data ''payload.contract_id is not None''"
    by (rule dead [of _ "''contract_id is not None''" "[]"]) (simp_all add: is_space_def drop_payload_def)
  moreover have "\<not> evaluate_expression data ''payload.unallowable_reason is None''"
    by (rule dead [of _ "''unallowable_reason is None''" "[]"]) (simp_all add: is_space_def drop_payload_def)
  moreover have "\<not> evaluate_expression data ''not check_credit_limit(party, payload.gross_amount)''"
    by (rule dead [of _ "''not check_credit_limit(party, payload''" "[''gross_amount)'']"]) (simp_all add: is_space_def drop_payload_def)
  moreover have "\<not> evaluate_expression data (comparison ''cumulative_fee'' ''>'' ''payload.ceiling_fee if payload.ceiling_fee else False'')"
    by (subst evaluate_text_comparison) (code_simp, simp split: option.split)
  moreover have "\<not> evaluate_expression data (comparison ''from_bank_account_code'' ''=='' ''payload.to_bank_account_code'')"
  proof -
    have "py_str v \<noteq> ''payload.to_bank_account_code''" if "map_of data ''from_bank_account_code'' = Some v" for v
      using text_value [of v] assms(2) that by blast
    then show ?thesis by (subst evaluate_text_comparison) (code_simp, auto split: option.split)
  qed
  ultimately show ?thesis by (simp add: comparison_def)
qed

theorem dead_guards_witness:
  "\<not> evaluate_expression [(''from_bank_account_code'', JStr ''OPS''), (''to_bank_account_code'', JStr ''OPS''), (''contract_id'', JStr ''C-1'')]
     ''payload.from_bank_account_code == payload.to_bank_account_code''
   \<and> \<not> evaluate_expression [(''from_bank_account_code'', JStr ''OPS''), (''to_bank_account_code'', JStr ''OPS''), (''contract_id'', JStr ''C-1'')]
     ''payload.contract_id is not None''"
  using dead_guards [of "[(''from_bank_account_code'', JStr ''OPS''), (''to_bank_account_code'', JStr ''OPS''), (''contract_id'', JStr ''C-1'')]"]
  by simp

end
