(* ===== verification/Meaning_Builder.thy ===== *)
theory Meaning_Builder
  imports Guard_Expression
begin

text \<open>
  \<open>finance_kernel/domain/accounting_policy.py\<close> and \<open>finance_kernel/domain/meaning_builder.py\<close>: accounting
  policies, and the economic meaning a policy gives to an event. The policy authority a builder may
  hold is the function it asks, from an economic type and target ledgers to violations. Tuples and
  sets are lists; the detail texts of validation errors are not modelled.
\<close>

section \<open>Policies\<close>

datatype precedence_mode = NORMAL | OVERRIDE

datatype guard_type = GT_REJECT | GT_BLOCK

record policy_trigger =
  pt_event_type :: string
  pt_schema_version :: int
  pt_where :: "(string \<times> json) list"

definition matches_event_type :: "policy_trigger \<Rightarrow> string \<Rightarrow> bool" where
  "matches_event_type t et \<longleftrightarrow> pt_event_type t = et"

record policy_meaning =
  pm_economic_type :: string
  pm_quantity_field :: "string option"
  pm_dimensions :: "string list"

record ledger_effect =
  le_ledger :: string
  le_debit_role :: string
  le_credit_role :: string

record guard_condition =
  gc_guard_type :: guard_type
  gc_expression :: string
  gc_reason_code :: string
  gc_message :: string

record policy_precedence =
  pp_mode :: precedence_mode
  pp_priority :: int
  pp_overrides :: "string list"

record accounting_policy =
  ap_name :: string
  ap_version :: int
  ap_trigger :: policy_trigger
  ap_meaning :: policy_meaning
  ap_ledger_effects :: "ledger_effect list"
  ap_effective_from :: int
  ap_effective_to :: "int option"
  ap_scope :: string
  ap_precedence :: policy_precedence
  ap_valuation_model :: "string option"
  ap_guards :: "guard_condition list"
  ap_required_engines :: "string list"
  ap_engine_parameters_ref :: "string option"
  ap_intent_source :: "string option"
  ap_description :: string

definition mk_accounting_policy :: "accounting_policy \<Rightarrow> py_exc + accounting_policy" where
  "mk_accounting_policy p =
     (if ap_name p = [] then Inl ValueError
      else if ap_version p < 1 then Inl ValueError
      else if pt_event_type (ap_trigger p) = [] then Inl ValueError
      else if pm_economic_type (ap_meaning p) = [] then Inl ValueError
      else Inr p)"

definition profile_key :: "accounting_policy \<Rightarrow> string" where
  "profile_key p = ap_name p @ '':v'' @ str_of_int (ap_version p)"

definition is_effective_on :: "accounting_policy \<Rightarrow> int \<Rightarrow> bool" where
  "is_effective_on p d \<longleftrightarrow>
     (if d < ap_effective_from p then False
      else case ap_effective_to p of None \<Rightarrow> True | Some t \<Rightarrow> \<not> d > t)"

definition matches_scope :: "accounting_policy \<Rightarrow> string \<Rightarrow> bool" where
  "matches_scope p scope_value \<longleftrightarrow>
     (let sc = ap_scope p
      in if sc = ''*'' then True
         else if drop (length sc - 2) sc = '':*'' then take (length sc - 1) scope_value = butlast sc
         else sc = scope_value)"

definition get_field_references :: "accounting_policy \<Rightarrow> string list" where
  "get_field_references p =
     remdups (map fst (pt_where (ap_trigger p))
       @ (case pm_quantity_field (ap_meaning p) of None \<Rightarrow> [] | Some f \<Rightarrow> if f = [] then [] else [f])
       @ filter (\<lambda>d. CHR ''.'' \<in> set d) (pm_dimensions (ap_meaning p)))"

definition get_reject_guards :: "accounting_policy \<Rightarrow> guard_condition list" where
  "get_reject_guards p = filter (\<lambda>g. gc_guard_type g = GT_REJECT) (ap_guards p)"

definition get_block_guards :: "accounting_policy \<Rightarrow> guard_condition list" where
  "get_block_guards p = filter (\<lambda>g. gc_guard_type g = GT_BLOCK) (ap_guards p)"

section \<open>Meaning\<close>

record meaning_snapshot =
  ms_coa_version :: "int option"
  ms_dimension_schema_version :: "int option"
  ms_currency_registry_version :: "int option"
  ms_fx_policy_version :: "int option"
  ms_full_snapshot_id :: "uuid option"

record economic_event_data =
  ed_source_event_id :: uuid
  ed_economic_type :: string
  ed_effective_date :: int
  ed_profile_id :: string
  ed_profile_version :: int
  ed_profile_hash :: "string option"
  ed_quantity :: "py_decimal option"
  ed_dimensions :: "(string \<times> json) list option"
  ed_trace_id :: "uuid option"
  ed_snapshot :: "meaning_snapshot option"
  ed_created_at :: "int option"

record guard_result =
  gr_passed :: bool
  gr_rejected :: bool
  gr_blocked :: bool
  gr_triggered_guard :: "guard_condition option"
  gr_reason_code :: "string option"
  gr_reason_detail :: "(string \<times> json) list option"

definition guard_success :: guard_result where
  "guard_success = \<lparr>gr_passed = True, gr_rejected = False, gr_blocked = False, gr_triggered_guard = None,
     gr_reason_code = None, gr_reason_detail = None\<rparr>"

definition guard_reject :: "guard_condition \<Rightarrow> (string \<times> json) list option \<Rightarrow> guard_result" where
  "guard_reject g detail = \<lparr>gr_passed = False, gr_rejected = True, gr_blocked = False, gr_triggered_guard = Some g,
     gr_reason_code = Some (gc_reason_code g), gr_reason_detail = detail\<rparr>"

definition guard_block :: "guard_condition \<Rightarrow> (string \<times> json) list option \<Rightarrow> guard_result" where
  "guard_block g detail = \<lparr>gr_passed = False, gr_rejected = False, gr_blocked = True, gr_triggered_guard = Some g,
     gr_reason_code = Some (gc_reason_code g), gr_reason_detail = detail\<rparr>"

record meaning_result =
  mr_success :: bool
  mr_economic_event :: "economic_event_data option"
  mr_guard_result :: "guard_result option"
  mr_validation_errors :: "validation_error list"

definition meaning_ok :: "economic_event_data \<Rightarrow> guard_result option \<Rightarrow> meaning_result" where
  "meaning_ok e g = \<lparr>mr_success = True, mr_economic_event = Some e,
     mr_guard_result = Some (case g of None \<Rightarrow> guard_success | Some r \<Rightarrow> r), mr_validation_errors = []\<rparr>"

definition meaning_rejected :: "guard_result \<Rightarrow> meaning_result" where
  "meaning_rejected g = \<lparr>mr_success = False, mr_economic_event = None, mr_guard_result = Some g, mr_validation_errors = []\<rparr>"

definition meaning_blocked :: "guard_result \<Rightarrow> meaning_result" where
  "meaning_blocked g = \<lparr>mr_success = False, mr_economic_event = None, mr_guard_result = Some g, mr_validation_errors = []\<rparr>"

definition meaning_validation_failed :: "validation_error list \<Rightarrow> meaning_result" where
  "meaning_validation_failed es = \<lparr>mr_success = False, mr_economic_event = None, mr_guard_result = None, mr_validation_errors = es\<rparr>"

section \<open>The builder\<close>

record meaning_builder =
  mb_policy_authority :: "(string \<Rightarrow> string list \<Rightarrow> string list) option"

fun evaluate_guards :: "(string \<times> json) list \<Rightarrow> guard_condition list \<Rightarrow> guard_result" where
  "evaluate_guards data [] = guard_success"
| "evaluate_guards data (g # gs) =
     (if evaluate_expression data (gc_expression g) then
        if gc_guard_type g = GT_REJECT then guard_reject g (Some [(''expression'', JStr (gc_expression g))])
        else guard_block g (Some [(''expression'', JStr (gc_expression g))])
      else evaluate_guards data gs)"

definition extract_quantity :: "(string \<times> json) list \<Rightarrow> accounting_policy \<Rightarrow> py_decimal option" where
  "extract_quantity data p =
     (case pm_quantity_field (ap_meaning p) of
        None \<Rightarrow> None
      | Some f \<Rightarrow>
          if f = [] then None
          else let v = get_field_value data f in if v = JNull then None else decimal_of_str (py_str v))"

definition set_dimension :: "string \<Rightarrow> json \<Rightarrow> (string \<times> json) list \<Rightarrow> (string \<times> json) list" where
  "set_dimension k v ds =
     (if map_of ds k = None then ds @ [(k, v)] else map (\<lambda>(k', w). (k', if k' = k then v else w)) ds)"

definition extract_dimensions :: "(string \<times> json) list \<Rightarrow> accounting_policy \<Rightarrow> (string \<times> json) list option" where
  "extract_dimensions data p =
     (if pm_dimensions (ap_meaning p) = [] then None
      else let ds = foldl (\<lambda>ds dim.
             let v = get_field_value data dim
             in if v = JNull then ds
                else set_dimension (if CHR ''.'' \<in> set dim then last (split_char CHR ''.'' dim) else dim) v ds)
             [] (pm_dimensions (ap_meaning p))
           in if ds = [] then None else Some ds)"

definition validate_policy :: "meaning_builder \<Rightarrow> string \<Rightarrow> string list \<Rightarrow> validation_error list" where
  "validate_policy mb economic_type target_ledgers =
     (case mb_policy_authority mb of
        None \<Rightarrow> []
      | Some f \<Rightarrow> map (\<lambda>_. \<lparr>ve_code = ''POLICY_VIOLATION'', ve_field = Some ''economic_type''\<rparr>) (f economic_type target_ledgers))"

record build_options =
  bo_snapshot :: "meaning_snapshot option"
  bo_trace_id :: "uuid option"
  bo_created_at :: "int option"
  bo_module_type :: "string option"
  bo_target_ledgers :: "string list option"

definition build :: "meaning_builder \<Rightarrow> uuid \<Rightarrow> string \<Rightarrow> (string \<times> json) list \<Rightarrow> int \<Rightarrow> accounting_policy \<Rightarrow> build_options
     \<Rightarrow> meaning_result" where
  "build mb ev et data eff p opts =
     (let policy_errors =
        (case (mb_policy_authority mb, bo_module_type opts, bo_target_ledgers opts) of
           (Some _, Some (_ # _), Some (l # ls)) \<Rightarrow> validate_policy mb (pm_economic_type (ap_meaning p)) (l # ls)
         | _ \<Rightarrow> [])
      in if policy_errors \<noteq> [] then meaning_validation_failed policy_errors
         else if pt_event_type (ap_trigger p) \<noteq> et
         then meaning_validation_failed [\<lparr>ve_code = ''PROFILE_EVENT_MISMATCH'', ve_field = Some ''event_type''\<rparr>]
         else let g = evaluate_guards data (ap_guards p)
              in if gr_rejected g then meaning_rejected g
                 else if gr_blocked g then meaning_blocked g
                 else meaning_ok
                   \<lparr>ed_source_event_id = ev, ed_economic_type = pm_economic_type (ap_meaning p), ed_effective_date = eff,
                    ed_profile_id = ap_name p, ed_profile_version = ap_version p, ed_profile_hash = None,
                    ed_quantity = extract_quantity data p, ed_dimensions = extract_dimensions data p,
                    ed_trace_id = bo_trace_id opts, ed_snapshot = bo_snapshot opts, ed_created_at = bo_created_at opts\<rparr> (Some g))"

section \<open>Guards decide\<close>

lemma guard_result_simps [simp]:
  "gr_rejected guard_success = False" "gr_blocked guard_success = False" "gr_passed guard_success"
  "gr_rejected (guard_reject g d)" "\<not> gr_blocked (guard_reject g d)" "gr_reason_code (guard_reject g d) = Some (gc_reason_code g)"
  "\<not> gr_rejected (guard_block g d)" "gr_blocked (guard_block g d)" "gr_reason_code (guard_block g d) = Some (gc_reason_code g)"
  "gr_triggered_guard (guard_reject g d) = Some g" "gr_triggered_guard (guard_block g d) = Some g"
  "gr_triggered_guard guard_success = None"
  by (simp_all add: guard_success_def guard_reject_def guard_block_def)

text \<open>The first guard that triggers decides.\<close>

lemma evaluate_guards_first:
  "gr_triggered_guard (evaluate_guards data gs) = find (\<lambda>g. evaluate_expression data (gc_expression g)) gs
   \<and> (gr_rejected (evaluate_guards data gs) \<longleftrightarrow>
        (\<exists>g. find (\<lambda>g. evaluate_expression data (gc_expression g)) gs = Some g \<and> gc_guard_type g = GT_REJECT))
   \<and> (gr_blocked (evaluate_guards data gs) \<longleftrightarrow>
        (\<exists>g. find (\<lambda>g. evaluate_expression data (gc_expression g)) gs = Some g \<and> gc_guard_type g = GT_BLOCK))"
  by (induction gs) (auto, (case_tac "gc_guard_type a"; simp)+)

lemma build_success:
  assumes "mr_success (build mb ev et data eff p opts)"
  shows "\<exists>e. mr_economic_event (build mb ev et data eff p opts) = Some e \<and> ed_source_event_id e = ev
      \<and> ed_economic_type e = pm_economic_type (ap_meaning p) \<and> ed_profile_id e = ap_name p \<and> ed_effective_date e = eff"
    "pt_event_type (ap_trigger p) = et" "\<forall>g \<in> set (ap_guards p). \<not> evaluate_expression data (gc_expression g)"
proof -
  note first = evaluate_guards_first [of data "ap_guards p"]
  have "\<not> gr_rejected (evaluate_guards data (ap_guards p))" "\<not> gr_blocked (evaluate_guards data (ap_guards p))"
    using assms by (auto simp: build_def Let_def meaning_validation_failed_def meaning_rejected_def meaning_blocked_def split: if_splits)
  then have "find (\<lambda>g. evaluate_expression data (gc_expression g)) (ap_guards p) = None"
    using first by (metis guard_type.exhaust not_None_eq)
  then show "\<forall>g \<in> set (ap_guards p). \<not> evaluate_expression data (gc_expression g)" by (simp add: find_None_iff)
  show "pt_event_type (ap_trigger p) = et"
    "\<exists>e. mr_economic_event (build mb ev et data eff p opts) = Some e \<and> ed_source_event_id e = ev
      \<and> ed_economic_type e = pm_economic_type (ap_meaning p) \<and> ed_profile_id e = ap_name p \<and> ed_effective_date e = eff"
    using assms by (auto simp: build_def Let_def meaning_validation_failed_def meaning_rejected_def meaning_blocked_def
        meaning_ok_def split: if_splits)
qed

end
