(* ===== verification/Policy_Selector.thy ===== *)
theory Policy_Selector
  imports Meaning_Builder "HOL-Library.AList"
begin

text \<open>
  \<open>finance_kernel/domain/policy_selector.py\<close>: the registry of accounting policies and the choice of the one policy
  that interprets an event (P1). The class-level dicts are association lists in insertion order:
  policies by name and version, and an index by event type. Python's stable descending sort is
  \<open>sort_key\<close> with the negated key.

  The lemmas show that index and registry agree through every sequence of operations, that a selected policy is
  registered, effective and matches the event, when a choice between two policies succeeds, and
  that among three the choice is wrong.
\<close>

section \<open>The registry\<close>

record compilation_receipt =
  rc_policy_name :: string
  rc_policy_version :: int
  rc_compiled_hash :: string
  rc_config_fingerprint :: string

definition receipt_matches :: "compilation_receipt \<Rightarrow> accounting_policy \<Rightarrow> bool" where
  "receipt_matches rc p \<longleftrightarrow> rc_policy_name rc = ap_name p \<and> rc_policy_version rc = ap_version p"

datatype policy_exc =
    PolicyPy py_exc
  | UncompiledPolicyError string int
  | PolicyNotFoundError string "int option"
  | MultiplePoliciesMatchError string "string list"
  | PolicyAlreadyRegisteredError string int

record policy_registry =
  pr_profiles :: "(string \<times> (int \<times> accounting_policy) list) list"
  pr_by_event_type :: "(string \<times> accounting_policy list) list"

definition policy_versions :: "string \<Rightarrow> policy_registry \<Rightarrow> (int \<times> accounting_policy) list" where
  "policy_versions name reg = (case map_of (pr_profiles reg) name of None \<Rightarrow> [] | Some vs \<Rightarrow> vs)"

definition list_by_event_type :: "string \<Rightarrow> policy_registry \<Rightarrow> accounting_policy list" where
  "list_by_event_type et reg = (case map_of (pr_by_event_type reg) et of None \<Rightarrow> [] | Some ps \<Rightarrow> ps)"

definition trigger_type :: "accounting_policy \<Rightarrow> string" where
  "trigger_type p = pt_event_type (ap_trigger p)"

definition register_policy :: "accounting_policy \<Rightarrow> compilation_receipt option \<Rightarrow> policy_registry \<Rightarrow> policy_exc + policy_registry" where
  "register_policy p receipt reg =
     (if (case receipt of None \<Rightarrow> False | Some rc \<Rightarrow> \<not> receipt_matches rc p)
      then Inl (UncompiledPolicyError (ap_name p) (ap_version p))
      else let vs = policy_versions (ap_name p) reg
           in if map_of vs (ap_version p) \<noteq> None then Inl (PolicyAlreadyRegisteredError (ap_name p) (ap_version p))
              else Inr \<lparr>pr_profiles = AList.update (ap_name p) (AList.update (ap_version p) p vs) (pr_profiles reg),
                        pr_by_event_type = AList.update (trigger_type p) (list_by_event_type (trigger_type p) reg @ [p])
                          (pr_by_event_type reg)\<rparr>)"

definition get_policy :: "string \<Rightarrow> int option \<Rightarrow> policy_registry \<Rightarrow> policy_exc + accounting_policy" where
  "get_policy name version reg =
     (case map_of (pr_profiles reg) name of
        None \<Rightarrow> Inl (PolicyNotFoundError name None)
      | Some vs \<Rightarrow>
          (case version of
             Some v \<Rightarrow> (case map_of vs v of None \<Rightarrow> Inl (PolicyNotFoundError name None) | Some p \<Rightarrow> Inr p)
           | None \<Rightarrow>
               if vs = [] then Inl (PolicyNotFoundError name None) else Inr (the (map_of vs (Max (set (map fst vs)))))))"

definition has_profile :: "string \<Rightarrow> int option \<Rightarrow> policy_registry \<Rightarrow> bool" where
  "has_profile name version reg \<longleftrightarrow>
     (case map_of (pr_profiles reg) name of
        None \<Rightarrow> False
      | Some vs \<Rightarrow> (case version of None \<Rightarrow> vs \<noteq> [] | Some v \<Rightarrow> map_of vs v \<noteq> None))"

definition list_profiles :: "policy_registry \<Rightarrow> string list" where
  "list_profiles reg = sort (map fst (pr_profiles reg))"

definition clear_policies :: "policy_registry \<Rightarrow> policy_registry" where
  "clear_policies reg = \<lparr>pr_profiles = [], pr_by_event_type = []\<rparr>"

text \<open>Drop the policies that satisfy \<open>gone\<close> from the index entry of an event type, if there is one.\<close>

definition drop_from_index ::
    "(accounting_policy \<Rightarrow> bool) \<Rightarrow> string \<Rightarrow> (string \<times> accounting_policy list) list \<Rightarrow> (string \<times> accounting_policy list) list" where
  "drop_from_index gone et idx =
     (case map_of idx et of None \<Rightarrow> idx | Some ps \<Rightarrow> AList.update et (filter (\<lambda>p. \<not> gone p) ps) idx)"

definition unregister_policy :: "string \<Rightarrow> int option \<Rightarrow> policy_registry \<Rightarrow> policy_registry" where
  "unregister_policy name version reg =
     (case map_of (pr_profiles reg) name of
        None \<Rightarrow> reg
      | Some vs \<Rightarrow>
          (case version of
             None \<Rightarrow>
               \<lparr>pr_profiles = AList.delete name (pr_profiles reg),
                pr_by_event_type = foldl (\<lambda>idx p. drop_from_index (\<lambda>q. ap_name q = name) (trigger_type p) idx)
                  (pr_by_event_type reg) (map snd vs)\<rparr>
           | Some v \<Rightarrow>
               (case map_of vs v of
                  None \<Rightarrow> reg
                | Some p \<Rightarrow>
                    \<lparr>pr_profiles = (let vs' = AList.delete v vs
                       in if vs' = [] then AList.delete name (pr_profiles reg) else AList.update name vs' (pr_profiles reg)),
                     pr_by_event_type = drop_from_index (\<lambda>q. ap_name q = name \<and> ap_version q = v) (trigger_type p)
                       (pr_by_event_type reg)\<rparr>)))"

section \<open>Matching a where-clause\<close>

definition where_operators :: "string list" where
  "where_operators = ['' >= '', '' <= '', '' > '', '' < '']"

definition evaluate_where_expression :: "(string \<times> json) list \<Rightarrow> string \<Rightarrow> bool \<Rightarrow> bool" where
  "evaluate_where_expression data expression expected =
     (case first_operator where_operators expression of
        None \<Rightarrow> \<not> expected
      | Some (op, l, r) \<Rightarrow>
          let actual = get_field_value data (strip l)
          in if actual = JNull then \<not> expected
             else (case (case (decimal_of_str (py_str actual), decimal_of_str (strip r)) of
                      (Some x, Some y) \<Rightarrow> compare_decimals x (strip op) y | _ \<Rightarrow> None) of
                     Some b \<Rightarrow> b = expected
                   | None \<Rightarrow> \<not> expected))"

definition where_condition :: "(string \<times> json) list \<Rightarrow> string \<times> json \<Rightarrow> bool" where
  "where_condition data c =
     (case snd c of
        JBool b \<Rightarrow>
          if list_ex (\<lambda>op. split_once op (fst c) \<noteq> None) where_operators then evaluate_where_expression data (fst c) b
          else py_str (get_field_value data (fst c)) = py_str (JBool b)
      | JNull \<Rightarrow> get_field_value data (fst c) = JNull
      | v \<Rightarrow> py_str (get_field_value data (fst c)) = py_str v)"

definition matches_where :: "accounting_policy \<Rightarrow> (string \<times> json) list \<Rightarrow> bool" where
  "matches_where p data = list_all (where_condition data) (pt_where (ap_trigger p))"

section \<open>Precedence\<close>

definition scope_specificity :: "string \<Rightarrow> int" where
  "scope_specificity sc =
     (if sc = ''*'' then 0
      else if drop (length sc - 2) sc = '':*'' then int (length sc) - 1
      else int (length sc) + 100)"

definition policy_specificity :: "accounting_policy \<Rightarrow> int" where
  "policy_specificity p = scope_specificity (ap_scope p)"

definition policy_priority :: "accounting_policy \<Rightarrow> int" where
  "policy_priority p = pp_priority (ap_precedence p)"

definition apply_explicit_overrides :: "accounting_policy list \<Rightarrow> accounting_policy list" where
  "apply_explicit_overrides ps =
     filter (\<lambda>p. ap_name p \<notin> set (concat (map (\<lambda>q. pp_overrides (ap_precedence q)) ps))) ps"

text \<open>The first element, when it is strictly above the second in the descending order of a key.\<close>

definition strict_top :: "('a \<Rightarrow> int) \<Rightarrow> 'a list \<Rightarrow> 'a option" where
  "strict_top f xs = (case xs of x # y # _ \<Rightarrow> if f x > f y then Some x else None | _ \<Rightarrow> None)"

definition resolve_by_rank :: "accounting_policy list \<Rightarrow> policy_exc + accounting_policy" where
  "resolve_by_rank profiles =
     (if length profiles = 1 then Inr (hd profiles)
      else let by_scope = sort_key (\<lambda>p. - policy_specificity p) profiles
      in case strict_top policy_specificity by_scope of
           Some p \<Rightarrow> Inr p
         | None \<Rightarrow>
             let by_priority = sort_key (\<lambda>p. - policy_priority p) by_scope
             in case strict_top policy_priority by_priority of
                  Some p \<Rightarrow> Inr p
                | None \<Rightarrow>
                    (case sort_key ap_name by_priority of
                       [] \<Rightarrow> Inl (PolicyPy IndexError)
                     | [p] \<Rightarrow> Inr p
                     | p # q # rest \<Rightarrow>
                         if policy_specificity p = policy_specificity q \<and> policy_priority p = policy_priority q
                         then Inl (MultiplePoliciesMatchError (trigger_type p) (map ap_name (p # q # rest)))
                         else Inr p))"

definition resolve_precedence :: "accounting_policy list \<Rightarrow> policy_exc + accounting_policy" where
  "resolve_precedence profiles =
     (let overrides = filter (\<lambda>p. pp_mode (ap_precedence p) = OVERRIDE) profiles;
          normal = filter (\<lambda>p. pp_mode (ap_precedence p) = NORMAL) profiles
      in if overrides \<noteq> [] then resolve_by_rank (apply_explicit_overrides overrides)
         else resolve_by_rank normal)"

section \<open>Selection\<close>

definition matching_policies :: "string \<Rightarrow> int \<Rightarrow> string \<Rightarrow> (string \<times> json) list option \<Rightarrow> policy_registry \<Rightarrow> accounting_policy list" where
  "matching_policies et d scope_value data reg =
     (let matching = filter (\<lambda>p. matches_scope p scope_value) (filter (\<lambda>p. is_effective_on p d) (list_by_event_type et reg));
          without_where = filter (\<lambda>p. pt_where (ap_trigger p) = []) matching
      in case data of
           None \<Rightarrow> without_where
         | Some kvs \<Rightarrow>
             let specific_matches = filter (\<lambda>p. pt_where (ap_trigger p) \<noteq> [] \<and> matches_where p kvs) matching
             in if specific_matches \<noteq> [] then specific_matches else without_where)"

definition find_for_event ::
    "string \<Rightarrow> int \<Rightarrow> string \<Rightarrow> (string \<times> json) list option \<Rightarrow> policy_registry \<Rightarrow> policy_exc + accounting_policy" where
  "find_for_event et d scope_value data reg =
     (case matching_policies et d scope_value data reg of
        [] \<Rightarrow> Inl (PolicyNotFoundError et (Some d))
      | [p] \<Rightarrow> Inr p
      | p # q # rest \<Rightarrow> resolve_precedence (p # q # rest))"

section \<open>Index and registry\<close>

definition registered :: "policy_registry \<Rightarrow> accounting_policy \<Rightarrow> bool" where
  "registered reg p \<longleftrightarrow> map_of (policy_versions (ap_name p) reg) (ap_version p) = Some p"

inductive policy_step :: "policy_registry \<Rightarrow> policy_registry \<Rightarrow> bool" where
  register: "register_policy p rc reg = Inr reg' \<Longrightarrow> policy_step reg reg'"
| unregister: "policy_step reg (unregister_policy name version reg)"
| clear: "policy_step reg (clear_policies reg)"

text \<open>Rows are stored under their own name and version, and the index lists exactly the registered policies.\<close>

definition wf_versions :: "policy_registry \<Rightarrow> bool" where
  "wf_versions reg \<longleftrightarrow> (\<forall>n vs. map_of (pr_profiles reg) n = Some vs \<longrightarrow>
     vs \<noteq> [] \<and> distinct (map fst vs) \<and> (\<forall>(v, p) \<in> set vs. ap_name p = n \<and> ap_version p = v))"

definition index_exact :: "policy_registry \<Rightarrow> bool" where
  "index_exact reg \<longleftrightarrow> (\<forall>et. distinct (list_by_event_type et reg)
     \<and> (\<forall>p. p \<in> set (list_by_event_type et reg) \<longleftrightarrow> registered reg p \<and> trigger_type p = et))"

lemma wf_versionsD:
  assumes "wf_versions reg" "map_of (pr_profiles reg) n = Some vs"
  shows "vs \<noteq> []" "distinct (map fst vs)" "(v, p) \<in> set vs \<Longrightarrow> ap_name p = n \<and> ap_version p = v"
  using assms unfolding wf_versions_def by fastforce+

lemma register_wf:
  assumes "register_policy p rc reg = Inr reg'" "wf_versions reg" "index_exact reg"
  shows "wf_versions reg' \<and> index_exact reg'"
proof -
  define vs where "vs = policy_versions (ap_name p) reg"
  have fresh: "map_of vs (ap_version p) = None"
    and reg': "reg' = \<lparr>pr_profiles = AList.update (ap_name p) (AList.update (ap_version p) p vs) (pr_profiles reg),
       pr_by_event_type = AList.update (trigger_type p) (list_by_event_type (trigger_type p) reg @ [p]) (pr_by_event_type reg)\<rparr>"
    using assms(1) by (auto simp: register_policy_def Let_def vs_def split: if_splits)
  have vs: "distinct (map fst vs)" "\<forall>(v, q) \<in> set vs. ap_name q = ap_name p \<and> ap_version q = v"
    using wf_versionsD [OF assms(2), of "ap_name p"]
    by (cases "map_of (pr_profiles reg) (ap_name p)"; fastforce simp: vs_def policy_versions_def)+
  have pv: "policy_versions n reg' = (if n = ap_name p then AList.update (ap_version p) p vs else policy_versions n reg)" for n
    by (simp add: reg' policy_versions_def update_conv')
  have idx: "list_by_event_type et reg' = list_by_event_type et reg @ (if et = trigger_type p then [p] else [])" for et
    by (simp add: reg' list_by_event_type_def update_conv')
  have new: "registered reg' q \<longleftrightarrow> registered reg q \<or> q = p" for q
    using fresh by (auto simp: registered_def pv update_conv' vs_def [symmetric])
  have old: "\<not> registered reg p" using fresh by (simp add: registered_def vs_def)
  have upd: "set (AList.update (ap_version p) p vs) \<subseteq> insert (ap_version p, p) (set vs)" "AList.update (ap_version p) p vs \<noteq> []"
    by (induction vs) auto
  have "wf_versions reg'"
    unfolding wf_versions_def
  proof (intro allI impI)
    fix n ws assume n: "map_of (pr_profiles reg') n = Some ws"
    show "ws \<noteq> [] \<and> distinct (map fst ws) \<and> (\<forall>(v, q) \<in> set ws. ap_name q = n \<and> ap_version q = v)"
    proof (cases "n = ap_name p")
      case True
      then have "ws = AList.update (ap_version p) p vs" using n by (simp add: reg' update_conv')
      then show ?thesis using vs upd True by (auto simp: distinct_update)
    next
      case False
      then show ?thesis using n assms(2) by (simp add: reg' update_conv' wf_versions_def)
    qed
  qed
  moreover have "index_exact reg'"
    using assms(3) old by (auto simp: index_exact_def idx new)
  ultimately show ?thesis by blast
qed

lemma drop_index: "map_of (drop_from_index gone et idx) et' =
    (if et' = et then map_option (filter (\<lambda>p. \<not> gone p)) (map_of idx et) else map_of idx et')"
  by (cases "map_of idx et") (auto simp: drop_from_index_def update_conv')

lemma drop_indices: "map_of (foldl (\<lambda>idx p. drop_from_index gone (trigger_type p) idx) idx ps) et =
    (if et \<in> trigger_type ` set ps then map_option (filter (\<lambda>p. \<not> gone p)) (map_of idx et) else map_of idx et)"
proof (induction ps arbitrary: idx)
  case (Cons a ps)
  show ?case
    using Cons [of "drop_from_index gone (trigger_type a) idx"]
    by (auto simp: drop_index option.map_comp comp_def)
qed simp

lemma list_after_drop:
  "map_of idx' et = map_option (filter P) (map_of (pr_by_event_type reg) et) \<Longrightarrow>
     list_by_event_type et (reg\<lparr>pr_by_event_type := idx', pr_profiles := x\<rparr>) = filter P (list_by_event_type et reg)"
  by (cases "map_of (pr_by_event_type reg) et") (auto simp: list_by_event_type_def)

lemma policy_versions_Some: "map_of (pr_profiles reg) n = Some vs \<Longrightarrow> policy_versions n reg = vs"
  by (simp add: policy_versions_def)

lemma unregister_wf:
  assumes "wf_versions reg" "index_exact reg"
  shows "wf_versions (unregister_policy name version reg) \<and> index_exact (unregister_policy name version reg)"
proof (cases "map_of (pr_profiles reg) name")
  case None
  then show ?thesis using assms by (simp add: unregister_policy_def)
next
  case (Some vs)
  have vs: "distinct (map fst vs)" "\<And>v p. (v, p) \<in> set vs \<Longrightarrow> ap_name p = name \<and> ap_version p = v"
    using wf_versionsD [OF assms(1) Some] by blast+
  have exact: "distinct (list_by_event_type et reg)" "p \<in> set (list_by_event_type et reg) \<longleftrightarrow> registered reg p \<and> trigger_type p = et" for et p
    using assms(2) by (simp_all add: index_exact_def)
  have in_vs: "registered reg p \<longleftrightarrow> (ap_version p, p) \<in> set vs" if "ap_name p = name" for p
    using that vs(1) by (simp add: registered_def policy_versions_Some [OF Some])
  show ?thesis
  proof (cases version)
    case None
    let ?reg = "unregister_policy name version reg"
    have pv: "policy_versions n ?reg = (if n = name then [] else policy_versions n reg)" for n
      using Some None by (simp add: unregister_policy_def policy_versions_def delete_conv')
    have idx: "set (list_by_event_type et ?reg) = {p \<in> set (list_by_event_type et reg). ap_name p \<noteq> name}"
      and dst: "distinct (list_by_event_type et ?reg)" for et
    proof -
      have eq: "list_by_event_type et ?reg = (if et \<in> trigger_type ` set (map snd vs)
          then filter (\<lambda>p. \<not> ap_name p = name) (list_by_event_type et reg) else list_by_event_type et reg)"
        using Some None by (auto simp: unregister_policy_def list_by_event_type_def drop_indices split: option.splits)
      have "ap_name p \<noteq> name" if "p \<in> set (list_by_event_type et reg)" "et \<notin> trigger_type ` set (map snd vs)" for p
        using that exact(2) in_vs by force
      then show "set (list_by_event_type et ?reg) = {p \<in> set (list_by_event_type et reg). ap_name p \<noteq> name}" by (auto simp: eq)
      show "distinct (list_by_event_type et ?reg)" using exact(1) by (simp add: eq)
    qed
    have "registered ?reg p \<longleftrightarrow> registered reg p \<and> ap_name p \<noteq> name" for p by (simp add: registered_def pv)
    then have "index_exact ?reg" using dst exact(2) by (auto simp: index_exact_def idx)
    moreover have "wf_versions ?reg"
      using assms(1) Some None by (auto simp: wf_versions_def unregister_policy_def delete_conv' split: if_splits)
    ultimately show ?thesis by blast
  next
    case v: (Some v)
    let ?reg = "unregister_policy name version reg"
    show ?thesis
    proof (cases "map_of vs v")
      case None
      then show ?thesis using assms Some v by (simp add: unregister_policy_def)
    next
      case (Some p)
      have p: "ap_name p = name" "ap_version p = v" using vs(2) map_of_SomeD [OF Some] by blast+
      have pr: "pr_profiles ?reg = (if AList.delete v vs = [] then AList.delete name (pr_profiles reg)
          else AList.update name (AList.delete v vs) (pr_profiles reg))"
        using \<open>map_of (pr_profiles reg) name = Some vs\<close> v Some by (simp add: unregister_policy_def Let_def)
      have pv: "policy_versions n ?reg = (if n = name then AList.delete v vs else policy_versions n reg)" for n
        by (simp add: policy_versions_def pr delete_conv' update_conv')
      have eq: "list_by_event_type et ?reg = (if et = trigger_type p
          then filter (\<lambda>q. \<not> (ap_name q = name \<and> ap_version q = v)) (list_by_event_type et reg) else list_by_event_type et reg)" for et
        using \<open>map_of (pr_profiles reg) name = Some vs\<close> v Some
        by (simp add: unregister_policy_def list_by_event_type_def drop_index split: option.splits)
      have other: "registered ?reg q \<longleftrightarrow> registered reg q \<and> \<not> (ap_name q = name \<and> ap_version q = v)" for q
        by (auto simp: registered_def pv delete_conv' policy_versions_Some [OF \<open>map_of (pr_profiles reg) name = Some vs\<close>])
      have same: "q = p" if "registered reg q" "ap_name q = name" "ap_version q = v" for q
        using that Some by (simp add: registered_def policy_versions_Some [OF \<open>map_of (pr_profiles reg) name = Some vs\<close>])
      have "index_exact ?reg"
        using exact same by (auto simp: index_exact_def eq other)
      moreover have "wf_versions ?reg"
        unfolding wf_versions_def
      proof (intro allI impI)
        fix n ws assume n: "map_of (pr_profiles ?reg) n = Some ws"
        have "set (AList.delete v vs) \<subseteq> set vs" by (auto simp: AList.delete_eq)
        then show "ws \<noteq> [] \<and> distinct (map fst ws) \<and> (\<forall>(v, q) \<in> set ws. ap_name q = n \<and> ap_version q = v)"
          using n assms(1) vs by (cases "n = name") (auto simp: pr delete_conv' update_conv' wf_versions_def distinct_delete split: if_splits)
      qed
      ultimately show ?thesis by blast
    qed
  qed
qed

definition empty_policies :: policy_registry where
  "empty_policies = \<lparr>pr_profiles = [], pr_by_event_type = []\<rparr>"

lemma policy_steps_wf:
  assumes "policy_step\<^sup>*\<^sup>* empty_policies reg"
  shows "wf_versions reg \<and> index_exact reg"
  using assms
proof (induction rule: rtranclp_induct)
  case base
  show ?case by (auto simp: empty_policies_def wf_versions_def index_exact_def registered_def policy_versions_def list_by_event_type_def)
next
  case (step reg reg')
  from step.hyps(2) step.IH show ?case
  proof (induction rule: policy_step.induct)
    case (clear reg)
    show ?case by (auto simp: clear_policies_def wf_versions_def index_exact_def registered_def policy_versions_def list_by_event_type_def)
  qed (simp_all add: register_wf unregister_wf)
qed

section \<open>The selected policy\<close>

lemma strict_top_in: "strict_top f xs = Some x \<Longrightarrow> x \<in> set xs"
  by (auto simp: strict_top_def split: list.splits if_splits)

lemma resolve_by_rank_in:
  assumes "resolve_by_rank ps = Inr p"
  shows "p \<in> set ps"
proof (cases "length ps = 1")
  case True
  then show ?thesis using assms by (cases ps) (auto simp: resolve_by_rank_def)
next
  case False
  define s where "s = sort_key (\<lambda>p. - policy_specificity p) ps"
  define q where "q = sort_key (\<lambda>p. - policy_priority p) s"
  define n where "n = sort_key ap_name q"
  have "strict_top policy_specificity s = Some p \<or> strict_top policy_priority q = Some p \<or> p \<in> set n"
    using assms False by (auto simp: resolve_by_rank_def Let_def simp flip: s_def q_def n_def split: option.splits list.splits if_splits)
  moreover have "set s = set ps" "set q = set ps" "set n = set ps" by (simp_all add: s_def q_def n_def)
  ultimately show ?thesis using strict_top_in by metis
qed

lemma resolve_precedence_in:
  assumes "resolve_precedence ps = Inr p"
  shows "p \<in> set ps" "(\<exists>q \<in> set ps. pp_mode (ap_precedence q) = OVERRIDE) \<Longrightarrow> pp_mode (ap_precedence p) = OVERRIDE"
  using assms
  by (auto simp: resolve_precedence_def Let_def apply_explicit_overrides_def filter_empty_conv split: if_splits
      dest!: resolve_by_rank_in)

lemma matching_policies_iff:
  "p \<in> set (matching_policies et d sv data reg) \<Longrightarrow>
     p \<in> set (list_by_event_type et reg) \<and> is_effective_on p d \<and> matches_scope p sv
     \<and> (case data of None \<Rightarrow> pt_where (ap_trigger p) = [] | Some kvs \<Rightarrow> matches_where p kvs)"
  "p \<in> set (matching_policies et d sv (Some kvs) reg) \<Longrightarrow> pt_where (ap_trigger p) = [] \<Longrightarrow>
     q \<in> set (list_by_event_type et reg) \<Longrightarrow> is_effective_on q d \<Longrightarrow> matches_scope q sv \<Longrightarrow> pt_where (ap_trigger q) \<noteq> [] \<Longrightarrow> \<not> matches_where q kvs"
  by (auto simp: matching_policies_def Let_def matches_where_def filter_empty_conv split: option.splits if_splits)

lemma find_for_event_in: "find_for_event et d sv data reg = Inr p \<Longrightarrow> p \<in> set (matching_policies et d sv data reg)"
  by (auto simp: find_for_event_def split: list.splits dest!: resolve_precedence_in(1))

text \<open>
  Property C30. The policy selected for an event is registered, triggered by its type, in force on its date and in
  its scope, and its where-clause holds of the payload; a policy without where-clause is only selected
  when none with a matching one is admissible (P1). Registry and index agree through all operations,
  so every registered policy is found and no unregistered one.
\<close>

theorem selected_policy_admissible:
  assumes "policy_step\<^sup>*\<^sup>* empty_policies reg"
  shows "(p \<in> set (list_by_event_type et reg) \<longleftrightarrow> registered reg p \<and> trigger_type p = et) \<and> distinct (list_by_event_type et reg)
    \<and> (find_for_event et d sv (Some kvs) reg = Inr p \<longrightarrow>
         registered reg p \<and> trigger_type p = et \<and> is_effective_on p d \<and> matches_scope p sv \<and> matches_where p kvs
         \<and> (pt_where (ap_trigger p) = [] \<longrightarrow> (\<forall>q. registered reg q \<and> trigger_type q = et \<and> is_effective_on q d \<and> matches_scope q sv
              \<and> pt_where (ap_trigger q) \<noteq> [] \<longrightarrow> \<not> matches_where q kvs)))
    \<and> (find_for_event et d sv None reg = Inr p \<longrightarrow>
         registered reg p \<and> trigger_type p = et \<and> is_effective_on p d \<and> matches_scope p sv \<and> pt_where (ap_trigger p) = [])"
proof (intro conjI impI)
  have exact: "distinct (list_by_event_type et reg)" "q \<in> set (list_by_event_type et reg) \<longleftrightarrow> registered reg q \<and> trigger_type q = et" for q et
    using policy_steps_wf [OF assms] by (simp_all add: index_exact_def)
  then show "p \<in> set (list_by_event_type et reg) \<longleftrightarrow> registered reg p \<and> trigger_type p = et" "distinct (list_by_event_type et reg)"
    by simp_all
  note single = matching_policies_iff(1) [OF find_for_event_in]
  show "registered reg p" "trigger_type p = et" "is_effective_on p d" "matches_scope p sv" "pt_where (ap_trigger p) = []" if "find_for_event et d sv None reg = Inr p"
    using single [OF that] exact by simp_all
  assume f: "find_for_event et d sv (Some kvs) reg = Inr p"
  show "registered reg p" "trigger_type p = et" "is_effective_on p d" "matches_scope p sv" "matches_where p kvs"
    using single [OF f] exact by simp_all
  show "\<forall>q. registered reg q \<and> trigger_type q = et \<and> is_effective_on q d \<and> matches_scope q sv
      \<and> pt_where (ap_trigger q) \<noteq> [] \<longrightarrow> \<not> matches_where q kvs" if "pt_where (ap_trigger p) = []"
    using matching_policies_iff(2) [OF find_for_event_in [OF f] that] exact by auto
qed

section \<open>Resolving precedence\<close>

text \<open>Between two ordinary policies the more specific scope decides, then the higher priority; a tie is an error.\<close>

lemma resolve_two:
  assumes "pp_mode (ap_precedence p) = NORMAL" "pp_mode (ap_precedence q) = NORMAL"
  shows "policy_specificity q < policy_specificity p
      \<or> policy_specificity q = policy_specificity p \<and> policy_priority q < policy_priority p
    \<Longrightarrow> resolve_precedence [p, q] = Inr p \<and> resolve_precedence [q, p] = Inr p"
    "policy_specificity q = policy_specificity p \<Longrightarrow> policy_priority q = policy_priority p
    \<Longrightarrow> \<exists>names. resolve_precedence [p, q] = Inl (MultiplePoliciesMatchError (trigger_type (if ap_name q < ap_name p then q else p)) names)"
  using assms by (auto simp: resolve_precedence_def resolve_by_rank_def strict_top_def)

text \<open>
  Among three policies the resolution can pick the worst: two policies tie at the top priority, so the
  list is sorted by name, and the tie test then looks at the two first names instead of the two top
  priorities. A third policy of lower priority with the first name in the alphabet is selected, where P1 demands
  an error.
\<close>

theorem lowest_priority_selected:
  assumes "pp_mode (ap_precedence p) = NORMAL" "pp_mode (ap_precedence q) = NORMAL" "pp_mode (ap_precedence r) = NORMAL"
    and "policy_specificity p = policy_specificity r" "policy_specificity q = policy_specificity r"
    and "policy_priority p < policy_priority r" "policy_priority q = policy_priority r"
    and "ap_name p < ap_name q" "ap_name p < ap_name r"
  shows "resolve_precedence [p, q, r] = Inr p
    \<and> (\<exists>names. resolve_precedence [q, r] = Inl (MultiplePoliciesMatchError (trigger_type (if ap_name r < ap_name q then r else q)) names))"
proof
  show "\<exists>names. resolve_precedence [q, r] = Inl (MultiplePoliciesMatchError (trigger_type (if ap_name r < ap_name q then r else q)) names)"
    using assms by (intro resolve_two) simp_all
  show "resolve_precedence [p, q, r] = Inr p"
    using assms by (auto simp: resolve_precedence_def resolve_by_rank_def strict_top_def)
qed

text \<open>When every overriding policy is itself overridden, nothing remains and the resolution fails with an index error.\<close>

lemma mutual_overrides_crash:
  assumes "filter (\<lambda>p. pp_mode (ap_precedence p) = OVERRIDE) ps = os" "os \<noteq> []"
    and "\<forall>p \<in> set os. \<exists>q \<in> set os. ap_name p \<in> set (pp_overrides (ap_precedence q))"
  shows "resolve_precedence ps = Inl (PolicyPy IndexError)"
proof -
  have "apply_explicit_overrides os = []" using assms(3) by (auto simp: apply_explicit_overrides_def filter_empty_conv)
  then show ?thesis using assms(1,2) by (simp add: resolve_precedence_def Let_def resolve_by_rank_def strict_top_def)
qed

definition demo_policy :: "string \<Rightarrow> int \<Rightarrow> accounting_policy" where
  "demo_policy name prio = \<lparr>ap_name = name, ap_version = 1,
     ap_trigger = \<lparr>pt_event_type = ''ap.invoice'', pt_schema_version = 1, pt_where = []\<rparr>,
     ap_meaning = \<lparr>pm_economic_type = ''LIABILITY'', pm_quantity_field = None, pm_dimensions = []\<rparr>,
     ap_ledger_effects = [\<lparr>le_ledger = ''GL'', le_debit_role = ''EXPENSE'', le_credit_role = ''PAYABLE''\<rparr>],
     ap_effective_from = 1, ap_effective_to = None, ap_scope = ''*'',
     ap_precedence = \<lparr>pp_mode = NORMAL, pp_priority = prio, pp_overrides = []\<rparr>, ap_valuation_model = None, ap_guards = [],
     ap_required_engines = [], ap_engine_parameters_ref = None, ap_intent_source = None, ap_description = ''''\<rparr>"

definition demo_policies :: policy_registry where
  "demo_policies = projr (register_policy (demo_policy ''A'' 0) None empty_policies)"

lemma demo_policies_reached: "policy_step\<^sup>*\<^sup>* empty_policies demo_policies"
proof -
  have "register_policy (demo_policy ''A'' 0) None empty_policies = Inr demo_policies"
    by (simp add: demo_policies_def register_policy_def policy_versions_def empty_policies_def)
  then show ?thesis by (intro r_into_rtranclp policy_step.register)
qed

theorem lowest_priority_selected_witness:
  "resolve_precedence [demo_policy ''A'' 0, demo_policy ''B'' 10, demo_policy ''C'' 10] = Inr (demo_policy ''A'' 0)"
  by (rule lowest_priority_selected [THEN conjunct1]) (simp_all add: demo_policy_def policy_specificity_def policy_priority_def)

theorem selected_policy_admissible_witness:
  "find_for_event ''ap.invoice'' 5 ''*'' None demo_policies = Inr (demo_policy ''A'' 0) \<and> registered demo_policies (demo_policy ''A'' 0)"
proof -
  have f: "find_for_event ''ap.invoice'' 5 ''*'' None demo_policies = Inr (demo_policy ''A'' 0)"
    by (simp add: demo_policies_def register_policy_def policy_versions_def empty_policies_def find_for_event_def matching_policies_def
        list_by_event_type_def demo_policy_def trigger_type_def is_effective_on_def matches_scope_def)
  show ?thesis using selected_policy_admissible [OF demo_policies_reached] f by blast
qed

end
