(* ===== verification/Policy_Bridge.thy ===== *)
theory Policy_Bridge
  imports Policy_Selector Accounting_Intent
begin

text \<open>
  \<open>finance_kernel/domain/policy_bridge.py\<close>: the registry of the line mappings that modules register with their policies,
  and the accounting intents built from them or from the lines of an imported payload. The
  identifier of a new intent is an argument. Payload numbers are read as \<open>Decimal(str(x))\<close>; a payload text that
  spells an infinity is treated like a NaN.

  The lemmas show what the lines of an intent add up to, that both registries stay in step, and which lines
  of an import are dropped.
\<close>

section \<open>Registries\<close>

record line_mapping =
  lm_role :: string
  lm_side :: string
  lm_ledger :: string
  lm_from_context :: "string option"
  lm_foreach :: "string option"

record module_policy_entry =
  me_module_name :: string
  me_profile_key :: string
  me_kernel_profile :: accounting_policy
  me_line_mappings :: "line_mapping list"
  me_event_type :: string

type_synonym module_registry = "(string \<times> module_policy_entry) list"

datatype bridge_exc =
    BridgePolicy policy_exc
  | ModulePolicyAlreadyRegisteredError string string

definition register_entry :: "module_policy_entry \<Rightarrow> module_registry \<Rightarrow> bridge_exc + module_registry" where
  "register_entry e mr =
     (let name = ap_name (me_kernel_profile e)
      in case map_of mr name of
           Some old \<Rightarrow> Inl (ModulePolicyAlreadyRegisteredError name (me_module_name old))
         | None \<Rightarrow> Inr (AList.update name e mr))"

definition get_entry :: "string \<Rightarrow> module_registry \<Rightarrow> module_policy_entry option" where
  "get_entry name mr = map_of mr name"

definition get_line_mappings :: "string \<Rightarrow> module_registry \<Rightarrow> line_mapping list option" where
  "get_line_mappings name mr = map_option me_line_mappings (get_entry name mr)"

definition list_by_module :: "string \<Rightarrow> module_registry \<Rightarrow> module_policy_entry list" where
  "list_by_module m mr = filter (\<lambda>e. me_module_name e = m) (map snd mr)"

definition list_all_entries :: "module_registry \<Rightarrow> module_policy_entry list" where
  "list_all_entries mr = map snd mr"

definition clear_entries :: "module_registry \<Rightarrow> module_registry" where
  "clear_entries mr = []"

text \<open>
  Registration returns the registries also when it raises: the second step's failure takes the first one back.
\<close>

definition register_rich_profile ::
    "string \<Rightarrow> accounting_policy \<Rightarrow> line_mapping list \<Rightarrow> policy_registry \<times> module_registry
     \<Rightarrow> (bridge_exc + accounting_policy) \<times> policy_registry \<times> module_registry" where
  "register_rich_profile m p mappings regs =
     (let e = \<lparr>me_module_name = m, me_profile_key = ap_name p, me_kernel_profile = p, me_line_mappings = mappings,
            me_event_type = trigger_type p\<rparr>
      in case register_policy p None (fst regs) of
           Inl x \<Rightarrow> (Inl (BridgePolicy x), regs)
         | Inr reg \<Rightarrow>
             (case register_entry e (snd regs) of
                Inl x \<Rightarrow> (Inl x, unregister_policy (ap_name p) (Some (ap_version p)) reg, snd regs)
              | Inr mr \<Rightarrow> (Inr p, reg, mr)))"

text \<open>A module's own line mapping: its role is an enum member with a text value.\<close>

record local_line_mapping =
  ll_role_value :: string
  ll_side :: string
  ll_from_context :: "string option"
  ll_foreach :: "string option"

definition convert_line_mapping :: "local_line_mapping \<Rightarrow> string \<Rightarrow> line_mapping" where
  "convert_line_mapping l role = \<lparr>lm_role = role, lm_side = ll_side l, lm_ledger = ''GL'',
     lm_from_context = ll_from_context l, lm_foreach = ll_foreach l\<rparr>"

definition convert_local_profile :: "local_line_mapping list \<Rightarrow> line_mapping list" where
  "convert_local_profile ls = map (\<lambda>l. convert_line_mapping l (ll_role_value l)) ls"

section \<open>Lines\<close>

definition create_intent_line :: "string \<Rightarrow> string \<Rightarrow> decimal \<Rightarrow> string \<Rightarrow> py_exc + intent_line" where
  "create_intent_line role side amt cur =
     (if side = ''debit'' then intent_line_debit role amt cur None None else intent_line_credit role amt cur None None)"

definition json_decimal :: "json \<Rightarrow> py_exc + decimal" where
  "json_decimal v = (case decimal_of_str (py_str v) of Some (Finite d) \<Rightarrow> Inr d | _ \<Rightarrow> Inl InvalidOperation)"

definition amount_keys :: "string list" where
  "amount_keys = [''amount'', ''total'', ''line_amount'', ''value'', ''extended_cost'']"

definition extract_amount :: "json \<Rightarrow> decimal \<Rightarrow> py_exc + decimal" where
  "extract_amount item dflt =
     (case item of
        JDict kvs \<Rightarrow>
          (case find (\<lambda>k. map_of kvs k \<noteq> None) amount_keys of
             Some k \<Rightarrow> json_decimal (the (map_of kvs k))
           | None \<Rightarrow> Inr dflt)
      | JInt i \<Rightarrow> json_decimal (JInt i)
      | JBool b \<Rightarrow> json_decimal (JBool b)
      | _ \<Rightarrow> Inr dflt)"

text \<open>What a \<open>for\<close> over a payload value runs through; numbers and \<open>None\<close> have no length.\<close>

definition collection_items :: "json \<Rightarrow> py_exc + json list" where
  "collection_items v =
     (case v of
        JList js \<Rightarrow> Inr js
      | JDict kvs \<Rightarrow> Inr (map (\<lambda>kv. JStr (fst kv)) kvs)
      | JStr s \<Rightarrow> Inr (map (\<lambda>c. JStr [c]) s)
      | _ \<Rightarrow> Inl TypeError)"

definition flip_intent_side :: "string \<Rightarrow> string" where
  "flip_intent_side side = (if side = ''debit'' then ''credit'' else ''debit'')"

definition mapping_lines :: "decimal \<Rightarrow> string \<Rightarrow> (string \<times> json) list \<Rightarrow> line_mapping \<Rightarrow> py_exc + intent_line list" where
  "mapping_lines amt cur data m =
     (case (lm_foreach m, lm_from_context m) of
        (Some (c # cs), _) \<Rightarrow>
          rbind (collection_items (case map_of data (c # cs) of None \<Rightarrow> JList [] | Some v \<Rightarrow> v)) (\<lambda>items.
            if items = [] then rmap (\<lambda>l. [l]) (create_intent_line (lm_role m) (lm_side m) amt cur)
            else rtraverse (\<lambda>item. rbind (extract_amount item amt) (\<lambda>a. create_intent_line (lm_role m) (lm_side m) a cur)) items)
      | (_, Some (c # cs)) \<Rightarrow>
          (case map_of data (c # cs) of
             None \<Rightarrow> Inr []
           | Some JNull \<Rightarrow> Inr []
           | Some v \<Rightarrow>
               rbind (json_decimal v) (\<lambda>d.
                 if d > 0 then rmap (\<lambda>l. [l]) (create_intent_line (lm_role m) (lm_side m) d cur)
                 else if d < 0 then rmap (\<lambda>l. [l]) (create_intent_line (lm_role m) (flip_intent_side (lm_side m)) (dabs d) cur)
                 else Inr []))
      | _ \<Rightarrow> rmap (\<lambda>l. [l]) (create_intent_line (lm_role m) (lm_side m) amt cur))"

definition build_intent_lines :: "line_mapping list \<Rightarrow> decimal \<Rightarrow> string \<Rightarrow> (string \<times> json) list \<Rightarrow> py_exc + intent_line list" where
  "build_intent_lines ms amt cur data = rmap concat (rtraverse (mapping_lines amt cur data) ms)"

section \<open>Intents\<close>

text \<open>Either lines from the mappings of the effect's ledger or, without mappings, one debit and one credit.\<close>

definition effect_lines ::
    "line_mapping list \<Rightarrow> decimal \<Rightarrow> string \<Rightarrow> (string \<times> json) list \<Rightarrow> ledger_effect \<Rightarrow> py_exc + intent_line list" where
  "effect_lines ms amt cur data e =
     (let mine = filter (\<lambda>m. lm_ledger m = le_ledger e) ms
      in if mine \<noteq> [] then build_intent_lines mine amt cur data
         else rbind (intent_line_debit (le_debit_role e) amt cur None None) (\<lambda>d.
              rmap (\<lambda>c. [d, c]) (intent_line_credit (le_credit_role e) amt cur None None)))"

definition effect_intent ::
    "line_mapping list \<Rightarrow> decimal \<Rightarrow> string \<Rightarrow> (string \<times> json) list \<Rightarrow> ledger_effect \<Rightarrow> py_exc + ledger_intent list" where
  "effect_intent ms amt cur data e =
     rbind (effect_lines ms amt cur data e) (\<lambda>ls.
       if ls \<noteq> [] then rmap (\<lambda>li. [li]) (mk_ledger_intent \<lparr>li_ledger_id = le_ledger e, li_lines = ls\<rparr>) else Inr [])"

definition bridge_snapshot :: "int \<Rightarrow> int \<Rightarrow> intent_snapshot" where
  "bridge_snapshot coa dims = \<lparr>is_coa_version = Some coa, is_dimension_schema_version = Some dims,
     is_rounding_policy_version = Some 1, is_currency_registry_version = Some 1, is_fx_policy_version = None,
     is_full_snapshot_id = None\<rparr>"

definition bridge_intent ::
    "uuid \<Rightarrow> accounting_policy \<Rightarrow> uuid \<Rightarrow> int \<Rightarrow> ledger_intent list \<Rightarrow> string option \<Rightarrow> int \<Rightarrow> int \<Rightarrow> py_exc + accounting_intent" where
  "bridge_intent new_id p ev eff lis descr coa dims =
     mk_accounting_intent \<lparr>ai_econ_event_id = new_id, ai_source_event_id = ev, ai_profile_id = ap_name p,
       ai_profile_version = ap_version p, ai_effective_date = eff, ai_ledger_intents = lis,
       ai_snapshot = bridge_snapshot coa dims,
       ai_description = Some (case descr of Some (c # cs) \<Rightarrow> c # cs | _ \<Rightarrow> ap_description p),
       ai_trace_id = None, ai_created_at = None\<rparr>"

definition build_accounting_intent ::
    "module_registry \<Rightarrow> uuid \<Rightarrow> string \<Rightarrow> uuid \<Rightarrow> int \<Rightarrow> decimal \<Rightarrow> string \<Rightarrow> (string \<times> json) list \<Rightarrow> string option
     \<Rightarrow> int \<Rightarrow> int \<Rightarrow> py_exc + accounting_intent" where
  "build_accounting_intent mr new_id name ev eff amt cur data descr coa dims =
     (case get_entry name mr of
        None \<Rightarrow> Inl ValueError
      | Some e \<Rightarrow>
          rbind (rtraverse (effect_intent (me_line_mappings e) amt cur data) (ap_ledger_effects (me_kernel_profile e))) (\<lambda>lis.
            if concat lis = [] then Inl ValueError
            else bridge_intent new_id (me_kernel_profile e) ev eff (concat lis) descr coa dims))"

section \<open>Imported lines\<close>

definition import_amount :: "json option \<Rightarrow> py_exc + py_decimal" where
  "import_amount v =
     (case v of
        None \<Rightarrow> Inr (Finite 0)
      | Some JNull \<Rightarrow> Inr (Finite 0)
      | Some j \<Rightarrow> (case decimal_of_str (py_str j) of None \<Rightarrow> Inl ValueError | Some d \<Rightarrow> Inr d))"

definition is_positive :: "py_decimal \<Rightarrow> py_exc + bool" where
  "is_positive d = (case d of Finite x \<Rightarrow> Inr (0 < x) | _ \<Rightarrow> Inl InvalidOperation)"

definition finite_value :: "py_decimal \<Rightarrow> decimal" where
  "finite_value d = (case d of Finite x \<Rightarrow> x | _ \<Rightarrow> 0)"

definition import_line :: "(string \<Rightarrow> string option) \<Rightarrow> string \<Rightarrow> json \<Rightarrow> py_exc + intent_line list" where
  "import_line account_key_to_role cur line =
     (case line of
        JDict kvs \<Rightarrow>
          (case map_of kvs ''account'' of
             None \<Rightarrow> Inr []
           | Some JNull \<Rightarrow> Inr []
           | Some acc \<Rightarrow>
               let key = strip (py_str acc)
               in if (case acc of JStr s \<Rightarrow> strip s = [] | _ \<Rightarrow> False) then Inr []
                  else (case account_key_to_role key of
                      Some (r # rs) \<Rightarrow>
                        rbind (import_amount (map_of kvs ''debit'')) (\<lambda>d.
                        rbind (import_amount (map_of kvs ''credit'')) (\<lambda>c.
                        rbind (is_positive d) (\<lambda>dp.
                          if dp then rbind (is_positive c) (\<lambda>cp.
                            if cp then Inl ValueError
                            else rmap (\<lambda>l. [l]) (intent_line_debit (r # rs) (finite_value d) cur None None))
                          else rbind (is_positive c) (\<lambda>cp.
                            if cp then rmap (\<lambda>l. [l]) (intent_line_credit (r # rs) (finite_value c) cur None None)
                            else Inr []))))
                    | _ \<Rightarrow> Inl ValueError))
      | _ \<Rightarrow> Inr [])"

definition build_accounting_intent_from_payload_lines ::
    "uuid \<Rightarrow> accounting_policy \<Rightarrow> uuid \<Rightarrow> int \<Rightarrow> (string \<times> json) list \<Rightarrow> (string \<Rightarrow> string option) \<Rightarrow> string \<Rightarrow> string option
     \<Rightarrow> int \<Rightarrow> int \<Rightarrow> py_exc + accounting_intent" where
  "build_accounting_intent_from_payload_lines new_id p ev eff data account_key_to_role cur descr coa dims =
     (case map_of data ''lines'' of
        Some (JList (x # xs)) \<Rightarrow>
          rbind (rtraverse (import_line account_key_to_role cur) (x # xs)) (\<lambda>lss.
            if concat lss = [] then Inl ValueError
            else rbind (mk_ledger_intent \<lparr>li_ledger_id = ''GL'', li_lines = concat lss\<rparr>) (\<lambda>li.
                 bridge_intent new_id p ev eff [li] descr coa dims))
      | _ \<Rightarrow> Inl ValueError)"

section \<open>What the lines add up to\<close>

definition signed :: "string \<Rightarrow> rat \<Rightarrow> rat" where
  "signed side x = (if side = ''debit'' then x else - x)"

definition line_net :: "intent_line list \<Rightarrow> rat" where
  "line_net ls = sum_list (map (\<lambda>l. signed (il_side l) (il_amount l)) ls)"

text \<open>The amount a mapping stands for: the amounts of the items, the signed context amount, or the event's amount.\<close>

definition mapping_value :: "decimal \<Rightarrow> (string \<times> json) list \<Rightarrow> line_mapping \<Rightarrow> rat" where
  "mapping_value amt data m =
     (case (lm_foreach m, lm_from_context m) of
        (Some (c # cs), _) \<Rightarrow>
          (let items = projr (collection_items (case map_of data (c # cs) of None \<Rightarrow> JList [] | Some v \<Rightarrow> v))
           in if items = [] then amt else sum_list (map (\<lambda>item. projr (extract_amount item amt)) items))
      | (_, Some (c # cs)) \<Rightarrow>
          (case map_of data (c # cs) of
             None \<Rightarrow> 0
           | Some JNull \<Rightarrow> 0
           | Some v \<Rightarrow> (let d = projr (json_decimal v) in if d < 0 then dfix d else d))
      | _ \<Rightarrow> amt)"

lemma intent_line_sides:
  "intent_line_debit role amt cur dims memo = Inr l \<Longrightarrow> il_side l = ''debit'' \<and> il_amount l = amt \<and> 0 \<le> amt \<and> il_account_role l = role
     \<and> mk_currency cur = Inr (currency (il_money l))"
  "intent_line_credit role amt cur dims memo = Inr l \<Longrightarrow> il_side l = ''credit'' \<and> il_amount l = amt \<and> 0 \<le> amt \<and> il_account_role l = role
     \<and> mk_currency cur = Inr (currency (il_money l))"
  by (auto simp: intent_line_debit_def intent_line_credit_def money_of_def result_iffs mk_intent_line_def il_amount_def
      INTENT_DEBIT_def INTENT_CREDIT_def split: if_splits)

lemma create_line_net:
  assumes "create_intent_line role side amt cur = Inr l"
  shows "signed (il_side l) (il_amount l) = signed side amt" "0 \<le> il_amount l" "il_account_role l = role"
    "mk_currency cur = Inr (currency (il_money l))"
  using assms by (auto simp: create_intent_line_def signed_def dest!: intent_line_sides split: if_splits)

lemma line_net_simps [simp]:
  "line_net [] = 0" "line_net (l # ls) = signed (il_side l) (il_amount l) + line_net ls"
  "line_net (ks @ ls) = line_net ks + line_net ls"
  by (simp_all add: line_net_def)

lemma signed_simps [simp]:
  "signed side 0 = 0" "signed side (x + y) = signed side x + signed side y" "signed (flip_intent_side side) x = - signed side x"
  by (simp_all add: signed_def flip_intent_side_def)

lemma item_lines_net:
  assumes "rtraverse (\<lambda>item. rbind (extract_amount item amt) (\<lambda>a. create_intent_line role side a cur)) items = Inr ls"
  shows "line_net ls = signed side (sum_list (map (\<lambda>item. projr (extract_amount item amt)) items))
    \<and> (\<forall>l \<in> set ls. 0 \<le> il_amount l \<and> il_account_role l = role \<and> mk_currency cur = Inr (currency (il_money l)))"
  using assms
proof (induction items arbitrary: ls)
  case (Cons item items)
  then obtain l ls' where ls: "ls = l # ls'"
    "rtraverse (\<lambda>item. rbind (extract_amount item amt) (\<lambda>a. create_intent_line role side a cur)) items = Inr ls'"
    "create_intent_line role side (projr (extract_amount item amt)) cur = Inr l"
    by (auto simp: result_iffs)
  then show ?case using Cons.IH [OF ls(2)] create_line_net [OF ls(3)] by auto
qed simp

definition sound_line :: "string \<Rightarrow> string \<Rightarrow> intent_line \<Rightarrow> bool" where
  "sound_line role cur l \<longleftrightarrow> 0 \<le> il_amount l \<and> il_account_role l = role \<and> mk_currency cur = Inr (currency (il_money l))"

lemma single_line_net:
  assumes "rmap (\<lambda>l. [l]) (create_intent_line role side x cur) = Inr ls"
  shows "line_net ls = signed side x \<and> (\<forall>l \<in> set ls. sound_line role cur l)"
  using assms create_line_net by (auto simp: result_iffs sound_line_def)

lemma context_lines_net:
  assumes "(if d > 0 then rmap (\<lambda>l. [l]) (create_intent_line role side d cur)
      else if d < 0 then rmap (\<lambda>l. [l]) (create_intent_line role (flip_intent_side side) (dabs d) cur) else Inr []) = Inr ls"
  shows "line_net ls = signed side (if d < 0 then dfix d else d) \<and> (\<forall>l \<in> set ls. sound_line role cur l)"
proof -
  consider "d > 0" | "d < 0" | "d = 0" by linarith
  then show ?thesis
  proof cases
    case 1
    then show ?thesis using assms single_line_net by auto
  next
    case 2
    then have "line_net ls = signed (flip_intent_side side) (dabs d) \<and> (\<forall>l \<in> set ls. sound_line role cur l)"
      using assms single_line_net by auto
    moreover have "signed (flip_intent_side side) (dabs d) = signed side (dfix d)"
      using 2 by (simp add: dabs_def dfix_abs abs_if) (simp add: signed_def)
    ultimately show ?thesis using 2 by simp
  qed (use assms in auto)
qed

lemma mapping_lines_net:
  assumes "mapping_lines amt cur data m = Inr ls"
  shows "line_net ls = signed (lm_side m) (mapping_value amt data m) \<and> (\<forall>l \<in> set ls. sound_line (lm_role m) cur l)"
proof -
  consider (each) c cs where "lm_foreach m = Some (c # cs)"
    | (ctxt) c cs where "lm_foreach m = None \<or> lm_foreach m = Some []" "lm_from_context m = Some (c # cs)"
    | (plain) "lm_foreach m = None \<or> lm_foreach m = Some []" "lm_from_context m = None \<or> lm_from_context m = Some []"
    by (metis list.exhaust option.exhaust)
  then show ?thesis
  proof cases
    case each
    define v where "v = (case map_of data (c # cs) of None \<Rightarrow> JList [] | Some v \<Rightarrow> v)"
    obtain items where items: "collection_items v = Inr items"
      and body: "(if items = [] then rmap (\<lambda>l. [l]) (create_intent_line (lm_role m) (lm_side m) amt cur)
        else rtraverse (\<lambda>item. rbind (extract_amount item amt) (\<lambda>a. create_intent_line (lm_role m) (lm_side m) a cur)) items) = Inr ls"
      using assms each by (auto simp: mapping_lines_def result_iffs simp flip: v_def)
    have "mapping_value amt data m = (if items = [] then amt else sum_list (map (\<lambda>item. projr (extract_amount item amt)) items))"
      using each items by (simp add: mapping_value_def flip: v_def)
    then show ?thesis using body single_line_net item_lines_net by (fastforce simp: sound_line_def split: if_splits)
  next
    case ctxt
    show ?thesis
    proof (cases "map_of data (c # cs)")
      case None
      then show ?thesis using assms ctxt by (auto simp: mapping_lines_def mapping_value_def)
    next
      case (Some v)
      show ?thesis
      proof (cases "v = JNull")
        case True
        then show ?thesis using assms ctxt Some by (auto simp: mapping_lines_def mapping_value_def)
      next
        case False
        have "mapping_lines amt cur data m = rbind (json_decimal v) (\<lambda>d.
                 if d > 0 then rmap (\<lambda>l. [l]) (create_intent_line (lm_role m) (lm_side m) d cur)
                 else if d < 0 then rmap (\<lambda>l. [l]) (create_intent_line (lm_role m) (flip_intent_side (lm_side m)) (dabs d) cur)
                 else Inr [])" "mapping_value amt data m = (let d = projr (json_decimal v) in if d < 0 then dfix d else d)"
          using ctxt Some False by (auto simp: mapping_lines_def mapping_value_def split: json.splits)
        moreover obtain d where "json_decimal v = Inr d" using assms calculation(1) by (auto simp: result_iffs)
        ultimately show ?thesis using context_lines_net [of d "lm_role m" "lm_side m" cur ls] assms by simp
      qed
    qed
  next
    case plain
    then show ?thesis using assms single_line_net by (auto simp: mapping_lines_def mapping_value_def)
  qed
qed

lemma build_intent_lines_net:
  assumes "build_intent_lines ms amt cur data = Inr ls"
  shows "line_net ls = sum_list (map (\<lambda>m. signed (lm_side m) (mapping_value amt data m)) ms)
    \<and> (\<forall>l \<in> set ls. \<exists>m \<in> set ms. sound_line (lm_role m) cur l)"
proof -
  obtain lss where lss: "rtraverse (mapping_lines amt cur data) ms = Inr lss" "ls = concat lss"
    using assms by (auto simp: build_intent_lines_def result_iffs)
  then have "list_all2 (\<lambda>m ls. mapping_lines amt cur data m = Inr ls) ms lss" by (simp add: rtraverse_Inr)
  then have "line_net (concat lss) = sum_list (map (\<lambda>m. signed (lm_side m) (mapping_value amt data m)) ms)
    \<and> (\<forall>l \<in> set (concat lss). \<exists>m \<in> set ms. sound_line (lm_role m) cur l)"
  proof (induction rule: list_all2_induct)
    case (Cons m ms ls lss)
    then show ?case using mapping_lines_net [OF Cons.hyps(1)] by auto
  qed simp
  then show ?thesis by (simp add: lss)
qed

text \<open>The mappings of the ledger of an effect, and what they add up to; without mappings the effect nets to zero.\<close>

definition effect_net :: "line_mapping list \<Rightarrow> decimal \<Rightarrow> (string \<times> json) list \<Rightarrow> ledger_effect \<Rightarrow> rat" where
  "effect_net ms amt data e =
     sum_list (map (\<lambda>m. signed (lm_side m) (mapping_value amt data m)) (filter (\<lambda>m. lm_ledger m = le_ledger e) ms))"

lemma effect_lines_net:
  assumes "effect_lines ms amt cur data e = Inr ls"
  shows "line_net ls = effect_net ms amt data e \<and> (\<forall>l \<in> set ls. 0 \<le> il_amount l)"
proof (cases "filter (\<lambda>m. lm_ledger m = le_ledger e) ms = []")
  case True
  then show ?thesis
    using assms by (auto simp: effect_lines_def effect_net_def Let_def result_iffs signed_def dest!: intent_line_sides)
next
  case False
  then show ?thesis
    using assms build_intent_lines_net by (fastforce simp: effect_lines_def effect_net_def Let_def sound_line_def)
qed

lemma effect_intents_net:
  assumes "rtraverse (effect_intent ms amt cur data) es = Inr liss"
  shows "list_all2 (\<lambda>e lis. \<forall>li \<in> set lis. li_ledger_id li = le_ledger e \<and> li_lines li \<noteq> []
    \<and> line_net (li_lines li) = effect_net ms amt data e \<and> (\<forall>l \<in> set (li_lines li). 0 \<le> il_amount l)) es liss"
proof -
  have "list_all2 (\<lambda>e lis. effect_intent ms amt cur data e = Inr lis) es liss" using assms by (simp add: rtraverse_Inr)
  then show ?thesis
    by (rule list_all2_mono)
      (auto simp: effect_intent_def result_iffs mk_ledger_intent_def dest!: effect_lines_net split: if_splits)
qed

lemma bridge_intentD:
  assumes "bridge_intent new_id p ev eff lis descr coa dims = Inr i"
  shows "ai_ledger_intents i = lis" "ai_profile_id i = ap_name p" "ai_profile_version i = ap_version p"
    "ai_source_event_id i = ev" "ai_effective_date i = eff" "ai_econ_event_id i = new_id"
  using assms by (auto simp: bridge_intent_def mk_accounting_intent_def split: if_splits)

text \<open>
  Property C31. An intent built from a module's line mappings has one ledger intent per ledger effect with lines, in the
  policy's name and version, and the debits of a ledger intent less its credits are exactly
  the signed sum of what its mappings stand for; a ledger effect without mappings balances. No line is
  negative: a negative context amount changes side.
\<close>

theorem built_intent_net:
  assumes "build_accounting_intent mr new_id name ev eff amt cur data descr coa dims = Inr i"
  shows "\<exists>e. get_entry name mr = Some e \<and> ai_profile_id i = ap_name (me_kernel_profile e)
    \<and> ai_profile_version i = ap_version (me_kernel_profile e) \<and> ai_source_event_id i = ev \<and> ai_effective_date i = eff
    \<and> ai_ledger_intents i \<noteq> []
    \<and> (\<forall>li \<in> set (ai_ledger_intents i). \<exists>eff \<in> set (ap_ledger_effects (me_kernel_profile e)).
         li_ledger_id li = le_ledger eff \<and> line_net (li_lines li) = effect_net (me_line_mappings e) amt data eff
         \<and> (\<forall>l \<in> set (li_lines li). 0 \<le> il_amount l))"
proof -
  obtain e liss where e: "get_entry name mr = Some e"
    and liss: "rtraverse (effect_intent (me_line_mappings e) amt cur data) (ap_ledger_effects (me_kernel_profile e)) = Inr liss"
    and i: "concat liss \<noteq> []" "bridge_intent new_id (me_kernel_profile e) ev eff (concat liss) descr coa dims = Inr i"
    using assms by (auto simp: build_accounting_intent_def result_iffs split: option.splits if_splits)
  have "\<exists>eff \<in> set (ap_ledger_effects (me_kernel_profile e)).
       li_ledger_id li = le_ledger eff \<and> line_net (li_lines li) = effect_net (me_line_mappings e) amt data eff
       \<and> (\<forall>l \<in> set (li_lines li). 0 \<le> il_amount l)" if li: "li \<in> set (concat liss)" for li
  proof -
    obtain k where k: "k < length liss" "li \<in> set (liss ! k)" using li by (metis UN_E in_set_conv_nth set_concat)
    note net = effect_intents_net [OF liss]
    have "ap_ledger_effects (me_kernel_profile e) ! k \<in> set (ap_ledger_effects (me_kernel_profile e))"
      using k(1) list_all2_lengthD [OF net] by simp
    then show ?thesis using list_all2_nthD2 [OF net k(1)] k(2) by auto
  qed
  then show ?thesis using e i(1) bridge_intentD [OF i(2)] by metis
qed

section \<open>Registration and imports\<close>

lemma AList_delete_update: "map_of al k = None \<Longrightarrow> AList.delete k (AList.update k v al) = al"
  by (induction al) (auto simp: AList.delete_eq filter_id_conv split: if_splits)

lemma register_then_unregister:
  assumes "register_policy p rc reg = Inr reg'" "wf_versions reg" "index_exact reg"
  shows "policy_versions n (unregister_policy (ap_name p) (Some (ap_version p)) reg') = policy_versions n reg"
    "list_by_event_type et (unregister_policy (ap_name p) (Some (ap_version p)) reg') = list_by_event_type et reg"
proof -
  let ?vs = "policy_versions (ap_name p) reg"
  have fresh: "map_of ?vs (ap_version p) = None"
    and reg': "reg' = \<lparr>pr_profiles = AList.update (ap_name p) (AList.update (ap_version p) p ?vs) (pr_profiles reg),
       pr_by_event_type = AList.update (trigger_type p) (list_by_event_type (trigger_type p) reg @ [p]) (pr_by_event_type reg)\<rparr>"
    using assms(1) by (auto simp: register_policy_def Let_def split: if_splits)
  have undone: "AList.delete (ap_version p) (AList.update (ap_version p) p ?vs) = ?vs"
    using fresh by (rule AList_delete_update)
  have not_in: "q \<in> set (list_by_event_type et reg) \<Longrightarrow> \<not> (ap_name q = ap_name p \<and> ap_version q = ap_version p)" for q et
    using assms(3) fresh by (auto simp: index_exact_def registered_def)
  show "policy_versions n (unregister_policy (ap_name p) (Some (ap_version p)) reg') = policy_versions n reg"
    using undone by (cases "map_of (pr_profiles reg) (ap_name p)")
      (auto simp: unregister_policy_def policy_versions_def reg' update_conv' delete_conv' Let_def)
  show "list_by_event_type et (unregister_policy (ap_name p) (Some (ap_version p)) reg') = list_by_event_type et reg"
    using not_in by (auto simp: unregister_policy_def list_by_event_type_def reg' update_conv' drop_index Let_def
        filter_id_conv filter_empty_conv split: option.splits)
qed

text \<open>A registration that fails halfway leaves every lookup in both registries as it was.\<close>

lemma register_rich_atomic:
  assumes "register_rich_profile m p ms (reg, mr) = (Inl x, reg', mr')" "policy_step\<^sup>*\<^sup>* empty_policies reg"
  shows "mr' = mr" "policy_versions n reg' = policy_versions n reg" "find_for_event et d sv data reg' = find_for_event et d sv data reg"
proof -
  have r: "mr' = mr \<and> (\<forall>n. policy_versions n reg' = policy_versions n reg) \<and> (\<forall>et. list_by_event_type et reg' = list_by_event_type et reg)"
    using assms(1) register_then_unregister policy_steps_wf [OF assms(2)]
    by (auto simp: register_rich_profile_def Let_def split: sum.splits)
  then show "mr' = mr" "policy_versions n reg' = policy_versions n reg" by blast+
  show "find_for_event et d sv data reg' = find_for_event et d sv data reg"
    using r by (simp add: find_for_event_def matching_policies_def)
qed

text \<open>An imported line with a negative amount is not an error: it is dropped like a line of zero.\<close>

lemma negative_import_line_dropped:
  assumes "map_of kvs ''account'' = Some (JStr s)" "strip s \<noteq> []" "f (strip s) = Some role" "role \<noteq> []"
    and "import_amount (map_of kvs ''debit'') = Inr (Finite d)" "import_amount (map_of kvs ''credit'') = Inr (Finite c)" "d \<le> 0" "c \<le> 0"
  shows "import_line f cur (JDict kvs) = Inr []"
  using assms by (auto simp: import_line_def py_str_def is_positive_def Let_def split: list.splits)

section \<open>An example\<close>

definition demo_entry :: module_policy_entry where
  "demo_entry = \<lparr>me_module_name = ''ap'', me_profile_key = ''A'', me_kernel_profile = demo_policy ''A'' 0,
     me_line_mappings =
       [\<lparr>lm_role = ''EXPENSE'', lm_side = ''debit'', lm_ledger = ''GL'', lm_from_context = Some ''cost'', lm_foreach = None\<rparr>,
        \<lparr>lm_role = ''VARIANCE'', lm_side = ''debit'', lm_ledger = ''GL'', lm_from_context = Some ''variance'', lm_foreach = None\<rparr>,
        \<lparr>lm_role = ''PAYABLE'', lm_side = ''credit'', lm_ledger = ''GL'', lm_from_context = None, lm_foreach = None\<rparr>],
     me_event_type = ''ap.invoice''\<rparr>"

definition demo_built :: "py_exc + accounting_intent" where
  "demo_built = build_accounting_intent [(''A'', demo_entry)] 91 ''A'' 1 15 100 ''USD'' [(''cost'', JInt 110), (''variance'', JInt (-10))] None 1 1"

lemma demo_lines:
  "effect_lines (me_line_mappings demo_entry) 100 ''USD'' [(''cost'', JInt 110), (''variance'', JInt (-10))]
     \<lparr>le_ledger = ''GL'', le_debit_role = ''EXPENSE'', le_credit_role = ''PAYABLE''\<rparr> =
   Inr (map (\<lambda>(r, s, a). \<lparr>il_account_role = r, il_side = s, il_money = \<lparr>amount = a, currency = Currency ''USD''\<rparr>, il_dimensions = None,
      il_memo = None, il_is_rounding = False\<rparr>)
     [(''EXPENSE'', ''debit'', 110), (''VARIANCE'', ''credit'', 10), (''PAYABLE'', ''credit'', 100)])"
  by code_simp

lemma demo_built_Inr: "\<exists>i. demo_built = Inr i \<and> length (ai_ledger_intents i) = 1"
  by (simp add: demo_built_def build_accounting_intent_def get_entry_def demo_entry_def [THEN arg_cong [where f = me_kernel_profile]]
      demo_policy_def effect_intent_def demo_lines mk_ledger_intent_def bridge_intent_def mk_accounting_intent_def)

theorem built_intent_net_witness:
  "\<exists>i. demo_built = Inr i \<and> (\<forall>li \<in> set (ai_ledger_intents i). line_net (li_lines li) = 0)"
proof -
  obtain i where i: "demo_built = Inr i" using demo_built_Inr by blast
  have "effect_net (me_line_mappings demo_entry) 100 [(''cost'', JInt 110), (''variance'', JInt (-10))]
     \<lparr>le_ledger = ''GL'', le_debit_role = ''EXPENSE'', le_credit_role = ''PAYABLE''\<rparr> = 0"
    using effect_lines_net [OF demo_lines] by (simp add: signed_def il_amount_def)
  then show ?thesis
    using built_intent_net [OF i [unfolded demo_built_def]] i
    by (auto simp: get_entry_def demo_entry_def [THEN arg_cong [where f = me_kernel_profile]] demo_policy_def)
qed

end
