(* ===== verification/Interpretation_Coordinator.thy ===== *)
theory Interpretation_Coordinator
  imports Meaning_Builder Outcome_Recorder Journal_Properties
begin

text \<open>
  \<open>finance_kernel/services/interpretation_coordinator.py\<close>: posting an interpreted event, with the
  economic event, the journal entries and the outcome in one transaction (L5). The session holds the three
  tables, committed and as the transaction sees them. The engine dispatcher is injected; it is a field of
  the coordinator. Identifiers, clock readings, the captured log records and what other
  transactions have committed are the environment of a call. Human-readable messages, also inside reason details, and the reproducibility
  hashes, which are only logged, are not modelled. An exception carries no state, the caller rolls back.
\<close>

section \<open>State\<close>

record economic_event =
  ee_id :: uuid
  ee_source_event_id :: uuid
  ee_economic_type :: string
  ee_quantity :: "py_decimal option"
  ee_dimensions :: "(string \<times> json) list option"
  ee_effective_date :: int
  ee_profile_id :: string
  ee_profile_version :: int
  ee_profile_hash :: "string option"
  ee_trace_id :: "uuid option"
  ee_coa_version :: "int option"
  ee_dimension_schema_version :: "int option"
  ee_currency_registry_version :: "int option"
  ee_fx_policy_version :: "int option"
  ee_created_at :: int

record posting_db =
  pd_journal :: journal_db
  pd_outcomes :: outcomes
  pd_econ_events :: "economic_event list"

record posting_session =
  ps_committed :: posting_db
  ps_working :: posting_db

datatype coordinator_exc = CoPy py_exc | CoJournal journal_exc | CoOutcome outcome_exc

record engine_trace =
  et_engine_name :: string
  et_success :: bool

record engine_result =
  er_engine_outputs :: "(string \<times> json) list"
  er_traces :: "engine_trace list"
  er_all_succeeded :: bool
  er_errors :: "string list"

record compiled_policy =
  cp_name :: string
  cp_version :: int
  cp_required_engines :: "string list"

record interpretation_result =
  ip_success :: bool
  ip_outcome :: "interpretation_outcome option"
  ip_economic_event :: "economic_event option"
  ip_journal_result :: "write_result option"
  ip_engine_result :: "engine_result option"
  ip_error_code :: "string option"

definition ip_posted ::
    "interpretation_outcome \<Rightarrow> economic_event \<Rightarrow> write_result \<Rightarrow> engine_result option \<Rightarrow> interpretation_result" where
  "ip_posted oc e jr er = \<lparr>ip_success = True, ip_outcome = Some oc, ip_economic_event = Some e, ip_journal_result = Some jr,
     ip_engine_result = er, ip_error_code = None\<rparr>"

definition ip_rejected :: "interpretation_outcome \<Rightarrow> string \<Rightarrow> interpretation_result" where
  "ip_rejected oc code = \<lparr>ip_success = False, ip_outcome = Some oc, ip_economic_event = None, ip_journal_result = None,
     ip_engine_result = None, ip_error_code = Some code\<rparr>"

definition ip_blocked :: "interpretation_outcome \<Rightarrow> string \<Rightarrow> interpretation_result" where
  "ip_blocked oc code = \<lparr>ip_success = False, ip_outcome = Some oc, ip_economic_event = None, ip_journal_result = None,
     ip_engine_result = None, ip_error_code = Some code\<rparr>"

definition ip_failure :: "string \<Rightarrow> interpretation_result" where
  "ip_failure code = \<lparr>ip_success = False, ip_outcome = None, ip_economic_event = None, ip_journal_result = None,
     ip_engine_result = None, ip_error_code = Some code\<rparr>"

record coordinator =
  ic_one_entry :: "journal_entry list \<Rightarrow> py_exc + journal_entry option"
  ic_one_outcome :: one_outcome
  ic_writer :: journal_writer
  ic_engine_dispatcher :: "(compiled_policy \<Rightarrow> (string \<times> json) list \<Rightarrow> engine_result) option"

text \<open>
  The environment of a call; \<open>pe_other\<close> is what the outcome and economic event tables hold, committed by another
  transaction, should the journal writer roll the session back.
\<close>

record posting_env =
  pe_now :: int
  pe_econ_id :: uuid
  pe_entries :: "nat \<Rightarrow> create_env"
  pe_other :: "(outcomes \<times> economic_event list) option"
  pe_log :: "dict list"

type_synonym 'a posting = "posting_session \<Rightarrow> coordinator_exc + 'a \<times> posting_session"

section \<open>Steps\<close>

definition posting_journal :: "posting_session \<Rightarrow> journal_session" where
  "posting_journal s = \<lparr>js_committed = pd_journal (ps_committed s), js_working = pd_journal (ps_working s)\<rparr>"

definition write_intent :: "coordinator \<Rightarrow> posting_env \<Rightarrow> accounting_intent \<Rightarrow> uuid \<Rightarrow> string \<Rightarrow> write_result posting" where
  "write_intent ic env intent actor et s =
     rbind (map_sum CoJournal id (journal_write (ic_one_entry ic) (ic_writer ic) (pe_entries env) intent actor et (posting_journal s))) (\<lambda>(r, js).
       let others = (case pe_other env of None \<Rightarrow> (pd_outcomes (ps_committed s), pd_econ_events (ps_committed s)) | Some p \<Rightarrow> p)
       in Inr (r, if write_conflict (ic_one_entry ic) (ic_writer ic) (pe_entries env) intent actor et (posting_journal s)
                  then \<lparr>ps_committed = \<lparr>pd_journal = js_committed js, pd_outcomes = fst others, pd_econ_events = snd others\<rparr>,
                        ps_working = \<lparr>pd_journal = js_working js, pd_outcomes = fst others, pd_econ_events = snd others\<rparr>\<rparr>
                  else \<lparr>ps_committed = (ps_committed s)\<lparr>pd_journal := js_committed js\<rparr>,
                        ps_working = (ps_working s)\<lparr>pd_journal := js_working js\<rparr>\<rparr>))"

definition insert_econ_event :: "economic_event \<Rightarrow> economic_event posting" where
  "insert_econ_event e s =
     (if list_ex (\<lambda>r. ee_id r = ee_id e) (pd_econ_events (ps_working s)) then Inl (CoPy IntegrityError)
      else Inr (e, s\<lparr>ps_working := (ps_working s)\<lparr>pd_econ_events := pd_econ_events (ps_working s) @ [e]\<rparr>\<rparr>))"

definition create_economic_event :: "posting_env \<Rightarrow> economic_event_data \<Rightarrow> uuid option \<Rightarrow> economic_event posting" where
  "create_economic_event env d trace_id =
     insert_econ_event
       \<lparr>ee_id = pe_econ_id env, ee_source_event_id = ed_source_event_id d, ee_economic_type = ed_economic_type d,
        ee_quantity = ed_quantity d, ee_dimensions = ed_dimensions d, ee_effective_date = ed_effective_date d,
        ee_profile_id = ed_profile_id d, ee_profile_version = ed_profile_version d, ee_profile_hash = ed_profile_hash d,
        ee_trace_id = (case trace_id of Some t \<Rightarrow> Some t | None \<Rightarrow> ed_trace_id d),
        ee_coa_version = Option.bind (ed_snapshot d) ms_coa_version,
        ee_dimension_schema_version = Option.bind (ed_snapshot d) ms_dimension_schema_version,
        ee_currency_registry_version = Option.bind (ed_snapshot d) ms_currency_registry_version,
        ee_fx_policy_version = Option.bind (ed_snapshot d) ms_fx_policy_version,
        ee_created_at = pe_now env\<rparr>"

definition record_outcome :: "(outcomes \<Rightarrow> outcome_result) \<Rightarrow> interpretation_outcome posting" where
  "record_outcome op s =
     rbind (map_sum CoOutcome id (op (pd_outcomes (ps_working s)))) (\<lambda>(r, ocs).
       Inr (r, s\<lparr>ps_working := (ps_working s)\<lparr>pd_outcomes := ocs\<rparr>\<rparr>))"

definition intent_context :: "accounting_intent \<Rightarrow> uuid option \<Rightarrow> outcome_context" where
  "intent_context intent trace_id = \<lparr>oc_profile_id = ai_profile_id intent, oc_profile_version = ai_profile_version intent,
     oc_profile_hash = None, oc_trace_id = trace_id, oc_decision_log = None\<rparr>"

definition or_else :: "string option \<Rightarrow> string \<Rightarrow> string" where
  "or_else x d = (case x of None \<Rightarrow> d | Some s \<Rightarrow> if s = [] then d else s)"

definition handle_rejection :: "coordinator \<Rightarrow> posting_env \<Rightarrow> guard_result \<Rightarrow> accounting_intent \<Rightarrow> uuid option \<Rightarrow> interpretation_result posting" where
  "handle_rejection ic env g intent trace_id s =
     rbind (record_outcome (record_rejected (ic_one_outcome ic) (pe_now env) (ai_source_event_id intent) (intent_context intent trace_id)
         (or_else (gr_reason_code g) ''GUARD_REJECTED'') (gr_reason_detail g)) s) (\<lambda>(oc, s').
       Inr (ip_rejected oc (or_else (gr_reason_code g) ''GUARD_REJECTED''), s'))"

definition handle_block :: "coordinator \<Rightarrow> posting_env \<Rightarrow> guard_result \<Rightarrow> accounting_intent \<Rightarrow> uuid option \<Rightarrow> interpretation_result posting" where
  "handle_block ic env g intent trace_id s =
     rbind (record_outcome (record_blocked (ic_one_outcome ic) (pe_now env) (ai_source_event_id intent) (intent_context intent trace_id)
         (or_else (gr_reason_code g) ''GUARD_BLOCKED'') (gr_reason_detail g)) s) (\<lambda>(oc, s').
       Inr (ip_blocked oc (or_else (gr_reason_code g) ''GUARD_BLOCKED''), s'))"

definition unresolved_detail :: "write_result \<Rightarrow> dict option" where
  "unresolved_detail jr =
     Some [(''unresolved_roles'', case wr_unresolved_roles jr of None \<Rightarrow> JNull | Some rs \<Rightarrow> JList (map JStr rs))]"

definition record_block_for_resolution :: "coordinator \<Rightarrow> posting_env \<Rightarrow> write_result \<Rightarrow> accounting_intent \<Rightarrow> uuid option \<Rightarrow> interpretation_result posting" where
  "record_block_for_resolution ic env jr intent trace_id s =
     rbind (record_outcome (record_blocked (ic_one_outcome ic) (pe_now env) (ai_source_event_id intent) (intent_context intent trace_id)
         ''ROLE_RESOLUTION_BLOCKED'' (unresolved_detail jr)) s) (\<lambda>(oc, s').
       Inr (ip_blocked oc ''ROLE_RESOLUTION_BLOCKED'', s'))"

definition record_rejection_for_write_failure :: "coordinator \<Rightarrow> posting_env \<Rightarrow> write_result \<Rightarrow> accounting_intent \<Rightarrow> uuid option \<Rightarrow> interpretation_result posting" where
  "record_rejection_for_write_failure ic env jr intent trace_id s =
     rbind (record_outcome (record_rejected (ic_one_outcome ic) (pe_now env) (ai_source_event_id intent) (intent_context intent trace_id)
         (or_else (wr_error_code jr) ''WRITE_FAILED'') (Some [])) s) (\<lambda>(oc, s').
       Inr (ip_rejected oc (or_else (wr_error_code jr) ''WRITE_FAILED''), s'))"

text \<open>Engine dispatch: None when no engine has to run.\<close>

definition dispatch_engines :: "coordinator \<Rightarrow> compiled_policy option \<Rightarrow> (string \<times> json) list option \<Rightarrow> engine_result option" where
  "dispatch_engines ic cp data =
     (case (ic_engine_dispatcher ic, cp, data) of
        (Some f, Some p, Some d) \<Rightarrow> if cp_required_engines p = [] then None else Some (f p d)
      | _ \<Rightarrow> None)"

definition engines_ok :: "compiled_policy option \<Rightarrow> engine_result \<Rightarrow> bool" where
  "engines_ok cp er \<longleftrightarrow>
     (case cp of None \<Rightarrow> True | Some p \<Rightarrow>
        length (er_traces er) = length (cp_required_engines p) \<and> list_all et_success (er_traces er) \<and> er_all_succeeded er)"

section \<open>Operations\<close>

text \<open>Writing and recording what came of it, shared by the two ways of posting; they differ in how they report a failed write.\<close>

definition write_and_record ::
    "coordinator \<Rightarrow> posting_env \<Rightarrow> accounting_intent \<Rightarrow> uuid \<Rightarrow> uuid option \<Rightarrow> economic_event_data \<Rightarrow> engine_result option
     \<Rightarrow> (write_result \<Rightarrow> interpretation_result posting) \<Rightarrow> interpretation_result posting" where
  "write_and_record ic env intent actor trace_id d er failed s =
     rbind (create_economic_event env d trace_id s) (\<lambda>(e, s1).
     rbind (write_intent ic env intent actor (ed_economic_type d) s1) (\<lambda>(jr, s2).
       if \<not> wr_is_success jr then failed jr s2
       else rbind (record_outcome (record_posted (ic_one_outcome ic) (pe_now env) (ai_source_event_id intent)
                (intent_context intent trace_id) (ee_id e) (wr_entry_ids jr)) s2) (\<lambda>(oc, s3).
              Inr (ip_posted oc e jr er, s3))))"

definition post_meaning ::
    "coordinator \<Rightarrow> posting_env \<Rightarrow> meaning_result \<Rightarrow> accounting_intent \<Rightarrow> uuid \<Rightarrow> uuid option \<Rightarrow> engine_result option
     \<Rightarrow> interpretation_result posting" where
  "post_meaning ic env mr intent actor trace_id er s =
     (case mr_economic_event mr of
        None \<Rightarrow> Inr (ip_failure ''INTERPRETATION_FAILED'', s)
      | Some d \<Rightarrow>
          if \<not> mr_success mr then Inr (ip_failure ''INTERPRETATION_FAILED'', s)
          else write_and_record ic env intent actor trace_id d er (\<lambda>jr.
                 if wr_status jr = ROLE_RESOLUTION_FAILED then record_block_for_resolution ic env jr intent trace_id
                 else record_rejection_for_write_failure ic env jr intent trace_id) s)"

definition do_interpret_and_post ::
    "coordinator \<Rightarrow> posting_env \<Rightarrow> meaning_result \<Rightarrow> accounting_intent \<Rightarrow> uuid \<Rightarrow> uuid option \<Rightarrow> compiled_policy option
     \<Rightarrow> (string \<times> json) list option \<Rightarrow> interpretation_result posting" where
  "do_interpret_and_post ic env mr intent actor trace_id cp data s =
     (let er = dispatch_engines ic cp data
      in if (case er of None \<Rightarrow> False | Some r \<Rightarrow> \<not> engines_ok cp r) then Inr (ip_failure ''ENGINE_DISPATCH_FAILED'', s)
         else case mr_guard_result mr of
           None \<Rightarrow> post_meaning ic env mr intent actor trace_id er s
         | Some g \<Rightarrow>
             if gr_rejected g then handle_rejection ic env g intent trace_id s
             else if gr_blocked g then handle_block ic env g intent trace_id s
             else post_meaning ic env mr intent actor trace_id er s)"

text \<open>The decision log of the outcome: the caller's records, then the captured ones.\<close>

definition set_decision_log :: "dict list \<Rightarrow> interpretation_result \<Rightarrow> posting_session \<Rightarrow> interpretation_result \<times> posting_session" where
  "set_decision_log records r s =
     (case ip_outcome r of
        None \<Rightarrow> (r, s)
      | Some oc \<Rightarrow>
          (r\<lparr>ip_outcome := Some (oc\<lparr>io_decision_log := Some records\<rparr>)\<rparr>,
           s\<lparr>ps_working := (ps_working s)\<lparr>pd_outcomes :=
             update_outcome (io_source_event_id oc) (\<lambda>q. q\<lparr>io_decision_log := Some records\<rparr>) (pd_outcomes (ps_working s))\<rparr>\<rparr>))"

definition interpret_and_post ::
    "coordinator \<Rightarrow> posting_env \<Rightarrow> meaning_result \<Rightarrow> accounting_intent \<Rightarrow> uuid \<Rightarrow> uuid option \<Rightarrow> compiled_policy option
     \<Rightarrow> (string \<times> json) list option \<Rightarrow> dict list option \<Rightarrow> interpretation_result posting" where
  "interpret_and_post ic env mr intent actor trace_id cp data preamble_log s =
     rmap (\<lambda>(r, s'). set_decision_log ((case preamble_log of None \<Rightarrow> [] | Some l \<Rightarrow> l) @ pe_log env) r s')
       (do_interpret_and_post ic env mr intent actor trace_id cp data s)"

definition post_from_intent ::
    "coordinator \<Rightarrow> posting_env \<Rightarrow> economic_event_data \<Rightarrow> accounting_intent \<Rightarrow> uuid \<Rightarrow> uuid option \<Rightarrow> interpretation_result posting" where
  "post_from_intent ic env d intent actor trace_id s =
     write_and_record ic env intent actor trace_id d None (\<lambda>jr s2.
       if wr_status jr = ROLE_RESOLUTION_FAILED then
         rbind (record_outcome (record_blocked (ic_one_outcome ic) (pe_now env) (ai_source_event_id intent) (intent_context intent trace_id)
             ''ROLE_RESOLUTION_BLOCKED'' (unresolved_detail jr)) s2) (\<lambda>(oc, s3).
           Inr (ip_blocked oc (or_else (wr_error_code jr) ''UNKNOWN''), s3))
       else
         rbind (record_outcome (record_rejected (ic_one_outcome ic) (pe_now env) (ai_source_event_id intent) (intent_context intent trace_id)
             (or_else (wr_error_code jr) ''WRITE_FAILED'') (Some [])) s2) (\<lambda>(oc, s3).
           Inr (ip_rejected oc (or_else (wr_error_code jr) ''UNKNOWN''), s3))) s"

definition unknown_event :: "posting_env \<Rightarrow> uuid \<Rightarrow> accounting_intent \<Rightarrow> uuid option \<Rightarrow> economic_event" where
  "unknown_event env ev intent trace_id =
     \<lparr>ee_id = pe_econ_id env, ee_source_event_id = ev, ee_economic_type = ''unknown'', ee_quantity = None, ee_dimensions = None,
      ee_effective_date = ai_effective_date intent, ee_profile_id = ai_profile_id intent, ee_profile_version = ai_profile_version intent,
      ee_profile_hash = None, ee_trace_id = trace_id, ee_coa_version = None, ee_dimension_schema_version = None,
      ee_currency_registry_version = None, ee_fx_policy_version = None, ee_created_at = pe_now env\<rparr>"

definition transition_blocked_to_posted ::
    "coordinator \<Rightarrow> posting_env \<Rightarrow> uuid \<Rightarrow> accounting_intent \<Rightarrow> uuid \<Rightarrow> uuid option \<Rightarrow> interpretation_result posting" where
  "transition_blocked_to_posted ic env ev intent actor trace_id s =
     rbind (map_sum CoOutcome id (get_outcome (ic_one_outcome ic) ev (pd_outcomes (ps_working s)))) (\<lambda>existing.
       case existing of
         None \<Rightarrow> Inr (ip_failure ''NO_OUTCOME'', s)
       | Some oc \<Rightarrow>
           if io_status oc \<noteq> OUT_BLOCKED then Inr (ip_failure ''INVALID_TRANSITION'', s)
           else rbind (insert_econ_event (unknown_event env ev intent trace_id) s) (\<lambda>(e, s1).
                rbind (write_intent ic env intent actor ''economic.posting'' s1) (\<lambda>(jr, s2).
                  if \<not> wr_is_success jr then Inr (ip_failure (or_else (wr_error_code jr) ''WRITE_FAILED''), s2)
                  else rbind (record_outcome (transition_to_posted (ic_one_outcome ic) (pe_now env) ev (ee_id e) (wr_entry_ids jr)) s2)
                         (\<lambda>(oc', s3). Inr (ip_posted oc' e jr None, s3)))))"

section \<open>A successful write rolls nothing back\<close>

declare map_sum_Inr_iff [simp]

lemma loop_uncontended:
  assumes "write_loop one env intent actor et n new written s = Inr (out, s')" "query_one one"
    "(\<forall>n. ce_other (env n) = None) \<or> \<not> loop_conflict env intent actor et n new s" "inv_session s" "postable rb intent new" "\<forall>p \<in> set new. pending (js_committed s) intent p"
  shows "js_committed s' = js_committed s
    \<and> (case out of Inr w \<Rightarrow> \<not> loop_conflict env intent actor et n new s | Inl f \<Rightarrow> js_working s' = js_committed s)"
  using assms
proof (induction one env intent actor et n new written s rule: write_loop.induct)
  case (2 one env intent actor et n li rls rest written s)
  note IH = 2(2) and hyps = 2(3-8)
  show ?case
  proof (cases "create_entry (env n) intent li rls actor et (js_working s)")
    case (Inr p)
    obtain we db where p: "p = (we, db)" by (cases p)
    have "inv_db db \<and> extends (js_working s) db"
      using create_entry_inv [OF Inr [unfolded p], of rb] hyps(4,5) by (simp add: inv_session_def postable_def)
    then have "inv_session (s\<lparr>js_working := db\<rparr>)" using hyps(4) extends_trans by (auto simp: inv_session_def)
    then show ?thesis using IH [OF Inr p [symmetric]] hyps Inr p by (cases out) auto
  next
    case (Inl e)
    have "e = Py IntegrityError" using hyps(1) Inl by (auto split: if_splits)
    then have cr: "conflict_rollback (env n) s = s\<lparr>js_working := js_committed s\<rparr>"
      using hyps(3) Inl by (auto simp: conflict_rollback_def js_rollback_def)
    have "get_existing_entry one (idempotency_key intent (li_ledger_id li)) (js_committed s) = Inr None"
      using get_existing_inv [OF hyps(2)] hyps(4,6) by (simp add: inv_session_def)
    then show ?thesis using hyps(1) Inl by (auto simp: cr Let_def split: if_splits)
  qed
qed auto

lemma write_uncontended:
  assumes one: "query_one one" and inv: "inv_session s" and env: "no_collision one jw env intent actor et s"
    and w: "journal_write one jw env intent actor et s = Inr (r, s')"
  shows "js_committed s' = js_committed s" "wr_is_success r \<Longrightarrow> \<not> write_conflict one jw env intent actor et s"
    "\<not> wr_is_success r \<Longrightarrow> js_working s' \<in> {js_working s, js_committed s}"
proof -
  have "js_committed s' = js_committed s \<and> (wr_is_success r \<longrightarrow> \<not> write_conflict one jw env intent actor et s)
    \<and> (\<not> wr_is_success r \<longrightarrow> js_working s' \<in> {js_working s, js_committed s})"
    using w
  proof (cases rule: journal_write_cases)
    case (loop resolved ex new out)
    have new: "new = filter (pending (js_working s) intent) resolved"
      using partition_inv [OF one, of "js_working s" intent resolved] inv loop(3) by (simp add: inv_session_def)
    have pend: "\<forall>p \<in> set new. pending (js_committed s) intent p"
      using new inv has_key_extends by (auto simp: inv_session_def)
    note l = loop_uncontended [OF loop(5) one loop_no_conflict [OF env loop(1-3)] inv resolved_postable [OF loop(1,2) partition_new [OF loop(3)]] pend]
    show ?thesis
    proof (cases out)
      case (Inl f)
      then have "r = wr_failure ''CONCURRENT_INSERT''" using loop(5,6) by (auto dest: write_loop_failure)
      then show ?thesis using l Inl by (simp add: wr_failure_def wr_is_success_def)
    next
      case (Inr v)
      then have "r = wr_success v" using loop(6) by auto
      then show ?thesis using l Inr loop(2,3) by (simp add: write_conflict_def wr_success_def wr_is_success_def)
    qed
  qed (simp_all add: write_conflict_def wr_is_success_def wr_validation_failed_def wr_role_resolution_failed_def wr_already_exists_def)
  then show "js_committed s' = js_committed s" "wr_is_success r \<Longrightarrow> \<not> write_conflict one jw env intent actor et s"
    "\<not> wr_is_success r \<Longrightarrow> js_working s' \<in> {js_working s, js_committed s}" by blast+
qed

section \<open>What posting leaves behind\<close>

definition coordinator_ok :: "coordinator \<Rightarrow> bool" where
  "coordinator_ok ic \<longleftrightarrow> query_one (ic_one_entry ic) \<and> query_one (ic_one_outcome ic)"

definition posting_inv :: "posting_session \<Rightarrow> bool" where
  "posting_inv s \<longleftrightarrow> inv_session (posting_journal s) \<and> wf_outcomes (pd_outcomes (ps_working s)) \<and> wf_outcomes (pd_outcomes (ps_committed s))"

text \<open>
  What a posting relies on: no other transaction committed anything in between, or nothing that collided with the inserts
  of the journal writer, which would roll back the session.
\<close>

definition uncontended :: "coordinator \<Rightarrow> posting_env \<Rightarrow> accounting_intent \<Rightarrow> uuid \<Rightarrow> posting_session \<Rightarrow> bool" where
  "uncontended ic env intent actor s \<longleftrightarrow>
     (\<forall>n. ce_other (pe_entries env n) = None) \<and> pe_other env = None
     \<or> (\<forall>et. \<not> write_conflict (ic_one_entry ic) (ic_writer ic) (pe_entries env) intent actor et (posting_journal s))"

lemma uncontended_write:
  "uncontended ic env intent actor s \<Longrightarrow>
     no_collision (ic_one_entry ic) (ic_writer ic) (pe_entries env) intent actor et (posting_journal s)"
  by (auto simp: uncontended_def no_collision_def)

lemma write_intent_success:
  assumes ok: "coordinator_ok ic" "posting_inv s" "uncontended ic env intent actor s"
    and w: "write_intent ic env intent actor et s = Inr (jr, s')" "wr_is_success jr"
  shows "pd_outcomes (ps_working s') = pd_outcomes (ps_working s)" "pd_econ_events (ps_working s') = pd_econ_events (ps_working s)"
    "ps_committed s' = ps_committed s" "posting_inv s'"
    "\<forall>li \<in> set (ai_ledger_intents intent). has_key (pd_journal (ps_working s')) (idempotency_key intent (li_ledger_id li))"
    "set (wr_entries jr) = written_for (pd_journal (ps_working s')) intent ` set (ai_ledger_intents intent)"
    "extends (pd_journal (ps_working s)) (pd_journal (ps_working s'))"
proof -
  let ?js = "posting_journal s"
  obtain js' where j: "journal_write (ic_one_entry ic) (ic_writer ic) (pe_entries env) intent actor et ?js = Inr (jr, js')"
    using w(1) by (auto simp: write_intent_def Let_def result_iffs)
  have q: "query_one (ic_one_entry ic)" and inv: "inv_session ?js" using ok(1,2) by (simp_all add: coordinator_ok_def posting_inv_def)
  have nc: "\<not> write_conflict (ic_one_entry ic) (ic_writer ic) (pe_entries env) intent actor et ?js"
    by (rule write_uncontended(2) [OF q inv uncontended_write [OF ok(3)] j w(2)])
  have jc: "js_committed js' = pd_journal (ps_committed s)" using write_uncontended(1) [OF q inv uncontended_write [OF ok(3)] j] by (simp add: posting_journal_def)
  have s'_eq: "s' = \<lparr>ps_committed = (ps_committed s)\<lparr>pd_journal := js_committed js'\<rparr>,
      ps_working = (ps_working s)\<lparr>pd_journal := js_working js'\<rparr>\<rparr>"
    using w(1) j nc by (simp add: write_intent_def Let_def)
  from w(2) obtain resolved where r: "\<not> unbalanced_intent intent" "resolve_all_roles (jw_bindings (ic_writer ic)) intent = Inr resolved"
    "set (wr_entries jr) = (written_for (js_working js') intent \<circ> fst) ` set resolved"
    "\<forall>p \<in> set resolved. \<not> pending (js_working js') intent p" "extends (js_working ?js) (js_working js')" "inv_session js'"
    by (rule write_success_rows [OF q inv uncontended_write [OF ok(3)] j])
  have fst: "fst ` set resolved = set (ai_ledger_intents intent)"
    using resolved_intents [OF r(2)] by (metis set_map)
  show "pd_outcomes (ps_working s') = pd_outcomes (ps_working s)" "pd_econ_events (ps_working s') = pd_econ_events (ps_working s)"
    "ps_committed s' = ps_committed s" by (simp_all add: s'_eq jc)
  have "posting_journal s' = js'" by (cases js') (simp add: posting_journal_def s'_eq)
  then show "posting_inv s'" using ok(2) r(6) by (simp add: posting_inv_def s'_eq)
  show "\<forall>li \<in> set (ai_ledger_intents intent). has_key (pd_journal (ps_working s')) (idempotency_key intent (li_ledger_id li))"
    using r(4) unfolding fst [symmetric] by (simp add: s'_eq)
  show "set (wr_entries jr) = written_for (pd_journal (ps_working s')) intent ` set (ai_ledger_intents intent)"
    using r(3) unfolding fst [symmetric] by (simp add: s'_eq image_comp)
  show "extends (pd_journal (ps_working s)) (pd_journal (ps_working s'))" using r(5) by (simp add: s'_eq posting_journal_def)
qed

lemma write_intent_failure:
  assumes ok: "coordinator_ok ic" "posting_inv s" "uncontended ic env intent actor s"
    and w: "write_intent ic env intent actor et s = Inr (jr, s')" "\<not> wr_is_success jr"
  shows "ps_committed s' = ps_committed s" "wf_outcomes (pd_outcomes (ps_working s'))"
    "pd_journal (ps_working s') \<in> {pd_journal (ps_working s), pd_journal (ps_committed s)}"
    "pd_outcomes (ps_working s') \<in> {pd_outcomes (ps_working s), pd_outcomes (ps_committed s)}"
proof -
  obtain js' where j: "journal_write (ic_one_entry ic) (ic_writer ic) (pe_entries env) intent actor et (posting_journal s) = Inr (jr, js')"
    using w(1) by (auto simp: write_intent_def Let_def result_iffs)
  have "query_one (ic_one_entry ic)" "inv_session (posting_journal s)" using ok(1,2) by (simp_all add: coordinator_ok_def posting_inv_def)
  note u = write_uncontended [OF this uncontended_write [OF ok(3)] j]
  show "ps_committed s' = ps_committed s" "wf_outcomes (pd_outcomes (ps_working s'))"
    "pd_journal (ps_working s') \<in> {pd_journal (ps_working s), pd_journal (ps_committed s)}"
    "pd_outcomes (ps_working s') \<in> {pd_outcomes (ps_working s), pd_outcomes (ps_committed s)}"
    using u(1) u(3) [OF w(2)] w(1) j ok(2,3)
    by (auto simp: uncontended_def write_intent_def Let_def posting_journal_def posting_inv_def split: if_splits)
qed

text \<open>The three recordings append one outcome for an event that had none.\<close>

lemma recorded:
  assumes q: "query_one one" and wf: "wf_outcomes db"
    and r: "record_posted one now ev c econ ids db = Inr (oc, db') \<and> st = OUT_POSTED
      \<or> record_rejected one now ev c code detail db = Inr (oc, db') \<and> st = OUT_REJECTED
      \<or> record_blocked one now ev c code detail db = Inr (oc, db') \<and> st = OUT_BLOCKED"
  shows "find_outcome ev db = None" "db' = db @ [oc]" "io_source_event_id oc = ev" "io_status oc = st"
    "st = OUT_POSTED \<Longrightarrow> ids \<noteq> [] \<and> io_econ_event_id oc = Some econ \<and> io_journal_entry_ids oc = Some (map uuid_str ids)"
proof -
  have "outcome_table one" using q by (simp add: outcome_table_def)
  note c = outcome_table.check_not_exists_Inr [OF this wf]
  show "find_outcome ev db = None" "db' = db @ [oc]" "io_source_event_id oc = ev" "io_status oc = st"
    "st = OUT_POSTED \<Longrightarrow> ids \<noteq> [] \<and> io_econ_event_id oc = Some econ \<and> io_journal_entry_ids oc = Some (map uuid_str ids)"
    using r c by (auto simp: record_posted_def record_rejected_def record_blocked_def result_iffs add_outcome_def insert_outcome_def
        new_outcome_def split: if_splits)
qed

text \<open>What a posting call may leave behind, by its result.\<close>

definition posted_together :: "accounting_intent \<Rightarrow> interpretation_result \<Rightarrow> posting_db \<Rightarrow> bool" where
  "posted_together intent r db \<longleftrightarrow>
     (\<exists>oc jr ee. ip_outcome r = Some oc \<and> find_outcome (ai_source_event_id intent) (pd_outcomes db) = Some oc
        \<and> io_status oc = OUT_POSTED \<and> ip_journal_result r = Some jr \<and> wr_entry_ids jr \<noteq> []
        \<and> io_journal_entry_ids oc = Some (map uuid_str (wr_entry_ids jr))
        \<and> ee \<in> set (pd_econ_events db) \<and> io_econ_event_id oc = Some (ee_id ee)
        \<and> (\<forall>i \<in> set (wr_entry_ids jr). \<exists>e \<in> set (jd_entries (pd_journal db)). je_id e = i \<and> entry_ok e)
        \<and> (\<forall>li \<in> set (ai_ledger_intents intent). \<exists>e \<in> set (jd_entries (pd_journal db)).
             je_id e \<in> set (wr_entry_ids jr) \<and> je_idempotency_key e = idempotency_key intent (li_ledger_id li)))"

definition nothing_posted :: "accounting_intent \<Rightarrow> interpretation_result \<Rightarrow> posting_session \<Rightarrow> posting_session \<Rightarrow> bool" where
  "nothing_posted intent r s s' \<longleftrightarrow>
     pd_journal (ps_working s') \<in> {pd_journal (ps_working s), pd_journal (ps_committed s)}
     \<and> (case ip_outcome r of
          None \<Rightarrow> pd_outcomes (ps_working s') = pd_outcomes (ps_working s)
        | Some oc \<Rightarrow> find_outcome (ai_source_event_id intent) (pd_outcomes (ps_working s')) = Some oc
            \<and> io_status oc \<in> {OUT_BLOCKED, OUT_REJECTED})"

definition atomic_result :: "accounting_intent \<Rightarrow> posting_session \<Rightarrow> interpretation_result \<Rightarrow> posting_session \<Rightarrow> bool" where
  "atomic_result intent s r s' \<longleftrightarrow> ps_committed s' = ps_committed s
     \<and> (if ip_success r then posted_together intent r (ps_working s') else nothing_posted intent r s s')"

text \<open>A failed write or a triggered guard is recorded as a rejection or a block of the event.\<close>

definition recorded_failure ::
    "coordinator \<Rightarrow> posting_env \<Rightarrow> accounting_intent \<Rightarrow> uuid option \<Rightarrow> posting_session \<Rightarrow> interpretation_result \<Rightarrow> posting_session \<Rightarrow> bool" where
  "recorded_failure ic env intent trace_id s2 r s3 \<longleftrightarrow>
     (\<exists>code detail oc. \<not> ip_success r \<and> ip_outcome r = Some oc
        \<and> (record_outcome (record_rejected (ic_one_outcome ic) (pe_now env) (ai_source_event_id intent) (intent_context intent trace_id)
               code detail) s2 = Inr (oc, s3)
           \<or> record_outcome (record_blocked (ic_one_outcome ic) (pe_now env) (ai_source_event_id intent) (intent_context intent trace_id)
               code detail) s2 = Inr (oc, s3)))"

lemma recorded_failures:
  "handle_rejection ic env g intent trace_id s2 = Inr (r, s3) \<Longrightarrow> recorded_failure ic env intent trace_id s2 r s3"
  "handle_block ic env g intent trace_id s2 = Inr (r, s3) \<Longrightarrow> recorded_failure ic env intent trace_id s2 r s3"
  "record_block_for_resolution ic env jr intent trace_id s2 = Inr (r, s3) \<Longrightarrow> recorded_failure ic env intent trace_id s2 r s3"
  "record_rejection_for_write_failure ic env jr intent trace_id s2 = Inr (r, s3) \<Longrightarrow> recorded_failure ic env intent trace_id s2 r s3"
  unfolding recorded_failure_def handle_rejection_def handle_block_def record_block_for_resolution_def
    record_rejection_for_write_failure_def ip_blocked_def ip_rejected_def
  by (fastforce simp: result_iffs)+

lemma recording_atomic:
  assumes ok: "coordinator_ok ic" "wf_outcomes (pd_outcomes (ps_working s2))"
    and rec: "recorded_failure ic env intent trace_id s2 r s3"
    and s2: "ps_committed s2 = ps_committed s" "pd_journal (ps_working s2) \<in> {pd_journal (ps_working s), pd_journal (ps_committed s)}"
  shows "atomic_result intent s r s3"
proof -
  have q: "query_one (ic_one_outcome ic)" using ok(1) by (simp add: coordinator_ok_def)
  obtain code detail oc ocs where r: "\<not> ip_success r" "ip_outcome r = Some oc"
    and o: "record_rejected (ic_one_outcome ic) (pe_now env) (ai_source_event_id intent) (intent_context intent trace_id) code detail
        (pd_outcomes (ps_working s2)) = Inr (oc, ocs)
      \<or> record_blocked (ic_one_outcome ic) (pe_now env) (ai_source_event_id intent) (intent_context intent trace_id) code detail
        (pd_outcomes (ps_working s2)) = Inr (oc, ocs)"
    and s3: "s3 = s2\<lparr>ps_working := (ps_working s2)\<lparr>pd_outcomes := ocs\<rparr>\<rparr>"
    using rec by (auto simp: recorded_failure_def record_outcome_def result_iffs)
  obtain st where "st \<in> {OUT_BLOCKED, OUT_REJECTED}" "find_outcome (ai_source_event_id intent) (pd_outcomes (ps_working s2)) = None"
    "ocs = pd_outcomes (ps_working s2) @ [oc]" "io_source_event_id oc = ai_source_event_id intent" "io_status oc = st"
    using recorded(1-4) [OF q ok(2), where ev = "ai_source_event_id intent" and now = "pe_now env" and c = "intent_context intent trace_id"
        and code = code and detail = detail and oc = oc and db' = ocs] o by (metis insertCI)
  then show ?thesis using s2 r by (auto simp: atomic_result_def nothing_posted_def s3)
qed

lemma write_and_record_atomic:
  assumes ok: "coordinator_ok ic" "posting_inv s" "uncontended ic env intent actor s"
    and w: "write_and_record ic env intent actor trace_id d er failed s = Inr (r, s')"
    and failed: "\<And>jr s2. failed jr s2 = Inr (r, s') \<Longrightarrow> recorded_failure ic env intent trace_id s2 r s'"
  shows "atomic_result intent s r s'"
proof -
  have q: "query_one (ic_one_outcome ic)" using ok(1) by (simp add: coordinator_ok_def)
  obtain e s1 jr s2 where c: "create_economic_event env d trace_id s = Inr (e, s1)"
    and wi: "write_intent ic env intent actor (ed_economic_type d) s1 = Inr (jr, s2)"
    and rest: "if \<not> wr_is_success jr then failed jr s2 = Inr (r, s')
       else \<exists>oc. record_outcome (record_posted (ic_one_outcome ic) (pe_now env) (ai_source_event_id intent)
                (intent_context intent trace_id) (ee_id e) (wr_entry_ids jr)) s2 = Inr (oc, s') \<and> r = ip_posted oc e jr er"
    using w by (auto simp: write_and_record_def result_iffs split: if_splits)
  have s1: "s1 = s\<lparr>ps_working := (ps_working s)\<lparr>pd_econ_events := pd_econ_events (ps_working s) @ [e]\<rparr>\<rparr>"
    using c by (auto simp: create_economic_event_def insert_econ_event_def split: if_splits)
  then have inv1: "posting_inv s1" and un: "uncontended ic env intent actor s1"
    using ok(2,3) by (simp_all add: posting_inv_def posting_journal_def uncontended_def)
  show ?thesis
  proof (cases "wr_is_success jr")
    case False
    note f = write_intent_failure [OF ok(1) inv1 un wi False]
    from rest False failed have "recorded_failure ic env intent trace_id s2 r s'" by simp
    then show ?thesis using f(1,3) s1 by (intro recording_atomic [OF ok(1) f(2)]) simp_all
  next
    case True
    note t = write_intent_success [OF ok(1) inv1 un wi True]
    obtain oc where rec: "record_outcome (record_posted (ic_one_outcome ic) (pe_now env) (ai_source_event_id intent)
        (intent_context intent trace_id) (ee_id e) (wr_entry_ids jr)) s2 = Inr (oc, s')" and r: "r = ip_posted oc e jr er"
      using rest True by auto
    obtain ocs where o: "record_posted (ic_one_outcome ic) (pe_now env) (ai_source_event_id intent)
        (intent_context intent trace_id) (ee_id e) (wr_entry_ids jr) (pd_outcomes (ps_working s2)) = Inr (oc, ocs)"
      and s': "s' = s2\<lparr>ps_working := (ps_working s2)\<lparr>pd_outcomes := ocs\<rparr>\<rparr>"
      using rec by (auto simp: record_outcome_def result_iffs)
    have "wf_outcomes (pd_outcomes (ps_working s2))" using t(4) by (simp add: posting_inv_def)
    note p = recorded [OF q this disjI1 [OF conjI [OF o refl]]]
    let ?db = "pd_journal (ps_working s2)"
    have row: "\<exists>x \<in> set (jd_entries ?db). je_id x = we_entry_id (written_for ?db intent li) \<and> entry_ok x
        \<and> je_idempotency_key x = idempotency_key intent (li_ledger_id li)" if li: "li \<in> set (ai_ledger_intents intent)" for li
    proof -
      have inv: "inv_db ?db" using t(4) by (simp add: posting_inv_def posting_journal_def inv_session_def)
      obtain x where x: "x \<in> set (jd_entries ?db)" "je_idempotency_key x = idempotency_key intent (li_ledger_id li)"
        using bspec [OF t(5) li] by (auto simp: has_key_def)
      then have "written_for ?db intent li = existing_written (li_ledger_id li) (je_idempotency_key x) x"
        using key_row [OF inv x(1)] by (simp add: written_for_def Let_def)
      moreover have "entry_ok x" using inv x(1) by (simp add: inv_db_def list_all_iff)
      ultimately show ?thesis using x by (auto simp: existing_written_def)
    qed
    have ids: "set (wr_entry_ids jr) = (\<lambda>li. we_entry_id (written_for ?db intent li)) ` set (ai_ledger_intents intent)"
      using t(6) by (simp add: wr_entry_ids_def image_image)
    have "posted_together intent r (ps_working s')"
      unfolding posted_together_def
    proof (intro exI conjI ballI)
      show "ip_outcome r = Some oc" "ip_journal_result r = Some jr" by (simp_all add: r ip_posted_def)
      show "find_outcome (ai_source_event_id intent) (pd_outcomes (ps_working s')) = Some oc" using p(1-3) by (simp add: s')
      show "io_status oc = OUT_POSTED" "wr_entry_ids jr \<noteq> []" "io_journal_entry_ids oc = Some (map uuid_str (wr_entry_ids jr))"
        "io_econ_event_id oc = Some (ee_id e)" using p(4,5) by simp_all
      show "e \<in> set (pd_econ_events (ps_working s'))" using t(2) s1 by (simp add: s')
      show "\<exists>x \<in> set (jd_entries (pd_journal (ps_working s'))). je_id x = i \<and> entry_ok x" if "i \<in> set (wr_entry_ids jr)" for i
        using row that unfolding ids by (fastforce simp: s')
      show "\<exists>x \<in> set (jd_entries (pd_journal (ps_working s'))). je_id x \<in> set (wr_entry_ids jr)
          \<and> je_idempotency_key x = idempotency_key intent (li_ledger_id li)" if "li \<in> set (ai_ledger_intents intent)" for li
        using row [OF that] that unfolding ids by (fastforce simp: s')
    qed
    then show ?thesis using t(3) s1 by (simp add: atomic_result_def r ip_posted_def s')
  qed
qed

lemma post_meaning_atomic:
  assumes "coordinator_ok ic" "posting_inv s" "uncontended ic env intent actor s"
    and "post_meaning ic env mr intent actor trace_id er s = Inr (r, s')"
  shows "atomic_result intent s r s'"
proof (cases "mr_success mr \<and> mr_economic_event mr \<noteq> None")
  case True
  then obtain d where "write_and_record ic env intent actor trace_id d er (\<lambda>jr.
      if wr_status jr = ROLE_RESOLUTION_FAILED then record_block_for_resolution ic env jr intent trace_id
      else record_rejection_for_write_failure ic env jr intent trace_id) s = Inr (r, s')"
    using assms(4) by (auto simp: post_meaning_def)
  then show ?thesis
    by (rule write_and_record_atomic [OF assms(1-3)]) (auto split: if_splits intro: recorded_failures(3,4))
next
  case False
  then show ?thesis using assms(4)
    by (auto simp: post_meaning_def atomic_result_def nothing_posted_def ip_failure_def split: option.splits)
qed

lemma set_decision_log_atomic:
  assumes "atomic_result intent s r s1" "set_decision_log records r s1 = (r', s')"
  shows "atomic_result intent s r' s'"
proof (cases "ip_outcome r")
  case None
  then show ?thesis using assms by (auto simp: set_decision_log_def)
next
  case (Some oc)
  let ?f = "\<lambda>q. q\<lparr>io_decision_log := Some records\<rparr>"
  have found: "find_outcome (ai_source_event_id intent) (pd_outcomes (ps_working s1)) = Some oc"
    using assms(1) Some by (auto simp: atomic_result_def posted_together_def nothing_posted_def split: if_splits)
  then have "io_source_event_id oc = ai_source_event_id intent" by (simp add: find_outcome_Some)
  then have "find_outcome (ai_source_event_id intent) (update_outcome (io_source_event_id oc) ?f (pd_outcomes (ps_working s1))) = Some (?f oc)"
    using found find_outcome_update [of ?f] by simp
  then show ?thesis using assms Some
    by (auto simp: set_decision_log_def atomic_result_def posted_together_def nothing_posted_def split: if_splits)
qed

lemma posting_is_atomic:
  assumes "coordinator_ok ic" "posting_inv s" "uncontended ic env intent actor s"
    and "interpret_and_post ic env mr intent actor trace_id cp data preamble_log s = Inr (r, s')
      \<or> post_from_intent ic env d intent actor trace_id s = Inr (r, s')"
  shows "atomic_result intent s r s'"
  using assms(4)
proof
  assume "post_from_intent ic env d intent actor trace_id s = Inr (r, s')"
  then show ?thesis unfolding post_from_intent_def
    by (rule write_and_record_atomic [OF assms(1-3)])
      (fastforce simp: recorded_failure_def result_iffs ip_blocked_def ip_rejected_def split: if_splits)
next
  assume "interpret_and_post ic env mr intent actor trace_id cp data preamble_log s = Inr (r, s')"
  then obtain r1 s1 where x: "do_interpret_and_post ic env mr intent actor trace_id cp data s = Inr (r1, s1)"
    and records: "set_decision_log ((case preamble_log of None \<Rightarrow> [] | Some l \<Rightarrow> l) @ pe_log env) r1 s1 = (r, s')"
    by (auto simp: interpret_and_post_def result_iffs)
  have wf: "wf_outcomes (pd_outcomes (ps_working s))" using assms(2) by (simp add: posting_inv_def)
  have fail: "atomic_result intent s (ip_failure code) s" for code
    by (simp add: atomic_result_def nothing_posted_def ip_failure_def)
  consider (failure) code where "s1 = s" "r1 = ip_failure code" | (guard) "recorded_failure ic env intent trace_id s r1 s1"
    | (posting) er where "post_meaning ic env mr intent actor trace_id er s = Inr (r1, s1)"
    using x unfolding do_interpret_and_post_def Let_def
    by (auto split: if_splits option.splits dest: recorded_failures(1,2))
  then have "atomic_result intent s r1 s1"
  proof cases
    case failure
    then show ?thesis by (simp add: fail)
  next
    case guard
    then show ?thesis by (intro recording_atomic [OF assms(1) wf]) simp_all
  next
    case posting
    then show ?thesis using post_meaning_atomic [OF assms(1-3)] by blast
  qed
  then show ?thesis using records by (rule set_decision_log_atomic)
qed

section \<open>Properties\<close>

text \<open>
  Property C4. Posting is atomic (L5, P11, P15), as long as no journal entry it inserts collides with one that another
  transaction committed meanwhile (a collision can break it: \<open>conflict_loses_entries\<close>). When \<open>interpret_and_post\<close> or
  \<open>post_from_intent\<close> returns a success, the transaction holds together the one POSTED outcome of the event, the economic event it names,
  and for every ledger of the intent a posted, balanced journal entry, whose identifiers are exactly those the outcome
  lists, at least one. When they return a failure, the journal holds nothing new (it is as before the call, or as committed), and the outcome
  recorded, if any, is BLOCKED or REJECTED. Neither commits anything.
\<close>

theorem posting_atomic:
  assumes "coordinator_ok ic" "posting_inv s" "uncontended ic env intent actor s"
    and "interpret_and_post ic env mr intent actor trace_id cp data preamble_log s = Inr (r, s')
      \<or> post_from_intent ic env d intent actor trace_id s = Inr (r, s')"
  shows "atomic_result intent s r s'"
  by (rule posting_is_atomic [OF assms])

section \<open>A posting\<close>

definition demo_coordinator :: coordinator where
  "demo_coordinator = \<lparr>ic_one_entry = scalar_one_or_none, ic_one_outcome = scalar_one_or_none, ic_writer = dw, ic_engine_dispatcher = None\<rparr>"

definition demo_posting_env :: posting_env where
  "demo_posting_env = \<lparr>pe_now = 5, pe_econ_id = 50, pe_entries = (\<lambda>_. denv 77), pe_other = None, pe_log = []\<rparr>"

definition demo_meaning :: economic_event_data where
  "demo_meaning = \<lparr>ed_source_event_id = 1, ed_economic_type = ''economic.posting'', ed_effective_date = 100, ed_profile_id = ''sale'',
     ed_profile_version = 1, ed_profile_hash = None, ed_quantity = None, ed_dimensions = None, ed_trace_id = None, ed_snapshot = None,
     ed_created_at = None\<rparr>"

definition demo_posting :: posting_session where
  "demo_posting = \<lparr>ps_committed = \<lparr>pd_journal = js_committed gl_start, pd_outcomes = [], pd_econ_events = []\<rparr>,
     ps_working = \<lparr>pd_journal = js_working gl_start, pd_outcomes = [], pd_econ_events = []\<rparr>\<rparr>"

definition demo_post :: "coordinator_exc + interpretation_result \<times> posting_session" where
  "demo_post = interpret_and_post demo_coordinator demo_posting_env (meaning_ok demo_meaning None) (di [gl_intent]) 3 None None None None demo_posting"

lemma demo_posting_ok: "coordinator_ok demo_coordinator" "posting_inv demo_posting"
  using reachable_inv [OF usd_reachable(1)]
  by (simp_all add: coordinator_ok_def demo_coordinator_def soon.query_one_axioms posting_inv_def posting_journal_def demo_posting_def
      wf_outcomes_def gl_start_def)

lemma demo_post_Inr: "\<exists>r s'. demo_post = Inr (r, s') \<and> ip_success r"
proof -
  have js: "posting_journal (s\<lparr>ps_working := (ps_working s)\<lparr>pd_econ_events := es\<rparr>\<rparr>) = posting_journal s" for s es
    by (simp add: posting_journal_def)
  have start: "posting_journal demo_posting = gl_start" by (simp add: posting_journal_def demo_posting_def)
  have "wr_is_success (wr_success ws)" for ws by (simp add: wr_is_success_def wr_success_def)
  moreover have "wr_entry_ids (wr_success [usd_written ''GL'' 77]) = [77]" by (simp add: wr_entry_ids_def wr_success_def usd_written_def)
  moreover have "\<not> write_conflict scalar_one_or_none dw (\<lambda>_. denv 77) (di [gl_intent]) 3 ''economic.posting'' gl_start"
    by (rule write_uncontended(2) [OF soon.query_one_axioms reachable_inv [OF usd_reachable(1)] _ usd_write]) (simp_all add: no_collision_def denv_def calculation)
  ultimately have "\<exists>r s'. do_interpret_and_post demo_coordinator demo_posting_env (meaning_ok demo_meaning None) (di [gl_intent]) 3 None None None
      demo_posting = Inr (r, s') \<and> ip_success r"
    using usd_write [of 77 "''GL''"]
    by (simp add: do_interpret_and_post_def dispatch_engines_def meaning_ok_def post_meaning_def write_and_record_def create_economic_event_def
        insert_econ_event_def write_intent_def js start record_outcome_def record_posted_def check_not_exists_def get_outcome_def
        add_outcome_def insert_outcome_def ip_posted_def demo_coordinator_def demo_posting_env_def demo_meaning_def)
      (simp add: demo_posting_def Let_def)
  then show ?thesis by (auto simp: demo_post_def interpret_and_post_def set_decision_log_def split: option.splits)
qed

theorem posting_atomic_witness:
  "\<exists>r s'. demo_post = Inr (r, s') \<and> posted_together (di [gl_intent]) r (ps_working s')"
proof -
  obtain r s' where d: "demo_post = Inr (r, s')" "ip_success r" using demo_post_Inr by blast
  have "uncontended demo_coordinator demo_posting_env (di [gl_intent]) a s" for a s
    by (simp add: uncontended_def demo_posting_env_def denv_def)
  from posting_atomic [OF demo_posting_ok this disjI1 [OF d(1) [unfolded demo_post_def]]] d show ?thesis
    by (auto simp: atomic_result_def)
qed

end
