(* ===== verification/Module_Posting.thy ===== *)
theory Module_Posting
  imports Party_Service Policy_Bridge Ingestor Period_Service Interpretation_Coordinator
begin

text \<open>
  \<open>finance_kernel/services/module_posting_service.py\<close>: the canonical entry point that posts a business event. It checks
  the actor (G14) and the period (R12, R13), ingests the event (R1, R2), applies the import gate and the controls,
  selects the policy (P1), builds meaning and intent, and hands both to the interpretation
  coordinator, all in one session. The tables are those of the components; the ingestor and the
  journal writer roll the session back on an integrity error, which undoes the work of the other components too.

  The compiled pack is the list of its policies, the policy source and the control rules are what the
  orchestrator injects. Subledger posting is injected as a function on the subledger tables, whose type stays
  open. Tracing texts are not modelled, except for the trace record of the period check.

  The lemmas show what a posted event has passed and left behind, and that an event which failed once is
  answered as already posted ever after.
\<close>

section \<open>State and results\<close>

datatype posting_status =
    POSTED | ALREADY_POSTED | POSTING_REJECTED
  | TRANSITION_APPLIED | TRANSITION_BLOCKED | TRANSITION_REJECTED | GUARD_REJECTED | GUARD_BLOCKED
  | PERIOD_CLOSED | ADJUSTMENTS_NOT_ALLOWED | INVALID_ACTOR | ACTOR_FROZEN | INGESTION_FAILED | PROFILE_NOT_FOUND
  | MEANING_FAILED | INTENT_FAILED | POSTING_FAILED

record module_posting_result =
  mp_status :: posting_status
  mp_event_id :: uuid
  mp_journal_entry_ids :: "uuid list"
  mp_ledger_ids :: "string list"
  mp_interpretation :: "interpretation_result option"
  mp_meaning :: "meaning_result option"
  mp_profile_name :: "string option"

definition mp_is_transition :: "module_posting_result \<Rightarrow> bool" where
  "mp_is_transition r \<longleftrightarrow> mp_status r \<in> {TRANSITION_APPLIED, TRANSITION_BLOCKED, TRANSITION_REJECTED}"

definition mp_is_ledger_fact :: "module_posting_result \<Rightarrow> bool" where
  "mp_is_ledger_fact r \<longleftrightarrow> mp_status r = POSTED"

definition mp_is_success :: "module_posting_result \<Rightarrow> bool" where
  "mp_is_success r \<longleftrightarrow> mp_status r \<in> {POSTED, ALREADY_POSTED}"

definition mp_failure :: "posting_status \<Rightarrow> uuid \<Rightarrow> module_posting_result" where
  "mp_failure st ev = \<lparr>mp_status = st, mp_event_id = ev, mp_journal_entry_ids = [], mp_ledger_ids = [], mp_interpretation = None,
     mp_meaning = None, mp_profile_name = None\<rparr>"

datatype mposting_exc =
    MpPy py_exc
  | MpAttributeError
  | MpParty party_exc
  | MpPeriod period_exc
  | MpAudit audit_exc
  | MpPolicy policy_exc
  | MpCoordinator coordinator_exc

record 'sl kernel_tables =
  kt_parties :: parties
  kt_periods :: periods
  kt_ingest :: ingest_db
  kt_posting :: posting_db
  kt_subledger :: 'sl

record 'sl kernel_state =
  kn_committed :: "'sl kernel_tables"
  kn_working :: "'sl kernel_tables"

record posting_request =
  rq_event_type :: string
  rq_payload :: "(string \<times> json) list"
  rq_effective_date :: int
  rq_actor_id :: uuid
  rq_amount :: decimal
  rq_currency :: string
  rq_producer :: "string option"
  rq_event_id :: "uuid option"
  rq_occurred_at :: "int option"
  rq_schema_version :: int
  rq_is_adjustment :: bool
  rq_description :: "string option"
  rq_coa_version :: int
  rq_dimension_schema_version :: int
  rq_preamble_log :: "dict list option"
  rq_account_key_to_role :: "(string \<Rightarrow> string option) option"

record 'sl posting_service =
  sv_parties_configured :: bool
  sv_one_period :: one_period
  sv_ingestor :: ingestor
  sv_builder :: meaning_builder
  sv_coordinator :: coordinator
  sv_pack :: "compiled_policy list option"
  sv_policy_source :: "(string \<Rightarrow> int \<Rightarrow> (string \<times> json) list \<Rightarrow> policy_exc + accounting_policy) option"
  sv_policies :: policy_registry
  sv_module_policies :: module_registry
  sv_control_rules :: "control_rule list"
  sv_post_subledger :: "(accounting_intent \<Rightarrow> write_result \<Rightarrow> posting_request \<Rightarrow> uuid \<Rightarrow> 'sl \<Rightarrow> mposting_exc + 'sl) option"
  sv_auto_commit :: bool

text \<open>Clock readings and fresh identifiers of one call; the rest is the environment of the components.\<close>

record posting_run =
  rn_now :: int
  rn_event_id :: uuid
  rn_intent_id :: uuid
  rn_ingest :: ingest_env
  rn_posting :: posting_env

section \<open>The components' views of the session\<close>

definition ingest_view :: "'sl kernel_state \<Rightarrow> ingest_session" where
  "ingest_view s = \<lparr>is_committed = kt_ingest (kn_committed s), is_working = kt_ingest (kn_working s)\<rparr>"

text \<open>Journal entries refer to the rows of the event table.\<close>

definition sync_events :: "'sl kernel_tables \<Rightarrow> posting_db" where
  "sync_events db = (kt_posting db)\<lparr>pd_journal := (pd_journal (kt_posting db))\<lparr>jd_event_ids := map event_id (ig_events (kt_ingest db))\<rparr>\<rparr>"

definition posting_view :: "'sl kernel_state \<Rightarrow> posting_session" where
  "posting_view s = \<lparr>ps_committed = sync_events (kn_committed s), ps_working = sync_events (kn_working s)\<rparr>"

definition kernel_rollback :: "'sl kernel_state \<Rightarrow> 'sl kernel_state" where
  "kernel_rollback s = s\<lparr>kn_working := kn_committed s\<rparr>"

text \<open>Whether ingesting rolls the session back: the flush of the new event row fails.\<close>

definition ingest_rolls_back :: "ingestor \<Rightarrow> ingest_env \<Rightarrow> event_envelope \<Rightarrow> ingest_session \<Rightarrow> bool" where
  "ingest_rolls_back ing env req s \<longleftrightarrow>
     validate_event (event_type req) (payload req) (schema_version req) None = []
     \<and> get_existing_event ing (event_id req) (ig_events (is_working s)) = Inr None
     \<and> event_conflict env (event_envelope.extend (req\<lparr>payload_hash := hash_payload (in_sha ing) (payload req)\<rparr>)
          \<lparr>ev_ingested_at = ie_now env\<rparr>) s"

definition ingest_step_of ::
    "'sl posting_service \<Rightarrow> posting_run \<Rightarrow> event_envelope \<Rightarrow> 'sl kernel_state \<Rightarrow> mposting_exc + ingest_result \<times> 'sl kernel_state" where
  "ingest_step_of sv rn req s =
     rbind (map_sum MpAudit id (ingest (sv_ingestor sv) (rn_ingest rn) req (ingest_view s))) (\<lambda>(r, t).
       let s1 = (if ingest_rolls_back (sv_ingestor sv) (rn_ingest rn) req (ingest_view s) then kernel_rollback s else s)
       in Inr (r, s1\<lparr>kn_committed := (kn_committed s1)\<lparr>kt_ingest := is_committed t\<rparr>,
                    kn_working := (kn_working s1)\<lparr>kt_ingest := is_working t\<rparr>\<rparr>))"

text \<open>Whether the coordinator gets to write the journal; an integrity error there rolls the session back.\<close>

definition write_attempted :: "coordinator \<Rightarrow> meaning_result \<Rightarrow> compiled_policy option \<Rightarrow> (string \<times> json) list \<Rightarrow> bool" where
  "write_attempted ic mr cp data \<longleftrightarrow>
     (case dispatch_engines ic cp (Some data) of None \<Rightarrow> True | Some r \<Rightarrow> engines_ok cp r)
     \<and> (case mr_guard_result mr of None \<Rightarrow> True | Some g \<Rightarrow> \<not> gr_rejected g \<and> \<not> gr_blocked g)
     \<and> mr_success mr \<and> mr_economic_event mr \<noteq> None"

definition interpret_step_of ::
    "'sl posting_service \<Rightarrow> posting_run \<Rightarrow> meaning_result \<Rightarrow> accounting_intent \<Rightarrow> uuid \<Rightarrow> compiled_policy option
     \<Rightarrow> (string \<times> json) list \<Rightarrow> dict list \<Rightarrow> 'sl kernel_state \<Rightarrow> mposting_exc + interpretation_result \<times> 'sl kernel_state" where
  "interpret_step_of sv rn mr intent actor cp data preamble s =
     rbind (map_sum MpCoordinator id
         (interpret_and_post (sv_coordinator sv) (rn_posting rn) mr intent actor None cp (Some data) (Some preamble) (posting_view s)))
       (\<lambda>(r, t).
         let ic = sv_coordinator sv;
             et = (case mr_economic_event mr of None \<Rightarrow> [] | Some d \<Rightarrow> ed_economic_type d);
             conflict = (write_attempted ic mr cp data
               \<and> write_conflict (ic_one_entry ic) (ic_writer ic) (pe_entries (rn_posting rn)) intent actor et (posting_journal (posting_view s)));
             s1 = (if conflict then kernel_rollback s else s)
         in Inr (r, s1\<lparr>kn_committed := (kn_committed s1)\<lparr>kt_posting := ps_committed t\<rparr>,
                      kn_working := (kn_working s1)\<lparr>kt_posting := ps_working t\<rparr>\<rparr>))"

section \<open>Posting an event\<close>

definition IMPORT_TYPE :: string where
  "IMPORT_TYPE = ''import.historical_journal''"

text \<open>The migration-only gate of historical imports; None means that the event may pass.\<close>

definition validate_import_hard_gate ::
    "'sl posting_service \<Rightarrow> uuid \<Rightarrow> string \<Rightarrow> string \<Rightarrow> (string \<times> json) list \<Rightarrow> uuid \<Rightarrow> parties
     \<Rightarrow> mposting_exc + module_posting_result option" where
  "validate_import_hard_gate sv ev et prdcr data actor ps =
     (if et \<noteq> IMPORT_TYPE then Inr None
      else if prdcr \<noteq> ''ingestion'' then Inr (Some (mp_failure GUARD_REJECTED ev))
      else
        let m = (case map_of data ''metadata'' of None \<Rightarrow> JNull | Some j \<Rightarrow> j);
            batch = (if truthy m then (case m of JDict kvs \<Rightarrow> Inr (map_of kvs ''migration_batch_id'') | _ \<Rightarrow> Inl MpAttributeError)
                     else Inr None)
        in rbind batch (\<lambda>b.
             if (case b of None \<Rightarrow> True | Some j \<Rightarrow> \<not> truthy j) then Inr (Some (mp_failure GUARD_REJECTED ev))
             else if \<not> sv_parties_configured sv then Inr None
             else case get_party_by_id actor ps of
                 Inl (PartyNotFoundError _) \<Rightarrow> Inr (Some (mp_failure INVALID_ACTOR ev))
               | Inl e \<Rightarrow> Inl (MpParty e)
               | Inr p \<Rightarrow>
                   if pa_party_type p \<in> {party_type.SYSTEM, MIGRATION_SERVICE} then Inr None
                   else Inr (Some (mp_failure GUARD_REJECTED ev))))"

text \<open>G14, R12 and R13: the checks before anything is stored. None means that they pass.\<close>

definition validate_actor :: "'sl posting_service \<Rightarrow> uuid \<Rightarrow> uuid \<Rightarrow> parties \<Rightarrow> mposting_exc + module_posting_result option" where
  "validate_actor sv ev actor ps =
     (if \<not> sv_parties_configured sv then Inr (Some (mp_failure POSTING_REJECTED ev))
      else case get_party_by_id actor ps of
          Inl (PartyNotFoundError _) \<Rightarrow> Inr (Some (mp_failure INVALID_ACTOR ev))
        | Inl e \<Rightarrow> Inl (MpParty e)
        | Inr p \<Rightarrow> if \<not> can_transact p then Inr (Some (mp_failure ACTOR_FROZEN ev)) else Inr None)"

definition validate_period :: "'sl posting_service \<Rightarrow> uuid \<Rightarrow> int \<Rightarrow> bool \<Rightarrow> periods \<Rightarrow> module_posting_result option" where
  "validate_period sv ev d is_adjustment ps =
     (case validate_adjustment_allowed (sv_one_period sv) d is_adjustment False ps of
        Inr _ \<Rightarrow> None
      | Inl (AdjustmentsNotAllowedError _) \<Rightarrow> Some (mp_failure ADJUSTMENTS_NOT_ALLOWED ev)
      | Inl _ \<Rightarrow> Some (mp_failure PERIOD_CLOSED ev))"

definition governance_preamble :: "int \<Rightarrow> fiscal_period option \<Rightarrow> dict list" where
  "governance_preamble d r =
     (case r of
        None \<Rightarrow> []
      | Some p \<Rightarrow> [[(''message'', JStr ''period_check''), (''period_code'', JStr (fp_period_code p)), (''passed'', JBool True),
                   (''effective_date'', JStr (str_of_date d))]])"

definition select_policy ::
    "'sl posting_service \<Rightarrow> string \<Rightarrow> int \<Rightarrow> (string \<times> json) list \<Rightarrow> policy_exc + accounting_policy" where
  "select_policy sv et d data =
     (case sv_policy_source sv of
        Some f \<Rightarrow> f et d data
      | None \<Rightarrow> find_for_event et d ''*'' (Some data) (sv_policies sv))"

definition compiled_policy_of :: "'sl posting_service \<Rightarrow> accounting_policy \<Rightarrow> compiled_policy option" where
  "compiled_policy_of sv p =
     (case sv_pack sv of
        None \<Rightarrow> None
      | Some cps \<Rightarrow> find (\<lambda>cp. cp_name cp = ap_name p \<and> cp_version cp = ap_version p) cps)"

definition no_options :: build_options where
  "no_options = \<lparr>bo_snapshot = None, bo_trace_id = None, bo_created_at = None, bo_module_type = None, bo_target_ledgers = None\<rparr>"

text \<open>What a failed meaning is reported as.\<close>

definition meaning_failure :: "uuid \<Rightarrow> accounting_policy \<Rightarrow> meaning_result \<Rightarrow> module_posting_result" where
  "meaning_failure ev p mr =
     (mp_failure (case mr_guard_result mr of
          Some g \<Rightarrow> if gr_rejected g then GUARD_REJECTED else if gr_blocked g then GUARD_BLOCKED else MEANING_FAILED
        | None \<Rightarrow> MEANING_FAILED) ev)\<lparr>mp_meaning := Some mr, mp_profile_name := Some (ap_name p)\<rparr>"

text \<open>The intent, or None when an import has no account resolver.\<close>

definition intent_currency :: "posting_request \<Rightarrow> string" where
  "intent_currency rq =
     (case map_of (rq_payload rq) ''currency'' of
        Some j \<Rightarrow> if truthy j then (case j of JStr s \<Rightarrow> s | _ \<Rightarrow> ''USD'') else rq_currency rq
      | None \<Rightarrow> rq_currency rq)"

definition intent_of ::
    "'sl posting_service \<Rightarrow> posting_run \<Rightarrow> uuid \<Rightarrow> posting_request \<Rightarrow> accounting_policy \<Rightarrow> (py_exc + accounting_intent) option" where
  "intent_of sv rn ev rq p =
     (if ap_intent_source p = Some ''payload_lines'' then
        (case rq_account_key_to_role rq of
           None \<Rightarrow> None
         | Some f \<Rightarrow> Some (build_accounting_intent_from_payload_lines (rn_intent_id rn) p ev (rq_effective_date rq) (rq_payload rq) f
             (intent_currency rq) (rq_description rq) (rq_coa_version rq) (rq_dimension_schema_version rq)))
      else Some (build_accounting_intent (sv_module_policies sv) (rn_intent_id rn) (ap_name p) ev (rq_effective_date rq) (rq_amount rq)
             (rq_currency rq) (rq_payload rq) (rq_description rq) (rq_coa_version rq) (rq_dimension_schema_version rq)))"

text \<open>Steps 6 and 7: interpretation, subledger entries, and the result.\<close>

definition finish_posting ::
    "'sl posting_service \<Rightarrow> posting_run \<Rightarrow> uuid \<Rightarrow> posting_request \<Rightarrow> accounting_policy \<Rightarrow> meaning_result \<Rightarrow> accounting_intent \<Rightarrow> dict list
     \<Rightarrow> 'sl kernel_state \<Rightarrow> mposting_exc + module_posting_result \<times> 'sl kernel_state" where
  "finish_posting sv rn ev rq p mr intent preamble s =
     rbind (interpret_step_of sv rn mr intent (rq_actor_id rq) (compiled_policy_of sv p) (rq_payload rq) preamble s) (\<lambda>(r, s1).
       if \<not> ip_success r
       then Inr ((mp_failure POSTING_FAILED ev)\<lparr>mp_interpretation := Some r, mp_profile_name := Some (ap_name p)\<rparr>, s1)
       else
         rbind (case (sv_post_subledger sv, ip_journal_result r) of
             (Some f, Some jr) \<Rightarrow>
               rmap (\<lambda>sl. s1\<lparr>kn_working := (kn_working s1)\<lparr>kt_subledger := sl\<rparr>\<rparr>) (f intent jr rq ev (kt_subledger (kn_working s1)))
           | _ \<Rightarrow> Inr s1) (\<lambda>s2.
           let ids = (case ip_journal_result r of None \<Rightarrow> [] | Some jr \<Rightarrow> wr_entry_ids jr)
           in if ids = [] then Inl (MpPy AssertionError)
              else Inr (\<lparr>mp_status = POSTED, mp_event_id = ev, mp_journal_entry_ids = ids,
                   mp_ledger_ids = map li_ledger_id (ai_ledger_intents intent), mp_interpretation = Some r, mp_meaning = Some mr,
                   mp_profile_name = Some (ap_name p)\<rparr>, s2)))"

text \<open>From the selected policy on.\<close>

definition post_with_policy ::
    "'sl posting_service \<Rightarrow> posting_run \<Rightarrow> uuid \<Rightarrow> posting_request \<Rightarrow> accounting_policy \<Rightarrow> dict list
     \<Rightarrow> 'sl kernel_state \<Rightarrow> mposting_exc + module_posting_result \<times> 'sl kernel_state" where
  "post_with_policy sv rn ev rq p preamble s =
     (let mr = build (sv_builder sv) ev (rq_event_type rq) (rq_payload rq) (rq_effective_date rq) p no_options
      in if \<not> mr_success mr then Inr (meaning_failure ev p mr, s)
         else case intent_of sv rn ev rq p of
             None \<Rightarrow> Inr ((mp_failure INTENT_FAILED ev)\<lparr>mp_profile_name := Some (ap_name p)\<rparr>, s)
           | Some (Inl ValueError) \<Rightarrow> Inr ((mp_failure INTENT_FAILED ev)\<lparr>mp_profile_name := Some (ap_name p)\<rparr>, s)
           | Some (Inl e) \<Rightarrow> Inl (MpPy e)
           | Some (Inr intent) \<Rightarrow> finish_posting sv rn ev rq p mr intent preamble s)"

text \<open>From the ingested event on.\<close>

definition post_ingested ::
    "'sl posting_service \<Rightarrow> posting_run \<Rightarrow> uuid \<Rightarrow> string \<Rightarrow> posting_request \<Rightarrow> dict list
     \<Rightarrow> 'sl kernel_state \<Rightarrow> mposting_exc + module_posting_result \<times> 'sl kernel_state" where
  "post_ingested sv rn ev prdcr rq preamble s =
     rbind (validate_import_hard_gate sv ev (rq_event_type rq) prdcr (rq_payload rq) (rq_actor_id rq) (kt_parties (kn_working s))) (\<lambda>gate.
       case gate of
         Some r \<Rightarrow> Inr (r, s)
       | None \<Rightarrow>
           let ct = evaluate_controls (rq_payload rq) (rq_event_type rq) (sv_control_rules sv)
           in if \<not> ct_passed ct then Inr (mp_failure (if ct_rejected ct then GUARD_REJECTED else GUARD_BLOCKED) ev, s)
              else case select_policy sv (rq_event_type rq) (rq_effective_date rq) (rq_payload rq) of
                  Inl (PolicyNotFoundError _ _) \<Rightarrow> Inr (mp_failure PROFILE_NOT_FOUND ev, s)
                | Inl e \<Rightarrow> Inl (MpPolicy e)
                | Inr p \<Rightarrow> post_with_policy sv rn ev rq p preamble s)"

definition event_request :: "posting_run \<Rightarrow> uuid \<Rightarrow> string \<Rightarrow> posting_request \<Rightarrow> event_envelope" where
  "event_request rn ev prdcr rq = \<lparr>event_id = ev, event_type = rq_event_type rq,
     occurred_at = (case rq_occurred_at rq of Some t \<Rightarrow> t | None \<Rightarrow> rn_now rn), effective_date = rq_effective_date rq,
     actor_id = rq_actor_id rq, producer = prdcr, payload = rq_payload rq, payload_hash = [], schema_version = rq_schema_version rq\<rparr>"

definition do_post_event ::
    "'sl posting_service \<Rightarrow> posting_run \<Rightarrow> uuid \<Rightarrow> string \<Rightarrow> posting_request \<Rightarrow> 'sl kernel_state
     \<Rightarrow> mposting_exc + module_posting_result \<times> 'sl kernel_state" where
  "do_post_event sv rn ev prdcr rq s =
     rbind (validate_actor sv ev (rq_actor_id rq) (kt_parties (kn_working s))) (\<lambda>a.
       case a of
         Some r \<Rightarrow> Inr (r, s)
       | None \<Rightarrow>
           (case validate_period sv ev (rq_effective_date rq) (rq_is_adjustment rq) (kt_periods (kn_working s)) of
              Some r \<Rightarrow> Inr (r, s)
            | None \<Rightarrow>
                rbind (map_sum MpPeriod id (get_period_for_date (sv_one_period sv) (rq_effective_date rq) (kt_periods (kn_working s)))) (\<lambda>pi.
                rbind (ingest_step_of sv rn (event_request rn ev prdcr rq) s) (\<lambda>(ir, s1).
                  let preamble = governance_preamble (rq_effective_date rq) pi
                        @ (case rq_preamble_log rq of None \<Rightarrow> [] | Some l \<Rightarrow> l)
                  in if ir_status ir = INGEST_REJECTED then Inr (mp_failure INGESTION_FAILED ev, s1)
                     else if ir_status ir = DUPLICATE then Inr (mp_failure ALREADY_POSTED ev, s1)
                     else post_ingested sv rn ev prdcr rq preamble s1))))"

text \<open>
  The public operation: defaults, then commit on success. An exception takes back the work of the call: \<open>post_event\<close>
  itself rolls back when it owns the transaction, and its caller does otherwise.
\<close>

definition resolved_event_id :: "posting_run \<Rightarrow> posting_request \<Rightarrow> uuid" where
  "resolved_event_id rn rq = (case rq_event_id rq of Some e \<Rightarrow> e | None \<Rightarrow> rn_event_id rn)"

definition resolved_producer :: "posting_request \<Rightarrow> string" where
  "resolved_producer rq = (case rq_producer rq of Some (c # cs) \<Rightarrow> c # cs | _ \<Rightarrow> hd (split_char CHR ''.'' (rq_event_type rq)))"


section \<open>Accepted events\<close>

definition event_row_of :: "'sl posting_service \<Rightarrow> posting_run \<Rightarrow> event_envelope \<Rightarrow> event_row" where
  "event_row_of sv rn req = event_envelope.extend (req\<lparr>payload_hash := hash_payload (in_sha (sv_ingestor sv)) (payload req)\<rparr>)
     \<lparr>ev_ingested_at = ie_now (rn_ingest rn)\<rparr>"

lemma ingest_accepted:
  assumes "ingest (sv_ingestor sv) (rn_ingest rn) req t = Inr (r, t')" "ir_status r = ACCEPTED"
  shows "get_existing_event (sv_ingestor sv) (event_id req) (ig_events (is_working t)) = Inr None
    \<and> validate_event (event_type req) (payload req) (schema_version req) None = []
    \<and> \<not> ingest_rolls_back (sv_ingestor sv) (rn_ingest rn) req t
    \<and> is_committed t' = is_committed t \<and> ig_events (is_working t') = ig_events (is_working t) @ [event_row_of sv rn req]"
  using assms
  by (auto simp: ingest_def Let_def result_iffs rejected_def duplicate_def ingest_conflict_def ingest_rolls_back_def event_row_of_def
      split: if_splits option.splits dest!: audited_Inr) (metis option.exhaust)

lemma ingest_step_accepted:
  assumes "ingest_step_of sv rn req s = Inr (r, s')" "ir_status r = ACCEPTED"
  shows "get_existing_event (sv_ingestor sv) (event_id req) (ig_events (kt_ingest (kn_working s))) = Inr None"
    "validate_event (event_type req) (payload req) (schema_version req) None = []"
    "ig_events (kt_ingest (kn_working s')) = ig_events (kt_ingest (kn_working s)) @ [event_row_of sv rn req]"
    "kn_committed s' = kn_committed s" "kt_posting (kn_working s') = kt_posting (kn_working s)"
    "kt_parties (kn_working s') = kt_parties (kn_working s)" "kt_periods (kn_working s') = kt_periods (kn_working s)"
proof -
  obtain t where t: "ingest (sv_ingestor sv) (rn_ingest rn) req (ingest_view s) = Inr (r, t)"
    and s': "s' = (let s1 = (if ingest_rolls_back (sv_ingestor sv) (rn_ingest rn) req (ingest_view s) then kernel_rollback s else s)
       in s1\<lparr>kn_committed := (kn_committed s1)\<lparr>kt_ingest := is_committed t\<rparr>,
             kn_working := (kn_working s1)\<lparr>kt_ingest := is_working t\<rparr>\<rparr>)"
    using assms(1) by (auto simp: ingest_step_of_def Let_def result_iffs map_sum_Inr_iff)
  note a = ingest_accepted [OF t assms(2)]
  then have "s' = s\<lparr>kn_committed := (kn_committed s)\<lparr>kt_ingest := kt_ingest (kn_committed s)\<rparr>,
      kn_working := (kn_working s)\<lparr>kt_ingest := is_working t\<rparr>\<rparr>" by (simp add: s' ingest_view_def)
  then show "get_existing_event (sv_ingestor sv) (event_id req) (ig_events (kt_ingest (kn_working s))) = Inr None"
    "validate_event (event_type req) (payload req) (schema_version req) None = []"
    "ig_events (kt_ingest (kn_working s')) = ig_events (kt_ingest (kn_working s)) @ [event_row_of sv rn req]"
    "kn_committed s' = kn_committed s" "kt_posting (kn_working s') = kt_posting (kn_working s)"
    "kt_parties (kn_working s') = kt_parties (kn_working s)" "kt_periods (kn_working s') = kt_periods (kn_working s)"
    using a by (simp_all add: ingest_view_def)
qed

text \<open>How a call gets to a status that only accepted events can have.\<close>

lemma do_post_event_accepted:
  assumes "do_post_event sv rn ev prdcr rq s = Inr (r, s')"
    and "mp_status r \<notin> {POSTING_REJECTED, INVALID_ACTOR, ACTOR_FROZEN, ADJUSTMENTS_NOT_ALLOWED, PERIOD_CLOSED, INGESTION_FAILED, ALREADY_POSTED}"
  obtains preamble ir s1 where "validate_actor sv ev (rq_actor_id rq) (kt_parties (kn_working s)) = Inr None"
    "validate_period sv ev (rq_effective_date rq) (rq_is_adjustment rq) (kt_periods (kn_working s)) = None"
    "ingest_step_of sv rn (event_request rn ev prdcr rq) s = Inr (ir, s1)" "ir_status ir = ACCEPTED"
    "post_ingested sv rn ev prdcr rq preamble s1 = Inr (r, s')"
proof -
  have actor: "mp_status q \<in> {POSTING_REJECTED, INVALID_ACTOR, ACTOR_FROZEN}"
    if "validate_actor sv ev (rq_actor_id rq) (kt_parties (kn_working s)) = Inr (Some q)" for q
    using that by (auto simp: validate_actor_def mp_failure_def split: if_splits sum.splits party_exc.splits)
  have period: "mp_status q \<in> {ADJUSTMENTS_NOT_ALLOWED, PERIOD_CLOSED}"
    if "validate_period sv ev (rq_effective_date rq) (rq_is_adjustment rq) (kt_periods (kn_working s)) = Some q" for q
    using that by (auto simp: validate_period_def mp_failure_def split: sum.splits period_exc.splits)
  obtain a where a: "validate_actor sv ev (rq_actor_id rq) (kt_parties (kn_working s)) = Inr a"
    using assms(1) by (auto simp: do_post_event_def result_iffs)
  then have a: "validate_actor sv ev (rq_actor_id rq) (kt_parties (kn_working s)) = Inr None"
    using assms actor by (cases a) (auto simp: do_post_event_def)
  have p: "validate_period sv ev (rq_effective_date rq) (rq_is_adjustment rq) (kt_periods (kn_working s)) = None"
    using assms period a by (cases "validate_period sv ev (rq_effective_date rq) (rq_is_adjustment rq) (kt_periods (kn_working s))")
      (auto simp: do_post_event_def)
  obtain pi ir s1 where i: "ingest_step_of sv rn (event_request rn ev prdcr rq) s = Inr (ir, s1)"
    and rest: "(let preamble = governance_preamble (rq_effective_date rq) pi @ (case rq_preamble_log rq of None \<Rightarrow> [] | Some l \<Rightarrow> l)
        in if ir_status ir = INGEST_REJECTED then Inr (mp_failure INGESTION_FAILED ev, s1)
           else if ir_status ir = DUPLICATE then Inr (mp_failure ALREADY_POSTED ev, s1)
           else post_ingested sv rn ev prdcr rq preamble s1) = Inr (r, s')"
    using assms(1) a p by (auto simp: do_post_event_def result_iffs)
  have "ir_status ir = ACCEPTED"
    using rest assms(2) by (cases "ir_status ir") (auto simp: Let_def mp_failure_def)
  then show thesis using that [OF a p i] rest by (simp add: Let_def)
qed

text \<open>What stands between an accepted event and its posting.\<close>

lemma mp_failure_status [simp]: "mp_status (mp_failure st ev) = st"
  by (simp add: mp_failure_def)

lemma gate_statuses:
  "validate_import_hard_gate sv ev et prdcr data actor ps = Inr (Some q) \<Longrightarrow>
     mp_status q \<in> {GUARD_REJECTED, INVALID_ACTOR} \<and> mp_journal_entry_ids q = []"
  by (auto simp: validate_import_hard_gate_def Let_def mp_failure_def result_iffs split: if_splits sum.splits party_exc.splits)


lemma intent_of_event:
  assumes "intent_of sv rn ev rq p = Some (Inr intent)"
  shows "ai_source_event_id intent = ev"
  using assms
  by (auto simp: intent_of_def build_accounting_intent_def build_accounting_intent_from_payload_lines_def result_iffs
      split: if_splits option.splits json.splits list.splits dest!: bridge_intentD(4))






lemma posting_inv_view:
  "posting_inv (posting_view s) \<longleftrightarrow> posting_inv \<lparr>ps_committed = kt_posting (kn_committed s), ps_working = kt_posting (kn_working s)\<rparr>"
  by (simp add: posting_inv_def posting_journal_def posting_view_def sync_events_def inv_session_def extends_def)


section \<open>Properties\<close>

definition service_ok :: "'sl posting_service \<Rightarrow> bool" where
  "service_ok sv \<longleftrightarrow> coordinator_ok (sv_coordinator sv) \<and> queries_ok (sv_ingestor sv) \<and> query_one (sv_one_period sv)"

definition kernel_ok :: "'sl posting_service \<Rightarrow> 'sl kernel_state \<Rightarrow> bool" where
  "kernel_ok sv s \<longleftrightarrow> session_inv (sv_ingestor sv) (ingest_view s) \<and> posting_inv (posting_view s) \<and> wf_periods (kt_periods (kn_working s))
     \<and> kt_posting (kn_committed s) = sync_events (kn_committed s)"

text \<open>What a whole call relies on: once the event is in, the inserts of its journal entries collide with nobody's.\<close>

definition no_contention :: "'sl posting_service \<Rightarrow> posting_run \<Rightarrow> posting_request \<Rightarrow> 'sl kernel_state \<Rightarrow> bool" where
  "no_contention sv rn rq s \<longleftrightarrow>
     (\<forall>ir t intent. ingest_step_of sv rn (event_request rn (resolved_event_id rn rq) (resolved_producer rq) rq) s = Inr (ir, t)
        \<longrightarrow> uncontended (sv_coordinator sv) (rn_posting rn) intent (rq_actor_id rq) (posting_view t))"




lemma post_ingested_failed:
  assumes "post_ingested sv rn ev prdcr rq preamble s = Inr (r, s')" "mp_status r \<notin> {POSTED, POSTING_FAILED}"
  shows "s' = s \<and> mp_journal_entry_ids r = []"
proof -
  have meaning: "mp_journal_entry_ids (meaning_failure ev p mr) = []" for p mr by (simp add: meaning_failure_def mp_failure_def)
  have finish: "finish_posting sv rn ev rq p mr intent preamble t \<noteq> Inr (r, t')" for p mr intent t t'
    using assms(2) by (auto simp: finish_posting_def result_iffs Let_def mp_failure_def split: if_splits)
  have policy: "t' = t \<and> mp_journal_entry_ids r = []" if "post_with_policy sv rn ev rq p preamble t = Inr (r, t')" for p t t'
    using that assms(2) finish meaning
    by (auto simp: post_with_policy_def Let_def mp_failure_def split: if_splits option.splits sum.splits py_exc.splits)
  obtain g where g: "validate_import_hard_gate sv ev (rq_event_type rq) prdcr (rq_payload rq) (rq_actor_id rq) (kt_parties (kn_working s)) = Inr g"
    using assms(1) by (auto simp: post_ingested_def result_iffs)
  show ?thesis
  proof (cases g)
    case (Some q)
    then show ?thesis using assms(1) g gate_statuses [of sv ev _ prdcr _ _ _ q] by (auto simp: post_ingested_def)
  next
    case None
    then show ?thesis using assms(1) g
      by (auto simp: post_ingested_def Let_def mp_failure_def split: if_splits sum.splits policy_exc.splits dest: policy)
  qed
qed

text \<open>
  A posting that fails after ingestion is answered as already posted ever after: the event row is stored although
  a guard, a control, the import gate, a missing policy or an unbuildable intent stopped the posting, no
  outcome is recorded for it, and every later call with the same event and payload, by an actor and in a period that pass, reports
  the success ALREADY\_POSTED without any journal entry and changes nothing but commits.
\<close>

theorem failed_then_already_posted:
  assumes "service_ok sv" "kernel_ok sv s"
    and "do_post_event sv rn ev prdcr rq s = Inr (r, s')"
    and "mp_status r \<in> {GUARD_REJECTED, GUARD_BLOCKED, PROFILE_NOT_FOUND, MEANING_FAILED, INTENT_FAILED}"
    and "validate_actor sv' ev (rq_actor_id rq') (kt_parties (kn_working s')) = Inr None"
    and "validate_period sv' ev (rq_effective_date rq') (rq_is_adjustment rq') (kt_periods (kn_working s')) = None"
    and "sv_ingestor sv' = sv_ingestor sv" "sv_one_period sv' = sv_one_period sv"
    and "rq_payload rq' = rq_payload rq" "rq_event_type rq' = rq_event_type rq" "rq_schema_version rq' = rq_schema_version rq"
  shows "pd_outcomes (kt_posting (kn_working s')) = pd_outcomes (kt_posting (kn_working s))
    \<and> mp_journal_entry_ids r = []
    \<and> (\<exists>r'. do_post_event sv' rn' ev prdcr' rq' s' = Inr (r', s') \<and> mp_is_success r' \<and> mp_status r' = ALREADY_POSTED
         \<and> mp_journal_entry_ids r' = [])"
proof -
  obtain preamble ir s1 where a: "ingest_step_of sv rn (event_request rn ev prdcr rq) s = Inr (ir, s1)" "ir_status ir = ACCEPTED"
    "post_ingested sv rn ev prdcr rq preamble s1 = Inr (r, s')"
    by (rule do_post_event_accepted [OF assms(3)]) (use assms(4) in auto)
  note acc = ingest_step_accepted [OF a(1,2)]
  have fin: "s' = s1 \<and> mp_journal_entry_ids r = []" using post_ingested_failed [OF a(3)] assms(4) by auto
  let ?row = "event_row_of sv rn (event_request rn ev prdcr rq)"
  let ?rows = "ig_events (kt_ingest (kn_working s))"
  have q: "queries_ok (sv_ingestor sv)" using assms(1) by (simp add: service_ok_def)
  have dist: "distinct (map event_id ?rows)"
    using assms(2) by (simp add: kernel_ok_def session_inv_def ingest_inv_def ingest_view_def)
  have row: "event_id ?row = ev" "payload_hash ?row = hash_payload (in_sha (sv_ingestor sv)) (rq_payload rq)"
    by (simp_all add: event_row_of_def event_request_def)
  have none: "find (\<lambda>r. event_id r = ev) ?rows = None"
    using acc(1) lookup_event [OF q dist, of ev] by (simp add: event_request_def)
  then have "ev \<notin> event_id ` set ?rows" by (auto simp: find_None_iff)
  then have dist': "distinct (map event_id (?rows @ [?row]))" using dist row(1) by simp
  have look: "get_existing_event (sv_ingestor sv) ev (ig_events (kt_ingest (kn_working s'))) = Inr (Some ?row)"
    using lookup_event [OF q dist', of ev] find_in_distinct [OF dist', of ?row] fin acc(3) row(1) by simp
  have dup: "ingest (sv_ingestor sv) (rn_ingest rn') (event_request rn' ev prdcr' rq') (ingest_view s') = Inr (duplicate ?row, ingest_view s')"
    using look acc(2) row(2) assms(9-11) by (simp add: ingest_def Let_def event_request_def ingest_view_def)
  have same: "s'\<lparr>kn_committed := (kn_committed s')\<lparr>kt_ingest := kt_ingest (kn_committed s')\<rparr>,
      kn_working := (kn_working s')\<lparr>kt_ingest := kt_ingest (kn_working s')\<rparr>\<rparr> = s'" by simp
  have "\<not> ingest_rolls_back (sv_ingestor sv) (rn_ingest rn') (event_request rn' ev prdcr' rq') (ingest_view s')"
    using look by (simp add: ingest_rolls_back_def ingest_view_def event_request_def)
  then have step: "ingest_step_of sv' rn' (event_request rn' ev prdcr' rq') s' = Inr (duplicate ?row, s')"
    using dup same by (simp add: ingest_step_of_def Let_def assms(7)) (simp add: ingest_view_def)
  obtain pi where pi: "get_period_for_date (sv_one_period sv') (rq_effective_date rq') (kt_periods (kn_working s')) = Inr pi"
    using assms(6) by (auto simp: validate_period_def validate_adjustment_allowed_def get_period_for_date_def result_iffs rbind_def
        split: sum.splits period_exc.splits)
  have "do_post_event sv' rn' ev prdcr' rq' s' = Inr (mp_failure ALREADY_POSTED ev, s')"
    using assms(5,6) pi step by (simp add: do_post_event_def duplicate_def)
  then show ?thesis using fin acc(5) by (auto simp: mp_is_success_def mp_failure_def)
qed

section \<open>A posting and a blocked one\<close>

definition demo_sale :: "guard_condition list \<Rightarrow> accounting_policy" where
  "demo_sale gs = (demo_policy ''A'' 0)\<lparr>ap_ledger_effects := [\<lparr>le_ledger = ''GL'', le_debit_role = ''CASH'', le_credit_role = ''REVENUE''\<rparr>],
     ap_guards := gs\<rparr>"

definition demo_service :: "guard_condition list \<Rightarrow> unit posting_service" where
  "demo_service gs = \<lparr>sv_parties_configured = True, sv_one_period = scalar_one_or_none, sv_ingestor = demo_ingestor,
     sv_builder = \<lparr>mb_policy_authority = None\<rparr>, sv_coordinator = demo_coordinator, sv_pack = None, sv_policy_source = None,
     sv_policies = \<lparr>pr_profiles = [(''A'', [(1, demo_sale gs)])], pr_by_event_type = [(''ap.invoice'', [demo_sale gs])]\<rparr>,
     sv_module_policies = [(''A'', \<lparr>me_module_name = ''ap'', me_profile_key = ''A'', me_kernel_profile = demo_sale gs,
       me_line_mappings = [], me_event_type = ''ap.invoice''\<rparr>)],
     sv_control_rules = [], sv_post_subledger = None, sv_auto_commit = True\<rparr>"

definition demo_tables :: "unit kernel_tables" where
  "demo_tables = \<lparr>kt_parties = [demo_party], kt_periods = [january], kt_ingest = \<lparr>ig_events = [], ig_audit = empty_audit\<rparr>,
     kt_posting = \<lparr>pd_journal = empty_db\<lparr>jd_account_ids := [10, 40]\<rparr>, pd_outcomes = [], pd_econ_events = []\<rparr>, kt_subledger = ()\<rparr>"

definition demo_state :: "unit kernel_state" where
  "demo_state = \<lparr>kn_committed = demo_tables, kn_working = demo_tables\<rparr>"

definition demo_run :: posting_run where
  "demo_run = \<lparr>rn_now = 3, rn_event_id = 1, rn_intent_id = 91, rn_ingest = demo_env, rn_posting = demo_posting_env\<rparr>"

definition demo_posting_request :: posting_request where
  "demo_posting_request = \<lparr>rq_event_type = ''ap.invoice'', rq_payload = [(''qty'', JInt 3)], rq_effective_date = 15, rq_actor_id = 7,
     rq_amount = 100, rq_currency = ''USD'', rq_producer = None, rq_event_id = None, rq_occurred_at = None, rq_schema_version = 1,
     rq_is_adjustment = False, rq_description = None, rq_coa_version = 1, rq_dimension_schema_version = 1,
     rq_preamble_log = None, rq_account_key_to_role = None\<rparr>"

lemma demo_service_ok: "service_ok (demo_service gs)" "kernel_ok (demo_service gs) demo_state"
  "no_contention (demo_service gs) demo_run demo_posting_request demo_state"
proof -
  show "service_ok (demo_service gs)"
    by (simp add: service_ok_def demo_service_def demo_posting_ok demo_queries soon.query_one_axioms)
  show "no_contention (demo_service gs) demo_run demo_posting_request demo_state"
    by (simp add: no_contention_def uncontended_def demo_run_def demo_posting_env_def denv_def)
  have "posting_inv (posting_view demo_state)"
    unfolding posting_inv_view
    by (simp add: demo_state_def demo_tables_def posting_inv_def posting_journal_def wf_outcomes_def inv_session_def
        inv_db_def empty_db_def extends_def)
  then show "kernel_ok (demo_service gs) demo_state"
    by (simp add: kernel_ok_def) (simp add: demo_service_def demo_state_def demo_tables_def session_inv_def ingest_view_def
        ingest_inv_def demo_ingestor_def wf_periods_def january_def sync_events_def empty_db_def)
qed













definition demo_guard :: guard_condition where
  "demo_guard = \<lparr>gc_guard_type = GT_BLOCK, gc_expression = ''qty > 2'', gc_reason_code = ''TOO_MANY'', gc_message = ''''\<rparr>"

definition demo_blocked :: "mposting_exc + module_posting_result \<times> unit kernel_state" where
  "demo_blocked = do_post_event (demo_service [demo_guard]) demo_run 1 ''ap'' demo_posting_request demo_state"

lemma demo_blocked_status: "map_sum id (mp_status \<circ> fst) demo_blocked = Inr GUARD_BLOCKED"
  by code_simp

lemma demo_blocked_again:
  "map_sum id (\<lambda>s. validate_actor (demo_service []) 1 7 (kt_parties (kn_working (snd s)))) demo_blocked = Inr (Inr None)
   \<and> map_sum id (\<lambda>s. validate_period (demo_service []) 1 15 False (kt_periods (kn_working (snd s)))) demo_blocked = Inr None"
  by code_simp

theorem failed_then_already_posted_witness:
  "\<exists>r s' r'. demo_blocked = Inr (r, s') \<and> mp_status r = GUARD_BLOCKED
     \<and> do_post_event (demo_service []) demo_run 1 ''ap'' demo_posting_request s' = Inr (r', s') \<and> mp_status r' = ALREADY_POSTED"
proof -
  obtain r s' where b: "demo_blocked = Inr (r, s')" "mp_status r = GUARD_BLOCKED"
    using map_sum_status [OF demo_blocked_status] by blast
  have n: "validate_actor (demo_service []) 1 (rq_actor_id demo_posting_request) (kt_parties (kn_working s')) = Inr None"
    "validate_period (demo_service []) 1 (rq_effective_date demo_posting_request) (rq_is_adjustment demo_posting_request)
       (kt_periods (kn_working s')) = None"
    using demo_blocked_again [unfolded b(1)] by (simp_all add: demo_posting_request_def)
  have "mp_status r \<in> {GUARD_REJECTED, GUARD_BLOCKED, PROFILE_NOT_FOUND, MEANING_FAILED, INTENT_FAILED}" using b(2) by simp
  from failed_then_already_posted [OF demo_service_ok(1,2) b(1) [unfolded demo_blocked_def] this n, where rn' = demo_run and prdcr' = "''ap''"]
  show ?thesis using b by (auto simp: demo_service_def)
qed

end
