(* ===== verification/Approval_Rules.thy ===== *)
theory Approval_Rules
  imports Guard_Expression
begin

text \<open>
  \<open>finance_kernel/domain/approval.py\<close> and the pure engine \<open>finance_engines/approval.py\<close>: approval policies,
  the lifecycle of a request, rule selection with its guard expressions, and the count of approvals.

  A context is a Python dict of values, here \<open>cval\<close>: JSON values and decimals. Floats, dates and identifiers do
  not occur in it. Amounts are finite decimals.

  The lemmas show which rule is selected, what a numeric guard decides, and that comparing a boolean field
  with false is inverted.
\<close>

section \<open>Policies, requests and decisions\<close>

datatype approval_status = PENDING | APPROVED | REJECTED | ESCALATED | EXPIRED | CANCELLED | AUTO_APPROVED

fun approval_status_value :: "approval_status \<Rightarrow> string" where
  "approval_status_value PENDING = ''pending''"
| "approval_status_value APPROVED = ''approved''"
| "approval_status_value REJECTED = ''rejected''"
| "approval_status_value ESCALATED = ''escalated''"
| "approval_status_value EXPIRED = ''expired''"
| "approval_status_value CANCELLED = ''cancelled''"
| "approval_status_value AUTO_APPROVED = ''auto_approved''"

fun approval_transitions :: "approval_status \<Rightarrow> approval_status list" where
  "approval_transitions PENDING = [APPROVED, REJECTED, ESCALATED, EXPIRED, CANCELLED, AUTO_APPROVED]"
| "approval_transitions ESCALATED = [APPROVED, REJECTED, EXPIRED]"
| "approval_transitions APPROVED = []"
| "approval_transitions REJECTED = []"
| "approval_transitions EXPIRED = []"
| "approval_transitions CANCELLED = []"
| "approval_transitions AUTO_APPROVED = []"

definition approval_terminal :: "approval_status \<Rightarrow> bool" where
  "approval_terminal s \<longleftrightarrow> s \<in> {APPROVED, REJECTED, EXPIRED, CANCELLED, AUTO_APPROVED}"

datatype approval_decision = APPROVE | REJECT | ESCALATE

fun decision_value :: "approval_decision \<Rightarrow> string" where
  "decision_value APPROVE = ''approve''"
| "decision_value REJECT = ''reject''"
| "decision_value ESCALATE = ''escalate''"

record approval_rule =
  ar_rule_name :: string
  ar_priority :: int
  ar_min_amount :: "decimal option"
  ar_max_amount :: "decimal option"
  ar_required_roles :: "string list"
  ar_min_approvers :: int
  ar_require_distinct_roles :: bool
  ar_guard_expression :: "string option"
  ar_auto_approve_below :: "decimal option"
  ar_escalation_timeout_hours :: "int option"

record approval_policy =
  al_policy_name :: string
  al_version :: int
  al_applies_to_workflow :: string
  al_applies_to_action :: "string option"
  al_rules :: "approval_rule list"
  al_effective_from :: "int option"
  al_effective_to :: "int option"
  al_policy_currency :: "string option"
  al_policy_hash :: "string option"

record decision_record =
  dn_decision_id :: uuid
  dn_request_id :: uuid
  dn_actor_id :: uuid
  dn_actor_role :: string
  dn_decision :: approval_decision
  dn_comment :: string
  dn_decided_at :: int

record approval_evaluation =
  evn_needs_approval :: bool
  evn_is_approved :: bool
  evn_is_rejected :: bool
  evn_matched_rule :: "approval_rule option"
  evn_required_approvers :: int
  evn_current_approvers :: int
  evn_auto_approved :: bool

section \<open>Contexts and guard expressions\<close>

datatype cval = CNone | CBool bool | CInt int | CDec decimal | CStr string | CList "cval list" | CDict "(string \<times> cval) list"

type_synonym ctx = "(string \<times> cval) list"

fun ctruthy :: "cval \<Rightarrow> bool" where
  "ctruthy CNone = False"
| "ctruthy (CBool b) = b"
| "ctruthy (CInt i) = (i \<noteq> 0)"
| "ctruthy (CDec d) = (d \<noteq> 0)"
| "ctruthy (CStr s) = (s \<noteq> [])"
| "ctruthy (CList vs) = (vs \<noteq> [])"
| "ctruthy (CDict kvs) = (kvs \<noteq> [])"

fun resolve_path :: "cval \<Rightarrow> string list \<Rightarrow> cval" where
  "resolve_path current [] = current"
| "resolve_path current (p # ps) =
     (case current of
        CDict kvs \<Rightarrow> (case map_of kvs p of Some v \<Rightarrow> resolve_path v ps | None \<Rightarrow> CNone)
      | _ \<Rightarrow> CNone)"

definition resolve_field :: "string \<Rightarrow> ctx \<Rightarrow> cval" where
  "resolve_field path c = resolve_path (CDict c) (split_char CHR ''.'' path)"

text \<open>\<open>int(text)\<close>; None is the ValueError.\<close>

definition py_int_of_str :: "string \<Rightarrow> int option" where
  "py_int_of_str s =
     (case split_sign (strip s) of (neg, ds) \<Rightarrow>
        if list_all (\<lambda>w. w \<noteq> [] \<and> list_all is_digit w) (split_char CHR ''_'' ds)
        then let n = int (nat_of_digits (filter (\<lambda>c. c \<noteq> CHR ''_'') ds)) in Some (if neg then - n else n)
        else None)"

definition apply_op :: "string \<Rightarrow> 'a::linorder \<Rightarrow> 'a \<Rightarrow> bool" where
  "apply_op cmp x y =
     (if cmp = ''<='' then x \<le> y
      else if cmp = ''>='' then y \<le> x
      else if cmp = ''!='' then x \<noteq> y
      else if cmp = ''=='' then x = y
      else if cmp = ''<'' then x < y
      else y < x)"

text \<open>Lists are ordered by their first difference; only texts can be ordered with the characters of a text.\<close>

fun compare_lists :: "string \<Rightarrow> cval list \<Rightarrow> string \<Rightarrow> py_exc + bool" where
  "compare_lists cmp [] e = Inr (apply_op cmp 0 (length e))"
| "compare_lists cmp (v # vs) [] = Inr (apply_op cmp (length (v # vs)) 0)"
| "compare_lists cmp (v # vs) (c # cs) =
     (if v = CStr [c] then compare_lists cmp vs cs
      else if cmp = ''=='' then Inr False
      else if cmp = ''!='' then Inr True
      else case v of CStr s \<Rightarrow> Inr (apply_op cmp s [c]) | _ \<Rightarrow> Inl TypeError)"

text \<open>
  \<open>type(actual)(expected_str)\<close> and the comparison. A text that is no number is a ValueError for an
  int, which is caught, and InvalidOperation for a Decimal, which is not.
\<close>

fun guard_compare :: "cval \<Rightarrow> string \<Rightarrow> string \<Rightarrow> py_exc + bool" where
  "guard_compare CNone cmp e = Inr False"
| "guard_compare (CBool b) cmp e = Inr (apply_op cmp b (e \<noteq> []))"
| "guard_compare (CInt i) cmp e = (case py_int_of_str e of None \<Rightarrow> Inr False | Some n \<Rightarrow> Inr (apply_op cmp i n))"
| "guard_compare (CDec d) cmp e =
     (case decimal_of_str e of
        None \<Rightarrow> Inl InvalidOperation
      | Some y \<Rightarrow> (case compare_decimals (Finite d) cmp y of None \<Rightarrow> Inl InvalidOperation | Some b \<Rightarrow> Inr b))"
| "guard_compare (CStr s) cmp e = Inr (apply_op cmp s e)"
| "guard_compare (CList vs) cmp e = compare_lists cmp vs e"
| "guard_compare (CDict kvs) cmp e =
     (if e \<noteq> [] then Inr False
      else if cmp = ''=='' then Inr (kvs = [])
      else if cmp = ''!='' then Inr (kvs \<noteq> [])
      else Inl TypeError)"

definition guard_operators :: "string list" where
  "guard_operators = [''<='', ''>='', ''!='', ''=='', ''<'', ''>'']"

definition evaluate_simple_guard :: "string \<Rightarrow> ctx \<Rightarrow> py_exc + bool" where
  "evaluate_simple_guard expression c =
     (let e = strip expression
      in case first_operator guard_operators e of
           Some (cmp, l, r) \<Rightarrow> guard_compare (resolve_field (strip l) c) cmp (strip r)
         | None \<Rightarrow> Inr (ctruthy (resolve_field e c)))"

section \<open>Rules\<close>

definition auto_approves :: "approval_rule \<Rightarrow> decimal option \<Rightarrow> bool" where
  "auto_approves r amt = (case (ar_auto_approve_below r, amt) of (Some t, Some a) \<Rightarrow> a < t | _ \<Rightarrow> False)"

definition rule_matches :: "approval_rule \<Rightarrow> decimal option \<Rightarrow> ctx option \<Rightarrow> py_exc + bool" where
  "rule_matches r amt c =
     (if auto_approves r amt then Inr True
      else if (case (amt, ar_min_amount r) of (Some a, Some m) \<Rightarrow> a < m | _ \<Rightarrow> False) then Inr False
      else if (case (amt, ar_max_amount r) of (Some a, Some m) \<Rightarrow> m \<le> a | _ \<Rightarrow> False) then Inr False
      else case (ar_guard_expression r, c) of
             (Some g, Some kvs) \<Rightarrow> evaluate_simple_guard g kvs
           | _ \<Rightarrow> Inr True)"

fun first_matching :: "decimal option \<Rightarrow> ctx option \<Rightarrow> approval_rule list \<Rightarrow> py_exc + approval_rule option" where
  "first_matching amt c [] = Inr None"
| "first_matching amt c (r # rs) =
     rbind (rule_matches r amt c) (\<lambda>b. if b then Inr (Some r) else first_matching amt c rs)"

definition select_matching_rule :: "approval_rule list \<Rightarrow> decimal option \<Rightarrow> ctx option \<Rightarrow> py_exc + approval_rule option" where
  "select_matching_rule rules amt c = first_matching amt c (sort_key ar_priority rules)"

definition validate_actor_authority :: "string \<Rightarrow> approval_rule \<Rightarrow> bool" where
  "validate_actor_authority actor_role r \<longleftrightarrow> ar_required_roles r = [] \<or> actor_role \<in> set (ar_required_roles r)"

definition no_approval :: approval_evaluation where
  "no_approval = \<lparr>evn_needs_approval = False, evn_is_approved = False, evn_is_rejected = False, evn_matched_rule = None,
     evn_required_approvers = 0, evn_current_approvers = 0, evn_auto_approved = False\<rparr>"

definition evaluate_approval_requirement ::
    "approval_policy option \<Rightarrow> decimal option \<Rightarrow> ctx option \<Rightarrow> py_exc + approval_evaluation" where
  "evaluate_approval_requirement policy amt c =
     (case policy of
        None \<Rightarrow> Inr no_approval
      | Some p \<Rightarrow> rmap (\<lambda>m. case m of
            None \<Rightarrow> no_approval
          | Some r \<Rightarrow>
              if auto_approves r amt
              then no_approval\<lparr>evn_needs_approval := True, evn_is_approved := True, evn_auto_approved := True, evn_matched_rule := Some r\<rparr>
              else no_approval\<lparr>evn_needs_approval := True, evn_matched_rule := Some r, evn_required_approvers := ar_min_approvers r\<rparr>)
          (select_matching_rule (al_rules p) amt c))"

definition approval_count :: "approval_rule \<Rightarrow> decision_record list \<Rightarrow> int" where
  "approval_count r ds =
     (let approvals = filter (\<lambda>d. dn_decision d = APPROVE) ds
      in if ar_require_distinct_roles r then int (card (set (map dn_actor_role approvals))) else int (length approvals))"

definition evaluate_approval_status :: "approval_rule \<Rightarrow> decision_record list \<Rightarrow> approval_evaluation" where
  "evaluate_approval_status r ds =
     (if list_ex (\<lambda>d. dn_decision d = REJECT) ds
      then no_approval\<lparr>evn_needs_approval := True, evn_is_rejected := True, evn_matched_rule := Some r,
             evn_required_approvers := ar_min_approvers r\<rparr>
      else no_approval\<lparr>evn_needs_approval := True, evn_is_approved := (ar_min_approvers r \<le> approval_count r ds),
             evn_matched_rule := Some r, evn_required_approvers := ar_min_approvers r, evn_current_approvers := approval_count r ds\<rparr>)"

section \<open>The lifecycle\<close>

lemma terminal_no_transition: "approval_terminal s \<longleftrightarrow> approval_transitions s = []"
  by (cases s) (auto simp: approval_terminal_def)

text \<open>Approvals of distinct roles are approvals.\<close>

lemma approval_count_le: "approval_count r ds \<le> int (length (filter (\<lambda>d. dn_decision d = APPROVE) ds))"
  using card_length [of "map dn_actor_role (filter (\<lambda>d. dn_decision d = APPROVE) ds)"]
  by (simp add: approval_count_def Let_def)

section \<open>Selection\<close>

lemma first_matching_split:
  assumes "first_matching amt c rs = Inr (Some r)"
  obtains us vs where "rs = us @ r # vs" "rule_matches r amt c = Inr True" "\<forall>x \<in> set us. rule_matches x amt c = Inr False"
  using assms
proof (induction rs arbitrary: thesis)
  case (Cons x rs)
  show ?case
  proof (cases "rule_matches x amt c = Inr True")
    case True
    then have "x = r" using Cons.prems(2) by simp
    then show ?thesis using Cons.prems(1) [of "[]" rs] True by simp
  next
    case False
    then have "rule_matches x amt c = Inr False" "first_matching amt c rs = Inr (Some r)"
      using Cons.prems(2) by (auto simp: rbind_eq_Inr split: if_splits)
    then show ?thesis using Cons.IH Cons.prems(1) by (metis append_Cons set_ConsD)
  qed
qed simp

lemma first_matching_None: "first_matching amt c rs = Inr None \<longleftrightarrow> (\<forall>x \<in> set rs. rule_matches x amt c = Inr False)"
  by (induction rs) (auto simp: rbind_eq_Inr)

lemma split_by_filter: "filter P xs = us @ r # vs \<Longrightarrow> \<exists>as bs. xs = as @ r # bs \<and> filter P as = us"
proof (induction xs arbitrary: us)
  case (Cons x xs)
  show ?case
  proof (cases "P x")
    case False
    then obtain as bs where "xs = as @ r # bs" "filter P as = us" using Cons by auto
    then show ?thesis using False by (intro exI [of _ "x # as"] exI [of _ bs]) simp
  next
    case True
    show ?thesis
    proof (cases us)
      case Nil
      then show ?thesis using True Cons.prems by (intro exI [of _ "[]"] exI [of _ xs]) simp
    next
      case (Cons u us')
      then obtain as bs where "xs = as @ r # bs" "filter P as = us'" "x = u" using True Cons.prems Cons.IH by auto
      then show ?thesis using True Cons by (intro exI [of _ "x # as"] exI [of _ bs]) simp
    qed
  qed
qed simp

text \<open>
  Rule selection (AL-6): the selected rule matches, and no rule of a smaller priority number, nor an
  earlier one of the same number, does. No rule is selected exactly when none matches.
\<close>

theorem selected_rule:
  assumes "select_matching_rule rules amt c = Inr m"
  shows "case m of
      None \<Rightarrow> \<forall>r \<in> set rules. rule_matches r amt c = Inr False
    | Some r \<Rightarrow> rule_matches r amt c = Inr True
        \<and> (\<exists>i < length rules. rules ! i = r
             \<and> (\<forall>j < length rules. ar_priority (rules ! j) < ar_priority r \<or> ar_priority (rules ! j) = ar_priority r \<and> j < i
                  \<longrightarrow> rule_matches (rules ! j) amt c = Inr False))"
proof (cases m)
  case None
  then show ?thesis using assms by (simp add: select_matching_rule_def first_matching_None)
next
  case (Some r)
  obtain us vs where s: "sort_key ar_priority rules = us @ r # vs" "rule_matches r amt c = Inr True"
    "\<forall>x \<in> set us. rule_matches x amt c = Inr False"
    using assms unfolding Some select_matching_rule_def by (rule first_matching_split)
  let ?P = "\<lambda>x. ar_priority x = ar_priority r"
  have "filter ?P (us @ r # vs) = filter ?P rules"
    unfolding s(1) [symmetric] by (rule sort_key_stable)
  then have "filter ?P rules = filter ?P us @ r # filter ?P vs" by simp
  from split_by_filter [OF this] obtain as bs where ab: "rules = as @ r # bs" "filter ?P as = filter ?P us" by blast
  have sorted: "sorted (map ar_priority (us @ r # vs))" using sorted_sort_key [of ar_priority rules] by (simp only: s(1))
  have "rule_matches x amt c = Inr False"
    if "x \<in> set rules" "ar_priority x < ar_priority r" for x
  proof -
    have "x \<in> set (us @ r # vs)" using that(1) s(1) by (metis set_sort)
    moreover have "x \<notin> set (r # vs)" using that(2) sorted by (auto simp: sorted_append)
    ultimately show ?thesis using s(3) by simp
  qed
  moreover have "rule_matches (rules ! j) amt c = Inr False" if "j < length as" "ar_priority (rules ! j) = ar_priority r" for j
  proof -
    have "rules ! j \<in> set (filter ?P as)" using that by (simp add: ab(1) nth_append)
    then show ?thesis using s(3) by (simp add: ab(2))
  qed
  ultimately have "\<forall>j < length rules. ar_priority (rules ! j) < ar_priority r \<or> ar_priority (rules ! j) = ar_priority r \<and> j < length as
      \<longrightarrow> rule_matches (rules ! j) amt c = Inr False" by auto
  moreover have "length as < length rules" "rules ! length as = r" by (simp_all add: ab(1))
  ultimately show ?thesis using s(2) by (auto simp: Some)
qed

definition demo_rule :: "string \<Rightarrow> int \<Rightarrow> decimal option \<Rightarrow> approval_rule" where
  "demo_rule nm pr lo = \<lparr>ar_rule_name = nm, ar_priority = pr, ar_min_amount = lo, ar_max_amount = None, ar_required_roles = [''manager''],
     ar_min_approvers = 2, ar_require_distinct_roles = True, ar_guard_expression = None, ar_auto_approve_below = None,
     ar_escalation_timeout_hours = None\<rparr>"

theorem selected_rule_witness:
  "rule_matches (demo_rule ''b'' 1 (Some 50)) (Some 100) None = Inr True"
proof -
  have "select_matching_rule [demo_rule ''a'' 2 None, demo_rule ''b'' 1 (Some 50)] (Some 100) None = Inr (Some (demo_rule ''b'' 1 (Some 50)))"
    by (simp add: select_matching_rule_def demo_rule_def rule_matches_def auto_approves_def)
  from selected_rule [OF this] show ?thesis by simp
qed

section \<open>Boolean guards\<close>

text \<open>
  A guard that compares a boolean field is not what it reads: \<open>bool(text)\<close> is true for every non-empty text,
  so \<open>field == false\<close> holds exactly when the field is true, and \<open>field != false\<close> exactly when it is false.
\<close>

theorem boolean_guard_inverted:
  "evaluate_simple_guard ''is_new == false'' [(''is_new'', CBool b)] = Inr b
   \<and> evaluate_simple_guard ''is_new != false'' [(''is_new'', CBool b)] = Inr (\<not> b)
   \<and> evaluate_simple_guard ''is_new == true'' [(''is_new'', CBool b)] = Inr b"
proof -
  have e: "first_operator guard_operators (strip ''is_new == false'') = Some (''=='', ''is_new '', '' false'')"
    "first_operator guard_operators (strip ''is_new != false'') = Some (''!='', ''is_new '', '' false'')"
    "first_operator guard_operators (strip ''is_new == true'') = Some (''=='', ''is_new '', '' true'')" by code_simp+
  have s: "strip ''is_new '' = ''is_new''" "strip '' false'' = ''false''" "strip '' true'' = ''true''" by code_simp+
  have "split_char CHR ''.'' ''is_new'' = [''is_new'']" by code_simp
  then show ?thesis by (simp add: evaluate_simple_guard_def e s resolve_field_def apply_op_def)
qed

text \<open>A decimal threshold never matches an integer, and a text that is no number raises for a decimal.\<close>

lemma fractional_threshold_dead: "evaluate_simple_guard ''amount >= 0.5'' [(''amount'', CInt i)] = Inr False"
proof -
  have e: "first_operator guard_operators (strip ''amount >= 0.5'') = Some (''>='', ''amount '', '' 0.5'')" by code_simp
  have s: "strip ''amount '' = ''amount''" "strip '' 0.5'' = ''0.5''" by code_simp+
  have p: "split_char CHR ''.'' ''amount'' = [''amount'']" "py_int_of_str ''0.5'' = None" by code_simp+
  show ?thesis by (simp add: evaluate_simple_guard_def e s p resolve_field_def)
qed

end
