(* ===== verification/Approval_Service.thy ===== *)
theory Approval_Service
  imports Approval_Rules Audit_Chain
begin

text \<open>
  \<open>finance_kernel/services/approval_service.py\<close> and \<open>models/approval.py\<close>: approval requests and decisions, with
  the audit log.

  A database is the two tables and the audit log; an exception has no state, its caller rolls back. The six columns
  of the partial unique index are one record. Clock readings are microseconds since the day before 0001-01-01 in UTC.
  The decisions of a returned request are read from the decision table. The text of an amount in the audit log
  (\<open>str(amount)\<close>) shows its exponent, which the model's decimals do not have: it is an argument.

  The lemmas show that requests follow the lifecycle, which only a \<open>record_auto_approval\<close> on its own leaves, that decisions
  are never changed, and what a request's status says about its decisions.
\<close>

section \<open>Texts\<close>

text \<open>\<open>str(Decimal.normalize())\<close>: coefficient without trailing zeros, and exponent.\<close>

function factor_count :: "nat \<Rightarrow> nat \<Rightarrow> nat" where
  "factor_count p n = (if 1 < p \<and> 0 < n \<and> n mod p = 0 then Suc (factor_count p (n div p)) else 0)"
  by pat_completeness auto
termination by (relation "measure snd") auto

declare factor_count.simps [simp del]

definition coefficient_exponent :: "decimal \<Rightarrow> int \<times> int" where
  "coefficient_exponent d =
     (let (p, q) = quotient_of d;
          k = max (factor_count 2 (nat q)) (factor_count 5 (nat q));
          c = p * 10 ^ k div q;
          z = factor_count 10 (nat \<bar>c\<bar>)
      in if c = 0 then (0, 0) else if 0 < k then (c, - int k) else (c div 10 ^ z, int z))"

definition normalized_str :: "decimal \<Rightarrow> string" where
  "normalized_str d =
     (let (c, e) = coefficient_exponent (dfix d);
          ds = str_of_nat (nat \<bar>c\<bar>);
          left = e + int (length ds);
          point = (if e \<le> 0 \<and> -6 < left then left else 1);
          body = (if point \<le> 0 then ''0.'' @ replicate (nat (- point)) CHR ''0'' @ ds
                  else if int (length ds) \<le> point then ds @ replicate (nat point - length ds) CHR ''0''
                  else take (nat point) ds @ ''.'' @ drop (nat point) ds);
          ex = (if left = point then [] else ''E'' @ (if left < point then [] else ''+'') @ str_of_int (left - point))
      in (if c < 0 then ''-'' else []) @ body @ ex)"

definition hour :: int where
  "hour = 3600 * 1000000"

text \<open>\<open>str(datetime)\<close> in UTC.\<close>

definition str_of_datetime :: "int \<Rightarrow> string" where
  "str_of_datetime t =
     (let s = t mod (24 * hour); sec = nat (s div 1000000); us = nat (s mod 1000000);
          two = (\<lambda>n. zero_pad 2 (str_of_nat n))
      in str_of_date (t div (24 * hour)) @ '' '' @ two (sec div 3600) @ '':'' @ two (sec div 60 mod 60) @ '':'' @ two (sec mod 60)
         @ (if us = 0 then [] else ''.'' @ zero_pad 6 (str_of_nat us)) @ ''+00:00'')"

section \<open>Tables\<close>

record transition_key =
  tk_workflow_name :: string
  tk_entity_type :: string
  tk_entity_id :: uuid
  tk_transition_action :: string
  tk_from_state :: string
  tk_to_state :: string

record approval_request =
  aq_request_id :: uuid
  aq_transition :: transition_key
  aq_policy_name :: string
  aq_policy_version :: int
  aq_policy_hash :: "string option"
  aq_matched_rule :: "string option"
  aq_amount :: "decimal option"
  aq_currency :: string
  aq_requestor_id :: uuid
  aq_status :: approval_status
  aq_created_at :: int
  aq_resolved_at :: "int option"
  aq_original_request_hash :: "string option"

record approval_db =
  apd_requests :: "approval_request list"
  apd_decisions :: "decision_record list"
  apd_audit :: audit_db

record approval_service =
  as_one_request :: "approval_request list \<Rightarrow> py_exc + approval_request option"
  as_one_decision :: "decision_record list \<Rightarrow> py_exc + decision_record option"
  as_auditor :: auditor

record approval_env =
  xe_now :: int
  xe_fresh_id :: uuid
  xe_audit :: audit_env

datatype approval_exc =
    ApPy py_exc
  | ApAudit audit_exc
  | ApprovalCurrencyMismatchError string string
  | DuplicateApprovalRequestError string uuid string
  | ApprovalNotFoundError uuid
  | ApprovalAlreadyResolvedError uuid approval_status
  | DuplicateApprovalError uuid uuid
  | InvalidApprovalTransitionError approval_status approval_status
  | PolicyDriftError string int int
  | TamperDetectedError uuid
  | UnauthorizedApproverError uuid string

definition is_open :: "approval_status \<Rightarrow> bool" where
  "is_open s \<longleftrightarrow> s \<in> {PENDING, ESCALATED}"

text \<open>UNIQUE(request\_id) and the partial unique index of AL-10; UNIQUE(decision\_id) and UNIQUE(request\_id, actor\_id).\<close>

definition insert_request :: "approval_request \<Rightarrow> approval_db \<Rightarrow> py_exc + approval_db" where
  "insert_request r db =
     (if list_ex (\<lambda>x. aq_request_id x = aq_request_id r
          \<or> aq_transition x = aq_transition r \<and> is_open (aq_status x) \<and> is_open (aq_status r)) (apd_requests db)
      then Inl IntegrityError
      else Inr (db\<lparr>apd_requests := apd_requests db @ [r]\<rparr>))"

definition insert_decision :: "decision_record \<Rightarrow> approval_db \<Rightarrow> py_exc + approval_db" where
  "insert_decision d db =
     (if list_ex (\<lambda>x. dn_decision_id x = dn_decision_id d
          \<or> dn_request_id x = dn_request_id d \<and> dn_actor_id x = dn_actor_id d) (apd_decisions db)
      then Inl IntegrityError
      else Inr (db\<lparr>apd_decisions := apd_decisions db @ [d]\<rparr>))"

definition set_status :: "uuid \<Rightarrow> approval_status \<Rightarrow> int option \<Rightarrow> approval_db \<Rightarrow> approval_db" where
  "set_status rid st resolved db =
     db\<lparr>apd_requests := map (\<lambda>r. if aq_request_id r = rid
          then r\<lparr>aq_status := st, aq_resolved_at := (case resolved of None \<Rightarrow> aq_resolved_at r | Some t \<Rightarrow> Some t)\<rparr> else r) (apd_requests db)\<rparr>"

definition decisions_of :: "uuid \<Rightarrow> approval_db \<Rightarrow> decision_record list" where
  "decisions_of rid db = sort_key dn_decided_at (filter (\<lambda>d. dn_request_id d = rid) (apd_decisions db))"

section \<open>Hash and audit\<close>

definition opt_text :: "string option \<Rightarrow> json" where
  "opt_text s = (case s of None \<Rightarrow> JNull | Some t \<Rightarrow> JStr t)"

definition compute_request_hash ::
    "(string \<Rightarrow> string) \<Rightarrow> uuid \<Rightarrow> transition_key \<Rightarrow> string \<Rightarrow> int \<Rightarrow> decimal option \<Rightarrow> string \<Rightarrow> string" where
  "compute_request_hash sha rid k pname pversion amt cur =
     hash_payload sha
       [(''request_id'', JStr (uuid_str rid)), (''workflow_name'', JStr (tk_workflow_name k)), (''entity_type'', JStr (tk_entity_type k)),
        (''entity_id'', JStr (uuid_str (tk_entity_id k))), (''transition_action'', JStr (tk_transition_action k)),
        (''from_state'', JStr (tk_from_state k)), (''to_state'', JStr (tk_to_state k)), (''policy_name'', JStr pname),
        (''policy_version'', JInt pversion), (''amount'', opt_text (map_option normalized_str amt)), (''currency'', JStr cur)]"

definition row_hash :: "approval_service \<Rightarrow> approval_request \<Rightarrow> string" where
  "row_hash sv r = compute_request_hash (au_sha (as_auditor sv)) (aq_request_id r) (aq_transition r) (aq_policy_name r)
     (aq_policy_version r) (aq_amount r) (aq_currency r)"

definition approval_audit ::
    "approval_service \<Rightarrow> approval_env \<Rightarrow> uuid \<Rightarrow> audit_action \<Rightarrow> uuid \<Rightarrow> (string \<times> json) list \<Rightarrow> approval_db
     \<Rightarrow> approval_exc + approval_db" where
  "approval_audit sv env rid action actor data db =
     rbind (map_sum ApAudit id (create_audit_event (as_auditor sv) (xe_audit env) ''ApprovalRequest'' rid action actor data (apd_audit db)))
       (\<lambda>(_, ad). Inr (db\<lparr>apd_audit := ad\<rparr>))"

section \<open>The operations\<close>

definition new_request ::
    "approval_service \<Rightarrow> approval_env \<Rightarrow> transition_key \<Rightarrow> approval_policy \<Rightarrow> string \<Rightarrow> uuid \<Rightarrow> decimal option \<Rightarrow> string
     \<Rightarrow> approval_request" where
  "new_request sv env k policy rule requestor amt cur =
     \<lparr>aq_request_id = xe_fresh_id env, aq_transition = k, aq_policy_name = al_policy_name policy, aq_policy_version = al_version policy,
      aq_policy_hash = al_policy_hash policy, aq_matched_rule = Some rule, aq_amount = amt, aq_currency = cur,
      aq_requestor_id = requestor, aq_status = PENDING, aq_created_at = xe_now env, aq_resolved_at = None,
      aq_original_request_hash = Some (compute_request_hash (au_sha (as_auditor sv)) (xe_fresh_id env) k (al_policy_name policy)
        (al_version policy) amt cur)\<rparr>"

text \<open>AL-3: the currency must be that of the policy, if it names one.\<close>

definition check_currency :: "approval_policy \<Rightarrow> string \<Rightarrow> approval_exc + unit" where
  "check_currency policy cur =
     (case al_policy_currency policy of
        Some pc \<Rightarrow> if pc \<noteq> [] \<and> cur \<noteq> pc then Inl (ApprovalCurrencyMismatchError cur pc) else Inr ()
      | None \<Rightarrow> Inr ())"

definition create_request ::
    "approval_service \<Rightarrow> approval_env \<Rightarrow> transition_key \<Rightarrow> approval_policy \<Rightarrow> string \<Rightarrow> uuid \<Rightarrow> decimal option \<Rightarrow> string \<Rightarrow> string
     \<Rightarrow> approval_db \<Rightarrow> approval_exc + approval_request \<times> approval_db" where
  "create_request sv env k policy rule requestor amt amt_text cur db =
     rbind (check_currency policy cur) (\<lambda>_.
     rbind (map_sum ApPy id (as_one_request sv
         (filter (\<lambda>r. aq_transition r = k \<and> is_open (aq_status r)) (apd_requests db)))) (\<lambda>existing.
     if existing \<noteq> None then Inl (DuplicateApprovalRequestError (tk_entity_type k) (tk_entity_id k) (tk_transition_action k))
     else
       let r = new_request sv env k policy rule requestor amt cur
       in rbind (map_sum ApPy id (insert_request r db)) (\<lambda>db1.
          rbind (approval_audit sv env (xe_fresh_id env) APPROVAL_REQUESTED requestor
              [(''workflow_name'', JStr (tk_workflow_name k)), (''entity_type'', JStr (tk_entity_type k)),
               (''entity_id'', JStr (uuid_str (tk_entity_id k))), (''transition_action'', JStr (tk_transition_action k)),
               (''policy_name'', JStr (al_policy_name policy)), (''policy_version'', JInt (al_version policy)), (''matched_rule'', JStr rule),
               (''amount'', opt_text (map_option (\<lambda>_. amt_text) amt)), (''currency'', JStr cur)] db1) (\<lambda>db2.
          Inr (r, db2)))))"

definition load_request :: "approval_service \<Rightarrow> uuid \<Rightarrow> approval_db \<Rightarrow> approval_exc + approval_request" where
  "load_request sv rid db =
     rbind (map_sum ApPy id (as_one_request sv (filter (\<lambda>r. aq_request_id r = rid) (apd_requests db)))) (\<lambda>m.
       case m of None \<Rightarrow> Inl (ApprovalNotFoundError rid) | Some r \<Rightarrow> Inr r)"

definition resolve_new_status :: "approval_decision \<Rightarrow> approval_status" where
  "resolve_new_status d = (case d of APPROVE \<Rightarrow> APPROVED | REJECT \<Rightarrow> REJECTED | ESCALATE \<Rightarrow> ESCALATED)"

text \<open>AL-5: an older policy raises, a newer one is logged.\<close>

definition policy_drift :: "approval_request \<Rightarrow> approval_status \<Rightarrow> approval_policy option \<Rightarrow> approval_exc + unit" where
  "policy_drift r st active =
     (case active of
        Some p \<Rightarrow>
          if approval_terminal st \<and> al_version p < aq_policy_version r
          then Inl (PolicyDriftError (aq_policy_name r) (aq_policy_version r) (al_version p)) else Inr ()
      | None \<Rightarrow> Inr ())"

definition log_drift ::
    "approval_service \<Rightarrow> approval_env \<Rightarrow> approval_request \<Rightarrow> uuid \<Rightarrow> approval_status \<Rightarrow> approval_policy option \<Rightarrow> approval_db
     \<Rightarrow> approval_exc + approval_db" where
  "log_drift sv env r actor st active db =
     (case active of
        Some p \<Rightarrow>
          if approval_terminal st \<and> aq_policy_version r < al_version p
          then approval_audit sv env (aq_request_id r) APPROVAL_POLICY_DRIFT actor
                 [(''original_version'', JInt (aq_policy_version r)), (''active_version'', JInt (al_version p)),
                  (''policy_name'', JStr (aq_policy_name r))] db
          else Inr db
      | None \<Rightarrow> Inr db)"

definition decision_action :: "approval_status \<Rightarrow> audit_action" where
  "decision_action st =
     (if st = REJECTED then audit_action.APPROVAL_REJECTED else if st = ESCALATED then APPROVAL_ESCALATED else APPROVAL_GRANTED)"

definition record_decision ::
    "approval_service \<Rightarrow> approval_env \<Rightarrow> uuid \<Rightarrow> uuid \<Rightarrow> string \<Rightarrow> approval_decision \<Rightarrow> string \<Rightarrow> approval_policy option
     \<Rightarrow> approval_db \<Rightarrow> approval_exc + approval_request \<times> approval_db" where
  "record_decision sv env rid actor actor_role decision comment active db =
     rbind (load_request sv rid db) (\<lambda>r.
     if approval_terminal (aq_status r) then Inl (ApprovalAlreadyResolvedError rid (aq_status r))
     else
     rbind (map_sum ApPy id (as_one_decision sv
         (filter (\<lambda>d. dn_request_id d = rid \<and> dn_actor_id d = actor) (apd_decisions db)))) (\<lambda>existing.
     if existing \<noteq> None then Inl (DuplicateApprovalError rid actor)
     else
       let st = resolve_new_status decision;
           d = \<lparr>dn_decision_id = xe_fresh_id env, dn_request_id = rid, dn_actor_id = actor, dn_actor_role = actor_role,
                dn_decision = decision, dn_comment = comment, dn_decided_at = xe_now env\<rparr>
       in if st \<notin> set (approval_transitions (aq_status r)) then Inl (InvalidApprovalTransitionError (aq_status r) st)
          else
            rbind (policy_drift r st active) (\<lambda>_.
            rbind (map_sum ApPy id (insert_decision d db)) (\<lambda>db1.
            rbind (log_drift sv env r actor st active db1) (\<lambda>db2.
            let db3 = set_status rid st (if approval_terminal st then Some (xe_now env) else None) db2
            in rbind (approval_audit sv env rid (decision_action st) actor
                   [(''decision'', JStr (decision_value decision)), (''actor_role'', JStr actor_role), (''comment'', JStr comment),
                    (''new_status'', JStr (approval_status_value st))] db3) (\<lambda>db4.
               rmap (\<lambda>r'. (r', db4)) (load_request sv rid db4)))))))"

definition record_auto_approval ::
    "approval_service \<Rightarrow> approval_env \<Rightarrow> uuid \<Rightarrow> string \<Rightarrow> string \<Rightarrow> string \<Rightarrow> approval_policy \<Rightarrow> uuid
     \<Rightarrow> approval_db \<Rightarrow> approval_exc + approval_request \<times> approval_db" where
  "record_auto_approval sv env rid rule threshold_text amt_text policy actor db =
     rbind (load_request sv rid db) (\<lambda>_.
       let db1 = set_status rid AUTO_APPROVED (Some (xe_now env)) db
       in rbind (approval_audit sv env rid APPROVAL_AUTO_APPROVED actor
              [(''matched_rule'', JStr rule), (''threshold_value'', JStr threshold_text), (''evaluated_amount'', JStr amt_text),
               (''policy_name'', JStr (al_policy_name policy)), (''policy_version'', JInt (al_version policy)),
               (''policy_hash'', opt_text (al_policy_hash policy))] db1) (\<lambda>db2.
          rmap (\<lambda>r'. (r', db2)) (load_request sv rid db2)))"

text \<open>AL-8. A mismatch is logged before the error is raised; the record stays only if the caller commits.\<close>

definition get_request ::
    "approval_service \<Rightarrow> approval_env \<Rightarrow> uuid \<Rightarrow> approval_db \<Rightarrow> approval_exc + approval_request" where
  "get_request sv env rid db =
     rbind (load_request sv rid db) (\<lambda>r.
       case aq_original_request_hash r of
         None \<Rightarrow> Inr r
       | Some h \<Rightarrow>
           if row_hash sv r = h then Inr r
           else rbind (approval_audit sv env rid APPROVAL_TAMPER_DETECTED (aq_requestor_id r)
                    [(''expected_hash'', JStr h), (''computed_hash'', JStr (row_hash sv r))] db) (\<lambda>_.
                Inl (TamperDetectedError rid)))"

definition get_pending_for_entity :: "string \<Rightarrow> uuid \<Rightarrow> approval_db \<Rightarrow> approval_request list" where
  "get_pending_for_entity etype eid db =
     sort_key aq_created_at (filter (\<lambda>r. tk_entity_type (aq_transition r) = etype \<and> tk_entity_id (aq_transition r) = eid
        \<and> is_open (aq_status r)) (apd_requests db))"

definition cancel_request ::
    "approval_service \<Rightarrow> approval_env \<Rightarrow> uuid \<Rightarrow> uuid \<Rightarrow> approval_db \<Rightarrow> approval_exc + approval_request \<times> approval_db" where
  "cancel_request sv env rid actor db =
     rbind (load_request sv rid db) (\<lambda>r.
       if approval_terminal (aq_status r) then Inl (ApprovalAlreadyResolvedError rid (aq_status r))
       else if CANCELLED \<notin> set (approval_transitions (aq_status r)) then Inl (InvalidApprovalTransitionError (aq_status r) CANCELLED)
       else
         let db1 = set_status rid CANCELLED (Some (xe_now env)) db
         in rbind (approval_audit sv env rid APPROVAL_CANCELLED actor
                [(''previous_status'', JStr (approval_status_value (aq_status r)))] db1) (\<lambda>db2.
            rmap (\<lambda>r'. (r', db2)) (load_request sv rid db2)))"

fun expire_each ::
    "approval_service \<Rightarrow> approval_env \<Rightarrow> int \<Rightarrow> int \<Rightarrow> approval_request list \<Rightarrow> approval_db \<Rightarrow> approval_exc + approval_db" where
  "expire_each sv env as_of timeout [] db = Inr db"
| "expire_each sv env as_of timeout (r # rs) db =
     rbind (approval_audit sv env (aq_request_id r) APPROVAL_EXPIRED (aq_requestor_id r)
         [(''created_at'', JStr (str_of_datetime (aq_created_at r))), (''timeout_hours'', JInt timeout)]
         (set_status (aq_request_id r) EXPIRED (Some as_of) db))
       (expire_each sv env as_of timeout rs)"

definition expire_stale_requests ::
    "approval_service \<Rightarrow> approval_env \<Rightarrow> int \<Rightarrow> int \<Rightarrow> approval_db \<Rightarrow> approval_exc + uuid list \<times> approval_db" where
  "expire_stale_requests sv env as_of timeout db =
     (let stale = filter (\<lambda>r. is_open (aq_status r) \<and> aq_created_at r < as_of - timeout * hour) (apd_requests db)
      in rmap (\<lambda>db'. (map aq_request_id stale, db')) (expire_each sv env as_of timeout stale db))"

section \<open>The invariant\<close>

definition approvals_ok :: "approval_service \<Rightarrow> bool" where
  "approvals_ok sv \<longleftrightarrow> query_one (as_one_request sv) \<and> query_one (as_one_decision sv) \<and> query_one (au_one (as_auditor sv))"

text \<open>
  The decisions a request of a status can have, in the order of their recording. Auto-approval looks at no status, so an
  AUTO\_APPROVED request can have those of any.
\<close>

fun decision_pattern :: "approval_status \<Rightarrow> approval_decision list \<Rightarrow> bool" where
  "decision_pattern PENDING ds = (ds = [])"
| "decision_pattern ESCALATED ds = (ds = [ESCALATE])"
| "decision_pattern APPROVED ds = (ds \<in> {[APPROVE], [ESCALATE, APPROVE]})"
| "decision_pattern REJECTED ds = (ds \<in> {[REJECT], [ESCALATE, REJECT]})"
| "decision_pattern EXPIRED ds = (ds \<in> {[], [ESCALATE]})"
| "decision_pattern CANCELLED ds = (ds = [])"
| "decision_pattern AUTO_APPROVED ds =
     (ds \<in> {[], [ESCALATE], [APPROVE], [ESCALATE, APPROVE], [REJECT], [ESCALATE, REJECT]})"

lemma pattern_auto: "decision_pattern s ds \<Longrightarrow> decision_pattern AUTO_APPROVED ds"
  by (cases s) auto

definition recorded :: "uuid \<Rightarrow> approval_db \<Rightarrow> approval_decision list" where
  "recorded rid db = map dn_decision (filter (\<lambda>d. dn_request_id d = rid) (apd_decisions db))"

definition request_ok :: "approval_service \<Rightarrow> approval_db \<Rightarrow> approval_request \<Rightarrow> bool" where
  "request_ok sv db r \<longleftrightarrow> decision_pattern (aq_status r) (recorded (aq_request_id r) db)
     \<and> (approval_terminal (aq_status r) \<longleftrightarrow> aq_resolved_at r \<noteq> None)
     \<and> aq_original_request_hash r = Some (row_hash sv r)"

definition tables_inv :: "approval_service \<Rightarrow> approval_db \<Rightarrow> bool" where
  "tables_inv sv db \<longleftrightarrow> distinct (map aq_request_id (apd_requests db))
     \<and> distinct (map (\<lambda>d. (dn_request_id d, dn_actor_id d)) (apd_decisions db))
     \<and> dn_request_id ` set (apd_decisions db) \<subseteq> aq_request_id ` set (apd_requests db)
     \<and> (\<forall>r \<in> set (apd_requests db). \<forall>r' \<in> set (apd_requests db). is_open (aq_status r) \<and> is_open (aq_status r')
          \<and> aq_transition r = aq_transition r' \<longrightarrow> r = r')
     \<and> (\<forall>r \<in> set (apd_requests db). request_ok sv db r)"

definition approvals_inv :: "approval_service \<Rightarrow> approval_db \<Rightarrow> bool" where
  "approvals_inv sv db \<longleftrightarrow> tables_inv sv db \<and> audit_inv (as_auditor sv) (apd_audit db)"

text \<open>What never changes of a request.\<close>

definition frozen :: "approval_request \<Rightarrow> approval_request" where
  "frozen r = r\<lparr>aq_status := PENDING, aq_resolved_at := None\<rparr>"

definition approvals_extend :: "approval_db \<Rightarrow> approval_db \<Rightarrow> bool" where
  "approvals_extend db db' \<longleftrightarrow>
     (\<forall>r \<in> set (apd_requests db). \<exists>r' \<in> set (apd_requests db'). frozen r' = frozen r \<and> (approval_terminal (aq_status r) \<longrightarrow> r' = r))
     \<and> (\<exists>ds. apd_decisions db' = apd_decisions db @ ds)
     \<and> (\<exists>es. ad_events (apd_audit db') = ad_events (apd_audit db) @ es)"

lemma approvals_extend_refl: "approvals_extend db db"
  by (auto simp: approvals_extend_def)

lemma approvals_extend_trans:
  assumes "approvals_extend a b" "approvals_extend b c"
  shows "approvals_extend a c"
  unfolding approvals_extend_def
proof (intro conjI ballI)
  fix r assume "r \<in> set (apd_requests a)"
  then obtain r1 where r1: "r1 \<in> set (apd_requests b)" "frozen r1 = frozen r" "approval_terminal (aq_status r) \<longrightarrow> r1 = r"
    using assms(1) by (auto simp: approvals_extend_def)
  then obtain r2 where r2: "r2 \<in> set (apd_requests c)" "frozen r2 = frozen r1" "approval_terminal (aq_status r1) \<longrightarrow> r2 = r1"
    using assms(2) by (auto simp: approvals_extend_def)
  then show "\<exists>r' \<in> set (apd_requests c). frozen r' = frozen r \<and> (approval_terminal (aq_status r) \<longrightarrow> r' = r)"
    using r1 by metis
next
  show "\<exists>ds. apd_decisions c = apd_decisions a @ ds" "\<exists>es. ad_events (apd_audit c) = ad_events (apd_audit a) @ es"
    using assms by (auto simp: approvals_extend_def)
qed

lemma frozen_facts:
  assumes "frozen r' = frozen r"
  shows "aq_request_id r' = aq_request_id r" "aq_transition r' = aq_transition r" "row_hash sv r' = row_hash sv r"
    "aq_original_request_hash r' = aq_original_request_hash r"
proof -
  have "aq_request_id (frozen r') = aq_request_id (frozen r)" "aq_transition (frozen r') = aq_transition (frozen r)"
    "row_hash sv (frozen r') = row_hash sv (frozen r)"
    "aq_original_request_hash (frozen r') = aq_original_request_hash (frozen r)" by (simp_all only: assms)
  then show "aq_request_id r' = aq_request_id r" "aq_transition r' = aq_transition r" "row_hash sv r' = row_hash sv r"
    "aq_original_request_hash r' = aq_original_request_hash r"
    by (simp_all add: frozen_def row_hash_def)
qed

lemma open_not_terminal: "is_open s \<longleftrightarrow> \<not> approval_terminal s"
  by (cases s) (simp_all add: is_open_def approval_terminal_def)

lemma transition_open: "st \<in> set (approval_transitions s) \<Longrightarrow> is_open s"
  by (cases s) (simp_all add: is_open_def)

section \<open>Primitive steps\<close>

lemma approval_audit_frame:
  assumes "approval_audit sv env rid action actor data db = Inr db'" "query_one (au_one (as_auditor sv))"
    "audit_inv (as_auditor sv) (apd_audit db)"
  shows "apd_requests db' = apd_requests db" "apd_decisions db' = apd_decisions db" "audit_inv (as_auditor sv) (apd_audit db')"
    "\<exists>e. ad_events (apd_audit db') = ad_events (apd_audit db) @ [e] \<and> ae_action e = action \<and> ae_entity_id e = rid \<and> ae_actor_id e = actor"
proof -
  obtain e ad where a: "create_audit_event (as_auditor sv) (xe_audit env) ''ApprovalRequest'' rid action actor data (apd_audit db) = Inr (e, ad)"
    "db' = db\<lparr>apd_audit := ad\<rparr>"
    using assms(1) by (auto simp: approval_audit_def result_iffs map_sum_Inr_iff)
  show "apd_requests db' = apd_requests db" "apd_decisions db' = apd_decisions db" by (simp_all add: a(2))
  note c = create_audit_event_inv [OF assms(2,3) a(1)]
  show "audit_inv (as_auditor sv) (apd_audit db')" using c by (simp add: a(2))
  show "\<exists>e. ad_events (apd_audit db') = ad_events (apd_audit db) @ [e] \<and> ae_action e = action \<and> ae_entity_id e = rid \<and> ae_actor_id e = actor"
    using c by (simp add: a(2))
qed

lemma tables_inv_cong:
  "apd_requests db' = apd_requests db \<Longrightarrow> apd_decisions db' = apd_decisions db \<Longrightarrow> tables_inv sv db' = tables_inv sv db"
  by (simp add: tables_inv_def request_ok_def recorded_def)

lemma insert_request_inv:
  assumes inv: "tables_inv sv db" and ins: "insert_request r db = Inr db'"
    and r: "aq_status r = PENDING" "aq_resolved_at r = None" "aq_original_request_hash r = Some (row_hash sv r)"
  shows "tables_inv sv db'" "approvals_extend db db'" "apd_audit db' = apd_audit db" "apd_requests db' = apd_requests db @ [r]"
    "aq_request_id r \<notin> aq_request_id ` set (apd_requests db)"
proof -
  have db': "db' = db\<lparr>apd_requests := apd_requests db @ [r]\<rparr>"
    and no: "\<forall>x \<in> set (apd_requests db). aq_request_id x \<noteq> aq_request_id r
      \<and> \<not> (aq_transition x = aq_transition r \<and> is_open (aq_status x) \<and> is_open (aq_status r))"
    using ins by (auto simp: insert_request_def list_ex_iff split: if_splits)
  show fresh: "aq_request_id r \<notin> aq_request_id ` set (apd_requests db)" using no by auto
  have "dn_request_id d \<noteq> aq_request_id r" if "d \<in> set (apd_decisions db)" for d
    using inv fresh that unfolding tables_inv_def by (metis image_eqI subset_iff)
  then have none: "recorded (aq_request_id r) db' = []" by (simp add: recorded_def filter_empty_conv db')
  have same: "request_ok sv db' x \<longleftrightarrow> request_ok sv db x" for x by (simp add: request_ok_def recorded_def db')
  have "request_ok sv db' r" using none r by (simp add: request_ok_def approval_terminal_def)
  then have ok: "\<forall>x \<in> set (apd_requests db'). request_ok sv db' x" using inv same by (simp add: tables_inv_def db')
  have one: "x = y" if "x \<in> set (apd_requests db')" "y \<in> set (apd_requests db')" "is_open (aq_status x)" "is_open (aq_status y)"
    "aq_transition x = aq_transition y" for x y
  proof -
    have "is_open (aq_status r)" using r(1) by (simp add: is_open_def)
    moreover have "x = r \<or> x \<in> set (apd_requests db)" "y = r \<or> y \<in> set (apd_requests db)" using that by (auto simp: db')
    ultimately show ?thesis using inv no that(3-5) unfolding tables_inv_def by metis
  qed
  have keys: "distinct (map aq_request_id (apd_requests db'))" using inv fresh by (simp add: db' tables_inv_def)
  have "distinct (map (\<lambda>d. (dn_request_id d, dn_actor_id d)) (apd_decisions db'))"
    "dn_request_id ` set (apd_decisions db') \<subseteq> aq_request_id ` set (apd_requests db')"
    using inv by (auto simp: db' tables_inv_def)
  then show "tables_inv sv db'" unfolding tables_inv_def using ok one keys by blast
  show "apd_audit db' = apd_audit db" "apd_requests db' = apd_requests db @ [r]" by (simp_all add: db')
  show "approvals_extend db db'" by (auto simp: approvals_extend_def db')
qed

text \<open>A request moves to a new status, with the decision that moves it.\<close>

definition status_change :: "uuid \<Rightarrow> approval_status \<Rightarrow> decision_record list \<Rightarrow> approval_db \<Rightarrow> approval_db \<Rightarrow> bool" where
  "status_change rid st ds db db' \<longleftrightarrow>
     (\<exists>r \<in> set (apd_requests db). aq_request_id r = rid \<and> st \<in> set (approval_transitions (aq_status r)))
     \<and> (\<exists>t. apd_requests db' = apd_requests (set_status rid st t db) \<and> (approval_terminal st \<longleftrightarrow> t \<noteq> None))
     \<and> apd_decisions db' = apd_decisions db @ ds
     \<and> (ds = [] \<and> st \<in> {EXPIRED, CANCELLED, AUTO_APPROVED}
        \<or> (\<exists>d. ds = [d] \<and> dn_request_id d = rid \<and> resolve_new_status (dn_decision d) = st
             \<and> (\<forall>x \<in> set (apd_decisions db). \<not> (dn_request_id x = rid \<and> dn_actor_id x = dn_actor_id d))))"

lemma status_changeI:
  assumes "r \<in> set (apd_requests db)" "aq_request_id r = rid" "st \<in> set (approval_transitions (aq_status r))"
    and "apd_requests db' = apd_requests (set_status rid st t db)" "approval_terminal st \<longleftrightarrow> t \<noteq> None"
    and "apd_decisions db' = apd_decisions db @ ds"
    and "ds = [] \<and> st \<in> {EXPIRED, CANCELLED, AUTO_APPROVED}
        \<or> (\<exists>d. ds = [d] \<and> dn_request_id d = rid \<and> resolve_new_status (dn_decision d) = st
             \<and> (\<forall>x \<in> set (apd_decisions db). \<not> (dn_request_id x = rid \<and> dn_actor_id x = dn_actor_id d)))"
  shows "status_change rid st ds db db'"
  unfolding status_change_def using assms by blast

lemma pattern_step:
  assumes "decision_pattern s ds" "st \<in> set (approval_transitions s)"
  shows "st \<in> {EXPIRED, CANCELLED, AUTO_APPROVED} \<Longrightarrow> st = AUTO_APPROVED \<longrightarrow> s = PENDING \<Longrightarrow> decision_pattern st ds"
    "resolve_new_status d = st \<Longrightarrow> decision_pattern st (ds @ [d])"
  using assms by (cases s; cases d; auto simp: resolve_new_status_def)+

lemma status_change_inv:
  assumes inv: "tables_inv sv db" and ch: "status_change rid st ds db db'"
  shows "tables_inv sv db'"
    "\<forall>r \<in> set (apd_requests db). \<exists>r' \<in> set (apd_requests db'). frozen r' = frozen r \<and> (approval_terminal (aq_status r) \<longrightarrow> r' = r)"
proof -
  obtain r where r: "r \<in> set (apd_requests db)" "aq_request_id r = rid" "st \<in> set (approval_transitions (aq_status r))"
    using ch by (auto simp: status_change_def)
  obtain t where t: "apd_requests db' = apd_requests (set_status rid st t db)" "approval_terminal st \<longleftrightarrow> t \<noteq> None"
    using ch by (auto simp: status_change_def)
  have decs: "apd_decisions db' = apd_decisions db @ ds" using ch by (simp add: status_change_def)
  let ?f = "\<lambda>x. if aq_request_id x = rid
      then x\<lparr>aq_status := st, aq_resolved_at := (case t of None \<Rightarrow> aq_resolved_at x | Some u \<Rightarrow> Some u)\<rparr> else x"
  have reqs: "apd_requests db' = map ?f (apd_requests db)" by (simp add: t(1) set_status_def)
  have uniq: "x = r" if "x \<in> set (apd_requests db)" "aq_request_id x = rid" for x
    using inv that r(1,2) by (auto simp: tables_inv_def distinct_map dest: inj_onD)
  have fz: "frozen (?f x) = frozen x" for x by (simp add: frozen_def)
  have ids: "map aq_request_id (apd_requests db') = map aq_request_id (apd_requests db)" by (simp add: reqs comp_def cong: if_cong)
  have terminal: "?f x = x" if "x \<in> set (apd_requests db)" "approval_terminal (aq_status x)" for x
    using that uniq [of x] r(3) by (auto simp: terminal_no_transition)
  show "\<forall>x \<in> set (apd_requests db). \<exists>x' \<in> set (apd_requests db'). frozen x' = frozen x \<and> (approval_terminal (aq_status x) \<longrightarrow> x' = x)"
  proof
    fix x assume x: "x \<in> set (apd_requests db)"
    then have "?f x \<in> set (apd_requests db')" unfolding reqs set_map by (rule imageI)
    then show "\<exists>x' \<in> set (apd_requests db'). frozen x' = frozen x \<and> (approval_terminal (aq_status x) \<longrightarrow> x' = x)"
      using fz terminal [OF x] by (intro bexI [of _ "?f x"]) simp_all
  qed
  have opened: "is_open (aq_status x)" if "x \<in> set (apd_requests db)" "is_open (aq_status (?f x))" for x
    using that uniq [of x] transition_open [OF r(3)] by (auto split: if_splits)
  have key: "aq_transition (?f x) = aq_transition x" for x by simp
  have one: "?f x = ?f y" if "x \<in> set (apd_requests db)" "y \<in> set (apd_requests db)"
    "is_open (aq_status (?f x))" "is_open (aq_status (?f y))" "aq_transition (?f x) = aq_transition (?f y)" for x y
  proof -
    have "x = y" using inv that(1,2) opened [OF that(1,3)] opened [OF that(2,4)] that(5) unfolding tables_inv_def key by blast
    then show ?thesis by (simp only:)
  qed
  have ok: "request_ok sv db' (?f x)" if "x \<in> set (apd_requests db)" for x
  proof (cases "aq_request_id x = rid")
    case True
    then have x: "x = r" using uniq that by blast
    have old: "request_ok sv db r" using inv r(1) by (simp add: tables_inv_def)
    have rec: "recorded rid db' = recorded rid db @ map dn_decision (filter (\<lambda>d. dn_request_id d = rid) ds)"
      by (simp add: recorded_def decs)
    have "decision_pattern st (recorded rid db')"
      using ch old r(2,3) pattern_step [of "aq_status r" "recorded rid db" st] unfolding rec status_change_def request_ok_def
      by (cases "aq_status r") auto
    moreover have "row_hash sv (?f x) = row_hash sv x" by (simp add: row_hash_def)
    moreover have "\<not> approval_terminal (aq_status r)" using transition_open [OF r(3)] by (simp add: open_not_terminal)
    ultimately show ?thesis using old r(2) t(2) by (auto simp: request_ok_def x split: option.splits)
  next
    case False
    then have "recorded (aq_request_id x) db' = recorded (aq_request_id x) db"
      using ch by (auto simp: recorded_def decs status_change_def)
    then show ?thesis using False inv that by (simp add: tables_inv_def request_ok_def)
  qed
  have dids: "distinct (map (\<lambda>d. (dn_request_id d, dn_actor_id d)) (apd_decisions db'))"
    using inv ch by (auto simp: tables_inv_def status_change_def decs)
  have sub: "dn_request_id ` set (apd_decisions db') \<subseteq> aq_request_id ` set (apd_requests db')"
  proof -
    have "aq_request_id ` set (apd_requests db') = aq_request_id ` set (apd_requests db)" using ids by (metis set_map)
    then show ?thesis using inv ch r(1,2) by (auto simp: tables_inv_def status_change_def decs)
  qed
  have elem: "\<exists>x \<in> set (apd_requests db). x' = ?f x" if "x' \<in> set (apd_requests db')" for x'
    using that unfolding reqs set_map by (elim imageE) (rule bexI)
  have one': "x' = y'" if "x' \<in> set (apd_requests db')" "y' \<in> set (apd_requests db')" "is_open (aq_status x')" "is_open (aq_status y')"
    "aq_transition x' = aq_transition y'" for x' y'
    using elem [OF that(1)] elem [OF that(2)] one that(3-5) by blast
  have ok': "request_ok sv db' x'" if "x' \<in> set (apd_requests db')" for x'
    using elem [OF that] ok by blast
  have keys: "distinct (map aq_request_id (apd_requests db'))" using inv ids by (simp add: tables_inv_def)
  show "tables_inv sv db'" unfolding tables_inv_def using keys dids sub one' ok' by blast
qed

lemma change_logged:
  assumes "approvals_ok sv" "approvals_inv sv db" "status_change rid st ds db db3" "audit_inv (as_auditor sv) (apd_audit db3)"
    "ad_events (apd_audit db3) = ad_events (apd_audit db) @ es"
    "approval_audit sv env rid action actor data db3 = Inr db4"
  shows "approvals_inv sv db4" "approvals_extend db db4"
proof -
  have q: "query_one (au_one (as_auditor sv))" using assms(1) by (simp add: approvals_ok_def)
  note a = approval_audit_frame [OF assms(6) q assms(4)]
  have t: "tables_inv sv db" using assms(2) by (simp add: approvals_inv_def)
  note c = status_change_inv [OF t assms(3)]
  show "approvals_inv sv db4" using c(1) a(3) tables_inv_cong [OF a(1,2)] by (simp add: approvals_inv_def)
  have "apd_decisions db4 = apd_decisions db @ ds" using assms(3) a(2) by (simp add: status_change_def)
  then show "approvals_extend db db4"
    unfolding approvals_extend_def using c(2) a(1,4) assms(5) by auto
qed

lemma load_request_Inr:
  assumes "load_request sv rid db = Inr r" "approvals_ok sv"
  shows "r \<in> set (apd_requests db)" "aq_request_id r = rid"
proof -
  have "as_one_request sv (filter (\<lambda>r. aq_request_id r = rid) (apd_requests db)) = Inr (Some r)"
    using assms(1) by (auto simp: load_request_def result_iffs map_sum_Inr_iff split: option.splits)
  then have "filter (\<lambda>r. aq_request_id r = rid) (apd_requests db) = [r]"
    using assms(2) query_one.one_Inr_Some [of "as_one_request sv"] by (simp add: approvals_ok_def)
  then have "r \<in> set (filter (\<lambda>r. aq_request_id r = rid) (apd_requests db))" by simp
  then show "r \<in> set (apd_requests db)" "aq_request_id r = rid" by auto
qed

lemma load_request_found:
  assumes "approvals_ok sv" "tables_inv sv db" "r \<in> set (apd_requests db)"
  shows "load_request sv (aq_request_id r) db = Inr r"
proof -
  have "filter (\<lambda>x. aq_request_id x = aq_request_id r) (apd_requests db) = [r]"
    using assms(2,3) by (intro filter_key_single) (simp_all add: tables_inv_def)
  then show ?thesis
    using assms(1) query_one.one_single [of "as_one_request sv" r] by (simp add: load_request_def approvals_ok_def)
qed

section \<open>Every operation keeps the invariant\<close>

lemma create_request_Inr:
  assumes "create_request sv env k policy rule requestor amt amt_text cur db = Inr (r, db')" "approvals_ok sv" "approvals_inv sv db"
  shows "approvals_inv sv db'" "approvals_extend db db'" "r \<in> set (apd_requests db')" "aq_status r = PENDING" "aq_transition r = k"
    "aq_request_id r = xe_fresh_id env" "xe_fresh_id env \<notin> aq_request_id ` set (apd_requests db)"
    "aq_amount r = amt" "aq_policy_name r = al_policy_name policy" "aq_matched_rule r = Some rule"
proof -
  obtain data db1 where d: "insert_request r db = Inr db1"
    "approval_audit sv env (xe_fresh_id env) APPROVAL_REQUESTED requestor data db1 = Inr db'"
    and req: "r = new_request sv env k policy rule requestor amt cur"
    using assms(1) by (auto simp: create_request_def Let_def result_iffs map_sum_Inr_iff split: if_splits)
  have r: "aq_status r = PENDING" "aq_transition r = k" "aq_request_id r = xe_fresh_id env" "aq_resolved_at r = None"
      "aq_original_request_hash r = Some (row_hash sv r)" "aq_amount r = amt" "aq_policy_name r = al_policy_name policy"
      "aq_matched_rule r = Some rule"
    by (simp_all add: req new_request_def row_hash_def)
  have t: "tables_inv sv db" "audit_inv (as_auditor sv) (apd_audit db)" using assms(3) by (simp_all add: approvals_inv_def)
  note i = insert_request_inv [OF t(1) d(1) r(1,4,5)]
  have q: "query_one (au_one (as_auditor sv))" using assms(2) by (simp add: approvals_ok_def)
  have a1: "audit_inv (as_auditor sv) (apd_audit db1)" using t(2) i(3) by simp
  note a = approval_audit_frame [OF d(2) q a1]
  show "approvals_inv sv db'" using i(1) a(3) tables_inv_cong [OF a(1,2)] by (simp add: approvals_inv_def)
  show "approvals_extend db db'" using i(2,3) a(1,2,4) by (auto simp: approvals_extend_def)
  show "r \<in> set (apd_requests db')" by (simp add: a(1) i(4))
  show "aq_status r = PENDING" "aq_transition r = k" "aq_request_id r = xe_fresh_id env" "aq_amount r = amt"
    "aq_policy_name r = al_policy_name policy" "aq_matched_rule r = Some rule" by (fact r)+
  show "xe_fresh_id env \<notin> aq_request_id ` set (apd_requests db)" using i(5) r(3) by simp
qed

lemma log_drift_frame:
  assumes "log_drift sv env r actor st active db = Inr db'" "query_one (au_one (as_auditor sv))" "audit_inv (as_auditor sv) (apd_audit db)"
  shows "apd_requests db' = apd_requests db" "apd_decisions db' = apd_decisions db" "audit_inv (as_auditor sv) (apd_audit db')"
    "\<exists>es. ad_events (apd_audit db') = ad_events (apd_audit db) @ es"
proof -
  have "apd_requests db' = apd_requests db \<and> apd_decisions db' = apd_decisions db \<and> audit_inv (as_auditor sv) (apd_audit db')
    \<and> (\<exists>es. ad_events (apd_audit db') = ad_events (apd_audit db) @ es)"
  proof (cases "\<exists>p. active = Some p \<and> approval_terminal st \<and> aq_policy_version r < al_version p")
    case True
    then obtain data where a: "approval_audit sv env (aq_request_id r) APPROVAL_POLICY_DRIFT actor data db = Inr db'"
      using assms(1) by (auto simp: log_drift_def)
    show ?thesis using approval_audit_frame [OF a assms(2,3)] by auto
  next
    case False
    then have "db' = db" using assms(1) by (auto simp: log_drift_def split: option.splits if_splits)
    then show ?thesis using assms(3) by simp
  qed
  then show "apd_requests db' = apd_requests db" "apd_decisions db' = apd_decisions db" "audit_inv (as_auditor sv) (apd_audit db')"
    "\<exists>es. ad_events (apd_audit db') = ad_events (apd_audit db) @ es" by blast+
qed

lemma set_status_requests:
  "apd_requests (set_status rid st t db) = map (\<lambda>r. if aq_request_id r = rid
     then r\<lparr>aq_status := st, aq_resolved_at := (case t of None \<Rightarrow> aq_resolved_at r | Some t \<Rightarrow> Some t)\<rparr> else r) (apd_requests db)"
  by (simp add: set_status_def)

lemma set_status_elem:
  assumes "r' \<in> set (apd_requests (set_status rid st t db))" "aq_request_id r' = rid"
  shows "\<exists>x \<in> set (apd_requests db). aq_request_id x = rid \<and> aq_status r' = st \<and> frozen r' = frozen x"
proof -
  obtain x where x: "x \<in> set (apd_requests db)" "r' = (if aq_request_id x = rid
      then x\<lparr>aq_status := st, aq_resolved_at := (case t of None \<Rightarrow> aq_resolved_at x | Some t \<Rightarrow> Some t)\<rparr> else x)"
    using assms(1) unfolding set_status_requests set_map by (elim imageE) blast
  have "aq_request_id x = rid" using assms(2) unfolding x(2) by (simp split: if_splits)
  then show ?thesis using x by (intro bexI [of _ x]) (simp_all add: frozen_def)
qed

lemma record_decision_Inr:
  assumes "record_decision sv env rid actor actor_role decision comment active db = Inr (r', db')" "approvals_ok sv" "approvals_inv sv db"
  shows "approvals_inv sv db'" "approvals_extend db db'" "aq_request_id r' = rid" "r' \<in> set (apd_requests db')"
    "aq_status r' = resolve_new_status decision"
    "\<exists>r \<in> set (apd_requests db). aq_request_id r = rid \<and> is_open (aq_status r) \<and> frozen r' = frozen r"
    "\<exists>d. apd_decisions db' = apd_decisions db @ [d] \<and> dn_request_id d = rid \<and> dn_actor_id d = actor \<and> dn_decision d = decision"
proof -
  define st where "st = resolve_new_status decision"
  define t where "t = (if approval_terminal st then Some (xe_now env) else None)"
  define d where "d = \<lparr>dn_decision_id = xe_fresh_id env, dn_request_id = rid, dn_actor_id = actor, dn_actor_role = actor_role,
     dn_decision = decision, dn_comment = comment, dn_decided_at = xe_now env\<rparr>"
  obtain r db1 db2 data where
    p: "load_request sv rid db = Inr r" "st \<in> set (approval_transitions (aq_status r))" "insert_decision d db = Inr db1"
       "log_drift sv env r actor st active db1 = Inr db2"
       "approval_audit sv env rid (decision_action st) actor data (set_status rid st t db2) = Inr db'"
       "load_request sv rid db' = Inr r'"
    using assms(1) by (auto simp: record_decision_def Let_def result_iffs map_sum_Inr_iff st_def t_def d_def split: if_splits)
  note lr = load_request_Inr [OF p(1) assms(2)]
  have db1: "db1 = db\<lparr>apd_decisions := apd_decisions db @ [d]\<rparr>"
    and new: "\<forall>x \<in> set (apd_decisions db). \<not> (dn_request_id x = rid \<and> dn_actor_id x = actor)"
    using p(3) by (auto simp: insert_decision_def list_ex_iff d_def split: if_splits)
  have q: "query_one (au_one (as_auditor sv))" using assms(2) by (simp add: approvals_ok_def)
  have au: "audit_inv (as_auditor sv) (apd_audit db1)" using assms(3) by (simp add: approvals_inv_def db1)
  note dr = log_drift_frame [OF p(4) q au]
  let ?db3 = "set_status rid st t db2"
  have ch: "status_change rid st [d] db ?db3"
  proof (rule status_changeI [OF lr p(2)])
    show "apd_requests ?db3 = apd_requests (set_status rid st t db)" "apd_decisions ?db3 = apd_decisions db @ [d]"
      using dr(1,2) by (simp_all add: set_status_def db1)
    show "approval_terminal st \<longleftrightarrow> t \<noteq> None" by (simp add: t_def)
  qed (use new in \<open>simp add: d_def st_def\<close>)
  have au3: "audit_inv (as_auditor sv) (apd_audit ?db3)" using dr(3) by (simp add: set_status_def)
  obtain es where es: "ad_events (apd_audit ?db3) = ad_events (apd_audit db) @ es"
    using dr(4) by (auto simp: set_status_def db1)
  note cl = change_logged [OF assms(2,3) ch au3 es p(5)]
  show "approvals_inv sv db'" "approvals_extend db db'" by (fact cl)+
  note lr' = load_request_Inr [OF p(6) assms(2)]
  show "aq_request_id r' = rid" "r' \<in> set (apd_requests db')" by (fact lr')+
  have "apd_requests db' = apd_requests ?db3" "apd_decisions db' = apd_decisions ?db3"
    using approval_audit_frame [OF p(5) q au3] by blast+
  then have reqs: "apd_requests db' = apd_requests (set_status rid st t db)" and "apd_decisions db' = apd_decisions db @ [d]"
    using dr(1,2) by (simp_all add: set_status_def db1)
  then show "\<exists>d. apd_decisions db' = apd_decisions db @ [d] \<and> dn_request_id d = rid \<and> dn_actor_id d = actor \<and> dn_decision d = decision"
    by (auto simp: d_def)
  have "r' \<in> set (apd_requests (set_status rid st t db))" using lr'(1) reqs by simp
  then obtain x where x: "x \<in> set (apd_requests db)" "aq_request_id x = rid" "aq_status r' = st" "frozen r' = frozen x"
    using set_status_elem lr'(2) by blast
  show "aq_status r' = resolve_new_status decision" using x(3) by (simp add: st_def)
  have "x = r" using assms(3) x(1,2) lr by (auto simp: approvals_inv_def tables_inv_def distinct_map dest: inj_onD)
  then show "\<exists>r \<in> set (apd_requests db). aq_request_id r = rid \<and> is_open (aq_status r) \<and> frozen r' = frozen r"
    using x transition_open [OF p(2)] by auto
qed

text \<open>A request is moved without a decision: by the clock, by its requestor, or by its amount.\<close>

lemma plain_change:
  assumes "approvals_ok sv" "approvals_inv sv db" "r \<in> set (apd_requests db)"
    "st \<in> set (approval_transitions (aq_status r))" "st \<in> {EXPIRED, CANCELLED, AUTO_APPROVED}"
    "approval_audit sv env (aq_request_id r) action actor data (set_status (aq_request_id r) st (Some t) db) = Inr db'"
  shows "approvals_inv sv db'" "approvals_extend db db'"
    "apd_requests db' = apd_requests (set_status (aq_request_id r) st (Some t) db)"
proof -
  let ?db3 = "set_status (aq_request_id r) st (Some t) db"
  have ch: "status_change (aq_request_id r) st [] db ?db3"
    by (rule status_changeI [OF assms(3) refl assms(4) refl]) (use assms(5) in \<open>auto simp: set_status_def approval_terminal_def\<close>)
  have au: "audit_inv (as_auditor sv) (apd_audit ?db3)" using assms(2) by (simp add: approvals_inv_def set_status_def)
  have es: "ad_events (apd_audit ?db3) = ad_events (apd_audit db) @ []" by (simp add: set_status_def)
  show "approvals_inv sv db'" "approvals_extend db db'" by (fact change_logged [OF assms(1,2) ch au es assms(6)])+
  show "apd_requests db' = apd_requests ?db3"
    using approval_audit_frame [OF assms(6) _ au] assms(1) by (simp add: approvals_ok_def)
qed

lemma cancel_request_Inr:
  assumes "cancel_request sv env rid actor db = Inr (r', db')" "approvals_ok sv" "approvals_inv sv db"
  shows "approvals_inv sv db'" "approvals_extend db db'"
proof -
  obtain r data where p: "load_request sv rid db = Inr r" "CANCELLED \<in> set (approval_transitions (aq_status r))"
    "approval_audit sv env rid APPROVAL_CANCELLED actor data (set_status rid CANCELLED (Some (xe_now env)) db) = Inr db'"
    using assms(1) by (auto simp: cancel_request_def Let_def result_iffs split: if_splits)
  note lr = load_request_Inr [OF p(1) assms(2)]
  show "approvals_inv sv db'" "approvals_extend db db'"
    using plain_change [OF assms(2,3) lr(1) p(2) _ p(3) [folded lr(2)]] by simp_all
qed

lemma expire_each_inv:
  assumes "approvals_ok sv" "approvals_inv sv db" "expire_each sv env as_of timeout rs db = Inr db'"
    "distinct (map aq_request_id rs)" "set rs \<subseteq> set (apd_requests db)" "\<forall>r \<in> set rs. is_open (aq_status r)"
  shows "approvals_inv sv db' \<and> approvals_extend db db'"
  using assms(2-)
proof (induction rs arbitrary: db)
  case Nil
  then show ?case by (simp add: approvals_extend_refl)
next
  case (Cons r rs)
  obtain data db1 where p: "approval_audit sv env (aq_request_id r) APPROVAL_EXPIRED (aq_requestor_id r) data
      (set_status (aq_request_id r) EXPIRED (Some as_of) db) = Inr db1" "expire_each sv env as_of timeout rs db1 = Inr db'"
    using Cons.prems(2) by (auto simp: result_iffs)
  have r: "r \<in> set (apd_requests db)" "EXPIRED \<in> set (approval_transitions (aq_status r))"
    using Cons.prems(4,5) by (auto simp: is_open_def)
  have "EXPIRED \<in> {EXPIRED, CANCELLED, AUTO_APPROVED}" by simp
  note pc = plain_change [OF assms(1) Cons.prems(1) r this p(1)]
  have sub: "set rs \<subseteq> set (apd_requests db1)"
  proof
    fix x assume x: "x \<in> set rs"
    then have "aq_request_id x \<in> aq_request_id ` set rs" "x \<in> set (apd_requests db)" using Cons.prems(4) by auto
    moreover from this have "aq_request_id x \<noteq> aq_request_id r" using Cons.prems(3) by auto
    ultimately show "x \<in> set (apd_requests db1)" unfolding pc(3) by (simp only: set_status_requests set_map) (rule image_eqI [of _ _ x], simp_all)
  qed
  show ?case
    using Cons.IH [OF pc(1) p(2) _ sub] Cons.prems(3,5) approvals_extend_trans [OF pc(2)] by auto
qed

lemma expire_stale_requests_Inr:
  assumes "expire_stale_requests sv env as_of timeout db = Inr (ids, db')" "approvals_ok sv" "approvals_inv sv db"
  shows "approvals_inv sv db'" "approvals_extend db db'"
proof -
  let ?stale = "filter (\<lambda>r. is_open (aq_status r) \<and> aq_created_at r < as_of - timeout * hour) (apd_requests db)"
  have e: "expire_each sv env as_of timeout ?stale db = Inr db'"
    using assms(1) by (auto simp: expire_stale_requests_def Let_def result_iffs)
  have "distinct (map aq_request_id ?stale)"
    using assms(3) by (simp add: approvals_inv_def tables_inv_def distinct_map_filter)
  moreover have "set ?stale \<subseteq> set (apd_requests db)" "\<forall>r \<in> set ?stale. is_open (aq_status r)" by simp_all
  ultimately have "approvals_inv sv db' \<and> approvals_extend db db'" by (rule expire_each_inv [OF assms(2,3) e])
  then show "approvals_inv sv db'" "approvals_extend db db'" by simp_all
qed

lemma auto_approval_Inr:
  assumes "record_auto_approval sv env rid rule thr amt_text policy actor db = Inr (r', db')" "approvals_ok sv" "approvals_inv sv db"
    "r \<in> set (apd_requests db)" "aq_request_id r = rid" "aq_status r = PENDING"
  shows "approvals_inv sv db'" "approvals_extend db db'"
proof -
  obtain data where p: "approval_audit sv env rid APPROVAL_AUTO_APPROVED actor data
      (set_status rid AUTO_APPROVED (Some (xe_now env)) db) = Inr db'"
    using assms(1) unfolding record_auto_approval_def Let_def rbind_eq_Inr rmap_eq_Inr by blast
  have "AUTO_APPROVED \<in> set (approval_transitions (aq_status r))" by (simp add: assms(6))
  from plain_change [OF assms(2,3,4) this _ p [folded assms(5)]]
  show "approvals_inv sv db'" "approvals_extend db db'" by simp_all
qed

lemma override_tables:
  assumes inv: "tables_inv sv db" and reqs: "apd_requests db' = apd_requests (set_status rid AUTO_APPROVED (Some t) db)"
    and decs: "apd_decisions db' = apd_decisions db"
  shows "tables_inv sv db'"
    "r \<in> set (apd_requests db) \<Longrightarrow> \<exists>r' \<in> set (apd_requests db'). frozen r' = frozen r \<and> (r' = r \<or> aq_status r' = AUTO_APPROVED)"
proof -
  let ?f = "\<lambda>x. if aq_request_id x = rid then x\<lparr>aq_status := AUTO_APPROVED, aq_resolved_at := Some t\<rparr> else x"
  have img: "apd_requests db' = map ?f (apd_requests db)" by (simp add: reqs set_status_def cong: if_cong)
  have fz: "frozen (?f x) = frozen x" for x by (simp add: frozen_def)
  show "\<exists>r' \<in> set (apd_requests db'). frozen r' = frozen r \<and> (r' = r \<or> aq_status r' = AUTO_APPROVED)"
    if "r \<in> set (apd_requests db)"
  proof -
    have "?f r \<in> set (apd_requests db')" unfolding img set_map using that by (rule imageI)
    then show ?thesis using fz by (intro bexI [of _ "?f r"]) simp_all
  qed
  have ids: "map aq_request_id (apd_requests db') = map aq_request_id (apd_requests db)" by (simp add: img comp_def cong: if_cong)
  have elem: "\<exists>x \<in> set (apd_requests db). x' = ?f x" if "x' \<in> set (apd_requests db')" for x'
    using that unfolding img set_map by (elim imageE) (rule bexI)
  have opened: "?f x = x" if "is_open (aq_status (?f x))" for x
    using that by (auto simp: is_open_def split: if_splits)
  have one: "x' = y'" if o: "x' \<in> set (apd_requests db')" "y' \<in> set (apd_requests db')" "is_open (aq_status x')" "is_open (aq_status y')"
    "aq_transition x' = aq_transition y'" for x' y'
  proof -
    obtain x where x: "x \<in> set (apd_requests db)" "x' = ?f x" using elem [OF o(1)] by (rule bexE)
    obtain y where y: "y \<in> set (apd_requests db)" "y' = ?f y" using elem [OF o(2)] by (rule bexE)
    have "x' = x" "y' = y" using opened o(3,4) unfolding x(2) y(2) by blast+
    then show ?thesis using inv x(1) y(1) o(3-5) unfolding tables_inv_def by blast
  qed
  have ok: "request_ok sv db' x'" if x': "x' \<in> set (apd_requests db')" for x'
  proof -
    obtain x where x: "x \<in> set (apd_requests db)" "x' = ?f x" using elem [OF x'] by (rule bexE)
    have old: "request_ok sv db x" using inv x(1) by (simp add: tables_inv_def)
    have "recorded (aq_request_id x) db' = recorded (aq_request_id x) db" by (simp add: recorded_def decs)
    moreover have "decision_pattern AUTO_APPROVED (recorded (aq_request_id x) db)"
      using old pattern_auto unfolding request_ok_def by blast
    moreover have "approval_terminal AUTO_APPROVED" by (simp add: approval_terminal_def)
    ultimately show ?thesis using old unfolding x(2)
      by (auto simp: request_ok_def row_hash_def simp del: decision_pattern.simps)
  qed
  have "aq_request_id ` set (apd_requests db') = aq_request_id ` set (apd_requests db)" using ids by (metis set_map)
  then show "tables_inv sv db'" using inv ids one ok unfolding tables_inv_def decs by (simp (no_asm_simp))
qed

lemma override_Inr:
  assumes "record_auto_approval sv env rid rule thr amt_text policy actor db = Inr (r', db')" "approvals_ok sv" "approvals_inv sv db"
  shows "approvals_inv sv db'" "apd_decisions db' = apd_decisions db" "\<exists>es. ad_events (apd_audit db') = ad_events (apd_audit db) @ es"
    "r \<in> set (apd_requests db) \<Longrightarrow> \<exists>r' \<in> set (apd_requests db'). frozen r' = frozen r \<and> (r' = r \<or> aq_status r' = AUTO_APPROVED)"
proof -
  obtain data where p: "approval_audit sv env rid APPROVAL_AUTO_APPROVED actor data
      (set_status rid AUTO_APPROVED (Some (xe_now env)) db) = Inr db'"
    using assms(1) unfolding record_auto_approval_def Let_def rbind_eq_Inr rmap_eq_Inr by blast
  have au: "audit_inv (as_auditor sv) (apd_audit (set_status rid AUTO_APPROVED (Some (xe_now env)) db))"
    using assms(3) by (simp add: approvals_inv_def set_status_def)
  have q: "query_one (au_one (as_auditor sv))" using assms(2) by (simp add: approvals_ok_def)
  note a = approval_audit_frame [OF p q au]
  have t: "tables_inv sv db" using assms(3) by (simp add: approvals_inv_def)
  show d: "apd_decisions db' = apd_decisions db" using a(2) by (simp add: set_status_def)
  note o = override_tables [OF t a(1) d]
  show "approvals_inv sv db'" using o(1) a(3) by (simp add: approvals_inv_def)
  show "\<exists>es. ad_events (apd_audit db') = ad_events (apd_audit db) @ es" using a(4) by (auto simp: set_status_def)
  show "\<exists>r' \<in> set (apd_requests db'). frozen r' = frozen r \<and> (r' = r \<or> aq_status r' = AUTO_APPROVED)"
    if "r \<in> set (apd_requests db)" using o(2) that by blast
qed

section \<open>Runs\<close>

text \<open>
  What can happen to the tables: every operation of the service. Auto-approval appears twice: in the call that creates the
  request, which is how the workflow executor uses it, and, in the runs whose flag is True, on its own on any
  request, as \<open>record_auto_approval\<close> is public and looks at no status.
\<close>

inductive approval_step :: "approval_service \<Rightarrow> bool \<Rightarrow> approval_db \<Rightarrow> approval_db \<Rightarrow> bool" for sv alone where
  a_create: "create_request sv env k policy rule requestor amt amt_text cur db = Inr (r, db') \<Longrightarrow> approval_step sv alone db db'"
| a_auto: "create_request sv env k policy rule requestor amt amt_text cur db = Inr (r, db1) \<Longrightarrow>
     record_auto_approval sv env' (aq_request_id r) rule thr eval_text policy actor db1 = Inr (r', db') \<Longrightarrow> approval_step sv alone db db'"
| a_decide: "record_decision sv env rid actor actor_role decision comment active db = Inr (r', db') \<Longrightarrow> approval_step sv alone db db'"
| a_cancel: "cancel_request sv env rid actor db = Inr (r', db') \<Longrightarrow> approval_step sv alone db db'"
| a_expire: "expire_stale_requests sv env as_of timeout db = Inr (ids, db') \<Longrightarrow> approval_step sv alone db db'"
| a_override: "alone \<Longrightarrow> record_auto_approval sv env rid rule thr eval_text policy actor db = Inr (r', db') \<Longrightarrow> approval_step sv alone db db'"

text \<open>How a run changes the tables.\<close>

definition approvals_grow :: "bool \<Rightarrow> approval_db \<Rightarrow> approval_db \<Rightarrow> bool" where
  "approvals_grow alone db db' \<longleftrightarrow>
     (\<forall>r \<in> set (apd_requests db). \<exists>r' \<in> set (apd_requests db'). frozen r' = frozen r
        \<and> (approval_terminal (aq_status r) \<longrightarrow> r' = r \<or> alone \<and> aq_status r' = AUTO_APPROVED))
     \<and> (\<exists>ds. apd_decisions db' = apd_decisions db @ ds)
     \<and> (\<exists>es. ad_events (apd_audit db') = ad_events (apd_audit db) @ es)"

lemma extend_grow: "approvals_extend db db' \<Longrightarrow> approvals_grow alone db db'"
  unfolding approvals_extend_def approvals_grow_def by blast

lemma approvals_grow_trans:
  assumes "approvals_grow alone a b" "approvals_grow alone b c"
  shows "approvals_grow alone a c"
  unfolding approvals_grow_def
proof (intro conjI ballI)
  fix r assume "r \<in> set (apd_requests a)"
  then obtain r1 where r1: "r1 \<in> set (apd_requests b)" "frozen r1 = frozen r"
    "approval_terminal (aq_status r) \<longrightarrow> r1 = r \<or> alone \<and> aq_status r1 = AUTO_APPROVED"
    using assms(1) by (auto simp: approvals_grow_def)
  then obtain r2 where r2: "r2 \<in> set (apd_requests c)" "frozen r2 = frozen r1"
    "approval_terminal (aq_status r1) \<longrightarrow> r2 = r1 \<or> alone \<and> aq_status r2 = AUTO_APPROVED"
    using assms(2) by (auto simp: approvals_grow_def)
  have "approval_terminal AUTO_APPROVED" by (simp add: approval_terminal_def)
  then show "\<exists>r' \<in> set (apd_requests c). frozen r' = frozen r
      \<and> (approval_terminal (aq_status r) \<longrightarrow> r' = r \<or> alone \<and> aq_status r' = AUTO_APPROVED)"
    using r1 r2 by (intro bexI [of _ r2]) auto
next
  show "\<exists>ds. apd_decisions c = apd_decisions a @ ds" "\<exists>es. ad_events (apd_audit c) = ad_events (apd_audit a) @ es"
    using assms by (auto simp: approvals_grow_def)
qed

lemma approval_step_inv:
  assumes "approval_step sv alone db db'" "approvals_ok sv" "approvals_inv sv db"
  shows "approvals_inv sv db' \<and> approvals_grow alone db db'"
  using assms(1)
proof cases
  case (a_auto env k policy rule requestor amt amt_text cur r db1 env' thr eval_text actor r')
  note c = create_request_Inr [OF a_auto(1) assms(2,3)]
  note a = auto_approval_Inr [OF a_auto(2) assms(2) c(1,3) refl c(4)]
  show ?thesis using a approvals_extend_trans [OF c(2) a(2)] by (simp add: extend_grow)
next
  case a_create
  from create_request_Inr [OF this assms(2,3)] show ?thesis by (blast intro: extend_grow)
next
  case a_decide
  from record_decision_Inr [OF this assms(2,3)] show ?thesis by (blast intro: extend_grow)
next
  case a_cancel
  from cancel_request_Inr [OF this assms(2,3)] show ?thesis by (blast intro: extend_grow)
next
  case a_expire
  from expire_stale_requests_Inr [OF this assms(2,3)] show ?thesis by (blast intro: extend_grow)
next
  case (a_override env rid rule thr eval_text policy actor r')
  note o = override_Inr [OF a_override(2) assms(2,3)]
  have "approvals_grow alone db db'" unfolding approvals_grow_def using o(2,3,4) a_override(1) by (simp (no_asm_simp)) blast
  then show ?thesis using o(1) by simp
qed

lemma approval_steps_inv:
  assumes "(approval_step sv alone)\<^sup>*\<^sup>* db db'" "approvals_ok sv" "approvals_inv sv db"
  shows "approvals_inv sv db' \<and> approvals_grow alone db db'"
  using assms(1)
proof (induction rule: rtranclp_induct)
  case base
  then show ?case using assms(3) by (simp add: approvals_extend_refl extend_grow)
next
  case (step a b)
  then show ?case using approval_step_inv [OF step(2) assms(2)] approvals_grow_trans by blast
qed

section \<open>Properties\<close>

lemma count_map: "count (mset (map f xs)) x = length (filter (\<lambda>y. f y = x) xs)"
  by (induction xs) auto

text \<open>
  Property C28. The lifecycle of approval requests (AL-1, AL-2, AL-7, AL-8, AL-10). Whatever operations of the service run,
  requests never disappear, their columns but status and resolution time never change, decisions and audit
  records are only added; one actor decides once on a request, a transition has at most one open request, and every
  request loads with its tamper-evidence hash intact. A resolved request never changes at all, with one exception: in
  runs (\<open>alone\<close>) that call the public \<open>record_auto_approval\<close> outside the creation of a request, that call makes a request of
  any status AUTO\_APPROVED (\<open>auto_approval_overrides\<close>); in the sources only the workflow executor calls it, right after \<open>create_request\<close>.
\<close>

theorem approval_lifecycle:
  assumes "approvals_ok sv" "approvals_inv sv db" "(approval_step sv alone)\<^sup>*\<^sup>* db db'"
  shows "(\<forall>r \<in> set (apd_requests db). \<exists>r' \<in> set (apd_requests db'). frozen r' = frozen r
         \<and> (approval_terminal (aq_status r) \<longrightarrow> r' = r \<or> alone \<and> aq_status r' = AUTO_APPROVED))
    \<and> (\<exists>ds. apd_decisions db' = apd_decisions db @ ds) \<and> (\<exists>es. ad_events (apd_audit db') = ad_events (apd_audit db) @ es)
    \<and> distinct (map (\<lambda>d. (dn_request_id d, dn_actor_id d)) (apd_decisions db'))
    \<and> (\<forall>r \<in> set (apd_requests db'). \<forall>r' \<in> set (apd_requests db').
         is_open (aq_status r) \<and> is_open (aq_status r') \<and> aq_transition r = aq_transition r' \<longrightarrow> r = r')
    \<and> (\<forall>r \<in> set (apd_requests db'). get_request sv env (aq_request_id r) db' = Inr r)
    \<and> validate_chain (as_auditor sv) (apd_audit db') = Inr True"
proof -
  have i: "approvals_inv sv db'" "approvals_grow alone db db'" using approval_steps_inv [OF assms(3,1,2)] by simp_all
  then have t: "tables_inv sv db'" by (simp add: approvals_inv_def)
  have "get_request sv env (aq_request_id r) db' = Inr r" if "r \<in> set (apd_requests db')" for r
    using load_request_found [OF assms(1) t that] t that by (simp add: get_request_def tables_inv_def request_ok_def)
  moreover have "validate_chain (as_auditor sv) (apd_audit db') = Inr True"
  proof -
    have "audit_inv (as_auditor sv) (apd_audit db')" using i(1) by (simp add: approvals_inv_def)
    then show ?thesis by (simp add: validate_chain_iff sorted_events) (simp add: audit_inv_def)
  qed
  ultimately show ?thesis using i(2) t unfolding approvals_grow_def tables_inv_def by blast
qed

text \<open>
  One approval decides, whatever the rule demands: an APPROVED request has one APPROVE, a request with one is APPROVED
  (or overridden to AUTO\_APPROVED), no request ever collects two, and so the engine's own count of approvals (\<open>evaluate_approval_status\<close>,
  AL-9, which the services never call) never grants a rule that requires two approvers.
\<close>

theorem single_approval_decides:
  assumes "approvals_ok sv" "approvals_inv sv db" "(approval_step sv alone)\<^sup>*\<^sup>* db db'" "r \<in> set (apd_requests db')"
  shows "(aq_status r = APPROVED \<longrightarrow> (\<exists>d \<in> set (decisions_of (aq_request_id r) db'). dn_decision d = APPROVE))
    \<and> ((\<exists>d \<in> set (decisions_of (aq_request_id r) db'). dn_decision d = APPROVE) \<longrightarrow> aq_status r \<in> {APPROVED, AUTO_APPROVED})
    \<and> length (filter (\<lambda>d. dn_decision d = APPROVE) (decisions_of (aq_request_id r) db')) \<le> 1
    \<and> (2 \<le> ar_min_approvers rule \<longrightarrow> \<not> evn_is_approved (evaluate_approval_status rule (decisions_of (aq_request_id r) db')))"
proof -
  let ?ds = "decisions_of (aq_request_id r) db'"
  have "approvals_inv sv db'" using approval_steps_inv [OF assms(3,1,2)] by simp
  then have pat: "decision_pattern (aq_status r) (recorded (aq_request_id r) db')"
    using assms(4) by (simp add: approvals_inv_def tables_inv_def request_ok_def)
  have same: "mset (map dn_decision ?ds) = mset (recorded (aq_request_id r) db')"
    by (simp add: decisions_of_def recorded_def)
  have num: "length (filter (\<lambda>d. dn_decision d = APPROVE) ?ds) = count (mset (recorded (aq_request_id r) db')) APPROVE"
    unfolding same [symmetric] by (rule count_map [symmetric])
  have has: "(\<exists>d \<in> set ?ds. dn_decision d = APPROVE) \<longleftrightarrow> APPROVE \<in># mset (recorded (aq_request_id r) db')"
    unfolding same [symmetric] by simp (metis imageE image_eqI)
  have "(aq_status r = APPROVED \<longrightarrow> APPROVE \<in># mset (recorded (aq_request_id r) db'))
      \<and> (APPROVE \<in># mset (recorded (aq_request_id r) db') \<longrightarrow> aq_status r \<in> {APPROVED, AUTO_APPROVED})
      \<and> count (mset (recorded (aq_request_id r) db')) APPROVE \<le> 1"
    using pat by (cases "aq_status r") auto
  moreover have "\<not> evn_is_approved (evaluate_approval_status rule ?ds)"
    if "2 \<le> ar_min_approvers rule" "length (filter (\<lambda>d. dn_decision d = APPROVE) ?ds) \<le> 1"
    using that approval_count_le [of rule ?ds] by (simp add: evaluate_approval_status_def no_approval_def)
  ultimately show ?thesis using num has by auto
qed

text \<open>Auto-approval looks at no status: it also overrides a rejection.\<close>

lemma auto_approval_overrides:
  assumes "record_auto_approval sv env rid rule thr amt_text policy actor db = Inr (r', db')" "approvals_ok sv" "approvals_inv sv db"
  shows "aq_status r' = AUTO_APPROVED \<and> r' \<in> set (apd_requests db') \<and> (\<exists>r \<in> set (apd_requests db). aq_request_id r = rid \<and> frozen r' = frozen r)"
proof -
  obtain data where p: "approval_audit sv env rid APPROVAL_AUTO_APPROVED actor data
      (set_status rid AUTO_APPROVED (Some (xe_now env)) db) = Inr db'" "load_request sv rid db' = Inr r'"
    using assms(1) unfolding record_auto_approval_def Let_def rbind_eq_Inr rmap_eq_Inr by blast
  have au: "audit_inv (as_auditor sv) (apd_audit (set_status rid AUTO_APPROVED (Some (xe_now env)) db))"
    using assms(3) by (simp add: approvals_inv_def set_status_def)
  have "query_one (au_one (as_auditor sv))" using assms(2) by (simp add: approvals_ok_def)
  from approval_audit_frame [OF p(1) this au] load_request_Inr [OF p(2) assms(2)]
  have "r' \<in> set (apd_requests (set_status rid AUTO_APPROVED (Some (xe_now env)) db))" "aq_request_id r' = rid" by simp_all
  from set_status_elem [OF this] load_request_Inr(1) [OF p(2) assms(2)] show ?thesis by blast
qed

section \<open>A request approved by one of two\<close>

definition demo_approvals :: approval_service where
  "demo_approvals = \<lparr>as_one_request = scalar_one_or_none, as_one_decision = scalar_one_or_none, as_auditor = demo_auditor\<rparr>"

definition demo_approval_env :: "uuid \<Rightarrow> approval_env" where
  "demo_approval_env i = \<lparr>xe_now = 5, xe_fresh_id = i, xe_audit = \<lparr>av_now = 5, av_race = None\<rparr>\<rparr>"

definition demo_transition :: transition_key where
  "demo_transition = \<lparr>tk_workflow_name = ''w'', tk_entity_type = ''Invoice'', tk_entity_id = 3, tk_transition_action = ''a'',
     tk_from_state = ''s'', tk_to_state = ''t''\<rparr>"

definition demo_approval_policy :: approval_policy where
  "demo_approval_policy = \<lparr>al_policy_name = ''p'', al_version = 1, al_applies_to_workflow = ''w'', al_applies_to_action = None,
     al_rules = [demo_rule ''r'' 1 None], al_effective_from = None, al_effective_to = None, al_policy_currency = None, al_policy_hash = None\<rparr>"

definition no_approvals :: approval_db where
  "no_approvals = \<lparr>apd_requests = [], apd_decisions = [], apd_audit = empty_audit\<rparr>"

definition demo_requested :: "approval_exc + approval_request \<times> approval_db" where
  "demo_requested = create_request demo_approvals (demo_approval_env 1) demo_transition demo_approval_policy ''r'' 9 None [] ''USD'' no_approvals"

definition demo_approved :: "approval_exc + approval_request \<times> approval_db" where
  "demo_approved = rbind demo_requested (\<lambda>(r, db). record_decision demo_approvals (demo_approval_env 2) 1 8 ''clerk'' APPROVE [] None db)"

lemma demo_approved_status: "map_sum id (aq_status \<circ> fst) demo_approved = Inr APPROVED"
  by code_simp

lemma demo_approvals_ok: "approvals_ok demo_approvals" "approvals_inv demo_approvals no_approvals"
  by (simp_all add: approvals_ok_def demo_approvals_def soon.query_one_axioms demo_audit_query approvals_inv_def tables_inv_def
      no_approvals_def audit_inv_empty)

lemma demo_approval_run:
  obtains r db where "demo_approved = Inr (r, db)" "aq_status r = APPROVED" "r \<in> set (apd_requests db)"
    "(approval_step demo_approvals False)\<^sup>*\<^sup>* no_approvals db"
proof -
  obtain r db where a: "demo_approved = Inr (r, db)" "aq_status r = APPROVED"
    using map_sum_status [OF demo_approved_status] by blast
  then obtain r1 db1 where p: "demo_requested = Inr (r1, db1)"
    "record_decision demo_approvals (demo_approval_env 2) 1 8 ''clerk'' APPROVE [] None db1 = Inr (r, db)"
    unfolding demo_approved_def rbind_eq_Inr by auto
  have s: "approval_step demo_approvals False no_approvals db1" "approval_step demo_approvals False db1 db"
    by (rule a_create [OF p(1) [unfolded demo_requested_def]], rule a_decide [OF p(2)])
  then have run: "(approval_step demo_approvals False)\<^sup>*\<^sup>* no_approvals db" by (meson rtranclp.simps)
  have "approvals_inv demo_approvals db1" using approval_step_inv [OF s(1) demo_approvals_ok] by simp
  then have "r \<in> set (apd_requests db)" using record_decision_Inr(4) [OF p(2) demo_approvals_ok(1)] by simp
  then show ?thesis by (rule that [OF a _ run])
qed

theorem approval_lifecycle_witness:
  "\<exists>r db. demo_approved = Inr (r, db) \<and> get_request demo_approvals (demo_approval_env 3) (aq_request_id r) db = Inr r"
proof -
  obtain r db where a: "demo_approved = Inr (r, db)" "r \<in> set (apd_requests db)" "(approval_step demo_approvals False)\<^sup>*\<^sup>* no_approvals db"
    by (rule demo_approval_run)
  from approval_lifecycle [OF demo_approvals_ok a(3)] a(1,2) show ?thesis by blast
qed

theorem single_approval_decides_witness:
  "\<exists>r db. demo_approved = Inr (r, db) \<and> aq_status r = APPROVED
     \<and> \<not> evn_is_approved (evaluate_approval_status (demo_rule ''r'' 1 None) (decisions_of (aq_request_id r) db))"
proof -
  obtain r db where a: "demo_approved = Inr (r, db)" "aq_status r = APPROVED" "r \<in> set (apd_requests db)"
    "(approval_step demo_approvals False)\<^sup>*\<^sup>* no_approvals db"
    by (rule demo_approval_run)
  have "2 \<le> ar_min_approvers (demo_rule ''r'' 1 None)" by (simp add: demo_rule_def)
  then show ?thesis using single_approval_decides [OF demo_approvals_ok a(4,3), of "demo_rule ''r'' 1 None"] a(1,2) by blast
qed

end
