(* ===== verification/Workflow_Executor.thy ===== *)
theory Workflow_Executor
  imports Approval_Service
begin

text \<open>
  \<open>finance_services/workflow_executor.py\<close>, \<open>finance_services/rbac_authority.py\<close> and \<open>finance_kernel/domain/workflow.py\<close>:
  workflows, the guards of their transitions, role checks, and the executor that lets a transition pass, asks
  for approval, or records a decision.

  A guard's context is a dict as in \<open>Approval_Rules\<close>. Reasons and trace records are not modelled, only the result; what RBAC
  denies is a datatype. The text of a decimal shows its exponent, which the model's decimals do not have: it is a
  field of the executor.

  The lemmas show what a transition that passes has passed, that the executor only takes steps of the approval
  service, and that an approval is not bound to the transition it was given for.
\<close>

section \<open>Workflows\<close>

record workflow_guard =
  wg_name :: string
  wg_description :: string

record approval_policy_ref =
  pf_policy_name :: string
  pf_min_version :: "int option"

record workflow_transition =
  wt_from_state :: string
  wt_to_state :: string
  wt_action :: string
  wt_guard :: "workflow_guard option"
  wt_posts_entry :: bool
  wt_requires_approval :: bool
  wt_approval_policy :: "approval_policy_ref option"

record workflow =
  wf_name :: string
  wf_description :: string
  wf_initial_state :: string
  wf_states :: "string list"
  wf_transitions :: "workflow_transition list"
  wf_terminal_states :: "string list"

record transition_result =
  tn_success :: bool
  tn_new_state :: "string option"
  tn_approval_required :: bool
  tn_approval_request_id :: "uuid option"
  tn_posts_entry :: bool

section \<open>Guards\<close>

definition get_attr :: "ctx \<Rightarrow> string \<Rightarrow> cval \<Rightarrow> cval" where
  "get_attr c key dflt = (case map_of c key of None \<Rightarrow> dflt | Some v \<Rightarrow> v)"

definition or_invalid :: "'a option \<Rightarrow> py_exc + 'a" where
  "or_invalid m = (case m of None \<Rightarrow> Inl InvalidOperation | Some x \<Rightarrow> Inr x)"

text \<open>\<open>Decimal(str(x))\<close>, or \<open>x\<close> itself when it is a Decimal.\<close>

definition to_decimal :: "cval \<Rightarrow> py_exc + py_decimal" where
  "to_decimal v = or_invalid (case v of
     CDec d \<Rightarrow> Some (Finite d) | CInt i \<Rightarrow> Some (Finite (of_int i)) | CStr s \<Rightarrow> decimal_of_str s | _ \<Rightarrow> None)"

definition two_decimals :: "ctx \<Rightarrow> string \<Rightarrow> string \<Rightarrow> (py_decimal \<Rightarrow> py_decimal \<Rightarrow> py_exc + bool) \<Rightarrow> py_exc + bool" where
  "two_decimals c k1 k2 f =
     (if get_attr c k1 CNone = CNone \<or> get_attr c k2 CNone = CNone then Inr False
      else rbind (to_decimal (get_attr c k1 CNone)) (\<lambda>x. rbind (to_decimal (get_attr c k2 CNone)) (f x)))"

definition le_guard :: "py_decimal \<Rightarrow> py_decimal \<Rightarrow> py_exc + bool" where
  "le_guard x y = or_invalid (decimal_le x y)"

definition lt_guard :: "py_decimal \<Rightarrow> py_decimal \<Rightarrow> py_exc + bool" where
  "lt_guard x y = or_invalid (map_option Not (decimal_le y x))"

definition and_then :: "py_exc + bool \<Rightarrow> py_exc + bool \<Rightarrow> py_exc + bool" where
  "and_then x y = rbind x (\<lambda>b. if b then y else Inr False)"

text \<open>Addition and subtraction with infinities and NaN; None is InvalidOperation.\<close>

fun py_add :: "py_decimal \<Rightarrow> py_decimal \<Rightarrow> py_decimal option" where
  "py_add (Finite a) (Finite b) = Some (Finite (dadd a b))"
| "py_add (Infinite n) (Finite b) = Some (Infinite n)"
| "py_add (Finite a) (Infinite m) = Some (Infinite m)"
| "py_add (Infinite n) (Infinite m) = (if n = m then Some (Infinite n) else None)"
| "py_add SignalingNaN y = None"
| "py_add x SignalingNaN = None"
| "py_add QuietNaN y = Some QuietNaN"
| "py_add x QuietNaN = Some QuietNaN"

fun py_sub :: "py_decimal \<Rightarrow> py_decimal \<Rightarrow> py_decimal option" where
  "py_sub (Finite a) (Finite b) = Some (Finite (dsub a b))"
| "py_sub x (Infinite m) = py_add x (Infinite (\<not> m))"
| "py_sub x y = py_add x y"

text \<open>\<open>abs(x) / y * 100\<close> for a positive \<open>y\<close>.\<close>

fun percentage :: "py_decimal \<Rightarrow> py_decimal \<Rightarrow> py_exc + py_decimal" where
  "percentage (Finite a) (Finite b) = rmap (\<lambda>q. Finite (dmul q 100)) (ddiv (dabs a) b)"
| "percentage (Infinite n) (Finite b) = Inr (Infinite False)"
| "percentage (Finite a) (Infinite m) = Inr (Finite 0)"
| "percentage (Infinite n) (Infinite m) = Inl InvalidOperation"
| "percentage SignalingNaN y = Inl InvalidOperation"
| "percentage x SignalingNaN = Inl InvalidOperation"
| "percentage QuietNaN y = Inr QuietNaN"
| "percentage x QuietNaN = Inr QuietNaN"

definition within_percent :: "py_decimal \<Rightarrow> py_decimal \<Rightarrow> py_decimal \<Rightarrow> py_exc + bool" where
  "within_percent tol invd po =
     rbind (le_guard po (Finite 0)) (\<lambda>nonpos.
       if nonpos then or_invalid (decimal_eq invd po)
       else rbind (or_invalid (py_sub invd po)) (\<lambda>df. rbind (percentage df po) (\<lambda>v. le_guard v tol)))"

definition match_within_tolerance :: "ctx \<Rightarrow> py_exc + bool" where
  "match_within_tolerance c =
     (if get_attr c ''tolerance_percent'' CNone = CNone then Inr False
      else two_decimals c ''invoice_amount'' ''po_amount''
        (\<lambda>invd po. rbind (to_decimal (get_attr c ''tolerance_percent'' CNone)) (\<lambda>tol. within_percent tol invd po)))"

text \<open>\<open>str(status).lower() in words\<close>: of the values of a context only a text can print as one of the words.\<close>

definition status_in :: "string list \<Rightarrow> string \<Rightarrow> ctx \<Rightarrow> py_exc + bool" where
  "status_in words key c = Inr (case get_attr c key CNone of CStr s \<Rightarrow> lower s \<in> set words | _ \<Rightarrow> False)"

definition flag :: "string \<Rightarrow> ctx \<Rightarrow> py_exc + bool" where
  "flag key c = Inr (ctruthy (get_attr c key (CBool False)))"

definition sufficient_funds :: "ctx \<Rightarrow> py_exc + bool" where
  "sufficient_funds c = two_decimals c ''bank_balance'' ''payment_amount'' (\<lambda>b a. and_then (le_guard a b) (le_guard (Finite 0) a))"

definition budget_available :: "ctx \<Rightarrow> py_exc + bool" where
  "budget_available c = two_decimals c ''requisition_amount'' ''available_budget'' le_guard"

definition fully_received :: "ctx \<Rightarrow> py_exc + bool" where
  "fully_received c = two_decimals c ''quantity_ordered'' ''quantity_received'' (\<lambda>ordered got. and_then (le_guard ordered got) (lt_guard (Finite 0) ordered))"

definition stock_available :: "ctx \<Rightarrow> py_exc + bool" where
  "stock_available c = two_decimals c ''requested_quantity'' ''available_quantity'' (\<lambda>r a. and_then (le_guard r a) (le_guard (Finite 0) a))"

definition calculation_complete :: "ctx \<Rightarrow> py_exc + bool" where
  "calculation_complete c = Inr (\<not> ctruthy (get_attr c ''has_calculation_errors'' (CBool False)))"

definition credit_check_passed :: "ctx \<Rightarrow> py_exc + bool" where
  "credit_check_passed c =
     (let bal = get_attr c ''current_balance'' CNone; amt = get_attr c ''proposed_amount'' CNone; lim = get_attr c ''credit_limit'' CNone
      in if amt = CNone then Inr False
         else if lim = CNone then Inr True
         else rbind (if bal = CNone then Inr (Finite 0) else to_decimal bal) (\<lambda>b.
              rbind (to_decimal amt) (\<lambda>a.
              rbind (to_decimal lim) (\<lambda>l.
              rbind (or_invalid (py_add b a)) (\<lambda>t. le_guard t l)))))"

definition balance_zero :: "ctx \<Rightarrow> py_exc + bool" where
  "balance_zero c =
     (let v = get_attr c ''balance_due'' CNone
      in if v = CNone then Inr False else rbind (to_decimal v) (\<lambda>b. or_invalid (decimal_eq b (Finite 0))))"

definition fully_depreciated :: "ctx \<Rightarrow> py_exc + bool" where
  "fully_depreciated c = two_decimals c ''net_book_value'' ''salvage_value'' le_guard"

definition all_subledgers_closed :: "ctx \<Rightarrow> py_exc + bool" where
  "all_subledgers_closed c =
     Inr (list_all (\<lambda>k. ctruthy (get_attr c k (CBool False))) [''ap_closed'', ''ar_closed'', ''inventory_closed'', ''payroll_closed''])"

text \<open>\<open>(count or 0) == 0\<close>: no true value of a context equals zero.\<close>

definition no_pending_transactions :: "ctx \<Rightarrow> py_exc + bool" where
  "no_pending_transactions c = Inr (\<not> ctruthy (get_attr c ''pending_transaction_count'' (CInt 0)))"

definition trial_balance_balanced :: "ctx \<Rightarrow> py_exc + bool" where
  "trial_balance_balanced c = and_then (all_subledgers_closed c) (no_pending_transactions c)"

type_synonym evaluators = "(string \<times> (ctx \<Rightarrow> py_exc + bool)) list"

definition register_guard :: "string \<Rightarrow> (ctx \<Rightarrow> py_exc + bool) \<Rightarrow> evaluators \<Rightarrow> evaluators" where
  "register_guard nm f evs = (nm, f) # evs"

text \<open>An unknown guard and an evaluator that raises both fail.\<close>

definition evaluate_guard :: "evaluators \<Rightarrow> workflow_guard \<Rightarrow> ctx \<Rightarrow> bool" where
  "evaluate_guard evs g c = (case map_of evs (wg_name g) of None \<Rightarrow> False | Some f \<Rightarrow> (case f c of Inl _ \<Rightarrow> False | Inr b \<Rightarrow> b))"

definition default_guard_executor :: evaluators where
  "default_guard_executor =
     [(''match_within_tolerance'', match_within_tolerance),
      (''payment_approved'', status_in [''approved'', ''approved_for_payment''] ''invoice_status''),
      (''approval_threshold_met'', \<lambda>c. Inr True),
      (''sufficient_funds'', sufficient_funds),
      (''budget_available'', budget_available),
      (''po_sent'', status_in [''sent''] ''po_status''),
      (''fully_received'', fully_received),
      (''stock_available'', stock_available),
      (''qc_passed'', status_in [''passed''] ''qc_status''),
      (''calculation_complete'', calculation_complete),
      (''approval_obtained'', status_in [''approved''] ''approval_status''),
      (''all_subledgers_closed'', all_subledgers_closed),
      (''no_pending_transactions'', no_pending_transactions),
      (''trial_balance_balanced'', trial_balance_balanced),
      (''all_lines_received'', fully_received)]
     @ map (\<lambda>k. (k, flag k)) [''all_timecards_approved'', ''daily_recording_valid'', ''no_concurrent_overlap'', ''total_time_balanced'',
          ''supervisor_approved'', ''reversal_exists'', ''vendor_approved'', ''fully_invoiced'', ''receipts_attached'', ''within_policy'',
          ''approval_authority'', ''pre_travel_valid'', ''travel_auth_authority'']
     @ [(''in_service_date_set'', \<lambda>c. Inr (get_attr c ''in_service_date'' CNone \<noteq> CNone)),
        (''fully_depreciated'', fully_depreciated)]
     @ map (\<lambda>k. (k, flag k)) [''disposal_approved'', ''approved_by_authority'', ''classification_complete'', ''period_closed'',
          ''reconciled'', ''reviewed'', ''contract_approved'', ''obligations_identified'', ''price_determined'']
     @ [(''credit_check_passed'', credit_check_passed), (''balance_zero'', balance_zero), (''write_off_approved'', flag ''write_off_approved'')]"

section \<open>Role-based access control\<close>

record compiled_rbac =
  rb_rbac_version :: string
  rb_authority_role_required :: bool
  rb_multi_role_actions_allowed :: bool
  rb_role_permissions :: "(string \<times> string list) list"
  rb_role_conflicts :: "string list list"
  rb_permission_conflicts_hard :: "string list list"
  rb_permission_conflicts_soft :: "string list list"
  rb_lifecycle_conflicts :: "(string \<times> string list) list"
  rb_override_roles :: "(string \<times> string list \<times> string \<times> bool) list"
  rb_inheritance_depth_limit :: int

definition WORKFLOW_ACTION_TO_PERMISSION :: "((string \<times> string) \<times> string) list" where
  "WORKFLOW_ACTION_TO_PERMISSION =
     [((''ap_invoice'', ''submit''), ''ap.invoice.enter''),
      ((''ap_invoice'', ''approve''), ''ap.invoice.approve''),
      ((''ap_invoice'', ''post''), ''ap.invoice.enter''),
      ((''ap_payment'', ''submit''), ''ap.payment.enter''),
      ((''ap_payment'', ''approve''), ''ap.payment.approve''),
      ((''ap_payment'', ''release''), ''ap.payment.release''),
      ((''ap_inventory_invoice'', ''post''), ''ap.invoice.enter''),
      ((''ar_invoice'', ''submit''), ''ar.invoice.enter''),
      ((''ar_invoice'', ''post''), ''ar.invoice.enter''),
      ((''ar_receipt'', ''post''), ''ar.payment.apply''),
      ((''ar_receipt_application'', ''post''), ''ar.payment.apply''),
      ((''ar_credit_memo'', ''post''), ''ar.credit_memo.issue''),
      ((''ar_write_off'', ''post''), ''ar.invoice.enter''),
      ((''ar_deferred_revenue'', ''post''), ''ar.invoice.enter''),
      ((''ar_refund'', ''post''), ''ar.payment.apply''),
      ((''ar_finance_charge'', ''post''), ''ar.invoice.enter'')]"

definition get_permission_for_transition :: "string \<Rightarrow> string \<Rightarrow> string option" where
  "get_permission_for_transition wn act = map_of WORKFLOW_ACTION_TO_PERMISSION (wn, act)"

datatype rbac_denial = AuthorityRoleMissing | AuthorityRoleNotHeld | PermissionNotGranted | RoleConflict | PermissionConflict

text \<open>The dict of role permissions keeps the last entry of a name.\<close>

definition permissions_of :: "compiled_rbac \<Rightarrow> string list \<Rightarrow> string set" where
  "permissions_of rb roles =
     (\<Union>r \<in> set roles. case map_of (rev (rb_role_permissions rb)) r of None \<Rightarrow> {} | Some ps \<Rightarrow> set ps)"

text \<open>The permission part of the check, for the roles the actor acts in; None means allowed.\<close>

definition check_permissions :: "compiled_rbac \<Rightarrow> string list \<Rightarrow> string list \<Rightarrow> string \<Rightarrow> rbac_denial option" where
  "check_permissions rb assigned acting p =
     (if acting = [] then None
      else if p \<notin> permissions_of rb acting then Some PermissionNotGranted
      else if list_ex (\<lambda>pair. set pair \<subseteq> set assigned) (rb_role_conflicts rb) then Some RoleConflict
      else if list_ex (\<lambda>pair. p \<in> set pair \<and> list_ex (\<lambda>q. q \<noteq> p \<and> q \<in> permissions_of rb acting) pair) (rb_permission_conflicts_hard rb)
      then Some PermissionConflict
      else None)"

definition check_rbac :: "compiled_rbac \<Rightarrow> string list \<Rightarrow> string option \<Rightarrow> string \<Rightarrow> rbac_denial option" where
  "check_rbac rb assigned authority p =
     (if rb_authority_role_required rb then
        (case authority of
           None \<Rightarrow> Some AuthorityRoleMissing
         | Some a \<Rightarrow>
             if strip a = [] then Some AuthorityRoleMissing
             else if a \<notin> set assigned then Some AuthorityRoleNotHeld
             else check_permissions rb assigned [a] p)
      else check_permissions rb assigned assigned p)"

section \<open>The executor\<close>

record workflow_executor =
  we_service :: approval_service
  we_policies :: "(string \<times> approval_policy) list"
  we_actor_roles :: "uuid \<Rightarrow> string list"
  we_guards :: evaluators
  we_rbac :: "compiled_rbac option"
  we_str :: "decimal \<Rightarrow> string"

definition find_transition :: "workflow \<Rightarrow> string \<Rightarrow> string \<Rightarrow> workflow_transition option" where
  "find_transition w st act = find (\<lambda>t. wt_from_state t = st \<and> wt_action t = act) (wf_transitions w)"

definition resolve_policy :: "workflow_executor \<Rightarrow> string \<Rightarrow> string \<Rightarrow> approval_policy option" where
  "resolve_policy ex wn act =
     (case map_of (we_policies ex) (wn @ '':'' @ act) of Some p \<Rightarrow> Some p | None \<Rightarrow> map_of (we_policies ex) wn)"

definition blocked :: transition_result where
  "blocked = \<lparr>tn_success = False, tn_new_state = None, tn_approval_required = False, tn_approval_request_id = None, tn_posts_entry = False\<rparr>"

definition passed :: "workflow_transition \<Rightarrow> transition_result" where
  "passed t = \<lparr>tn_success = True, tn_new_state = Some (wt_to_state t), tn_approval_required = False, tn_approval_request_id = None,
     tn_posts_entry = wt_posts_entry t\<rparr>"

definition check_existing_approval ::
    "workflow_executor \<Rightarrow> approval_env \<Rightarrow> uuid \<Rightarrow> workflow_transition \<Rightarrow> approval_db \<Rightarrow> approval_exc + transition_result" where
  "check_existing_approval ex env rid t db =
     rmap (\<lambda>r.
       if aq_status r \<in> {APPROVED, AUTO_APPROVED} then passed t
       else if aq_status r = REJECTED then blocked
       else blocked\<lparr>tn_approval_required := True, tn_approval_request_id := Some rid\<rparr>)
       (get_request (we_service ex) env rid db)"

definition rbac_denies :: "workflow_executor \<Rightarrow> workflow \<Rightarrow> string \<Rightarrow> uuid \<Rightarrow> string \<Rightarrow> bool" where
  "rbac_denies ex w act actor actor_role =
     (case (we_rbac ex, get_permission_for_transition (wf_name w) act) of
        (Some rb, Some p) \<Rightarrow>
          we_actor_roles ex actor \<noteq> []
          \<and> check_rbac rb (we_actor_roles ex actor) (if strip actor_role = [] then None else Some (strip actor_role)) p \<noteq> None
      | _ \<Rightarrow> False)"

definition guard_fails :: "workflow_executor \<Rightarrow> workflow_transition \<Rightarrow> ctx option \<Rightarrow> bool" where
  "guard_fails ex t c =
     (case wt_guard t of None \<Rightarrow> False
      | Some g \<Rightarrow> \<not> evaluate_guard (we_guards ex) g (case c of None \<Rightarrow> [] | Some kvs \<Rightarrow> kvs))"

definition transition_of :: "workflow \<Rightarrow> string \<Rightarrow> uuid \<Rightarrow> string \<Rightarrow> workflow_transition \<Rightarrow> transition_key" where
  "transition_of w etype eid st t = \<lparr>tk_workflow_name = wf_name w, tk_entity_type = etype, tk_entity_id = eid,
     tk_transition_action = wt_action t, tk_from_state = st, tk_to_state = wt_to_state t\<rparr>"

text \<open>Steps 6 to 8: the approval gate.\<close>

definition approval_gate ::
    "workflow_executor \<Rightarrow> approval_env \<Rightarrow> transition_key \<Rightarrow> workflow_transition \<Rightarrow> approval_policy \<Rightarrow> uuid \<Rightarrow> decimal option
     \<Rightarrow> string \<Rightarrow> ctx option \<Rightarrow> approval_db \<Rightarrow> approval_exc + transition_result \<times> approval_db" where
  "approval_gate ex env k t policy actor amt cur c db =
     rbind (map_sum ApPy id (evaluate_approval_requirement (Some policy) amt c)) (\<lambda>ev.
       if \<not> evn_needs_approval ev then Inr (passed t, db)
       else
         (case evn_matched_rule ev of
            None \<Rightarrow> Inr (blocked, db)
          | Some rule \<Rightarrow>
              rbind (create_request (we_service ex) env k policy (ar_rule_name rule) actor amt
                  (case amt of None \<Rightarrow> [] | Some a \<Rightarrow> we_str ex a) cur db) (\<lambda>(r, db1).
                if evn_auto_approved ev
                then rbind (record_auto_approval (we_service ex) env (aq_request_id r) (ar_rule_name rule)
                         (case ar_auto_approve_below rule of None \<Rightarrow> ''0'' | Some d \<Rightarrow> if d = 0 then ''0'' else we_str ex d)
                         (case amt of None \<Rightarrow> ''0'' | Some d \<Rightarrow> if d = 0 then ''0'' else we_str ex d) policy actor db1) (\<lambda>(_, db2).
                       Inr ((passed t)\<lparr>tn_approval_request_id := Some (aq_request_id r)\<rparr>, db2))
                else Inr (blocked\<lparr>tn_approval_required := True, tn_approval_request_id := Some (aq_request_id r)\<rparr>, db1))))"

definition execute_transition ::
    "workflow_executor \<Rightarrow> approval_env \<Rightarrow> workflow \<Rightarrow> string \<Rightarrow> uuid \<Rightarrow> string \<Rightarrow> string \<Rightarrow> uuid \<Rightarrow> string \<Rightarrow> decimal option
     \<Rightarrow> string \<Rightarrow> ctx option \<Rightarrow> uuid option \<Rightarrow> approval_db \<Rightarrow> approval_exc + transition_result \<times> approval_db" where
  "execute_transition ex env w etype eid st act actor actor_role amt cur c rid db =
     (case find_transition w st act of
        None \<Rightarrow> Inr (blocked, db)
      | Some t \<Rightarrow>
          if rbac_denies ex w act actor actor_role then Inr (blocked, db)
          else if guard_fails ex t c then Inr (blocked, db)
          else case resolve_policy ex (wf_name w) act of
              None \<Rightarrow> Inr (passed t, db)
            | Some policy \<Rightarrow>
                (case rid of
                   Some i \<Rightarrow> rmap (\<lambda>r. (r, db)) (check_existing_approval ex env i t db)
                 | None \<Rightarrow> approval_gate ex env (transition_of w etype eid st t) t policy actor amt cur c db))"

definition resume_after_approval :: "workflow_executor \<Rightarrow> approval_env \<Rightarrow> uuid \<Rightarrow> approval_db \<Rightarrow> approval_exc + transition_result" where
  "resume_after_approval ex env rid db =
     rmap (\<lambda>r.
       if aq_status r \<in> {APPROVED, AUTO_APPROVED}
       then blocked\<lparr>tn_success := True, tn_new_state := Some (tk_to_state (aq_transition r))\<rparr>
       else if aq_status r \<in> {REJECTED, EXPIRED, CANCELLED} then blocked
       else blocked\<lparr>tn_approval_required := True, tn_approval_request_id := Some rid\<rparr>)
       (get_request (we_service ex) env rid db)"

definition record_approval_decision ::
    "workflow_executor \<Rightarrow> approval_env \<Rightarrow> uuid \<Rightarrow> uuid \<Rightarrow> string \<Rightarrow> approval_decision \<Rightarrow> string
     \<Rightarrow> approval_db \<Rightarrow> approval_exc + transition_result \<times> approval_db" where
  "record_approval_decision ex env rid actor actor_role decision comment db =
     rbind (get_request (we_service ex) env rid db) (\<lambda>r.
       let policy = resolve_policy ex (tk_workflow_name (aq_transition r)) (tk_transition_action (aq_transition r))
       in rbind (case policy of
              Some p \<Rightarrow>
                if aq_matched_rule r = None then Inr ()
                else rbind (map_sum ApPy id (select_matching_rule (al_rules p) (aq_amount r) None)) (\<lambda>m.
                  case m of
                    Some rule \<Rightarrow> ensure (validate_actor_authority actor_role rule) (UnauthorizedApproverError actor actor_role)
                  | None \<Rightarrow> Inr ())
            | None \<Rightarrow> Inr ()) (\<lambda>_.
          rmap (\<lambda>(r', db').
            (if aq_status r' = APPROVED then blocked\<lparr>tn_success := True, tn_new_state := Some (tk_to_state (aq_transition r'))\<rparr>
             else if aq_status r' = REJECTED then blocked
             else blocked\<lparr>tn_approval_required := True, tn_approval_request_id := Some rid\<rparr>, db'))
            (record_decision (we_service ex) env rid actor actor_role decision comment policy db)))"

section \<open>The executor takes steps of the approval service\<close>

lemma approval_gate_cases:
  assumes "approval_gate ex env k t policy actor amt cur c db = Inr (res, db')"
  obtains (free) "db' = db" "res = passed t" "select_matching_rule (al_rules policy) amt c = Inr None"
  | (auto) rule r db1 r2 thr txt1 txt2 where "select_matching_rule (al_rules policy) amt c = Inr (Some rule)" "auto_approves rule amt"
      "create_request (we_service ex) env k policy (ar_rule_name rule) actor amt txt1 cur db = Inr (r, db1)"
      "record_auto_approval (we_service ex) env (aq_request_id r) (ar_rule_name rule) thr txt2 policy actor db1 = Inr (r2, db')"
      "res = (passed t)\<lparr>tn_approval_request_id := Some (aq_request_id r)\<rparr>"
  | (asked) rule r txt1 where "select_matching_rule (al_rules policy) amt c = Inr (Some rule)"
      "create_request (we_service ex) env k policy (ar_rule_name rule) actor amt txt1 cur db = Inr (r, db')"
      "\<not> tn_success res" "tn_approval_request_id res = Some (aq_request_id r)"
proof -
  obtain m where m: "select_matching_rule (al_rules policy) amt c = Inr m"
    using assms by (auto simp: approval_gate_def evaluate_approval_requirement_def result_iffs map_sum_Inr_iff)
  show ?thesis
  proof (cases m)
    case None
    then show ?thesis using assms m free by (simp add: approval_gate_def evaluate_approval_requirement_def no_approval_def)
  next
    case (Some rule)
    define amt_text where "amt_text = (case amt of None \<Rightarrow> [] | Some a \<Rightarrow> we_str ex a)"
    show ?thesis
    proof (cases "auto_approves rule amt")
      case True
      have "\<exists>r db1 r2 thr txt2. create_request (we_service ex) env k policy (ar_rule_name rule) actor amt amt_text cur db = Inr (r, db1)
          \<and> record_auto_approval (we_service ex) env (aq_request_id r) (ar_rule_name rule) thr txt2 policy actor db1 = Inr (r2, db')
          \<and> res = (passed t)\<lparr>tn_approval_request_id := Some (aq_request_id r)\<rparr>"
        using assms m Some True unfolding amt_text_def
        by (auto simp: approval_gate_def evaluate_approval_requirement_def no_approval_def rbind_eq_Inr) blast
      then show ?thesis using auto m Some True by blast
    next
      case False
      have "\<exists>r. create_request (we_service ex) env k policy (ar_rule_name rule) actor amt amt_text cur db = Inr (r, db')
          \<and> res = blocked\<lparr>tn_approval_required := True, tn_approval_request_id := Some (aq_request_id r)\<rparr>"
        using assms m Some False unfolding amt_text_def
        by (auto simp: approval_gate_def evaluate_approval_requirement_def no_approval_def rbind_eq_Inr)
      then obtain r where "create_request (we_service ex) env k policy (ar_rule_name rule) actor amt amt_text cur db = Inr (r, db')"
        "res = blocked\<lparr>tn_approval_required := True, tn_approval_request_id := Some (aq_request_id r)\<rparr>" by blast
      then show ?thesis using asked [of rule amt_text r] m Some by (simp add: blocked_def)
    qed
  qed
qed

lemma execute_steps:
  assumes "execute_transition ex env w etype eid st act actor actor_role amt cur c rid db = Inr (res, db')"
  shows "(approval_step (we_service ex) alone)\<^sup>*\<^sup>* db db'"
proof -
  have gate: "(approval_step (we_service ex) alone)\<^sup>*\<^sup>* db db'"
    if "approval_gate ex env k t policy actor amt cur c db = Inr (res, db')" for k t policy
    using that
  proof (cases rule: approval_gate_cases)
    case (auto rule r db1 r2 thr txt1 txt2)
    then show ?thesis by (intro r_into_rtranclp a_auto)
  next
    case (asked rule r txt1)
    then show ?thesis by (intro r_into_rtranclp a_create)
  qed simp
  show ?thesis
    using assms gate
    by (auto simp: execute_transition_def rmap_eq_Inr split: option.splits if_splits)
qed

lemma decision_steps:
  assumes "record_approval_decision ex env rid actor actor_role decision comment db = Inr (res, db')"
  shows "(approval_step (we_service ex) alone)\<^sup>*\<^sup>* db db'"
proof -
  obtain r' policy where "record_decision (we_service ex) env rid actor actor_role decision comment policy db = Inr (r', db')"
    using assms by (auto simp: record_approval_decision_def Let_def rbind_eq_Inr rmap_eq_Inr)
  then show ?thesis by (intro r_into_rtranclp a_decide)
qed

section \<open>Properties\<close>

text \<open>
  Property C29. A transition that the executor lets pass is one of the workflow, from the given state by the given action; RBAC
  does not deny it to the actor, and its guard holds. If a policy applies, then either the request the caller named is
  approved, or the amount and context match no rule, or the first matching rule auto-approves the amount, and then an
  AUTO\_APPROVED request for exactly this transition is stored.
\<close>

theorem transition_gated:
  assumes "approvals_ok (we_service ex)" "approvals_inv (we_service ex) db"
    and "execute_transition ex env w etype eid st act actor actor_role amt cur c rid db = Inr (res, db')" "tn_success res"
  shows "\<exists>t \<in> set (wf_transitions w). wt_from_state t = st \<and> wt_action t = act \<and> tn_new_state res = Some (wt_to_state t)
    \<and> \<not> rbac_denies ex w act actor actor_role \<and> \<not> guard_fails ex t c
    \<and> (case (resolve_policy ex (wf_name w) act, rid) of
        (None, _) \<Rightarrow> db' = db
      | (Some p, Some i) \<Rightarrow> db' = db \<and> (\<exists>r \<in> set (apd_requests db). aq_request_id r = i \<and> aq_status r \<in> {APPROVED, AUTO_APPROVED})
      | (Some p, None) \<Rightarrow>
          select_matching_rule (al_rules p) amt c = Inr None \<and> db' = db
          \<or> (\<exists>rule. select_matching_rule (al_rules p) amt c = Inr (Some rule) \<and> auto_approves rule amt
               \<and> (\<exists>r \<in> set (apd_requests db'). aq_transition r = transition_of w etype eid st t \<and> aq_status r = AUTO_APPROVED
                    \<and> aq_request_id r \<notin> aq_request_id ` set (apd_requests db))))"
proof -
  obtain t where t: "find_transition w st act = Some t" "\<not> rbac_denies ex w act actor actor_role" "\<not> guard_fails ex t c"
    and rest: "(case resolve_policy ex (wf_name w) act of
              None \<Rightarrow> Inr (passed t, db)
            | Some policy \<Rightarrow>
                (case rid of
                   Some i \<Rightarrow> rmap (\<lambda>r. (r, db)) (check_existing_approval ex env i t db)
                 | None \<Rightarrow> approval_gate ex env (transition_of w etype eid st t) t policy actor amt cur c db)) = Inr (res, db')"
    using assms(3,4) by (auto simp: execute_transition_def blocked_def split: option.splits if_splits)
  have tw: "t \<in> set (wf_transitions w)" "wt_from_state t = st" "wt_action t = act"
    using t(1) by (auto simp: find_transition_def find_Some_iff)
  show ?thesis
  proof (cases "resolve_policy ex (wf_name w) act")
    case None
    then have "res = passed t" "db' = db" using rest by simp_all
    then show ?thesis using t tw None by (auto simp: passed_def)
  next
    case (Some p)
    show ?thesis
    proof (cases rid)
      case i: (Some i)
      obtain r where r: "get_request (we_service ex) env i db = Inr r" "aq_status r \<in> {APPROVED, AUTO_APPROVED}" "res = passed t" "db' = db"
        using rest Some i assms(4) by (auto simp: check_existing_approval_def rmap_eq_Inr blocked_def split: if_splits)
      have "load_request (we_service ex) i db = Inr r"
        using r(1) by (auto simp: get_request_def rbind_eq_Inr split: option.splits if_splits)
      from load_request_Inr [OF this assms(1)] show ?thesis using r t tw Some i by (auto simp: passed_def)
    next
      case None
      have g: "approval_gate ex env (transition_of w etype eid st t) t p actor amt cur c db = Inr (res, db')"
        using rest Some None by simp
      from g show ?thesis
      proof (cases rule: approval_gate_cases)
        case free
        then show ?thesis using t tw Some None by (auto simp: passed_def)
      next
        case (auto rule r db1 r2 thr txt1 txt2)
        note cr = create_request_Inr [OF auto(3) assms(1,2)]
        note aa = auto_approval_overrides [OF auto(4) assms(1) cr(1)]
        obtain x where x: "x \<in> set (apd_requests db1)" "aq_request_id x = aq_request_id r" "frozen r2 = frozen x" using aa by blast
        have "x = r" using cr(1,3) x(1,2) by (auto simp: approvals_inv_def tables_inv_def distinct_map dest: inj_onD)
        then have r2: "aq_status r2 = AUTO_APPROVED" "aq_request_id r2 = aq_request_id r" "r2 \<in> set (apd_requests db')"
          "aq_transition r2 = transition_of w etype eid st t"
          using aa x(3) cr(5) frozen_facts(1,2) [of r2 r] by simp_all
        have "tn_new_state res = Some (wt_to_state t)" by (simp add: auto(5) passed_def)
        have "\<exists>r \<in> set (apd_requests db'). aq_transition r = transition_of w etype eid st t \<and> aq_status r = AUTO_APPROVED
            \<and> aq_request_id r \<notin> aq_request_id ` set (apd_requests db)"
          using r2 cr(6,7) by (intro bexI [of _ r2]) simp_all
        then show ?thesis using t tw Some None auto(1,2) \<open>tn_new_state res = _\<close> by (intro bexI [of _ t]) auto
      next
        case asked
        then show ?thesis using assms(4) by simp
      qed
    qed
  qed
qed

text \<open>
  An approval is bound to nothing: once any request is approved, naming it lets every transition that has
  a policy and passes RBAC and its guard through, of any workflow, entity and amount, and as often as one likes, since
  the request is not consumed.
\<close>

theorem approval_not_bound:
  assumes "approvals_ok (we_service ex)" "approvals_inv (we_service ex) db"
    and "r \<in> set (apd_requests db)" "aq_status r \<in> {APPROVED, AUTO_APPROVED}"
    and "find_transition w st act = Some t" "\<not> rbac_denies ex w act actor actor_role" "\<not> guard_fails ex t c"
  shows "execute_transition ex env w etype eid st act actor actor_role amt cur c (Some (aq_request_id r)) db = Inr (passed t, db)"
proof -
  have t: "tables_inv (we_service ex) db" using assms(2) by (simp add: approvals_inv_def)
  have "get_request (we_service ex) env (aq_request_id r) db = Inr r"
    using load_request_found [OF assms(1) t assms(3)] t assms(3) by (simp add: get_request_def tables_inv_def request_ok_def)
  then show ?thesis
    using assms(4-7) by (auto simp: execute_transition_def check_existing_approval_def split: option.splits)
qed

text \<open>
  The role check allows an action exactly when: the authority role, where one is required, is given and held;
  no role is acted in, or the permission is granted to a role acted in, no conflicting set of roles is held, and
  no permission in hard conflict with it is granted as well.
\<close>

theorem rbac_allowed_iff:
  "check_rbac rb assigned authority p = None \<longleftrightarrow>
     (let acting = (if rb_authority_role_required rb then (case authority of None \<Rightarrow> [] | Some a \<Rightarrow> [a]) else assigned)
      in (rb_authority_role_required rb \<longrightarrow> (\<exists>a \<in> set assigned. authority = Some a \<and> strip a \<noteq> []))
         \<and> (acting = [] \<or>
            p \<in> permissions_of rb acting
            \<and> (\<forall>pair \<in> set (rb_role_conflicts rb). \<not> set pair \<subseteq> set assigned)
            \<and> (\<forall>pair \<in> set (rb_permission_conflicts_hard rb). p \<in> set pair \<longrightarrow> set pair \<inter> permissions_of rb acting \<subseteq> {p})))"
proof -
  have "check_permissions rb assigned acting p = None \<longleftrightarrow>
      acting = [] \<or> p \<in> permissions_of rb acting \<and> (\<forall>pair \<in> set (rb_role_conflicts rb). \<not> set pair \<subseteq> set assigned)
        \<and> (\<forall>pair \<in> set (rb_permission_conflicts_hard rb). p \<in> set pair \<longrightarrow> set pair \<inter> permissions_of rb acting \<subseteq> {p})" for acting
    by (auto simp: check_permissions_def list_ex_iff)
  then show ?thesis by (cases authority) (auto simp: check_rbac_def Let_def)
qed

text \<open>A decision is recorded only if the role the actor claims is one of the rule that the policy selects for the amount.\<close>

lemma decision_authorised:
  assumes "record_approval_decision ex env rid actor actor_role decision comment db = Inr (res, db')"
    "get_request (we_service ex) env rid db = Inr r"
    "resolve_policy ex (tk_workflow_name (aq_transition r)) (tk_transition_action (aq_transition r)) = Some p"
    "aq_matched_rule r \<noteq> None" "select_matching_rule (al_rules p) (aq_amount r) None = Inr (Some rule)"
  shows "validate_actor_authority actor_role rule"
  using assms by (auto simp: record_approval_decision_def Let_def rbind_eq_Inr rmap_eq_Inr split: if_splits)

section \<open>An approval used for another entity\<close>

definition demo_workflow :: workflow where
  "demo_workflow = \<lparr>wf_name = ''w'', wf_description = [], wf_initial_state = ''s'', wf_states = [''s'', ''t''],
     wf_transitions = [\<lparr>wt_from_state = ''s'', wt_to_state = ''t'', wt_action = ''a'', wt_guard = None, wt_posts_entry = True,
       wt_requires_approval = True, wt_approval_policy = None\<rparr>], wf_terminal_states = [''t'']\<rparr>"

definition demo_executor :: workflow_executor where
  "demo_executor = \<lparr>we_service = demo_approvals, we_policies = [(''w'', demo_approval_policy)], we_actor_roles = (\<lambda>_. []),
     we_guards = default_guard_executor, we_rbac = None, we_str = (\<lambda>_. [])\<rparr>"

lemma demo_executor_facts:
  "we_service demo_executor = demo_approvals"
  "find_transition demo_workflow ''s'' ''a'' = Some (hd (wf_transitions demo_workflow))"
  "\<not> rbac_denies demo_executor demo_workflow ''a'' actor actor_role" "\<not> guard_fails demo_executor (hd (wf_transitions demo_workflow)) c"
  by (simp_all add: demo_executor_def demo_workflow_def find_transition_def rbac_denies_def guard_fails_def)

theorem approval_not_bound_witness:
  "\<exists>r db. demo_approved = Inr (r, db) \<and> tk_entity_id demo_transition = 3
     \<and> execute_transition demo_executor (demo_approval_env 9) demo_workflow ''Payment'' 1000 ''s'' ''a'' 8 ''clerk'' (Some 1000000) ''USD'' None
         (Some (aq_request_id r)) db = Inr (passed (hd (wf_transitions demo_workflow)), db)"
proof -
  obtain r db where a: "demo_approved = Inr (r, db)" "aq_status r = APPROVED" "r \<in> set (apd_requests db)"
    "(approval_step demo_approvals False)\<^sup>*\<^sup>* no_approvals db"
    by (rule demo_approval_run)
  have "approvals_inv (we_service demo_executor) db" "approvals_ok (we_service demo_executor)"
    using approval_steps_inv [OF a(4) demo_approvals_ok] demo_approvals_ok(1) by (simp_all add: demo_executor_facts)
  note i = approval_not_bound [OF this(2,1) a(3) _ demo_executor_facts(2-4)]
  have "aq_status r \<in> {APPROVED, AUTO_APPROVED}" by (simp add: a(2))
  from i [OF this] show ?thesis using a(1) by (intro exI conjI) (simp_all add: demo_transition_def)
qed

theorem transition_gated_witness:
  "\<exists>r db. demo_approved = Inr (r, db) \<and> (\<exists>x \<in> set (apd_requests db). aq_request_id x = aq_request_id r \<and> aq_status x \<in> {APPROVED, AUTO_APPROVED})"
proof -
  obtain r db where a: "demo_approved = Inr (r, db)" "aq_status r = APPROVED" "r \<in> set (apd_requests db)"
    "(approval_step demo_approvals False)\<^sup>*\<^sup>* no_approvals db"
    by (rule demo_approval_run)
  have ok: "approvals_ok (we_service demo_executor)" "approvals_inv (we_service demo_executor) db"
    using approval_steps_inv [OF a(4) demo_approvals_ok] demo_approvals_ok(1) by (simp_all add: demo_executor_facts)
  have get: "get_request (we_service demo_executor) (demo_approval_env 9) (aq_request_id r) db = Inr r"
    using ok a(3) load_request_found [OF ok(1) _ a(3)] by (simp add: get_request_def approvals_inv_def tables_inv_def request_ok_def)
  have pol: "resolve_policy demo_executor (wf_name demo_workflow) ''a'' = Some demo_approval_policy"
    by (simp add: resolve_policy_def demo_executor_def demo_workflow_def)
  have "execute_transition demo_executor (demo_approval_env 9) demo_workflow ''Invoice'' 3 ''s'' ''a'' 8 ''clerk'' None ''USD'' None
      (Some (aq_request_id r)) db = Inr (passed (hd (wf_transitions demo_workflow)), db)"
    using get a(2) demo_executor_facts pol by (simp add: execute_transition_def check_existing_approval_def)
  from transition_gated [OF ok this] pol a(1) show ?thesis by (auto simp: passed_def)
qed

definition demo_rbac :: compiled_rbac where
  "demo_rbac = \<lparr>rb_rbac_version = ''1'', rb_authority_role_required = True, rb_multi_role_actions_allowed = False,
     rb_role_permissions = [(''clerk'', [''ap.invoice.enter'']), (''manager'', [''ap.invoice.approve''])], rb_role_conflicts = [],
     rb_permission_conflicts_hard = [[''ap.invoice.enter'', ''ap.invoice.approve'']], rb_permission_conflicts_soft = [],
     rb_lifecycle_conflicts = [], rb_override_roles = [], rb_inheritance_depth_limit = 1\<rparr>"

theorem rbac_allowed_iff_witness:
  "check_rbac demo_rbac [''clerk'', ''manager''] (Some ''manager'') ''ap.invoice.approve'' = None"
  unfolding rbac_allowed_iff
  by (simp add: demo_rbac_def permissions_of_def Let_def strip_def is_space_def)

end
