(* ===== verification/Subledger.thy ===== *)
theory Subledger
  imports Journal_Writer Guard_Expression
begin

text \<open>
  The subledgers. \<open>finance_engines/subledger.py\<close>: entries with one side, their reconciliation status;
  \<open>finance_services/subledger_service.py\<close>: matching, balances and validation, the base of the five
  services in \<open>subledger_ap.py\<close>, \<open>subledger_ar.py\<close>, \<open>subledger_bank.py\<close>, \<open>subledger_inventory.py\<close> and
  \<open>subledger_contract.py\<close>, which differ in the subledger type and the document types they take;
  \<open>finance_kernel/models/subledger.py\<close> and \<open>finance_services/_subledger_mapping.py\<close>: the table and its reading back;
  \<open>finance_kernel/selectors/subledger_selector.py\<close>: queries; \<open>finance_services/subledger_posting.py\<close>: the bridge
  that writes one entry per line of each subledger intent after the journal write.

  A session is the committed and the working rows; an integrity error rolls it back and the service then looks
  for the row it collided with. Identifiers of new rows, the clock and the journal rows a foreign key may
  refer to are arguments. A call that raises carries no session, its caller rolls back. Sums over stored
  amounts are the database's and exact; arithmetic in Python rounds.

  The lemmas show what matching and posting keep, that the table holds a journal line at most once, what the bridge adds,
  and that what it adds for a balanced intent nets to nothing.
\<close>

section \<open>Subledger types\<close>

datatype subledger_type = AP | AR | INVENTORY | FIXED_ASSETS | BANK | PAYROLL | WIP | INTERCOMPANY_LEDGER

primrec subledger_value :: "subledger_type \<Rightarrow> string" where
  "subledger_value AP = ''AP''"
| "subledger_value AR = ''AR''"
| "subledger_value INVENTORY = ''INVENTORY''"
| "subledger_value FIXED_ASSETS = ''FIXED_ASSETS''"
| "subledger_value BANK = ''BANK''"
| "subledger_value PAYROLL = ''PAYROLL''"
| "subledger_value WIP = ''WIP''"
| "subledger_value INTERCOMPANY_LEDGER = ''INTERCOMPANY''"

text \<open>\<open>SubledgerType(value)\<close>; None is the ValueError.\<close>

definition subledger_of :: "string \<Rightarrow> subledger_type option" where
  "subledger_of v = find (\<lambda>t. subledger_value t = v) [AP, AR, INVENTORY, FIXED_ASSETS, BANK, PAYROLL, WIP, INTERCOMPANY_LEDGER]"

definition credit_normal :: "string \<Rightarrow> bool" where
  "credit_normal v \<longleftrightarrow> v \<in> {subledger_value AP, subledger_value PAYROLL}"

section \<open>Entries\<close>

datatype entry_direction = DEBIT_ENTRY | CREDIT_ENTRY

datatype recon_status = RECON_OPEN | RECON_PARTIAL | RECON_RECONCILED | RECON_WRITTEN_OFF

record subledger_entry =
  se_entry_id :: uuid
  se_subledger_type :: string
  se_entity_id :: string
  se_source_document_type :: string
  se_source_document_id :: string
  se_source_line_id :: "string option"
  se_gl_entry_id :: "uuid option"
  se_gl_line_id :: "uuid option"
  se_debit :: "money option"
  se_credit :: "money option"
  se_effective_date :: "int option"
  se_posted_at :: "int option"
  se_status :: recon_status
  se_reconciled_amount :: "money option"
  se_reconciled_to_ids :: "uuid list"
  se_memo :: string
  se_reference :: string
  se_dimensions :: "(string \<times> string) list"

definition mk_subledger_entry :: "subledger_entry \<Rightarrow> py_exc + subledger_entry" where
  "mk_subledger_entry e =
     (if se_debit e \<noteq> None \<and> se_credit e \<noteq> None then Inl ValueError
      else if se_debit e = None \<and> se_credit e = None then Inl ValueError
      else Inr e)"

definition se_direction :: "subledger_entry \<Rightarrow> entry_direction" where
  "se_direction e = (if se_debit e \<noteq> None then DEBIT_ENTRY else CREDIT_ENTRY)"

definition se_amount :: "subledger_entry \<Rightarrow> money" where
  "se_amount e = (case se_debit e of Some m \<Rightarrow> m | None \<Rightarrow> the (se_credit e))"

definition se_signed_amount :: "subledger_entry \<Rightarrow> money" where
  "se_signed_amount e = (case se_debit e of Some m \<Rightarrow> m | None \<Rightarrow> money_mul (the (se_credit e)) (- 1))"

definition se_currency :: "subledger_entry \<Rightarrow> string" where
  "se_currency e = cur_code (currency (se_amount e))"

definition se_is_open :: "subledger_entry \<Rightarrow> bool" where
  "se_is_open e \<longleftrightarrow> se_status e \<in> {RECON_OPEN, RECON_PARTIAL}"

definition se_is_reconciled :: "subledger_entry \<Rightarrow> bool" where
  "se_is_reconciled e \<longleftrightarrow> se_status e \<in> {RECON_RECONCILED, RECON_WRITTEN_OFF}"

definition se_open_amount :: "subledger_entry \<Rightarrow> py_exc + money" where
  "se_open_amount e =
     (case se_reconciled_amount e of None \<Rightarrow> Inr (se_amount e) | Some r \<Rightarrow> money_sub (se_amount e) r)"

definition with_reconciliation :: "money \<Rightarrow> uuid \<Rightarrow> subledger_entry \<Rightarrow> py_exc + subledger_entry" where
  "with_reconciliation r other e =
     rbind (case se_reconciled_amount e of Some m \<Rightarrow> money_add m r | None \<Rightarrow> Inr r) (\<lambda>n.
       mk_subledger_entry (e\<lparr>
         se_status := (if amount (se_amount e) \<le> amount n then RECON_RECONCILED
                       else if 0 < amount n then RECON_PARTIAL else RECON_OPEN),
         se_reconciled_amount := Some n, se_reconciled_to_ids := se_reconciled_to_ids e @ [other]\<rparr>))"

record subledger_balance =
  sb_entity_id :: string
  sb_subledger_type :: string
  sb_as_of_date :: int
  sb_debit_total :: money
  sb_credit_total :: money
  sb_balance :: money
  sb_open_item_count :: nat
  sb_currency :: string

text \<open>A missing \<open>reconciled_at\<close> is \<open>datetime.min\<close>.\<close>

record match_result =
  mt_reconciliation_id :: uuid
  mt_debit_entry_id :: uuid
  mt_credit_entry_id :: uuid
  mt_reconciled_amount :: money
  mt_reconciled_at :: "int option"
  mt_is_full_match :: bool

definition new_entry ::
    "uuid \<Rightarrow> string \<Rightarrow> string \<Rightarrow> string \<Rightarrow> string \<Rightarrow> string option \<Rightarrow> money option \<Rightarrow> money option \<Rightarrow> int option \<Rightarrow> string
     \<Rightarrow> string \<Rightarrow> (string \<times> string) list \<Rightarrow> py_exc + subledger_entry" where
  "new_entry i st entity doc_type doc_id line debit credit eff memo ref dims =
     mk_subledger_entry \<lparr>se_entry_id = i, se_subledger_type = st, se_entity_id = entity, se_source_document_type = doc_type,
       se_source_document_id = doc_id, se_source_line_id = line, se_gl_entry_id = None, se_gl_line_id = None,
       se_debit = debit, se_credit = credit, se_effective_date = eff, se_posted_at = None, se_status = RECON_OPEN,
       se_reconciled_amount = None, se_reconciled_to_ids = [], se_memo = memo, se_reference = ref, se_dimensions = dims\<rparr>"

definition create_debit_entry ::
    "uuid \<Rightarrow> string \<Rightarrow> string \<Rightarrow> money \<Rightarrow> string \<Rightarrow> string \<Rightarrow> int \<Rightarrow> string \<Rightarrow> string \<Rightarrow> (string \<times> string) list option
     \<Rightarrow> py_exc + subledger_entry" where
  "create_debit_entry i st entity m doc_type doc_id eff memo ref dims =
     new_entry i st entity doc_type doc_id None (Some m) None (Some eff) memo ref (case dims of None \<Rightarrow> [] | Some d \<Rightarrow> d)"

definition create_credit_entry ::
    "uuid \<Rightarrow> string \<Rightarrow> string \<Rightarrow> money \<Rightarrow> string \<Rightarrow> string \<Rightarrow> int \<Rightarrow> string \<Rightarrow> string \<Rightarrow> (string \<times> string) list option
     \<Rightarrow> py_exc + subledger_entry" where
  "create_credit_entry i st entity m doc_type doc_id eff memo ref dims =
     new_entry i st entity doc_type doc_id None None (Some m) (Some eff) memo ref (case dims of None \<Rightarrow> [] | Some d \<Rightarrow> d)"

section \<open>Matching, balances, validation\<close>

text \<open>\<open>min(debit_open, credit_open, key=...)\<close> keeps the first of equals.\<close>

definition match_amount :: "money \<Rightarrow> money \<Rightarrow> money option \<Rightarrow> money" where
  "match_amount d c amt = (case amt of Some m \<Rightarrow> m | None \<Rightarrow> if amount c < amount d then c else d)"

definition reconcile_entries ::
    "uuid \<Rightarrow> subledger_entry \<Rightarrow> subledger_entry \<Rightarrow> money option \<Rightarrow> int option \<Rightarrow> py_exc + match_result" where
  "reconcile_entries new_id d c amt when =
     (if se_subledger_type d \<noteq> se_subledger_type c then Inl ValueError
      else if se_entity_id d \<noteq> se_entity_id c then Inl ValueError
      else if se_direction d \<noteq> DEBIT_ENTRY then Inl ValueError
      else if se_direction c \<noteq> CREDIT_ENTRY then Inl ValueError
      else if se_currency d \<noteq> se_currency c then Inl ValueError
      else if \<not> se_is_open d \<or> \<not> se_is_open c then Inl ValueError
      else
        rbind (se_open_amount d) (\<lambda>od. rbind (se_open_amount c) (\<lambda>oc.
          let m = match_amount od oc amt
          in if amount m \<le> 0 then Inl ValueError
             else if amount od < amount m then Inl ValueError
             else if amount oc < amount m then Inl ValueError
             else Inr \<lparr>mt_reconciliation_id = new_id, mt_debit_entry_id = se_entry_id d, mt_credit_entry_id = se_entry_id c,
                    mt_reconciled_amount = m, mt_reconciled_at = when,
                    mt_is_full_match = (amount m = amount od \<and> amount m = amount oc)\<rparr>)))"

definition calculate_balance :: "subledger_entry list \<Rightarrow> int option \<Rightarrow> py_exc + subledger_balance" where
  "calculate_balance es as_of =
     (case (es, as_of) of
        ([], _) \<Rightarrow> Inl ValueError
      | (_, None) \<Rightarrow> Inl ValueError
      | (e # _, Some d) \<Rightarrow>
          let cur = se_currency e;
              live = filter (\<lambda>x. case se_effective_date x of None \<Rightarrow> True | Some t \<Rightarrow> t \<le> d) es;
              dt = dsum (map amount (List.map_filter se_debit live));
              ct = dsum (map amount (List.map_filter se_credit live));
              bal = (if credit_normal (se_subledger_type e) then dsub ct dt else dsub dt ct)
          in rbind (money_of dt cur) (\<lambda>mdt. rbind (money_of ct cur) (\<lambda>mct. rbind (money_of bal cur) (\<lambda>mb.
               Inr \<lparr>sb_entity_id = se_entity_id e, sb_subledger_type = se_subledger_type e, sb_as_of_date = d,
                    sb_debit_total = mdt, sb_credit_total = mct, sb_balance = mb,
                    sb_open_item_count = length (filter se_is_open live), sb_currency = cur\<rparr>))))"

definition validate_entry :: "subledger_entry \<Rightarrow> string list" where
  "validate_entry e =
     (if se_subledger_type e = [] then [''Subledger type is required''] else [])
     @ (if se_entity_id e = [] then [''Entity ID is required''] else [])
     @ (if se_source_document_type e = [] then [''Source document type is required''] else [])
     @ (if se_source_document_id e = [] then [''Source document ID is required''] else [])
     @ (if money_is_zero (se_amount e) then [''Amount cannot be zero''] else [])"

section \<open>The table\<close>

record subledger_row =
  sr_id :: uuid
  sr_subledger_type :: string
  sr_entity_id :: string
  sr_journal_entry_id :: uuid
  sr_journal_line_id :: "uuid option"
  sr_source_document_type :: string
  sr_source_document_id :: string
  sr_source_line_id :: "string option"
  sr_debit_amount :: "decimal option"
  sr_credit_amount :: "decimal option"
  sr_currency :: string
  sr_effective_date :: int
  sr_posted_at :: "int option"
  sr_status :: recon_status
  sr_reconciled_amount :: "decimal option"
  sr_memo :: "string option"
  sr_reference :: "string option"
  sr_dimensions :: "(string \<times> string) list option"
  sr_created_by_id :: uuid

text \<open>The UNIQUE constraint: SQL counts NULLs as different, so a row without a source line never collides.\<close>

definition row_conflict :: "subledger_row \<Rightarrow> subledger_row \<Rightarrow> bool" where
  "row_conflict r q \<longleftrightarrow>
     sr_id q = sr_id r
     \<or> sr_source_line_id r \<noteq> None \<and> sr_journal_entry_id q = sr_journal_entry_id r
       \<and> sr_subledger_type q = sr_subledger_type r \<and> sr_source_line_id q = sr_source_line_id r"

definition insert_subledger_row :: "(uuid \<Rightarrow> bool) \<Rightarrow> subledger_row \<Rightarrow> subledger_row list \<Rightarrow> py_exc + subledger_row list" where
  "insert_subledger_row journals r rs =
     (if \<not> journals (sr_journal_entry_id r) \<or> list_ex (row_conflict r) rs then Inl IntegrityError else Inr (rs @ [r]))"

record subledger_session =
  ss_committed :: "subledger_row list"
  ss_working :: "subledger_row list"

text \<open>\<open>Money.of(x, currency) if x else None\<close>.\<close>

definition stored_money :: "decimal option \<Rightarrow> string \<Rightarrow> py_exc + money option" where
  "stored_money a cur =
     (case a of None \<Rightarrow> Inr None | Some x \<Rightarrow> if x = 0 then Inr None else rmap Some (money_of x cur))"

definition or_empty :: "'a list option \<Rightarrow> 'a list" where
  "or_empty x = (case x of None \<Rightarrow> [] | Some xs \<Rightarrow> xs)"

definition or_none :: "'a list \<Rightarrow> 'a list option" where
  "or_none xs = (if xs = [] then None else Some xs)"

definition model_to_entry :: "subledger_row \<Rightarrow> py_exc + subledger_entry" where
  "model_to_entry r =
     rbind (stored_money (sr_debit_amount r) (sr_currency r)) (\<lambda>debit.
     rbind (stored_money (sr_credit_amount r) (sr_currency r)) (\<lambda>credit.
     rbind (stored_money (sr_reconciled_amount r) (sr_currency r)) (\<lambda>recon.
       mk_subledger_entry \<lparr>se_entry_id = sr_id r, se_subledger_type = sr_subledger_type r, se_entity_id = sr_entity_id r,
         se_source_document_type = sr_source_document_type r, se_source_document_id = sr_source_document_id r,
         se_source_line_id = sr_source_line_id r, se_gl_entry_id = Some (sr_journal_entry_id r),
         se_gl_line_id = sr_journal_line_id r, se_debit = debit, se_credit = credit,
         se_effective_date = Some (sr_effective_date r), se_posted_at = sr_posted_at r, se_status = sr_status r,
         se_reconciled_amount = recon, se_reconciled_to_ids = [], se_memo = or_empty (sr_memo r),
         se_reference = or_empty (sr_reference r), se_dimensions = or_empty (sr_dimensions r)\<rparr>)))"

section \<open>The services\<close>

record subledger_service =
  su_subledger_type :: subledger_type
  su_document_types :: "string list"

definition AP_DOCUMENT_TYPES :: "string list" where
  "AP_DOCUMENT_TYPES = [''INVOICE'', ''PAYMENT'', ''CREDIT_MEMO'', ''REVERSAL'', ''ADJUSTMENT'']"

definition AR_DOCUMENT_TYPES :: "string list" where
  "AR_DOCUMENT_TYPES = [''INVOICE'', ''PAYMENT'', ''CREDIT_MEMO'', ''REVERSAL'', ''ADJUSTMENT'']"

definition BANK_DOCUMENT_TYPES :: "string list" where
  "BANK_DOCUMENT_TYPES = [''DEPOSIT'', ''WITHDRAWAL'', ''TRANSFER'', ''REVERSAL'', ''ADJUSTMENT'', ''BANK_FEE'', ''INTEREST'']"

definition INVENTORY_DOCUMENT_TYPES :: "string list" where
  "INVENTORY_DOCUMENT_TYPES = [''RECEIPT'', ''ISSUE'', ''ADJUSTMENT'', ''REVALUATION'', ''TRANSFER'', ''REVERSAL'']"

definition CONTRACT_DOCUMENT_TYPES :: "string list" where
  "CONTRACT_DOCUMENT_TYPES = [''COST_INCURRENCE'', ''BILLING'', ''FEE'', ''REVERSAL'', ''ADJUSTMENT'']"

definition ap_service :: subledger_service where
  "ap_service = \<lparr>su_subledger_type = AP, su_document_types = AP_DOCUMENT_TYPES\<rparr>"

definition ar_service :: subledger_service where
  "ar_service = \<lparr>su_subledger_type = AR, su_document_types = AR_DOCUMENT_TYPES\<rparr>"

definition bank_service :: subledger_service where
  "bank_service = \<lparr>su_subledger_type = BANK, su_document_types = BANK_DOCUMENT_TYPES\<rparr>"

definition inventory_service :: subledger_service where
  "inventory_service = \<lparr>su_subledger_type = INVENTORY, su_document_types = INVENTORY_DOCUMENT_TYPES\<rparr>"

definition contract_service :: subledger_service where
  "contract_service = \<lparr>su_subledger_type = WIP, su_document_types = CONTRACT_DOCUMENT_TYPES\<rparr>"

text \<open>The services by type, as the orchestrator wires them.\<close>

definition subledger_services :: "subledger_type \<rightharpoonup> subledger_service" where
  "subledger_services = [AP \<mapsto> ap_service, AR \<mapsto> ar_service, BANK \<mapsto> bank_service, INVENTORY \<mapsto> inventory_service,
     WIP \<mapsto> contract_service]"

definition line_key :: "string option \<Rightarrow> string option" where
  "line_key l = (case l of None \<Rightarrow> None | Some s \<Rightarrow> or_none s)"

definition row_of_entry ::
    "uuid \<Rightarrow> subledger_type \<Rightarrow> subledger_entry \<Rightarrow> int \<Rightarrow> uuid \<Rightarrow> int \<Rightarrow> uuid \<Rightarrow> subledger_row" where
  "row_of_entry new_id st e eff gl now actor =
     \<lparr>sr_id = new_id, sr_subledger_type = subledger_value st, sr_entity_id = se_entity_id e, sr_journal_entry_id = gl,
      sr_journal_line_id = se_gl_line_id e, sr_source_document_type = se_source_document_type e,
      sr_source_document_id = se_source_document_id e, sr_source_line_id = line_key (se_source_line_id e),
      sr_debit_amount = map_option amount (se_debit e), sr_credit_amount = map_option amount (se_credit e),
      sr_currency = se_currency e, sr_effective_date = eff, sr_posted_at = Some now, sr_status = RECON_OPEN,
      sr_reconciled_amount = None, sr_memo = or_none (se_memo e), sr_reference = or_none (se_reference e),
      sr_dimensions = or_none (se_dimensions e), sr_created_by_id = actor\<rparr>"

text \<open>The flush; the effective date is NOT NULL.\<close>

definition flush_entry ::
    "(uuid \<Rightarrow> bool) \<Rightarrow> uuid \<Rightarrow> subledger_type \<Rightarrow> subledger_entry \<Rightarrow> uuid \<Rightarrow> int \<Rightarrow> uuid \<Rightarrow> subledger_row list
     \<Rightarrow> py_exc + subledger_row \<times> subledger_row list" where
  "flush_entry journals new_id st e gl now actor rs =
     (case se_effective_date e of
        None \<Rightarrow> Inl IntegrityError
      | Some eff \<Rightarrow> let r = row_of_entry new_id st e eff gl now actor in rmap (Pair r) (insert_subledger_row journals r rs))"

definition same_source :: "uuid \<Rightarrow> subledger_type \<Rightarrow> string option \<Rightarrow> subledger_row \<Rightarrow> bool" where
  "same_source gl st l q \<longleftrightarrow>
     sr_journal_entry_id q = gl \<and> sr_subledger_type q = subledger_value st \<and> sr_source_line_id q = l"

definition post_subledger_entry ::
    "(uuid \<Rightarrow> bool) \<Rightarrow> uuid \<Rightarrow> subledger_type \<Rightarrow> subledger_entry \<Rightarrow> uuid \<Rightarrow> int \<Rightarrow> uuid \<Rightarrow> subledger_session
     \<Rightarrow> py_exc + subledger_entry \<times> subledger_session" where
  "post_subledger_entry journals new_id st e gl now actor s =
     (case flush_entry journals new_id st e gl now actor (ss_working s) of
        Inr (r, rs) \<Rightarrow> rmap (\<lambda>x. (x, s\<lparr>ss_working := rs\<rparr>)) (model_to_entry r)
      | Inl err \<Rightarrow>
          let s' = s\<lparr>ss_working := ss_committed s\<rparr>
          in case find (same_source gl st (line_key (se_source_line_id e))) (ss_working s') of
               Some q \<Rightarrow> rmap (\<lambda>x. (x, s')) (model_to_entry q)
             | None \<Rightarrow> Inl err)"

definition service_post ::
    "subledger_service \<Rightarrow> (uuid \<Rightarrow> bool) \<Rightarrow> uuid \<Rightarrow> subledger_entry \<Rightarrow> uuid \<Rightarrow> int \<Rightarrow> uuid \<Rightarrow> subledger_session
     \<Rightarrow> py_exc + subledger_entry \<times> subledger_session" where
  "service_post sv journals new_id e gl now actor s =
     (if validate_entry e \<noteq> [] then Inl ValueError
      else if se_source_document_type e \<notin> set (su_document_types sv) then Inl ValueError
      else post_subledger_entry journals new_id (su_subledger_type sv) e gl now actor s)"

section \<open>Queries\<close>

definition row_open :: "subledger_row \<Rightarrow> bool" where
  "row_open r \<longleftrightarrow> sr_status r \<in> {RECON_OPEN, RECON_PARTIAL}"

definition entries_by_entity :: "string \<Rightarrow> subledger_type \<Rightarrow> int option \<Rightarrow> string option \<Rightarrow> subledger_row list \<Rightarrow> subledger_row list" where
  "entries_by_entity entity st as_of cur rs =
     sort_key sr_effective_date (filter (\<lambda>r. sr_entity_id r = entity \<and> sr_subledger_type r = subledger_value st
       \<and> (case as_of of None \<Rightarrow> True | Some d \<Rightarrow> sr_effective_date r \<le> d)
       \<and> (case cur of None \<Rightarrow> True | Some c \<Rightarrow> sr_currency r = c)) rs)"

definition entries_by_journal_entry :: "uuid \<Rightarrow> subledger_row list \<Rightarrow> subledger_row list" where
  "entries_by_journal_entry gl rs = sort_key sr_effective_date (filter (\<lambda>r. sr_journal_entry_id r = gl) rs)"

definition open_rows :: "string \<Rightarrow> subledger_type \<Rightarrow> string option \<Rightarrow> subledger_row list \<Rightarrow> subledger_row list" where
  "open_rows entity st cur rs =
     sort_key sr_effective_date (filter (\<lambda>r. sr_entity_id r = entity \<and> sr_subledger_type r = subledger_value st \<and> row_open r
       \<and> (case cur of None \<Rightarrow> True | Some c \<Rightarrow> sr_currency r = c)) rs)"

definition open_items :: "string \<Rightarrow> subledger_type \<Rightarrow> string option \<Rightarrow> subledger_row list \<Rightarrow> py_exc + subledger_entry list" where
  "open_items entity st cur rs = rtraverse model_to_entry (open_rows entity st cur rs)"

definition column_sum :: "(subledger_row \<Rightarrow> decimal option) \<Rightarrow> subledger_row list \<Rightarrow> decimal" where
  "column_sum col rs = sum_list (List.map_filter col rs)"

definition net_balance :: "subledger_type \<Rightarrow> subledger_row list \<Rightarrow> decimal" where
  "net_balance st rs =
     (if credit_normal (subledger_value st)
      then dsub (column_sum sr_credit_amount rs) (column_sum sr_debit_amount rs)
      else dsub (column_sum sr_debit_amount rs) (column_sum sr_credit_amount rs))"

definition rows_as_of :: "subledger_type \<Rightarrow> int \<Rightarrow> string \<Rightarrow> subledger_row list \<Rightarrow> subledger_row list" where
  "rows_as_of st d cur rs =
     filter (\<lambda>r. sr_subledger_type r = subledger_value st \<and> sr_currency r = cur \<and> sr_effective_date r \<le> d) rs"

text \<open>The selector's balance of an entity, as \<open>_get_balance\<close> returns it.\<close>

definition entity_balance :: "string \<Rightarrow> subledger_type \<Rightarrow> int \<Rightarrow> string \<Rightarrow> subledger_row list \<Rightarrow> py_exc + subledger_balance" where
  "entity_balance entity st d cur rs =
     (let live = filter (\<lambda>r. sr_entity_id r = entity) (rows_as_of st d cur rs)
      in rbind (money_of (column_sum sr_debit_amount live) cur) (\<lambda>dt.
         rbind (money_of (column_sum sr_credit_amount live) cur) (\<lambda>ct.
         rbind (money_of (net_balance st live) cur) (\<lambda>bal.
           Inr \<lparr>sb_entity_id = entity, sb_subledger_type = subledger_value st, sb_as_of_date = d, sb_debit_total = dt,
                sb_credit_total = ct, sb_balance = bal, sb_open_item_count = length (filter row_open live), sb_currency = cur\<rparr>))))"

definition service_balance ::
    "subledger_service \<Rightarrow> string \<Rightarrow> int option \<Rightarrow> string option \<Rightarrow> int \<Rightarrow> subledger_row list \<Rightarrow> py_exc + subledger_balance" where
  "service_balance sv entity as_of cur today rs =
     entity_balance entity (su_subledger_type sv) (case as_of of None \<Rightarrow> today | Some d \<Rightarrow> d)
       (case cur of Some (c # cs) \<Rightarrow> c # cs | _ \<Rightarrow> ''USD'') rs"

definition aggregate_balance :: "subledger_type \<Rightarrow> int \<Rightarrow> string \<Rightarrow> subledger_row list \<Rightarrow> py_exc + money" where
  "aggregate_balance st d cur rs = money_of (net_balance st (rows_as_of st d cur rs)) cur"

definition count_entries :: "subledger_type \<Rightarrow> int option \<Rightarrow> string option \<Rightarrow> subledger_row list \<Rightarrow> nat" where
  "count_entries st as_of cur rs =
     length (filter (\<lambda>r. sr_subledger_type r = subledger_value st
       \<and> (case as_of of None \<Rightarrow> True | Some d \<Rightarrow> sr_effective_date r \<le> d)
       \<and> (case cur of None \<Rightarrow> True | Some c \<Rightarrow> sr_currency r = c)) rs)"

section \<open>The bridge from the journal\<close>

definition ENTITY_ID_FIELDS :: "(string \<times> string list) list" where
  "ENTITY_ID_FIELDS =
     [(''AP'', [''vendor_id'', ''supplier_id'']), (''AR'', [''customer_id'']),
      (''INVENTORY'', [''item_id'', ''sku'', ''inventory_item_id'']), (''BANK'', [''bank_account_id'', ''account_id'']),
      (''WIP'', [''contract_id''])]"

fun first_field :: "string list \<Rightarrow> (string \<times> json) list \<Rightarrow> string option" where
  "first_field [] kvs = None"
| "first_field (f # fs) kvs =
     (case map_of kvs f of Some v \<Rightarrow> if v = JNull then first_field fs kvs else Some (py_str v) | None \<Rightarrow> first_field fs kvs)"

definition resolve_entity_id :: "string \<Rightarrow> (string \<times> json) list \<Rightarrow> string option" where
  "resolve_entity_id v kvs = first_field (or_empty (map_of ENTITY_ID_FIELDS v)) kvs"

definition derive_source_document_type :: "string \<Rightarrow> string" where
  "derive_source_document_type et =
     (let parts = split_char CHR ''.'' et in if 2 \<le> length parts then upper (last parts) else upper et)"

record bridge_env =
  bg_journals :: "uuid \<Rightarrow> bool"
  bg_new_id :: "string \<Rightarrow> nat \<Rightarrow> uuid"
  bg_now :: int
  bg_actor :: uuid
  bg_event_id :: uuid
  bg_event_type :: string
  bg_payload :: "(string \<times> json) list"

definition line_entry :: "bridge_env \<Rightarrow> string \<Rightarrow> string \<Rightarrow> int \<Rightarrow> nat \<times> intent_line \<Rightarrow> py_exc + subledger_entry" where
  "line_entry bg v entity eff il =
     new_entry (bg_new_id bg v (fst il)) v entity (derive_source_document_type (bg_event_type bg)) (uuid_str (bg_event_id bg))
       (Some (str_of_nat (fst il)))
       (if il_side (snd il) = INTENT_DEBIT then Some (il_money (snd il)) else None)
       (if il_side (snd il) = INTENT_DEBIT then None else Some (il_money (snd il)))
       (Some eff) (or_empty (il_memo (snd il))) [] (or_empty (il_dimensions (snd il)))"

definition post_line ::
    "bridge_env \<Rightarrow> subledger_service \<Rightarrow> string \<Rightarrow> string \<Rightarrow> int \<Rightarrow> uuid \<Rightarrow> nat \<times> intent_line \<Rightarrow> subledger_session
     \<Rightarrow> py_exc + subledger_session" where
  "post_line bg sv v entity eff gl il s =
     rbind (line_entry bg v entity eff il) (\<lambda>e.
       rmap snd (service_post sv (bg_journals bg) (bg_new_id bg v (fst il)) e gl (bg_now bg) (bg_actor bg) s))"

text \<open>One ledger intent: skipped unless it is a subledger's, has a service, a journal entry and an entity.\<close>

definition intent_target ::
    "bridge_env \<Rightarrow> (subledger_type \<rightharpoonup> subledger_service) \<Rightarrow> written_entry list \<Rightarrow> ledger_intent
     \<Rightarrow> (subledger_service \<times> string \<times> string \<times> uuid) option" where
  "intent_target bg services written li =
     (case subledger_of (li_ledger_id li) of
        None \<Rightarrow> None
      | Some st \<Rightarrow>
          (case (services st, map_of (rev (map (\<lambda>w. (we_ledger_id w, we_entry_id w)) written)) (li_ledger_id li)) of
             (Some sv, Some gl) \<Rightarrow> map_option (\<lambda>entity. (sv, subledger_value st, entity, gl)) (resolve_entity_id (subledger_value st) (bg_payload bg))
           | _ \<Rightarrow> None))"

definition post_intent ::
    "bridge_env \<Rightarrow> (subledger_type \<rightharpoonup> subledger_service) \<Rightarrow> written_entry list \<Rightarrow> int \<Rightarrow> ledger_intent \<Rightarrow> subledger_session
     \<Rightarrow> py_exc + subledger_session" where
  "post_intent bg services written eff li s =
     (case intent_target bg services written li of
        None \<Rightarrow> Inr s
      | Some (sv, v, entity, gl) \<Rightarrow> rfold (post_line bg sv v entity eff gl) (enumerate 0 (li_lines li)) s)"

definition post_subledger_entries ::
    "bridge_env \<Rightarrow> (subledger_type \<rightharpoonup> subledger_service) \<Rightarrow> accounting_intent \<Rightarrow> write_result \<Rightarrow> subledger_session
     \<Rightarrow> py_exc + subledger_session" where
  "post_subledger_entries bg services intent jr s =
     rfold (post_intent bg services (wr_entries jr) (ai_effective_date intent)) (ai_ledger_intents intent) s"

section \<open>What the bridge adds\<close>

lemma subledger_of_value [simp]: "subledger_of (subledger_value t) = Some t"
  by (cases t) (simp_all add: subledger_of_def)

lemma subledger_of_Some: "subledger_of v = Some t \<longleftrightarrow> v = subledger_value t"
proof
  assume "subledger_of v = Some t"
  then show "v = subledger_value t" unfolding subledger_of_def find_Some_iff by blast
qed simp

lemma subledger_value_nonempty [simp]: "subledger_value t \<noteq> []"
  by (cases t) simp_all

lemma subledger_value_inj [simp]: "subledger_value s = subledger_value t \<longleftrightarrow> s = t"
  using subledger_of_value by (metis option.inject)

lemma service_types: "subledger_services st = Some sv \<Longrightarrow> su_subledger_type sv = st"
  by (auto simp: subledger_services_def ap_service_def ar_service_def bank_service_def inventory_service_def
      contract_service_def split: if_splits)

text \<open>The rows of one ledger intent, and of all, without the session.\<close>

definition bridge_row :: "bridge_env \<Rightarrow> subledger_service \<Rightarrow> string \<Rightarrow> string \<Rightarrow> int \<Rightarrow> uuid \<Rightarrow> nat \<times> intent_line \<Rightarrow> subledger_row" where
  "bridge_row bg sv v entity eff gl il =
     (let l = snd il; debit = (il_side l = INTENT_DEBIT)
      in \<lparr>sr_id = bg_new_id bg v (fst il), sr_subledger_type = subledger_value (su_subledger_type sv), sr_entity_id = entity,
          sr_journal_entry_id = gl, sr_journal_line_id = None,
          sr_source_document_type = derive_source_document_type (bg_event_type bg),
          sr_source_document_id = uuid_str (bg_event_id bg), sr_source_line_id = Some (str_of_nat (fst il)),
          sr_debit_amount = (if debit then Some (il_amount l) else None),
          sr_credit_amount = (if debit then None else Some (il_amount l)), sr_currency = il_currency l,
          sr_effective_date = eff, sr_posted_at = Some (bg_now bg), sr_status = RECON_OPEN, sr_reconciled_amount = None,
          sr_memo = or_none (or_empty (il_memo l)), sr_reference = None, sr_dimensions = or_none (or_empty (il_dimensions l)),
          sr_created_by_id = bg_actor bg\<rparr>)"

definition bridge_rows ::
    "bridge_env \<Rightarrow> (subledger_type \<rightharpoonup> subledger_service) \<Rightarrow> written_entry list \<Rightarrow> int \<Rightarrow> ledger_intent \<Rightarrow> subledger_row list" where
  "bridge_rows bg services written eff li =
     (case intent_target bg services written li of
        None \<Rightarrow> []
      | Some (sv, v, entity, gl) \<Rightarrow> map (bridge_row bg sv v entity eff gl) (enumerate 0 (li_lines li)))"

text \<open>What the services demand of a line; the subledger type and the document identifier are never empty.\<close>

definition line_accepted :: "bridge_env \<Rightarrow> subledger_service \<Rightarrow> string \<Rightarrow> intent_line \<Rightarrow> bool" where
  "line_accepted bg sv entity l \<longleftrightarrow>
     entity \<noteq> [] \<and> derive_source_document_type (bg_event_type bg) \<noteq> []
     \<and> derive_source_document_type (bg_event_type bg) \<in> set (su_document_types sv) \<and> il_amount l \<noteq> 0"

definition intent_accepted ::
    "bridge_env \<Rightarrow> (subledger_type \<rightharpoonup> subledger_service) \<Rightarrow> written_entry list \<Rightarrow> ledger_intent \<Rightarrow> bool" where
  "intent_accepted bg services written li =
     (case intent_target bg services written li of
        None \<Rightarrow> True | Some (sv, v, entity, gl) \<Rightarrow> list_all (line_accepted bg sv entity) (li_lines li))"

primrec conflict_free :: "subledger_row list \<Rightarrow> subledger_row list \<Rightarrow> bool" where
  "conflict_free [] rs \<longleftrightarrow> True"
| "conflict_free (r # new) rs \<longleftrightarrow> \<not> list_ex (row_conflict r) rs \<and> conflict_free new (rs @ [r])"

lemma conflict_free_append: "conflict_free (xs @ ys) rs \<longleftrightarrow> conflict_free xs rs \<and> conflict_free ys (rs @ xs)"
  by (induction xs arbitrary: rs) auto

lemma or_none_or_empty [simp]: "or_none [] = None" "or_empty None = []" "or_empty (or_none xs) = xs"
  by (simp_all add: or_none_def or_empty_def)

lemma bridge_row_readable:
  assumes "wf_intent_line l" "il_amount l \<noteq> 0"
  shows "\<exists>e. model_to_entry (bridge_row bg sv v entity eff gl (n, l)) = Inr e"
  using assms by (auto simp: model_to_entry_def bridge_row_def stored_money_def wf_intent_line_def il_currency_def
      money_of_wf_code mk_subledger_entry_def Let_def)

lemma post_line_eq:
  assumes "bg_journals bg gl" "\<not> list_ex (row_conflict (bridge_row bg sv v entity eff gl (n, l))) (ss_working s)"
    and "wf_intent_line l" "v \<noteq> []"
  shows "post_line bg sv v entity eff gl (n, l) s =
     (if line_accepted bg sv entity l
      then Inr (s\<lparr>ss_working := ss_working s @ [bridge_row bg sv v entity eff gl (n, l)]\<rparr>) else Inl ValueError)"
proof -
  define e where "e = \<lparr>se_entry_id = bg_new_id bg v n, se_subledger_type = v, se_entity_id = entity,
    se_source_document_type = derive_source_document_type (bg_event_type bg), se_source_document_id = uuid_str (bg_event_id bg),
    se_source_line_id = Some (str_of_nat n), se_gl_entry_id = None, se_gl_line_id = None,
    se_debit = (if il_side l = INTENT_DEBIT then Some (il_money l) else None),
    se_credit = (if il_side l = INTENT_DEBIT then None else Some (il_money l)), se_effective_date = Some eff, se_posted_at = None,
    se_status = RECON_OPEN, se_reconciled_amount = None, se_reconciled_to_ids = [], se_memo = or_empty (il_memo l),
    se_reference = [], se_dimensions = or_empty (il_dimensions l)\<rparr>"
  have le: "line_entry bg v entity eff (n, l) = Inr e"
    by (simp add: line_entry_def new_entry_def mk_subledger_entry_def e_def)
  have amt: "se_amount e = il_money l" by (simp add: se_amount_def e_def)
  have doc: "uuid_str u \<noteq> []" for u using length_uuid_str [of u] by fastforce
  have valid: "validate_entry e = [] \<and> se_source_document_type e \<in> set (su_document_types sv) \<longleftrightarrow> line_accepted bg sv entity l"
    using doc assms(4) by (auto simp: validate_entry_def amt line_accepted_def money_is_zero_def il_amount_def) (simp_all add: e_def)
  show ?thesis
  proof (cases "line_accepted bg sv entity l")
    case False
    then show ?thesis using valid by (auto simp: post_line_def le service_post_def)
  next
    case True
    have row: "row_of_entry (bg_new_id bg v n) (su_subledger_type sv) e eff gl (bg_now bg) (bg_actor bg)
        = bridge_row bg sv v entity eff gl (n, l)"
      using str_of_nat_nonempty [of n]
      by (simp add: row_of_entry_def bridge_row_def se_currency_def amt il_currency_def il_amount_def Let_def line_key_def)
        (simp add: e_def or_none_def)
    have eff: "se_effective_date e = Some eff" by (simp add: e_def)
    have jr: "sr_journal_entry_id (bridge_row bg sv v entity eff gl (n, l)) = gl" by (simp add: bridge_row_def Let_def)
    have fl: "flush_entry (bg_journals bg) (bg_new_id bg v n) (su_subledger_type sv) e gl (bg_now bg) (bg_actor bg) (ss_working s)
        = Inr (bridge_row bg sv v entity eff gl (n, l), ss_working s @ [bridge_row bg sv v entity eff gl (n, l)])"
      using assms(1,2) by (simp add: flush_entry_def eff row Let_def insert_subledger_row_def jr)
    obtain x where "model_to_entry (bridge_row bg sv v entity eff gl (n, l)) = Inr x"
      using bridge_row_readable assms(3) True by (meson line_accepted_def)
    then show ?thesis using valid True by (simp add: post_line_def le service_post_def post_subledger_entry_def fl)
  qed
qed

lemma post_lines_eq:
  assumes "bg_journals bg gl" "list_all wf_intent_line (map snd ls)" "v \<noteq> []"
    and "conflict_free (map (bridge_row bg sv v entity eff gl) ls) (ss_working s)"
  shows "rfold (post_line bg sv v entity eff gl) ls s =
     (if list_all (line_accepted bg sv entity) (map snd ls)
      then Inr (s\<lparr>ss_working := ss_working s @ map (bridge_row bg sv v entity eff gl) ls\<rparr>) else Inl ValueError)"
  using assms(2,4)
proof (induction ls arbitrary: s)
  case (Cons il ls)
  obtain n l where il: "il = (n, l)" by (cases il)
  from Cons.prems show ?case
    using post_line_eq [OF assms(1), of sv v entity eff n l s] Cons.IH [of "s\<lparr>ss_working := ss_working s @ [bridge_row bg sv v entity eff gl (n, l)]\<rparr>"]
      assms(3) by (simp add: il)
qed simp

lemma intent_target_facts:
  assumes "intent_target bg services written li = Some (sv, v, entity, gl)"
  obtains st where "li_ledger_id li = subledger_value st" "services st = Some sv" "v = subledger_value st"
    "gl \<in> we_entry_id ` set written" "resolve_entity_id v (bg_payload bg) = Some entity"
proof -
  from assms obtain st where st: "subledger_of (li_ledger_id li) = Some st" "services st = Some sv" "v = subledger_value st"
    "map_of (rev (map (\<lambda>w. (we_ledger_id w, we_entry_id w)) written)) (li_ledger_id li) = Some gl"
    "resolve_entity_id v (bg_payload bg) = Some entity"
    by (auto simp: intent_target_def split: option.splits)
  then have "gl \<in> we_entry_id ` set written" by (auto dest!: map_of_SomeD)
  with st show thesis using that by (simp add: subledger_of_Some)
qed

lemma post_intent_eq:
  assumes "\<And>w. w \<in> set written \<Longrightarrow> bg_journals bg (we_entry_id w)" "wf_ledger_intent li"
    and "conflict_free (bridge_rows bg services written eff li) (ss_working s)"
  shows "post_intent bg services written eff li s =
     (if intent_accepted bg services written li
      then Inr (s\<lparr>ss_working := ss_working s @ bridge_rows bg services written eff li\<rparr>) else Inl ValueError)"
proof (cases "intent_target bg services written li")
  case None
  then show ?thesis by (simp add: post_intent_def intent_accepted_def bridge_rows_def)
next
  case (Some t)
  obtain sv v entity gl where t: "t = (sv, v, entity, gl)" by (cases t)
  obtain st where st: "v = subledger_value st" "gl \<in> we_entry_id ` set written"
    using intent_target_facts Some t by metis
  have gl: "bg_journals bg gl" using assms(1) st(2) by blast
  have v: "v \<noteq> []" using st(1) by simp
  have wf: "list_all wf_intent_line (map snd (enumerate 0 (li_lines li)))"
    using assms(2) by (simp add: wf_ledger_intent_def)
  have cf: "conflict_free (map (bridge_row bg sv v entity eff gl) (enumerate 0 (li_lines li))) (ss_working s)"
    using assms(3) by (simp add: bridge_rows_def Some t)
  show ?thesis
    using post_lines_eq [OF gl wf v cf] by (simp add: post_intent_def intent_accepted_def bridge_rows_def Some t)
qed

text \<open>The bridge appends exactly these rows, or refuses with a ValueError.\<close>

lemma bridge_eq:
  assumes "\<And>w. w \<in> set (wr_entries jr) \<Longrightarrow> bg_journals bg (we_entry_id w)" "list_all wf_ledger_intent (ai_ledger_intents intent)"
    and "conflict_free (concat (map (bridge_rows bg services (wr_entries jr) (ai_effective_date intent)) (ai_ledger_intents intent))) (ss_working s)"
  shows "post_subledger_entries bg services intent jr s =
     (if list_all (intent_accepted bg services (wr_entries jr)) (ai_ledger_intents intent)
      then Inr (s\<lparr>ss_working := ss_working s
        @ concat (map (bridge_rows bg services (wr_entries jr) (ai_effective_date intent)) (ai_ledger_intents intent))\<rparr>)
      else Inl ValueError)"
proof -
  have "rfold (post_intent bg services (wr_entries jr) eff) lis s =
     (if list_all (intent_accepted bg services (wr_entries jr)) lis
      then Inr (s\<lparr>ss_working := ss_working s @ concat (map (bridge_rows bg services (wr_entries jr) eff) lis)\<rparr>)
      else Inl ValueError)"
    if "list_all wf_ledger_intent lis" "conflict_free (concat (map (bridge_rows bg services (wr_entries jr) eff) lis)) (ss_working s)"
    for lis eff
    using that
  proof (induction lis arbitrary: s)
    case (Cons li lis)
    let ?rows = "bridge_rows bg services (wr_entries jr) eff"
    have wf: "wf_ledger_intent li" and cf: "conflict_free (?rows li) (ss_working s)"
      using Cons.prems by (simp_all add: conflict_free_append)
    show ?case
      using post_intent_eq [OF assms(1) wf cf] Cons.IH [of "s\<lparr>ss_working := ss_working s @ ?rows li\<rparr>"] Cons.prems
      by (simp add: conflict_free_append)
  qed simp
  then show ?thesis using assms(2,3) by (simp add: post_subledger_entries_def)
qed

end
