(* ===== verification/Subledger_Properties.thy ===== *)
theory Subledger_Properties
  imports Subledger
begin

text \<open>
  Properties of the subledgers: the table keeps a named line of a journal entry once and a repeated post answers with the
  stored entry; matching a debit with a credit moves exactly the matched amount; the bridge refuses an
  event whose type is no document type of the service; and whatever it posts for a balanced intent leaves
  every balance of the subledger at zero.
\<close>

section \<open>Balances after the bridge\<close>

definition live_rows :: "subledger_type \<Rightarrow> string \<Rightarrow> int \<Rightarrow> string \<Rightarrow> subledger_row list \<Rightarrow> subledger_row list" where
  "live_rows st entity d cur rs = filter (\<lambda>r. sr_entity_id r = entity) (rows_as_of st d cur rs)"

definition netted :: "subledger_row list \<Rightarrow> bool" where
  "netted rs \<longleftrightarrow> (\<forall>st d cur. column_sum sr_debit_amount (rows_as_of st d cur rs) = column_sum sr_credit_amount (rows_as_of st d cur rs)
     \<and> (\<forall>entity. column_sum sr_debit_amount (live_rows st entity d cur rs) = column_sum sr_credit_amount (live_rows st entity d cur rs)))"

lemma rows_append [simp]:
  "rows_as_of st d cur (xs @ ys) = rows_as_of st d cur xs @ rows_as_of st d cur ys"
  "live_rows st entity d cur (xs @ ys) = live_rows st entity d cur xs @ live_rows st entity d cur ys"
  "column_sum col (xs @ ys) = column_sum col xs + column_sum col ys"
  by (simp_all add: rows_as_of_def live_rows_def column_sum_def List.map_filter_def)

lemma column_sum_Nil [simp]: "column_sum col [] = 0"
  by (simp add: column_sum_def List.map_filter_simps)

lemma netted_Nil [simp]: "netted []"
  by (simp add: netted_def rows_as_of_def live_rows_def)

lemma netted_append: "netted xs \<Longrightarrow> netted ys \<Longrightarrow> netted (xs @ ys)"
  by (simp add: netted_def)

lemma netted_concat: "\<forall>rs \<in> set rss. netted rs \<Longrightarrow> netted (concat rss)"
  by (induction rss) (auto intro: netted_append)

text \<open>The columns of the rows of one intent are the two sides of its lines.\<close>

lemma bridge_columns:
  assumes "list_all wf_intent_line (map snd ls)"
  shows "column_sum sr_debit_amount (filter (\<lambda>r. sr_currency r = cur) (map (bridge_row bg sv v entity eff gl) ls))
      = sum_list (il_side_amounts INTENT_DEBIT (Some cur) (map snd ls))"
    and "column_sum sr_credit_amount (filter (\<lambda>r. sr_currency r = cur) (map (bridge_row bg sv v entity eff gl) ls))
      = sum_list (il_side_amounts INTENT_CREDIT (Some cur) (map snd ls))"
  using assms
  by (induction ls) (auto simp: column_sum_def List.map_filter_simps il_side_amounts_def bridge_row_def Let_def wf_intent_line_def
      INTENT_DEBIT_def INTENT_CREDIT_def)

lemma sum_list_filter_le_rat: "sum_list (map abs (map f (filter P xs))) \<le> sum_list (map abs (map (f :: 'a \<Rightarrow> rat) xs))"
  by (induction xs) (auto intro: order_trans)

lemma exact_terms_map_filter:
  assumes "exact_terms k (map f xs)"
  shows "exact_terms k (map f (filter P xs))"
proof (rule exact_terms_le [OF assms _ sum_list_filter_le_rat])
  show "list_all (on_grid k) (map f (filter P xs))" using assms by (auto simp: exact_terms_def list_all_iff)
qed

lemma balanced_sides:
  assumes "li_is_balanced li None" "exact_terms k (map il_amount (li_lines li))"
  shows "sum_list (il_side_amounts INTENT_DEBIT (Some cur) (li_lines li)) = sum_list (il_side_amounts INTENT_CREDIT (Some cur) (li_lines li))"
proof (cases "cur \<in> set (li_currencies li)")
  case True
  have "exact_terms k (il_side_amounts side (Some cur) (li_lines li))" for side
    unfolding il_side_amounts_def by (rule exact_terms_map_filter [OF assms(2)])
  then have "dsum (il_side_amounts side (Some cur) (li_lines li)) = sum_list (il_side_amounts side (Some cur) (li_lines li))" for side
    by (rule dsum_exact)
  then show ?thesis
    using assms(1) True by (auto simp: li_is_balanced_def list_all_iff li_total_debits_def li_total_credits_def)
next
  case False
  then have "il_side_amounts side (Some cur) (li_lines li) = []" for side
    by (auto simp: il_side_amounts_def li_currencies_def filter_empty_conv)
  then show ?thesis by simp
qed

lemma bridge_rows_netted:
  assumes "wf_ledger_intent li" "li_is_balanced li None" "exact_terms k (map il_amount (li_lines li))"
  shows "netted (bridge_rows bg services written eff li)"
proof (cases "intent_target bg services written li")
  case None
  then show ?thesis by (simp add: bridge_rows_def)
next
  case (Some t)
  obtain sv v entity gl where t: "t = (sv, v, entity, gl)" by (cases t)
  define new where "new = map (bridge_row bg sv v entity eff gl) (enumerate 0 (li_lines li))"
  have wf: "list_all wf_intent_line (map snd (enumerate 0 (li_lines li)))" using assms(1) by (simp add: wf_ledger_intent_def)
  have sides: "column_sum sr_debit_amount (filter (\<lambda>r. sr_currency r = cur) new)
      = column_sum sr_credit_amount (filter (\<lambda>r. sr_currency r = cur) new)" for cur
    using bridge_columns [OF wf] balanced_sides [OF assms(2,3)] by (simp add: new_def)
  have shape: "sr_subledger_type r = subledger_value (su_subledger_type sv) \<and> sr_effective_date r = eff \<and> sr_entity_id r = entity"
    if "r \<in> set new" for r
    using that by (auto simp: new_def bridge_row_def Let_def)
  have keep: "filter (\<lambda>r. P r \<and> sr_currency r = cur \<and> Q r) new = (if b then filter (\<lambda>r. sr_currency r = cur) new else [])"
    if "\<And>r. r \<in> set new \<Longrightarrow> (P r \<and> Q r) = b" for P Q cur b
    using that by (auto simp: filter_empty_conv intro!: filter_cong)
  have rows: "rows_as_of st d cur new = (if su_subledger_type sv = st \<and> eff \<le> d then filter (\<lambda>r. sr_currency r = cur) new else [])"
    for st d cur
    unfolding rows_as_of_def by (rule keep) (use shape in auto)
  have "live_rows st e d cur new = (if entity = e then rows_as_of st d cur new else [])" for st e d cur
    unfolding live_rows_def using shape by (auto simp: rows filter_empty_conv intro!: filter_True)
  then show ?thesis
    using sides by (simp add: bridge_rows_def Some t netted_def rows new_def [symmetric])
qed

lemma netted_net:
  assumes "netted rs"
  shows "net_balance st (rows_as_of st d cur rs) = 0" "net_balance st (live_rows st entity d cur rs) = 0"
proof -
  have "column_sum sr_debit_amount (rows_as_of st d cur rs) = column_sum sr_credit_amount (rows_as_of st d cur rs)"
    "column_sum sr_debit_amount (live_rows st entity d cur rs) = column_sum sr_credit_amount (live_rows st entity d cur rs)"
    using assms unfolding netted_def by blast+
  then show "net_balance st (rows_as_of st d cur rs) = 0" "net_balance st (live_rows st entity d cur rs) = 0"
    by (simp_all add: net_balance_def)
qed

lemma netted_balance: "netted rs \<Longrightarrow> aggregate_balance st d cur rs = money_of 0 cur"
  by (simp add: aggregate_balance_def netted_net)

lemma netted_entity:
  assumes "netted rs" "entity_balance entity st d cur rs = Inr b"
  shows "amount (sb_balance b) = 0"
  using assms(2) netted_net(2) [OF assms(1), unfolded live_rows_def]
  by (auto simp: entity_balance_def Let_def rbind_eq_Inr money_of_def rmap_eq_Inr)

text \<open>What an event's rows add to a netted table is netted, and so is every table the bridge alone has filled.\<close>

lemma bridge_keeps_netted:
  assumes "netted (ss_working s)" "list_all wf_ledger_intent (ai_ledger_intents intent)" "all_balanced intent"
    and "\<forall>li \<in> set (ai_ledger_intents intent). exact_terms k (map il_amount (li_lines li))"
    and "\<forall>w \<in> set (wr_entries jr). bg_journals bg (we_entry_id w)"
    and "conflict_free (concat (map (bridge_rows bg services (wr_entries jr) (ai_effective_date intent)) (ai_ledger_intents intent))) (ss_working s)"
    and "post_subledger_entries bg services intent jr s = Inr s'"
  shows "netted (ss_working s')"
proof -
  have "ss_working s' = ss_working s
      @ concat (map (bridge_rows bg services (wr_entries jr) (ai_effective_date intent)) (ai_ledger_intents intent))"
    using bridge_eq [OF _ assms(2,6)] assms(5,7) by (auto split: if_splits)
  moreover have "netted (concat (map (bridge_rows bg services (wr_entries jr) (ai_effective_date intent)) (ai_ledger_intents intent)))"
    using assms(2-4) by (intro netted_concat) (auto simp: all_balanced_def list_all_iff intro!: bridge_rows_netted)
  ultimately show ?thesis using assms(1) by (simp add: netted_append)
qed

inductive bridged :: "subledger_row list \<Rightarrow> bool" where
  bridged_Nil: "bridged []"
| bridged_event: "bridged (ss_working s) \<Longrightarrow> list_all wf_ledger_intent (ai_ledger_intents intent) \<Longrightarrow> all_balanced intent \<Longrightarrow>
     (\<And>li. li \<in> set (ai_ledger_intents intent) \<Longrightarrow> exact_terms k (map il_amount (li_lines li))) \<Longrightarrow>
     (\<And>w. w \<in> set (wr_entries jr) \<Longrightarrow> bg_journals bg (we_entry_id w)) \<Longrightarrow>
     conflict_free (concat (map (bridge_rows bg services (wr_entries jr) (ai_effective_date intent)) (ai_ledger_intents intent))) (ss_working s) \<Longrightarrow>
     post_subledger_entries bg services intent jr s = Inr s' \<Longrightarrow> bridged (ss_working s')"

lemma bridged_netted: "bridged rs \<Longrightarrow> netted rs"
proof (induction rule: bridged.induct)
  case (bridged_event s intent k jr bg services s')
  then show ?case by (intro bridge_keeps_netted [OF bridged_event.IH _ _ _ _ bridged_event.hyps(6,7)]) blast+
qed simp

text \<open>
  Property C16. Whatever the bridge posts nets to nothing: it writes an entry for the debit and for the credit lines of
  a subledger intent, which balance in every currency. If the table was built this way, every entity and every subledger
  type has balance zero at every date, and so it has after the next event.
\<close>

theorem bridge_nets_to_zero:
  assumes "netted (ss_working s)" "list_all wf_ledger_intent (ai_ledger_intents intent)" "all_balanced intent"
    and "\<forall>li \<in> set (ai_ledger_intents intent). exact_terms k (map il_amount (li_lines li))"
    and "\<forall>w \<in> set (wr_entries jr). bg_journals bg (we_entry_id w)"
    and "conflict_free (concat (map (bridge_rows bg services (wr_entries jr) (ai_effective_date intent)) (ai_ledger_intents intent))) (ss_working s)"
    and "post_subledger_entries bg services intent jr s = Inr s'"
  shows "netted (ss_working s')
    \<and> (\<forall>st d cur m. aggregate_balance st d cur (ss_working s') = Inr m \<longrightarrow> amount m = 0)
    \<and> (\<forall>entity st d cur b. entity_balance entity st d cur (ss_working s') = Inr b \<longrightarrow> amount (sb_balance b) = 0)"
proof -
  have n: "netted (ss_working s')" by (rule bridge_keeps_netted [OF assms])
  moreover have "aggregate_balance st d cur (ss_working s') = Inr m \<Longrightarrow> amount m = 0" for st d cur m
    using n by (auto simp: netted_balance money_of_def rmap_eq_Inr)
  ultimately show ?thesis using netted_entity by blast
qed

section \<open>Matching\<close>

definition storable :: "decimal \<Rightarrow> bool" where
  "storable x \<longleftrightarrow> on_grid 9 x \<and> \<bar>x\<bar> * 10 ^ 9 < 10 ^ 28"

definition reconciled_value :: "subledger_entry \<Rightarrow> decimal" where
  "reconciled_value e = (case se_reconciled_amount e of None \<Rightarrow> 0 | Some r \<Rightarrow> amount r)"

definition open_value :: "subledger_entry \<Rightarrow> decimal" where
  "open_value e = amount (se_amount e) - reconciled_value e"

definition recon_ok :: "subledger_entry \<Rightarrow> bool" where
  "recon_ok e \<longleftrightarrow> (se_debit e = None) \<noteq> (se_credit e = None) \<and> storable (amount (se_amount e)) \<and> 0 < amount (se_amount e)
     \<and> (case se_reconciled_amount e of
          None \<Rightarrow> se_status e = RECON_OPEN
        | Some r \<Rightarrow> currency r = currency (se_amount e) \<and> on_grid 9 (amount r) \<and> 0 < amount r \<and> amount r \<le> amount (se_amount e)
            \<and> se_status e = (if amount r = amount (se_amount e) then RECON_RECONCILED else RECON_PARTIAL))"

lemma storable_dfix: "on_grid 9 y \<Longrightarrow> 0 \<le> y \<Longrightarrow> y \<le> x \<Longrightarrow> storable x \<Longrightarrow> dfix y = y"
  by (rule dfix_grid [of 9]) (auto simp: storable_def)

lemma recon_ok_open:
  assumes "recon_ok e"
  shows "se_open_amount e = Inr \<lparr>amount = open_value e, currency = currency (se_amount e)\<rparr>" "0 \<le> open_value e" "on_grid 9 (open_value e)"
    "se_is_open e \<longleftrightarrow> 0 < open_value e"
proof -
  show g: "on_grid 9 (open_value e)" "0 \<le> open_value e"
    using assms by (auto simp: recon_ok_def open_value_def reconciled_value_def storable_def split: option.splits)
  have "storable (amount (se_amount e))" "open_value e \<le> amount (se_amount e)"
    using assms by (auto simp: recon_ok_def open_value_def reconciled_value_def split: option.splits)
  then have "dfix (open_value e) = open_value e" using storable_dfix g by blast
  then show "se_open_amount e = Inr \<lparr>amount = open_value e, currency = currency (se_amount e)\<rparr>"
    using assms by (auto simp: recon_ok_def se_open_amount_def open_value_def reconciled_value_def money_sub_def dsub_def
        split: option.splits)
  show "se_is_open e \<longleftrightarrow> 0 < open_value e"
    using assms by (auto simp: recon_ok_def se_is_open_def open_value_def reconciled_value_def split: option.splits if_splits)
qed

lemma with_reconciliation_ok:
  assumes "recon_ok e" "currency m = currency (se_amount e)" "on_grid 9 (amount m)" "0 < amount m" "amount m \<le> open_value e"
  obtains e' where "with_reconciliation m other e = Inr e'" "recon_ok e'" "open_value e' = open_value e - amount m"
    "se_status e' = RECON_RECONCILED \<longleftrightarrow> amount m = open_value e" "se_amount e' = se_amount e"
proof -
  define n where "n = \<lparr>amount = reconciled_value e + amount m, currency = currency (se_amount e)\<rparr>"
  have bound: "0 < amount n" "amount n \<le> amount (se_amount e)" "on_grid 9 (amount n)"
    using assms by (auto simp: n_def open_value_def recon_ok_def reconciled_value_def split: option.splits)
  then have "dfix (amount n) = amount n"
    using storable_dfix [OF bound(3) _ bound(2)] assms(1) by (simp add: recon_ok_def)
  then have new: "(case se_reconciled_amount e of Some r \<Rightarrow> money_add r m | None \<Rightarrow> Inr m) = Inr n"
    using assms(1,2) by (cases "se_reconciled_amount e") (auto simp: n_def recon_ok_def reconciled_value_def money_add_def dadd_def)
  define e' where "e' = e\<lparr>
         se_status := (if amount (se_amount e) \<le> amount n then RECON_RECONCILED
                       else if 0 < amount n then RECON_PARTIAL else RECON_OPEN),
         se_reconciled_amount := Some n, se_reconciled_to_ids := se_reconciled_to_ids e @ [other]\<rparr>"
  have sides: "se_debit e' = se_debit e" "se_credit e' = se_credit e" by (simp_all add: e'_def)
  then have amt: "se_amount e' = se_amount e" by (cases "se_debit e") (simp_all add: se_amount_def)
  have "mk_subledger_entry e' = Inr e'" using assms(1) by (auto simp: recon_ok_def mk_subledger_entry_def sides)
  then have w: "with_reconciliation m other e = Inr e'" by (simp add: with_reconciliation_def new e'_def)
  have st: "se_status e' = (if amount n = amount (se_amount e) then RECON_RECONCILED else RECON_PARTIAL)"
    using bound by (simp add: e'_def)
  have r: "se_reconciled_amount e' = Some n" by (simp add: e'_def)
  have "recon_ok e'"
    using assms(1) bound by (simp add: recon_ok_def amt sides st r) (simp add: n_def)
  moreover have "open_value e' = open_value e - amount m"
    by (simp add: open_value_def reconciled_value_def amt r) (simp add: n_def reconciled_value_def)
  moreover have "se_status e' = RECON_RECONCILED \<longleftrightarrow> amount m = open_value e"
    by (auto simp: st n_def open_value_def)
  ultimately show thesis using that w amt by blast
qed

lemma reconcile_entries_Inr:
  assumes "reconcile_entries i d c amt t = Inr m" "recon_ok d" "recon_ok c"
  shows "mt_reconciled_amount m = match_amount \<lparr>amount = open_value d, currency = currency (se_amount d)\<rparr>
      \<lparr>amount = open_value c, currency = currency (se_amount c)\<rparr> amt"
    "0 < amount (mt_reconciled_amount m)" "amount (mt_reconciled_amount m) \<le> open_value d" "amount (mt_reconciled_amount m) \<le> open_value c"
    "currency (se_amount c) = currency (se_amount d)"
    "mt_is_full_match m \<longleftrightarrow> amount (mt_reconciled_amount m) = open_value d \<and> amount (mt_reconciled_amount m) = open_value c"
  using assms(1) unfolding reconcile_entries_def recon_ok_open(1) [OF assms(2)] recon_ok_open(1) [OF assms(3)]
  by (auto simp: Let_def se_currency_def currency.expand split: if_splits)

text \<open>
  Property C20. A match of two consistent entries that is accepted without an amount, or with an amount in the currency of the
  entries with at most nine decimals, takes the matched amount off what is open on either side, neither more nor
  less: the amount is positive and at most what both have open, the entries stay consistent, and the match is
  full exactly when it settles both. An amount in another currency is accepted too, and leaves an entry whose open
  amount can not be computed (\<open>foreign_match_accepted\<close>).
\<close>

theorem matching_conserves:
  assumes "recon_ok d" "recon_ok c" "reconcile_entries i d c amt t = Inr m"
    and "\<forall>a. amt = Some a \<longrightarrow> currency a = currency (se_amount d) \<and> on_grid 9 (amount a)"
  shows "\<exists>d' c'. with_reconciliation (mt_reconciled_amount m) (se_entry_id c) d = Inr d'
    \<and> with_reconciliation (mt_reconciled_amount m) (se_entry_id d) c = Inr c'
    \<and> recon_ok d' \<and> recon_ok c' \<and> 0 < amount (mt_reconciled_amount m)
    \<and> open_value d' = open_value d - amount (mt_reconciled_amount m) \<and> 0 \<le> open_value d'
    \<and> open_value c' = open_value c - amount (mt_reconciled_amount m) \<and> 0 \<le> open_value c'
    \<and> (mt_is_full_match m \<longleftrightarrow> se_status d' = RECON_RECONCILED \<and> se_status c' = RECON_RECONCILED)"
proof -
  note r = reconcile_entries_Inr [OF assms(3,1,2)]
  have cur: "currency (mt_reconciled_amount m) = currency (se_amount d)" and g: "on_grid 9 (amount (mt_reconciled_amount m))"
    using r(1,5) assms(4) recon_ok_open(3) [OF assms(1)] recon_ok_open(3) [OF assms(2)]
    by (auto simp: match_amount_def split: option.splits if_splits)
  obtain d' where d: "with_reconciliation (mt_reconciled_amount m) (se_entry_id c) d = Inr d'" "recon_ok d'"
    "open_value d' = open_value d - amount (mt_reconciled_amount m)"
    "se_status d' = RECON_RECONCILED \<longleftrightarrow> amount (mt_reconciled_amount m) = open_value d"
    by (rule with_reconciliation_ok [OF assms(1) cur g r(2,3)])
  obtain c' where c: "with_reconciliation (mt_reconciled_amount m) (se_entry_id d) c = Inr c'" "recon_ok c'"
    "open_value c' = open_value c - amount (mt_reconciled_amount m)"
    "se_status c' = RECON_RECONCILED \<longleftrightarrow> amount (mt_reconciled_amount m) = open_value c"
    by (rule with_reconciliation_ok [OF assms(2) cur [folded r(5)] g r(2,4)])
  show ?thesis using d c r(2-4,6) by auto
qed

text \<open>The amount given by the caller may be in any currency: the entry then owes nothing that can be computed.\<close>

lemma foreign_match_accepted:
  assumes "recon_ok d" "recon_ok c" "se_reconciled_amount d = None" "currency a \<noteq> currency (se_amount d)"
    and "reconcile_entries i d c (Some a) t = Inr m" "with_reconciliation (mt_reconciled_amount m) (se_entry_id c) d = Inr d'"
  shows "se_open_amount d' = Inl ValueError"
proof -
  have "mt_reconciled_amount m = a"
    using reconcile_entries_Inr(1) [OF assms(5,1,2)] by (simp add: match_amount_def)
  then have "se_reconciled_amount d' = Some a" "se_debit d' = se_debit d" "se_credit d' = se_credit d"
    using assms(3,6) by (auto simp: with_reconciliation_def mk_subledger_entry_def split: if_splits)
  then show ?thesis using assms(4) by (cases "se_debit d") (auto simp: se_open_amount_def money_sub_def se_amount_def)
qed

section \<open>The table\<close>

text \<open>
  The immutability listener (\<open>finance_kernel/db/immutability.py\<close>): of a posted row only the
  reconciliation fields change, and a posted row is not deleted.
\<close>

definition financial :: "subledger_row \<Rightarrow> subledger_row" where
  "financial r = r\<lparr>sr_status := RECON_OPEN, sr_reconciled_amount := None\<rparr>"

definition subledger_update_allowed :: "subledger_row \<Rightarrow> subledger_row \<Rightarrow> bool" where
  "subledger_update_allowed r r' \<longleftrightarrow> sr_posted_at r = None \<or> financial r' = financial r"

definition subledger_delete_allowed :: "subledger_row \<Rightarrow> bool" where
  "subledger_delete_allowed r \<longleftrightarrow> sr_posted_at r = None"

definition line_of :: "subledger_row \<Rightarrow> uuid \<times> string \<times> string option" where
  "line_of r = (sr_journal_entry_id r, sr_subledger_type r, sr_source_line_id r)"

definition single_sided :: "subledger_row \<Rightarrow> bool" where
  "single_sided r \<longleftrightarrow> (\<exists>x. x \<noteq> 0 \<and> (sr_debit_amount r, sr_credit_amount r) \<in> {(Some x, None), (None, Some x)})"

definition rows_inv :: "subledger_row list \<Rightarrow> bool" where
  "rows_inv rs \<longleftrightarrow> distinct (map sr_id rs) \<and> distinct (map line_of (filter (\<lambda>r. sr_source_line_id r \<noteq> None) rs))
     \<and> (\<forall>r \<in> set rs. single_sided r \<and> sr_posted_at r \<noteq> None)"

definition session_rows_inv :: "subledger_session \<Rightarrow> bool" where
  "session_rows_inv s \<longleftrightarrow> rows_inv (ss_committed s) \<and> rows_inv (ss_working s)
     \<and> financial ` set (ss_committed s) \<subseteq> financial ` set (ss_working s)"

text \<open>What happens to the table: posts, changes and deletions the listener lets through, commit and rollback.\<close>

inductive subledger_step :: "subledger_session \<Rightarrow> subledger_session \<Rightarrow> bool" where
  post: "mk_subledger_entry e = Inr e \<Longrightarrow> service_post sv journals i e gl now actor s = Inr (x, s') \<Longrightarrow> subledger_step s s'"
| update: "r \<in> set (ss_working s) \<Longrightarrow> subledger_update_allowed r r' \<Longrightarrow>
     subledger_step s (s\<lparr>ss_working := map (\<lambda>q. if sr_id q = sr_id r then r' else q) (ss_working s)\<rparr>)"
| delete: "r \<in> set (ss_working s) \<Longrightarrow> subledger_delete_allowed r \<Longrightarrow>
     subledger_step s (s\<lparr>ss_working := filter (\<lambda>q. sr_id q \<noteq> sr_id r) (ss_working s)\<rparr>)"
| commit: "subledger_step s (s\<lparr>ss_committed := ss_working s\<rparr>)"
| rollback: "subledger_step s (s\<lparr>ss_working := ss_committed s\<rparr>)"

lemma financial_fields:
  assumes "financial r' = financial r"
  shows "sr_id r' = sr_id r" "line_of r' = line_of r" "sr_source_line_id r' = sr_source_line_id r"
    "single_sided r' = single_sided r" "sr_posted_at r' = sr_posted_at r"
proof -
  have f: "sr_id (financial q) = sr_id q" "line_of (financial q) = line_of q" "sr_source_line_id (financial q) = sr_source_line_id q"
    "single_sided (financial q) = single_sided q" "sr_posted_at (financial q) = sr_posted_at q" for q
    by (simp_all add: financial_def line_of_def single_sided_def)
  show "sr_id r' = sr_id r" "line_of r' = line_of r" "sr_source_line_id r' = sr_source_line_id r"
    "single_sided r' = single_sided r" "sr_posted_at r' = sr_posted_at r"
    using f [of r'] f [of r] assms by simp_all
qed

lemma row_conflict_iff: "row_conflict r q \<longleftrightarrow> sr_id q = sr_id r \<or> sr_source_line_id r \<noteq> None \<and> line_of q = line_of r"
  by (auto simp: row_conflict_def line_of_def)

lemma insert_row_inv:
  assumes "rows_inv rs" "\<not> list_ex (row_conflict r) rs" "single_sided r" "sr_posted_at r \<noteq> None"
  shows "rows_inv (rs @ [r])"
  using assms by (auto simp: rows_inv_def row_conflict_iff list_ex_iff image_iff)

text \<open>A post adds the row of the entry or, when the row collides, goes back to the committed rows and answers with one of them.\<close>

lemma service_post_cases:
  assumes "service_post sv journals i e gl now actor s = Inr (x, s')" "mk_subledger_entry e = Inr e"
  obtains (added) r where "ss_working s' = ss_working s @ [r]" "ss_committed s' = ss_committed s" "model_to_entry r = Inr x"
      "single_sided r" "sr_posted_at r \<noteq> None" "\<not> list_ex (row_conflict r) (ss_working s)"
      "same_source gl (su_subledger_type sv) (line_key (se_source_line_id e)) r"
  | (repeated) q where "s' = s\<lparr>ss_working := ss_committed s\<rparr>" "model_to_entry q = Inr x"
      "find (same_source gl (su_subledger_type sv) (line_key (se_source_line_id e))) (ss_committed s) = Some q"
proof -
  let ?st = "su_subledger_type sv"
  have v: "validate_entry e = []" and p: "post_subledger_entry journals i ?st e gl now actor s = Inr (x, s')"
    using assms(1) by (auto simp: service_post_def split: if_splits)
  show thesis
  proof (cases "flush_entry journals i ?st e gl now actor (ss_working s)")
    case (Inl err)
    then show ?thesis
      using p repeated by (auto simp: post_subledger_entry_def Let_def rmap_eq_Inr split: option.splits)
  next
    case (Inr y)
    then obtain eff where eff: "se_effective_date e = Some eff"
      by (cases "se_effective_date e") (simp_all add: flush_entry_def)
    define r where "r = row_of_entry i ?st e eff gl now actor"
    have y: "y = (r, ss_working s @ [r])" and c: "\<not> list_ex (row_conflict r) (ss_working s)"
      using Inr by (auto simp: flush_entry_def eff Let_def r_def [symmetric] insert_subledger_row_def split: if_splits)
    have "amount (se_amount e) \<noteq> 0"
      using v by (auto simp: validate_entry_def money_is_zero_def split: if_splits)
    then have "single_sided r"
      using assms(2) by (auto simp: mk_subledger_entry_def se_amount_def single_sided_def r_def row_of_entry_def split: option.splits if_splits)
    moreover have "sr_posted_at r \<noteq> None" "same_source gl ?st (line_key (se_source_line_id e)) r"
      by (simp_all add: r_def row_of_entry_def same_source_def)
    ultimately show ?thesis
      using p c added [of r] by (auto simp: post_subledger_entry_def Inr y rmap_eq_Inr)
  qed
qed

lemma map_update_rows:
  assumes "rows_inv rs" "r \<in> set rs" "financial r' = financial r"
  shows "map sr_id (map (\<lambda>q. if sr_id q = sr_id r then r' else q) rs) = map sr_id rs"
    "map financial (map (\<lambda>q. if sr_id q = sr_id r then r' else q) rs) = map financial rs"
proof -
  have "q = r" if "q \<in> set rs" "sr_id q = sr_id r" for q
    using assms(1,2) that by (auto simp: rows_inv_def distinct_map dest: inj_onD)
  then show "map sr_id (map (\<lambda>q. if sr_id q = sr_id r then r' else q) rs) = map sr_id rs"
    "map financial (map (\<lambda>q. if sr_id q = sr_id r then r' else q) rs) = map financial rs"
    using assms(3) financial_fields(1) [OF assms(3)] by auto
qed

lemma rows_inv_financial: "map financial rs' = map financial rs \<Longrightarrow> rows_inv rs \<Longrightarrow> rows_inv rs'"
proof -
  have f: "sr_id (financial q) = sr_id q" "line_of (financial q) = line_of q" "sr_source_line_id (financial q) = sr_source_line_id q"
    "single_sided (financial q) = single_sided q" "sr_posted_at (financial q) = sr_posted_at q" for q
    by (simp_all add: financial_def line_of_def single_sided_def)
  have "rows_inv (map financial qs) \<longleftrightarrow> rows_inv qs" for qs
    by (simp add: rows_inv_def filter_map o_def f)
  then show "map financial rs' = map financial rs \<Longrightarrow> rows_inv rs \<Longrightarrow> rows_inv rs'" by metis
qed

lemma subledger_step_inv:
  assumes "subledger_step s s'" "session_rows_inv s"
  shows "session_rows_inv s' \<and> financial ` set (ss_committed s) \<subseteq> financial ` set (ss_committed s')"
  using assms
proof (cases rule: subledger_step.cases)
  case (post e sv journals i gl now actor x)
  from post(2,1) show ?thesis
  proof (cases rule: service_post_cases)
    case (added r)
    then show ?thesis using assms(2) insert_row_inv [of "ss_working s" r] by (auto simp: session_rows_inv_def)
  next
    case (repeated q)
    then show ?thesis using assms(2) by (simp add: session_rows_inv_def)
  qed
next
  case (update r r')
  have inv: "rows_inv (ss_working s)" using assms(2) by (simp add: session_rows_inv_def)
  then have "financial r' = financial r"
    using update(2,3) by (auto simp: rows_inv_def subledger_update_allowed_def)
  note m = map_update_rows [OF inv update(2) this]
  have "set (map financial (map (\<lambda>q. if sr_id q = sr_id r then r' else q) (ss_working s))) = set (map financial (ss_working s))"
    by (simp only: m(2))
  then show ?thesis
    using assms(2) rows_inv_financial [OF m(2) inv] update(1) unfolding session_rows_inv_def set_map by simp
next
  case (delete r)
  then show ?thesis using assms(2) by (auto simp: session_rows_inv_def rows_inv_def subledger_delete_allowed_def)
qed (auto simp: session_rows_inv_def)

text \<open>
  Property C18. However posts, updates, deletions, commits and rollbacks of a session follow each other, the table holds a line
  of a journal entry that is named by its \<open>source_line_id\<close> at most once, every row has one side with an amount other than
  zero, and a committed row stays for ever with its financial fields as they are: only its reconciliation may
  change. Rows without a source line are not recognised as repeated and may be stored any number of times
  (\<open>unlined_post_repeats\<close>).
\<close>

theorem subledger_rows_final:
  assumes "subledger_step\<^sup>*\<^sup>* s s'" "session_rows_inv s"
  shows "rows_inv (ss_committed s') \<and> rows_inv (ss_working s')
    \<and> (\<forall>r \<in> set (ss_committed s). \<exists>r' \<in> set (ss_committed s'). financial r' = financial r)"
proof -
  have "session_rows_inv s' \<and> financial ` set (ss_committed s) \<subseteq> financial ` set (ss_committed s')"
    using assms
  proof (induction rule: rtranclp_induct)
    case (step t u)
    then show ?case using subledger_step_inv by blast
  qed simp
  then show ?thesis unfolding session_rows_inv_def by (metis image_eqI image_iff subsetD)
qed

lemma find_snoc: "find P (xs @ [x]) = (case find P xs of Some y \<Rightarrow> Some y | None \<Rightarrow> if P x then Some x else None)"
  by (induction xs) auto

text \<open>
  A post that names a source line and is repeated after the commit, by whichever call and with
  whatever amount, changes nothing and answers with the entry stored first.
\<close>

theorem subledger_repost:
  assumes "service_post sv journals i e gl now actor s = Inr (x, s1)" "mk_subledger_entry e = Inr e"
    and "line_key (se_source_line_id e) = Some l" "session_rows_inv s"
    and "mk_subledger_entry e' = Inr e'" "line_key (se_source_line_id e') = Some l" "validate_entry e' = []"
    and "se_source_document_type e' \<in> set (su_document_types sv)"
  shows "service_post sv journals i' e' gl now' actor' (s1\<lparr>ss_committed := ss_working s1\<rparr>) = Inr (x, s1\<lparr>ss_committed := ss_working s1\<rparr>)"
proof -
  let ?st = "su_subledger_type sv" and ?same = "same_source gl (su_subledger_type sv) (Some l)"
  obtain q where q: "find ?same (ss_working s1) = Some q" "model_to_entry q = Inr x"
    using assms(1,2)
  proof (cases rule: service_post_cases)
    case (added r)
    have "?same r' \<Longrightarrow> row_conflict r r'" for r'
      using added(7) assms(3) by (auto simp: same_source_def row_conflict_def)
    then have "find ?same (ss_working s) = None"
      using added(6) by (auto simp: find_None_iff list_ex_iff)
    then have "find ?same (ss_working s1) = Some r"
      using added(1,7) assms(3) by (simp add: find_snoc)
    then show thesis using that added(3) by blast
  next
    case (repeated r)
    then show thesis using that assms(3) by simp
  qed
  have mem: "q \<in> set (ss_working s1)" and same: "?same q" using q(1) by (auto simp: find_Some_iff)
  have "\<exists>err. flush_entry journals i' ?st e' gl now' actor' (ss_working s1) = Inl err"
  proof (cases "se_effective_date e'")
    case (Some eff)
    have "row_conflict (row_of_entry i' ?st e' eff gl now' actor') q"
      using same assms(6) by (simp add: row_conflict_def row_of_entry_def same_source_def)
    then have "list_ex (row_conflict (row_of_entry i' ?st e' eff gl now' actor')) (ss_working s1)"
      using mem by (auto simp: list_ex_iff)
    then show ?thesis by (simp add: flush_entry_def Some Let_def insert_subledger_row_def)
  qed (simp add: flush_entry_def)
  then show ?thesis
    using assms(6-8) q by (auto simp: service_post_def post_subledger_entry_def Let_def)
qed

text \<open>Without a source line nothing is recognised: the same entry is stored once per call.\<close>

lemma unlined_post_repeats:
  assumes "line_key (se_source_line_id e) = None" "se_effective_date e = Some eff" "journals gl"
    and "i \<notin> sr_id ` set rs" "i' \<notin> sr_id ` set rs" "i' \<noteq> i"
  shows "flush_entry journals i st e gl now actor rs = Inr (row_of_entry i st e eff gl now actor, rs @ [row_of_entry i st e eff gl now actor])
    \<and> flush_entry journals i' st e gl now actor (rs @ [row_of_entry i st e eff gl now actor])
      = Inr (row_of_entry i' st e eff gl now actor, rs @ [row_of_entry i st e eff gl now actor, row_of_entry i' st e eff gl now actor])"
  using assms by (auto simp: flush_entry_def Let_def insert_subledger_row_def row_conflict_def row_of_entry_def list_ex_iff)

section \<open>Refused events\<close>

lemma rfold_Inr_all:
  assumes "rfold f xs s = Inr s'" "x \<in> set xs"
  shows "\<exists>t t'. f x t = Inr t'"
  using assms by (induction xs arbitrary: s) (auto simp: rbind_eq_Inr)

text \<open>
  The bridge posts an intent only if the last part of the event type, in upper case, is a document type of
  the service: one line for a service and an entity is enough for the whole call to raise otherwise.
\<close>

theorem bridge_document_types:
  assumes "post_subledger_entries bg services intent jr s = Inr s'" "li \<in> set (ai_ledger_intents intent)"
    and "intent_target bg services (wr_entries jr) li = Some (sv, v, entity, gl)" "li_lines li \<noteq> []"
  shows "derive_source_document_type (bg_event_type bg) \<in> set (su_document_types sv) \<and> entity \<noteq> []
    \<and> (\<forall>l \<in> set (li_lines li). il_amount l \<noteq> 0)"
proof -
  have line: "derive_source_document_type (bg_event_type bg) \<in> set (su_document_types sv) \<and> entity \<noteq> [] \<and> il_amount l \<noteq> 0"
    if l: "l \<in> set (li_lines li)" for l
  proof -
    obtain t t' where "post_intent bg services (wr_entries jr) (ai_effective_date intent) li t = Inr t'"
      using rfold_Inr_all assms(1,2) unfolding post_subledger_entries_def by metis
    then have f: "rfold (post_line bg sv v entity (ai_effective_date intent) gl) (enumerate 0 (li_lines li)) t = Inr t'"
      by (simp add: post_intent_def assms(3))
    obtain n where "n < length (li_lines li)" "l = li_lines li ! n" using l by (metis in_set_conv_nth)
    then have "(n, l) \<in> set (enumerate 0 (li_lines li))" by (simp add: in_set_enumerate_eq)
    then obtain u u' where "post_line bg sv v entity (ai_effective_date intent) gl (n, l) u = Inr u'"
      using rfold_Inr_all [OF f] by blast
    then obtain e where e: "line_entry bg v entity (ai_effective_date intent) (n, l) = Inr e"
      "validate_entry e = []" "se_source_document_type e \<in> set (su_document_types sv)"
      by (auto simp: post_line_def rbind_eq_Inr rmap_eq_Inr service_post_def split: if_splits)
    have "se_source_document_type e = derive_source_document_type (bg_event_type bg)" "se_entity_id e = entity"
      "se_amount e = il_money l"
      using e(1) by (auto simp: line_entry_def new_entry_def mk_subledger_entry_def se_amount_def split: if_splits)
    then show ?thesis
      using e(2,3) by (auto simp: validate_entry_def money_is_zero_def il_amount_def split: if_splits)
  qed
  then show ?thesis using assms(4) by (metis list.set_intros(1) neq_Nil_conv)
qed

text \<open>No document type of the payables service fits the event it was named after.\<close>

lemma invoice_received_refused:
  "derive_source_document_type ''ap.invoice_received'' = ''INVOICE_RECEIVED''"
  "''INVOICE_RECEIVED'' \<notin> set (su_document_types ap_service)"
  by code_simp+

section \<open>A supplier payment\<close>

definition demo_leg :: "string \<Rightarrow> string \<Rightarrow> intent_line" where
  "demo_leg role side = \<lparr>il_account_role = role, il_side = side, il_money = \<lparr>amount = 100, currency = Currency ''USD''\<rparr>,
     il_dimensions = None, il_memo = None, il_is_rounding = False\<rparr>"

definition demo_ap_intent :: ledger_intent where
  "demo_ap_intent = \<lparr>li_ledger_id = ''AP'', li_lines = [demo_leg ''SUPPLIER_BALANCE'' INTENT_DEBIT, demo_leg ''PAYMENT'' INTENT_CREDIT]\<rparr>"

definition demo_payment :: accounting_intent where
  "demo_payment = \<lparr>ai_econ_event_id = 5, ai_source_event_id = 4, ai_profile_id = ''P'', ai_profile_version = 1,
     ai_effective_date = 15, ai_ledger_intents = [demo_ap_intent], ai_snapshot = \<lparr>is_coa_version = None,
       is_dimension_schema_version = None, is_rounding_policy_version = None, is_currency_registry_version = None,
       is_fx_policy_version = None, is_full_snapshot_id = None\<rparr>, ai_description = None, ai_trace_id = None, ai_created_at = None\<rparr>"

definition demo_journal_result :: write_result where
  "demo_journal_result = wr_success [\<lparr>we_entry_id = 50, we_ledger_id = ''AP'', we_seq = 1, we_idempotency_key = ''k''\<rparr>]"

definition demo_bridge :: bridge_env where
  "demo_bridge = \<lparr>bg_journals = (\<lambda>_. True), bg_new_id = (\<lambda>_. of_nat), bg_now = 3, bg_actor = 7, bg_event_id = 4,
     bg_event_type = ''ap.payment'', bg_payload = [(''vendor_id'', JStr ''v1'')]\<rparr>"

definition demo_rows :: "subledger_row list" where
  "demo_rows = map (bridge_row demo_bridge ap_service ''AP'' ''v1'' 15 50) (enumerate 0 (li_lines demo_ap_intent))"

lemma demo_target: "intent_target demo_bridge subledger_services (wr_entries demo_journal_result) demo_ap_intent = Some (ap_service, ''AP'', ''v1'', 50)"
  by code_simp

lemma demo_payment_facts:
  "list_all wf_ledger_intent (ai_ledger_intents demo_payment)" "all_balanced demo_payment"
  "\<forall>li \<in> set (ai_ledger_intents demo_payment). exact_terms 2 (map il_amount (li_lines li))"
  "concat (map (bridge_rows demo_bridge subledger_services (wr_entries demo_journal_result) (ai_effective_date demo_payment))
     (ai_ledger_intents demo_payment)) = demo_rows"
  "conflict_free demo_rows []"
proof -
  show "list_all wf_ledger_intent (ai_ledger_intents demo_payment)" by code_simp
  show "all_balanced demo_payment" by code_simp
  show "\<forall>li \<in> set (ai_ledger_intents demo_payment). exact_terms 2 (map il_amount (li_lines li))" by code_simp
  show "concat (map (bridge_rows demo_bridge subledger_services (wr_entries demo_journal_result) (ai_effective_date demo_payment))
     (ai_ledger_intents demo_payment)) = demo_rows"
    by (simp add: demo_payment_def bridge_rows_def demo_target demo_rows_def)
  show "conflict_free demo_rows []" by code_simp
qed

lemma demo_bridged:
  "post_subledger_entries demo_bridge subledger_services demo_payment demo_journal_result \<lparr>ss_committed = [], ss_working = []\<rparr>
     = Inr \<lparr>ss_committed = [], ss_working = demo_rows\<rparr>"
proof -
  have "intent_accepted demo_bridge subledger_services (wr_entries demo_journal_result) demo_ap_intent"
    unfolding intent_accepted_def demo_target by code_simp
  then show ?thesis
    using bridge_eq [of demo_journal_result demo_bridge demo_payment subledger_services "\<lparr>ss_committed = [], ss_working = []\<rparr>"]
      demo_payment_facts
    by (simp add: demo_bridge_def) (simp add: demo_payment_def)
qed

lemma demo_rows_bridged: "bridged demo_rows"
proof -
  let ?s = "\<lparr>ss_committed = [], ss_working = []\<rparr> :: subledger_session"
  have "bridged (ss_working ?s)" by (simp add: bridged_Nil)
  moreover have "bg_journals demo_bridge (we_entry_id w)" for w by (simp add: demo_bridge_def)
  moreover have "conflict_free (concat (map (bridge_rows demo_bridge subledger_services (wr_entries demo_journal_result)
      (ai_effective_date demo_payment)) (ai_ledger_intents demo_payment))) (ss_working ?s)"
    using demo_payment_facts(4,5) by simp
  ultimately have "bridged (ss_working \<lparr>ss_committed = [], ss_working = demo_rows\<rparr>)"
    using demo_payment_facts(3) by (intro bridged_event [OF _ demo_payment_facts(1,2) _ _ _ demo_bridged]) blast+
  then show ?thesis by simp
qed

theorem bridge_nets_to_zero_witness:
  "length demo_rows = 2 \<and> netted demo_rows \<and> (\<exists>m. aggregate_balance AP 15 ''USD'' demo_rows = Inr m \<and> amount m = 0)"
proof -
  have "mk_currency ''USD'' = Inr (Currency ''USD'')" by code_simp
  then have "\<exists>m. money_of x ''USD'' = Inr m" for x by (simp add: money_of_def)
  then obtain m where m: "aggregate_balance AP 15 ''USD'' demo_rows = Inr m" unfolding aggregate_balance_def by blast
  have cf: "conflict_free (concat (map (bridge_rows demo_bridge subledger_services (wr_entries demo_journal_result)
      (ai_effective_date demo_payment)) (ai_ledger_intents demo_payment))) (ss_working \<lparr>ss_committed = [], ss_working = []\<rparr>)"
    using demo_payment_facts(4,5) by simp
  have j: "\<forall>w \<in> set (wr_entries demo_journal_result). bg_journals demo_bridge (we_entry_id w)" by (simp add: demo_bridge_def)
  have n: "netted (ss_working \<lparr>ss_committed = [], ss_working = []\<rparr>)" by simp
  from bridge_nets_to_zero [OF n demo_payment_facts(1-3) j cf demo_bridged]
  have "netted demo_rows" "amount m = 0" using m by auto
  moreover have "length demo_rows = 2" by (simp add: demo_rows_def demo_ap_intent_def)
  ultimately show ?thesis using m by blast
qed

theorem bridge_document_types_witness:
  "post_subledger_entries demo_bridge subledger_services demo_payment demo_journal_result \<lparr>ss_committed = [], ss_working = []\<rparr>
     = Inr \<lparr>ss_committed = [], ss_working = demo_rows\<rparr>
   \<and> derive_source_document_type ''ap.payment'' \<in> set AP_DOCUMENT_TYPES"
proof -
  have "demo_ap_intent \<in> set (ai_ledger_intents demo_payment)" "li_lines demo_ap_intent \<noteq> []"
    by (simp_all add: demo_payment_def demo_ap_intent_def)
  from bridge_document_types [OF demo_bridged this(1) demo_target this(2)] demo_bridged
  show ?thesis by (simp add: demo_bridge_def ap_service_def)
qed

text \<open>A payment of 100 that has settled 40 of an invoice before, matched with an invoice of 60.\<close>

definition demo_entry :: "money option \<Rightarrow> money option \<Rightarrow> recon_status \<Rightarrow> money option \<Rightarrow> subledger_entry" where
  "demo_entry d c st r = \<lparr>se_entry_id = 1, se_subledger_type = ''AP'', se_entity_id = ''v1'', se_source_document_type = ''PAYMENT'',
     se_source_document_id = ''d'', se_source_line_id = Some ''0'', se_gl_entry_id = None, se_gl_line_id = None, se_debit = d,
     se_credit = c, se_effective_date = Some 15, se_posted_at = None, se_status = st, se_reconciled_amount = r,
     se_reconciled_to_ids = [], se_memo = [], se_reference = [], se_dimensions = []\<rparr>"

definition usd :: "decimal \<Rightarrow> money" where
  "usd x = \<lparr>amount = x, currency = Currency ''USD''\<rparr>"

definition demo_debit :: subledger_entry where
  "demo_debit = demo_entry (Some (usd 100)) None RECON_PARTIAL (Some (usd 40))"

definition demo_credit :: subledger_entry where
  "demo_credit = demo_entry None (Some (usd 60)) RECON_OPEN None"

definition demo_match :: match_result where
  "demo_match = \<lparr>mt_reconciliation_id = 9, mt_debit_entry_id = 1, mt_credit_entry_id = 1, mt_reconciled_amount = usd 60,
     mt_reconciled_at = None, mt_is_full_match = True\<rparr>"

theorem matching_conserves_witness:
  "\<exists>d' c'. with_reconciliation (usd 60) 1 demo_debit = Inr d' \<and> with_reconciliation (usd 60) 1 demo_credit = Inr c'
     \<and> se_status d' = RECON_RECONCILED \<and> se_status c' = RECON_RECONCILED \<and> open_value d' = 0 \<and> open_value c' = 0"
proof -
  have ok: "recon_ok demo_debit" "recon_ok demo_credit" by code_simp+
  have "reconcile_entries 9 demo_debit demo_credit None None = Inr demo_match" by code_simp
  from matching_conserves [OF ok this] show ?thesis
    by (auto simp: demo_match_def open_value_def reconciled_value_def demo_debit_def demo_credit_def demo_entry_def se_amount_def usd_def)
qed

definition demo_session :: subledger_session where
  "demo_session = \<lparr>ss_committed = [], ss_working = []\<rparr>"

definition demo_line :: "decimal \<Rightarrow> subledger_entry" where
  "demo_line x = demo_entry (Some (usd x)) None RECON_OPEN None"

definition demo_line_row :: subledger_row where
  "demo_line_row = row_of_entry 8 AP (demo_line 100) 15 50 3 7"

lemma demo_line_posted:
  "\<exists>x. service_post ap_service (\<lambda>_. True) 8 (demo_line 100) 50 3 7 demo_session = Inr (x, demo_session\<lparr>ss_working := [demo_line_row]\<rparr>)
     \<and> se_debit x = Some (usd 100)"
proof -
  have "map_sum id se_debit (model_to_entry demo_line_row) = Inr (Some (usd 100))" by code_simp
  then obtain x where "model_to_entry demo_line_row = Inr x" "se_debit x = Some (usd 100)"
    by (cases "model_to_entry demo_line_row") auto
  moreover have "validate_entry (demo_line 100) = []" "se_source_document_type (demo_line 100) \<in> set (su_document_types ap_service)"
    by code_simp+
  ultimately show ?thesis
    by (simp add: service_post_def post_subledger_entry_def flush_entry_def demo_session_def)
      (simp add: demo_line_def demo_entry_def ap_service_def demo_line_row_def Let_def insert_subledger_row_def)
qed

lemma demo_session_inv: "session_rows_inv demo_session"
  by (simp add: session_rows_inv_def rows_inv_def demo_session_def)

theorem subledger_repost_witness:
  "\<exists>x s1. service_post ap_service (\<lambda>_. True) 8 (demo_line 100) 50 3 7 demo_session = Inr (x, s1)
     \<and> service_post ap_service (\<lambda>_. True) 9 (demo_line 250) 50 4 7 (s1\<lparr>ss_committed := ss_working s1\<rparr>) = Inr (x, s1\<lparr>ss_committed := ss_working s1\<rparr>)
     \<and> se_debit x = Some (usd 100)"
proof -
  obtain x s1 where p: "service_post ap_service (\<lambda>_. True) 8 (demo_line 100) 50 3 7 demo_session = Inr (x, s1)" "se_debit x = Some (usd 100)"
    using demo_line_posted by blast
  have f: "mk_subledger_entry (demo_line y) = Inr (demo_line y)" "line_key (se_source_line_id (demo_line y)) = Some ''0''" for y
    by (simp_all add: demo_line_def demo_entry_def mk_subledger_entry_def line_key_def or_none_def)
  have g: "validate_entry (demo_line 250) = []" "se_source_document_type (demo_line 250) \<in> set (su_document_types ap_service)"
    by code_simp+
  from subledger_repost [OF p(1) f demo_session_inv f g] p show ?thesis by blast
qed

theorem subledger_rows_final_witness:
  "\<exists>s s'. subledger_step\<^sup>*\<^sup>* s s' \<and> set (ss_committed s) = {demo_line_row} \<and> (\<exists>r \<in> set (ss_committed s'). financial r = financial demo_line_row)"
proof -
  have mk: "mk_subledger_entry (demo_line 100) = Inr (demo_line 100)"
    by (simp add: demo_line_def demo_entry_def mk_subledger_entry_def)
  obtain x where "service_post ap_service (\<lambda>_. True) 8 (demo_line 100) 50 3 7 demo_session = Inr (x, demo_session\<lparr>ss_working := [demo_line_row]\<rparr>)"
    using demo_line_posted by blast
  from subledger_step.post [OF mk this] have a: "subledger_step demo_session (demo_session\<lparr>ss_working := [demo_line_row]\<rparr>)" .
  define s where "s = \<lparr>ss_committed = [demo_line_row], ss_working = [demo_line_row]\<rparr>"
  have b: "subledger_step (demo_session\<lparr>ss_working := [demo_line_row]\<rparr>) s"
    using subledger_step.commit [of "demo_session\<lparr>ss_working := [demo_line_row]\<rparr>"] by (simp add: s_def demo_session_def)
  have inv: "session_rows_inv s"
    using subledger_step_inv [OF a demo_session_inv] subledger_step_inv [OF b] by blast
  define r' where "r' = demo_line_row\<lparr>sr_status := RECON_PARTIAL, sr_reconciled_amount := Some 40\<rparr>"
  have "subledger_step s (s\<lparr>ss_working := map (\<lambda>q. if sr_id q = sr_id demo_line_row then r' else q) (ss_working s)\<rparr>)"
    by (rule subledger_step.update) (simp_all add: s_def subledger_update_allowed_def r'_def financial_def)
  then have run: "subledger_step\<^sup>*\<^sup>* s (s\<lparr>ss_working := [r'], ss_committed := [r']\<rparr>)"
    using subledger_step.commit [of "s\<lparr>ss_working := [r']\<rparr>"] by (simp add: s_def converse_rtranclp_into_rtranclp)
  have "set (ss_committed s) = {demo_line_row}" by (simp add: s_def)
  with subledger_rows_final [OF run inv] run show ?thesis by blast
qed

end
