(* ===== verification/Subledger_Close.thy ===== *)
theory Subledger_Close
  imports Subledger_Properties "HOL-Library.AList"
begin

text \<open>
  \<open>finance_kernel/domain/subledger_control.py\<close>: control contracts, tolerances and the comparison of a subledger with its
  control account; \<open>finance_services/subledger_period_service.py\<close>: closing a subledger for a period, with the status and
  failure report tables of \<open>finance_kernel/models/subledger.py\<close> and the account balance of
  \<open>finance_kernel/selectors/ledger_selector.py\<close>.

  The registry is a Python dict, an association list whose \<open>AList.update\<close> keeps the position of a key. The
  role resolver, the journal and the subledger rows, the existing period codes and identifiers of new rows are
  the environment of a call. A missing check time is \<open>datetime.min\<close>, here None.

  The lemmas show when a period closes and what is left behind when it does not, that a closed period
  stays closed, and that a subledger filled by the bridge alone cannot close against a control account with a balance.
\<close>

section \<open>Contracts\<close>

datatype recon_timing = REAL_TIME | DAILY | PERIOD_END

datatype tolerance_type = ABSOLUTE_TOLERANCE | PERCENTAGE_TOLERANCE | NO_TOLERANCE

record control_binding =
  cb_subledger_type :: subledger_type
  cb_control_account_role :: string
  cb_control_account_code :: string
  cb_is_debit_normal :: bool
  cb_currency :: string

definition expected_sign :: "control_binding \<Rightarrow> int" where
  "expected_sign b = (if cb_is_debit_normal b then 1 else - 1)"

record tolerance =
  tl_type :: tolerance_type
  tl_absolute :: decimal
  tl_percentage :: decimal
  tl_cap :: "decimal option"

definition tolerance_zero :: tolerance where
  "tolerance_zero = \<lparr>tl_type = NO_TOLERANCE, tl_absolute = 0, tl_percentage = 0, tl_cap = None\<rparr>"

definition tolerance_pennies :: "decimal \<Rightarrow> tolerance" where
  "tolerance_pennies a = \<lparr>tl_type = ABSOLUTE_TOLERANCE, tl_absolute = a, tl_percentage = 0, tl_cap = None\<rparr>"

definition tolerance_percent :: "decimal \<Rightarrow> decimal option \<Rightarrow> tolerance" where
  "tolerance_percent p cap = \<lparr>tl_type = PERCENTAGE_TOLERANCE, tl_absolute = 0, tl_percentage = p, tl_cap = cap\<rparr>"

text \<open>The threshold divides by 100, which does not raise.\<close>

definition is_within_tolerance :: "tolerance \<Rightarrow> decimal \<Rightarrow> decimal \<Rightarrow> bool" where
  "is_within_tolerance t variance balance =
     (case tl_type t of
        NO_TOLERANCE \<Rightarrow> dabs variance = 0
      | ABSOLUTE_TOLERANCE \<Rightarrow> dabs variance \<le> tl_absolute t
      | PERCENTAGE_TOLERANCE \<Rightarrow>
          let threshold = dfix (dmul (dabs balance) (tl_percentage t) / 100)
          in dabs variance \<le> (case tl_cap t of None \<Rightarrow> threshold | Some c \<Rightarrow> min threshold c))"

record control_contract =
  cc_binding :: control_binding
  cc_timing :: recon_timing
  cc_tolerance :: tolerance
  cc_enforce_on_post :: bool
  cc_enforce_on_close :: bool
  cc_auto_create_adjustments :: bool

definition cc_subledger_type :: "control_contract \<Rightarrow> subledger_type" where
  "cc_subledger_type c = cb_subledger_type (cc_binding c)"

definition cc_control_account_role :: "control_contract \<Rightarrow> string" where
  "cc_control_account_role c = cb_control_account_role (cc_binding c)"

record recon_result =
  rc_subledger_type :: subledger_type
  rc_as_of_date :: int
  rc_subledger_balance :: money
  rc_control_balance :: money
  rc_variance :: money
  rc_is_reconciled :: bool
  rc_is_within_tolerance :: bool
  rc_tolerance_used :: tolerance
  rc_checked_at :: "int option"
  rc_entries_checked :: int

definition rc_is_balanced :: "recon_result \<Rightarrow> bool" where
  "rc_is_balanced r = money_is_zero (rc_variance r)"

record violation =
  vl_contract :: control_contract
  vl_result :: recon_result
  vl_type :: string
  vl_severity :: string
  vl_blocking :: bool

type_synonym control_registry = "(subledger_type \<times> control_contract) list"

definition register_contract :: "control_contract \<Rightarrow> control_registry \<Rightarrow> control_registry" where
  "register_contract c reg = AList.update (cc_subledger_type c) c reg"

definition get_contract :: "subledger_type \<Rightarrow> control_registry \<Rightarrow> control_contract option" where
  "get_contract st reg = map_of reg st"

definition all_contracts :: "control_registry \<Rightarrow> control_contract list" where
  "all_contracts reg = map snd reg"

definition contract_by_control_account :: "string \<Rightarrow> control_registry \<Rightarrow> control_contract option" where
  "contract_by_control_account role reg = find (\<lambda>c. cc_control_account_role c = role) (all_contracts reg)"

definition ap_contract :: control_contract where
  "ap_contract = \<lparr>cc_binding = \<lparr>cb_subledger_type = AP, cb_control_account_role = ''AP_CONTROL'', cb_control_account_code = ''2100'',
       cb_is_debit_normal = False, cb_currency = ''USD''\<rparr>,
     cc_timing = REAL_TIME, cc_tolerance = tolerance_pennies (1 / 100), cc_enforce_on_post = True, cc_enforce_on_close = True,
     cc_auto_create_adjustments = False\<rparr>"

definition ar_contract :: control_contract where
  "ar_contract = \<lparr>cc_binding = \<lparr>cb_subledger_type = AR, cb_control_account_role = ''AR_CONTROL'', cb_control_account_code = ''1200'',
       cb_is_debit_normal = True, cb_currency = ''USD''\<rparr>,
     cc_timing = REAL_TIME, cc_tolerance = tolerance_pennies (1 / 100), cc_enforce_on_post = True, cc_enforce_on_close = True,
     cc_auto_create_adjustments = False\<rparr>"

definition inventory_contract :: control_contract where
  "inventory_contract = \<lparr>cc_binding = \<lparr>cb_subledger_type = INVENTORY, cb_control_account_role = ''INVENTORY_CONTROL'',
       cb_control_account_code = ''1400'', cb_is_debit_normal = True, cb_currency = ''USD''\<rparr>,
     cc_timing = PERIOD_END, cc_tolerance = tolerance_pennies (5 / 100), cc_enforce_on_post = False, cc_enforce_on_close = True,
     cc_auto_create_adjustments = False\<rparr>"

definition bank_contract :: control_contract where
  "bank_contract = \<lparr>cc_binding = \<lparr>cb_subledger_type = BANK, cb_control_account_role = ''CASH_CONTROL'', cb_control_account_code = ''1000'',
       cb_is_debit_normal = True, cb_currency = ''USD''\<rparr>,
     cc_timing = DAILY, cc_tolerance = tolerance_zero, cc_enforce_on_post = True, cc_enforce_on_close = True,
     cc_auto_create_adjustments = False\<rparr>"

definition default_control_registry :: control_registry where
  "default_control_registry =
     register_contract bank_contract (register_contract inventory_contract (register_contract ar_contract (register_contract ap_contract [])))"

section \<open>The reconciler\<close>

definition reconcile_balances ::
    "control_contract \<Rightarrow> money \<Rightarrow> money \<Rightarrow> int \<Rightarrow> int option \<Rightarrow> int \<Rightarrow> py_exc + recon_result" where
  "reconcile_balances c sl gl as_of checked n =
     (if currency sl \<noteq> currency gl then Inl ValueError
      else rbind (money_sub sl gl) (\<lambda>variance.
        Inr \<lparr>rc_subledger_type = cc_subledger_type c, rc_as_of_date = as_of, rc_subledger_balance = sl, rc_control_balance = gl,
             rc_variance = variance, rc_is_reconciled = money_is_zero variance,
             rc_is_within_tolerance = is_within_tolerance (cc_tolerance c) (amount variance) (amount gl),
             rc_tolerance_used = cc_tolerance c, rc_checked_at = checked, rc_entries_checked = n\<rparr>))"

definition validate_post ::
    "control_contract \<Rightarrow> money \<Rightarrow> money \<Rightarrow> int \<Rightarrow> int option \<Rightarrow> py_exc + violation list" where
  "validate_post c sl_after gl_after as_of checked =
     (if \<not> cc_enforce_on_post c then Inr []
      else rmap (\<lambda>r. if rc_is_within_tolerance r then []
             else [\<lparr>vl_contract = c, vl_result = r, vl_type = ''out_of_balance'', vl_severity = ''error'', vl_blocking = True\<rparr>])
           (reconcile_balances c sl_after gl_after as_of checked 0))"

definition validate_period_close ::
    "control_contract \<Rightarrow> money \<Rightarrow> money \<Rightarrow> int \<Rightarrow> int option \<Rightarrow> py_exc + violation list" where
  "validate_period_close c sl gl d checked =
     (if \<not> cc_enforce_on_close c then Inr []
      else rmap (\<lambda>r.
             if \<not> rc_is_reconciled r \<and> \<not> rc_is_within_tolerance r
             then [\<lparr>vl_contract = c, vl_result = r, vl_type = ''period_close_blocked'', vl_severity = ''error'', vl_blocking = True\<rparr>]
             else if \<not> rc_is_reconciled r \<and> rc_is_within_tolerance r
             then [\<lparr>vl_contract = c, vl_result = r, vl_type = ''tolerance_warning'', vl_severity = ''warning'', vl_blocking = False\<rparr>]
             else [])
           (reconcile_balances c sl gl d checked 0))"

section \<open>The control account\<close>

record account_balance =
  ab_account_id :: uuid
  ab_currency :: string
  ab_debit_total :: decimal
  ab_credit_total :: decimal
  ab_line_count :: nat

definition ab_balance :: "account_balance \<Rightarrow> decimal" where
  "ab_balance b = dsub (ab_debit_total b) (ab_credit_total b)"

definition account_lines :: "uuid \<Rightarrow> int option \<Rightarrow> string option \<Rightarrow> journal_db \<Rightarrow> journal_line list" where
  "account_lines acct as_of cur db =
     filter (\<lambda>l. jl_account_id l = acct \<and> (case cur of None \<Rightarrow> True | Some c \<Rightarrow> jl_currency l = c))
       (concat (map je_lines (filter (\<lambda>e. je_status e = POSTED \<and> (case as_of of None \<Rightarrow> True | Some d \<Rightarrow> je_effective_date e \<le> d))
          (jd_entries db))))"

definition account_balances :: "uuid \<Rightarrow> int option \<Rightarrow> string option \<Rightarrow> journal_db \<Rightarrow> account_balance list" where
  "account_balances acct as_of cur db =
     (let ls = account_lines acct as_of cur db
      in map (\<lambda>c. \<lparr>ab_account_id = acct, ab_currency = c, ab_debit_total = sum_list (jl_side_amounts DEBIT c ls),
             ab_credit_total = sum_list (jl_side_amounts CREDIT c ls), ab_line_count = length (filter (\<lambda>l. jl_currency l = c) ls)\<rparr>)
           (remdups (map jl_currency ls)))"

section \<open>Closing\<close>

datatype close_status = SP_OPEN | SP_RECONCILING | SP_CLOSED

record sl_period_status =
  sp_id :: uuid
  sp_subledger_type :: string
  sp_period_code :: string
  sp_status :: close_status
  sp_closed_at :: "int option"
  sp_closed_by :: "uuid option"
  sp_report_id :: "uuid option"

record close_failure_report =
  fr_id :: uuid
  fr_subledger_type :: string
  fr_period_code :: string
  fr_gl_control_balance :: decimal
  fr_sl_aggregate_balance :: decimal
  fr_delta_amount :: decimal
  fr_currency :: string
  fr_checked_at :: int

record close_db =
  cd_statuses :: "sl_period_status list"
  cd_reports :: "close_failure_report list"

record close_env =
  ce_now :: int
  ce_registry :: control_registry
  ce_bindings :: role_bindings
  ce_journal :: journal_db
  ce_rows :: "subledger_row list"
  ce_period_codes :: "string list"
  ce_status_id :: uuid
  ce_report_id :: uuid

type_synonym one_status = "sl_period_status list \<Rightarrow> py_exc + sl_period_status option"

definition status_key :: "sl_period_status \<Rightarrow> string \<times> string" where
  "status_key p = (sp_subledger_type p, sp_period_code p)"

definition status_row :: "one_status \<Rightarrow> subledger_type \<Rightarrow> string \<Rightarrow> close_db \<Rightarrow> py_exc + sl_period_status option" where
  "status_row one st code db = one (filter (\<lambda>p. status_key p = (subledger_value st, code)) (cd_statuses db))"

definition get_or_create_status ::
    "one_status \<Rightarrow> close_env \<Rightarrow> subledger_type \<Rightarrow> string \<Rightarrow> close_db \<Rightarrow> py_exc + sl_period_status \<times> close_db" where
  "get_or_create_status one env st code db =
     rbind (status_row one st code db) (\<lambda>r.
       case r of
         Some p \<Rightarrow> Inr (p, db)
       | None \<Rightarrow>
           let p = \<lparr>sp_id = ce_status_id env, sp_subledger_type = subledger_value st, sp_period_code = code, sp_status = SP_OPEN,
                 sp_closed_at = None, sp_closed_by = None, sp_report_id = None\<rparr>
           in if code \<notin> set (ce_period_codes env) \<or> sp_id p \<in> sp_id ` set (cd_statuses db) then Inl IntegrityError
              else Inr (p, db\<lparr>cd_statuses := cd_statuses db @ [p]\<rparr>))"

definition store_status :: "sl_period_status \<Rightarrow> close_db \<Rightarrow> close_db" where
  "store_status p db = db\<lparr>cd_statuses := map (\<lambda>q. if sp_id q = sp_id p then p else q) (cd_statuses db)\<rparr>"

definition closed_row :: "close_env \<Rightarrow> uuid option \<Rightarrow> sl_period_status \<Rightarrow> sl_period_status" where
  "closed_row env actor p = p\<lparr>sp_status := SP_CLOSED, sp_closed_at := Some (ce_now env), sp_closed_by := actor\<rparr>"

text \<open>The balances that are compared: the control account's in the normal sense of the subledger, and the subledger's.\<close>

definition control_balance :: "close_env \<Rightarrow> control_contract \<Rightarrow> uuid \<Rightarrow> int \<Rightarrow> py_exc + money" where
  "control_balance env c acct d =
     (let raw = (case account_balances acct (Some d) (Some (cb_currency (cc_binding c))) (ce_journal env) of
              [] \<Rightarrow> 0 | b # _ \<Rightarrow> ab_balance b)
      in money_of (if cb_is_debit_normal (cc_binding c) then raw else dneg raw) (cb_currency (cc_binding c)))"

definition compare_and_close ::
    "close_env \<Rightarrow> subledger_type \<Rightarrow> string \<Rightarrow> int \<Rightarrow> uuid option \<Rightarrow> control_contract \<Rightarrow> uuid \<Rightarrow> sl_period_status \<Rightarrow> close_db
     \<Rightarrow> py_exc + sl_period_status \<times> close_db" where
  "compare_and_close env st code d actor c acct p db =
     rbind (control_balance env c acct d) (\<lambda>gl.
     rbind (aggregate_balance st d (cb_currency (cc_binding c)) (ce_rows env)) (\<lambda>sl.
     rbind (validate_period_close c sl gl d (Some (ce_now env))) (\<lambda>vs.
       if filter vl_blocking vs \<noteq> []
       then rbind (money_sub sl gl) (\<lambda>delta.
              let rep = \<lparr>fr_id = ce_report_id env, fr_subledger_type = subledger_value st, fr_period_code = code,
                    fr_gl_control_balance = amount gl, fr_sl_aggregate_balance = amount sl, fr_delta_amount = amount delta,
                    fr_currency = cb_currency (cc_binding c), fr_checked_at = ce_now env\<rparr>;
                  p' = p\<lparr>sp_status := SP_OPEN, sp_report_id := Some (fr_id rep)\<rparr>
              in if fr_id rep \<in> fr_id ` set (cd_reports db) then Inl IntegrityError
                 else Inr (p', store_status p' (db\<lparr>cd_reports := cd_reports db @ [rep]\<rparr>)))
       else Inr (closed_row env actor p, store_status (closed_row env actor p) db))))"

definition close_subledger_period ::
    "one_status \<Rightarrow> close_env \<Rightarrow> subledger_type \<Rightarrow> string \<Rightarrow> int \<Rightarrow> uuid option \<Rightarrow> close_db
     \<Rightarrow> py_exc + sl_period_status \<times> close_db" where
  "close_subledger_period one env st code d actor db =
     rbind (get_or_create_status one env st code db) (\<lambda>(p, db1).
       if sp_status p = SP_CLOSED then Inr (p, db1)
       else
         let p1 = p\<lparr>sp_status := SP_RECONCILING\<rparr>;
             close_now = Inr (closed_row env actor p1, store_status (closed_row env actor p1) db1)
         in case get_contract st (ce_registry env) of
              None \<Rightarrow> close_now
            | Some c \<Rightarrow>
                if \<not> cc_enforce_on_close c then close_now
                else case resolve_role (ce_bindings env) (cc_control_account_role c) of
                    Inl _ \<Rightarrow> close_now
                  | Inr (acct, _) \<Rightarrow> compare_and_close env st code d actor c acct p1 db1)"

definition is_subledger_closed :: "one_status \<Rightarrow> subledger_type \<Rightarrow> string \<Rightarrow> close_db \<Rightarrow> py_exc + bool" where
  "is_subledger_closed one st code db =
     rmap (\<lambda>r. case r of None \<Rightarrow> False | Some p \<Rightarrow> sp_status p = SP_CLOSED) (status_row one st code db)"

fun all_closed_from :: "one_status \<Rightarrow> string \<Rightarrow> close_db \<Rightarrow> control_contract list \<Rightarrow> py_exc + bool" where
  "all_closed_from one code db [] = Inr True"
| "all_closed_from one code db (c # cs) =
     (if \<not> cc_enforce_on_close c then all_closed_from one code db cs
      else rbind (is_subledger_closed one (cc_subledger_type c) code db) (\<lambda>b.
        if b then all_closed_from one code db cs else Inr False))"

definition are_all_subledgers_closed :: "one_status \<Rightarrow> control_registry \<Rightarrow> string \<Rightarrow> close_db \<Rightarrow> py_exc + bool" where
  "are_all_subledgers_closed one reg code db = all_closed_from one code db (all_contracts reg)"

definition get_close_status :: "one_status \<Rightarrow> control_registry \<Rightarrow> string \<Rightarrow> close_db \<Rightarrow> py_exc + (string \<times> close_status) list" where
  "get_close_status one reg code db =
     rtraverse (\<lambda>c. rmap (\<lambda>r. (subledger_value (cc_subledger_type c), case r of None \<Rightarrow> SP_OPEN | Some p \<Rightarrow> sp_status p))
       (status_row one (cc_subledger_type c) code db)) (all_contracts reg)"

section \<open>What a close does\<close>

definition close_inv :: "close_db \<Rightarrow> bool" where
  "close_inv db \<longleftrightarrow> distinct (map sp_id (cd_statuses db)) \<and> distinct (map status_key (cd_statuses db)) \<and> distinct (map fr_id (cd_reports db))"

lemma status_row_Inr:
  assumes "query_one one" "close_inv db"
  shows "status_row one st code db = Inr (find (\<lambda>p. status_key p = (subledger_value st, code)) (cd_statuses db))"
proof -
  have d: "distinct (map status_key (cd_statuses db))" using assms(2) by (simp add: close_inv_def)
  show ?thesis
    unfolding status_row_def filter_unique_key [OF d]
    by (cases "find (\<lambda>p. status_key p = (subledger_value st, code)) (cd_statuses db)")
      (simp_all add: query_one.one_empty [OF assms(1)] query_one.one_single [OF assms(1)])
qed

lemma get_or_create_Inr:
  assumes "query_one one" "close_inv db" "get_or_create_status one env st code db = Inr (p, db1)"
  shows "close_inv db1 \<and> p \<in> set (cd_statuses db1) \<and> status_key p = (subledger_value st, code) \<and> cd_reports db1 = cd_reports db
    \<and> set (cd_statuses db) \<subseteq> set (cd_statuses db1)
    \<and> (\<forall>q \<in> set (cd_statuses db1). status_key q \<noteq> (subledger_value st, code) \<longrightarrow> q \<in> set (cd_statuses db))
    \<and> (p \<notin> set (cd_statuses db) \<longrightarrow> sp_status p = SP_OPEN)"
proof (cases "find (\<lambda>p. status_key p = (subledger_value st, code)) (cd_statuses db)")
  case None
  then have none: "\<forall>q \<in> set (cd_statuses db). status_key q \<noteq> (subledger_value st, code)" by (auto simp: find_None_iff)
  define p0 where "p0 = \<lparr>sp_id = ce_status_id env, sp_subledger_type = subledger_value st, sp_period_code = code, sp_status = SP_OPEN,
                 sp_closed_at = None, sp_closed_by = None, sp_report_id = None\<rparr>"
  have p0: "status_key p0 = (subledger_value st, code)" "sp_status p0 = SP_OPEN" by (simp_all add: p0_def status_key_def)
  have "(if code \<notin> set (ce_period_codes env) \<or> sp_id p0 \<in> sp_id ` set (cd_statuses db) then Inl IntegrityError
      else Inr (p0, db\<lparr>cd_statuses := cd_statuses db @ [p0]\<rparr>)) = Inr (p, db1)"
    using assms(3) unfolding get_or_create_status_def status_row_Inr [OF assms(1,2)] None rbind.simps option.case Let_def p0_def .
  then have "p = p0" "db1 = db\<lparr>cd_statuses := cd_statuses db @ [p0]\<rparr>" "sp_id p0 \<notin> sp_id ` set (cd_statuses db)"
    by (auto split: if_splits)
  moreover have "status_key p0 \<notin> status_key ` set (cd_statuses db)" using none p0(1) by auto
  ultimately show ?thesis using p0 assms(2) by (auto simp: close_inv_def)
next
  case (Some q)
  then have "q \<in> set (cd_statuses db)" "status_key q = (subledger_value st, code)" by (auto simp: find_Some_iff)
  with assms Some show ?thesis
    unfolding get_or_create_status_def status_row_Inr [OF assms(1,2)] by auto
qed

lemma store_status_inv:
  assumes "close_inv db" "p \<in> set (cd_statuses db)" "sp_id p' = sp_id p" "status_key p' = status_key p"
  shows "close_inv (store_status p' db)" "cd_reports (store_status p' db) = cd_reports db"
    "set (cd_statuses (store_status p' db)) = insert p' (set (cd_statuses db) - {p})"
proof -
  have u: "q = p" if "q \<in> set (cd_statuses db)" "sp_id q = sp_id p" for q
    using assms(1,2) that by (auto simp: close_inv_def distinct_map dest: inj_onD)
  have "map sp_id (cd_statuses (store_status p' db)) = map sp_id (cd_statuses db)"
    "map status_key (cd_statuses (store_status p' db)) = map status_key (cd_statuses db)"
    using u assms(3,4) by (auto simp: store_status_def)
  then show "close_inv (store_status p' db)" using assms(1) by (simp add: close_inv_def) (simp add: store_status_def)
  show "cd_reports (store_status p' db) = cd_reports db" by (simp add: store_status_def)
  show "set (cd_statuses (store_status p' db)) = insert p' (set (cd_statuses db) - {p})"
    using u assms(2,3) by (auto simp: store_status_def image_iff)
qed

text \<open>The close is not enforced: no contract, none wanted, or a control role that no account is bound to.\<close>

definition unenforced :: "close_env \<Rightarrow> subledger_type \<Rightarrow> bool" where
  "unenforced env st \<longleftrightarrow>
     (case get_contract st (ce_registry env) of
        None \<Rightarrow> True
      | Some c \<Rightarrow> \<not> cc_enforce_on_close c \<or> ce_bindings env (cc_control_account_role c) = None)"

definition compared :: "close_env \<Rightarrow> subledger_type \<Rightarrow> int \<Rightarrow> control_contract \<Rightarrow> money \<Rightarrow> money \<Rightarrow> bool" where
  "compared env st d c gl sl \<longleftrightarrow>
     get_contract st (ce_registry env) = Some c \<and> cc_enforce_on_close c
     \<and> (\<exists>b. ce_bindings env (cc_control_account_role c) = Some b \<and> control_balance env c (br_account_id b) d = Inr gl)
     \<and> aggregate_balance st d (cb_currency (cc_binding c)) (ce_rows env) = Inr sl"

definition acceptable :: "control_contract \<Rightarrow> money \<Rightarrow> money \<Rightarrow> bool" where
  "acceptable c gl sl \<longleftrightarrow> amount sl = amount gl \<or> is_within_tolerance (cc_tolerance c) (dsub (amount sl) (amount gl)) (amount gl)"

lemma blocking_iff:
  assumes "validate_period_close c sl gl d t = Inr vs" "cc_enforce_on_close c"
  shows "currency sl = currency gl" "filter vl_blocking vs = [] \<longleftrightarrow> acceptable c gl sl"
  using assms
  by (auto simp: validate_period_close_def reconcile_balances_def rmap_eq_Inr rbind_eq_Inr money_sub_def money_is_zero_def acceptable_def
      split: if_splits)

lemma compare_and_close_Inr:
  assumes "compare_and_close env st code d actor c acct p db = Inr (r, db')" "cc_enforce_on_close c"
  obtains gl sl where "control_balance env c acct d = Inr gl" "aggregate_balance st d (cb_currency (cc_binding c)) (ce_rows env) = Inr sl"
    "acceptable c gl sl" "r = closed_row env actor p" "db' = store_status r db"
  | gl sl rep where "control_balance env c acct d = Inr gl" "aggregate_balance st d (cb_currency (cc_binding c)) (ce_rows env) = Inr sl"
    "\<not> acceptable c gl sl" "r = p\<lparr>sp_status := SP_OPEN, sp_report_id := Some (fr_id rep)\<rparr>"
    "db' = store_status r (db\<lparr>cd_reports := cd_reports db @ [rep]\<rparr>)" "fr_id rep \<notin> fr_id ` set (cd_reports db)"
    "fr_gl_control_balance rep = amount gl" "fr_sl_aggregate_balance rep = amount sl" "fr_delta_amount rep = dsub (amount sl) (amount gl)"
    "fr_subledger_type rep = subledger_value st" "fr_period_code rep = code"
proof -
  from assms(1) obtain gl sl vs where g: "control_balance env c acct d = Inr gl"
    "aggregate_balance st d (cb_currency (cc_binding c)) (ce_rows env) = Inr sl"
    "validate_period_close c sl gl d (Some (ce_now env)) = Inr vs"
    by (auto simp: compare_and_close_def rbind_eq_Inr)
  note b = blocking_iff [OF g(3) assms(2)]
  show thesis
  proof (cases "acceptable c gl sl")
    case True
    then show thesis using assms(1) g b that(1) by (auto simp: compare_and_close_def)
  next
    case False
    then have ne: "filter vl_blocking vs \<noteq> []" using b(2) by blast
    define rep where "rep = \<lparr>fr_id = ce_report_id env, fr_subledger_type = subledger_value st, fr_period_code = code,
      fr_gl_control_balance = amount gl, fr_sl_aggregate_balance = amount sl, fr_delta_amount = dsub (amount sl) (amount gl),
      fr_currency = cb_currency (cc_binding c), fr_checked_at = ce_now env\<rparr>"
    have fields: "fr_id rep = ce_report_id env" "fr_gl_control_balance rep = amount gl" "fr_sl_aggregate_balance rep = amount sl"
      "fr_delta_amount rep = dsub (amount sl) (amount gl)" "fr_subledger_type rep = subledger_value st" "fr_period_code rep = code"
      by (simp_all add: rep_def)
    define p' where "p' = p\<lparr>sp_status := SP_OPEN, sp_report_id := Some (fr_id rep)\<rparr>"
    have "compare_and_close env st code d actor c acct p db =
        (if fr_id rep \<in> fr_id ` set (cd_reports db) then Inl IntegrityError
         else Inr (p', store_status p' (db\<lparr>cd_reports := cd_reports db @ [rep]\<rparr>)))"
      by (simp add: compare_and_close_def g ne money_sub_def b(1) Let_def p'_def rep_def)
    then have "fr_id rep \<notin> fr_id ` set (cd_reports db)" "r = p'" "db' = store_status p' (db\<lparr>cd_reports := cd_reports db @ [rep]\<rparr>)"
      using assms(1) by (simp_all split: if_splits)
    then show thesis using that(2) [OF g(1,2) False] fields unfolding p'_def by blast
  qed
qed

text \<open>A close in full: what it returns, and the tables after it.\<close>

lemma close_outcome:
  assumes "query_one one" "close_inv db" "close_subledger_period one env st code d actor db = Inr (r, db')"
  obtains (kept) "r \<in> set (cd_statuses db)" "sp_status r = SP_CLOSED" "db' = db" "status_key r = (subledger_value st, code)"
  | (completed) p db1 where "get_or_create_status one env st code db = Inr (p, db1)" "sp_status p \<noteq> SP_CLOSED"
      "r = closed_row env actor (p\<lparr>sp_status := SP_RECONCILING\<rparr>)" "db' = store_status r db1"
      "unenforced env st \<or> (\<exists>c gl sl. compared env st d c gl sl \<and> acceptable c gl sl)"
  | (blocked) p db1 c gl sl rep where "get_or_create_status one env st code db = Inr (p, db1)" "sp_status p \<noteq> SP_CLOSED"
      "r = p\<lparr>sp_status := SP_OPEN, sp_report_id := Some (fr_id rep)\<rparr>"
      "db' = store_status r (db1\<lparr>cd_reports := cd_reports db1 @ [rep]\<rparr>)" "compared env st d c gl sl" "\<not> acceptable c gl sl"
      "fr_id rep \<notin> fr_id ` set (cd_reports db1)"
      "fr_gl_control_balance rep = amount gl" "fr_sl_aggregate_balance rep = amount sl" "fr_delta_amount rep = dsub (amount sl) (amount gl)"
      "fr_subledger_type rep = subledger_value st" "fr_period_code rep = code"
proof -
  from assms(3) obtain p db1 where p: "get_or_create_status one env st code db = Inr (p, db1)"
    by (auto simp: close_subledger_period_def rbind_eq_Inr)
  note g = get_or_create_Inr [OF assms(1,2) p]
  show thesis
  proof (cases "sp_status p = SP_CLOSED")
    case True
    then have mem: "p \<in> set (cd_statuses db)" using g by auto
    have "db1 = db"
    proof (cases "find (\<lambda>q. status_key q = (subledger_value st, code)) (cd_statuses db)")
      case None
      then have "status_key p \<noteq> (subledger_value st, code)" using mem by (auto simp: find_None_iff)
      then show ?thesis using g by simp
    next
      case (Some q)
      then show ?thesis using p unfolding get_or_create_status_def status_row_Inr [OF assms(1,2)] by simp
    qed
    moreover have "r = p \<and> db' = db1" using assms(3) True by (simp add: close_subledger_period_def p)
    ultimately show thesis using kept mem True g by simp
  next
    case False
    have run: "Inr (r, db') = (let p1 = p\<lparr>sp_status := SP_RECONCILING\<rparr>;
             close_now = Inr (closed_row env actor p1, store_status (closed_row env actor p1) db1)
         in case get_contract st (ce_registry env) of
              None \<Rightarrow> close_now
            | Some c \<Rightarrow>
                if \<not> cc_enforce_on_close c then close_now
                else case resolve_role (ce_bindings env) (cc_control_account_role c) of
                    Inl _ \<Rightarrow> close_now
                  | Inr (acct, _) \<Rightarrow> compare_and_close env st code d actor c acct p1 db1)"
      using assms(3) False by (simp add: close_subledger_period_def p)
    show thesis
    proof (cases "unenforced env st")
      case True
      then have "r = closed_row env actor (p\<lparr>sp_status := SP_RECONCILING\<rparr>) \<and> db' = store_status r db1"
      proof (cases "get_contract st (ce_registry env)")
        case None
        then show ?thesis using run by (simp add: Let_def)
      next
        case (Some c)
        then have "\<not> cc_enforce_on_close c \<or> ce_bindings env (cc_control_account_role c) = None"
          using True by (simp add: unenforced_def)
        then have "cc_enforce_on_close c \<Longrightarrow> resolve_role (ce_bindings env) (cc_control_account_role c) = Inl (RoleResolutionError (cc_control_account_role c))"
          by (simp add: resolve_role_def)
        then show ?thesis using run Some by (cases "cc_enforce_on_close c") (simp_all add: Let_def)
      qed
      then show thesis using completed [OF p False] True by blast
    next
      case un: False
      then obtain c b where c: "get_contract st (ce_registry env) = Some c" "cc_enforce_on_close c"
        "ce_bindings env (cc_control_account_role c) = Some b"
        by (auto simp: unenforced_def split: option.splits)
      then have cmp: "compare_and_close env st code d actor c (br_account_id b) (p\<lparr>sp_status := SP_RECONCILING\<rparr>) db1 = Inr (r, db')"
        using run by (simp add: Let_def resolve_role_def)
      show thesis
        using cmp c(2)
      proof (cases rule: compare_and_close_Inr)
        case (1 gl sl)
        then have "compared env st d c gl sl" using c by (auto simp: compared_def)
        then show thesis using completed [OF p False 1(4)] 1(3,5) by blast
      next
        case (2 gl sl rep)
        then have "compared env st d c gl sl" using c by (auto simp: compared_def)
        moreover have "r = p\<lparr>sp_status := SP_OPEN, sp_report_id := Some (fr_id rep)\<rparr>" using 2(4) by simp
        ultimately show thesis using blocked [OF p False _ 2(5)] 2 by blast
      qed
    qed
  qed
qed

lemma statuses_update [simp]: "cd_statuses (db\<lparr>cd_reports := x\<rparr>) = cd_statuses db"
  by simp

lemma closed_row_fields [simp]:
  "sp_id (closed_row env actor p) = sp_id p" "status_key (closed_row env actor p) = status_key p"
  "sp_status (closed_row env actor p) = SP_CLOSED" "sp_subledger_type (closed_row env actor p) = sp_subledger_type p"
  "sp_period_code (closed_row env actor p) = sp_period_code p"
  by (simp_all add: closed_row_def status_key_def)

lemma close_step_facts:
  assumes "query_one one" "close_inv db" "close_subledger_period one env st code d actor db = Inr (r, db')"
  shows "close_inv db'" "r \<in> set (cd_statuses db')" "status_key r = (subledger_value st, code)"
    "\<forall>p \<in> set (cd_statuses db). sp_status p = SP_CLOSED \<longrightarrow> p \<in> set (cd_statuses db')"
    "set (cd_reports db) \<subseteq> set (cd_reports db')"
proof -
  have "close_inv db' \<and> r \<in> set (cd_statuses db') \<and> status_key r = (subledger_value st, code)
    \<and> (\<forall>p \<in> set (cd_statuses db). sp_status p = SP_CLOSED \<longrightarrow> p \<in> set (cd_statuses db')) \<and> set (cd_reports db) \<subseteq> set (cd_reports db')"
    using assms
  proof (cases rule: close_outcome)
    case kept
    then show ?thesis using assms(2) by simp
  next
    case (completed p db1)
    note g = get_or_create_Inr [OF assms(1,2) completed(1)]
    have r: "sp_id r = sp_id p" "status_key r = status_key p" using completed(3) by (simp_all add: status_key_def)
    have "close_inv db1" "p \<in> set (cd_statuses db1)" using g by simp_all
    note s = store_status_inv [OF this r, folded completed(4)]
    show ?thesis using s g r completed(2) by auto
  next
    case (blocked p db1 c gl sl rep)
    note g = get_or_create_Inr [OF assms(1,2) blocked(1)]
    have r: "sp_id r = sp_id p" "status_key r = status_key p" using blocked(3) by (simp_all add: status_key_def)
    let ?db = "db1\<lparr>cd_reports := cd_reports db1 @ [rep]\<rparr>"
    have "close_inv ?db" "p \<in> set (cd_statuses ?db)" using g blocked(7) by (auto simp: close_inv_def)
    note s = store_status_inv [OF this r, folded blocked(4)]
    show ?thesis using s g r blocked(2) by auto
  qed
  then show "close_inv db'" "r \<in> set (cd_statuses db')" "status_key r = (subledger_value st, code)"
    "\<forall>p \<in> set (cd_statuses db). sp_status p = SP_CLOSED \<longrightarrow> p \<in> set (cd_statuses db')"
    "set (cd_reports db) \<subseteq> set (cd_reports db')" by blast+
qed

lemma close_reconciled:
  assumes "query_one one" "close_inv db" "close_subledger_period one env st code d actor db = Inr (r, db')"
    and "\<forall>p \<in> set (cd_statuses db). status_key p = (subledger_value st, code) \<longrightarrow> sp_status p \<noteq> SP_CLOSED"
  shows "sp_status r = SP_CLOSED \<and> sp_closed_at r = Some (ce_now env) \<and> sp_closed_by r = actor \<and> cd_reports db' = cd_reports db
      \<and> (unenforced env st \<or> (\<exists>c gl sl. compared env st d c gl sl \<and> acceptable c gl sl))
    \<or> sp_status r = SP_OPEN \<and> (\<exists>c gl sl rep. compared env st d c gl sl \<and> \<not> acceptable c gl sl \<and> cd_reports db' = cd_reports db @ [rep]
        \<and> sp_report_id r = Some (fr_id rep) \<and> fr_gl_control_balance rep = amount gl \<and> fr_sl_aggregate_balance rep = amount sl
        \<and> fr_delta_amount rep = dsub (amount sl) (amount gl) \<and> fr_subledger_type rep = subledger_value st \<and> fr_period_code rep = code)"
  using assms(1-3)
proof (cases rule: close_outcome)
  case kept
  then show ?thesis using assms(4) by blast
next
  case (completed p db1)
  have "cd_reports db1 = cd_reports db" using get_or_create_Inr [OF assms(1,2) completed(1)] by simp
  then show ?thesis using completed by (simp add: store_status_def) (simp add: closed_row_def)
next
  case (blocked p db1 c gl sl rep)
  have "cd_reports db' = cd_reports db @ [rep]"
    using get_or_create_Inr [OF assms(1,2) blocked(1)] blocked(4) by (simp add: store_status_def)
  moreover have "sp_status r = SP_OPEN" "sp_report_id r = Some (fr_id rep)" using blocked(3) by simp_all
  ultimately show ?thesis using blocked(5,6,8-12) by blast
qed

text \<open>
  Property C17. A subledger that was not closed before closes only if closing is not enforced for it, or its balance
  and the control account's are equal or within the tolerance of the contract. Otherwise it stays open
  and exactly one failure report is added, which the status row names and which holds both balances.
\<close>

theorem subledger_close_reconciled:
  assumes "query_one one" "close_inv db" "close_subledger_period one env st code d actor db = Inr (r, db')"
    and "\<forall>p \<in> set (cd_statuses db). status_key p = (subledger_value st, code) \<longrightarrow> sp_status p \<noteq> SP_CLOSED"
  shows "sp_status r = SP_CLOSED \<and> sp_closed_at r = Some (ce_now env) \<and> sp_closed_by r = actor \<and> cd_reports db' = cd_reports db
      \<and> (unenforced env st \<or> (\<exists>c gl sl. compared env st d c gl sl \<and> acceptable c gl sl))
    \<or> sp_status r = SP_OPEN \<and> (\<exists>c gl sl rep. compared env st d c gl sl \<and> \<not> acceptable c gl sl \<and> cd_reports db' = cd_reports db @ [rep]
        \<and> sp_report_id r = Some (fr_id rep) \<and> fr_gl_control_balance rep = amount gl \<and> fr_sl_aggregate_balance rep = amount sl
        \<and> fr_delta_amount rep = dsub (amount sl) (amount gl) \<and> fr_subledger_type rep = subledger_value st \<and> fr_period_code rep = code)"
  using assms by (rule close_reconciled)

inductive close_step :: "one_status \<Rightarrow> close_db \<Rightarrow> close_db \<Rightarrow> bool" for one where
  close_step: "close_subledger_period one env st code d actor db = Inr (r, db') \<Longrightarrow> close_step one db db'"

text \<open>
  A closed subledger period is final: whatever is closed afterwards, with whatever balances, its row stays as it
  is, closing it again answers with the row and changes nothing, and no failure report is lost.
\<close>

theorem subledger_closed_final:
  assumes "query_one one" "(close_step one)\<^sup>*\<^sup>* db db'" "close_inv db" "p \<in> set (cd_statuses db)" "sp_status p = SP_CLOSED"
    and "status_key p = (subledger_value st, code)"
  shows "p \<in> set (cd_statuses db') \<and> close_subledger_period one env st code d actor db' = Inr (p, db')
    \<and> is_subledger_closed one st code db' = Inr True \<and> set (cd_reports db) \<subseteq> set (cd_reports db')"
proof -
  have run: "close_inv db' \<and> p \<in> set (cd_statuses db') \<and> set (cd_reports db) \<subseteq> set (cd_reports db')"
    using assms(2)
  proof (induction rule: rtranclp_induct)
    case base
    then show ?case using assms(3,4) by simp
  next
    case (step t u)
    from step(2) obtain env st code d actor r where "close_subledger_period one env st code d actor t = Inr (r, u)"
      by (auto elim: close_step.cases)
    then show ?case using close_step_facts [OF assms(1)] step(3) assms(5) by (meson subset_trans)
  qed
  have "distinct (map status_key (cd_statuses db'))" using run by (simp add: close_inv_def)
  then have f: "filter (\<lambda>q. status_key q = (subledger_value st, code)) (cd_statuses db') = [p]"
    using filter_key_single [of status_key "cd_statuses db'" p] run assms(6) by simp
  have row: "status_row one st code db' = Inr (Some p)"
    unfolding status_row_def f by (rule query_one.one_single [OF assms(1)])
  show ?thesis
    using run assms(5) by (simp add: row close_subledger_period_def get_or_create_status_def is_subledger_closed_def)
qed

section \<open>A subledger filled by the bridge\<close>

lemma control_balance_fixed:
  assumes "control_balance env c acct d = Inr gl"
  shows "dfix (amount gl) = amount gl"
proof -
  have "dfix (case bs of [] \<Rightarrow> 0 | b # _ \<Rightarrow> ab_balance b) = (case bs of [] \<Rightarrow> 0 | b # _ \<Rightarrow> ab_balance b)" for bs
    by (cases bs) (simp_all add: ab_balance_def dsub_def dfix_idem)
  then show ?thesis
    using assms by (auto simp: control_balance_def Let_def money_of_def rmap_eq_Inr dneg_def split: if_splits)
qed

text \<open>
  Property C38. A subledger table that the bridge alone has filled, from empty, can not close against a control account whose
  balance is beyond the tolerance, of whatever kind: the aggregate is zero, the close is blocked and reports
  the whole control balance as the difference. This is for a subledger whose contract enforces the close, whose control
  role is bound to an account and whose period is not closed yet: one without enforcement, or whose role no account is bound
  to, closes unreconciled, and a closed one stays closed.
\<close>

theorem bridged_subledger_blocked:
  assumes "query_one one" "close_inv db" "bridged (ce_rows env)"
    and "get_contract st (ce_registry env) = Some c" "cc_enforce_on_close c"
    and "ce_bindings env (cc_control_account_role c) = Some b" "control_balance env c (br_account_id b) d = Inr gl"
    and "\<not> is_within_tolerance (cc_tolerance c) (- amount gl) (amount gl)" "amount gl \<noteq> 0"
    and "\<forall>p \<in> set (cd_statuses db). status_key p = (subledger_value st, code) \<longrightarrow> sp_status p \<noteq> SP_CLOSED"
    and "close_subledger_period one env st code d actor db = Inr (r, db')"
  shows "sp_status r = SP_OPEN \<and> (\<exists>rep. cd_reports db' = cd_reports db @ [rep] \<and> sp_report_id r = Some (fr_id rep)
    \<and> fr_gl_control_balance rep = amount gl \<and> fr_sl_aggregate_balance rep = 0 \<and> fr_delta_amount rep = - amount gl)"
proof -
  have fix_gl: "dfix (amount gl) = amount gl" using assms(7) by (rule control_balance_fixed)
  have cmp: "c' = c \<and> gl' = gl \<and> amount sl = 0" if "compared env st d c' gl' sl" for c' gl' sl
    using that assms(4,6,7) netted_balance [OF bridged_netted [OF assms(3)]] by (auto simp: compared_def money_of_def rmap_eq_Inr)
  have delta: "dsub 0 (amount gl) = - amount gl" by (simp add: dsub_def fix_gl)
  have bad: "\<not> acceptable c gl sl" if "amount sl = 0" for sl using that assms(8,9) by (simp add: acceptable_def delta)
  have "\<not> unenforced env st" using assms(4-6) by (simp add: unenforced_def)
  then show ?thesis
    using close_reconciled [OF assms(1,2,11,10)] cmp bad delta by fastforce
qed

definition demo_control_entry :: journal_entry where
  "demo_control_entry = \<lparr>je_id = 50, je_source_event_id = 4, je_source_event_type = ''ap.invoice'', je_occurred_at = 1, je_effective_date = 15,
     je_posted_at = Some 3, je_actor_id = 7, je_status = POSTED, je_reversal_of_id = None, je_idempotency_key = ''k'',
     je_posting_rule_version = 1, je_coa_version = None, je_dimension_schema_version = None, je_rounding_policy_version = None,
     je_currency_registry_version = None, je_seq = Some 1, je_entry_metadata = None, je_description = None, je_created_by_id = 7,
     je_lines = [\<lparr>jl_account_id = 21, jl_side = CREDIT, jl_amount = 100, jl_currency = ''USD'', jl_dimensions = None, jl_is_rounding = False,
       jl_line_memo = None, jl_exchange_rate_id = None, jl_line_seq = 0, jl_created_by_id = 7\<rparr>]\<rparr>"

definition demo_binding :: binding_record where
  "demo_binding = \<lparr>br_account_id = 21, br_account_code = ''2100'', br_account_name = [], br_account_type = [], br_normal_balance = [],
     br_effective_from = [], br_effective_to = [], br_config_id = [], br_config_version = 1\<rparr>"

definition demo_close_env :: close_env where
  "demo_close_env = \<lparr>ce_now = 40, ce_registry = default_control_registry, ce_bindings = [''AP_CONTROL'' \<mapsto> demo_binding],
     ce_journal = \<lparr>jd_entries = [demo_control_entry], jd_counters = Map.empty, jd_event_ids = [], jd_account_ids = []\<rparr>,
     ce_rows = demo_rows, ce_period_codes = [''2026-01''], ce_status_id = 60, ce_report_id = 61\<rparr>"

definition no_closes :: close_db where
  "no_closes = \<lparr>cd_statuses = [], cd_reports = []\<rparr>"

definition demo_close :: "py_exc + sl_period_status \<times> close_db" where
  "demo_close = close_subledger_period scalar_one_or_none demo_close_env AP ''2026-01'' 31 (Some 7) no_closes"

lemma demo_close_facts:
  "close_inv no_closes" "get_contract AP (ce_registry demo_close_env) = Some ap_contract"
  "ce_bindings demo_close_env (cc_control_account_role ap_contract) = Some demo_binding"
  "control_balance demo_close_env ap_contract (br_account_id demo_binding) 31 = Inr (usd 100)"
proof -
  show "close_inv no_closes" by (simp add: close_inv_def no_closes_def)
  show "get_contract AP (ce_registry demo_close_env) = Some ap_contract"
    by (simp add: demo_close_env_def get_contract_def default_control_registry_def register_contract_def cc_subledger_type_def
        ap_contract_def ar_contract_def inventory_contract_def bank_contract_def)
  show "ce_bindings demo_close_env (cc_control_account_role ap_contract) = Some demo_binding"
    by (simp add: demo_close_env_def cc_control_account_role_def ap_contract_def)
  show "control_balance demo_close_env ap_contract (br_account_id demo_binding) 31 = Inr (usd 100)" by code_simp
qed

lemma demo_close_runs: "\<exists>r db. demo_close = Inr (r, db)"
proof -
  have m: "map_sum id (\<lambda>_. ()) demo_close = Inr ()" by code_simp
  show ?thesis
  proof (cases demo_close)
    case (Inl e)
    have False using m unfolding Inl by simp
    then show ?thesis ..
  next
    case (Inr x)
    show ?thesis unfolding Inr by (cases x) simp
  qed
qed

theorem subledger_close_reconciled_witness:
  "\<exists>r db. demo_close = Inr (r, db) \<and> (sp_status r = SP_CLOSED \<or> sp_status r = SP_OPEN \<and> length (cd_reports db) = 1)"
proof -
  obtain r db where run: "demo_close = Inr (r, db)" using demo_close_runs by blast
  have "\<forall>p \<in> set (cd_statuses no_closes). status_key p = (subledger_value AP, ''2026-01'') \<longrightarrow> sp_status p \<noteq> SP_CLOSED"
    by (simp add: no_closes_def)
  from subledger_close_reconciled [OF soon.query_one_axioms demo_close_facts(1) run [unfolded demo_close_def] this]
  have "sp_status r = SP_CLOSED \<or> sp_status r = SP_OPEN \<and> length (cd_reports db) = 1" by (auto simp: no_closes_def)
  then show ?thesis using run by blast
qed

theorem bridged_subledger_blocked_witness:
  "\<exists>r db. demo_close = Inr (r, db) \<and> sp_status r = SP_OPEN
     \<and> (\<exists>rep \<in> set (cd_reports db). fr_gl_control_balance rep = 100 \<and> fr_sl_aggregate_balance rep = 0 \<and> fr_delta_amount rep = - 100)"
proof -
  obtain r db where run: "demo_close = Inr (r, db)" using demo_close_runs by blast
  have n: "bridged (ce_rows demo_close_env)" using demo_rows_bridged by (simp add: demo_close_env_def)
  have c: "cc_enforce_on_close ap_contract" "amount (usd 100) \<noteq> 0" by (simp_all add: ap_contract_def usd_def)
  have t: "\<not> is_within_tolerance (cc_tolerance ap_contract) (- amount (usd 100)) (amount (usd 100))" by code_simp
  have "\<forall>p \<in> set (cd_statuses no_closes). status_key p = (subledger_value AP, ''2026-01'') \<longrightarrow> sp_status p \<noteq> SP_CLOSED"
    by (simp add: no_closes_def)
  from bridged_subledger_blocked [OF soon.query_one_axioms demo_close_facts(1) n demo_close_facts(2) c(1) demo_close_facts(3,4) t c(2) this
      run [unfolded demo_close_def]]
  have "sp_status r = SP_OPEN \<and> (\<exists>rep \<in> set (cd_reports db). fr_gl_control_balance rep = 100 \<and> fr_sl_aggregate_balance rep = 0
      \<and> fr_delta_amount rep = - 100)"
    by (auto simp: usd_def)
  then show ?thesis using run by blast
qed

text \<open>Without a contract the period closes at once, and stays closed.\<close>

theorem subledger_closed_final_witness:
  "\<exists>p db. close_subledger_period scalar_one_or_none (demo_close_env\<lparr>ce_registry := []\<rparr>) AP ''2026-01'' 31 None no_closes = Inr (p, db)
     \<and> close_subledger_period scalar_one_or_none demo_close_env AP ''2026-01'' 31 (Some 7) db = Inr (p, db)"
proof -
  let ?env = "demo_close_env\<lparr>ce_registry := []\<rparr>"
  have "map_sum id (\<lambda>(p, db). sp_status p) (close_subledger_period scalar_one_or_none ?env AP ''2026-01'' 31 None no_closes) = Inr SP_CLOSED"
    by (simp add: close_subledger_period_def get_or_create_status_def status_row_def no_closes_def demo_close_env_def get_contract_def Let_def)
  then obtain p db where run: "close_subledger_period scalar_one_or_none ?env AP ''2026-01'' 31 None no_closes = Inr (p, db)"
    and closed: "sp_status p = SP_CLOSED"
    by (cases "close_subledger_period scalar_one_or_none ?env AP ''2026-01'' 31 None no_closes") auto
  note f = close_step_facts [OF soon.query_one_axioms demo_close_facts(1) run]
  from subledger_closed_final [OF soon.query_one_axioms rtranclp.rtrancl_refl f(1,2) closed f(3)] run
  show ?thesis by blast
qed

end
