(* ===== verification/Period_Close.thy ===== *)
theory Period_Close
  imports Subledger_Close Period_Service Audit_Chain
begin

text \<open>
  \<open>finance_services/period_close_orchestrator.py\<close> with the types of \<open>_close_types.py\<close>: closing a period in six phases
  under the close lock (R25), with an authority check before each, and the certificate that ends it.

  The state is what the phases read and change in one session: the periods, the subledger status tables, the
  audit log, the journal and the subledger rows. The reporting service's trial balance, the general ledger's
  closing entry, the adjustment callback, the ledger hash and the account codes are arguments, as they are injected.
  Of a message only whether it contains \<open>Skipped\<close> is kept, of an error in a phase nothing. A subledger close that
  raises leaves its status row reconciling, as the handler does not roll back; integrity errors, which would also end the session,
  need a clash of fresh identifiers and are treated alike.

  The lemmas show who may run which phase, what a completed close means, that with a subledger service the
  first phase never succeeds and leaves the period locked for closing, and where the health check is wrong.
\<close>

section \<open>Types\<close>

datatype close_role = AUDITOR | PREPARER | REVIEWER | APPROVER

primrec authority_rank :: "close_role \<Rightarrow> nat" where
  "authority_rank AUDITOR = 0"
| "authority_rank PREPARER = 1"
| "authority_rank REVIEWER = 2"
| "authority_rank APPROVER = 3"

instantiation close_role :: linorder
begin

definition less_eq_close_role :: "close_role \<Rightarrow> close_role \<Rightarrow> bool" where
  "less_eq_close_role r s \<longleftrightarrow> authority_rank r \<le> authority_rank s"

definition less_close_role :: "close_role \<Rightarrow> close_role \<Rightarrow> bool" where
  "less_close_role r s \<longleftrightarrow> authority_rank r < authority_rank s"

instance
proof
  fix r s :: close_role
  show "r \<le> s \<Longrightarrow> s \<le> r \<Longrightarrow> r = s"
    by (cases r; cases s) (simp_all add: less_eq_close_role_def)
qed (auto simp: less_eq_close_role_def less_close_role_def)

end

definition has_authority :: "close_role \<Rightarrow> close_role \<Rightarrow> bool" where
  "has_authority actual required \<longleftrightarrow> required \<le> actual"

datatype run_status = IN_PROGRESS | RUN_COMPLETED | RUN_FAILED | RUN_CANCELLED

record close_exception =
  cx_category :: string
  cx_subledger_type :: "string option"
  cx_account_code :: "string option"
  cx_amount :: decimal
  cx_currency :: string
  cx_severity :: string

datatype phase_details =
    No_Details
  | Subledger_Details "(string \<times> bool) list"
  | Balance_Details decimal decimal bool
  | Count_Details int

record phase_result =
  ph_phase :: nat
  ph_phase_name :: string
  ph_success :: bool
  ph_executed_by :: uuid
  ph_guard :: "string option"
  ph_skipped :: bool
  ph_details :: phase_details
  ph_exceptions :: "close_exception list"

record close_run =
  cr_id :: uuid
  cr_period_code :: string
  cr_fiscal_year :: nat
  cr_is_year_end :: bool
  cr_status :: run_status
  cr_correlation_id :: string
  cr_started_at :: int
  cr_started_by :: uuid

record certificate =
  ct_id :: uuid
  ct_period_code :: string
  ct_closed_at :: int
  ct_closed_by :: uuid
  ct_correlation_id :: string
  ct_ledger_hash :: string
  ct_debits :: decimal
  ct_credits :: decimal
  ct_subledgers_closed :: "string list"
  ct_adjustments_posted :: int
  ct_closing_entries_posted :: int
  ct_phases_completed :: nat
  ct_phases_skipped :: nat
  ct_audit_event :: "audit_event option"

record close_result =
  cl_period_code :: string
  cl_status :: run_status
  cl_correlation_id :: string
  cl_phases_completed :: nat
  cl_phase_results :: "phase_result list"
  cl_started_at :: int
  cl_certificate :: "certificate option"

record trial_balance =
  tb_is_balanced :: bool
  tb_total_debits :: decimal
  tb_total_credits :: decimal

datatype close_exc =
    PcPeriod period_exc
  | PcAudit audit_exc
  | PcPy py_exc
  | PcAttributeError
  | CloseAuthorityError close_role close_role nat

record close_state =
  cs_periods :: periods
  cs_close :: close_db
  cs_audit :: audit_db
  cs_journal :: journal_db
  cs_rows :: "subledger_row list"

text \<open>
  The orchestrator with what is injected into it. \<open>po_subledgers\<close> is the subledger period service, if there is one:
  its contracts and role bindings. A failure of the reporting or the general ledger service is None.
\<close>

record close_orchestrator =
  po_one :: one_period
  po_one_status :: one_status
  po_subledgers :: "(control_registry \<times> role_bindings) option"
  po_trial_balance :: "int \<Rightarrow> string option \<Rightarrow> close_state \<Rightarrow> trial_balance option"
  po_closing_entry :: "string \<Rightarrow> int \<Rightarrow> uuid \<Rightarrow> close_state \<Rightarrow> int option \<times> close_state"
  po_ledger_hash :: "int option \<Rightarrow> close_state \<Rightarrow> string"
  po_account_id :: "string \<Rightarrow> uuid option"
  po_auditor :: auditor
  po_role :: "uuid \<Rightarrow> close_role"
  po_str :: "decimal \<Rightarrow> string"

record close_call =
  pc_now :: int
  pc_run_id :: uuid
  pc_correlation :: uuid
  pc_certificate_id :: uuid
  pc_audit :: audit_env
  pc_trigger_fires :: bool
  pc_status_id :: "subledger_type \<Rightarrow> uuid"
  pc_report_id :: "subledger_type \<Rightarrow> uuid"
  pc_callback :: "(close_run \<Rightarrow> uuid \<Rightarrow> close_state \<Rightarrow> close_exc + int \<times> close_state) option"

section \<open>Authority\<close>

definition PHASE_AUTHORITY :: "(nat \<times> close_role) list" where
  "PHASE_AUTHORITY = [(0, AUDITOR), (1, PREPARER), (2, PREPARER), (3, PREPARER), (4, PREPARER), (5, APPROVER), (6, APPROVER)]"

definition required_role :: "nat \<Rightarrow> close_role" where
  "required_role phase = (case map_of PHASE_AUTHORITY phase of None \<Rightarrow> APPROVER | Some r \<Rightarrow> r)"

definition default_role :: "uuid \<Rightarrow> close_role" where
  "default_role actor = APPROVER"

definition check_authority :: "close_orchestrator \<Rightarrow> uuid \<Rightarrow> nat \<Rightarrow> close_exc + unit" where
  "check_authority po actor phase =
     ensure (has_authority (po_role po actor) (required_role phase))
       (CloseAuthorityError (required_role phase) (po_role po actor) phase)"

section \<open>Health check\<close>

definition SL_CLOSE_ORDER :: "subledger_type list" where
  "SL_CLOSE_ORDER = [AP, AR, INVENTORY, BANK]"

definition SUSPENSE_ACCOUNTS :: "string list" where
  "SUSPENSE_ACCOUNTS = [''2100'', ''2500'', ''6998'']"

definition control_codes :: "subledger_type \<rightharpoonup> string" where
  "control_codes = [AP \<mapsto> ''2000'', AR \<mapsto> ''1200'', INVENTORY \<mapsto> ''1400'', BANK \<mapsto> ''1000'']"

definition code_balance :: "close_orchestrator \<Rightarrow> string \<Rightarrow> int \<Rightarrow> string \<Rightarrow> close_state \<Rightarrow> decimal" where
  "code_balance po code d cur s =
     (case po_account_id po code of
        None \<Rightarrow> 0
      | Some acct \<Rightarrow> (case account_balances acct (Some d) (Some cur) (cs_journal s) of [] \<Rightarrow> 0 | b # _ \<Rightarrow> ab_balance b))"

definition subledger_amount :: "subledger_type \<Rightarrow> int \<Rightarrow> string \<Rightarrow> close_state \<Rightarrow> decimal" where
  "subledger_amount st d cur s =
     (case aggregate_balance st d cur (cs_rows s) of Inl _ \<Rightarrow> 0 | Inr m \<Rightarrow> amount m)"

definition subledger_variance :: "close_orchestrator \<Rightarrow> subledger_type \<Rightarrow> int \<Rightarrow> string \<Rightarrow> close_state \<Rightarrow> decimal" where
  "subledger_variance po st d cur s =
     dsub (subledger_amount st d cur s) (case control_codes st of None \<Rightarrow> 0 | Some code \<Rightarrow> code_balance po code d cur s)"

record health_check_result =
  hc_sl_variance :: "(subledger_type \<times> decimal) list"
  hc_suspense :: "(string \<times> decimal) list"
  hc_trial_balance_ok :: bool
  hc_total_debits :: decimal
  hc_total_credits :: decimal
  hc_entry_count :: nat
  hc_blocking :: "close_exception list"
  hc_warnings :: "close_exception list"

definition can_proceed :: "health_check_result \<Rightarrow> bool" where
  "can_proceed h \<longleftrightarrow> hc_blocking h = []"

definition health_check :: "close_orchestrator \<Rightarrow> string \<Rightarrow> int \<Rightarrow> string \<Rightarrow> close_state \<Rightarrow> close_exc + health_check_result" where
  "health_check po code d cur s =
     (let variances = map (\<lambda>st. (st, subledger_variance po st d cur s)) SL_CLOSE_ORDER;
          suspense = List.map_filter (\<lambda>c. if po_account_id po c = None then None else Some (c, code_balance po c d cur s)) SUSPENSE_ACCOUNTS;
          tb = po_trial_balance po d (Some cur) s
      in rmap (\<lambda>p. \<lparr>hc_sl_variance = variances, hc_suspense = suspense,
             hc_trial_balance_ok = (case tb of None \<Rightarrow> False | Some t \<Rightarrow> tb_is_balanced t),
             hc_total_debits = (case tb of None \<Rightarrow> 0 | Some t \<Rightarrow> tb_total_debits t),
             hc_total_credits = (case tb of None \<Rightarrow> 0 | Some t \<Rightarrow> tb_total_credits t),
             hc_entry_count = (case p of None \<Rightarrow> 0
               | Some q \<Rightarrow> length (filter (\<lambda>e. fp_start_date q \<le> je_effective_date e \<and> je_effective_date e \<le> fp_end_date q) (jd_entries (cs_journal s)))),
             hc_blocking = List.map_filter (\<lambda>(st, v). if v = 0 then None
               else Some \<lparr>cx_category = ''sl_variance'', cx_subledger_type = Some (subledger_value st), cx_account_code = control_codes st,
                     cx_amount = v, cx_currency = cur, cx_severity = ''blocking''\<rparr>) variances,
             hc_warnings = List.map_filter (\<lambda>(c, b). if b = 0 \<or> c = ''6998'' then None
               else Some \<lparr>cx_category = ''suspense_balance'', cx_subledger_type = None, cx_account_code = Some c,
                     cx_amount = b, cx_currency = cur, cx_severity = ''warning''\<rparr>) suspense\<rparr>)
           (map_sum PcPeriod id (get_period_by_code (po_one po) code (cs_periods s))))"

section \<open>The phases\<close>

definition begin_close ::
    "close_orchestrator \<Rightarrow> close_call \<Rightarrow> string \<Rightarrow> uuid \<Rightarrow> bool \<Rightarrow> close_state \<Rightarrow> close_exc + close_run \<times> close_state" where
  "begin_close po pc code actor year_end s =
     rbind (check_authority po actor 1) (\<lambda>_.
     rbind (map_sum PcPeriod id (begin_closing (po_one po) code (uuid_str (pc_run_id pc)) (cs_periods s))) (\<lambda>(p, ps).
     rbind (map_sum PcAudit id (record_close_begun (po_auditor po) (pc_audit pc) (fp_id p) code actor (uuid_str (pc_correlation pc)) (cs_audit s)))
       (\<lambda>(_, au).
         Inr (\<lparr>cr_id = pc_run_id pc, cr_period_code = code, cr_fiscal_year = fst (ymd_of_ordinal (nat (fp_start_date p))),
               cr_is_year_end = year_end, cr_status = IN_PROGRESS, cr_correlation_id = uuid_str (pc_correlation pc),
               cr_started_at = pc_now pc, cr_started_by = actor\<rparr>,
              s\<lparr>cs_periods := ps, cs_audit := au\<rparr>))))"

definition phase_ok :: "nat \<Rightarrow> string \<Rightarrow> bool \<Rightarrow> uuid \<Rightarrow> phase_result" where
  "phase_ok n nm ok actor = \<lparr>ph_phase = n, ph_phase_name = nm, ph_success = ok, ph_executed_by = actor, ph_guard = None,
     ph_skipped = False, ph_details = No_Details, ph_exceptions = []\<rparr>"

definition period_info :: "close_orchestrator \<Rightarrow> close_run \<Rightarrow> close_state \<Rightarrow> close_exc + fiscal_period" where
  "period_info po run s =
     rbind (map_sum PcPeriod id (get_period_by_code (po_one po) (cr_period_code run) (cs_periods s))) (\<lambda>r.
       case r of None \<Rightarrow> Inl (PcPeriod PeriodNotFoundError) | Some p \<Rightarrow> Inr p)"

text \<open>
  \<open>result.status.value\<close>: the status column is text (\<open>Mapped[str]\<close>, written as \<open>SubledgerPeriodStatus.CLOSED.value\<close>),
  and text has no attribute \<open>value\<close>.
\<close>

definition status_value_attribute :: "sl_period_status \<Rightarrow> close_exc + string" where
  "status_value_attribute p = Inl PcAttributeError"

definition close_env_of :: "close_call \<Rightarrow> control_registry \<times> role_bindings \<Rightarrow> subledger_type \<Rightarrow> close_state \<Rightarrow> close_env" where
  "close_env_of pc sl st s =
     \<lparr>ce_now = pc_now pc, ce_registry = fst sl, ce_bindings = snd sl, ce_journal = cs_journal s, ce_rows = cs_rows s,
      ce_period_codes = map fp_period_code (cs_periods s), ce_status_id = pc_status_id pc st, ce_report_id = pc_report_id pc st\<rparr>"

definition after_failed_close :: "close_orchestrator \<Rightarrow> close_env \<Rightarrow> subledger_type \<Rightarrow> string \<Rightarrow> close_db \<Rightarrow> close_db" where
  "after_failed_close po env st code db =
     (case get_or_create_status (po_one_status po) env st code db of
        Inl _ \<Rightarrow> db
      | Inr (p, db1) \<Rightarrow> store_status (p\<lparr>sp_status := SP_RECONCILING\<rparr>) db1)"

text \<open>One subledger of phase 1: its details, its exception, and the state after it.\<close>

definition sl_exception :: "string \<Rightarrow> subledger_type \<Rightarrow> close_exception" where
  "sl_exception cat st = \<lparr>cx_category = cat, cx_subledger_type = Some (subledger_value st), cx_account_code = None, cx_amount = 0,
     cx_currency = ''USD'', cx_severity = ''blocking''\<rparr>"

definition close_one_subledger ::
    "close_orchestrator \<Rightarrow> close_call \<Rightarrow> control_registry \<times> role_bindings \<Rightarrow> close_run \<Rightarrow> fiscal_period \<Rightarrow> uuid \<Rightarrow> subledger_type
     \<Rightarrow> close_state \<Rightarrow> (bool \<times> close_exception option) \<times> close_state" where
  "close_one_subledger po pc sl run p actor st s =
     (let env = close_env_of pc sl st s; failed = (False, Some (sl_exception ''sl_close_error'' st))
      in case close_subledger_period (po_one_status po) env st (cr_period_code run) (fp_end_date p) (Some actor) (cs_close s) of
           Inl _ \<Rightarrow> (failed, s\<lparr>cs_close := after_failed_close po env st (cr_period_code run) (cs_close s)\<rparr>)
         | Inr (row, db) \<Rightarrow>
             let s1 = s\<lparr>cs_close := db\<rparr>; closed = (sp_status row = SP_CLOSED)
             in case status_value_attribute row of
                  Inl _ \<Rightarrow> (failed, s1)
                | Inr _ \<Rightarrow>
                    if \<not> closed then ((False, Some (sl_exception ''sl_close_failed'' st)), s1)
                    else case record_subledger_closed (po_auditor po) (pc_audit pc) (fp_id p) (cr_period_code run) (subledger_value st) actor (cs_audit s1) of
                        Inl _ \<Rightarrow> (failed, s1)
                      | Inr (_, au) \<Rightarrow> ((True, None), s1\<lparr>cs_audit := au\<rparr>))"

primrec close_subledgers ::
    "close_orchestrator \<Rightarrow> close_call \<Rightarrow> control_registry \<times> role_bindings \<Rightarrow> close_run \<Rightarrow> fiscal_period \<Rightarrow> uuid \<Rightarrow> subledger_type list
     \<Rightarrow> close_state \<Rightarrow> (subledger_type \<times> bool \<times> close_exception option) list \<times> close_state" where
  "close_subledgers po pc sl run p actor [] s = ([], s)"
| "close_subledgers po pc sl run p actor (st # sts) s =
     (let (r, s1) = close_one_subledger po pc sl run p actor st s;
          (rs, s2) = close_subledgers po pc sl run p actor sts s1
      in ((st, r) # rs, s2))"

definition phase_1 :: "close_orchestrator \<Rightarrow> close_call \<Rightarrow> close_run \<Rightarrow> uuid \<Rightarrow> close_state \<Rightarrow> close_exc + phase_result \<times> close_state" where
  "phase_1 po pc run actor s =
     (case po_subledgers po of
        None \<Rightarrow> Inr ((phase_ok 1 ''close_subledgers'' True actor)\<lparr>ph_guard := Some ''ALL_SUBLEDGERS_CLOSED''\<rparr>, s)
      | Some sl \<Rightarrow>
          rbind (period_info po run s) (\<lambda>p.
            let (rs, s1) = close_subledgers po pc sl run p actor SL_CLOSE_ORDER s
            in Inr ((phase_ok 1 ''close_subledgers'' (\<forall>r \<in> set rs. fst (snd r)) actor)\<lparr>ph_guard := Some ''ALL_SUBLEDGERS_CLOSED'',
                 ph_details := Subledger_Details (map (\<lambda>(st, ok, _). (subledger_value st, ok)) rs),
                 ph_exceptions := List.map_filter (\<lambda>(_, _, x). x) rs\<rparr>, s1)))"

definition phase_2 :: "close_orchestrator \<Rightarrow> close_run \<Rightarrow> uuid \<Rightarrow> close_state \<Rightarrow> close_exc + phase_result \<times> close_state" where
  "phase_2 po run actor s =
     rbind (period_info po run s) (\<lambda>p.
       case po_trial_balance po (fp_end_date p) None s of
         None \<Rightarrow> Inr ((phase_ok 2 ''verify_trial_balance'' False actor)\<lparr>ph_guard := Some ''TRIAL_BALANCE_BALANCED''\<rparr>, s)
       | Some tb \<Rightarrow> Inr ((phase_ok 2 ''verify_trial_balance'' (tb_is_balanced tb) actor)\<lparr>ph_guard := Some ''TRIAL_BALANCE_BALANCED'',
             ph_details := Balance_Details (tb_total_debits tb) (tb_total_credits tb) (tb_is_balanced tb)\<rparr>, s))"

definition phase_3 :: "close_call \<Rightarrow> close_run \<Rightarrow> uuid \<Rightarrow> close_state \<Rightarrow> close_exc + phase_result \<times> close_state" where
  "phase_3 pc run actor s =
     rbind (case pc_callback pc of None \<Rightarrow> Inr (0, s) | Some f \<Rightarrow> f run actor s) (\<lambda>(n, s1).
       Inr ((phase_ok 3 ''post_adjustments'' True actor)\<lparr>ph_details := Count_Details n\<rparr>, s1))"

definition phase_4 :: "close_orchestrator \<Rightarrow> close_run \<Rightarrow> uuid \<Rightarrow> close_state \<Rightarrow> close_exc + phase_result \<times> close_state" where
  "phase_4 po run actor s =
     (if \<not> cr_is_year_end run then Inr ((phase_ok 4 ''post_closing_entries'' True actor)\<lparr>ph_skipped := True\<rparr>, s)
      else
        rbind (period_info po run s) (\<lambda>p.
          case po_closing_entry po (cr_period_code run) (fp_end_date p) actor s of
            (None, s1) \<Rightarrow> Inr ((phase_ok 4 ''post_closing_entries'' False actor)\<lparr>ph_guard := Some ''YEAR_END_ENTRIES_POSTED''\<rparr>, s1)
          | (Some n, s1) \<Rightarrow> Inr ((phase_ok 4 ''post_closing_entries'' True actor)\<lparr>ph_guard := Some ''YEAR_END_ENTRIES_POSTED'',
                ph_details := Count_Details n\<rparr>, s1)))"

definition phase_5 :: "close_orchestrator \<Rightarrow> close_call \<Rightarrow> close_run \<Rightarrow> uuid \<Rightarrow> close_state \<Rightarrow> close_exc + phase_result \<times> close_state" where
  "phase_5 po pc run actor s =
     (case close_period (po_one po) (pc_now pc) (pc_trigger_fires pc) (cr_period_code run) actor (cs_periods s) of
        Inl _ \<Rightarrow> Inr (phase_ok 5 ''close_gl_period'' False actor, s)
      | Inr (_, ps) \<Rightarrow> Inr (phase_ok 5 ''close_gl_period'' True actor, s\<lparr>cs_periods := ps\<rparr>))"

definition phase_6 :: "close_orchestrator \<Rightarrow> close_run \<Rightarrow> uuid \<Rightarrow> close_state \<Rightarrow> close_exc + phase_result \<times> close_state" where
  "phase_6 po run actor s =
     (if \<not> cr_is_year_end run then Inr ((phase_ok 6 ''lock_period'' True actor)\<lparr>ph_skipped := True\<rparr>, s)
      else case lock_period (po_one po) (cr_period_code run) (cs_periods s) of
          Inl _ \<Rightarrow> Inr (phase_ok 6 ''lock_period'' False actor, s)
        | Inr (_, ps) \<Rightarrow> Inr (phase_ok 6 ''lock_period'' True actor, s\<lparr>cs_periods := ps\<rparr>))"

definition run_phase ::
    "close_orchestrator \<Rightarrow> close_call \<Rightarrow> close_run \<Rightarrow> nat \<Rightarrow> uuid \<Rightarrow> close_state \<Rightarrow> close_exc + phase_result \<times> close_state" where
  "run_phase po pc run phase actor s =
     rbind (check_authority po actor phase) (\<lambda>_.
       if phase = 1 then phase_1 po pc run actor s
       else if phase = 2 then phase_2 po run actor s
       else if phase = 3 then phase_3 pc run actor s
       else if phase = 4 then phase_4 po run actor s
       else if phase = 5 then phase_5 po pc run actor s
       else if phase = 6 then phase_6 po run actor s
       else Inr (phase_ok phase ''unknown'' False actor, s))"

section \<open>The certificate and the full close\<close>

definition phase_count :: "nat \<Rightarrow> phase_result list \<Rightarrow> int" where
  "phase_count n rs = foldl (\<lambda>k r. if ph_phase r = n then (case ph_details r of Count_Details c \<Rightarrow> c | No_Details \<Rightarrow> k | _ \<Rightarrow> 0) else k) 0 rs"

definition closed_names :: "phase_result list \<Rightarrow> string list" where
  "closed_names rs = concat (map (\<lambda>r. if ph_phase r = 1
     then (case ph_details r of Subledger_Details ds \<Rightarrow> map fst (filter snd ds) | _ \<Rightarrow> []) else []) rs)"

definition build_certificate ::
    "close_orchestrator \<Rightarrow> close_call \<Rightarrow> close_run \<Rightarrow> phase_result list \<Rightarrow> uuid \<Rightarrow> close_state \<Rightarrow> close_exc + certificate \<times> close_state" where
  "build_certificate po pc run rs actor s =
     rbind (map_sum PcPeriod id (get_period_by_code (po_one po) (cr_period_code run) (cs_periods s))) (\<lambda>p.
       let tb = (case p of None \<Rightarrow> None | Some q \<Rightarrow> po_trial_balance po (fp_end_date q) None s);
           cert = \<lparr>ct_id = pc_certificate_id pc, ct_period_code = cr_period_code run, ct_closed_at = pc_now pc, ct_closed_by = actor,
             ct_correlation_id = cr_correlation_id run, ct_ledger_hash = po_ledger_hash po (map_option fp_end_date p) s,
             ct_debits = (case tb of None \<Rightarrow> 0 | Some t \<Rightarrow> tb_total_debits t),
             ct_credits = (case tb of None \<Rightarrow> 0 | Some t \<Rightarrow> tb_total_credits t),
             ct_subledgers_closed = closed_names rs, ct_adjustments_posted = phase_count 3 rs, ct_closing_entries_posted = phase_count 4 rs,
             ct_phases_completed = length (filter (\<lambda>r. ph_success r \<and> \<not> ph_skipped r) rs),
             ct_phases_skipped = length (filter (\<lambda>r. ph_success r \<and> ph_skipped r) rs), ct_audit_event = None\<rparr>
       in case p of
            None \<Rightarrow> Inr (cert, s)
          | Some q \<Rightarrow>
              rmap (\<lambda>(e, au). (cert\<lparr>ct_audit_event := Some e\<rparr>, s\<lparr>cs_audit := au\<rparr>))
                (map_sum PcAudit id (record_close_certified (po_auditor po) (pc_audit pc) (fp_id q) (cr_period_code run) actor
                  [(''certificate_id'', JStr (uuid_str (ct_id cert))), (''ledger_hash'', JStr (ct_ledger_hash cert)),
                   (''correlation_id'', JStr (ct_correlation_id cert)),
                   (''trial_balance_debits'', JStr (po_str po (ct_debits cert))), (''trial_balance_credits'', JStr (po_str po (ct_credits cert))),
                   (''subledgers_closed'', JList (map JStr (ct_subledgers_closed cert))),
                   (''adjustments_posted'', JInt (ct_adjustments_posted cert)),
                   (''closing_entries_posted'', JInt (ct_closing_entries_posted cert)),
                   (''phases_completed'', JInt (int (ct_phases_completed cert))), (''phases_skipped'', JInt (int (ct_phases_skipped cert)))]
                  (cs_audit s))))"

text \<open>The loop over the phases: the results so far, and whether a phase failed.\<close>

fun run_phases ::
    "close_orchestrator \<Rightarrow> close_call \<Rightarrow> close_run \<Rightarrow> uuid \<Rightarrow> nat list \<Rightarrow> close_state
     \<Rightarrow> close_exc + (phase_result list \<times> nat option) \<times> close_state" where
  "run_phases po pc run actor [] s = Inr (([], None), s)"
| "run_phases po pc run actor (n # ns) s =
     rbind (run_phase po pc run n actor s) (\<lambda>(r, s1).
       if \<not> ph_success r then Inr (([r], Some n), s1)
       else rmap (\<lambda>((rs, failed), s2). ((r # rs, failed), s2)) (run_phases po pc run actor ns s1))"

definition close_period_full ::
    "close_orchestrator \<Rightarrow> close_call \<Rightarrow> string \<Rightarrow> uuid \<Rightarrow> bool \<Rightarrow> close_state \<Rightarrow> close_exc + close_result \<times> close_state" where
  "close_period_full po pc code actor year_end s =
     rbind (begin_close po pc code actor year_end s) (\<lambda>(run, s1).
     rbind (run_phases po pc run actor [1, 2, 3, 4, 5, 6] s1) (\<lambda>((rs, failed), s2).
       let res = \<lparr>cl_period_code = code, cl_status = RUN_FAILED, cl_correlation_id = cr_correlation_id run, cl_phases_completed = 0,
             cl_phase_results = rs, cl_started_at = cr_started_at run, cl_certificate = None\<rparr>
       in case failed of
            Some n \<Rightarrow> Inr (res\<lparr>cl_phases_completed := n - 1\<rparr>, s2)
          | None \<Rightarrow>
              rmap (\<lambda>(cert, s3). (res\<lparr>cl_status := RUN_COMPLETED, cl_phases_completed := length (filter (\<lambda>r. ph_success r \<and> \<not> ph_skipped r) rs),
                  cl_certificate := Some cert\<rparr>, s3))
                (build_certificate po pc run rs actor s2)))"

definition cancel_close ::
    "close_orchestrator \<Rightarrow> close_call \<Rightarrow> string \<Rightarrow> uuid \<Rightarrow> string \<Rightarrow> close_state \<Rightarrow> close_exc + close_state" where
  "cancel_close po pc code actor reason s =
     rbind (check_authority po actor 5) (\<lambda>_.
     rbind (map_sum PcPeriod id (cancel_closing (po_one po) code (cs_periods s))) (\<lambda>(p, ps).
     rmap (\<lambda>(_, au). s\<lparr>cs_periods := ps, cs_audit := au\<rparr>)
       (map_sum PcAudit id (record_close_cancelled (po_auditor po) (pc_audit pc) (fp_id p) code actor
          (if reason = [] then ''Cancelled by user'' else reason) (cs_audit s)))))"

definition close_progress :: "close_orchestrator \<Rightarrow> string \<Rightarrow> close_state \<Rightarrow> close_exc + (period_status \<times> string option) option" where
  "close_progress po code s =
     rmap (map_option (\<lambda>p. (fp_status p, fp_closing_run_id p)))
       (map_sum (\<lambda>e. PcPy e) id (po_one po (filter (\<lambda>p. fp_period_code p = code) (cs_periods s))))"

section \<open>Who runs what\<close>

lemma check_authority_iff: "check_authority po actor n = Inr u \<longleftrightarrow> has_authority (po_role po actor) (required_role n)"
  by (auto simp: check_authority_def ensure_def)

text \<open>
  A phase is run only by an actor of sufficient rank: closing the general ledger and locking the period take an
  approver, the phases before them at least a preparer, and otherwise the call raises and changes nothing.
\<close>

theorem phase_authority:
  "(if has_authority (po_role po actor) (required_role n) then check_authority po actor n = Inr ()
    else run_phase po pc run n actor s = Inl (CloseAuthorityError (required_role n) (po_role po actor) n))
   \<and> (n \<in> {5, 6} \<and> po_role po actor \<noteq> APPROVER \<longrightarrow> run_phase po pc run n actor s = Inl (CloseAuthorityError APPROVER (po_role po actor) n))
   \<and> (n \<in> {1, 2, 3, 4} \<and> po_role po actor = AUDITOR \<longrightarrow> run_phase po pc run n actor s = Inl (CloseAuthorityError PREPARER AUDITOR n))"
proof -
  have r: "required_role 1 = PREPARER" "required_role 2 = PREPARER" "required_role 3 = PREPARER" "required_role 4 = PREPARER"
    "required_role 5 = APPROVER" "required_role 6 = APPROVER"
    by (simp_all add: required_role_def PHASE_AUTHORITY_def)
  have low: "run_phase po pc run n actor s = Inl (CloseAuthorityError (required_role n) (po_role po actor) n)"
    if "\<not> has_authority (po_role po actor) (required_role n)" for n
    using that by (simp add: run_phase_def check_authority_def ensure_def)
  have "\<not> has_authority x APPROVER" if "x \<noteq> APPROVER" for x
    using that by (cases x) (simp_all add: has_authority_def less_eq_close_role_def)
  moreover have "\<not> has_authority AUDITOR PREPARER" by (simp add: has_authority_def less_eq_close_role_def)
  ultimately show ?thesis using low r by (auto simp: check_authority_def ensure_def)
qed

section \<open>With a subledger service\<close>

lemma close_one_subledger_fails:
  assumes "close_one_subledger po pc sl run p actor st s = (r, s1)"
  shows "\<not> fst r" "cs_periods s1 = cs_periods s" "cs_audit s1 = cs_audit s"
  using assms by (auto simp: close_one_subledger_def status_value_attribute_def Let_def split: sum.splits)

lemma close_subledgers_fail:
  "close_subledgers po pc sl run p actor sts s = (rs, s1) \<Longrightarrow>
     map fst rs = sts \<and> (\<forall>r \<in> set rs. \<not> fst (snd r)) \<and> cs_periods s1 = cs_periods s \<and> cs_audit s1 = cs_audit s"
proof (induction sts arbitrary: s s1 rs)
  case (Cons st sts)
  obtain r s2 where r: "close_one_subledger po pc sl run p actor st s = (r, s2)" by (cases "close_one_subledger po pc sl run p actor st s")
  obtain rs' s3 where rs: "close_subledgers po pc sl run p actor sts s2 = (rs', s3)" by (cases "close_subledgers po pc sl run p actor sts s2")
  show ?case
    using Cons.prems Cons.IH [OF rs] close_one_subledger_fails [OF r] by (auto simp: r rs)
qed simp

lemma phase_1_fails:
  assumes "po_subledgers po = Some sl" "run_phase po pc run 1 actor s = Inr (r, s')"
  shows "\<not> ph_success r \<and> ph_phase r = 1 \<and> cs_periods s' = cs_periods s \<and> cs_audit s' = cs_audit s"
proof -
  have "phase_1 po pc run actor s = Inr (r, s')" using assms(2) by (auto simp: run_phase_def rbind_eq_Inr)
  then obtain q where q: "(let (rs, s1) = close_subledgers po pc sl run q actor SL_CLOSE_ORDER s
            in Inr ((phase_ok 1 ''close_subledgers'' (\<forall>r \<in> set rs. fst (snd r)) actor)\<lparr>ph_guard := Some ''ALL_SUBLEDGERS_CLOSED'',
                 ph_details := Subledger_Details (map (\<lambda>(st, ok, _). (subledger_value st, ok)) rs),
                 ph_exceptions := List.map_filter (\<lambda>(_, _, x). x) rs\<rparr>, s1)) = (Inr (r, s') :: close_exc + phase_result \<times> close_state)"
    unfolding phase_1_def assms(1) option.case rbind_eq_Inr by (elim exE conjE) (rule that)
  obtain rs t where c: "close_subledgers po pc sl run q actor SL_CLOSE_ORDER s = (rs, t)" by (metis surj_pair)
  define ok where "ok = (\<forall>x \<in> set rs. fst (snd x))"
  from q have e: "t = s' \<and> (phase_ok 1 ''close_subledgers'' ok actor)\<lparr>ph_guard := Some ''ALL_SUBLEDGERS_CLOSED'',
      ph_details := Subledger_Details (map (\<lambda>(st, ok, _). (subledger_value st, ok)) rs),
      ph_exceptions := List.map_filter (\<lambda>(_, _, x). x) rs\<rparr> = r"
    unfolding c Let_def prod.case sum.inject prod.inject ok_def by blast
  then have r: "ph_success r = ok" "ph_phase r = 1" by (auto simp: phase_ok_def)
  note p = c [unfolded conjunct1 [OF e]] r [unfolded ok_def]
  note f = close_subledgers_fail [OF p(1)]
  obtain x where x: "x \<in> set rs" using f by (cases rs) (auto simp: SL_CLOSE_ORDER_def)
  then have "\<not> ph_success r" using f p(2) by blast
  then show ?thesis using f p(3) by simp
qed

lemma begin_close_Inr:
  assumes "query_one (po_one po)" "begin_close po pc code actor y s = Inr (run, s1)"
  shows "cr_period_code run = code" "cr_is_year_end run = y"
    "\<exists>p \<in> set (cs_periods s1). fp_period_code p = code \<and> fp_status p = CLOSING \<and> fp_closing_run_id p = Some (uuid_str (pc_run_id pc))"
    "\<exists>f. cs_periods s1 = update_period code f (cs_periods s)"
proof -
  from assms(2) obtain p ps where b: "begin_closing (po_one po) code (uuid_str (pc_run_id pc)) (cs_periods s) = Inr (p, ps)"
    "cs_periods s1 = ps" "cr_period_code run = code" "cr_is_year_end run = y"
    by (auto simp: begin_close_def rbind_eq_Inr map_sum_Inr_iff)
  then obtain q where q: "po_one po (filter (\<lambda>p. fp_period_code p = code) (cs_periods s)) = Inr (Some q)"
    "ps = update_period code (\<lambda>p. p\<lparr>fp_status := CLOSING, fp_closing_run_id := Some (uuid_str (pc_run_id pc))\<rparr>) (cs_periods s)"
    by (auto simp: begin_closing_def get_period_for_update_def rbind_eq_Inr Let_def split: option.splits if_splits)
  then have "filter (\<lambda>p. fp_period_code p = code) (cs_periods s) = [q]" using query_one.one_Inr_Some [OF assms(1)] by blast
  then have "q \<in> set (filter (\<lambda>p. fp_period_code p = code) (cs_periods s))" by simp
  then have "q \<in> set (cs_periods s)" "fp_period_code q = code" by simp_all
  then have "q\<lparr>fp_status := CLOSING, fp_closing_run_id := Some (uuid_str (pc_run_id pc))\<rparr> \<in> set (cs_periods s1)"
    unfolding b(2) q(2) update_period_def set_map by (intro image_eqI [of _ _ q]) simp_all
  then show "\<exists>p \<in> set (cs_periods s1). fp_period_code p = code \<and> fp_status p = CLOSING \<and> fp_closing_run_id p = Some (uuid_str (pc_run_id pc))"
    using \<open>fp_period_code q = code\<close> by (intro bexI) simp_all
  show "cr_period_code run = code" "cr_is_year_end run = y" using b by simp_all
  show "\<exists>f. cs_periods s1 = update_period code f (cs_periods s)" using b(2) q(2) by blast
qed

lemma full_close_subledgers:
  assumes "query_one (po_one po)" "po_subledgers po = Some sl" "close_period_full po pc code actor y s = Inr (res, s')"
  shows "cl_status res = RUN_FAILED \<and> cl_phases_completed res = 0 \<and> cl_certificate res = None \<and> length (cl_phase_results res) = 1
    \<and> (\<exists>p \<in> set (cs_periods s'). fp_period_code p = code \<and> fp_status p = CLOSING
         \<and> fp_closing_run_id p = Some (uuid_str (pc_run_id pc)))"
proof -
  from assms(3) obtain run s1 rs failed s2 where b: "begin_close po pc code actor y s = Inr (run, s1)"
    "run_phases po pc run actor [1, 2, 3, 4, 5, 6] s1 = Inr ((rs, failed), s2)"
    by (auto simp: close_period_full_def rbind_eq_Inr)
  then obtain r t where r: "run_phase po pc run 1 actor s1 = Inr (r, t)" by (auto simp: rbind_eq_Inr)
  note f = phase_1_fails [OF assms(2) r]
  have "rs = [r]" "failed = Some 1" "s2 = t" using b(2) r f by auto
  then have "cl_status res = RUN_FAILED" "cl_phases_completed res = 0" "cl_certificate res = None" "cl_phase_results res = [r]" "s' = t"
    using assms(3) [unfolded close_period_full_def b(1) rbind.simps prod.case b(2)] by (auto simp: Let_def)
  then show ?thesis using begin_close_Inr(3) [OF assms(1) b(1)] f by simp
qed

text \<open>
  Property C39. With a subledger service configured the full close never gets past its first phase: whatever the
  balances, the result is FAILED with no phase completed and no certificate, and the period is left in CLOSING under the lock
  of the run, in which nothing can be posted.
\<close>

theorem full_close_fails:
  assumes "query_one (po_one po)" "po_subledgers po = Some sl" "close_period_full po pc code actor y s = Inr (res, s')"
  shows "cl_status res = RUN_FAILED \<and> cl_phases_completed res = 0 \<and> cl_certificate res = None \<and> length (cl_phase_results res) = 1
    \<and> (\<exists>p \<in> set (cs_periods s'). fp_period_code p = code \<and> fp_status p = CLOSING
         \<and> fp_closing_run_id p = Some (uuid_str (pc_run_id pc)))"
  using assms by (rule full_close_subledgers)

text \<open>An approver can give the lock back, which opens the period again.\<close>

lemma cancel_reopens:
  assumes "query_one (po_one po)" "cancel_close po pc code actor reason s = Inr s'"
  shows "po_role po actor = APPROVER \<and> (\<exists>p \<in> set (cs_periods s'). fp_period_code p = code \<and> fp_status p = OPEN \<and> fp_closing_run_id p = None)"
proof -
  from assms(2) obtain p ps where c: "has_authority (po_role po actor) (required_role 5)"
    "cancel_closing (po_one po) code (cs_periods s) = Inr (p, ps)" "cs_periods s' = ps"
    by (auto simp: cancel_close_def rbind_eq_Inr rmap_eq_Inr map_sum_Inr_iff check_authority_iff)
  then obtain q where q: "po_one po (filter (\<lambda>p. fp_period_code p = code) (cs_periods s)) = Inr (Some q)"
    "ps = update_period code (\<lambda>p. p\<lparr>fp_status := OPEN, fp_closing_run_id := None\<rparr>) (cs_periods s)"
    by (auto simp: cancel_closing_def get_period_for_update_def rbind_eq_Inr Let_def split: option.splits if_splits)
  then have "filter (\<lambda>p. fp_period_code p = code) (cs_periods s) = [q]" using query_one.one_Inr_Some [OF assms(1)] by blast
  then have "q \<in> set (filter (\<lambda>p. fp_period_code p = code) (cs_periods s))" by simp
  then have m: "q \<in> set (cs_periods s)" "fp_period_code q = code" by simp_all
  then have "q\<lparr>fp_status := OPEN, fp_closing_run_id := None\<rparr> \<in> set (cs_periods s')"
    unfolding c(3) q(2) update_period_def set_map by (intro image_eqI [of _ _ q]) simp_all
  moreover have "po_role po actor = APPROVER"
    using c(1) by (cases "po_role po actor") (simp_all add: has_authority_def less_eq_close_role_def required_role_def PHASE_AUTHORITY_def)
  ultimately show ?thesis using m(2) by (intro conjI bexI) simp_all
qed

section \<open>A completed close\<close>

lemma run_phases_None:
  assumes "run_phases po pc run actor (n # ns) s = Inr ((rs, None), s')"
  obtains r t rs' where "run_phase po pc run n actor s = Inr (r, t)" "ph_success r"
    "run_phases po pc run actor ns t = Inr ((rs', None), s')" "rs = r # rs'"
  using assms by (auto simp: rbind_eq_Inr rmap_eq_Inr split: if_splits)

lemma phase_5_closes:
  assumes "query_one (po_one po)" "phase_5 po pc run actor s = Inr (r, s')" "ph_success r"
  shows "\<exists>p \<in> set (cs_periods s'). fp_period_code p = cr_period_code run \<and> fp_status p = CLOSED"
proof -
  from assms(2,3) obtain p ps where c: "close_period (po_one po) (pc_now pc) (pc_trigger_fires pc) (cr_period_code run) actor (cs_periods s) = Inr (p, ps)"
    "s' = s\<lparr>cs_periods := ps\<rparr>"
    by (auto simp: phase_5_def phase_ok_def split: sum.splits)
  define f where "f = (\<lambda>p :: fiscal_period. p\<lparr>fp_status := CLOSED, fp_closed_at := Some (pc_now pc), fp_closed_by_id := Some actor, fp_closing_run_id := None\<rparr>)"
  have f: "fp_status (f q) = CLOSED" "fp_period_code (f q) = fp_period_code q" for q by (simp_all add: f_def)
  from c(1) obtain q where q: "po_one po (filter (\<lambda>p. fp_period_code p = cr_period_code run) (cs_periods s)) = Inr (Some q)"
    "ps = update_period (cr_period_code run) f (cs_periods s)"
    unfolding close_period_def f_def [symmetric]
    by (auto simp: get_period_for_update_def rbind_eq_Inr Let_def split: option.splits if_splits)
  then have "filter (\<lambda>p. fp_period_code p = cr_period_code run) (cs_periods s) = [q]" using query_one.one_Inr_Some [OF assms(1)] by blast
  then have "q \<in> set (filter (\<lambda>p. fp_period_code p = cr_period_code run) (cs_periods s))" by simp
  then have m: "q \<in> set (cs_periods s)" "fp_period_code q = cr_period_code run" by simp_all
  then have "f q \<in> set ps" unfolding q(2) update_period_def set_map by (intro image_eqI [of _ _ q]) simp_all
  then have "f q \<in> set (cs_periods s')" by (simp add: c(2))
  then show ?thesis using f m(2) by (intro bexI) simp_all
qed

lemma phase_6_keeps:
  assumes "phase_6 po run actor s = Inr (r, s')" "ph_success r"
    and "p \<in> set (cs_periods s)" "fp_period_code p = cr_period_code run" "fp_status p = CLOSED"
  shows "\<exists>p \<in> set (cs_periods s'). fp_period_code p = cr_period_code run \<and> fp_status p = (if cr_is_year_end run then LOCKED else CLOSED)"
proof (cases "cr_is_year_end run")
  case False
  then show ?thesis using assms by (auto simp: phase_6_def)
next
  case True
  then obtain q ps where c: "lock_period (po_one po) (cr_period_code run) (cs_periods s) = Inr (q, ps)" "s' = s\<lparr>cs_periods := ps\<rparr>"
    using assms(1,2) by (auto simp: phase_6_def phase_ok_def split: sum.splits)
  then have "ps = update_period (cr_period_code run) (\<lambda>p. p\<lparr>fp_status := LOCKED\<rparr>) (cs_periods s)"
    by (auto simp: lock_period_def rbind_eq_Inr Let_def split: option.splits if_splits)
  then have "p\<lparr>fp_status := LOCKED\<rparr> \<in> set (cs_periods s')"
    using assms(3,4) unfolding c(2) by (simp add: update_period_def)
  then show ?thesis using True assms(4) by (intro bexI) simp_all
qed

lemma audit_event_recorded:
  "create_audit_event au env etype i act actor data db = Inr (e, db') \<Longrightarrow> e \<in> set (ad_events db') \<and> ae_action e = act"
  by (auto simp: create_audit_event_def rbind_eq_Inr rmap_eq_Inr Let_def insert_audit_event_def ap_def map_sum_Inr_iff split: if_splits)

lemma build_certificate_Inr:
  assumes "query_one (po_one po)" "build_certificate po pc run rs actor s = Inr (cert, s')"
    and "p \<in> set (cs_periods s)" "fp_period_code p = cr_period_code run"
  shows "cs_periods s' = cs_periods s \<and> (\<exists>e. ct_audit_event cert = Some e \<and> e \<in> set (ad_events (cs_audit s')) \<and> ae_action e = CLOSE_CERTIFIED)"
proof -
  from assms(2) obtain q where q: "get_period_by_code (po_one po) (cr_period_code run) (cs_periods s) = Inr q"
    by (auto simp: build_certificate_def rbind_eq_Inr map_sum_Inr_iff)
  have "q \<noteq> None"
  proof
    assume "q = None"
    then have "filter (\<lambda>p. fp_period_code p = cr_period_code run) (cs_periods s) = []"
      using q query_one.one_Inr_None [OF assms(1)] by (auto simp: get_period_by_code_def get_period_orm_def pp_def map_sum_Inr_iff)
    then show False using assms(3,4) by (auto simp: filter_empty_conv)
  qed
  then obtain q' where "q = Some q'" by blast
  then obtain au e where "cs_periods s' = cs_periods s" "ct_audit_event cert = Some e" "cs_audit s' = au"
    "\<exists>data. create_audit_event (po_auditor po) (pc_audit pc) ''FiscalPeriod'' (fp_id q') CLOSE_CERTIFIED actor data (cs_audit s) = Inr (e, au)"
    using assms(2) q by (auto simp: build_certificate_def rbind_eq_Inr rmap_eq_Inr map_sum_Inr_iff Let_def record_close_certified_def) blast
  then show ?thesis using audit_event_recorded by blast
qed

text \<open>
  Property C19. What a completed close means: there is no subledger service, the actor is an approver, the reporting service
  found the journal balanced as it was before any adjustment, the period is closed, and at year end locked, and
  the certificate stands in the audit log.
\<close>

theorem completed_close:
  assumes "query_one (po_one po)" "close_period_full po pc code actor y s = Inr (res, s')" "cl_status res = RUN_COMPLETED"
  shows "po_subledgers po = None \<and> po_role po actor = APPROVER
    \<and> (\<exists>t d tb. cs_journal t = cs_journal s \<and> po_trial_balance po d None t = Some tb \<and> tb_is_balanced tb)
    \<and> (\<exists>p \<in> set (cs_periods s'). fp_period_code p = code \<and> fp_status p = (if y then LOCKED else CLOSED))
    \<and> (\<exists>cert e. cl_certificate res = Some cert \<and> ct_audit_event cert = Some e \<and> e \<in> set (ad_events (cs_audit s'))
         \<and> ae_action e = CLOSE_CERTIFIED)"
proof -
  have none: "po_subledgers po = None"
    using full_close_subledgers [OF assms(1) _ assms(2)] assms(3) by (cases "po_subledgers po") auto
  from assms(2) obtain run s1 rs failed s2 where b: "begin_close po pc code actor y s = Inr (run, s1)"
    "run_phases po pc run actor [1, 2, 3, 4, 5, 6] s1 = Inr ((rs, failed), s2)"
    by (auto simp: close_period_full_def rbind_eq_Inr)
  note run = begin_close_Inr [OF assms(1) b(1)]
  have f: "failed = None"
    using assms(2,3) [unfolded close_period_full_def b(1) rbind.simps prod.case b(2)] by (cases failed) (auto simp: Let_def)
  then obtain cert where cert: "build_certificate po pc run rs actor s2 = Inr (cert, s')" "cl_certificate res = Some cert"
    using assms(2) [unfolded close_period_full_def b(1) rbind.simps prod.case b(2)] by (auto simp: Let_def rmap_eq_Inr)
  obtain r1 t1 rs1 where p1: "run_phase po pc run 1 actor s1 = Inr (r1, t1)" "run_phases po pc run actor [2, 3, 4, 5, 6] t1 = Inr ((rs1, None), s2)"
    using run_phases_None [OF b(2) [unfolded f]] by metis
  obtain r2 t2 rs2 where p2: "run_phase po pc run 2 actor t1 = Inr (r2, t2)" "ph_success r2" "run_phases po pc run actor [3, 4, 5, 6] t2 = Inr ((rs2, None), s2)"
    using run_phases_None [OF p1(2)] by metis
  obtain r3 t3 rs3 where p3: "run_phases po pc run actor [4, 5, 6] t3 = Inr ((rs3, None), s2)" using run_phases_None [OF p2(3)] by metis
  obtain r4 t4 rs4 where p4: "run_phases po pc run actor [5, 6] t4 = Inr ((rs4, None), s2)" using run_phases_None [OF p3] by metis
  obtain r5 t5 rs5 where p5: "run_phase po pc run 5 actor t4 = Inr (r5, t5)" "ph_success r5" "run_phases po pc run actor [6] t5 = Inr ((rs5, None), s2)"
    using run_phases_None [OF p4] by metis
  obtain r6 t6 rs6 where p6: "run_phase po pc run 6 actor t5 = Inr (r6, t6)" "ph_success r6" "run_phases po pc run actor [] t6 = Inr ((rs6, None), s2)"
    using run_phases_None [OF p5(3)] by metis
  have "t1 = s1" using p1(1) none by (auto simp: run_phase_def phase_1_def rbind_eq_Inr)
  then have "phase_2 po run actor s1 = Inr (r2, t2)" using p2(1) by (auto simp: run_phase_def rbind_eq_Inr)
  then have tb: "\<exists>d tb. po_trial_balance po d None s1 = Some tb \<and> tb_is_balanced tb"
    using p2(2) by (auto simp: phase_2_def rbind_eq_Inr phase_ok_def split: option.splits, blast)
  have j: "cs_journal s1 = cs_journal s" using b(1) by (auto simp: begin_close_def rbind_eq_Inr)
  have p5': "phase_5 po pc run actor t4 = Inr (r5, t5)" and auth: "has_authority (po_role po actor) (required_role 5)"
    using p5(1) by (auto simp: run_phase_def rbind_eq_Inr check_authority_iff)
  have p6': "phase_6 po run actor t5 = Inr (r6, s2)" using p6(1,3) by (auto simp: run_phase_def rbind_eq_Inr)
  obtain p where p: "p \<in> set (cs_periods s2)" "fp_period_code p = cr_period_code run" "fp_status p = (if cr_is_year_end run then LOCKED else CLOSED)"
    using phase_5_closes [OF assms(1) p5' p5(2)] phase_6_keeps [OF p6' p6(2)] by blast
  note c = build_certificate_Inr [OF assms(1) cert(1) p(1,2)]
  have "po_role po actor = APPROVER"
    using auth by (cases "po_role po actor") (simp_all add: has_authority_def less_eq_close_role_def required_role_def PHASE_AUTHORITY_def)
  then show ?thesis using none tb j p run(1,2) c cert(2) by auto
qed

section \<open>The health check\<close>

text \<open>
  The health check takes the control account's balance with the sign of the general ledger: for payables,
  whose account is credit-normal, a subledger that agrees with its control account is reported as a blocking variance of twice
  the balance, and only a control account on the wrong side passes.
\<close>

theorem health_check_payables:
  assumes "health_check po code d cur s = Inr h" "po_account_id po ''2000'' = Some acct"
    and "aggregate_balance AP d cur (cs_rows s) = Inr sl"
    and "account_balances acct (Some d) (Some cur) (cs_journal s) = [b]"
  shows "(dneg (ab_balance b) = amount sl \<and> dfix (2 * amount sl) = 2 * amount sl \<longrightarrow>
      (AP, 2 * amount sl) \<in> set (hc_sl_variance h) \<and> (amount sl \<noteq> 0 \<longrightarrow> \<not> can_proceed h))
    \<and> (can_proceed h \<longrightarrow> ab_balance b = amount sl)"
proof -
  have v: "subledger_variance po AP d cur s = dsub (amount sl) (ab_balance b)"
    by (simp add: subledger_variance_def subledger_amount_def assms(3) control_codes_def code_balance_def assms(2,4))
  from assms(1) have h: "hc_sl_variance h = map (\<lambda>st. (st, subledger_variance po st d cur s)) SL_CLOSE_ORDER"
    and bl: "hc_blocking h = List.map_filter (\<lambda>(st, v). if v = 0 then None
               else Some \<lparr>cx_category = ''sl_variance'', cx_subledger_type = Some (subledger_value st), cx_account_code = control_codes st,
                     cx_amount = v, cx_currency = cur, cx_severity = ''blocking''\<rparr>) (hc_sl_variance h)"
    by (auto simp: health_check_def rmap_eq_Inr Let_def)
  have ap: "(AP, dsub (amount sl) (ab_balance b)) \<in> set (hc_sl_variance h)" by (simp add: h SL_CLOSE_ORDER_def v)
  have proceed: "can_proceed h \<Longrightarrow> dsub (amount sl) (ab_balance b) = 0"
    using ap unfolding can_proceed_def bl by (auto simp: List.map_filter_def filter_empty_conv split: if_splits)
  have "dsub (amount sl) (ab_balance b) = 2 * amount sl" if "dneg (ab_balance b) = amount sl" "dfix (2 * amount sl) = 2 * amount sl"
  proof -
    have "dfix (ab_balance b) = ab_balance b" by (simp add: ab_balance_def dsub_def dfix_idem)
    then have "ab_balance b = - amount sl" using that(1) by (simp add: dneg_def)
    then show ?thesis using that(2) by (simp add: dsub_def)
  qed
  then have "(AP, 2 * amount sl) \<in> set (hc_sl_variance h) \<and> (amount sl \<noteq> 0 \<longrightarrow> \<not> can_proceed h)"
    if "dneg (ab_balance b) = amount sl" "dfix (2 * amount sl) = 2 * amount sl"
    using ap proceed that by (metis mult_eq_0_iff zero_neq_numeral)
  moreover have "ab_balance b = amount sl" if "can_proceed h" using proceed [OF that] by simp
  ultimately show ?thesis by blast
qed

section \<open>Closing January\<close>

definition demo_orchestrator :: "(control_registry \<times> role_bindings) option \<Rightarrow> close_role \<Rightarrow> close_orchestrator" where
  "demo_orchestrator sl r = \<lparr>po_one = scalar_one_or_none, po_one_status = scalar_one_or_none, po_subledgers = sl,
     po_trial_balance = (\<lambda>_ _ _. Some \<lparr>tb_is_balanced = True, tb_total_debits = 100, tb_total_credits = 100\<rparr>),
     po_closing_entry = (\<lambda>_ _ _ s. (Some 1, s)), po_ledger_hash = (\<lambda>_ _. ''h''), po_account_id = [''2000'' \<mapsto> 21],
     po_auditor = demo_auditor, po_role = (\<lambda>_. r), po_str = (\<lambda>_. [])\<rparr>"

definition demo_call :: close_call where
  "demo_call = \<lparr>pc_now = 40, pc_run_id = 70, pc_correlation = 71, pc_certificate_id = 72, pc_audit = \<lparr>av_now = 40, av_race = None\<rparr>,
     pc_trigger_fires = False, pc_status_id = (\<lambda>_. 80), pc_report_id = (\<lambda>_. 81), pc_callback = None\<rparr>"

definition demo_close_state :: close_state where
  "demo_close_state = \<lparr>cs_periods = [january], cs_close = no_closes, cs_audit = empty_audit, cs_journal = ce_journal demo_close_env,
     cs_rows = [demo_rows ! 1]\<rparr>"

theorem phase_authority_witness:
  "run_phase (demo_orchestrator None PREPARER) demo_call run 5 7 demo_close_state = Inl (CloseAuthorityError APPROVER PREPARER 5)"
  using phase_authority [of "demo_orchestrator None PREPARER" 7 5 demo_call run demo_close_state] by (simp add: demo_orchestrator_def)

definition demo_begun :: "audit_event \<times> audit_db" where
  "demo_begun = (case record_close_begun demo_auditor \<lparr>av_now = 40, av_race = None\<rparr> 1 ''2024-01'' 7 (uuid_str 71) empty_audit of Inr x \<Rightarrow> x)"

lemma demo_begun:
  "record_close_begun demo_auditor \<lparr>av_now = 40, av_race = None\<rparr> 1 ''2024-01'' 7 (uuid_str 71) empty_audit = Inr demo_begun
   \<and> (\<exists>e. ad_events (snd demo_begun) = [e] \<and> ae_seq e = 1) \<and> ad_counters (snd demo_begun) AUDIT_EVENT = Some 1"
  by (simp add: demo_begun_def record_close_begun_def create_audit_event_def demo_auditor_def empty_audit_def
      next_value_def get_last_hash_def hash_audit_event_def insert_audit_event_def Let_def)

lemma demo_certified:
  "\<exists>e db. record_close_certified demo_auditor \<lparr>av_now = 40, av_race = None\<rparr> pid code 7 cert (snd demo_begun) = Inr (e, db)"
proof -
  obtain e where "ad_events (snd demo_begun) = [e]" "ae_seq e = 1" "ad_counters (snd demo_begun) AUDIT_EVENT = Some 1"
    using demo_begun by blast
  then show ?thesis
    by (simp add: record_close_certified_def create_audit_event_def demo_auditor_def next_value_def increment_def get_last_hash_def
        hash_audit_event_def insert_audit_event_def ap_def Let_def)
qed

definition demo_close_run :: "bool \<Rightarrow> close_run" where
  "demo_close_run y = \<lparr>cr_id = 70, cr_period_code = ''2024-01'', cr_fiscal_year = fst (ymd_of_ordinal 1), cr_is_year_end = y,
     cr_status = IN_PROGRESS, cr_correlation_id = uuid_str 71, cr_started_at = 40, cr_started_by = 7\<rparr>"

definition demo_closing :: close_state where
  "demo_closing = demo_close_state\<lparr>cs_periods := [january\<lparr>fp_status := CLOSING, fp_closing_run_id := Some (uuid_str 70)\<rparr>],
     cs_audit := snd demo_begun\<rparr>"

lemma demo_authority: "check_authority (demo_orchestrator sl APPROVER) 7 n = Inr ()"
  by (cases "required_role n") (simp_all add: check_authority_iff demo_orchestrator_def has_authority_def less_eq_close_role_def)

lemma demo_begin_close:
  "begin_close (demo_orchestrator sl APPROVER) demo_call ''2024-01'' 7 y demo_close_state = Inr (demo_close_run y, demo_closing)"
proof -
  have "begin_closing scalar_one_or_none ''2024-01'' (uuid_str 70) [january]
      = Inr (january\<lparr>fp_status := CLOSING, fp_closing_run_id := Some (uuid_str 70)\<rparr>,
             [january\<lparr>fp_status := CLOSING, fp_closing_run_id := Some (uuid_str 70)\<rparr>])"
    by (simp add: begin_closing_def get_period_for_update_def january_def fp_is_closed_def update_period_def Let_def)
  moreover have "record_close_begun demo_auditor \<lparr>av_now = 40, av_race = None\<rparr> 1 ''2024-01'' 7 (uuid_str 71) empty_audit
      = Inr (fst demo_begun, snd demo_begun)"
    using demo_begun by simp
  ultimately show ?thesis
    unfolding begin_close_def demo_authority
    by (simp add: demo_orchestrator_def demo_call_def demo_close_state_def demo_close_run_def demo_closing_def)
      (simp add: january_def case_prod_beta)
qed

theorem full_close_fails_witness:
  "\<exists>res s'. close_period_full (demo_orchestrator (Some (default_control_registry, Map.empty)) APPROVER) demo_call ''2024-01'' 7 False demo_close_state
       = Inr (res, s') \<and> cl_status res = RUN_FAILED \<and> (\<exists>p \<in> set (cs_periods s'). fp_status p = CLOSING)"
proof -
  let ?po = "demo_orchestrator (Some (default_control_registry, Map.empty)) APPROVER"
  have q: "query_one (po_one ?po)" "po_subledgers ?po = Some (default_control_registry, Map.empty)"
    by (simp_all add: demo_orchestrator_def soon.query_one_axioms)
  have "\<exists>p. period_info ?po (demo_close_run False) demo_closing = Inr p"
    by (simp add: period_info_def demo_orchestrator_def demo_close_run_def demo_closing_def get_period_by_code_def get_period_orm_def january_def)
  then have "\<exists>r t. run_phase ?po demo_call (demo_close_run False) 1 7 demo_closing = Inr (r, t)"
    by (auto simp: run_phase_def demo_authority phase_1_def q(2) split: prod.splits)
  then obtain r t where r: "run_phase ?po demo_call (demo_close_run False) 1 7 demo_closing = Inr (r, t)" by blast
  have "run_phases ?po demo_call (demo_close_run False) 7 [1, 2, 3, 4, 5, 6] demo_closing = Inr (([r], Some 1), t)"
    using phase_1_fails [OF q(2) r] r by simp
  then obtain res s' where run: "close_period_full ?po demo_call ''2024-01'' 7 False demo_close_state = Inr (res, s')"
    unfolding close_period_full_def demo_begin_close by (simp add: Let_def)
  from full_close_fails [OF q run] run show ?thesis by blast
qed

theorem completed_close_witness:
  "\<exists>res s'. close_period_full (demo_orchestrator None APPROVER) demo_call ''2024-01'' 7 True demo_close_state = Inr (res, s')
     \<and> (\<exists>p \<in> set (cs_periods s'). fp_status p = LOCKED) \<and> (\<exists>e \<in> set (ad_events (cs_audit s')). ae_action e = CLOSE_CERTIFIED)"
proof -
  let ?po = "demo_orchestrator None APPROVER" and ?run = "demo_close_run True"
  define closed where "closed = demo_closing\<lparr>cs_periods := [january\<lparr>fp_status := CLOSED, fp_closed_at := Some 40, fp_closed_by_id := Some 7,
    fp_closing_run_id := None\<rparr>]\<rparr>"
  define locked where "locked = demo_closing\<lparr>cs_periods := [january\<lparr>fp_status := LOCKED, fp_closed_at := Some 40, fp_closed_by_id := Some 7,
    fp_closing_run_id := None\<rparr>]\<rparr>"
  have info: "\<exists>p. period_info ?po ?run demo_closing = Inr p"
    by (simp add: period_info_def demo_orchestrator_def demo_close_run_def demo_closing_def get_period_by_code_def get_period_orm_def january_def)
  obtain r1 where r1: "run_phase ?po demo_call ?run 1 7 demo_closing = Inr (r1, demo_closing)" "ph_success r1"
    by (simp add: run_phase_def demo_authority phase_1_def) (simp add: demo_orchestrator_def phase_ok_def)
  obtain r2 where r2: "run_phase ?po demo_call ?run 2 7 demo_closing = Inr (r2, demo_closing)" "ph_success r2"
    using info by (auto simp: run_phase_def demo_authority phase_2_def) (simp add: demo_orchestrator_def phase_ok_def)
  obtain r3 where r3: "run_phase ?po demo_call ?run 3 7 demo_closing = Inr (r3, demo_closing)" "ph_success r3"
    by (simp add: run_phase_def demo_authority phase_3_def demo_call_def phase_ok_def)
  obtain r4 where r4: "run_phase ?po demo_call ?run 4 7 demo_closing = Inr (r4, demo_closing)" "ph_success r4"
    using info by (auto simp: run_phase_def demo_authority phase_4_def demo_close_run_def) (simp add: demo_orchestrator_def phase_ok_def)
  obtain r5 where r5: "run_phase ?po demo_call ?run 5 7 demo_closing = Inr (r5, closed)" "ph_success r5"
    by (simp add: run_phase_def demo_authority phase_5_def close_period_def get_period_for_update_def update_period_def)
      (simp add: demo_orchestrator_def demo_close_run_def demo_closing_def january_def demo_call_def fp_is_closed_def Let_def closed_def
        update_period_def phase_ok_def)
  obtain r6 where r6: "run_phase ?po demo_call ?run 6 7 closed = Inr (r6, locked)" "ph_success r6"
    by (simp add: run_phase_def demo_authority phase_6_def lock_period_def get_period_for_update_def update_period_def)
      (simp add: demo_orchestrator_def demo_close_run_def closed_def january_def Let_def locked_def
        lock_period_def get_period_for_update_def update_period_def phase_ok_def)
  have phases: "run_phases ?po demo_call ?run 7 [1, 2, 3, 4, 5, 6] demo_closing = Inr (([r1, r2, r3, r4, r5, r6], None), locked)"
    using r1 r2 r3 r4 r5 r6 by simp
  have "\<exists>cert s'. build_certificate ?po demo_call ?run [r1, r2, r3, r4, r5, r6] 7 locked = Inr (cert, s')"
  proof -
    have p: "get_period_by_code (po_one ?po) (cr_period_code ?run) (cs_periods locked) = Inr (Some (hd (cs_periods locked)))"
      by (simp add: demo_orchestrator_def demo_close_run_def locked_def get_period_by_code_def get_period_orm_def january_def)
    have a: "cs_audit locked = snd demo_begun" "po_auditor ?po = demo_auditor" "pc_audit demo_call = \<lparr>av_now = 40, av_race = None\<rparr>"
      by (simp_all add: locked_def demo_closing_def demo_orchestrator_def demo_call_def)
    define f where "f pid code cert = projr (record_close_certified (po_auditor ?po) (pc_audit demo_call) pid code 7 cert (cs_audit locked))"
      for pid code cert
    have f: "record_close_certified (po_auditor ?po) (pc_audit demo_call) pid code 7 cert (cs_audit locked) = Inr (f pid code cert)"
      for pid code cert
      unfolding f_def a using demo_certified [of pid code cert] by (metis sum.sel(2))
    show ?thesis
      unfolding build_certificate_def p map_sum.simps id_apply rbind.simps option.case Let_def f rmap.simps by (simp add: case_prod_beta)
  qed
  then obtain cert s' where "build_certificate ?po demo_call ?run [r1, r2, r3, r4, r5, r6] 7 locked = Inr (cert, s')" by blast
  then obtain res where run: "close_period_full ?po demo_call ''2024-01'' 7 True demo_close_state = Inr (res, s')" "cl_status res = RUN_COMPLETED"
    unfolding close_period_full_def demo_begin_close rbind.simps prod.case phases by (simp add: Let_def)
  have q: "query_one (po_one ?po)" by (simp add: demo_orchestrator_def soon.query_one_axioms)
  from completed_close [OF q run] run(1) show ?thesis by auto
qed

theorem health_check_payables_witness:
  "\<exists>h. health_check (demo_orchestrator None APPROVER) ''2024-01'' 31 ''USD'' demo_close_state = Inr h
     \<and> (AP, 200) \<in> set (hc_sl_variance h) \<and> \<not> can_proceed h"
proof -
  let ?po = "demo_orchestrator None APPROVER"
  have "get_period_by_code (po_one ?po) ''2024-01'' (cs_periods demo_close_state) = Inr (Some january)"
    by (simp add: demo_orchestrator_def demo_close_state_def get_period_by_code_def get_period_orm_def january_def)
  then obtain h where h: "health_check ?po ''2024-01'' 31 ''USD'' demo_close_state = Inr h"
    by (simp add: health_check_def Let_def)
  define b where "b = \<lparr>ab_account_id = 21, ab_currency = ''USD'', ab_debit_total = 0, ab_credit_total = 100, ab_line_count = 1\<rparr>"
  have a: "po_account_id ?po ''2000'' = Some 21" by (simp add: demo_orchestrator_def)
  have sl: "aggregate_balance AP 31 ''USD'' (cs_rows demo_close_state) = Inr (usd 100)" by code_simp
  have gl: "account_balances 21 (Some 31) (Some ''USD'') (cs_journal demo_close_state) = [b]" unfolding b_def by code_simp
  have "dneg (ab_balance b) = amount (usd 100)" "dfix (2 * amount (usd 100)) = 2 * amount (usd 100)"
    by (simp_all add: b_def ab_balance_def usd_def dneg_def dsub_def)
  with health_check_payables [OF h a sl gl] h show ?thesis by (simp add: usd_def)
qed

end
