(* ===== verification/Cost_Lot.thy ===== *)
theory Cost_Lot
  imports Guard_Expression Link_Graph
begin

text \<open>
  Cost lots: \<open>finance_engines/valuation/cost_lot.py\<close>, the table \<open>finance_kernel/models/cost_lot.py\<close>, and the two
  queries of \<open>services/link_graph_service.py\<close> that add up amounts in link metadata.

  A decimal goes into the metadata as text. \<open>decimal_text\<close> is one text that reads back as the value, as \<open>str\<close>
  promises of numbers with at most 28 digits; which zeros and exponent it prints nobody looks at. Infinite and NaN
  amounts are outside the model of decimals; as metadata they count as unreadable.
\<close>

section \<open>Decimals as text\<close>

definition decimal_text :: "decimal \<Rightarrow> string" where
  "decimal_text d =
     (let e = adjusted d - 27
      in if d = 0 then ''0''
         else str_of_int (round_int ROUND_HALF_EVEN (d * 10 powi (- e))) @ ''E'' @ str_of_int e)"

section \<open>Amounts in links\<close>

record unconsumed_value =
  uv_artifact_ref :: artifact_ref
  uv_original_amount :: money
  uv_consumed_amount :: money
  uv_remaining_amount :: money
  uv_child_count :: nat

definition uv_is_fully_consumed :: "unconsumed_value \<Rightarrow> bool" where
  "uv_is_fully_consumed u \<longleftrightarrow> money_is_zero (uv_remaining_amount u)"

definition uv_consumption_percentage :: "unconsumed_value \<Rightarrow> py_exc + decimal" where
  "uv_consumption_percentage u =
     (if money_is_zero (uv_original_amount u) then Inr 100
      else rmap (\<lambda>x. dmul x 100) (ddiv (amount (uv_consumed_amount u)) (amount (uv_original_amount u))))"

text \<open>
  The amount of one link: none without the key; text that is no number raises \<open>InvalidOperation\<close>, which is no
  \<open>ValueError\<close> and not caught.
\<close>

definition metadata_amount :: "string \<Rightarrow> economic_link \<Rightarrow> link_exc + decimal option" where
  "metadata_amount key l =
     (case el_metadata l of
        None \<Rightarrow> Inr None
      | Some kvs \<Rightarrow>
          (case map_of kvs key of
             None \<Rightarrow> Inr None
           | Some v \<Rightarrow> (case decimal_of_str (py_str v) of Some (Finite d) \<Rightarrow> Inr (Some d) | _ \<Rightarrow> Inl (LinkPy InvalidOperation))))"

definition sum_metadata :: "string \<Rightarrow> economic_link list \<Rightarrow> link_exc + decimal" where
  "sum_metadata key ls =
     rfold (\<lambda>l t. rmap (\<lambda>a. case a of None \<Rightarrow> t | Some d \<Rightarrow> dadd t d) (metadata_amount key l)) ls 0"

definition get_unconsumed_value ::
    "artifact_ref \<Rightarrow> money \<Rightarrow> link_type list option \<Rightarrow> string \<Rightarrow> links \<Rightarrow> link_exc + unconsumed_value" where
  "get_unconsumed_value parent orig types key rows =
     rbind (get_children parent (case types of None \<Rightarrow> Some [PAID_BY, ALLOCATED_TO, CONSUMED_BY] | Some ts \<Rightarrow> Some ts) rows) (\<lambda>children.
     rbind (sum_metadata key children) (\<lambda>t.
       let consumed = \<lparr>amount = t, currency = currency orig\<rparr>
       in rmap (\<lambda>rest. \<lparr>uv_artifact_ref = parent, uv_original_amount = orig, uv_consumed_amount = consumed,
              uv_remaining_amount = rest, uv_child_count = length children\<rparr>)
            (lpy (money_sub orig consumed))))"

definition get_total_allocated :: "artifact_ref \<Rightarrow> link_type list option \<Rightarrow> string \<Rightarrow> links \<Rightarrow> link_exc + decimal" where
  "get_total_allocated child types key rows =
     rbind (get_parents child (case types of None \<Rightarrow> Some [ALLOCATED_TO, APPLIED_TO] | Some ts \<Rightarrow> Some ts) rows) (sum_metadata key)"

section \<open>Lots\<close>

datatype cost_method = COST_FIFO | COST_LIFO | COST_STANDARD | COST_SPECIFIC | COST_WEIGHTED_AVG

record cost_lot =
  lot_id :: uuid
  lot_item_id :: string
  lot_location_id :: "string option"
  lot_date :: int
  lot_quantity :: quantity
  lot_cost :: money
  lot_method :: cost_method
  lot_source_ref :: artifact_ref
  lot_metadata :: "(string \<times> json) list option"

definition mk_cost_lot :: "cost_lot \<Rightarrow> py_exc + cost_lot" where
  "mk_cost_lot l =
     (if q_value (lot_quantity l) \<le> 0 then Inl ValueError
      else if money_is_negative (lot_cost l) then Inl ValueError
      else Inr l)"

definition lot_ref :: "cost_lot \<Rightarrow> artifact_ref" where
  "lot_ref l = \<lparr>ar_type = A_COST_LOT, ar_id = lot_id l\<rparr>"

definition lot_unit_cost :: "cost_lot \<Rightarrow> py_exc + money" where
  "lot_unit_cost l =
     (if q_value (lot_quantity l) = 0 then Inr (money_zero (currency (lot_cost l)))
      else rbind (ddiv (amount (lot_cost l)) (q_value (lot_quantity l))) (\<lambda>u. money_of u (cur_code (currency (lot_cost l)))))"

definition create_cost_lot ::
    "uuid \<Rightarrow> string \<Rightarrow> quantity \<Rightarrow> money \<Rightarrow> int \<Rightarrow> artifact_ref \<Rightarrow> string option \<Rightarrow> cost_method \<Rightarrow> (string \<times> json) list option
     \<Rightarrow> py_exc + cost_lot" where
  "create_cost_lot i item q cost d src loc meth meta =
     mk_cost_lot \<lparr>lot_id = i, lot_item_id = item, lot_location_id = loc, lot_date = d, lot_quantity = q, lot_cost = cost,
       lot_method = meth, lot_source_ref = src, lot_metadata = meta\<rparr>"

section \<open>Layers\<close>

record cost_layer =
  ly_lot :: cost_lot
  ly_quantity :: quantity
  ly_value :: money
  ly_count :: nat

definition ly_consumed_quantity :: "cost_layer \<Rightarrow> py_exc + quantity" where
  "ly_consumed_quantity y =
     mk_quantity (dsub (q_value (lot_quantity (ly_lot y))) (q_value (ly_quantity y))) (q_unit (lot_quantity (ly_lot y)))"

definition ly_consumed_value :: "cost_layer \<Rightarrow> py_exc + money" where
  "ly_consumed_value y =
     money_of (dsub (amount (lot_cost (ly_lot y))) (amount (ly_value y))) (cur_code (currency (lot_cost (ly_lot y))))"

definition ly_is_depleted :: "cost_layer \<Rightarrow> bool" where
  "ly_is_depleted y \<longleftrightarrow> q_value (ly_quantity y) \<le> 0"

definition ly_is_available :: "cost_layer \<Rightarrow> bool" where
  "ly_is_available y \<longleftrightarrow> 0 < q_value (ly_quantity y)"

definition ly_unit_cost :: "cost_layer \<Rightarrow> py_exc + money" where
  "ly_unit_cost y = lot_unit_cost (ly_lot y)"

definition layer_with_remaining :: "cost_lot \<Rightarrow> quantity \<Rightarrow> nat \<Rightarrow> py_exc + cost_layer" where
  "layer_with_remaining l q n =
     rbind (lot_unit_cost l) (\<lambda>u.
       rmap (\<lambda>v. \<lparr>ly_lot = l, ly_quantity = q, ly_value = v, ly_count = n\<rparr>)
         (money_of (dmul (q_value q) (amount u)) (cur_code (currency (lot_cost l)))))"

definition full_layer :: "cost_lot \<Rightarrow> cost_layer" where
  "full_layer l = \<lparr>ly_lot = l, ly_quantity = lot_quantity l, ly_value = lot_cost l, ly_count = 0\<rparr>"

record layer_consumption =
  lc_lot_ref :: artifact_ref
  lc_lot_id :: uuid
  lc_quantity :: quantity
  lc_cost :: money
  lc_unit_cost :: money
  lc_remaining :: quantity

definition consume_layer :: "cost_layer \<Rightarrow> quantity \<Rightarrow> py_exc + layer_consumption" where
  "consume_layer y q =
     rbind (ly_unit_cost y) (\<lambda>u.
     rbind (money_of (dmul (q_value q) (amount u)) (cur_code (currency u))) (\<lambda>cost.
     rmap (\<lambda>rest. \<lparr>lc_lot_ref = lot_ref (ly_lot y), lc_lot_id = lot_id (ly_lot y), lc_quantity = q, lc_cost = cost,
            lc_unit_cost = u, lc_remaining = rest\<rparr>)
       (mk_quantity (dsub (q_value (ly_quantity y)) (q_value q)) (q_unit (ly_quantity y)))))"

record consumption_result =
  cn_ref :: artifact_ref
  cn_item_id :: string
  cn_method :: cost_method
  cn_layers :: "layer_consumption list"
  cn_quantity :: quantity
  cn_cost :: money
  cn_links :: "economic_link list"

definition cn_layer_count :: "consumption_result \<Rightarrow> nat" where
  "cn_layer_count r = length (cn_layers r)"

definition cn_average_unit_cost :: "consumption_result \<Rightarrow> py_exc + money" where
  "cn_average_unit_cost r =
     (if q_value (cn_quantity r) = 0 then Inr (money_zero (currency (cn_cost r)))
      else rbind (ddiv (amount (cn_cost r)) (q_value (cn_quantity r))) (\<lambda>a. money_of a (cur_code (currency (cn_cost r)))))"

definition mk_consumption_result ::
    "artifact_ref \<Rightarrow> string \<Rightarrow> cost_method \<Rightarrow> layer_consumption list \<Rightarrow> economic_link list \<Rightarrow> py_exc + consumption_result" where
  "mk_consumption_result r item meth cs ls =
     (case cs of
        [] \<Rightarrow> Inl ValueError
      | c # _ \<Rightarrow>
          rbind (mk_quantity (dsum (map (q_value \<circ> lc_quantity) cs)) (q_unit (lc_quantity c))) (\<lambda>q.
          rbind (money_of (dsum (map (amount \<circ> lc_cost) cs)) (cur_code (currency (lc_cost c)))) (\<lambda>m.
            Inr \<lparr>cn_ref = r, cn_item_id = item, cn_method = meth, cn_layers = cs, cn_quantity = q, cn_cost = m, cn_links = ls\<rparr>)))"

record standard_cost_result =
  sd_consumption :: consumption_result
  sd_standard_cost :: money
  sd_actual_cost :: money
  sd_variance :: money

definition sd_is_favorable :: "standard_cost_result \<Rightarrow> bool" where
  "sd_is_favorable r \<longleftrightarrow> money_is_positive (sd_variance r)"

definition sd_is_unfavorable :: "standard_cost_result \<Rightarrow> bool" where
  "sd_is_unfavorable r \<longleftrightarrow> money_is_negative (sd_variance r)"

definition sd_variance_percentage :: "standard_cost_result \<Rightarrow> py_exc + decimal" where
  "sd_variance_percentage r =
     (if money_is_zero (sd_standard_cost r) then Inr 0
      else rmap (\<lambda>x. dmul x 100) (ddiv (amount (sd_variance r)) (amount (sd_standard_cost r))))"

section \<open>The table\<close>

record lot_row =
  rw_id :: uuid
  rw_item_id :: string
  rw_location_id :: "string option"
  rw_lot_date :: int
  rw_quantity :: decimal
  rw_quantity_unit :: string
  rw_cost :: decimal
  rw_currency :: string
  rw_method :: cost_method
  rw_source_event_id :: uuid
  rw_source_type :: artifact_type
  rw_source_id :: uuid
  rw_created_at :: int
  rw_metadata :: "(string \<times> json) list option"

definition lot_to_row :: "cost_lot \<Rightarrow> uuid \<Rightarrow> int \<Rightarrow> lot_row" where
  "lot_to_row l ev now =
     \<lparr>rw_id = lot_id l, rw_item_id = lot_item_id l, rw_location_id = lot_location_id l, rw_lot_date = lot_date l,
      rw_quantity = q_value (lot_quantity l), rw_quantity_unit = q_unit (lot_quantity l), rw_cost = amount (lot_cost l),
      rw_currency = cur_code (currency (lot_cost l)), rw_method = lot_method l, rw_source_event_id = ev,
      rw_source_type = ar_type (lot_source_ref l), rw_source_id = ar_id (lot_source_ref l), rw_created_at = now,
      rw_metadata = (if lot_metadata l = Some [] then None else lot_metadata l)\<rparr>"

definition row_to_lot :: "lot_row \<Rightarrow> py_exc + cost_lot" where
  "row_to_lot r =
     rbind (mk_quantity (rw_quantity r) (rw_quantity_unit r)) (\<lambda>q.
     rbind (money_of (rw_cost r) (rw_currency r)) (\<lambda>m.
       mk_cost_lot \<lparr>lot_id = rw_id r, lot_item_id = rw_item_id r, lot_location_id = rw_location_id r, lot_date = rw_lot_date r,
         lot_quantity = q, lot_cost = m, lot_method = rw_method r,
         lot_source_ref = \<lparr>ar_type = rw_source_type r, ar_id = rw_source_id r\<rparr>, lot_metadata = rw_metadata r\<rparr>))"

section \<open>Reading back what was written\<close>

lemma list_all_number_int: "list_all number_char (str_of_int i)"
  using str_of_int_chars by (simp add: list_all_iff)

lemma parse_exponent_int: "parse_exponent (CHR ''E'' # str_of_int e) = Some e"
proof -
  define n where "n = nat \<bar>e\<bar>"
  have d: "list_all is_digit (str_of_nat n)" "str_of_nat n \<noteq> []" using str_of_nat_digits by simp_all
  have "hd (str_of_nat n) \<noteq> CHR ''-''" "hd (str_of_nat n) \<noteq> CHR ''+''"
    using d digit_facts [of "hd (str_of_nat n)"] unfolding number_char_def by (cases "str_of_nat n"; simp)+
  then have "split_sign (str_of_int e) = (e < 0, str_of_nat n)"
    using d(2) by (cases "str_of_nat n") (auto simp: split_sign_def str_of_int_def n_def)
  moreover have "char_lower CHR ''E'' = CHR ''e''" by code_simp
  ultimately show ?thesis using d by (auto simp: parse_exponent_def nat_of_digits_str n_def)
qed

lemma parse_finite_scientific: "parse_finite (str_of_nat n @ CHR ''E'' # str_of_int e) = Some (of_nat n * 10 powi e)"
proof -
  have "\<not> is_digit CHR ''E''" by code_simp
  then have t: "takeWhile is_digit (str_of_nat n @ CHR ''E'' # str_of_int e) = str_of_nat n"
    "dropWhile is_digit (str_of_nat n @ CHR ''E'' # str_of_int e) = CHR ''E'' # str_of_int e"
    using str_of_nat_digits [of n] by (simp_all add: list_all_iff takeWhile_append dropWhile_append)
  show ?thesis unfolding parse_finite_def Let_def t by (simp add: parse_exponent_int nat_of_digits_str)
qed

lemma lower_append: "lower (s @ t) = lower s @ lower t"
  by (simp add: lower_def)

lemma decimal_of_scientific:
  "decimal_of_str (str_of_int c @ ''E'' @ str_of_int e) = Some (Finite (of_int c * 10 powi e))"
proof -
  define n where "n = nat \<bar>c\<bar>"
  let ?s = "str_of_int c @ CHR ''E'' # str_of_int e" and ?b = "str_of_nat n @ CHR ''E'' # str_of_int e"
  have ne: "str_of_int i \<noteq> []" for i by (simp add: str_of_int_def)
  have nc: "number_char x \<Longrightarrow> \<not> is_space x \<and> x \<noteq> CHR ''_''" for x by (simp add: number_char_def)
  have E: "\<not> is_space CHR ''E''" by code_simp
  have ok: "\<not> is_space x \<and> x \<noteq> CHR ''_''" if "x \<in> set ?s" for x
  proof -
    from that consider "number_char x" | "x = CHR ''E''" using str_of_int_chars by auto
    then show ?thesis using nc E by cases auto
  qed
  have "strip ?s = ?s"
  proof (rule strip_tight)
    have n: "?s \<noteq> []" by simp
    show "?s = [] \<or> \<not> is_space (hd ?s) \<and> \<not> is_space (last ?s)"
      using ok [OF hd_in_set [OF n]] ok [OF last_in_set [OF n]] by blast
  qed
  moreover have "filter (\<lambda>c. c \<noteq> CHR ''_'') ?s = ?s" by (rule filter_True) (use ok in blast)
  ultimately have s: "filter (\<lambda>c. c \<noteq> CHR ''_'') (strip (str_of_int c @ ''E'' @ str_of_int e)) = ?s" by simp
  have d: "list_all is_digit (str_of_nat n)" "str_of_nat n \<noteq> []" using str_of_nat_digits by simp_all
  have hd: "is_digit (hd (str_of_nat n))" using d by (cases "str_of_nat n") simp_all
  have "hd (str_of_nat n) \<noteq> CHR ''-''" "hd (str_of_nat n) \<noteq> CHR ''+''"
    using hd digit_facts [of "hd (str_of_nat n)"] unfolding number_char_def by auto
  then have sg: "split_sign ?s = (c < 0, ?b)"
    using d(2) by (cases "str_of_nat n") (auto simp: split_sign_def str_of_int_def n_def)
  have "lower ?b = str_of_nat n @ lower (CHR ''E'' # str_of_int e)" using lower_digits [OF d(1)] by (simp add: lower_append)
  then have h: "hd (lower ?b) = hd (str_of_nat n)" using d(2) by simp
  have word: "take k (lower ?b) \<noteq> w" if "w \<noteq> []" "k \<noteq> 0" "hd w \<in> set ''instf''" for k w
  proof
    assume "take k (lower ?b) = w"
    then have "hd w = hd (lower ?b)" using that by (metis hd_take neq0_conv)
    then show False using h hd that(3) digit_facts(1) unfolding number_char_def by metis
  qed
  have "lower ?b \<noteq> ''inf''" "lower ?b \<noteq> ''infinity''" "take 3 (lower ?b) \<noteq> ''nan''" "take 4 (lower ?b) \<noteq> ''snan''"
    using word [of "''inf''" 3] word [of "''infinity''" 8] word [of "''nan''" 3] word [of "''snan''" 4] by auto
  then show ?thesis unfolding decimal_of_str_def Let_def s sg prod.case
    by (auto simp: parse_finite_scientific n_def)
qed

lemma decimal_text_reads:
  assumes "dfix d = d"
  shows "decimal_of_str (decimal_text d) = Some (Finite d)"
proof (cases "d = 0")
  case True
  have "decimal_of_str ''0'' = Some (Finite 0)" by code_simp
  then show ?thesis using True by (simp add: decimal_text_def)
next
  case False
  define e where "e = adjusted d - 27"
  define c where "c = round_int ROUND_HALF_EVEN (d * 10 powi (- e))"
  have "decimal_text d = str_of_int c @ ''E'' @ str_of_int e" using False by (simp add: decimal_text_def e_def c_def Let_def)
  moreover have "of_int c * 10 powi e = d" using assms False by (simp add: dfix_def e_def c_def Let_def)
  ultimately show ?thesis using decimal_of_scientific [of c e] by simp
qed

section \<open>Amounts of links that are added\<close>

lemma rfold_append: "rfold f (xs @ ys) s = rbind (rfold f xs s) (rfold f ys)"
proof (induction xs arbitrary: s)
  case (Cons x xs)
  then show ?case by (cases "f x s") simp_all
qed simp

lemma rtraverse_append: "rtraverse f (xs @ ys) = rbind (rtraverse f xs) (\<lambda>as. rmap ((@) as) (rtraverse f ys))"
proof (induction xs)
  case Nil
  then show ?case by (cases "rtraverse f ys") simp_all
next
  case (Cons x xs)
  then show ?case by (cases "f x"; cases "rtraverse f xs"; cases "rtraverse f ys") simp_all
qed

lemma get_children_append:
  "get_children p ts (rows @ new) = rbind (get_children p ts rows) (\<lambda>cs. rmap ((@) cs) (get_children p ts new))"
  by (simp add: get_children_def rtraverse_append)

lemma sum_metadata_append: "sum_metadata key (ls @ new) = rbind (sum_metadata key ls) (rfold (\<lambda>l t. rmap (\<lambda>a. case a of None \<Rightarrow> t | Some d \<Rightarrow> dadd t d)
    (metadata_amount key l)) new)"
  by (simp add: sum_metadata_def rfold_append)

text \<open>One new link that carries an amount, and links of other parents.\<close>

lemma unconsumed_other:
  assumes "get_children p (Some ts) new = Inr []"
  shows "get_unconsumed_value p m (Some ts) key (rows @ new) = get_unconsumed_value p m (Some ts) key rows"
proof -
  have "get_children p (Some ts) (rows @ new) = get_children p (Some ts) rows"
    using assms by (cases "get_children p (Some ts) rows") (simp_all add: get_children_append)
  then show ?thesis by (simp add: get_unconsumed_value_def)
qed

lemma unconsumed_added:
  assumes "get_children p (Some ts) new = Inr [l]" "metadata_amount key l = Inr (Some d)"
    and "get_unconsumed_value p m (Some ts) key rows = Inr uv"
  shows "get_unconsumed_value p m (Some ts) key (rows @ new) =
    (let t = dadd (amount (uv_consumed_amount uv)) d
     in Inr (uv\<lparr>uv_consumed_amount := \<lparr>amount = t, currency = currency m\<rparr>,
          uv_remaining_amount := \<lparr>amount = dsub (amount m) t, currency = currency m\<rparr>, uv_child_count := Suc (uv_child_count uv)\<rparr>))"
proof -
  obtain cs t where c: "get_children p (Some ts) rows = Inr cs" "sum_metadata key cs = Inr t"
    using assms(3) by (auto simp: get_unconsumed_value_def rbind_eq_Inr)
  then have uv: "uv = \<lparr>uv_artifact_ref = p, uv_original_amount = m, uv_consumed_amount = \<lparr>amount = t, currency = currency m\<rparr>,
      uv_remaining_amount = \<lparr>amount = dsub (amount m) t, currency = currency m\<rparr>, uv_child_count = length cs\<rparr>"
    using assms(3) by (simp add: get_unconsumed_value_def Let_def money_sub_def)
  have "get_children p (Some ts) (rows @ new) = Inr (cs @ [l])" by (simp add: get_children_append c assms(1))
  moreover have "sum_metadata key (cs @ [l]) = Inr (dadd t d)" by (simp add: sum_metadata_append c assms(2))
  ultimately show ?thesis by (simp add: get_unconsumed_value_def uv Let_def money_sub_def)
qed

end
