(* ===== verification/Allocation.thy ===== *)
theory Allocation
  imports Values "HOL-Library.Product_Lexorder"
begin

text \<open>
  \<open>finance_engines/allocation.py\<close>: splitting an amount of money over targets, by ratio (pro rata,
  weighted, equal) or in sequence (FIFO, LIFO, specific). Dates are proleptic day ordinals, as in
  \<open>date.toordinal\<close>. A Money object is always true in a Boolean context, so \<open>x or y\<close> on an
  optional amount is a case on \<open>None\<close>. Tracing and logging are not modelled.

  The sequential methods are shown to compute the greedy allocation; the ratio methods to allocate
  the whole amount, each share to within half a unit of the last place, when the rounding target is
  the last one; and to allocate too much when it is not.
\<close>

section \<open>Data\<close>

datatype allocation_method = PRORATA | FIFO | LIFO | SPECIFIC | WEIGHTED | EQUAL

datatype target_ref = TargetText string | TargetUuid uuid

record allocation_target =
  tg_target_id :: target_ref
  tg_target_type :: string
  tg_eligible_amount :: "money option"
  tg_weight :: decimal
  tg_priority :: int
  tg_date :: "int option"

definition mk_allocation_target :: "allocation_target \<Rightarrow> py_exc + allocation_target" where
  "mk_allocation_target t = (if tg_weight t < 0 then Inl ValueError else Inr t)"

record allocation_line =
  ln_target_id :: target_ref
  ln_target_type :: string
  ln_allocated :: money
  ln_remaining :: money
  ln_is_fully_allocated :: bool

definition allocation_percent :: "allocation_line \<Rightarrow> py_exc + decimal" where
  "allocation_percent l =
     rbind (money_add (ln_allocated l) (ln_remaining l)) (\<lambda>t.
       if money_is_zero t then Inr 100
       else rmap (\<lambda>q. dmul q 100) (ddiv (amount (ln_allocated l)) (amount t)))"

record allocation_result =
  al_source_amount :: money
  al_method :: allocation_method
  al_lines :: "allocation_line list"
  al_total_allocated :: money
  al_unallocated :: money
  al_rounding_adjustment :: money

definition al_is_fully_allocated :: "allocation_result \<Rightarrow> bool" where
  "al_is_fully_allocated r \<longleftrightarrow> money_is_zero (al_unallocated r)"

definition allocation_count :: "allocation_result \<Rightarrow> nat" where
  "allocation_count r = length (filter (\<lambda>l. \<not> money_is_zero (ln_allocated l)) (al_lines r))"

definition mk_money :: "decimal \<Rightarrow> currency \<Rightarrow> money" where
  "mk_money a c = \<lparr>amount = a, currency = c\<rparr>"

definition mk_line :: "allocation_target \<Rightarrow> money \<Rightarrow> money \<Rightarrow> bool \<Rightarrow> allocation_line" where
  "mk_line t a r full = \<lparr>ln_target_id = tg_target_id t, ln_target_type = tg_target_type t, ln_allocated = a,
     ln_remaining = r, ln_is_fully_allocated = full\<rparr>"

section \<open>Allocation by ratio\<close>

text \<open>One target's share before it is capped: the remainder for the rounding target, else the rounded ratio.\<close>

definition naive_share :: "money \<Rightarrow> decimal \<Rightarrow> py_exc + decimal" where
  "naive_share m ratio = dquantize ROUND_HALF_UP (decimal_places (currency m)) (dmul (amount m) ratio)"

definition share_line :: "money \<Rightarrow> allocation_target \<Rightarrow> decimal \<Rightarrow> py_exc + allocation_line" where
  "share_line m t a =
     (let allocated = mk_money a (currency m)
      in case tg_eligible_amount t of
           None \<Rightarrow> Inr (mk_line t allocated (money_zero (currency m)) True)
         | Some el \<Rightarrow>
             rmap (\<lambda>remaining.
                 if amount remaining < 0
                 then mk_line t el (money_zero (currency m)) (money_is_zero (money_zero (currency m)))
                 else mk_line t allocated remaining (money_is_zero remaining))
               (money_sub el allocated))"

fun ratio_loop ::
    "money \<Rightarrow> (allocation_target \<Rightarrow> py_exc + decimal) \<Rightarrow> int \<Rightarrow> int \<Rightarrow> decimal \<Rightarrow> allocation_target list
     \<Rightarrow> py_exc + allocation_line list" where
  "ratio_loop m get_ratio idx i so_far [] = Inr []"
| "ratio_loop m get_ratio idx i so_far (t # ts) =
     (if i = idx then
        rbind (share_line m t (dsub (amount m) so_far)) (\<lambda>l.
          rmap ((#) l) (ratio_loop m get_ratio idx (i + 1) so_far ts))
      else
        rbind (get_ratio t) (\<lambda>ratio. rbind (naive_share m ratio) (\<lambda>a.
          rbind (share_line m t a) (\<lambda>l.
            rmap ((#) l) (ratio_loop m get_ratio idx (i + 1) (dadd so_far a) ts)))))"

definition allocate_by_ratio ::
    "money \<Rightarrow> allocation_target list \<Rightarrow> allocation_method \<Rightarrow> (allocation_target \<Rightarrow> py_exc + decimal) \<Rightarrow> int option
     \<Rightarrow> py_exc + allocation_result" where
  "allocate_by_ratio m targets meth get_ratio rounding_target_index =
     (let idx = (case rounding_target_index of None \<Rightarrow> int (length targets) - 1 | Some i \<Rightarrow> i); c = currency m
      in rbind (ratio_loop m get_ratio idx 0 0 targets) (\<lambda>lines.
           let total_allocated = mk_money (dsum (map (\<lambda>l. amount (ln_allocated l)) lines)) c
           in rbind (money_sub m total_allocated) (\<lambda>unallocated.
                if dadd (amount total_allocated) (amount unallocated) \<noteq> amount m then Inl AssertionError
                else rbind (rtraverse (\<lambda>t. rbind (get_ratio t) (naive_share m)) targets) (\<lambda>naive.
                  Inr \<lparr>al_source_amount = m, al_method = meth, al_lines = lines,
                       al_total_allocated = total_allocated, al_unallocated = unallocated,
                       al_rounding_adjustment = mk_money (dsub (amount m) (dsum naive)) c\<rparr>))))"

fun total_eligible :: "money \<Rightarrow> decimal \<Rightarrow> allocation_target list \<Rightarrow> py_exc + decimal" where
  "total_eligible m acc [] = Inr acc"
| "total_eligible m acc (t # ts) =
     (case tg_eligible_amount t of
        None \<Rightarrow> Inl ValueError
      | Some el \<Rightarrow>
          if currency el \<noteq> currency m then Inl ValueError
          else total_eligible m (dadd acc (amount el)) ts)"

definition allocate_prorata ::
    "money \<Rightarrow> allocation_target list \<Rightarrow> int option \<Rightarrow> py_exc + allocation_result" where
  "allocate_prorata m targets rounding_target_index =
     rbind (total_eligible m 0 targets) (\<lambda>tot.
       if tot = 0 then
         Inr \<lparr>al_source_amount = m, al_method = PRORATA,
              al_lines = map (\<lambda>t. mk_line t (money_zero (currency m))
                (case tg_eligible_amount t of Some el \<Rightarrow> el | None \<Rightarrow> money_zero (currency m)) True) targets,
              al_total_allocated = money_zero (currency m), al_unallocated = m,
              al_rounding_adjustment = money_zero (currency m)\<rparr>
       else allocate_by_ratio m targets PRORATA (\<lambda>t. ddiv (amount (the (tg_eligible_amount t))) tot)
              rounding_target_index)"

definition allocate_weighted ::
    "money \<Rightarrow> allocation_target list \<Rightarrow> int option \<Rightarrow> py_exc + allocation_result" where
  "allocate_weighted m targets rounding_target_index =
     (let total_weight = dsum (map tg_weight targets)
      in if total_weight = 0 then Inl ValueError
         else allocate_by_ratio m targets WEIGHTED (\<lambda>t. ddiv (tg_weight t) total_weight) rounding_target_index)"

definition allocate_equal ::
    "money \<Rightarrow> allocation_target list \<Rightarrow> int option \<Rightarrow> py_exc + allocation_result" where
  "allocate_equal m targets rounding_target_index =
     allocate_by_ratio m targets EQUAL (\<lambda>t. ddiv 1 (of_nat (length targets))) rounding_target_index"

section \<open>Allocation in sequence\<close>

fun sequential_loop ::
    "currency \<Rightarrow> decimal \<Rightarrow> allocation_target list \<Rightarrow> allocation_line list \<times> decimal" where
  "sequential_loop c remaining [] = ([], remaining)"
| "sequential_loop c remaining (t # ts) =
     (if remaining \<le> 0 then
        (let (ls, r) = sequential_loop c remaining ts
         in (mk_line t (money_zero c) (case tg_eligible_amount t of Some el \<Rightarrow> el | None \<Rightarrow> money_zero c) False # ls, r))
      else
        (let eligible = (case tg_eligible_amount t of Some el \<Rightarrow> amount el | None \<Rightarrow> remaining);
             to_allocate = min remaining eligible;
             target_remaining = mk_money (dsub eligible to_allocate) c;
             (ls, r) = sequential_loop c (dsub remaining to_allocate) ts
         in (mk_line t (mk_money to_allocate c) target_remaining (money_is_zero target_remaining) # ls, r)))"

definition allocate_sequential ::
    "money \<Rightarrow> allocation_target list \<Rightarrow> allocation_method \<Rightarrow> allocation_result" where
  "allocate_sequential m sorted_targets meth =
     (let c = currency m; (lines, remaining) = sequential_loop c (amount m) sorted_targets
      in \<lparr>al_source_amount = m, al_method = meth, al_lines = lines,
          al_total_allocated = mk_money (dsub (amount m) remaining) c, al_unallocated = mk_money remaining c,
          al_rounding_adjustment = money_zero c\<rparr>)"

text \<open>\<open>date.min\<close> and \<open>date.max\<close>; a reversed stable sort keeps the order of equal keys.\<close>

definition date_min :: int where
  "date_min = 1"

definition date_max :: int where
  "date_max = 3652059"

definition fifo_order :: "allocation_target list \<Rightarrow> allocation_target list" where
  "fifo_order ts = sort_key (\<lambda>t. (case tg_date t of Some d \<Rightarrow> d | None \<Rightarrow> date_min, tg_priority t)) ts"

definition lifo_order :: "allocation_target list \<Rightarrow> allocation_target list" where
  "lifo_order ts =
     rev (sort_key (\<lambda>t. (case tg_date t of Some d \<Rightarrow> d | None \<Rightarrow> date_max, - tg_priority t)) (rev ts))"

definition specific_order :: "allocation_target list \<Rightarrow> allocation_target list" where
  "specific_order ts = sort_key tg_priority ts"

definition allocate_fifo :: "money \<Rightarrow> allocation_target list \<Rightarrow> allocation_result" where
  "allocate_fifo m ts = allocate_sequential m (fifo_order ts) FIFO"

definition allocate_lifo :: "money \<Rightarrow> allocation_target list \<Rightarrow> allocation_result" where
  "allocate_lifo m ts = allocate_sequential m (lifo_order ts) LIFO"

definition allocate_specific :: "money \<Rightarrow> allocation_target list \<Rightarrow> allocation_result" where
  "allocate_specific m ts = allocate_sequential m (specific_order ts) SPECIFIC"

definition allocate ::
    "money \<Rightarrow> allocation_target list \<Rightarrow> allocation_method \<Rightarrow> int option \<Rightarrow> py_exc + allocation_result" where
  "allocate m targets meth rounding_target_index =
     (if targets = [] then
        Inr \<lparr>al_source_amount = m, al_method = meth, al_lines = [], al_total_allocated = money_zero (currency m),
             al_unallocated = m, al_rounding_adjustment = money_zero (currency m)\<rparr>
      else case meth of
        PRORATA \<Rightarrow> allocate_prorata m targets rounding_target_index
      | FIFO \<Rightarrow> Inr (allocate_fifo m targets)
      | LIFO \<Rightarrow> Inr (allocate_lifo m targets)
      | SPECIFIC \<Rightarrow> Inr (allocate_specific m targets)
      | WEIGHTED \<Rightarrow> allocate_weighted m targets rounding_target_index
      | EQUAL \<Rightarrow> allocate_equal m targets rounding_target_index)"

section \<open>The sequential methods are greedy\<close>

text \<open>The reference: give each target as much as it can take of what is left.\<close>

fun greedy :: "rat \<Rightarrow> rat option list \<Rightarrow> rat list" where
  "greedy a [] = []"
| "greedy a (e # es) = (let x = (case e of None \<Rightarrow> a | Some y \<Rightarrow> min a y) in x # greedy (a - x) es)"

definition eligible_value :: "allocation_target \<Rightarrow> rat option" where
  "eligible_value t = map_option amount (tg_eligible_amount t)"

definition line_value :: "allocation_line \<Rightarrow> rat" where
  "line_value l = amount (ln_allocated l)"

definition target_ok :: "nat \<Rightarrow> allocation_target \<Rightarrow> bool" where
  "target_ok k t \<longleftrightarrow> (\<forall>y. eligible_value t = Some y \<longrightarrow> 0 \<le> y \<and> on_grid k y \<and> y * 10 ^ k < 10 ^ 28)"

lemma greedy_zero: "list_all (\<lambda>e. case e of None \<Rightarrow> True | Some y \<Rightarrow> 0 \<le> y) es \<Longrightarrow> greedy 0 es = replicate (length es) 0"
  by (induction es) (auto simp: min_def split: option.splits)

lemma greedy_sum_le: "0 \<le> a \<Longrightarrow> list_all (\<lambda>e. case e of None \<Rightarrow> True | Some y \<Rightarrow> 0 \<le> y) es \<Longrightarrow>
    sum_list (greedy a es) \<le> a \<and> list_all (\<lambda>x. 0 \<le> x) (greedy a es)"
proof (induction es arbitrary: a)
  case (Cons e es)
  define x where "x = (case e of None \<Rightarrow> a | Some y \<Rightarrow> min a y)"
  have "0 \<le> x \<and> x \<le> a" using Cons.prems by (auto simp: x_def split: option.split)
  moreover have "greedy a (e # es) = x # greedy (a - x) es" by (simp add: x_def Let_def)
  ultimately show ?case using Cons.IH [of "a - x"] Cons.prems(2) by auto
qed simp

lemma greedy_leftover:
  "0 \<le> a \<Longrightarrow> list_all (\<lambda>e. case e of None \<Rightarrow> True | Some y \<Rightarrow> 0 \<le> y) es \<Longrightarrow> sum_list (greedy a es) < a \<Longrightarrow>
     map Some (greedy a es) = es"
proof (induction es arbitrary: a)
  case (Cons e es)
  define x where "x = (case e of None \<Rightarrow> a | Some y \<Rightarrow> min a y)"
  have x: "0 \<le> x \<and> x \<le> a" using Cons.prems by (auto simp: x_def split: option.split)
  have g: "greedy a (e # es) = x # greedy (a - x) es" by (simp add: x_def Let_def)
  have IH: "map Some (greedy (a - x) es) = es" using Cons.IH [of "a - x"] Cons.prems(2,3) x g by auto
  have "list_all (\<lambda>y. 0 \<le> y) (greedy (a - x) es)" using greedy_sum_le [of "a - x" es] Cons.prems(2) x by simp
  then have "0 \<le> sum_list (greedy (a - x) es)" by (intro sum_list_nonneg) (simp add: list_all_iff)
  moreover have "x + sum_list (greedy (a - x) es) < a" using Cons.prems(3) g by simp
  ultimately have "x < a" by linarith
  then have "e = Some x" by (auto simp: x_def min_def split: option.splits if_splits)
  then show ?case using IH g by simp
qed simp

lemma dsub_grid:
  assumes "on_grid k x" "on_grid k y" "0 \<le> y" "y \<le> x" "x * 10 ^ k < 10 ^ 28"
  shows "dsub x y = x - y"
proof -
  have "\<bar>x - y\<bar> * 10 ^ k \<le> x * 10 ^ k" using assms(3,4) by (intro mult_right_mono) auto
  then have "\<bar>x - y\<bar> * 10 ^ k < 10 ^ 28" using assms(5) by (rule order_le_less_trans)
  then show ?thesis unfolding dsub_def using assms(1,2) by (intro dfix_grid) auto
qed

lemma line_simps [simp]:
  "line_value (mk_line t a r b) = amount a" "ln_remaining (mk_line t a r b) = r" "ln_target_id (mk_line t a r b) = tg_target_id t"
  "ln_allocated (mk_line t a r b) = a" "amount (mk_money x c) = x" "currency (mk_money x c) = c" "amount (money_zero c) = 0"
  by (simp_all add: line_value_def mk_line_def mk_money_def money_zero_def)

lemma sequential_loop_greedy:
  assumes "0 \<le> a" "on_grid k a" "a * 10 ^ k < 10 ^ 28" "list_all (target_ok k) ts"
  shows "map line_value (fst (sequential_loop c a ts)) = greedy a (map eligible_value ts)
    \<and> snd (sequential_loop c a ts) = a - sum_list (greedy a (map eligible_value ts))
    \<and> list_all2 (\<lambda>t l. ln_target_id l = tg_target_id t
        \<and> (\<forall>y. eligible_value t = Some y \<longrightarrow> line_value l + amount (ln_remaining l) = y)) ts (fst (sequential_loop c a ts))"
  using assms
proof (induction ts arbitrary: a)
  case (Cons t ts)
  show ?case
  proof (cases "a \<le> 0")
    case True
    with Cons.prems have "a = 0" by simp
    moreover have "min 0 y = 0" if "eligible_value t = Some y" for y using that Cons.prems(4) by (simp add: target_ok_def)
    ultimately show ?thesis using Cons.IH [of 0] Cons.prems
      by (cases "sequential_loop c 0 ts") (auto simp: eligible_value_def [of t] split: option.splits)
  next
    case False
    define e where "e = (case tg_eligible_amount t of Some el \<Rightarrow> amount el | None \<Rightarrow> a)"
    define x where "x = min a e"
    have e: "0 \<le> e" "on_grid k e" "e * 10 ^ k < 10 ^ 28"
      using Cons.prems by (auto simp: e_def target_ok_def eligible_value_def split: option.splits)
    have x: "0 \<le> x" "x \<le> a" "x \<le> e" "on_grid k x" using False e Cons.prems(2) by (auto simp: x_def min_def)
    have d: "dsub a x = a - x" "dsub e x = e - x"
      using dsub_grid [OF Cons.prems(2) x(4,1,2) Cons.prems(3)] dsub_grid [OF e(2) x(4,1,3) e(3)] by auto
    have ax: "on_grid k (a - x)" "(a - x) * 10 ^ k < 10 ^ 28" "0 \<le> a - x"
    proof -
      show "on_grid k (a - x)" using Cons.prems(2) x(4) by blast
      have "(a - x) * 10 ^ k \<le> a * 10 ^ k" using x by (intro mult_right_mono) auto
      then show "(a - x) * 10 ^ k < 10 ^ 28" using Cons.prems(3) by (rule order_le_less_trans)
    qed (use x in simp)
    have loop: "sequential_loop c a (t # ts) =
        (mk_line t (mk_money x c) (mk_money (e - x) c) (money_is_zero (mk_money (e - x) c)) # fst (sequential_loop c (a - x) ts),
         snd (sequential_loop c (a - x) ts))"
      using False d by (simp add: e_def x_def Let_def split_beta)
    have g: "greedy a (map eligible_value (t # ts)) = x # greedy (a - x) (map eligible_value ts)"
      by (simp add: x_def e_def eligible_value_def Let_def split: option.split)
    have "e = y" if "eligible_value t = Some y" for y using that by (auto simp: e_def eligible_value_def)
    then show ?thesis unfolding loop g using Cons.IH [OF ax(3,1,2)] Cons.prems(4) by auto
  qed
qed simp

definition sequence_order :: "allocation_method \<Rightarrow> allocation_target list \<Rightarrow> allocation_target list" where
  "sequence_order meth ts =
     (if meth = FIFO then fifo_order ts else if meth = LIFO then lifo_order ts else specific_order ts)"

lemma mset_sequence_order: "mset (sequence_order meth ts) = mset ts"
  by (simp add: sequence_order_def fifo_order_def lifo_order_def specific_order_def)

lemma allocate_sequential_method:
  assumes "meth \<in> {FIFO, LIFO, SPECIFIC}"
  shows "allocate m ts meth idx = Inr (allocate_sequential m (sequence_order meth ts) meth)"
  using assms
  by (auto simp: allocate_def sequence_order_def allocate_fifo_def allocate_lifo_def allocate_specific_def
      allocate_sequential_def fifo_order_def lifo_order_def specific_order_def mk_money_def money_zero_def Let_def dsub_def)

section \<open>The ratio methods\<close>

lemma dfix_le_1:
  assumes "0 \<le> x" "x \<le> 1"
  shows "0 \<le> dfix x \<and> dfix x \<le> 1"
proof (cases "x = 0 \<or> x = 1")
  case False
  then obtain c e where d: "dfix x = of_int c * 10 powi e" "\<bar>c\<bar> \<le> 10 ^ 28" and lo: "10 powi (e + 27) \<le> \<bar>x\<bar>"
    using dfix_shape [of x] by blast
  have "(10 :: rat) powi (e + 27) < 10 powi 0" using lo False assms by simp
  then have "e \<le> - 28" by (simp only: powi10_less_iff)
  then have "(10 :: rat) powi e \<le> 10 powi (- 28)" by (intro power_int_increasing) auto
  moreover have "(of_int c :: rat) \<le> 10 ^ 28"
    using d(2) by (metis abs_le_D1 of_int_le_numeral_power_cancel_iff)
  ultimately have "of_int c * (10 :: rat) powi e \<le> 10 ^ 28 * 10 powi (- 28)"
    by (intro mult_mono) (auto simp: less_imp_le)
  then have "dfix x \<le> 1" using d(1) by (simp add: power_int_minus)
  then show ?thesis using assms(1) by simp
qed auto

definition no_caps :: "allocation_target list \<Rightarrow> bool" where
  "no_caps ts \<longleftrightarrow> list_all (\<lambda>t. tg_eligible_amount t = None) ts"

text \<open>The shares of a loop in which every share can be computed and no target is capped.\<close>

definition plain_line :: "money \<Rightarrow> allocation_target \<Rightarrow> decimal \<Rightarrow> allocation_line" where
  "plain_line m t a = mk_line t (mk_money a (currency m)) (money_zero (currency m)) True"

lemma ratio_loop_plain:
  assumes "list_all (\<lambda>t. rbind (g t) (naive_share m) = Inr (sh t)) ts" "no_caps ts" "idx < i \<or> i + int (length ts) \<le> idx"
  shows "ratio_loop m g idx i so_far ts = Inr (map (\<lambda>t. plain_line m t (sh t)) ts)"
  using assms
proof (induction ts arbitrary: i so_far)
  case (Cons t ts)
  then have "i \<noteq> idx" by auto
  then show ?case using Cons by (auto simp: no_caps_def share_line_def plain_line_def rbind_eq_Inr)
qed simp

lemma ratio_loop_last:
  assumes "list_all (\<lambda>t. rbind (g t) (naive_share m) = Inr (sh t)) ts" "no_caps (ts @ [t])" "idx = i + int (length ts)"
  shows "ratio_loop m g idx i so_far (ts @ [t]) =
     Inr (map (\<lambda>t. plain_line m t (sh t)) ts @ [plain_line m t (dsub (amount m) (foldl dadd so_far (map sh ts)))])"
  using assms
proof (induction ts arbitrary: i so_far)
  case Nil
  then show ?case by (simp add: no_caps_def share_line_def plain_line_def)
next
  case (Cons u us)
  then show ?case using Cons.IH [of "i + 1"] by (auto simp: no_caps_def share_line_def plain_line_def rbind_eq_Inr)
qed

lemma naive_share_ok:
  assumes "0 \<le> r" "r \<le> 1" "decimal_places (currency m) \<le> k" "(\<bar>amount m\<bar> + 6) * 10 ^ k < 10 ^ 28"
  shows "\<exists>s. naive_share m r = Inr s \<and> on_grid k s \<and> \<bar>s\<bar> \<le> \<bar>amount m\<bar> + 6
    \<and> \<bar>s - dmul (amount m) r\<bar> \<le> 1 / (2 * 10 ^ decimal_places (currency m))"
proof -
  define a where "a = amount m"
  define p where "p = decimal_places (currency m)"
  define x where "x = dmul a r"
  define q where "q = round_int ROUND_HALF_UP (x * 10 ^ p)"
  have one: "(1 :: rat) \<le> 10 ^ n" for n by simp
  have b: "(\<bar>a\<bar> + 6) * 10 ^ p \<le> (\<bar>a\<bar> + 6) * 10 ^ k"
    using assms(3) by (intro mult_left_mono power_increasing) (auto simp: p_def)
  have ar: "\<bar>a * r\<bar> \<le> \<bar>a\<bar>" using assms(1,2) mult_left_mono [of r 1 "\<bar>a\<bar>"] by (simp add: abs_mult)
  have "\<bar>a\<bar> \<le> (\<bar>a\<bar> + 6) * 10 ^ k" using mult_mono [of "\<bar>a\<bar>" "\<bar>a\<bar> + 6" 1 "10 ^ k"] one by simp
  then have "\<bar>a\<bar> < 10 ^ 28" using assms(4) unfolding a_def by (rule order_le_less_trans)
  then have "\<bar>a * r\<bar> / (2 * 10 ^ 27) \<le> 5" using ar by (simp add: divide_le_eq)
  moreover have "\<bar>x - a * r\<bar> \<le> \<bar>a * r\<bar> / (2 * 10 ^ 27)" unfolding x_def dmul_def by (rule dfix_rel_err)
  ultimately have x: "\<bar>x\<bar> \<le> \<bar>a\<bar> + 5" using ar by linarith
  have err: "\<bar>of_int q / 10 ^ p - x\<bar> \<le> 1 / (2 * 10 ^ p)" unfolding q_def by (rule half_up.r_grid_half)
  have "(1 :: rat) / (2 * 10 ^ p) \<le> 1 / 2" using one [of p] by (simp add: field_simps)
  then have s: "\<bar>of_int q / 10 ^ p\<bar> \<le> \<bar>a\<bar> + 6" using err x by linarith
  have "of_int \<bar>q\<bar> = \<bar>of_int q / 10 ^ p\<bar> * (10 ^ p :: rat)" by simp
  also have "\<dots> \<le> (\<bar>a\<bar> + 6) * 10 ^ p" using s by (intro mult_right_mono) auto
  also have "\<dots> < 10 ^ 28" using b assms(4) unfolding a_def by (rule order_le_less_trans)
  finally have "\<bar>q\<bar> < 10 ^ 28" by (metis of_int_less_numeral_power_cancel_iff)
  then have "naive_share m r = Inr (of_int q / 10 ^ p)"
    by (simp add: naive_share_def dquantize_def q_def p_def x_def a_def prec_def Let_def)
  moreover have "on_grid k (of_int q / 10 ^ p)" using on_grid_mono [of p _ k] assms(3) by (simp add: p_def)
  ultimately show ?thesis using s err by (auto simp: a_def p_def x_def)
qed

text \<open>The whole amount is allocated: the last target takes what the others leave.\<close>

lemma shares_exact:
  assumes "list_all (on_grid k) ss" "list_all (\<lambda>s. \<bar>s\<bar> \<le> B) ss" "on_grid k a" "\<bar>a\<bar> \<le> B"
    and "2 * (of_nat (length ss) + 1) * B * 10 ^ k < 10 ^ 28"
  shows "foldl dadd 0 ss = sum_list ss" "dsub a (sum_list ss) = a - sum_list ss"
    "dsum (ss @ [a - sum_list ss]) = a" "dfix a = a"
proof -
  have S: "sum_list (map abs ss) \<le> of_nat (length ss) * B"
    using assms(2) by (induction ss) (auto simp: algebra_simps)
  have B0: "0 \<le> B" using assms(4) by linarith
  have g: "on_grid k (sum_list ss)" using assms(1) by (auto simp: list_all_iff)
  have "\<bar>a - sum_list ss\<bar> \<le> B + of_nat (length ss) * B"
    using S abs_sum_list_le [of ss] assms(4) by linarith
  then have "sum_list (map abs (ss @ [a - sum_list ss])) \<le> 2 * (of_nat (length ss) + 1) * B"
    using S B0 by (simp add: algebra_simps)
  then have "sum_list (map abs (ss @ [a - sum_list ss])) * 10 ^ k \<le> 2 * (of_nat (length ss) + 1) * B * 10 ^ k"
    by (rule mult_right_mono) simp
  also have "\<dots> < 10 ^ 28" by (rule assms(5))
  finally have e: "exact_terms k (ss @ [a - sum_list ss])" using assms(1,3) g by (simp add: exact_terms_def)
  then have "dsum ss = sum_list ss" using exact_terms_append(1) dsum_exact by blast
  then show "foldl dadd 0 ss = sum_list ss" by (simp add: dsum_def)
  show "dsum (ss @ [a - sum_list ss]) = a" using dsum_exact [OF e] by simp
  have "exact_terms k [a - sum_list ss]" using exact_terms_append(2) [OF e] .
  from exact_terms_sum [OF this] show "dsub a (sum_list ss) = a - sum_list ss"
    unfolding dsub_def by (intro dfix_grid) auto
  show "dfix a = a" using exact_terms_sum [OF e] by (intro dfix_grid) auto
qed

lemma ratio_total:
  assumes "ts = us @ [u]" "no_caps ts" "list_all (\<lambda>t. rbind (g t) (naive_share m) = Inr (sh t)) ts"
    and "list_all (\<lambda>t. on_grid k (sh t) \<and> \<bar>sh t\<bar> \<le> B) ts" "on_grid k (amount m)" "\<bar>amount m\<bar> \<le> B"
    and "2 * of_nat (length ts) * B * 10 ^ k < 10 ^ 28"
  shows "\<exists>r. allocate_by_ratio m ts meth g None = Inr r \<and> sum_list (map line_value (al_lines r)) = amount m
    \<and> amount (al_total_allocated r) = amount m \<and> amount (al_unallocated r) = 0
    \<and> map line_value (butlast (al_lines r)) = map sh us \<and> length (al_lines r) = length ts"
proof -
  let ?last = "dsub (amount m) (foldl dadd 0 (map sh us))"
  have loop: "ratio_loop m g (int (length ts) - 1) 0 0 ts = Inr (map (\<lambda>t. plain_line m t (sh t)) us @ [plain_line m u ?last])"
    using ratio_loop_last [of g m sh us u "int (length ts) - 1" 0 0] assms(1-3) by simp
  note ex = shares_exact [of k "map sh us" B "amount m"]
  have ex: "foldl dadd 0 (map sh us) = sum_list (map sh us)" "dsub (amount m) (sum_list (map sh us)) = amount m - sum_list (map sh us)"
    "dsum (map sh us @ [amount m - sum_list (map sh us)]) = amount m" "dfix (amount m) = amount m"
    using assms by (intro ex; simp add: list_all_iff algebra_simps)+
  have "map sh us = map (\<lambda>l. amount (ln_allocated l)) (map (\<lambda>t. plain_line m t (sh t)) us)"
    by (simp add: plain_line_def)
  have tot: "dsum (map (\<lambda>l. amount (ln_allocated l)) (map (\<lambda>t. plain_line m t (sh t)) us @ [plain_line m u ?last])) = amount m"
    using ex by (simp add: plain_line_def comp_def)
  have naive: "rtraverse (\<lambda>t. rbind (g t) (naive_share m)) ts = Inr (map sh ts)"
    using assms(3) by (simp add: rtraverse_Inr list_all_iff list.rel_map list_all2_same)
  show ?thesis unfolding allocate_by_ratio_def
    using ex tot naive loop
    by (simp add: Let_def money_sub_def dadd_def dsub_def [of "amount m" "amount m"])
      (simp add: plain_line_def comp_def assms(1))
qed

lemma weight_ratio:
  assumes "list_all (\<lambda>t. 0 \<le> tg_weight t) ts" "exact_terms j (map tg_weight ts)" "dsum (map tg_weight ts) \<noteq> 0" "t \<in> set ts"
  shows "\<exists>r. ddiv (tg_weight t) (dsum (map tg_weight ts)) = Inr r \<and> 0 \<le> r \<and> r \<le> 1"
proof -
  let ?W = "sum_list (map tg_weight ts)"
  have W: "dsum (map tg_weight ts) = ?W" by (rule dsum_exact [OF assms(2)])
  have "tg_weight t \<le> ?W" using assms(1,4) by (intro member_le_sum_list) (auto simp: list_all_iff)
  moreover have "0 \<le> tg_weight t" using assms(1,4) by (auto simp: list_all_iff)
  moreover have "?W \<noteq> 0" using assms(3) W by simp
  ultimately have "0 \<le> tg_weight t / ?W" "tg_weight t / ?W \<le> 1" by auto
  from dfix_le_1 [OF this] show ?thesis using \<open>?W \<noteq> 0\<close> by (simp add: ddiv_def W)
qed

section \<open>Properties\<close>

text \<open>
  FIFO, LIFO and specific allocation are greedy: in the method's order each target
  receives as much of what is left as it is eligible for, every line splits its eligible amount into
  allocated and remaining, allocated and unallocated add up to the source (R4), and something is left
  only when every target got its whole eligible amount.
\<close>

theorem sequential_allocation_greedy:
  assumes "meth \<in> {FIFO, LIFO, SPECIFIC}" "0 \<le> amount m" "on_grid k (amount m)" "amount m * 10 ^ k < 10 ^ 28"
    and "list_all (target_ok k) targets"
  shows "\<exists>r. allocate m targets meth idx = Inr r
    \<and> map line_value (al_lines r) = greedy (amount m) (map eligible_value (sequence_order meth targets))
    \<and> list_all2 (\<lambda>t l. ln_target_id l = tg_target_id t
        \<and> (\<forall>y. eligible_value t = Some y \<longrightarrow> line_value l + amount (ln_remaining l) = y)) (sequence_order meth targets) (al_lines r)
    \<and> amount (al_total_allocated r) = sum_list (map line_value (al_lines r))
    \<and> amount (al_total_allocated r) + amount (al_unallocated r) = amount m \<and> 0 \<le> amount (al_unallocated r)
    \<and> (0 < amount (al_unallocated r) \<longrightarrow>
        map Some (map line_value (al_lines r)) = map eligible_value (sequence_order meth targets))"
proof -
  let ?ts = "sequence_order meth targets"
  let ?r = "allocate_sequential m ?ts meth"
  let ?g = "greedy (amount m) (map eligible_value ?ts)"
  have set: "set ?ts = set targets" using mset_sequence_order by (metis set_mset_mset)
  then have ok: "list_all (target_ok k) ?ts" using assms(5) by (simp add: list_all_iff)
  note seq = sequential_loop_greedy [OF assms(2,3,4) ok, of "currency m"]
  have nn: "list_all (\<lambda>e. case e of None \<Rightarrow> True | Some y \<Rightarrow> 0 \<le> y) (map eligible_value ?ts)"
    using ok by (auto simp: list_all_iff target_ok_def split: option.splits)
  note g = greedy_sum_le [OF assms(2) nn] greedy_leftover [OF assms(2) nn]
  have S: "0 \<le> sum_list ?g" using g(1) by (intro sum_list_nonneg) (simp add: list_all_iff)
  have lines: "map line_value (al_lines ?r) = ?g" and un: "amount (al_unallocated ?r) = amount m - sum_list ?g"
    and tot: "amount (al_total_allocated ?r) = dsub (amount m) (amount m - sum_list ?g)"
    and rel: "al_lines ?r = fst (sequential_loop (currency m) (amount m) ?ts)"
    using seq by (simp_all add: allocate_sequential_def Let_def split_beta)
  have og: "on_grid k (amount m - sum_list ?g)"
  proof -
    have "on_grid k x" if "x \<in> set (greedy a es)" "on_grid k a" "list_all (\<lambda>e. case e of None \<Rightarrow> True | Some y \<Rightarrow> on_grid k y) es" for x a es
      using that by (induction es arbitrary: a) (auto simp: Let_def min_def split: option.splits if_splits)
    moreover have "list_all (\<lambda>e. case e of None \<Rightarrow> True | Some y \<Rightarrow> on_grid k y) (map eligible_value ?ts)"
      using ok by (auto simp: list_all_iff target_ok_def split: option.splits)
    ultimately have "\<forall>x \<in> set ?g. on_grid k x" using assms(3) by blast
    then show ?thesis using assms(3) by blast
  qed
  have "dsub (amount m) (amount m - sum_list ?g) = sum_list ?g"
    using dsub_grid [OF assms(3) og _ _ assms(4)] g(1) S by simp
  moreover have "allocate m targets meth idx = Inr ?r" by (rule allocate_sequential_method [OF assms(1)])
  moreover have "map Some (map line_value (al_lines ?r)) = map eligible_value ?ts" if "0 < amount (al_unallocated ?r)"
    unfolding lines by (rule g(2)) (use that un in simp)
  ultimately show ?thesis using lines un tot seq g(1) by (intro exI [of _ ?r]) (simp add: rel)
qed

definition invoice :: "nat \<Rightarrow> rat option \<Rightarrow> allocation_target" where
  "invoice i e = \<lparr>tg_target_id = TargetUuid (of_nat i), tg_target_type = ''invoice'',
     tg_eligible_amount = map_option (\<lambda>a. mk_money a (Currency ''USD'')) e, tg_weight = 1, tg_priority = int i, tg_date = None\<rparr>"

theorem sequential_allocation_greedy_witness:
  "\<exists>r. allocate (mk_money 100 (Currency ''USD'')) [invoice 1 (Some 30), invoice 2 (Some 90)] FIFO None = Inr r
     \<and> map line_value (al_lines r) = [30, 70] \<and> amount (al_unallocated r) = 0"
proof -
  have "on_grid 2 30" "on_grid 2 90" "on_grid 2 (100::rat)"
    using on_grid_ops(6) [of 2 3000] on_grid_ops(6) [of 2 9000] on_grid_ops(6) [of 2 10000] by simp_all
  then have ok: "list_all (target_ok 2) [invoice 1 (Some 30), invoice 2 (Some 90)]"
    by (simp add: target_ok_def eligible_value_def invoice_def)
  have g: "greedy 100 (map eligible_value (sequence_order FIFO [invoice 1 (Some 30), invoice 2 (Some 90)])) = [30, 70]"
    by (simp add: sequence_order_def fifo_order_def invoice_def eligible_value_def)
  obtain r where r: "allocate (mk_money 100 (Currency ''USD'')) [invoice 1 (Some 30), invoice 2 (Some 90)] FIFO None = Inr r"
    "map line_value (al_lines r) = [30, 70]" "amount (al_total_allocated r) = sum_list (map line_value (al_lines r))"
    "amount (al_total_allocated r) + amount (al_unallocated r) = 100"
    using sequential_allocation_greedy [where m = "mk_money 100 (Currency ''USD'')" and meth = FIFO and k = 2 and idx = None, OF _ _ _ _ ok]
      \<open>on_grid 2 100\<close> g by auto
  then show ?thesis by auto
qed

text \<open>
  Property C37. Weighted and equal allocation distribute the whole amount when the last target takes the rounding, the default,
  and no target has a cap: for at least one target, weights that are not negative and have a sum other than zero, and figures
  within the 28 digits, the call succeeds, the shares add up to the source exactly, nothing stays unallocated,
  every share but the last is within half a unit of the currency's last place of the source times its ratio, and so the last
  one, the remainder, takes all their roundings (R4, R5, R17). With another rounding target the sum can exceed the
  source (\<open>early_rounding_target_overallocates\<close>).
\<close>

theorem ratio_allocation_exact:
  assumes "meth \<in> {WEIGHTED, EQUAL}" "targets \<noteq> []" "no_caps targets" "list_all (\<lambda>t. 0 \<le> tg_weight t) targets"
    and "exact_terms j (map tg_weight targets)" "dsum (map tg_weight targets) \<noteq> 0"
    and "on_grid k (amount m)" "decimal_places (currency m) \<le> k"
    and "2 * of_nat (length targets) * (\<bar>amount m\<bar> + 6) * 10 ^ k < 10 ^ 28"
  shows "\<exists>r. allocate m targets meth None = Inr r \<and> sum_list (map line_value (al_lines r)) = amount m
    \<and> amount (al_total_allocated r) = amount m \<and> al_is_fully_allocated r \<and> length (al_lines r) = length targets
    \<and> list_all2 (\<lambda>t l. \<exists>q. (if meth = WEIGHTED then ddiv (tg_weight t) (dsum (map tg_weight targets))
            else ddiv 1 (of_nat (length targets))) = Inr q
          \<and> \<bar>line_value l - dmul (amount m) q\<bar> \<le> 1 / (2 * 10 ^ decimal_places (currency m)))
        (butlast targets) (butlast (al_lines r))"
proof -
  define g where "g = (\<lambda>t :: allocation_target. if meth = WEIGHTED then ddiv (tg_weight t) (dsum (map tg_weight targets))
    else ddiv 1 (of_nat (length targets)))"
  have all: "allocate m targets meth None = allocate_by_ratio m targets meth g None"
    using assms(1,2,6) by (auto simp: allocate_def allocate_weighted_def allocate_equal_def g_def)
  have ratio: "\<exists>q. g t = Inr q \<and> 0 \<le> q \<and> q \<le> 1" if "t \<in> set targets" for t
  proof (cases "meth = WEIGHTED")
    case False
    have "0 \<le> (1 :: rat) / of_nat (length targets)" "(1 :: rat) / of_nat (length targets) \<le> 1"
      using assms(2) by (auto simp: divide_le_eq_1 Suc_le_eq)
    from dfix_le_1 [OF this] show ?thesis using False assms(2) by (simp add: g_def ddiv_def)
  qed (use weight_ratio [OF assms(4,5,6) that] in \<open>simp add: g_def\<close>)
  have "(\<bar>amount m\<bar> + 6) * 10 ^ k \<le> 2 * of_nat (length targets) * ((\<bar>amount m\<bar> + 6) * 10 ^ k)"
  proof -
    have "1 \<le> 2 * (of_nat (length targets) :: rat)" using assms(2) by (cases targets) auto
    from mult_right_mono [OF this, of "(\<bar>amount m\<bar> + 6) * 10 ^ k"] show ?thesis by simp
  qed
  also have "\<dots> < 10 ^ 28" using assms(9) by (simp add: mult.assoc)
  finally have b: "(\<bar>amount m\<bar> + 6) * 10 ^ k < 10 ^ 28" .
  have "\<forall>t \<in> set targets. \<exists>s. rbind (g t) (naive_share m) = Inr s \<and> on_grid k s \<and> \<bar>s\<bar> \<le> \<bar>amount m\<bar> + 6
      \<and> (\<exists>q. g t = Inr q \<and> \<bar>s - dmul (amount m) q\<bar> \<le> 1 / (2 * 10 ^ decimal_places (currency m)))"
    using ratio naive_share_ok [OF _ _ assms(8) b] by (metis rbind.simps(2))
  then obtain sh where sh: "\<forall>t \<in> set targets. rbind (g t) (naive_share m) = Inr (sh t) \<and> on_grid k (sh t)
      \<and> \<bar>sh t\<bar> \<le> \<bar>amount m\<bar> + 6
      \<and> (\<exists>q. g t = Inr q \<and> \<bar>sh t - dmul (amount m) q\<bar> \<le> 1 / (2 * 10 ^ decimal_places (currency m)))"
    by (rule bchoice [THEN exE])
  obtain us u where ts: "targets = us @ [u]" using assms(2) by (cases targets rule: rev_cases) auto
  obtain r where r: "allocate_by_ratio m targets meth g None = Inr r" "sum_list (map line_value (al_lines r)) = amount m"
    "amount (al_total_allocated r) = amount m" "amount (al_unallocated r) = 0"
    "map line_value (butlast (al_lines r)) = map sh us" "length (al_lines r) = length targets"
    using ratio_total [OF ts assms(3), of g m sh k "\<bar>amount m\<bar> + 6" meth] sh assms(7,9) by (auto simp: list_all_iff)
  have "list_all2 (\<lambda>t l. \<exists>q. g t = Inr q \<and> \<bar>line_value l - dmul (amount m) q\<bar> \<le> 1 / (2 * 10 ^ decimal_places (currency m)))
      us (butlast (al_lines r))"
  proof (rule list_all2_all_nthI)
    show len: "length us = length (butlast (al_lines r))" using r(5) by (metis length_map)
    fix n
    assume "n < length us"
    then have "line_value (butlast (al_lines r) ! n) = sh (us ! n)" "us ! n \<in> set targets"
      using r(5) len ts by (metis nth_map, simp)
    then show "\<exists>q. g (us ! n) = Inr q \<and> \<bar>line_value (butlast (al_lines r) ! n) - dmul (amount m) q\<bar>
        \<le> 1 / (2 * 10 ^ decimal_places (currency m))" using sh by simp
  qed
  then show ?thesis using all r ts unfolding g_def by (auto simp: al_is_fully_allocated_def money_is_zero_def)
qed

lemma usd_places: "decimal_places (Currency ''USD'') = 2"
  by code_simp

theorem ratio_allocation_exact_witness:
  "\<exists>r. allocate (mk_money 100 (Currency ''USD'')) [invoice 1 None, invoice 2 None, invoice 3 None] EQUAL None = Inr r
     \<and> sum_list (map line_value (al_lines r)) = 100"
proof -
  let ?ts = "[invoice 1 None, invoice 2 None, invoice 3 None]"
  have "on_grid 2 (100::rat)" "on_grid 0 (1::rat)" using on_grid_ops(6) [of 2 10000] on_grid_ops(6) [of 0 1] by simp_all
  moreover have "exact_terms 0 (map tg_weight ?ts)" using \<open>on_grid 0 1\<close> by (simp add: exact_terms_def invoice_def)
  moreover from dsum_exact [OF this] have "dsum (map tg_weight ?ts) \<noteq> 0" by (simp add: invoice_def)
  ultimately show ?thesis
    using ratio_allocation_exact [of EQUAL ?ts 0 2 "mk_money 100 (Currency ''USD'')"]
    by (auto simp: no_caps_def invoice_def usd_places)
qed

text \<open>
  With a rounding target other than the last, the ratio methods allocate more than the
  source: the rounding target receives the source less what the targets before it got, and the later
  targets receive their shares on top. Splitting 100 dollars equally over two targets with rounding
  target 0 allocates 150 and reports minus 50 as unallocated, and the conservation check passes.
\<close>

theorem early_rounding_target_overallocates:
  "\<exists>r. allocate (mk_money 100 (Currency ''USD'')) [invoice 1 None, invoice 2 None] EQUAL (Some 0) = Inr r
     \<and> map line_value (al_lines r) = [100, 50] \<and> amount (al_total_allocated r) = 150 \<and> amount (al_unallocated r) = - 50"
proof -
  let ?m = "mk_money 100 (Currency ''USD'')"
  have "round_int ROUND_HALF_UP (of_int 5000) = 5000" by (rule round_int_of_int)
  then have s: "naive_share ?m (1/2) = Inr 50"
    by (simp add: naive_share_def dquantize_def usd_places dmul_def prec_def)
  have q: "ddiv 1 2 = Inr (1/2)" by (simp add: ddiv_def)
  show ?thesis
    by (simp add: allocate_def allocate_equal_def allocate_by_ratio_def q s invoice_def share_line_def
        dsub_def dadd_def dsum_def Let_def money_sub_def)
qed

end
