(* ===== verification/Valuation.thy ===== *)
theory Valuation
  imports Cost_Lot Allocation
begin

text \<open>
  \<open>finance_services/valuation_service.py\<close>: cost lots are created with a link from their source, and consumed
  oldest first, newest first, by choice or at standard cost, with a link from the lot to the consumer; what is left of
  a lot is its cost less the costs in its links.

  The lots are rows of the table, with the values they were given; the in-memory store for tests is not modelled, nor
  is a concurrent writer. Lots of one date come in insertion order, which SQL leaves open. Fresh link identifiers and
  the clock are arguments. A call that raises carries no state: its caller rolls back. Errors keep numbers, not text.

  The lemmas show how a consumption answers on every branch, that one that returns is the greedy allocation in date order, what it
  records in the links, that a second consumption by the same consumer records nothing, and which lots never run out.
\<close>

section \<open>State\<close>

datatype valuation_exc =
    ValPy py_exc
  | ValLink link_exc
  | InsufficientInventoryError string decimal decimal string
  | LotNotFoundError uuid string
  | LotDepletedError uuid string
  | StandardCostNotFoundError string

definition vpy :: "py_exc + 'a \<Rightarrow> valuation_exc + 'a" where
  "vpy = map_sum ValPy id"

record valuation_state =
  vs_lots :: "lot_row list"
  vs_links :: link_session
  vs_standard_costs :: "string \<rightharpoonup> money"

record valuation_env =
  ve_service :: link_service
  ve_now :: int
  ve_link_id :: "nat \<Rightarrow> uuid"

section \<open>Lots\<close>

definition insert_lot :: "lot_row \<Rightarrow> lot_row list \<Rightarrow> py_exc + lot_row list" where
  "insert_lot r rows = (if rw_id r \<in> rw_id ` set rows then Inl IntegrityError else Inr (rows @ [r]))"

definition store_lot :: "valuation_env \<Rightarrow> cost_lot \<Rightarrow> uuid \<Rightarrow> valuation_state \<Rightarrow> valuation_exc + valuation_state" where
  "store_lot env l ev s = rmap (\<lambda>rows. s\<lparr>vs_lots := rows\<rparr>) (vpy (insert_lot (lot_to_row l ev (ve_now env)) (vs_lots s)))"

definition establish :: "valuation_env \<Rightarrow> economic_link \<Rightarrow> link_session \<Rightarrow> valuation_exc + economic_link \<times> link_session" where
  "establish env l s =
     (case establish_link (ve_service env) [] l True s of
        (Inl e, s') \<Rightarrow> Inl (ValLink e)
      | (Inr r, s') \<Rightarrow> Inr (lr_link r, s'))"

definition create_lot ::
    "valuation_env \<Rightarrow> uuid \<Rightarrow> artifact_ref \<Rightarrow> string \<Rightarrow> quantity \<Rightarrow> money \<Rightarrow> int \<Rightarrow> uuid \<Rightarrow> string option \<Rightarrow> cost_method
     \<Rightarrow> (string \<times> json) list option \<Rightarrow> valuation_state \<Rightarrow> valuation_exc + cost_lot \<times> valuation_state" where
  "create_lot env i src item q cost d ev loc meth meta s =
     rbind (vpy (create_cost_lot i item q cost d src loc meth meta)) (\<lambda>l.
     rbind (store_lot env l ev s) (\<lambda>s1.
     rbind (vpy (mk_economic_link \<lparr>el_link_id = ve_link_id env 0, el_link_type = SOURCED_FROM, el_parent_ref = src,
         el_child_ref = lot_ref l, el_creating_event_id = ev, el_created_at = ve_now env,
         el_metadata = Some [(''quantity'', JStr (decimal_text (q_value q))), (''unit'', JStr (q_unit q)),
           (''total_cost'', JStr (decimal_text (amount cost))), (''currency'', JStr (cur_code (currency cost)))]\<rparr>)) (\<lambda>link.
     rmap (\<lambda>(_, ls). (l, s1\<lparr>vs_links := ls\<rparr>)) (establish env link (vs_links s1)))))"

definition load_lot_by_id :: "uuid \<Rightarrow> valuation_state \<Rightarrow> valuation_exc + cost_lot option" where
  "load_lot_by_id i s =
     (case find (\<lambda>r. rw_id r = i) (vs_lots s) of None \<Rightarrow> Inr None | Some r \<Rightarrow> rmap Some (vpy (row_to_lot r)))"

definition get_lot :: "uuid \<Rightarrow> valuation_state \<Rightarrow> valuation_exc + cost_lot option" where
  "get_lot i s = load_lot_by_id i s"

text \<open>With the table, the item is not looked at.\<close>

definition get_lot_by_item :: "string \<Rightarrow> uuid \<Rightarrow> valuation_state \<Rightarrow> valuation_exc + cost_lot option" where
  "get_lot_by_item item i s = load_lot_by_id i s"

definition load_lots_for_item :: "string \<Rightarrow> valuation_state \<Rightarrow> valuation_exc + cost_lot list" where
  "load_lots_for_item item s =
     rtraverse (\<lambda>r. vpy (row_to_lot r)) (sort_key rw_lot_date (filter (\<lambda>r. rw_item_id r = item) (vs_lots s)))"

section \<open>Layers\<close>

definition lot_unconsumed :: "links \<Rightarrow> cost_lot \<Rightarrow> link_exc + unconsumed_value" where
  "lot_unconsumed rows l = get_unconsumed_value (lot_ref l) (lot_cost l) (Some [CONSUMED_BY]) ''cost_consumed'' rows"

definition layer_of_lot :: "links \<Rightarrow> cost_lot \<Rightarrow> valuation_exc + cost_layer" where
  "layer_of_lot rows l =
     rbind (map_sum ValLink id (lot_unconsumed rows l)) (\<lambda>uv.
     rbind (vpy (lot_unit_cost l)) (\<lambda>u.
     rbind (if money_is_zero u then Inr (q_value (lot_quantity l))
            else vpy (ddiv (amount (uv_remaining_amount uv)) (amount u))) (\<lambda>n.
     rmap (\<lambda>q. \<lparr>ly_lot = l, ly_quantity = q, ly_value = uv_remaining_amount uv, ly_count = uv_child_count uv\<rparr>)
       (vpy (mk_quantity n (q_unit (lot_quantity l)))))))"

definition lot_wanted :: "string option \<Rightarrow> int option \<Rightarrow> cost_lot \<Rightarrow> bool" where
  "lot_wanted loc as_of l \<longleftrightarrow>
     (loc \<in> {None, Some []} \<or> lot_location_id l = loc) \<and> (case as_of of None \<Rightarrow> True | Some d \<Rightarrow> lot_date l \<le> d)"

definition get_available_layers ::
    "string \<Rightarrow> string option \<Rightarrow> int option \<Rightarrow> valuation_state \<Rightarrow> valuation_exc + cost_layer list" where
  "get_available_layers item loc as_of s =
     rbind (load_lots_for_item item s) (\<lambda>ls.
       rmap (filter ly_is_available) (rtraverse (layer_of_lot (lk_rows (vs_links s))) (filter (lot_wanted loc as_of) ls)))"

definition get_total_available_quantity :: "string \<Rightarrow> string option \<Rightarrow> valuation_state \<Rightarrow> valuation_exc + quantity" where
  "get_total_available_quantity item loc s =
     rbind (get_available_layers item loc None s) (\<lambda>ys.
       case ys of
         [] \<Rightarrow> vpy (mk_quantity 0 ''EA'')
       | y # _ \<Rightarrow> vpy (mk_quantity (dsum (map (q_value \<circ> ly_quantity) ys)) (q_unit (ly_quantity y))))"

definition get_total_available_value :: "string \<Rightarrow> string option \<Rightarrow> valuation_state \<Rightarrow> valuation_exc + money" where
  "get_total_available_value item loc s =
     rbind (get_available_layers item loc None s) (\<lambda>ys.
       case ys of
         [] \<Rightarrow> vpy (money_of 0 ''USD'')
       | y # _ \<Rightarrow> vpy (money_of (dsum (map (amount \<circ> ly_value) ys)) (cur_code (currency (ly_value y)))))"

section \<open>Consumption\<close>

definition consumption_link :: "valuation_env \<Rightarrow> uuid \<Rightarrow> artifact_ref \<Rightarrow> uuid \<Rightarrow> layer_consumption \<Rightarrow> economic_link" where
  "consumption_link env i consumer ev c =
     \<lparr>el_link_id = i, el_link_type = CONSUMED_BY, el_parent_ref = lc_lot_ref c, el_child_ref = consumer,
      el_creating_event_id = ev, el_created_at = ve_now env,
      el_metadata = Some [(''quantity_consumed'', JStr (decimal_text (q_value (lc_quantity c)))), (''unit'', JStr (q_unit (lc_quantity c))),
        (''cost_consumed'', JStr (decimal_text (amount (lc_cost c)))), (''currency'', JStr (cur_code (currency (lc_cost c)))),
        (''unit_cost'', JStr (decimal_text (amount (lc_unit_cost c))))]\<rparr>"

definition create_consumption_link ::
    "valuation_env \<Rightarrow> uuid \<Rightarrow> artifact_ref \<Rightarrow> uuid \<Rightarrow> layer_consumption \<Rightarrow> link_session \<Rightarrow> valuation_exc + economic_link \<times> link_session" where
  "create_consumption_link env i consumer ev c s =
     rbind (vpy (mk_economic_link (consumption_link env i consumer ev c))) (\<lambda>l. establish env l s)"

definition consume_one ::
    "valuation_env \<Rightarrow> uuid \<Rightarrow> artifact_ref \<Rightarrow> uuid \<Rightarrow> cost_layer \<Rightarrow> quantity \<Rightarrow> link_session
     \<Rightarrow> valuation_exc + (layer_consumption \<times> economic_link) \<times> link_session" where
  "consume_one env i consumer ev y q s =
     rbind (vpy (consume_layer y q)) (\<lambda>c.
     rmap (\<lambda>(l, s'). ((c, l), s')) (create_consumption_link env i consumer ev c s))"

text \<open>The loop over the sorted layers; \<open>n\<close> counts the links for their identifiers.\<close>

fun consume_layers ::
    "valuation_env \<Rightarrow> artifact_ref \<Rightarrow> uuid \<Rightarrow> string \<Rightarrow> decimal \<Rightarrow> nat \<Rightarrow> cost_layer list \<Rightarrow> link_session
     \<Rightarrow> valuation_exc + (layer_consumption \<times> economic_link) list \<times> link_session" where
  "consume_layers env consumer ev unit remaining n [] s = Inr ([], s)"
| "consume_layers env consumer ev unit remaining n (y # ys) s =
     (if remaining \<le> 0 then Inr ([], s)
      else let x = min remaining (q_value (ly_quantity y))
           in if x \<le> 0 then consume_layers env consumer ev unit remaining n ys s
              else rbind (vpy (mk_quantity x unit)) (\<lambda>q.
                   rbind (consume_one env (ve_link_id env n) consumer ev y q s) (\<lambda>(c, s1).
                   rmap (\<lambda>(cs, s2). (c # cs, s2)) (consume_layers env consumer ev unit (dsub remaining x) (Suc n) ys s1))))"

definition layer_order :: "cost_method \<Rightarrow> cost_layer list \<Rightarrow> cost_layer list" where
  "layer_order meth ys =
     (if meth = COST_LIFO then sort_key (\<lambda>y. - lot_date (ly_lot y)) ys else sort_key (\<lambda>y. lot_date (ly_lot y)) ys)"

definition consume_with_method ::
    "valuation_env \<Rightarrow> artifact_ref \<Rightarrow> string \<Rightarrow> quantity \<Rightarrow> uuid \<Rightarrow> cost_method \<Rightarrow> string option \<Rightarrow> valuation_state
     \<Rightarrow> valuation_exc + consumption_result \<times> valuation_state" where
  "consume_with_method env consumer item q ev meth loc s =
     rbind (get_available_layers item loc None s) (\<lambda>ys.
       if ys = [] then Inl (InsufficientInventoryError item (q_value q) 0 (q_unit q))
       else let available = dsum (map (q_value \<circ> ly_quantity) ys)
            in if available < q_value q then Inl (InsufficientInventoryError item (q_value q) available (q_unit q))
               else rbind (consume_layers env consumer ev (q_unit q) (q_value q) 0 (layer_order meth ys) (vs_links s)) (\<lambda>(cs, ls).
                    rmap (\<lambda>r. (r, s\<lparr>vs_links := ls\<rparr>)) (vpy (mk_consumption_result consumer item meth (map fst cs) (map snd cs)))))"

definition consume_fifo ::
    "valuation_env \<Rightarrow> artifact_ref \<Rightarrow> string \<Rightarrow> quantity \<Rightarrow> uuid \<Rightarrow> string option \<Rightarrow> valuation_state
     \<Rightarrow> valuation_exc + consumption_result \<times> valuation_state" where
  "consume_fifo env consumer item q ev loc s = consume_with_method env consumer item q ev COST_FIFO loc s"

definition consume_lifo ::
    "valuation_env \<Rightarrow> artifact_ref \<Rightarrow> string \<Rightarrow> quantity \<Rightarrow> uuid \<Rightarrow> string option \<Rightarrow> valuation_state
     \<Rightarrow> valuation_exc + consumption_result \<times> valuation_state" where
  "consume_lifo env consumer item q ev loc s = consume_with_method env consumer item q ev COST_LIFO loc s"

definition consume_specific ::
    "valuation_env \<Rightarrow> artifact_ref \<Rightarrow> string \<Rightarrow> uuid \<Rightarrow> quantity \<Rightarrow> uuid \<Rightarrow> valuation_state
     \<Rightarrow> valuation_exc + consumption_result \<times> valuation_state" where
  "consume_specific env consumer item i q ev s =
     rbind (get_lot_by_item item i s) (\<lambda>l.
       case l of
         None \<Rightarrow> Inl (LotNotFoundError i item)
       | Some lot \<Rightarrow>
           rbind (get_available_layers item None None s) (\<lambda>ys.
             case find (\<lambda>y. lot_id (ly_lot y) = i) ys of
               None \<Rightarrow> Inl (LotDepletedError i item)
             | Some y \<Rightarrow>
                 if q_value (ly_quantity y) < q_value q
                 then Inl (InsufficientInventoryError item (q_value q) (q_value (ly_quantity y)) (q_unit q))
                 else rbind (consume_one env (ve_link_id env 0) consumer ev y q (vs_links s)) (\<lambda>((c, l), ls).
                      rmap (\<lambda>r. (r, s\<lparr>vs_links := ls\<rparr>)) (vpy (mk_consumption_result consumer item COST_SPECIFIC [c] [l])))))"

definition consume_at_standard ::
    "valuation_env \<Rightarrow> artifact_ref \<Rightarrow> string \<Rightarrow> quantity \<Rightarrow> uuid \<Rightarrow> string option \<Rightarrow> valuation_state
     \<Rightarrow> valuation_exc + standard_cost_result \<times> valuation_state" where
  "consume_at_standard env consumer item q ev loc s =
     (case vs_standard_costs s item of
        None \<Rightarrow> Inl (StandardCostNotFoundError item)
      | Some std \<Rightarrow>
          rbind (consume_with_method env consumer item q ev COST_STANDARD loc s) (\<lambda>(r, s').
          rbind (vpy (money_of (dmul (amount std) (q_value q)) (cur_code (currency std)))) (\<lambda>total.
          rmap (\<lambda>var. (\<lparr>sd_consumption = r, sd_standard_cost = total, sd_actual_cost = cn_cost r, sd_variance = var\<rparr>, s'))
            (vpy (money_of (dsub (amount total) (amount (cn_cost r))) (cur_code (currency std)))))))"

definition set_standard_cost :: "string \<Rightarrow> money \<Rightarrow> valuation_state \<Rightarrow> valuation_state" where
  "set_standard_cost item m s = s\<lparr>vs_standard_costs := (vs_standard_costs s)(item \<mapsto> m)\<rparr>"

definition get_standard_cost :: "string \<Rightarrow> valuation_state \<Rightarrow> money option" where
  "get_standard_cost item s = vs_standard_costs s item"

section \<open>One link\<close>

lemma vpy_simps [simp]: "vpy (Inr x) = Inr x" "vpy (Inl e) = Inl (ValPy e)" "vpy m = Inr y \<longleftrightarrow> m = Inr y"
  by (cases m; simp add: vpy_def)+

definition consumed_key :: "uuid \<Rightarrow> artifact_ref \<Rightarrow> link_type \<times> artifact_ref \<times> artifact_ref" where
  "consumed_key i consumer = (CONSUMED_BY, \<lparr>ar_type = A_COST_LOT, ar_id = i\<rparr>, consumer)"

lemma link_facts [simp]:
  "link_from_domain (consumption_link env i consumer ev c) = consumption_link env i consumer ev c"
  "link_key (consumption_link env i consumer ev c) = (CONSUMED_BY, lc_lot_ref c, consumer)"
  "el_parent_ref (consumption_link env i consumer ev c) = lc_lot_ref c"
  "el_link_type (consumption_link env i consumer ev c) = CONSUMED_BY"
  by (simp_all add: link_from_domain_def link_key_def consumption_link_def)

lemma consumption_link_amount:
  assumes "dfix (amount (lc_cost c)) = amount (lc_cost c)"
  shows "metadata_amount ''cost_consumed'' (consumption_link env i consumer ev c) = Inr (Some (amount (lc_cost c)))"
  by (simp add: metadata_amount_def consumption_link_def py_str_def decimal_text_reads [OF assms])

lemma consume_layer_Inr:
  assumes "consume_layer y q = Inr c"
  shows "lc_lot_ref c = lot_ref (ly_lot y)" "lc_lot_id c = lot_id (ly_lot y)" "lc_quantity c = q"
    "lot_unit_cost (ly_lot y) = Inr (lc_unit_cost c)" "amount (lc_cost c) = dmul (q_value q) (amount (lc_unit_cost c))"
  using assms by (auto simp: consume_layer_def rbind_eq_Inr rmap_eq_Inr ly_unit_cost_def money_of_def)

lemma consumed_fixed: "consume_layer y q = Inr c \<Longrightarrow> dfix (amount (lc_cost c)) = amount (lc_cost c)"
  using consume_layer_Inr(5) [of y q c] by (simp add: dmul_def)

lemma find_link_none:
  assumes "query_one (lv_one sv)"
  shows "find_existing_link sv l rows = Inr None \<longleftrightarrow> link_key l \<notin> link_key ` set rows"
proof -
  have "filter (\<lambda>r. el_link_type r = el_link_type l \<and> el_parent_ref r = el_parent_ref l \<and> el_child_ref r = el_child_ref l) rows = []
      \<longleftrightarrow> link_key l \<notin> link_key ` set rows"
    by (simp add: filter_empty_conv link_key_def image_iff) metis
  then show ?thesis
    by (simp add: find_existing_link_def find_existing_link_by_refs_def query_one.one_Inr_None [OF assms])
qed

text \<open>Establishing a link leaves the session alone when the relationship is stored, and appends the row otherwise.\<close>

lemma establish_cases:
  assumes "query_one (lv_one (ve_service env))" "set (lk_committed s) \<subseteq> set (lk_rows s)" "establish env l s = Inr (l', s')"
  obtains (stored) "link_key l \<in> link_key ` set (lk_rows s)" "s' = s"
  | (added) "link_key l \<notin> link_key ` set (lk_rows s)" "l' = l" "s' = s\<lparr>lk_rows := lk_rows s @ [link_from_domain l]\<rparr>"
proof (cases "link_key l \<in> link_key ` set (lk_rows s)")
  case True
  then obtain r where "find_existing_link (ve_service env) l (lk_rows s) \<noteq> Inr None" using find_link_none [OF assms(1)] by blast
  then have "s' = s" using assms(3) by (auto simp: establish_def establish_link_def split: sum.splits option.splits prod.splits)
  then show ?thesis using stored True by blast
next
  case False
  then have n: "find_existing_link (ve_service env) l (lk_rows s) = Inr None" using find_link_none [OF assms(1)] by blast
  have "link_key l \<notin> link_key ` set (lk_committed s)" using False assms(2) by blast
  then have c: "find_existing_link (ve_service env) l (lk_committed s) = Inr None" using find_link_none [OF assms(1)] by blast
  obtain r where p: "persist_link (ve_service env) [] l True s = (Inr r, s')" "l' = lr_link r"
    using assms(3) n by (auto simp: establish_def establish_link_def split: sum.splits option.splits prod.splits)
  then have "insert_link (link_from_domain l) (lk_rows s) = Inr (lk_rows s @ [link_from_domain l])"
    using c by (auto simp: persist_link_def insert_link_def Let_def split: if_splits)
  then have "l' = l" "s' = s\<lparr>lk_rows := lk_rows s @ [link_from_domain l]\<rparr>"
    using p by (auto simp: persist_link_def lr_success_def)
  then show ?thesis using added False by blast
qed

lemma consume_one_cases:
  assumes "query_one (lv_one (ve_service env))" "set (lk_committed s) \<subseteq> set (lk_rows s)"
    and "consume_one env i consumer ev y q s = Inr ((c, l), s')"
  shows "consume_layer y q = Inr c" "mk_economic_link (consumption_link env i consumer ev c) = Inr (consumption_link env i consumer ev c)"
    "if consumed_key (lot_id (ly_lot y)) consumer \<in> link_key ` set (lk_rows s) then s' = s
     else l = consumption_link env i consumer ev c \<and> s' = s\<lparr>lk_rows := lk_rows s @ [l]\<rparr>"
proof -
  let ?l = "consumption_link env i consumer ev c"
  from assms(3) show c: "consume_layer y q = Inr c" by (auto simp: consume_one_def rbind_eq_Inr rmap_eq_Inr)
  from assms(3) obtain l0 where m: "mk_economic_link ?l = Inr l0" "establish env l0 s = Inr (l, s')"
    by (auto simp: consume_one_def create_consumption_link_def rbind_eq_Inr rmap_eq_Inr c)
  then have "l0 = ?l" using mk_economic_link_Inr by blast
  then show "mk_economic_link ?l = Inr ?l" using m(1) by simp
  have k: "link_key ?l = consumed_key (lot_id (ly_lot y)) consumer"
    using consume_layer_Inr(1) [OF c] by (simp add: consumed_key_def lot_ref_def)
  show "if consumed_key (lot_id (ly_lot y)) consumer \<in> link_key ` set (lk_rows s) then s' = s
     else l = consumption_link env i consumer ev c \<and> s' = s\<lparr>lk_rows := lk_rows s @ [l]\<rparr>"
    using assms(1,2) m(2) [unfolded \<open>l0 = ?l\<close>]
    by (cases rule: establish_cases) (simp_all only: k link_facts(1) if_True if_False simp_thms)
qed

section \<open>The loop\<close>

lemma consume_layers_ConsE:
  assumes "consume_layers env consumer ev unit a n (y # ys) s = Inr (cs, s')"
  obtains (finished) "a \<le> 0" "cs = []" "s' = s"
  | (skipped) "0 < a" "q_value (ly_quantity y) \<le> 0" "consume_layers env consumer ev unit a n ys s = Inr (cs, s')"
  | (taken) q c l s1 cs' where "0 < a" "0 < q_value (ly_quantity y)" "q_value q = min a (q_value (ly_quantity y))"
      "consume_one env (ve_link_id env n) consumer ev y q s = Inr ((c, l), s1)" "consume_layer y q = Inr c" "lc_quantity c = q"
      "consume_layers env consumer ev unit (dsub a (q_value q)) (Suc n) ys s1 = Inr (cs', s')" "cs = (c, l) # cs'"
proof -
  define x where "x = min a (q_value (ly_quantity y))"
  consider "a \<le> 0" | "0 < a" "x \<le> 0" | "0 < a" "0 < x" by linarith
  then show ?thesis
  proof cases
    case 1
    then show ?thesis using assms finished by simp
  next
    case 2
    then have "q_value (ly_quantity y) \<le> 0" by (simp add: x_def min_def split: if_splits)
    moreover have "consume_layers env consumer ev unit a n ys s = Inr (cs, s')"
      using assms 2 unfolding consume_layers.simps x_def [symmetric] Let_def by simp
    ultimately show ?thesis using skipped 2(1) by blast
  next
    case 3
    from assms obtain q c l s1 cs' where q: "mk_quantity x unit = Inr q" "consume_one env (ve_link_id env n) consumer ev y q s = Inr ((c, l), s1)"
      "consume_layers env consumer ev unit (dsub a x) (Suc n) ys s1 = Inr (cs', s')" "cs = (c, l) # cs'"
      unfolding consume_layers.simps x_def [symmetric] Let_def using 3 by (auto simp: rbind_eq_Inr rmap_eq_Inr)
    have x: "q_value q = x" using q(1) by (auto simp: mk_quantity_def split: if_splits)
    have c: "consume_layer y q = Inr c" using q(2) by (auto simp: consume_one_def rbind_eq_Inr rmap_eq_Inr)
    have "0 < q_value (ly_quantity y)" using 3(2) by (simp add: x_def)
    then show ?thesis using taken 3(1) x q(2) c consume_layer_Inr(3) [OF c] q(3) [folded x] q(4) by (metis x_def)
  qed
qed

lemma consume_layers_rows:
  assumes "query_one (lv_one (ve_service env))" "set (lk_committed s) \<subseteq> set (lk_rows s)"
    and "consume_layers env consumer ev unit a n ys s = Inr (cs, s')" "distinct (map (lot_id \<circ> ly_lot) ys)"
    and "\<forall>y \<in> set ys. consumed_key (lot_id (ly_lot y)) consumer \<notin> link_key ` set (lk_rows s)"
  shows "s' = s\<lparr>lk_rows := lk_rows s @ map snd cs\<rparr>
    \<and> (\<forall>(c, l) \<in> set cs. \<exists>i. l = consumption_link env i consumer ev c \<and> mk_economic_link l = Inr l)
    \<and> distinct (map (lc_lot_id \<circ> fst) cs) \<and> (lc_lot_id \<circ> fst) ` set cs \<subseteq> (lot_id \<circ> ly_lot) ` set ys"
  using assms(2-)
proof (induction ys arbitrary: a n s cs)
  case (Cons y ys)
  from Cons.prems(2) show ?case
  proof (cases rule: consume_layers_ConsE)
    case finished
    then show ?thesis by simp
  next
    case skipped
    from Cons.IH [OF Cons.prems(1) skipped(3)] Cons.prems(3,4) show ?thesis by auto
  next
    case (taken q c l s1 cs')
    note one = consume_one_cases [OF assms(1) Cons.prems(1) taken(4)]
    have l: "l = consumption_link env (ve_link_id env n) consumer ev c" "s1 = s\<lparr>lk_rows := lk_rows s @ [l]\<rparr>"
      using one(3) Cons.prems(4) by simp_all
    have i: "lc_lot_id c = lot_id (ly_lot y)" "link_key l = consumed_key (lot_id (ly_lot y)) consumer"
      using consume_layer_Inr(1,2) [OF taken(5)] by (simp_all add: l(1) consumed_key_def lot_ref_def)
    have "\<forall>z \<in> set ys. consumed_key (lot_id (ly_lot z)) consumer \<notin> link_key ` set (lk_rows s1)"
      using Cons.prems(3,4) by (auto simp: l(2) i(2) consumed_key_def image_iff)
    moreover have "set (lk_committed s1) \<subseteq> set (lk_rows s1)" using Cons.prems(1) by (auto simp: l(2))
    ultimately have IH: "s' = s1\<lparr>lk_rows := lk_rows s1 @ map snd cs'\<rparr>
      \<and> (\<forall>(c, l) \<in> set cs'. \<exists>i. l = consumption_link env i consumer ev c \<and> mk_economic_link l = Inr l)
      \<and> distinct (map (lc_lot_id \<circ> fst) cs') \<and> (lc_lot_id \<circ> fst) ` set cs' \<subseteq> (lot_id \<circ> ly_lot) ` set ys"
      using Cons.prems(3) by (intro Cons.IH [OF _ taken(7)]) simp_all
    then have "lc_lot_id c \<notin> (lc_lot_id \<circ> fst) ` set cs'" using Cons.prems(3) i(1) by auto
    then show ?thesis using IH one(2) i(1) l by (auto simp: taken(8) comp_def)
  qed
qed simp

lemma consume_layers_stored:
  assumes "query_one (lv_one (ve_service env))" "set (lk_committed s) \<subseteq> set (lk_rows s)"
    and "consume_layers env consumer ev unit a n ys s = Inr (cs, s')"
    and "\<forall>y \<in> set ys. consumed_key (lot_id (ly_lot y)) consumer \<in> link_key ` set (lk_rows s)"
  shows "s' = s"
  using assms(3,4)
proof (induction ys arbitrary: a n cs)
  case (Cons y ys)
  from Cons.prems(1) show ?case
  proof (cases rule: consume_layers_ConsE)
    case (taken q c l s1 cs')
    have "s1 = s" using consume_one_cases(3) [OF assms(1,2) taken(4)] Cons.prems(2) by simp
    then show ?thesis using Cons.IH [OF taken(7) [unfolded \<open>s1 = s\<close>]] Cons.prems(2) by simp
  qed (use Cons in auto)
qed simp

text \<open>What is taken from each layer.\<close>

lemma consume_layers_taken:
  assumes "consume_layers env consumer ev unit a n ys s = Inr (cs, s')" "x \<in> set cs"
  shows "\<exists>y \<in> set ys. consume_layer y (lc_quantity (fst x)) = Inr (fst x) \<and> 0 < q_value (lc_quantity (fst x))
    \<and> q_value (lc_quantity (fst x)) \<le> q_value (ly_quantity y)"
  using assms
proof (induction ys arbitrary: a n s cs)
  case (Cons y ys)
  from Cons.prems(1) show ?case
  proof (cases rule: consume_layers_ConsE)
    case (taken q c l s1 cs')
    have "consume_layer y (lc_quantity c) = Inr c \<and> 0 < q_value (lc_quantity c) \<and> q_value (lc_quantity c) \<le> q_value (ly_quantity y)"
      using taken(1-3,5,6) by simp
    then show ?thesis using Cons.IH [OF taken(7)] Cons.prems(2) by (auto simp: taken(8))
  qed (use Cons in auto)
qed simp

lemma consume_layers_greedy:
  assumes "consume_layers env consumer ev unit a n ys s = Inr (cs, s')"
    and "0 \<le> a" "on_grid k a" "a * 10 ^ k < 10 ^ 28"
    and "\<forall>y \<in> set ys. 0 < q_value (ly_quantity y) \<and> on_grid k (q_value (ly_quantity y))"
  shows "map (q_value \<circ> lc_quantity \<circ> fst) cs = filter (\<lambda>x. 0 < x) (greedy a (map (Some \<circ> q_value \<circ> ly_quantity) ys))
    \<and> map (lc_lot_id \<circ> fst) cs = take (length cs) (map (lot_id \<circ> ly_lot) ys)"
  using assms
proof (induction ys arbitrary: a n s cs)
  case (Cons y ys)
  let ?es = "map (Some \<circ> q_value \<circ> ly_quantity) (y # ys)"
  from Cons.prems(1) show ?case
  proof (cases rule: consume_layers_ConsE)
    case finished
    then have "a = 0" using Cons.prems(2) by simp
    have "list_all (\<lambda>e. case e of None \<Rightarrow> True | Some z \<Rightarrow> 0 \<le> z) ?es"
      using Cons.prems(5) by (auto simp: list_all_iff less_imp_le)
    then have "greedy a ?es = replicate (length ?es) 0" unfolding \<open>a = 0\<close> by (rule greedy_zero)
    then show ?thesis using finished by (simp only:) simp
  next
    case skipped
    then show ?thesis using Cons.prems(5) by simp
  next
    case (taken q c l s1 cs')
    define x where "x = q_value q"
    have g: "greedy a ?es = x # greedy (a - x) (map (Some \<circ> q_value \<circ> ly_quantity) ys)"
      by (simp add: x_def taken(3) Let_def)
    have x: "0 < x" "x \<le> a" "on_grid k x" using taken(1-3) Cons.prems(3,5) by (auto simp: x_def min_def)
    have d: "dsub a x = a - x" using dsub_grid [OF Cons.prems(3) x(3) _ x(2) Cons.prems(4)] x(1) by simp
    have "(a - x) * 10 ^ k < 10 ^ 28"
      using x(1) by (intro le_less_trans [OF mult_right_mono Cons.prems(4)]) auto
    moreover have "0 \<le> a - x" "on_grid k (a - x)" using x Cons.prems(3) by auto
    moreover have "\<forall>y \<in> set ys. 0 < q_value (ly_quantity y) \<and> on_grid k (q_value (ly_quantity y))" using Cons.prems(5) by simp
    ultimately have IH: "map (q_value \<circ> lc_quantity \<circ> fst) cs' = filter (\<lambda>x. 0 < x) (greedy (a - x) (map (Some \<circ> q_value \<circ> ly_quantity) ys))
      \<and> map (lc_lot_id \<circ> fst) cs' = take (length cs') (map (lot_id \<circ> ly_lot) ys)"
      by (intro Cons.IH [OF taken(7) [folded x_def, unfolded d]])
    have "filter (\<lambda>x. 0 < x) (greedy a ?es) = x # filter (\<lambda>x. 0 < x) (greedy (a - x) (map (Some \<circ> q_value \<circ> ly_quantity) ys))"
      unfolding g using x(1) by simp
    then show ?thesis using IH
      by (simp only: taken(6,8) x_def list.map comp_def fst_conv length_Cons take_Suc_Cons consume_layer_Inr(2) [OF taken(5)] simp_thms)
  qed
qed simp

section \<open>Whole calls\<close>

lemma row_to_lot_fields: "row_to_lot r = Inr l \<Longrightarrow> lot_id l = rw_id r \<and> lot_item_id l = rw_item_id r \<and> 0 < q_value (lot_quantity l)"
  by (auto simp: row_to_lot_def mk_cost_lot_def rbind_eq_Inr split: if_splits)

lemma layer_of_lot_lot: "layer_of_lot rows l = Inr y \<Longrightarrow> ly_lot y = l"
  by (auto simp: layer_of_lot_def rbind_eq_Inr rmap_eq_Inr)

lemma list_all2_map_eq: "list_all2 (\<lambda>x y. R x y) xs ys \<Longrightarrow> (\<And>x y. R x y \<Longrightarrow> g y = f x) \<Longrightarrow> map g ys = map f xs"
  by (induction rule: list_all2_induct) auto

lemma available_layers_Inr:
  assumes "get_available_layers item loc d s = Inr ys" "distinct (map rw_id (vs_lots s))"
  shows "distinct (map (lot_id \<circ> ly_lot) ys)" "\<forall>y \<in> set ys. 0 < q_value (ly_quantity y)"
    "\<forall>y \<in> set ys. \<exists>r \<in> set (vs_lots s). rw_item_id r = item \<and> rw_id r = lot_id (ly_lot y)"
proof -
  let ?rows = "sort_key rw_lot_date (filter (\<lambda>r. rw_item_id r = item) (vs_lots s))"
  obtain ls zs where l: "rtraverse (\<lambda>r. vpy (row_to_lot r)) ?rows = Inr ls"
    and z: "rtraverse (layer_of_lot (lk_rows (vs_links s))) (filter (lot_wanted loc d) ls) = Inr zs" and ys: "ys = filter ly_is_available zs"
    using assms(1) by (auto simp: get_available_layers_def load_lots_for_item_def rbind_eq_Inr rmap_eq_Inr)
  have ids: "map lot_id ls = map rw_id ?rows"
    using l row_to_lot_fields by (intro list_all2_map_eq [where R = "\<lambda>r l. row_to_lot r = Inr l"]) (simp_all add: rtraverse_Inr)
  have lots: "map ly_lot zs = filter (lot_wanted loc d) ls"
    using z layer_of_lot_lot
    by (intro list_all2_map_eq [where f = "\<lambda>x. x" and R = "\<lambda>l y. layer_of_lot (lk_rows (vs_links s)) l = Inr y", simplified]) (simp_all add: rtraverse_Inr)
  have "distinct (map rw_id (filter (\<lambda>r. rw_item_id r = item) (vs_lots s)))" using assms(2) by (simp add: distinct_map_filter)
  then have "distinct (map rw_id ?rows)" by (metis distinct_map distinct_sort set_sort)
  then have d: "distinct (map lot_id (map ly_lot zs))" unfolding lots ids [symmetric] by (rule distinct_map_filter)
  then show "distinct (map (lot_id \<circ> ly_lot) ys)" by (simp add: ys distinct_map_filter)
  show "\<forall>y \<in> set ys. 0 < q_value (ly_quantity y)" by (simp add: ys ly_is_available_def)
  show "\<forall>y \<in> set ys. \<exists>r \<in> set (vs_lots s). rw_item_id r = item \<and> rw_id r = lot_id (ly_lot y)"
  proof
    fix y assume "y \<in> set ys"
    then have "ly_lot y \<in> set (map ly_lot zs)" by (simp add: ys)
    then have "ly_lot y \<in> set ls" unfolding lots by simp
    then have "lot_id (ly_lot y) \<in> set (map rw_id ?rows)" unfolding ids [symmetric] by simp
    then show "\<exists>r \<in> set (vs_lots s). rw_item_id r = item \<and> rw_id r = lot_id (ly_lot y)" by auto
  qed
qed

lemma layer_order_facts [simp]: "set (layer_order meth ys) = set ys" "mset (layer_order meth ys) = mset ys"
  by (simp_all add: layer_order_def)

lemma layer_order_distinct: "distinct (map f (layer_order meth ys)) \<longleftrightarrow> distinct (map f ys)"
  by (metis layer_order_facts(2) mset_map mset_eq_imp_distinct_iff)

lemma consume_with_method_Inr:
  assumes "consume_with_method env consumer item q ev meth loc s = Inr (r, s')"
  obtains ys cs ls where "get_available_layers item loc None s = Inr ys" "q_value q \<le> dsum (map (q_value \<circ> ly_quantity) ys)"
    "consume_layers env consumer ev (q_unit q) (q_value q) 0 (layer_order meth ys) (vs_links s) = Inr (cs, ls)"
    "s' = s\<lparr>vs_links := ls\<rparr>" "cn_layers r = map fst cs" "cs \<noteq> []" "q_value (cn_quantity r) = dsum (map (q_value \<circ> lc_quantity) (map fst cs))"
    "0 < q_value q"
proof -
  from assms obtain ys where ys: "get_available_layers item loc None s = Inr ys" by (auto simp: consume_with_method_def rbind_eq_Inr)
  with assms have le: "q_value q \<le> dsum (map (q_value \<circ> ly_quantity) ys)"
    by (auto simp: consume_with_method_def Let_def not_less split: if_splits)
  with assms ys obtain cs ls where c: "consume_layers env consumer ev (q_unit q) (q_value q) 0 (layer_order meth ys) (vs_links s) = Inr (cs, ls)"
    and r: "mk_consumption_result consumer item meth (map fst cs) (map snd cs) = Inr r" "s' = s\<lparr>vs_links := ls\<rparr>"
    by (auto simp: consume_with_method_def Let_def rbind_eq_Inr rmap_eq_Inr split: if_splits)
  have ne: "cs \<noteq> []" using r(1) by (auto simp: mk_consumption_result_def)
  moreover have "0 < q_value q"
  proof (rule ccontr)
    assume "\<not> 0 < q_value q"
    then have "cs = []" using c by (cases "layer_order meth ys") auto
    then show False using ne by simp
  qed
  moreover have "cn_layers r = map fst cs" "q_value (cn_quantity r) = dsum (map (q_value \<circ> lc_quantity) (map fst cs))"
    using r(1) by (auto simp: mk_consumption_result_def mk_quantity_def rbind_eq_Inr split: list.splits if_splits)
  ultimately show ?thesis using that ys le c r(2) by blast
qed

section \<open>When a consumption returns\<close>

definition sound_lot :: "cost_lot \<Rightarrow> bool" where
  "sound_lot l \<longleftrightarrow> 0 < q_value (lot_quantity l) \<and> strip (q_unit (lot_quantity l)) \<noteq> [] \<and> wf_currency (currency (lot_cost l))"

lemma mk_quantity_total: "strip u \<noteq> [] \<Longrightarrow> mk_quantity v u = Inr \<lparr>q_value = v, q_unit = strip u\<rparr>"
proof -
  assume "strip u \<noteq> []"
  moreover have "strip [] = []" by code_simp
  ultimately show ?thesis by (auto simp: mk_quantity_def)
qed

lemma quantity_unit_kept: "mk_quantity v u = Inr q \<Longrightarrow> strip (q_unit q) \<noteq> []"
  by (auto simp: mk_quantity_def split: if_splits)

lemma rtraverse_source: "rtraverse f xs = Inr ys \<Longrightarrow> y \<in> set ys \<Longrightarrow> \<exists>x \<in> set xs. f x = Inr y"
  by (induction xs arbitrary: ys) (auto simp: rbind_eq_Inr rmap_eq_Inr)

lemma available_layers_sound:
  assumes "get_available_layers item loc d s = Inr ys" "y \<in> set ys"
  shows "sound_lot (ly_lot y) \<and> strip (q_unit (ly_quantity y)) \<noteq> []"
proof -
  obtain ls zs where l: "rtraverse (\<lambda>r. vpy (row_to_lot r)) (sort_key rw_lot_date (filter (\<lambda>r. rw_item_id r = item) (vs_lots s))) = Inr ls"
    and z: "rtraverse (layer_of_lot (lk_rows (vs_links s))) (filter (lot_wanted loc d) ls) = Inr zs" and ys: "y \<in> set zs"
    using assms by (auto simp: get_available_layers_def load_lots_for_item_def rbind_eq_Inr rmap_eq_Inr)
  from z ys obtain x where x: "x \<in> set ls" "layer_of_lot (lk_rows (vs_links s)) x = Inr y"
    using rtraverse_source by fastforce
  then obtain r where "row_to_lot r = Inr x" using rtraverse_source [OF l] by auto
  then have "sound_lot x"
    by (auto simp: sound_lot_def row_to_lot_def mk_cost_lot_def rbind_eq_Inr money_of_def rmap_eq_Inr
        dest: wf_mk_currency quantity_unit_kept split: if_splits)
  moreover from x(2) obtain k q v n where "mk_quantity k (q_unit (lot_quantity x)) = Inr q"
    "y = \<lparr>ly_lot = x, ly_quantity = q, ly_value = v, ly_count = n\<rparr>"
    by (auto simp: layer_of_lot_def rbind_eq_Inr rmap_eq_Inr)
  ultimately show ?thesis using quantity_unit_kept by simp
qed

lemma consume_layer_total:
  assumes "sound_lot (ly_lot y)" "strip (q_unit (ly_quantity y)) \<noteq> []"
  shows "\<exists>c. consume_layer y q = Inr c \<and> wf_currency (currency (lc_cost c))"
proof -
  have "0 < q_value (lot_quantity (ly_lot y))" "wf_currency (currency (lot_cost (ly_lot y)))" using assms(1) by (simp_all add: sound_lot_def)
  then obtain u where "lot_unit_cost (ly_lot y) = Inr u" "wf_currency (currency u)"
    by (simp add: lot_unit_cost_def ddiv_def money_of_wf_code)
  then show ?thesis by (simp add: consume_layer_def ly_unit_cost_def money_of_wf_code mk_quantity_total [OF assms(2)])
qed

text \<open>The artifacts a CONSUMED\_BY link may lead to, and the link tables that the link service writes.\<close>

definition may_consume :: "artifact_ref \<Rightarrow> bool" where
  "may_consume consumer \<longleftrightarrow> ar_type consumer \<in> {A_EVENT, A_SHIPMENT, A_INVENTORY_ADJUSTMENT}"

definition sound_links :: "link_session \<Rightarrow> bool" where
  "sound_links s \<longleftrightarrow> valid_rows (lk_rows s) \<and> distinct (map link_key (lk_rows s)) \<and> set (lk_committed s) \<subseteq> set (lk_rows s)"

lemma consumption_link_valid:
  assumes "lc_lot_ref c = lot_ref x"
  shows "mk_economic_link (consumption_link env i consumer ev c)
       = (if may_consume consumer then Inr (consumption_link env i consumer ev c) else Inl ValueError)"
  using assms by (auto simp: may_consume_def mk_economic_link_def consumption_link_def mk_spec_def spec_validate_def lot_ref_def)

lemma consumer_childless:
  assumes "valid_rows rows" "may_consume consumer"
  shows "child_refs CONSUMED_BY rows consumer = []"
proof -
  have "el_parent_ref l \<noteq> consumer" if "l \<in> set rows" "el_link_type l = CONSUMED_BY" for l
  proof -
    have "mk_economic_link l = Inr l" using assms(1) that(1) by (simp add: valid_rows_def list_all_iff)
    then have "ar_type (el_parent_ref l) = A_COST_LOT"
      using that(2) by (auto simp: mk_economic_link_def mk_spec_def spec_validate_def split: if_splits)
    then show ?thesis using assms(2) by (auto simp: may_consume_def)
  qed
  then show ?thesis by (auto simp: child_refs_def filter_empty_conv of_types_def)
qed

lemma establish_total:
  assumes "query_one (lv_one (ve_service env))" "1 < lv_limit (ve_service env)" "sound_links s"
    and "mk_economic_link l = Inr l" "link_from_domain l = l" "el_link_type l = CONSUMED_BY" "may_consume (el_child_ref l)"
    and "el_link_id l \<notin> el_link_id ` set (lk_rows s)"
  shows "\<exists>l' s'. establish env l s = Inr (l', s') \<and> (s' = s \<or> s' = s\<lparr>lk_rows := lk_rows s @ [l]\<rparr>) \<and> sound_links s'"
proof (cases "link_key l \<in> link_key ` set (lk_rows s)")
  case True
  then obtain r where r: "r \<in> set (lk_rows s)" "link_key r = link_key l" by (metis imageE)
  have d: "distinct (map link_key (lk_rows s))" and v: "mk_economic_link r = Inr r" using assms(3) r(1) by (simp_all add: sound_links_def valid_rows_def list_all_iff)
  have "filter (\<lambda>x. el_link_type x = el_link_type l \<and> el_parent_ref x = el_parent_ref l \<and> el_child_ref x = el_child_ref l) (lk_rows s)
      = filter (\<lambda>x. link_key x = link_key r) (lk_rows s)"
    by (rule filter_cong) (auto simp: r(2), simp_all add: link_key_def)
  also have "\<dots> = [r]" using filter_unique_key [OF d, of "link_key r"] r(1) d
    by (auto simp: find_None_iff find_Some_iff distinct_map inj_on_def split: option.splits)
  finally have "find_existing_link (ve_service env) l (lk_rows s) = Inr (Some r)"
    using query_one.one_single [OF assms(1)] by (simp add: find_existing_link_def find_existing_link_by_refs_def)
  then show ?thesis using assms(3) v by (simp add: establish_def establish_link_def link_to_domain_def)
next
  case False
  have n: "find_existing_link (ve_service env) l (lk_rows s) = Inr None" using False find_link_none [OF assms(1)] by blast
  have v: "valid_rows (lk_rows s)" using assms(3) by (simp add: sound_links_def)
  note c = consumer_childless [OF v assms(7)]
  have ne: "el_child_ref l \<noteq> el_parent_ref l" using assms(4) by (auto simp: mk_economic_link_def)
  obtain k where "lv_limit (ve_service env) = Suc (Suc k)" using assms(2) by (metis One_nat_def less_natE add_Suc_right add_Suc)
  then have "detect_cycle (ve_service env) l (lk_rows s) = Inr None"
    by (simp add: detect_cycle_search [OF v] assms(6) c ne can_reach.simps(2))
  moreover have "max_children_error l (lk_rows s) = None" by (simp add: max_children_error_def assms(6) mk_spec_def)
  moreover have "insert_link l (lk_rows s) = Inr (lk_rows s @ [l])"
    using False assms(8) by (auto simp: insert_link_def list_ex_iff image_iff)
  ultimately have "establish env l s = Inr (l, s\<lparr>lk_rows := lk_rows s @ [l]\<rparr>)"
    by (simp add: establish_def establish_link_def n persist_link_def assms(5) lr_success_def)
  moreover have "sound_links (s\<lparr>lk_rows := lk_rows s @ [l]\<rparr>)"
    using assms(3,4) False by (auto simp: sound_links_def valid_rows_def)
  ultimately show ?thesis by blast
qed

lemma fresh_insert: "x \<notin> A \<Longrightarrow> B \<subseteq> insert x C \<Longrightarrow> A \<subseteq> D \<Longrightarrow> D \<inter> C = {} \<Longrightarrow> A \<inter> B = {}"
  by blast

lemma consume_layers_total:
  assumes "query_one (lv_one (ve_service env))" "1 < lv_limit (ve_service env)" "strip unit \<noteq> []"
    and "may_consume consumer" "sound_links s" "\<forall>y \<in> set ys. sound_lot (ly_lot y) \<and> strip (q_unit (ly_quantity y)) \<noteq> []"
    and "ve_link_id env ` {n..<n + length ys} \<inter> el_link_id ` set (lk_rows s) = {}" "inj_on (ve_link_id env) {n..<n + length ys}"
  shows "\<exists>cs s'. consume_layers env consumer ev unit a n ys s = Inr (cs, s')
    \<and> (\<forall>x \<in> set cs. strip (q_unit (lc_quantity (fst x))) \<noteq> [] \<and> wf_currency (currency (lc_cost (fst x))))"
  using assms(5-)
proof (induction ys arbitrary: a n s)
  case (Cons y ys)
  have sub: "{Suc n..<Suc n + length ys} \<subseteq> {n..<n + length (y # ys)}" "n \<in> {n..<n + length (y # ys)}" "n \<notin> {Suc n..<Suc n + length ys}" by auto
  have rest: "\<forall>y \<in> set ys. sound_lot (ly_lot y) \<and> strip (q_unit (ly_quantity y)) \<noteq> []" using Cons.prems(2) by simp
  define x where "x = min a (q_value (ly_quantity y))"
  consider "a \<le> 0" | "0 < a" "x \<le> 0" | "0 < a" "0 < x" by linarith
  then show ?case
  proof cases
    case 1
    then show ?thesis by simp
  next
    case 2
    have "{n..<n + length ys} \<subseteq> {n..<n + length (y # ys)}" by auto
    then have "ve_link_id env ` {n..<n + length ys} \<inter> el_link_id ` set (lk_rows s) = {}" "inj_on (ve_link_id env) {n..<n + length ys}"
      using Cons.prems(3,4) by (blast, blast intro: inj_on_subset)
    from Cons.IH [OF Cons.prems(1) rest this, of a] show ?thesis
      unfolding consume_layers.simps x_def [symmetric] Let_def using 2 by simp
  next
    case 3
    obtain q where q: "mk_quantity x unit = Inr q" "strip (q_unit q) \<noteq> []" using mk_quantity_total [OF assms(3)] assms(3) by auto
    obtain c where c: "consume_layer y q = Inr c" "wf_currency (currency (lc_cost c))" using consume_layer_total Cons.prems(2) by (meson list.set_intros(1))
    let ?l = "consumption_link env (ve_link_id env n) consumer ev c"
    have v: "mk_economic_link ?l = Inr ?l"
      using consumption_link_valid [OF consume_layer_Inr(1) [OF c(1)]] assms(4) by simp
    have id: "el_link_id ?l = ve_link_id env n" "el_child_ref ?l = consumer" by (simp_all add: consumption_link_def)
    have child: "may_consume (el_child_ref ?l)" using assms(4) by (simp add: id(2))
    have "el_link_id ?l \<notin> el_link_id ` set (lk_rows s)" using Cons.prems(3) sub(2) unfolding id by blast
    from establish_total [OF assms(1,2) Cons.prems(1) v link_facts(1,4) child this]
    obtain l' s1 where e: "establish env ?l s = Inr (l', s1)" "s1 = s \<or> s1 = s\<lparr>lk_rows := lk_rows s @ [?l]\<rparr>" "sound_links s1" by blast
    have one: "consume_one env (ve_link_id env n) consumer ev y q s = Inr ((c, l'), s1)"
      by (simp add: consume_one_def create_consumption_link_def c(1) v e(1))
    have "ve_link_id env n \<notin> ve_link_id env ` {Suc n..<Suc n + length ys}"
      using inj_on_image_mem_iff [OF Cons.prems(4) sub(2,1)] sub(3) by blast
    moreover have "el_link_id ` set (lk_rows s1) \<subseteq> insert (ve_link_id env n) (el_link_id ` set (lk_rows s))" using e(2) id(1) by auto
    moreover have "ve_link_id env ` {Suc n..<Suc n + length ys} \<subseteq> ve_link_id env ` {n..<n + length (y # ys)}" by (rule image_mono [OF sub(1)])
    ultimately have "ve_link_id env ` {Suc n..<Suc n + length ys} \<inter> el_link_id ` set (lk_rows s1) = {}"
      using Cons.prems(3) by (rule fresh_insert)
    from Cons.IH [OF e(3) rest this inj_on_subset [OF Cons.prems(4) sub(1)], of "dsub a x"]
    obtain cs s' where r: "consume_layers env consumer ev unit (dsub a x) (Suc n) ys s1 = Inr (cs, s')"
      "\<forall>x \<in> set cs. strip (q_unit (lc_quantity (fst x))) \<noteq> [] \<and> wf_currency (currency (lc_cost (fst x)))" by blast
    have "consume_layers env consumer ev unit a n (y # ys) s = Inr ((c, l') # cs, s')"
    proof -
      have "\<not> a \<le> 0" "\<not> x \<le> 0" using 3 by simp_all
      then show ?thesis unfolding consume_layers.simps x_def [symmetric] Let_def
        by (simp only: if_False q(1) vpy_simps(1) one r(1) rbind.simps rmap.simps prod.case)
    qed
    then show ?thesis using r(2) q(2) c(2) consume_layer_Inr(3) [OF c(1)] by simp
  qed
qed simp

lemma consume_layers_refused:
  assumes "\<not> may_consume consumer" "0 < a" "0 < q_value (ly_quantity y)" "strip unit \<noteq> []"
    and "sound_lot (ly_lot y)" "strip (q_unit (ly_quantity y)) \<noteq> []"
  shows "consume_layers env consumer ev unit a n (y # ys) s = Inl (ValPy ValueError)"
proof -
  let ?x = "min a (q_value (ly_quantity y))"
  obtain q where q: "mk_quantity ?x unit = Inr q" using mk_quantity_total [OF assms(4)] by blast
  obtain c where c: "consume_layer y q = Inr c" using consume_layer_total [OF assms(5,6)] by blast
  have "consume_one env (ve_link_id env n) consumer ev y q s = Inl (ValPy ValueError)"
    using consumption_link_valid [OF consume_layer_Inr(1) [OF c]] assms(1)
    by (simp add: consume_one_def create_consumption_link_def c)
  moreover have "\<not> a \<le> 0" "\<not> ?x \<le> 0" using assms(2,3) by auto
  ultimately show ?thesis unfolding consume_layers.simps Let_def by (simp only: if_False q vpy_simps(1) rbind.simps)
qed

lemma available_layers_length: "get_available_layers item loc d s = Inr ys \<Longrightarrow> length ys \<le> length (vs_lots s)"
proof -
  assume "get_available_layers item loc d s = Inr ys"
  then obtain ls zs where z: "rtraverse (\<lambda>r. vpy (row_to_lot r)) (sort_key rw_lot_date (filter (\<lambda>r. rw_item_id r = item) (vs_lots s))) = Inr ls"
      "rtraverse (layer_of_lot (lk_rows (vs_links s))) (filter (lot_wanted loc d) ls) = Inr zs" "ys = filter ly_is_available zs"
    by (auto simp: get_available_layers_def load_lots_for_item_def rbind_eq_Inr rmap_eq_Inr)
  have "length ys \<le> length zs" "length zs \<le> length ls" "length ls \<le> length (vs_lots s)"
    using z(2) [unfolded rtraverse_Inr, THEN list_all2_lengthD] z(1) [unfolded rtraverse_Inr, THEN list_all2_lengthD]
      length_filter_le [of "lot_wanted loc d" ls] length_filter_le [of "\<lambda>r. rw_item_id r = item" "vs_lots s"]
    by (simp_all add: z(3))
  then show ?thesis by simp
qed

lemma consume_with_method_total:
  assumes "query_one (lv_one (ve_service env))" "1 < lv_limit (ve_service env)" "sound_links (vs_links s)" "may_consume consumer"
    and "get_available_layers item loc None s = Inr ys" "distinct (map rw_id (vs_lots s))" "0 < q_value q" "strip (q_unit q) \<noteq> []"
    and "ve_link_id env ` {0..<length ys} \<inter> el_link_id ` set (lk_rows (vs_links s)) = {}" "inj_on (ve_link_id env) {0..<length ys}"
    and "q_value q \<le> dsum (map (q_value \<circ> ly_quantity) ys)" "ys \<noteq> []"
  shows "\<exists>r s'. consume_with_method env consumer item q ev meth loc s = Inr (r, s')"
proof -
  let ?zs = "layer_order meth ys"
  have len: "length ?zs = length ys" by (metis layer_order_facts(2) size_mset)
  have sound: "\<forall>y \<in> set ?zs. sound_lot (ly_lot y) \<and> strip (q_unit (ly_quantity y)) \<noteq> []"
    using available_layers_sound [OF assms(5)] by simp
  obtain cs ls where c: "consume_layers env consumer ev (q_unit q) (q_value q) 0 ?zs (vs_links s) = Inr (cs, ls)"
    "\<forall>x \<in> set cs. strip (q_unit (lc_quantity (fst x))) \<noteq> [] \<and> wf_currency (currency (lc_cost (fst x)))"
    using consume_layers_total [OF assms(1,2,8,4,3) sound, of 0 ev "q_value q"] assms(9,10) by (auto simp: len)
  obtain z zs where z: "?zs = z # zs" using len assms(12) by (cases ?zs) auto
  then have "z \<in> set ys" by (metis layer_order_facts(1) list.set_intros(1))
  then have "0 < q_value (ly_quantity z)" using available_layers_Inr(2) [OF assms(5,6)] by blast
  then have n: "\<not> q_value (ly_quantity z) \<le> 0" "\<not> q_value q \<le> 0" using assms(7) by simp_all
  have "cs \<noteq> []" by (rule consume_layers_ConsE [OF c(1) [unfolded z]]) (use n in blast)+
  then obtain x cs' where x: "cs = x # cs'" by (cases cs) auto
  have "strip (q_unit (lc_quantity (fst x))) \<noteq> []" "wf_currency (currency (lc_cost (fst x)))" using c(2) by (simp_all add: x)
  then obtain r where "mk_consumption_result consumer item meth (map fst cs) (map snd cs) = Inr r"
    by (auto simp: mk_consumption_result_def x mk_quantity_total money_of_wf_code)
  then have "consume_with_method env consumer item q ev meth loc s = Inr (r, s\<lparr>vs_links := ls\<rparr>)"
    using assms(11,12) c(1) by (simp add: consume_with_method_def assms(5) Let_def not_less)
  then show ?thesis by blast
qed

lemma consume_with_method_refused:
  assumes "q_value q \<le> 0 \<or> \<not> may_consume consumer"
    and "get_available_layers item loc None s = Inr ys" "distinct (map rw_id (vs_lots s))" "strip (q_unit q) \<noteq> []"
    and "q_value q \<le> dsum (map (q_value \<circ> ly_quantity) ys)" "ys \<noteq> []"
  shows "consume_with_method env consumer item q ev meth loc s = Inl (ValPy ValueError)"
proof -
  let ?zs = "layer_order meth ys"
  have "mset ?zs \<noteq> {#}" using assms(6) by simp
  then obtain z zs where z: "?zs = z # zs" by (cases ?zs) auto
  then have in_ys: "z \<in> set ys" by (metis layer_order_facts(1) list.set_intros(1))
  then have zq: "0 < q_value (ly_quantity z)" using available_layers_Inr(2) [OF assms(2,3)] by blast
  have "consume_layers env consumer ev (q_unit q) (q_value q) 0 ?zs (vs_links s) = Inl (ValPy ValueError) \<or>
      consume_layers env consumer ev (q_unit q) (q_value q) 0 ?zs (vs_links s) = Inr ([], vs_links s)"
  proof (cases "q_value q \<le> 0")
    case True
    then show ?thesis by (simp add: z)
  next
    case False
    then show ?thesis
      using assms(1) consume_layers_refused [OF _ _ zq assms(4)] available_layers_sound [OF assms(2) in_ys] by (simp add: z)
  qed
  then show ?thesis
    using assms(5,6) by (auto simp: consume_with_method_def assms(2) Let_def not_less mk_consumption_result_def)
qed

lemma greedy_grid:
  "on_grid k a \<Longrightarrow> list_all (\<lambda>e. case e of None \<Rightarrow> True | Some y \<Rightarrow> on_grid k y) es \<Longrightarrow> list_all (on_grid k) (greedy a es)"
proof (induction es arbitrary: a)
  case (Cons e es)
  define x where "x = (case e of None \<Rightarrow> a | Some y \<Rightarrow> min a y)"
  have "on_grid k x" using Cons.prems by (auto simp: x_def min_def split: option.split)
  moreover have "greedy a (e # es) = x # greedy (a - x) es" by (simp add: x_def Let_def)
  moreover have "on_grid k (a - x)" using Cons.prems(1) \<open>on_grid k x\<close> by blast
  ultimately show ?case using Cons.IH [of "a - x"] Cons.prems(2) by simp
qed simp

section \<open>Two lots\<close>

definition demo_valuation_env :: valuation_env where
  "demo_valuation_env = \<lparr>ve_service = demo_service, ve_now = 40, ve_link_id = of_nat\<rparr>"

definition demo_lot_row :: "nat \<Rightarrow> int \<Rightarrow> decimal \<Rightarrow> lot_row" where
  "demo_lot_row n d cost =
     \<lparr>rw_id = of_nat n, rw_item_id = ''bolt'', rw_location_id = None, rw_lot_date = d, rw_quantity = 10, rw_quantity_unit = ''EA'',
      rw_cost = cost, rw_currency = ''USD'', rw_method = COST_FIFO, rw_source_event_id = 90, rw_source_type = A_RECEIPT,
      rw_source_id = 80, rw_created_at = 1, rw_metadata = None\<rparr>"

definition demo_lot :: "nat \<Rightarrow> int \<Rightarrow> decimal \<Rightarrow> cost_lot" where
  "demo_lot n d cost =
     \<lparr>lot_id = of_nat n, lot_item_id = ''bolt'', lot_location_id = None, lot_date = d, lot_quantity = \<lparr>q_value = 10, q_unit = ''EA''\<rparr>,
      lot_cost = \<lparr>amount = cost, currency = Currency ''USD''\<rparr>, lot_method = COST_FIFO,
      lot_source_ref = \<lparr>ar_type = A_RECEIPT, ar_id = 80\<rparr>, lot_metadata = None\<rparr>"

definition demo_valuation :: valuation_state where
  "demo_valuation = \<lparr>vs_lots = [demo_lot_row 1 5 800, demo_lot_row 2 3 500], vs_links = empty_links, vs_standard_costs = Map.empty\<rparr>"

definition demo_shipment :: artifact_ref where
  "demo_shipment = demo_ref A_SHIPMENT 30"

definition demo_bolts :: "nat \<Rightarrow> quantity" where
  "demo_bolts n = \<lparr>q_value = of_nat n, q_unit = ''EA''\<rparr>"

lemma demo_layers: "get_available_layers ''bolt'' None None demo_valuation = Inr [full_layer (demo_lot 2 3 500), full_layer (demo_lot 1 5 800)]"
  by code_simp

lemma demo_lots_distinct: "distinct (map rw_id (vs_lots demo_valuation))"
  by (simp add: demo_valuation_def demo_lot_row_def)

lemma demo_service_one: "query_one (lv_one (ve_service demo_valuation_env))"
  by (simp add: demo_valuation_env_def demo_service_def soon.query_one_axioms)

lemma demo_lots_exact: "exact_terms 0 (map (q_value \<circ> ly_quantity) [full_layer (demo_lot 2 3 500), full_layer (demo_lot 1 5 800)])"
  using on_grid_ops(6) [of 0 10] by (simp add: exact_terms_def full_layer_def demo_lot_def)

lemma demo_available: "dsum (map (q_value \<circ> ly_quantity) [full_layer (demo_lot 2 3 500), full_layer (demo_lot 1 5 800)]) = 20"
  unfolding dsum_exact [OF demo_lots_exact] by (simp add: full_layer_def demo_lot_def)

lemma demo_consumed: "\<exists>r s'. consume_with_method demo_valuation_env demo_shipment ''bolt'' (demo_bolts 15) 91 meth None demo_valuation = Inr (r, s')"
proof -
  have "strip ''EA'' \<noteq> []" by code_simp
  moreover have "sound_links (vs_links demo_valuation)" "may_consume demo_shipment"
    by (simp_all add: sound_links_def demo_valuation_def empty_links_def valid_rows_def may_consume_def demo_shipment_def demo_ref_def)
  moreover have "lk_rows (vs_links demo_valuation) = []" by (simp add: demo_valuation_def empty_links_def)
  moreover have "inj_on (ve_link_id demo_valuation_env) {0..<2}"
    by (auto simp: inj_on_def demo_valuation_env_def numeral_2_eq_2 less_Suc_eq)
  ultimately show ?thesis
    using consume_with_method_total [OF demo_service_one _ _ _ demo_layers demo_lots_distinct, of demo_shipment "demo_bolts 15" 91 meth]
    unfolding demo_available by (simp add: demo_bolts_def demo_valuation_env_def demo_service_def numeral_2_eq_2)
qed

section \<open>Properties\<close>

text \<open>
  Property C23. How a consumption answers, on every branch: it passes on an error met in reading the layers; without a layer, or
  when the available ones add up to less than the quantity, it raises InsufficientInventoryError with the two figures; else a
  quantity that is not positive (no layer is consumed) or a consumer of a type to which no CONSUMED\_BY link may lead raises
  ValueError; and in every other case it returns. This is for a quantity with a unit, lots with unique
  identifiers, new link identifiers, at least two levels of recursion, and a link table of valid links with unique
  keys whose committed rows it contains.
\<close>

theorem consumption_answers:
  assumes "query_one (lv_one (ve_service env))" "1 < lv_limit (ve_service env)" "sound_links (vs_links s)"
    and "distinct (map rw_id (vs_lots s))" "strip (q_unit q) \<noteq> []"
    and "ve_link_id env ` {0..<length (vs_lots s)} \<inter> el_link_id ` set (lk_rows (vs_links s)) = {}"
    and "inj_on (ve_link_id env) {0..<length (vs_lots s)}"
  shows "case get_available_layers item loc None s of
      Inl e \<Rightarrow> consume_with_method env consumer item q ev meth loc s = Inl e
    | Inr ys \<Rightarrow>
        if ys = [] then consume_with_method env consumer item q ev meth loc s = Inl (InsufficientInventoryError item (q_value q) 0 (q_unit q))
        else if dsum (map (q_value \<circ> ly_quantity) ys) < q_value q
        then consume_with_method env consumer item q ev meth loc s
           = Inl (InsufficientInventoryError item (q_value q) (dsum (map (q_value \<circ> ly_quantity) ys)) (q_unit q))
        else if q_value q \<le> 0 \<or> \<not> may_consume consumer
        then consume_with_method env consumer item q ev meth loc s = Inl (ValPy ValueError)
        else \<exists>r s'. consume_with_method env consumer item q ev meth loc s = Inr (r, s')"
proof (cases "get_available_layers item loc None s")
  case (Inl e)
  then show ?thesis by (simp add: consume_with_method_def)
next
  case (Inr ys)
  have "{0..<length ys} \<subseteq> {0..<length (vs_lots s)}" using available_layers_length [OF Inr] by auto
  then have ids: "ve_link_id env ` {0..<length ys} \<inter> el_link_id ` set (lk_rows (vs_links s)) = {}" "inj_on (ve_link_id env) {0..<length ys}"
    using assms(6,7) by (blast, blast intro: inj_on_subset)
  have "consume_with_method env consumer item q ev meth loc s = Inl (InsufficientInventoryError item (q_value q) 0 (q_unit q))" if "ys = []"
    using that by (simp add: consume_with_method_def Inr)
  moreover have "consume_with_method env consumer item q ev meth loc s
      = Inl (InsufficientInventoryError item (q_value q) (dsum (map (q_value \<circ> ly_quantity) ys)) (q_unit q))"
    if "ys \<noteq> []" "dsum (map (q_value \<circ> ly_quantity) ys) < q_value q"
    using that by (simp add: consume_with_method_def Inr Let_def)
  ultimately show ?thesis
    using consume_with_method_total [OF assms(1-3) _ Inr assms(4) _ assms(5) ids] consume_with_method_refused [OF _ Inr assms(4,5)]
    by (auto simp: Inr not_less not_le)
qed

theorem consumption_answers_witness:
  "consume_fifo demo_valuation_env demo_shipment ''bolt'' (demo_bolts 21) 91 None demo_valuation = Inl (InsufficientInventoryError ''bolt'' 21 20 ''EA'')"
proof -
  have "strip ''EA'' \<noteq> []" by code_simp
  moreover have "sound_links (vs_links demo_valuation)"
    by (simp add: sound_links_def demo_valuation_def empty_links_def valid_rows_def)
  moreover have "lk_rows (vs_links demo_valuation) = []" "length (vs_lots demo_valuation) = 2" by (simp_all add: demo_valuation_def empty_links_def)
  moreover have "inj_on (ve_link_id demo_valuation_env) {0..<2}"
    by (auto simp: inj_on_def demo_valuation_env_def numeral_2_eq_2 less_Suc_eq)
  ultimately show ?thesis
    using consumption_answers [OF demo_service_one _ _ demo_lots_distinct, where q = "demo_bolts 21" and item = "''bolt''" and loc = None
        and consumer = demo_shipment and ev = 91 and meth = COST_FIFO]
    unfolding consume_fifo_def demo_layers sum.case demo_available
    by (simp add: demo_bolts_def demo_valuation_env_def demo_service_def)
qed

text \<open>
  Property C21. Consumption takes the lots in date order, oldest first, or newest first for LIFO, each as far as it goes: what
  it takes is the greedy allocation of the quantity over the layers, it adds up to the quantity asked for, no layer
  gives more than it has, and each part costs its quantity times the unit cost of its lot.
\<close>

theorem consumption_greedy:
  assumes "consume_with_method env consumer item q ev meth loc s = Inr (r, s')" "get_available_layers item loc None s = Inr ys"
    and "exact_terms k (map (q_value \<circ> ly_quantity) ys)" "on_grid k (q_value q)" "distinct (map rw_id (vs_lots s))"
  shows "map (q_value \<circ> lc_quantity) (cn_layers r)
      = filter (\<lambda>x. 0 < x) (greedy (q_value q) (map (Some \<circ> q_value \<circ> ly_quantity) (layer_order meth ys)))
    \<and> map lc_lot_id (cn_layers r) = take (length (cn_layers r)) (map (lot_id \<circ> ly_lot) (layer_order meth ys))
    \<and> sum_list (map (q_value \<circ> lc_quantity) (cn_layers r)) = q_value q \<and> q_value (cn_quantity r) = q_value q
    \<and> (\<forall>c \<in> set (cn_layers r). \<exists>y \<in> set ys. consume_layer y (lc_quantity c) = Inr c
         \<and> 0 < q_value (lc_quantity c) \<and> q_value (lc_quantity c) \<le> q_value (ly_quantity y))"
proof -
  let ?ys = "layer_order meth ys" and ?a = "q_value q"
  let ?qs = "map (q_value \<circ> ly_quantity) ?ys"
  let ?es = "map (Some \<circ> q_value \<circ> ly_quantity) ?ys"
  obtain cs ls where c: "?a \<le> dsum (map (q_value \<circ> ly_quantity) ys)"
    "consume_layers env consumer ev (q_unit q) ?a 0 ?ys (vs_links s) = Inr (cs, ls)" "cn_layers r = map fst cs"
    "q_value (cn_quantity r) = dsum (map (q_value \<circ> lc_quantity) (map fst cs))" "0 < ?a"
    using assms(1) by (rule consume_with_method_Inr) (use assms(2) in auto)
  note pos = available_layers_Inr(2) [OF assms(2,5)]
  have grid: "\<forall>y \<in> set ?ys. 0 < q_value (ly_quantity y) \<and> on_grid k (q_value (ly_quantity y))"
    using pos assms(3) by (auto simp: exact_terms_def list_all_iff)
  have total: "dsum (map (q_value \<circ> ly_quantity) ys) = sum_list ?qs"
    using dsum_exact [OF assms(3)] by (metis layer_order_facts(2) mset_map sum_mset_sum_list)
  have "\<bar>sum_list (map (q_value \<circ> ly_quantity) ys)\<bar> * 10 ^ k < 10 ^ 28" by (rule exact_terms_sum(2) [OF assms(3)])
  then have bound: "?a * 10 ^ k < 10 ^ 28"
    using c(1) dsum_exact [OF assms(3)] by (intro le_less_trans [OF mult_right_mono [of ?a "\<bar>sum_list (map (q_value \<circ> ly_quantity) ys)\<bar>"]]) auto
  note g = consume_layers_greedy [OF c(2) less_imp_le [OF c(5)] assms(4) bound grid]
  have nn: "list_all (\<lambda>e. case e of None \<Rightarrow> True | Some z \<Rightarrow> 0 \<le> z) ?es" using pos by (auto simp: list_all_iff less_imp_le)
  have "sum_list (greedy ?a ?es) = ?a"
  proof (rule ccontr)
    assume "sum_list (greedy ?a ?es) \<noteq> ?a"
    then have lt: "sum_list (greedy ?a ?es) < ?a" using greedy_sum_le [OF less_imp_le [OF c(5)] nn] by simp
    then have "map Some (greedy ?a ?es) = ?es" using greedy_leftover [OF less_imp_le [OF c(5)] nn] by simp
    then have "map Some (greedy ?a ?es) = map Some ?qs" by (simp only: map_map comp_assoc)
    then have "greedy ?a ?es = ?qs" by (rule map_injective) (simp add: inj_def)
    then show False using lt c(1) total by simp
  qed
  moreover have filt: "sum_list (filter (\<lambda>x. 0 < x) xs) = sum_list xs" if "list_all (\<lambda>x. 0 \<le> x) xs" for xs :: "rat list"
    using that by (induction xs) auto
  ultimately have sum: "sum_list (map (q_value \<circ> lc_quantity) (cn_layers r)) = ?a"
    using g greedy_sum_le [OF less_imp_le [OF c(5)] nn] filt by (simp add: c(3) comp_assoc)
  have "list_all (on_grid k) (greedy ?a ?es)" using grid by (intro greedy_grid [OF assms(4)]) (simp add: list_all_iff)
  moreover have "map abs xs = xs" if "\<forall>x \<in> set xs. 0 < x" for xs :: "rat list" using that by (intro map_idI) auto
  ultimately have "exact_terms k (map (q_value \<circ> lc_quantity) (map fst cs))"
    using g sum bound by (auto simp: exact_terms_def c(3) comp_assoc list_all_iff)
  then have "q_value (cn_quantity r) = ?a" using sum by (simp add: c(3,4) dsum_exact)
  moreover have "\<forall>c \<in> set (cn_layers r). \<exists>y \<in> set ys. consume_layer y (lc_quantity c) = Inr c
         \<and> 0 < q_value (lc_quantity c) \<and> q_value (lc_quantity c) \<le> q_value (ly_quantity y)"
    using consume_layers_taken [OF c(2)] by (auto simp: c(3))
  ultimately show ?thesis using g sum by (simp add: c(3) comp_assoc)
qed

theorem consumption_greedy_witness:
  "\<exists>r s'. consume_fifo demo_valuation_env demo_shipment ''bolt'' (demo_bolts 15) 91 None demo_valuation = Inr (r, s')
     \<and> map (q_value \<circ> lc_quantity) (cn_layers r) = [10, 5] \<and> map lc_lot_id (cn_layers r) = [2, 1]"
proof -
  obtain r s' where c: "consume_with_method demo_valuation_env demo_shipment ''bolt'' (demo_bolts 15) 91 COST_FIFO None demo_valuation = Inr (r, s')"
    using demo_consumed by blast
  let ?ys = "[full_layer (demo_lot 2 3 500), full_layer (demo_lot 1 5 800)]"
  have o: "layer_order COST_FIFO ?ys = ?ys" by (simp add: layer_order_def full_layer_def demo_lot_def)
  have "on_grid 0 (q_value (demo_bolts 15))" using on_grid_ops(6) [of 0 15] by (simp add: demo_bolts_def)
  from consumption_greedy [OF c demo_layers demo_lots_exact this demo_lots_distinct]
  have g: "map (q_value \<circ> lc_quantity) (cn_layers r) = filter (\<lambda>x. 0 < x) (greedy 15 (map (Some \<circ> q_value \<circ> ly_quantity) ?ys))"
    "map lc_lot_id (cn_layers r) = take (length (cn_layers r)) (map (lot_id \<circ> ly_lot) ?ys)"
    unfolding o by (simp_all only: demo_bolts_def quantity.simps of_nat_numeral)
  have q: "map (q_value \<circ> lc_quantity) (cn_layers r) = [10, 5]" using g(1) by (simp add: full_layer_def demo_lot_def Let_def)
  then have "length (cn_layers r) = 2" by (metis length_map length_Cons list.size(3) numeral_2_eq_2)
  then have "map lc_lot_id (cn_layers r) = [2, 1]" using g(2) by (simp add: full_layer_def demo_lot_def)
  then show ?thesis unfolding consume_fifo_def by (intro exI [of _ r] exI [of _ s'] conjI c q)
qed

text \<open>
  Property C22. A consumption by a new consumer is recorded: in each lot it took from, the consumed amount grows by exactly the
  cost of what was taken and one more link is counted, and what is left of every other lot is what it was. The
  lots themselves do not change.
\<close>

theorem consumption_recorded:
  assumes "consume_with_method env consumer item q ev meth loc s = Inr (r, s')"
    and "query_one (lv_one (ve_service env))" "set (lk_committed (vs_links s)) \<subseteq> set (lk_rows (vs_links s))"
    and "distinct (map rw_id (vs_lots s))" "\<forall>i. consumed_key i consumer \<notin> link_key ` set (lk_rows (vs_links s))"
    and "lot_unconsumed (lk_rows (vs_links s)) l = Inr uv"
  shows "vs_lots s' = vs_lots s \<and> distinct (map lc_lot_id (cn_layers r))
    \<and> lot_unconsumed (lk_rows (vs_links s')) l =
       (case find (\<lambda>c. lc_lot_id c = lot_id l) (cn_layers r) of
          None \<Rightarrow> Inr uv
        | Some c \<Rightarrow>
            let t = dadd (amount (uv_consumed_amount uv)) (amount (lc_cost c)); cur = currency (lot_cost l)
            in Inr (uv\<lparr>uv_consumed_amount := \<lparr>amount = t, currency = cur\<rparr>,
                 uv_remaining_amount := \<lparr>amount = dsub (amount (lot_cost l)) t, currency = cur\<rparr>,
                 uv_child_count := Suc (uv_child_count uv)\<rparr>))"
proof -
  obtain ys cs ls where c: "get_available_layers item loc None s = Inr ys"
    "consume_layers env consumer ev (q_unit q) (q_value q) 0 (layer_order meth ys) (vs_links s) = Inr (cs, ls)"
    "s' = s\<lparr>vs_links := ls\<rparr>" "cn_layers r = map fst cs"
    using assms(1) by (rule consume_with_method_Inr) (use that in blast)
  have "distinct (map (lot_id \<circ> ly_lot) (layer_order meth ys))"
    using available_layers_Inr(1) [OF c(1) assms(4)] by (simp add: layer_order_distinct)
  from consume_layers_rows [OF assms(2,3) c(2) this] assms(5)
  have rows: "lk_rows ls = lk_rows (vs_links s) @ map snd cs" and d: "distinct (map (lc_lot_id \<circ> fst) cs)"
    and links: "\<And>c l. (c, l) \<in> set cs \<Longrightarrow> \<exists>i. l = consumption_link env i consumer ev c \<and> mk_economic_link l = Inr l"
    by fastforce+
  note taken = consume_layers_taken [OF c(2)]
  have refs: "lc_lot_ref c = \<lparr>ar_type = A_COST_LOT, ar_id = lc_lot_id c\<rparr>" "dfix (amount (lc_cost c)) = amount (lc_cost c)"
    if m: "(c, l) \<in> set cs" for c l
  proof -
    obtain y where "consume_layer y (lc_quantity c) = Inr c" using taken [OF m] by auto
    then show "lc_lot_ref c = \<lparr>ar_type = A_COST_LOT, ar_id = lc_lot_id c\<rparr>" "dfix (amount (lc_cost c)) = amount (lc_cost c)"
      using consume_layer_Inr(1,2) consumed_fixed by (simp_all add: lot_ref_def)
  qed
  let ?mine = "filter (\<lambda>x. lc_lot_id (fst x) = lot_id l) cs"
  have "get_children (lot_ref l) (Some [CONSUMED_BY]) (map snd cs) = Inr (map snd ?mine)"
  proof -
    have "filter (\<lambda>x. el_parent_ref x = lot_ref l \<and> of_types (Some [CONSUMED_BY]) x) (map snd cs) = map snd ?mine"
      unfolding filter_map comp_def
    proof (rule arg_cong [where f = "map snd"], rule filter_cong [OF refl])
      fix x assume x: "x \<in> set cs"
      obtain c k where "x = (c, k)" by (cases x)
      then show "(el_parent_ref (snd x) = lot_ref l \<and> of_types (Some [CONSUMED_BY]) (snd x)) = (lc_lot_id (fst x) = lot_id l)"
        using links [of c k] refs(1) [of c k] x by (auto simp: lot_ref_def of_types_def)
    qed
    moreover have "rtraverse (\<lambda>r. lpy (link_to_domain r)) xs = Inr xs" if "\<forall>x \<in> set xs. mk_economic_link x = Inr x" for xs
      using that by (induction xs) (simp_all add: link_to_domain_def)
    moreover have "\<forall>x \<in> set (map snd ?mine). mk_economic_link x = Inr x" using links by fastforce
    ultimately show ?thesis by (simp add: get_children_def)
  qed
  moreover have "?mine = (case find (\<lambda>x. lc_lot_id (fst x) = lot_id l) cs of None \<Rightarrow> [] | Some x \<Rightarrow> [x])"
    using filter_unique_key [of "lc_lot_id \<circ> fst" cs "lot_id l"] d by simp
  moreover have f: "find (\<lambda>c. lc_lot_id c = lot_id l) (map fst cs) = map_option fst (find (\<lambda>x. lc_lot_id (fst x) = lot_id l) cs)"
    by (induction cs) auto
  ultimately have ch: "get_children (lot_ref l) (Some [CONSUMED_BY]) (map snd cs)
      = Inr (case find (\<lambda>x. lc_lot_id (fst x) = lot_id l) cs of None \<Rightarrow> [] | Some x \<Rightarrow> [snd x])"
    by (simp split: option.split)
  have "lot_unconsumed (lk_rows ls) l =
       (case find (\<lambda>c. lc_lot_id c = lot_id l) (map fst cs) of
          None \<Rightarrow> Inr uv
        | Some c \<Rightarrow>
            let t = dadd (amount (uv_consumed_amount uv)) (amount (lc_cost c)); cur = currency (lot_cost l)
            in Inr (uv\<lparr>uv_consumed_amount := \<lparr>amount = t, currency = cur\<rparr>,
                 uv_remaining_amount := \<lparr>amount = dsub (amount (lot_cost l)) t, currency = cur\<rparr>,
                 uv_child_count := Suc (uv_child_count uv)\<rparr>))"
  proof (cases "find (\<lambda>x. lc_lot_id (fst x) = lot_id l) cs")
    case None
    then show ?thesis using unconsumed_other [OF ch [unfolded None option.case]] assms(6) f by (simp add: lot_unconsumed_def rows)
  next
    case (Some x)
    obtain c k where x: "x = (c, k)" by (cases x)
    have "x \<in> set cs" using Some by (auto simp: find_Some_iff)
    then have "metadata_amount ''cost_consumed'' k = Inr (Some (amount (lc_cost c)))"
      using links [of c k] refs(2) [of c k] consumption_link_amount by (auto simp: x)
    then show ?thesis
      using unconsumed_added [OF ch [unfolded Some option.case x snd_conv]] assms(6) f Some by (simp add: lot_unconsumed_def rows x Let_def)
  qed
  then show ?thesis using d by (simp add: c(3,4) comp_def)
qed

theorem consumption_recorded_witness:
  "\<exists>r s'. consume_lifo demo_valuation_env demo_shipment ''bolt'' (demo_bolts 15) 91 None demo_valuation = Inr (r, s')
     \<and> vs_lots s' = vs_lots demo_valuation \<and> lot_unconsumed (lk_rows (vs_links s')) (demo_lot 2 3 500) =
         (case find (\<lambda>c. lc_lot_id c = 2) (cn_layers r) of
            None \<Rightarrow> lot_unconsumed [] (demo_lot 2 3 500)
          | Some c \<Rightarrow> Inr \<lparr>uv_artifact_ref = demo_ref A_COST_LOT 2, uv_original_amount = \<lparr>amount = 500, currency = Currency ''USD''\<rparr>,
              uv_consumed_amount = \<lparr>amount = dadd 0 (amount (lc_cost c)), currency = Currency ''USD''\<rparr>,
              uv_remaining_amount = \<lparr>amount = dsub 500 (dadd 0 (amount (lc_cost c))), currency = Currency ''USD''\<rparr>, uv_child_count = 1\<rparr>)"
proof -
  obtain r s' where c: "consume_with_method demo_valuation_env demo_shipment ''bolt'' (demo_bolts 15) 91 COST_LIFO None demo_valuation = Inr (r, s')"
    using demo_consumed by blast
  have l: "lk_rows (vs_links demo_valuation) = []" "lk_committed (vs_links demo_valuation) = []" by (simp_all add: demo_valuation_def empty_links_def)
  have u: "lot_unconsumed [] (demo_lot 2 3 500) = Inr \<lparr>uv_artifact_ref = demo_ref A_COST_LOT 2,
      uv_original_amount = \<lparr>amount = 500, currency = Currency ''USD''\<rparr>, uv_consumed_amount = \<lparr>amount = 0, currency = Currency ''USD''\<rparr>,
      uv_remaining_amount = \<lparr>amount = 500, currency = Currency ''USD''\<rparr>, uv_child_count = 0\<rparr>"
    by code_simp
  have i: "lot_id (demo_lot 2 3 500) = 2" "lot_cost (demo_lot 2 3 500) = \<lparr>amount = 500, currency = Currency ''USD''\<rparr>" by (simp_all add: demo_lot_def)
  from consumption_recorded [OF c demo_service_one _ demo_lots_distinct _ u [folded l(1)]]
  have "vs_lots s' = vs_lots demo_valuation" "lot_unconsumed (lk_rows (vs_links s')) (demo_lot 2 3 500) =
       (case find (\<lambda>c. lc_lot_id c = 2) (cn_layers r) of
          None \<Rightarrow> lot_unconsumed [] (demo_lot 2 3 500)
        | Some c \<Rightarrow> Inr \<lparr>uv_artifact_ref = demo_ref A_COST_LOT 2, uv_original_amount = \<lparr>amount = 500, currency = Currency ''USD''\<rparr>,
              uv_consumed_amount = \<lparr>amount = dadd 0 (amount (lc_cost c)), currency = Currency ''USD''\<rparr>,
              uv_remaining_amount = \<lparr>amount = dsub 500 (dadd 0 (amount (lc_cost c))), currency = Currency ''USD''\<rparr>, uv_child_count = 1\<rparr>)"
    by (simp_all add: l u i Let_def split: option.split)
  then show ?thesis unfolding consume_lifo_def by (intro exI [of _ r] exI [of _ s'] conjI c)
qed

text \<open>
  Property C40. Consuming again under the same consumer is free: when every lot of the item already has a link to the consumer,
  the call still returns positive quantities and their cost, and records nothing, so the same inventory is
  available as before.
\<close>

theorem reconsumption_free:
  assumes "consume_with_method env consumer item q ev meth loc s = Inr (r, s')"
    and "query_one (lv_one (ve_service env))" "set (lk_committed (vs_links s)) \<subseteq> set (lk_rows (vs_links s))"
    and "distinct (map rw_id (vs_lots s))"
    and "\<forall>x \<in> set (vs_lots s). rw_item_id x = item \<longrightarrow> consumed_key (rw_id x) consumer \<in> link_key ` set (lk_rows (vs_links s))"
  shows "s' = s \<and> cn_layers r \<noteq> [] \<and> (\<forall>c \<in> set (cn_layers r). 0 < q_value (lc_quantity c))"
proof -
  obtain ys cs ls where c: "get_available_layers item loc None s = Inr ys"
    "consume_layers env consumer ev (q_unit q) (q_value q) 0 (layer_order meth ys) (vs_links s) = Inr (cs, ls)"
    "s' = s\<lparr>vs_links := ls\<rparr>" "cn_layers r = map fst cs" "cs \<noteq> []"
    using assms(1) by (rule consume_with_method_Inr) (use that in blast)
  have "\<forall>y \<in> set (layer_order meth ys). consumed_key (lot_id (ly_lot y)) consumer \<in> link_key ` set (lk_rows (vs_links s))"
    using available_layers_Inr(3) [OF c(1) assms(4)] assms(5) by force
  then have "ls = vs_links s" using consume_layers_stored [OF assms(2,3) c(2)] by blast
  then show ?thesis using consume_layers_taken [OF c(2)] c(3-5) by auto
qed

definition demo_used_link :: economic_link where
  "demo_used_link = \<lparr>el_link_id = 7, el_link_type = CONSUMED_BY, el_parent_ref = demo_ref A_COST_LOT 1, el_child_ref = demo_shipment,
     el_creating_event_id = 90, el_created_at = 2, el_metadata = Some [(''cost_consumed'', JStr ''400'')]\<rparr>"

definition demo_used :: valuation_state where
  "demo_used = \<lparr>vs_lots = [demo_lot_row 1 5 800], vs_links = \<lparr>lk_committed = [], lk_rows = [demo_used_link]\<rparr>, vs_standard_costs = Map.empty\<rparr>"

theorem reconsumption_free_witness:
  "\<exists>r. consume_fifo demo_valuation_env demo_shipment ''bolt'' (demo_bolts 5) 92 None demo_used = Inr (r, demo_used) \<and> cn_layers r \<noteq> []"
proof -
  define y where "y = \<lparr>ly_lot = demo_lot 1 5 800, ly_quantity = demo_bolts 5, ly_value = \<lparr>amount = 400, currency = Currency ''USD''\<rparr>, ly_count = 1\<rparr>"
  have ys: "get_available_layers ''bolt'' None None demo_used = Inr [y]" unfolding y_def by code_simp
  have d: "distinct (map rw_id (vs_lots demo_used))" by (simp add: demo_used_def)
  have t: "exact_terms 0 (map (q_value \<circ> ly_quantity) [y])" using on_grid_ops(6) [of 0 5] by (simp add: exact_terms_def y_def demo_bolts_def)
  have a: "dsum (map (q_value \<circ> ly_quantity) [y]) = 5" unfolding dsum_exact [OF t] by (simp add: y_def demo_bolts_def)
  have "strip ''EA'' \<noteq> []" by code_simp
  moreover have "sound_links (vs_links demo_used)" "may_consume demo_shipment"
    by (simp_all add: sound_links_def may_consume_def demo_used_def valid_rows_def demo_used_link_def demo_shipment_def demo_ref_def mk_economic_link_def
        mk_spec_def spec_validate_def)
  moreover have "el_link_id ` set (lk_rows (vs_links demo_used)) = {7}" by (simp add: demo_used_def demo_used_link_def)
  ultimately obtain r s' where c: "consume_with_method demo_valuation_env demo_shipment ''bolt'' (demo_bolts 5) 92 COST_FIFO None demo_used = Inr (r, s')"
    using consume_with_method_total [OF demo_service_one _ _ _ ys d, of demo_shipment "demo_bolts 5" 92 COST_FIFO]
    unfolding a by (auto simp: demo_bolts_def demo_valuation_env_def demo_service_def)
  have "consumed_key 1 demo_shipment \<in> link_key ` set (lk_rows (vs_links demo_used))"
    by (simp add: demo_used_def demo_used_link_def consumed_key_def link_key_def demo_ref_def)
  moreover have "\<forall>x \<in> set (vs_lots demo_used). rw_id x = 1" by (simp add: demo_used_def demo_lot_row_def)
  moreover have "set (lk_committed (vs_links demo_used)) \<subseteq> set (lk_rows (vs_links demo_used))" by (simp add: demo_used_def)
  ultimately have "s' = demo_used \<and> cn_layers r \<noteq> []" using reconsumption_free [OF c demo_service_one _ d] by simp
  then show ?thesis using c unfolding consume_fifo_def by blast
qed

section \<open>Lots that never run out\<close>

text \<open>A lot that cost nothing always has its original quantity left, whatever was taken from it.\<close>

lemma free_lot_never_depletes:
  assumes "layer_of_lot rows l = Inr y" "amount (lot_cost l) = 0" "0 < q_value (lot_quantity l)"
  shows "q_value (ly_quantity y) = q_value (lot_quantity l) \<and> ly_is_available y"
  using assms
  by (auto simp: layer_of_lot_def lot_unit_cost_def ddiv_def rbind_eq_Inr rmap_eq_Inr money_of_def money_is_zero_def mk_quantity_def
      ly_is_available_def split: if_splits)

text \<open>Nor does a lot whose links leave any of its cost, as they do when the unit cost was rounded down: no quantity is too small.\<close>

lemma residue_stays_available:
  assumes "layer_of_lot rows l = Inr y" "lot_unconsumed rows l = Inr uv" "lot_unit_cost l = Inr u" "0 < amount u" "0 < amount (uv_remaining_amount uv)"
  shows "ly_is_available y"
  using assms
  by (auto simp: layer_of_lot_def ddiv_def rbind_eq_Inr rmap_eq_Inr money_is_zero_def mk_quantity_def ly_is_available_def split: if_splits)

end
