(* ===== verification/Spec2Isabelle.thy ===== *)
theory Spec2Isabelle
  imports Period_Service Retry_Service Strategy_Registry Reversal_Service Module_Posting Workflow_Executor Period_Close Valuation
begin

text \<open>
  A verification library for the posting kernel of the finance system: \<open>src/finance_kernel\<close>, engines
  of \<open>src/finance_engines\<close>, and the workflow executor, subledgers and period close of \<open>src/finance_services\<close>. Paths without a
  first directory are below \<open>finance_kernel\<close>.

  \<^bold>\<open>The program.\<close> Business events are ingested into the kernel, a policy gives each an economic meaning, a
  strategy or an accounting intent turns it into journal lines, and services write them into an append-only
  journal, where entries are only ever reversed. Around that core stand
  fiscal periods, which decide what may still be posted; a hash-chained audit log; the outcome table,
  which records what became of every event and drives retries; and the graph of economic links
  between artifacts. All state lives in database tables reached through an SQLAlchemy session. The
  theories model tables as lists of rows in insertion order, a session as the committed rows
  and the rows it sees, exceptions as the left values of a sum, and every clock reading, generated
  identifier or concurrent write as an explicit argument.

  \<^bold>\<open>The theories.\<close>
  \<^item> \<open>Prelude\<close>: results with exceptions, Python text and dates, UUIDs as 128-bit words, the contracts
    \<open>query_one\<close> (SQLAlchemy's \<open>scalar_one_or_none\<close>, the one third-party operation the services
    rely on) and \<open>unique_table\<close> (a table with a UNIQUE column).
  \<^item> \<open>Decimal\<close>: Python's decimal arithmetic at 28 digits, rounding modes, and when it is exact.
  \<^item> \<open>Currency\<close>, \<open>Values\<close>, \<open>Dtos\<close>: \<open>domain/currency.py\<close>, \<open>domain/values.py\<close>,
    \<open>domain/dtos.py\<close>. Money and quantities share the contract \<open>tagged_value\<close>.
  \<^item> \<open>Posting_Strategy\<close>: \<open>domain/strategy.py\<close>. A proposed entry balances in every currency, its lines are
    the strategy's plus at most one bounded rounding line, and set iteration order does not matter.
  \<^item> \<open>Strategy_Registry\<close>: \<open>domain/strategy_registry.py\<close> and \<open>domain/bookkeeper.py\<close>. The registry refines
    a partial map; proposals replay under their recorded strategy version.
  \<^item> \<open>Accounting_Intent\<close>: \<open>domain/accounting_intent.py\<close>, intents, balance, idempotency keys.
  \<^item> \<open>Sequence_Service\<close>: \<open>services/sequence_service.py\<close>. Numbers drawn are strictly increasing.
  \<^item> \<open>Journal_Store\<close>, \<open>Journal_Writer\<close>, \<open>Journal_Safety\<close>, \<open>Journal_Properties\<close>: \<open>models/journal.py\<close> and
    \<open>services/journal_writer.py\<close>. The operations are one definition each, the sessions reachable through them
    satisfy an invariant, and from it follow the ledger properties: entries balance, the ledger's
    debits equal its credits, committed entries never change, writing twice changes nothing, a
    reversal cancels its original. The inserts that collide with an entry of another transaction are the
    definition \<open>write_conflict\<close>; a write without one (\<open>no_collision\<close>) is complete, one with it may lose entries.
  \<^item> \<open>Period_Service\<close>: \<open>models/fiscal_period.py\<close>, \<open>services/period_service.py\<close>. Periods never overlap, a closed
    period never accepts an ordinary posting again.
  \<^item> \<open>Hashing\<close>, \<open>Audit_Chain\<close>: \<open>utils/hashing.py\<close>, \<open>services/auditor_service.py\<close>. The hash function is a
    parameter. Every log written validates; two validating logs with one last hash agree.
  \<^item> \<open>Outcome_Recorder\<close>, \<open>Retry_Service\<close>: \<open>models/interpretation_outcome.py\<close>,
    \<open>services/outcome_recorder.py\<close>, \<open>services/retry_service.py\<close>. One outcome per event, terminal outcomes are
    final, retries end, and every maximal run settles.
  \<^item> \<open>Economic_Link\<close>, \<open>Link_Graph\<close>: \<open>domain/economic_link.py\<close>, \<open>services/link_graph_service.py\<close>. The depth-first
    cycle search is exact and keeps the graphs of the link types acyclic that no other transaction writes at the same time
    (the set \<open>T\<close> of \<open>link_step\<close>); a concurrent commit can close a cycle.
  \<^item> \<open>Allocation\<close>: \<open>finance_engines/allocation.py\<close>. Sequential allocation is greedy, ratio allocation
    distributes the whole amount if the last target takes the rounding.
  \<^item> \<open>Ingestor\<close>: \<open>domain/event_validator.py\<close>, \<open>models/event.py\<close>, \<open>services/ingestor_service.py\<close>. Events are stored once and
    never change.
  \<^item> \<open>Reversal_Service\<close>: \<open>services/reversal_service.py\<close>, the composition of journal, periods, events, links and audit
    log. A reversal that returns is complete; an entry is reversed once.
  \<^item> \<open>Guard_Expression\<close>: the expression language of guards and controls (\<open>domain/meaning_builder.py\<close>,
    \<open>domain/control.py\<close>) with Python's text conversion and decimal parsing: what a numeric guard decides, and which
    shipped guards are dead.
  \<^item> \<open>Meaning_Builder\<close>: \<open>domain/accounting_policy.py\<close>, \<open>domain/meaning_builder.py\<close>. The first guard that triggers decides.
  \<^item> \<open>Interpretation_Coordinator\<close>: \<open>services/interpretation_coordinator.py\<close>. Outcome, economic event and journal entries are
    written together or not at all.
  \<^item> \<open>Party_Service\<close>: \<open>models/party.py\<close>, \<open>services/party_service.py\<close>. Who may transact, and that closing a party is not final.
  \<^item> \<open>Policy_Selector\<close>, \<open>Policy_Bridge\<close>: \<open>domain/policy_selector.py\<close>, \<open>domain/policy_bridge.py\<close>. Registry and index agree,
    a selected policy is admissible, and what the lines of an intent built from it add up to.
  \<^item> \<open>Module_Posting\<close>: \<open>services/module_posting_service.py\<close>, the composition of parties, periods, ingestion, controls, policies,
    meaning, intent and coordinator: what the status POSTED means, end to end.
  \<^item> \<open>Approval_Rules\<close>, \<open>Approval_Service\<close>, \<open>Workflow_Executor\<close>: \<open>domain/approval.py\<close>, \<open>services/approval_service.py\<close>,
    \<open>models/approval.py\<close>, \<open>domain/workflow.py\<close>, \<open>finance_engines/approval.py\<close>, and \<open>workflow_executor.py\<close> and
    \<open>rbac_authority.py\<close> of \<open>finance_services\<close>. Rule selection, the lifecycle of approval requests, which the
    public \<open>record_auto_approval\<close> can override, and what a workflow
    transition that passes has passed.
  \<^item> \<open>Subledger\<close>, \<open>Subledger_Properties\<close>: \<open>finance_engines/subledger.py\<close>, the subledger services and bridge of
    \<open>finance_services\<close>, \<open>models/subledger.py\<close>, \<open>selectors/subledger_selector.py\<close>. What matching keeps, that
    rows are final and unique per line, and that the bridge adds nothing net.
  \<^item> \<open>Subledger_Close\<close>, \<open>Period_Close\<close>: \<open>domain/subledger_control.py\<close>, and \<open>subledger_period_service.py\<close>,
    \<open>period_close_orchestrator.py\<close>, \<open>_close_types.py\<close> of \<open>finance_services\<close>. When a subledger closes, what a completed
    close means, and that with subledgers configured none completes.
  \<^item> \<open>Cost_Lot\<close>, \<open>Valuation\<close>: \<open>finance_engines/valuation/cost_lot.py\<close>, \<open>models/cost_lot.py\<close>, the sums over link
    metadata of \<open>link_graph_service.py\<close>, and \<open>finance_services/valuation_service.py\<close>. Consumption is the greedy
    allocation over the lots in date order, recorded as links, and answers on every branch; consuming again under the same consumer is free.

  \<^bold>\<open>Interfaces.\<close> What one component relies on in another is a locale: \<open>query_one\<close>, \<open>unique_table\<close>,
  \<open>rounding_mode\<close>, \<open>tagged_value\<close>, \<open>sequence_source\<close>, \<open>role_source\<close>, \<open>period_queries\<close> and
  \<open>posting_calendar\<close>, \<open>outcome_table\<close> and \<open>outcome_transition\<close>, \<open>strategy_source\<close>, \<open>search_graph\<close>. Each is
  interpreted on the model's own definitions.

  \<^bold>\<open>Other transactions.\<close> Where a theorem rests on what they do, it says so as a hypothesis: \<open>no_collision\<close> for a journal
  write, \<open>uncontended\<close> and \<open>no_contention\<close> for a posting that contains it, the set \<open>T\<close> of link types for the link
  graph. Without it the property fails, and a lemma beside it shows how (\<open>conflict_loses_entries\<close>, \<open>concurrent_cycle\<close>).

  \<^bold>\<open>Bounds.\<close> Totals of decimals are exact when all amounts lie on a grid of \<open>10 ^ -k\<close> and their absolute
  values sum to less than \<open>10 ^ (28 - k)\<close>; with the nine places of the journal's columns that is
  \<open>10 ^ 19\<close>. The theorems that need exactness state it. The cycle search takes the number of stack frames
  Python allows; one more than the number of stored links and the starting artifact is shown to be
  enough. All other loops are structural.

  \<^bold>\<open>Not modelled.\<close> Human-readable messages, logging, tracing and metrics; the ORM listeners (those on subledger rows
  apart) and database triggers that enforce immutability a second time; column widths and scales; NaN and infinite decimals; Python's memory
  and time limits. Of the kernel: compilation of policies, reference snapshots, contracts, selectors but those of
  subledgers and account balances. Outside it: the
  configuration compiler (\<open>finance_config\<close>), the industry modules (\<open>finance_modules\<close>), batch and
  ingestion, reporting services and the other engines. They are listed in the manifest with the
  reason for each.
\<close>

end
